(* ===== verification/Prelude.thy ===== *)
theory Prelude
  imports Main "HOL-Library.AList" "HOL-Library.List_Lexorder" "HOL-Library.Product_Lexorder"
begin

text \<open>
  Shared vocabulary of the development: the collections of simplification rules, results of
  operations that may throw, and the lemmas on association lists and updated tables that every
  stateful component uses.

  A JavaScript string is a list of UTF-16 code units. A \<open>Map\<close> whose iteration order matters is an
  association list in insertion order: \<open>AList.update\<close> keeps the place of a key that is already
  there and appends a new one, which is what \<open>Map.prototype.set\<close> does.
\<close>

named_theorems tx_simps "unfolding rules of the transactional operations"
named_theorems store_simps "rules that read the database tables after an update"

type_synonym jstr = "nat list"

text \<open>A string literal of the source, as its code units.\<close>

definition js :: "string \<Rightarrow> jstr" where
  "js s = map of_char s"

lemma js_Nil [simp]: "js [] = []"
  by (simp add: js_def)

lemma js_Cons: "js (c # s) = of_char c # js s"
  by (simp add: js_def)

lemma length_js [simp]: "length (js s) = length s"
  by (simp add: js_def)

lemma js_append: "js (s @ t) = js s @ js t"
  by (simp add: js_def)

lemma js_inj [simp]: "js s = js t \<longleftrightarrow> s = t"
  by (auto simp: js_def inj_map_eq_map inj_on_def)

subsection \<open>Results\<close>

text \<open>An operation that may throw returns \<open>Inl error\<close> or \<open>Inr value\<close>.\<close>

definition rbind :: "'e + 'a \<Rightarrow> ('a \<Rightarrow> 'e + 'b) \<Rightarrow> 'e + 'b" where
  "rbind m f = (case m of Inl e \<Rightarrow> Inl e | Inr x \<Rightarrow> f x)"

lemma rbind_simps [simp]:
  "rbind (Inl e) f = Inl e"
  "rbind (Inr x) f = f x"
  by (simp_all add: rbind_def)

lemma rbind_eq_Inr: "rbind m f = Inr y \<longleftrightarrow> (\<exists>x. m = Inr x \<and> f x = Inr y)"
  by (cases m) auto

lemma rbind_eq_Inl: "rbind m f = Inl e \<longleftrightarrow> m = Inl e \<or> (\<exists>x. m = Inr x \<and> f x = Inl e)"
  by (cases m) auto

lemma rbind_assoc: "rbind (rbind m f) g = rbind m (\<lambda>x. rbind (f x) g)"
  by (cases m) auto

definition require :: "bool \<Rightarrow> 'e \<Rightarrow> 'e + unit" where
  "require b e = (if b then Inr () else Inl e)"

lemma require_simps [simp]:
  "require True e = Inr ()"
  "require False e = Inl e"
  "require b e = Inr u \<longleftrightarrow> b"
  by (simp_all add: require_def)

subsection \<open>Tables\<close>

text \<open>
  A table is the list of its rows in insertion order. \<open>find\<close> is \<open>SELECT ... WHERE id = ?\<close>, an
  update maps the rows that match, and the number of rows changed is what the driver reports.
\<close>

definition upd_where :: "('r \<Rightarrow> bool) \<Rightarrow> ('r \<Rightarrow> 'r) \<Rightarrow> 'r list \<Rightarrow> 'r list" where
  "upd_where p f rows = map (\<lambda>r. if p r then f r else r) rows"

definition count_where :: "('r \<Rightarrow> bool) \<Rightarrow> 'r list \<Rightarrow> nat" where
  "count_where p rows = length (filter p rows)"

text \<open>Replace the row with the same key.\<close>

definition put_row :: "('r \<Rightarrow> 'k) \<Rightarrow> 'r \<Rightarrow> 'r list \<Rightarrow> 'r list" where
  "put_row key row rows = upd_where (\<lambda>r. key r = key row) (\<lambda>_. row) rows"

lemma find_key_Some:
  "find (\<lambda>r. key r = k) rows = Some row \<Longrightarrow> row \<in> set rows \<and> key row = k"
  by (auto simp: find_Some_iff)

lemma find_key_None: "find (\<lambda>r. key r = k) rows = None \<longleftrightarrow> k \<notin> key ` set rows"
  by (auto simp: find_None_iff)

lemma find_key_distinct:
  assumes "distinct (map key rows)" and "row \<in> set rows"
  shows "find (\<lambda>r. key r = key row) rows = Some row"
  using assms
proof (induction rows)
  case Nil
  then show ?case by simp
next
  case (Cons r rows)
  then show ?case by (cases "row = r") (auto simp: rev_image_eqI)
qed

lemma distinct_key_eq:
  "distinct (map key rows) \<Longrightarrow> a \<in> set rows \<Longrightarrow> b \<in> set rows \<Longrightarrow> key a = key b \<Longrightarrow> a = b"
  by (metis find_key_distinct option.inject)

lemma map_key_upd_where:
  "(\<And>r. p r \<Longrightarrow> key (f r) = key r) \<Longrightarrow> map key (upd_where p f rows) = map key rows"
  by (simp add: upd_where_def)

lemma map_key_put_row [simp]: "map key (put_row key row rows) = map key rows"
  by (auto simp: put_row_def upd_where_def)

lemma length_put_row [simp]: "length (put_row key row rows) = length rows"
  by (simp add: put_row_def upd_where_def)

lemma set_put_row:
  "distinct (map key rows) \<Longrightarrow> old \<in> set rows \<Longrightarrow> key row = key old \<Longrightarrow>
     set (put_row key row rows) = insert row (set rows - {old})"
  by (auto simp: put_row_def upd_where_def dest: distinct_key_eq)

lemma set_put_row_subset: "set (put_row key row rows) \<subseteq> insert row (set rows)"
  by (auto simp: put_row_def upd_where_def)

lemma find_put_row:
  "find (\<lambda>r. key r = k) (put_row key row rows) =
     (if k = key row \<and> k \<in> key ` set rows then Some row else find (\<lambda>r. key r = k) rows)"
  by (induction rows) (auto simp: put_row_def upd_where_def)

lemma put_row_put_row:
  "key a = key b \<Longrightarrow> put_row key a (put_row key b rows) = put_row key a rows"
  by (simp add: put_row_def upd_where_def)

lemma put_row_same:
  "distinct (map key rows) \<Longrightarrow> row \<in> set rows \<Longrightarrow> put_row key row rows = rows"
  unfolding put_row_def upd_where_def
  by (rule map_idI) (auto dest: distinct_key_eq)

lemma put_row_absent: "key row \<notin> key ` set rows \<Longrightarrow> put_row key row rows = rows"
  unfolding put_row_def upd_where_def
  by (rule map_idI) (auto simp: image_iff)

text \<open>An update that matches on the key and a guard is a single-row replacement.\<close>

lemma upd_where_key:
  assumes "distinct (map key rows)" and "row \<in> set rows"
    and "\<And>r. p r \<longleftrightarrow> key r = key row \<and> g r" and "g row" and "key (f row) = key row"
  shows "upd_where p f rows = put_row key (f row) rows"
proof -
  have "(if p r then f r else r) = (if key r = key (f row) then f row else r)"
    if "r \<in> set rows" for r
    using that assms by (auto dest: distinct_key_eq)
  then show ?thesis
    by (simp add: upd_where_def put_row_def)
qed

lemma count_where_key:
  assumes "distinct (map key rows)" and "row \<in> set rows"
    and "\<And>r. p r \<longleftrightarrow> key r = key row \<and> g r" and "g row"
  shows "count_where p rows = 1"
  using assms(1,2)
proof (induction rows)
  case Nil
  then show ?case by simp
next
  case (Cons r rows)
  have none: "\<forall>r' \<in> set rows. \<not> p r'" if "r = row"
    using Cons.prems that assms(3) by (auto simp: image_iff)
  have skip: "\<not> p r" if "row \<in> set rows"
    using Cons.prems that assms(3) by (auto simp: image_iff)
  show ?case
  proof (cases "r = row")
    case True
    then show ?thesis
      using none assms(3,4) by (auto simp: count_where_def filter_empty_conv)
  next
    case False
    then show ?thesis
      using Cons skip by (auto simp: count_where_def)
  qed
qed

lemma count_where_zero: "count_where p rows = 0 \<longleftrightarrow> (\<forall>r \<in> set rows. \<not> p r)"
  by (auto simp: count_where_def filter_empty_conv)

subsection \<open>Rows along a history\<close>

text \<open>Rows are never deleted: each one has a later state at its place.\<close>

definition rows_later :: "('r \<Rightarrow> 'r \<Rightarrow> bool) \<Rightarrow> 'r list \<Rightarrow> 'r list \<Rightarrow> bool" where
  "rows_later R xs ys \<longleftrightarrow> length xs \<le> length ys \<and> (\<forall>i < length xs. R (xs ! i) (ys ! i))"

lemma rows_later_refl: "(\<And>x. R x x) \<Longrightarrow> rows_later R xs xs"
  by (simp add: rows_later_def)

lemma rows_later_trans:
  assumes "\<And>x y z. R x y \<Longrightarrow> R y z \<Longrightarrow> R x z" "rows_later R xs ys" "rows_later R ys zs"
  shows "rows_later R xs zs"
  using assms unfolding rows_later_def by (meson le_trans less_le_trans)

lemma rows_later_append: "(\<And>x. R x x) \<Longrightarrow> rows_later R xs (xs @ ys)"
  by (simp add: rows_later_def nth_append)

lemma rows_later_upd:
  assumes "\<And>x. R x x" "\<And>x. x \<in> set xs \<Longrightarrow> P x \<Longrightarrow> R x (f x)"
  shows "rows_later R xs (upd_where P f xs)"
  using assms by (simp add: rows_later_def upd_where_def)

lemma rows_later_row: "rows_later R xs ys \<Longrightarrow> x \<in> set xs \<Longrightarrow> \<exists>y \<in> set ys. R x y"
  unfolding rows_later_def in_set_conv_nth by (meson less_le_trans nth_mem)

lemma rows_later_put:
  assumes "distinct (map key xs)" "x \<in> set xs" "key y = key x" "\<And>x. R x x" "R x y"
  shows "rows_later R xs (put_row key y xs)"
  unfolding put_row_def
proof (rule rows_later_upd)
  fix z
  assume "z \<in> set xs" "key z = key y"
  then show "R z y"
    using assms by (auto dest: distinct_key_eq)
qed (rule assms(4))

end
