(* ===== verification/Js_Text.thy ===== *)
theory Js_Text
  imports Prelude
begin

text \<open>
  Text primitives of the harness on UTF-16 code units: code points and their UTF-8 size
  (\<open>countCodePoints\<close> and \<open>utf8ByteLength\<close> of packages/contracts/src/references.ts, copied verbatim
  as \<open>linkGraphUtf8ByteLength\<close> in the Markdown connector), and the parts of the language's standard
  library that the modelled code calls on strings: \<open>JSON.stringify\<close> of a string, \<open>String(n)\<close> of a
  natural number, \<open>trim\<close>, \<open>toLowerCase\<close> of ASCII text and \<open>startsWith\<close>.
\<close>

subsection \<open>Code points\<close>

definition is_high :: "nat \<Rightarrow> bool" where
  "is_high u \<longleftrightarrow> 0xD800 \<le> u \<and> u \<le> 0xDBFF"

definition is_low :: "nat \<Rightarrow> bool" where
  "is_low u \<longleftrightarrow> 0xDC00 \<le> u \<and> u \<le> 0xDFFF"

text \<open>
  Iteration over a string (\<open>for ... of\<close>, \<open>Array.from\<close>): a surrogate pair is one code point, a lone
  surrogate is its own.
\<close>

fun code_points :: "jstr \<Rightarrow> nat list" where
  "code_points [] = []"
| "code_points [u] = [u]"
| "code_points (u # v # r) =
     (if is_high u \<and> is_low v
      then (0x10000 + (u - 0xD800) * 0x400 + (v - 0xDC00)) # code_points r
      else u # code_points (v # r))"

definition countCodePoints :: "jstr \<Rightarrow> nat" where
  "countCodePoints s = length (code_points s)"

definition utf8_size :: "nat \<Rightarrow> nat" where
  "utf8_size point =
     (if point < 0x80 then 1 else if point < 0x800 then 2
      else if point < 0x10000 then 3 else 4)"

definition utf8ByteLength :: "jstr \<Rightarrow> nat" where
  "utf8ByteLength value = fold (\<lambda>point bytes. bytes + utf8_size point) (code_points value) 0"

definition linkGraphUtf8ByteLength :: "jstr \<Rightarrow> nat" where
  "linkGraphUtf8ByteLength value =
     fold (\<lambda>point bytes. bytes + utf8_size point) (code_points value) 0"

lemma fold_utf8: "fold (\<lambda>p b. b + utf8_size p) ps b = b + sum_list (map utf8_size ps)"
  by (induction ps arbitrary: b) auto

lemma utf8ByteLength_sum: "utf8ByteLength s = sum_list (map utf8_size (code_points s))"
  by (simp add: utf8ByteLength_def fold_utf8)

lemma linkGraphUtf8ByteLength_eq: "linkGraphUtf8ByteLength s = utf8ByteLength s"
  by (simp add: linkGraphUtf8ByteLength_def utf8ByteLength_def)

text \<open>Two texts can be measured apart when no surrogate pair spans their border.\<close>

definition cuts :: "jstr \<Rightarrow> jstr \<Rightarrow> bool" where
  "cuts a b \<longleftrightarrow> a = [] \<or> b = [] \<or> \<not> (is_high (last a) \<and> is_low (hd b))"

lemma code_points_append: "cuts a b \<Longrightarrow> code_points (a @ b) = code_points a @ code_points b"
proof (induction a rule: code_points.induct)
  case 1
  then show ?case by simp
next
  case (2 u)
  then show ?case by (cases b) (auto simp: cuts_def)
next
  case (3 u v r)
  have "cuts r b" if "r \<noteq> []"
    using "3.prems" that by (auto simp: cuts_def)
  moreover have "cuts r b" if "r = []"
    using that by (simp add: cuts_def)
  moreover have "cuts (v # r) b"
    using "3.prems" by (auto simp: cuts_def)
  ultimately show ?case
    using "3.IH" by (cases "r = []") auto
qed

lemma utf8_append: "cuts a b \<Longrightarrow> utf8ByteLength (a @ b) = utf8ByteLength a + utf8ByteLength b"
  by (simp add: utf8ByteLength_sum code_points_append)

lemma cuts_low: "(b = [] \<or> \<not> is_low (hd b)) \<Longrightarrow> cuts a b"
  by (auto simp: cuts_def)

lemma cuts_high: "(a = [] \<or> \<not> is_high (last a)) \<Longrightarrow> cuts a b"
  by (auto simp: cuts_def)

lemma code_points_ascii: "\<forall>u \<in> set s. u < 0x80 \<Longrightarrow> code_points s = s"
  by (induction s rule: code_points.induct) (auto simp: is_high_def)

lemma utf8_ascii: "\<forall>u \<in> set s. u < 0x80 \<Longrightarrow> utf8ByteLength s = length s"
proof -
  assume a: "\<forall>u \<in> set s. u < 0x80"
  have "sum_list (map utf8_size s) = length s"
    using a by (induction s) (auto simp: utf8_size_def)
  then show ?thesis
    by (simp add: utf8ByteLength_sum code_points_ascii a)
qed

lemma length_code_points: "length (code_points s) \<le> length s"
  by (induction s rule: code_points.induct) auto

lemma code_points_Nil_iff [simp]: "code_points s = [] \<longleftrightarrow> s = []"
  by (cases s rule: code_points.cases) auto

lemma utf8_bounds: "countCodePoints s \<le> utf8ByteLength s \<and> utf8ByteLength s \<le> 4 * length s"
proof -
  have "length ps \<le> sum_list (map utf8_size ps) \<and> sum_list (map utf8_size ps) \<le> 4 * length ps"
    for ps
    by (induction ps) (auto simp: utf8_size_def)
  from this [of "code_points s"] length_code_points [of s] show ?thesis
    by (auto simp: countCodePoints_def utf8ByteLength_sum)
qed

subsection \<open>Decimal numbers\<close>

fun dec :: "nat \<Rightarrow> jstr" where
  "dec n = (if n < 10 then [48 + n] else dec (n div 10) @ [48 + n mod 10])"

declare dec.simps [simp del]

definition undec :: "jstr \<Rightarrow> nat" where
  "undec s = foldl (\<lambda>a d. a * 10 + (d - 48)) 0 s"

lemma undec_dec: "undec (dec n) = n"
proof (induction n rule: dec.induct)
  case (1 n)
  show ?case
    using 1 by (cases "n < 10") (auto simp: dec.simps [of n] undec_def)
qed

lemma dec_inj [simp]: "dec m = dec n \<longleftrightarrow> m = n"
  by (metis undec_dec)

lemma dec_digits: "u \<in> set (dec n) \<Longrightarrow> 48 \<le> u \<and> u \<le> 57"
proof (induction n rule: dec.induct)
  case (1 n)
  then show ?case
    by (cases "n < 10") (auto simp: dec.simps [of n])
qed

lemma dec_not_Nil [simp]: "dec n \<noteq> []"
  by (simp add: dec.simps [of n])

subsection \<open>JSON strings\<close>

definition hex_digit :: "nat \<Rightarrow> nat" where
  "hex_digit d = (if d < 10 then 48 + d else 87 + d)"

text \<open>The escape \<open>\u00XX\<close> of a control character or a lone surrogate, in lower case.\<close>

definition u_escape :: "nat \<Rightarrow> jstr" where
  "u_escape u = [92, 117, hex_digit (u div 4096 mod 16), hex_digit (u div 256 mod 16),
     hex_digit (u div 16 mod 16), hex_digit (u mod 16)]"

definition json_unit :: "nat \<Rightarrow> jstr" where
  "json_unit u =
     (if u = 34 then [92, 34] else if u = 92 then [92, 92]
      else if u = 8 then [92, 98] else if u = 12 then [92, 102]
      else if u = 10 then [92, 110] else if u = 13 then [92, 114]
      else if u = 9 then [92, 116]
      else if u < 32 \<or> is_high u \<or> is_low u then u_escape u else [u])"

fun json_units :: "jstr \<Rightarrow> jstr" where
  "json_units [] = []"
| "json_units [u] = json_unit u"
| "json_units (u # v # r) =
     (if is_high u \<and> is_low v then u # v # json_units r
      else json_unit u @ json_units (v # r))"

definition json_string :: "jstr \<Rightarrow> jstr" where
  "json_string s = 34 # json_units s @ [34]"

lemma json_string_hd [simp]: "hd (json_string s) = 34" "json_string s \<noteq> []"
  "last (json_string s) = 34"
  by (simp_all add: json_string_def)

lemma not_surrogate_ascii [simp]: "u < 0x80 \<Longrightarrow> \<not> is_low u" "u < 0x80 \<Longrightarrow> \<not> is_high u"
  by (simp_all add: is_low_def is_high_def)

subsection \<open>Case and white space\<close>

definition lower_unit :: "nat \<Rightarrow> nat" where
  "lower_unit u = (if 65 \<le> u \<and> u \<le> 90 then u + 32 else u)"

definition lower_ascii :: "jstr \<Rightarrow> jstr" where
  "lower_ascii s = map lower_unit s"

lemma lower_unit_idem [simp]: "lower_unit (lower_unit u) = lower_unit u"
  by (auto simp: lower_unit_def)

lemma lower_ascii_idem [simp]: "lower_ascii (lower_ascii s) = lower_ascii s"
  by (simp add: lower_ascii_def)

definition is_space :: "nat \<Rightarrow> bool" where
  "is_space u \<longleftrightarrow> (9 \<le> u \<and> u \<le> 13) \<or> u = 32 \<or> u = 0xA0 \<or> u = 0x1680 \<or>
     (0x2000 \<le> u \<and> u \<le> 0x200A) \<or> u = 0x2028 \<or> u = 0x2029 \<or> u = 0x202F \<or>
     u = 0x205F \<or> u = 0x3000 \<or> u = 0xFEFF"

definition trim :: "jstr \<Rightarrow> jstr" where
  "trim s = rev (dropWhile is_space (rev (dropWhile is_space s)))"

definition blank :: "jstr \<Rightarrow> bool" where
  "blank s \<longleftrightarrow> trim s = []"

lemma trim_Nil [simp]: "trim [] = []"
  by (simp add: trim_def)

lemma blank_iff: "blank s \<longleftrightarrow> (\<forall>u \<in> set s. is_space u)"
  by (auto simp: blank_def trim_def dropWhile_eq_Nil_conv dest: set_dropWhileD)
    (metis dropWhile_eq_Nil_conv set_dropWhileD hd_dropWhile hd_in_set dropWhile_eq_Nil_conv)+

definition starts_with :: "jstr \<Rightarrow> jstr \<Rightarrow> bool" where
  "starts_with s p \<longleftrightarrow> take (length p) s = p"

lemma starts_with_append [simp]: "starts_with (p @ s) p"
  by (simp add: starts_with_def)

lemma starts_with_iff: "starts_with s p \<longleftrightarrow> (\<exists>t. s = p @ t)"
  by (metis append_eq_conv_conj append_take_drop_id starts_with_def)

end
