(* ===== verification/Ids.thy ===== *)
theory Ids
  imports Js_Text
begin

text \<open>
  Identifiers (packages/contracts/src/ids.ts, packages/kernel/src/canonical.ts): UUID v4 shapes,
  SHA-256 digests, Unix milliseconds, and the closed set of idempotency scopes. A regular
  expression of these files is a sequence of character classes of fixed length, so it is a list
  of predicates that the text must satisfy position by position. The \<open>i\<close> flag makes an ASCII
  letter of a literal match in both cases.
\<close>

type_synonym pattern = "(nat \<Rightarrow> bool) list"

definition matches :: "pattern \<Rightarrow> jstr \<Rightarrow> bool" where
  "matches pat s \<longleftrightarrow> list_all2 (\<lambda>p u. p u) pat s"

lemma matches_length: "matches pat s \<Longrightarrow> length s = length pat"
  by (auto simp: matches_def dest: list_all2_lengthD)

lemma matches_append_split:
  "length a = length p \<Longrightarrow> matches (p @ q) (a @ b) \<longleftrightarrow> matches p a \<and> matches q b"
  by (auto simp: matches_def list_all2_append)

subsection \<open>UUID v4\<close>

definition is_hex :: "nat \<Rightarrow> bool" where
  "is_hex u \<longleftrightarrow> (48 \<le> u \<and> u \<le> 57) \<or> (97 \<le> lower_unit u \<and> lower_unit u \<le> 102)"

definition is_variant :: "nat \<Rightarrow> bool" where
  "is_variant u \<longleftrightarrow> u = 56 \<or> u = 57 \<or> lower_unit u = 97 \<or> lower_unit u = 98"

definition hexes :: "nat \<Rightarrow> pattern" where
  "hexes n = replicate n is_hex"

definition dash :: pattern where
  "dash = [\<lambda>u. u = 45]"

text \<open>\<open>UUID_V4_CORE\<close>: \<open>[0-9a-f]{8}-[0-9a-f]{4}-4[0-9a-f]{3}-[89ab][0-9a-f]{3}-[0-9a-f]{12}\<close>.\<close>

definition UUID_V4_CORE :: pattern where
  "UUID_V4_CORE =
     hexes 8 @ dash @ hexes 4 @ dash @ (\<lambda>u. u = 52) # hexes 3 @ dash @ is_variant # hexes 3 @
     dash @ hexes 12"

definition uuid_ok :: "jstr \<Rightarrow> bool" where
  "uuid_ok s \<longleftrightarrow> matches UUID_V4_CORE s"

lemma length_UUID_V4_CORE [simp]: "length UUID_V4_CORE = 36"
  by (simp add: UUID_V4_CORE_def hexes_def dash_def)

lemma uuid_ok_length: "uuid_ok s \<Longrightarrow> length s = 36"
  unfolding uuid_ok_def by (drule matches_length) simp

text \<open>\<open>isUuidV4\<close> and \<open>uuidVersion\<close> of the kernel.\<close>

definition isUuidV4 :: "jstr \<Rightarrow> bool" where
  "isUuidV4 value \<longleftrightarrow> matches UUID_V4_CORE value"

definition UUID_ANY :: pattern where
  "UUID_ANY =
     hexes 8 @ dash @ hexes 4 @ dash @ is_hex # hexes 3 @ dash @ hexes 4 @ dash @ hexes 12"

definition hex_value :: "nat \<Rightarrow> nat" where
  "hex_value u = (if u \<le> 57 then u - 48 else lower_unit u - 87)"

definition uuidVersion :: "jstr \<Rightarrow> nat option" where
  "uuidVersion value = (if matches UUID_ANY value then Some (hex_value (value ! 14)) else None)"

lemma matches_mono:
  "matches p s \<Longrightarrow> list_all2 (\<lambda>a b. \<forall>u. a u \<longrightarrow> b u) p q \<Longrightarrow> matches q s"
  unfolding matches_def
  by (auto simp: list_all2_conv_all_nth)

lemma uuid_v4_any: "matches UUID_V4_CORE s \<Longrightarrow> matches UUID_ANY s"
proof (erule matches_mono)
  have r: "list_all2 (\<lambda>a b. \<forall>u. a u \<longrightarrow> b u) xs xs" for xs :: pattern
    by (rule list_all2_refl) simp
  show "list_all2 (\<lambda>a b. \<forall>u. a u \<longrightarrow> b u) UUID_V4_CORE UUID_ANY"
    unfolding UUID_V4_CORE_def UUID_ANY_def hexes_def dash_def
    by (auto simp: eval_nat_numeral is_hex_def is_variant_def lower_unit_def split: if_splits)
qed

text \<open>
  Canonical key of \<open>requireKey\<close>: the lower-case form. The pattern is closed under \<open>toLowerCase\<close>.
\<close>

lemma lower_hex [simp]: "is_hex (lower_unit u) \<longleftrightarrow> is_hex u"
  by (auto simp: is_hex_def lower_unit_def)

lemma lower_variant [simp]: "is_variant (lower_unit u) \<longleftrightarrow> is_variant u"
  by (auto simp: is_variant_def lower_unit_def)

lemma uuid_lower: "uuid_ok s \<Longrightarrow> uuid_ok (lower_ascii s)"
proof -
  have lift: "matches q (lower_ascii s)"
    if "matches p s" and "list_all2 (\<lambda>a b. \<forall>u. a u \<longrightarrow> b (lower_unit u)) p q" for p q s
    using that by (auto simp: matches_def lower_ascii_def list_all2_conv_all_nth)
  have "list_all2 (\<lambda>a b. \<forall>u. a u \<longrightarrow> b (lower_unit u)) UUID_V4_CORE UUID_V4_CORE"
    unfolding UUID_V4_CORE_def hexes_def dash_def
    by (auto simp: eval_nat_numeral) (auto simp: lower_unit_def)
  then show "uuid_ok s \<Longrightarrow> uuid_ok (lower_ascii s)"
    unfolding uuid_ok_def by (rule lift [rotated])
qed

subsection \<open>Digests and times\<close>

definition sha256_hex_ok :: "jstr \<Rightarrow> bool" where
  "sha256_hex_ok s \<longleftrightarrow> length s = 64 \<and>
     (\<forall>u \<in> set s. (48 \<le> u \<and> u \<le> 57) \<or> (97 \<le> u \<and> u \<le> 102))"

definition MAX_SAFE_INTEGER :: int where
  "MAX_SAFE_INTEGER = 9007199254740991"

definition unix_ms_ok :: "int \<Rightarrow> bool" where
  "unix_ms_ok n \<longleftrightarrow> 0 \<le> n \<and> n \<le> MAX_SAFE_INTEGER"

subsection \<open>Idempotency scopes\<close>

definition lit :: "string \<Rightarrow> pattern" where
  "lit t = map (\<lambda>c u. lower_unit u = lower_unit (of_char c)) t"

lemma length_lit [simp]: "length (lit t) = length t"
  by (simp add: lit_def)

lemma matches_lit_js: "matches (lit t) (js t)"
  by (simp add: matches_def lit_def js_def list_all2_conv_all_nth)

definition messageScope :: "jstr \<Rightarrow> jstr option" where
  "messageScope sessionId =
     (if uuid_ok sessionId then Some (js ''session:'' @ sessionId @ js '':message'') else None)"

definition retryScope :: "jstr \<Rightarrow> jstr option" where
  "retryScope turnId =
     (if uuid_ok turnId then Some (js ''turn:'' @ turnId @ js '':retry'') else None)"

definition proposalApproveScope :: "jstr \<Rightarrow> jstr option" where
  "proposalApproveScope proposalId =
     (if uuid_ok proposalId then Some (js ''proposal:'' @ proposalId @ js '':approve'') else None)"

text \<open>
  \<open>IdempotencyScopeSchema\<close>: the union of two literal scopes and the patterns below. Every pattern has
  a fixed length below the bound of 320 that the schema adds, which is kept as written.
\<close>

definition scope_patterns :: "pattern list" where
  "scope_patterns =
     [lit ''session:'' @ UUID_V4_CORE @ lit '':message'',
      lit ''turn:'' @ UUID_V4_CORE @ lit '':retry'',
      lit ''proposal:'' @ UUID_V4_CORE @ lit '':approve'',
      lit ''session:'' @ UUID_V4_CORE @ lit '':purpose'',
      lit ''session:'' @ UUID_V4_CORE @ lit '':task''] @
     map (\<lambda>w. lit ''purpose:'' @ UUID_V4_CORE @ lit '':'' @ lit w)
       [''correct'', ''revoke'', ''achieve''] @
     map (\<lambda>w. lit ''task:'' @ UUID_V4_CORE @ lit '':'' @ lit w)
       [''start'', ''hold'', ''resume'', ''complete'', ''cancel''] @
     [lit ''session:'' @ UUID_V4_CORE @ lit '':trial-stage'',
      lit ''trial-proposal:'' @ UUID_V4_CORE,
      lit ''trial-claim:'' @ UUID_V4_CORE,
      lit ''trial-permit:'' @ UUID_V4_CORE,
      lit ''session:'' @ UUID_V4_CORE @ lit '':conflict:'' @ UUID_V4_CORE @ lit '':'' @ UUID_V4_CORE,
      lit ''session:'' @ UUID_V4_CORE @ lit '':shadow-request'']"

definition idempotencyScope_ok :: "jstr \<Rightarrow> bool" where
  "idempotencyScope_ok s \<longleftrightarrow>
     s = js ''sessions:create'' \<or> s = js ''autonomy:control'' \<or>
     (length s \<le> 320 \<and> list_ex (\<lambda>p. matches p s) scope_patterns)"

lemma scope_shape:
  "uuid_ok x \<Longrightarrow> matches (lit a @ UUID_V4_CORE @ lit b) (js a @ x @ js b)"
  by (simp add: matches_append_split matches_lit_js uuid_ok_length uuid_ok_def)

lemma messageScope_ok: "messageScope x = Some s \<Longrightarrow> idempotencyScope_ok s"
  by (auto simp: messageScope_def idempotencyScope_ok_def scope_patterns_def uuid_ok_length
      scope_shape split: if_splits)

lemma retryScope_ok: "retryScope x = Some s \<Longrightarrow> idempotencyScope_ok s"
  by (auto simp: retryScope_def idempotencyScope_ok_def scope_patterns_def uuid_ok_length
      scope_shape split: if_splits)

lemma messageScope_inj: "messageScope x = Some s \<Longrightarrow> messageScope y = Some s \<Longrightarrow> x = y"
  by (auto simp: messageScope_def split: if_splits)

lemma retryScope_inj: "retryScope x = Some s \<Longrightarrow> retryScope y = Some s \<Longrightarrow> x = y"
  by (auto simp: retryScope_def split: if_splits)

end
