(* ===== verification/Instants.thy ===== *)
theory Instants
  imports Ids
begin

text \<open>
  Strict RFC 3339 instants (packages/contracts/src/instant.ts): the two regular expressions, the
  trailing-zero rule for fractions, calendar validation and the epoch milliseconds. \<open>Date.UTC\<close>,
  \<open>setUTCFullYear\<close> and \<open>Date.parse\<close> on the minute form are modelled by the language standard's day
  arithmetic (MakeDay and MakeTime over the proleptic Gregorian calendar).
\<close>

definition is_digit :: "nat \<Rightarrow> bool" where
  "is_digit u \<longleftrightarrow> 48 \<le> u \<and> u \<le> 57"

definition digs :: "nat \<Rightarrow> pattern" where
  "digs n = replicate n is_digit"

definition chr :: "nat \<Rightarrow> pattern" where
  "chr c = [\<lambda>u. u = c]"

text \<open>\<open>Number\<close> of a string of digits, sliced out of the text.\<close>

definition num_at :: "nat \<Rightarrow> nat \<Rightarrow> jstr \<Rightarrow> int" where
  "num_at i n s = int (undec (take n (drop i s)))"

definition date_pat :: pattern where
  "date_pat = digs 4 @ chr 45 @ digs 2 @ chr 45 @ digs 2 @ chr 84 @ digs 2 @ chr 58 @ digs 2"

definition zone_ok :: "jstr \<Rightarrow> bool" where
  "zone_ok z \<longleftrightarrow>
     z = [90] \<or> matches ([\<lambda>u. u = 43 \<or> u = 45] @ digs 2 @ chr 58 @ digs 2) z"

text \<open>
  \<open>STRICT_INSTANT_SECONDS\<close>: the fraction digits and the zone of a text that matches. The digits of the
  fraction are taken greedily; no zone starts with a digit, so no other split matches.
\<close>

definition match_seconds :: "jstr \<Rightarrow> (jstr option \<times> jstr) option" where
  "match_seconds value =
     (if matches (date_pat @ chr 58 @ digs 2) (take 19 value)
      then let rest = drop 19 value in
        if rest \<noteq> [] \<and> hd rest = 46
        then let frac = takeWhile is_digit (tl rest); zone = dropWhile is_digit (tl rest) in
             if frac \<noteq> [] \<and> zone_ok zone then Some (Some frac, zone) else None
        else if zone_ok rest then Some (None, rest) else None
      else None)"

definition match_minutes :: "jstr \<Rightarrow> jstr option" where
  "match_minutes value =
     (if matches date_pat (take 16 value) \<and> zone_ok (drop 16 value) then Some (drop 16 value)
      else None)"

text \<open>\<open>SUBSECOND_FRACTION.exec\<close>: the fraction after the leftmost \<open>Tdd:dd:dd.\<close> in the text.\<close>

fun subsecond_fraction :: "jstr \<Rightarrow> jstr option" where
  "subsecond_fraction [] = None"
| "subsecond_fraction (u # s) =
     (if matches (chr 84 @ digs 2 @ chr 58 @ digs 2 @ chr 58 @ digs 2 @ chr 46 @ digs 1)
           (take 11 (u # s))
      then Some (takeWhile is_digit (drop 10 (u # s)))
      else subsecond_fraction s)"

definition hasSubMillisecondPrecision :: "jstr \<Rightarrow> bool" where
  "hasSubMillisecondPrecision value =
     (case subsecond_fraction value of
        None \<Rightarrow> False
      | Some ds \<Rightarrow> length ds > 3 \<and> list_ex (\<lambda>u. u \<noteq> 48) (drop 3 ds))"

subsection \<open>Calendar\<close>

definition isLeapYear :: "int \<Rightarrow> bool" where
  "isLeapYear year \<longleftrightarrow> year mod 4 = 0 \<and> year mod 100 \<noteq> 0 \<or> year mod 400 = 0"

definition daysInStrictMonth :: "int \<Rightarrow> int \<Rightarrow> int" where
  "daysInStrictMonth year month =
     (if month = 2 then if isLeapYear year then 29 else 28
      else if month = 4 \<or> month = 6 \<or> month = 9 \<or> month = 11 then 30
      else 31)"

text \<open>The language's \<open>DayFromYear\<close>, and the days of the year before a month.\<close>

definition day_from_year :: "int \<Rightarrow> int" where
  "day_from_year y =
     365 * (y - 1970) + (y - 1969) div 4 - (y - 1901) div 100 + (y - 1601) div 400"

definition days_before_month :: "int \<Rightarrow> int \<Rightarrow> int" where
  "days_before_month y m =
     [0, 31, 59, 90, 120, 151, 181, 212, 243, 273, 304, 334] ! nat (m - 1) +
     (if m > 2 \<and> isLeapYear y then 1 else 0)"

definition make_day :: "int \<Rightarrow> int \<Rightarrow> int \<Rightarrow> int" where
  "make_day y m d = day_from_year y + days_before_month y m + d - 1"

definition strictUtcMs :: "int \<Rightarrow> int \<Rightarrow> int \<Rightarrow> int \<Rightarrow> int \<Rightarrow> int \<Rightarrow> int \<Rightarrow> int" where
  "strictUtcMs year month day hour minute second ms =
     make_day year month day * 86400000 +
     (hour * 3600000 + minute * 60000 + second * 1000 + ms)"

text \<open>\<open>fraction.slice(1, 4).padEnd(3, "0")\<close> as a number; the argument has no leading dot.\<close>

definition frac_ms :: "jstr \<Rightarrow> int" where
  "frac_ms ds = int (undec (take 3 (ds @ [48, 48, 48])))"

definition zone_offset :: "jstr \<Rightarrow> int option" where
  "zone_offset zone =
     (if zone = [90] then Some 0
      else let sign = (if starts_with zone [45] then -1 else 1);
               offsetHour = num_at 1 2 zone; offsetMinute = num_at 4 2 zone in
           if offsetHour > 23 \<or> offsetMinute > 59 then None
           else Some (sign * (offsetHour * 60 + offsetMinute) * 60000))"

definition parseStrictCalendarInstantMs :: "jstr \<Rightarrow> int option" where
  "parseStrictCalendarInstantMs value =
     (let year = num_at 0 4 value; month = num_at 5 2 value; day = num_at 8 2 value;
          hour = num_at 11 2 value; minute = num_at 14 2 value; second = num_at 17 2 value in
      if length value = 0 \<or> length value > 128 then None
      else if hasSubMillisecondPrecision value then None
      else case match_seconds value of
        Some (fraction, zone) \<Rightarrow>
          if month < 1 \<or> month > 12 then None
          else if day < 1 \<or> day > daysInStrictMonth year month then None
          else if hour > 23 \<or> minute > 59 \<or> second > 59 then None
          else let ms = (case fraction of Some ds \<Rightarrow> frac_ms ds | None \<Rightarrow> 0) in
            (case zone_offset zone of
               None \<Rightarrow> None
             | Some offsetMs \<Rightarrow>
                 Some (strictUtcMs year month day hour minute second ms - offsetMs))
      | None \<Rightarrow>
          (case match_minutes value of
             None \<Rightarrow> None
           | Some zone \<Rightarrow>
               if month < 1 \<or> month > 12 then None
               else if day < 1 \<or> day > daysInStrictMonth year month then None
               else if hour > 23 \<or> minute > 59 then None
               else (case zone_offset zone of
                       None \<Rightarrow> None
                     | Some offsetMs \<Rightarrow>
                         Some (strictUtcMs year month day hour minute 0 0 - offsetMs))))"

definition isStrictCalendarInstant :: "jstr \<Rightarrow> bool" where
  "isStrictCalendarInstant value \<longleftrightarrow> parseStrictCalendarInstantMs value \<noteq> None"

subsection \<open>The calendar is strictly increasing\<close>

definition valid_date :: "int \<Rightarrow> int \<Rightarrow> int \<Rightarrow> bool" where
  "valid_date y m d \<longleftrightarrow> 1 \<le> m \<and> m \<le> 12 \<and> 1 \<le> d \<and> d \<le> daysInStrictMonth y m"

definition valid_time :: "int \<Rightarrow> int \<Rightarrow> int \<Rightarrow> int \<Rightarrow> bool" where
  "valid_time h mi s ms \<longleftrightarrow>
     0 \<le> h \<and> h \<le> 23 \<and> 0 \<le> mi \<and> mi \<le> 59 \<and> 0 \<le> s \<and> s \<le> 59 \<and> 0 \<le> ms \<and> ms \<le> 999"

lemma month_cases:
  "1 \<le> (m::int) \<Longrightarrow> m \<le> 12 \<Longrightarrow>
     m = 1 \<or> m = 2 \<or> m = 3 \<or> m = 4 \<or> m = 5 \<or> m = 6 \<or> m = 7 \<or> m = 8 \<or> m = 9 \<or> m = 10 \<or>
     m = 11 \<or> m = 12"
  by presburger

lemma div_step:
  fixes n x :: int
  assumes "0 < n"
  shows "(x + 1) div n = x div n + (if (x + 1) mod n = 0 then 1 else 0)"
proof (cases "x mod n + 1 = n")
  case True
  then have e: "x + 1 = n * (x div n + 1) + 0"
    using mult_div_mod_eq [of n x] unfolding distrib_left by linarith
  show ?thesis
    using int_div_pos_eq [OF e] int_mod_pos_eq [OF e] assms by simp
next
  case False
  then have e: "x + 1 = n * (x div n) + (x mod n + 1)"
    using mult_div_mod_eq [of n x] by simp
  have "0 \<le> x mod n" "x mod n + 1 < n"
    using assms False pos_mod_bound [of n x] by (simp, linarith)
  then show ?thesis
    using int_div_pos_eq [OF e] int_mod_pos_eq [OF e] by simp
qed

lemma shift_mod:
  fixes y :: int
  shows "(y - 1968) mod 4 = y mod 4" "(y - 1900) mod 100 = y mod 100"
    "(y - 1600) mod 400 = y mod 400"
  using mod_mult_self1 [of y "-492" 4] mod_mult_self1 [of y "-19" 100]
    mod_mult_self1 [of y "-4" 400] by simp_all

lemma mod_400_100: "y mod 400 = 0 \<Longrightarrow> y mod 100 = 0" for y :: int
  using dvd_trans [of 100 400 y] by (simp add: mod_eq_0_iff_dvd)

lemma mod_100_4: "y mod 100 = 0 \<Longrightarrow> y mod 4 = 0" for y :: int
  using dvd_trans [of 4 100 y] by (simp add: mod_eq_0_iff_dvd)

lemma leap_count:
  assumes "c \<Longrightarrow> b" "b \<Longrightarrow> a"
  shows "(if a then 1 else 0) - (if b then 1 else 0) + (if c then 1 else 0) =
     (if a \<and> \<not> b \<or> c then 1 else (0::int))"
  using assms by auto

lemma day_from_year_step:
  "day_from_year (y + 1) = day_from_year y + (if isLeapYear y then 366 else 365)"
proof -
  have "(y - 1968) div 4 = (y - 1969) div 4 + (if y mod 4 = 0 then 1 else 0)"
    using div_step [of 4 "y - 1969"] by (simp add: shift_mod)
  moreover have "(y - 1900) div 100 = (y - 1901) div 100 + (if y mod 100 = 0 then 1 else 0)"
    using div_step [of 100 "y - 1901"] by (simp add: shift_mod)
  moreover have "(y - 1600) div 400 = (y - 1601) div 400 + (if y mod 400 = 0 then 1 else 0)"
    using div_step [of 400 "y - 1601"] by (simp add: shift_mod)
  moreover have "day_from_year (y + 1) =
      365 * (y - 1970) + 365 + (y - 1968) div 4 - (y - 1900) div 100 + (y - 1600) div 400"
    by (simp add: day_from_year_def algebra_simps)
  ultimately have "day_from_year (y + 1) = day_from_year y + 365 +
      ((if y mod 4 = 0 then 1 else 0) - (if y mod 100 = 0 then 1 else 0) +
       (if y mod 400 = 0 then 1 else 0))"
    unfolding day_from_year_def by linarith
  also have "\<dots> = day_from_year y + 365 + (if isLeapYear y then 1 else 0)"
    using leap_count [of "y mod 400 = 0" "y mod 100 = 0" "y mod 4 = 0", OF mod_400_100 mod_100_4]
    unfolding isLeapYear_def by (simp only:)
  also have "\<dots> = day_from_year y + (if isLeapYear y then 366 else 365)"
    by (cases "isLeapYear y") simp_all
  finally show ?thesis .
qed

lemma day_from_year_mono: "y < y' \<Longrightarrow> day_from_year (y + 1) \<le> day_from_year y'"
proof (induction "nat (y' - y)" arbitrary: y')
  case 0
  then show ?case by simp
next
  case (Suc n)
  show ?case
  proof (cases "y' = y + 1")
    case True
    then show ?thesis by simp
  next
    case False
    then have "day_from_year (y + 1) \<le> day_from_year (y' - 1)"
      using Suc by simp
    then show ?thesis
      using day_from_year_step [of "y' - 1"] by (auto split: if_splits)
  qed
qed

lemma days_before_month_step:
  assumes "1 \<le> m" "m < 12"
  shows "days_before_month y (m + 1) = days_before_month y m + daysInStrictMonth y m"
proof -
  have "m \<in> {1, 2, 3, 4, 5, 6, 7, 8, 9, 10, 11}"
    using month_cases [of m] assms by auto
  then show ?thesis
    by (elim insertE emptyE) (simp_all add: days_before_month_def daysInStrictMonth_def)
qed


lemma days_before_month_mono:
  "1 \<le> m \<Longrightarrow> m < m' \<Longrightarrow> m' \<le> 12 \<Longrightarrow>
     days_before_month y m + daysInStrictMonth y m \<le> days_before_month y m'"
proof (induction "nat (m' - m)" arbitrary: m')
  case 0
  then show ?case by simp
next
  case (Suc n)
  show ?case
  proof (cases "m' = m + 1")
    case True
    then show ?thesis
      using Suc.prems by (simp add: days_before_month_step)
  next
    case False
    then have "days_before_month y m + daysInStrictMonth y m \<le> days_before_month y (m' - 1)"
      using Suc by simp
    moreover have "0 \<le> daysInStrictMonth y (m' - 1)"
      by (simp add: daysInStrictMonth_def)
    ultimately show ?thesis
      using days_before_month_step [of "m' - 1" y] Suc.prems False by simp
  qed
qed

lemma month_12: "days_before_month y 12 + 31 = (if isLeapYear y then 366 else 365)"
  by (simp add: days_before_month_def)

lemma days_before_month_first: "1 \<le> m \<Longrightarrow> m \<le> 12 \<Longrightarrow> 0 \<le> days_before_month y m"
  using days_before_month_mono [of 1 m y]
  by (cases "m = 1") (simp_all add: days_before_month_def daysInStrictMonth_def)

lemma make_day_in_year:
  assumes "valid_date y m d"
  shows "day_from_year y \<le> make_day y m d" and "make_day y m d < day_from_year (y + 1)"
proof -
  show "day_from_year y \<le> make_day y m d"
    using assms days_before_month_first [of m y] by (simp add: make_day_def valid_date_def)
  have "days_before_month y m + daysInStrictMonth y m \<le> (if isLeapYear y then 366 else 365)"
    using days_before_month_mono [of m 12 y] month_12 [of y] assms
    by (cases "m = 12") (simp_all add: valid_date_def daysInStrictMonth_def)
  then show "make_day y m d < day_from_year (y + 1)"
    using assms by (simp add: make_day_def valid_date_def day_from_year_step)
qed

text \<open>The order of dates, and of instants, by their fields.\<close>

lemma make_day_less:
  assumes "valid_date y m d" "valid_date y' m' d'" "(y, m, d) < (y', m', d')"
  shows "make_day y m d < make_day y' m' d'"
proof -
  consider "y < y'" | "y = y'" "m < m'" | "y = y'" "m = m'" "d < d'"
    using assms(3) by (auto simp: less_prod_def')
  then show ?thesis
  proof cases
    case 1
    then show ?thesis
      using make_day_in_year [OF assms(1)] make_day_in_year [OF assms(2)] day_from_year_mono [OF 1]
      by simp
  next
    case 2
    then show ?thesis
      using days_before_month_mono [of m m' y] assms(1,2)
      by (simp add: make_day_def valid_date_def)
  next
    case 3
    then show ?thesis
      by (simp add: make_day_def)
  qed
qed

lemma time_bounds:
  "valid_time h mi s ms \<Longrightarrow>
     0 \<le> h * 3600000 + mi * 60000 + s * 1000 + ms \<and>
     h * 3600000 + mi * 60000 + s * 1000 + ms < 86400000"
  by (simp add: valid_time_def)

lemma time_less:
  "valid_time h mi s ms \<Longrightarrow> valid_time h' mi' s' ms' \<Longrightarrow> (h, mi, s, ms) < (h', mi', s', ms') \<Longrightarrow>
     h * 3600000 + mi * 60000 + s * 1000 + ms < h' * 3600000 + mi' * 60000 + s' * 1000 + ms'"
  by (auto simp: valid_time_def less_prod_def')

lemma strictUtcMs_less:
  assumes "valid_date y m d" "valid_date y' m' d'" "valid_time h mi s ms" "valid_time h' mi' s' ms'"
    and "((y, m, d), (h, mi, s, ms)) < ((y', m', d'), (h', mi', s', ms'))"
  shows "strictUtcMs y m d h mi s ms < strictUtcMs y' m' d' h' mi' s' ms'"
proof -
  consider "(y, m, d) < (y', m', d')" |
    "(y, m, d) = (y', m', d')" "(h, mi, s, ms) < (h', mi', s', ms')"
    using assms(5) by (auto simp: less_prod_def')
  then show ?thesis
  proof cases
    case 1
    then show ?thesis
      using make_day_less [OF assms(1,2) 1] time_bounds [OF assms(3)] time_bounds [OF assms(4)]
      by (simp add: strictUtcMs_def)
  next
    case 2
    then show ?thesis
      using time_less [OF assms(3,4)] by (simp add: strictUtcMs_def)
  qed
qed

subsection \<open>Parsing a written instant\<close>

text \<open>The decimal digits of a number at a fixed width, and the text of an instant.\<close>

fun pad :: "nat \<Rightarrow> nat \<Rightarrow> jstr" where
  "pad 0 n = []"
| "pad (Suc k) n = pad k (n div 10) @ [48 + n mod 10]"

lemma length_pad [simp]: "length (pad k n) = k"
  by (induction k arbitrary: n) auto

lemma pad_digit: "u \<in> set (pad k n) \<Longrightarrow> is_digit u"
  by (induction k arbitrary: n) (auto simp: is_digit_def)

lemma undec_snoc: "undec (xs @ [d]) = undec xs * 10 + (d - 48)"
  by (simp add: undec_def)

lemma undec_pad: "n < 10 ^ k \<Longrightarrow> undec (pad k n) = n"
proof (induction k arbitrary: n)
  case 0
  then show ?case by (simp add: undec_def)
next
  case (Suc k)
  then have "n div 10 < 10 ^ k"
    by (simp add: less_mult_imp_div_less mult.commute)
  then show ?case
    using Suc.IH by (simp add: undec_snoc)
qed

lemma pad_zero: "pad k 0 = replicate k 48"
  by (induction k) (simp_all add: replicate_append_same)

lemma matches_digs: "matches (digs n) s \<longleftrightarrow> length s = n \<and> (\<forall>u \<in> set s. is_digit u)"
  by (auto simp: matches_def digs_def list_all2_conv_all_nth all_set_conv_all_nth)

lemma matches_pad [simp]: "matches (digs k) (pad k n)"
  by (simp add: matches_digs pad_digit)

lemma length_digs_chr [simp]: "length (digs n) = n" "length (chr c) = 1"
  by (simp_all add: digs_def chr_def)

lemma matches_Cons [simp]: "matches (p # ps) (u # s) \<longleftrightarrow> p u \<and> matches ps s"
  by (simp add: matches_def)

lemma chr_append [simp]: "chr c @ ps = (\<lambda>u. u = c) # ps"
  by (simp add: chr_def)

lemma matches_digs_append [simp]:
  "matches (digs k @ ps) (pad k n @ s) \<longleftrightarrow> matches ps s"
  by (simp add: matches_append_split)

definition day_text :: "nat \<Rightarrow> nat \<Rightarrow> nat \<Rightarrow> jstr" where
  "day_text y m d = pad 4 y @ [45] @ pad 2 m @ [45] @ pad 2 d"

definition minute_text :: "nat \<Rightarrow> nat \<Rightarrow> nat \<Rightarrow> nat \<Rightarrow> nat \<Rightarrow> jstr" where
  "minute_text y m d h mi = day_text y m d @ [84] @ pad 2 h @ [58] @ pad 2 mi"

definition second_text :: "nat \<Rightarrow> nat \<Rightarrow> nat \<Rightarrow> nat \<Rightarrow> nat \<Rightarrow> nat \<Rightarrow> jstr" where
  "second_text y m d h mi sec = minute_text y m d h mi @ [58] @ pad 2 sec"

text \<open>A zone: \<open>Z\<close>, or a sign with hours and minutes.\<close>

definition zone_text :: "(bool \<times> nat \<times> nat) option \<Rightarrow> jstr" where
  "zone_text z = (case z of None \<Rightarrow> [90]
     | Some (neg, oh, om) \<Rightarrow> (if neg then 45 else 43) # pad 2 oh @ [58] @ pad 2 om)"

definition zone_ms :: "(bool \<times> nat \<times> nat) option \<Rightarrow> int" where
  "zone_ms z = (case z of None \<Rightarrow> 0
     | Some (neg, oh, om) \<Rightarrow> (if neg then -1 else 1) * (int oh * 60 + int om) * 60000)"

definition valid_zone :: "(bool \<times> nat \<times> nat) option \<Rightarrow> bool" where
  "valid_zone z \<longleftrightarrow> (case z of None \<Rightarrow> True | Some (neg, oh, om) \<Rightarrow> oh \<le> 23 \<and> om \<le> 59)"

text \<open>A fraction: its digits, none when the text has no dot.\<close>

definition frac_text :: "jstr \<Rightarrow> jstr" where
  "frac_text ds = (if ds = [] then [] else 46 # ds)"

definition instant_text ::
  "nat \<Rightarrow> nat \<Rightarrow> nat \<Rightarrow> nat \<Rightarrow> nat \<Rightarrow> nat \<Rightarrow> jstr \<Rightarrow> (bool \<times> nat \<times> nat) option \<Rightarrow> jstr" where
  "instant_text y m d h mi sec ds z = second_text y m d h mi sec @ frac_text ds @ zone_text z"

lemma length_texts [simp]:
  "length (minute_text y m d h mi) = 16" "length (second_text y m d h mi sec) = 19"
  by (simp_all add: second_text_def minute_text_def day_text_def)

lemma length_date_pat: "length date_pat = 16"
  by (simp add: date_pat_def)

lemma matches_minute_text: "matches date_pat (minute_text y m d h mi)"
  by (simp add: date_pat_def minute_text_def day_text_def)

lemma matches_second_text: "matches (date_pat @ chr 58 @ digs 2) (second_text y m d h mi sec)"
  by (simp add: matches_append_split second_text_def matches_minute_text date_pat_def [symmetric]
      length_date_pat)

lemma num_at_mid:
  "length a = i \<Longrightarrow> x < 10 ^ n \<Longrightarrow> num_at i n (a @ pad n x @ c) = int x"
  by (simp add: num_at_def undec_pad)

lemma num_at_texts:
  assumes "y < 10000" "m < 100" "d < 100" "h < 100" "mi < 100" "sec < 100"
  shows "num_at 0 4 (second_text y m d h mi sec @ r) = int y"
    "num_at 5 2 (second_text y m d h mi sec @ r) = int m"
    "num_at 8 2 (second_text y m d h mi sec @ r) = int d"
    "num_at 11 2 (second_text y m d h mi sec @ r) = int h"
    "num_at 14 2 (second_text y m d h mi sec @ r) = int mi"
    "num_at 17 2 (second_text y m d h mi sec @ r) = int sec"
  using assms
  by (simp_all add: num_at_def second_text_def minute_text_def day_text_def undec_pad)

lemma zone_text_ok: "zone_ok (zone_text z)"
  by (simp add: zone_ok_def zone_text_def split: option.splits)

lemma zone_num:
  "oh < 100 \<Longrightarrow> num_at (Suc 0) 2 (c # pad 2 oh @ r) = int oh"
  "om < 100 \<Longrightarrow> num_at 4 2 (c # pad 2 oh @ 58 # pad 2 om) = int om"
  using num_at_mid [of "[c]" 1 oh 2 r] num_at_mid [of "c # pad 2 oh @ [58]" 4 om 2 "[]"]
  by simp_all

lemma zone_offset_text: "valid_zone z \<Longrightarrow> zone_offset (zone_text z) = Some (zone_ms z)"
proof (cases z)
  case None
  then show ?thesis by (simp add: zone_offset_def zone_text_def zone_ms_def)
next
  case (Some w)
  moreover obtain neg oh om where "w = (neg, oh, om)"
    by (cases w)
  moreover assume "valid_zone z"
  ultimately show ?thesis
    by (cases neg)
      (simp_all add: zone_offset_def zone_text_def zone_ms_def valid_zone_def zone_num starts_with_def
        Let_def)
qed

lemma zone_text_hd: "zone_text z \<noteq> []" "\<not> is_digit (hd (zone_text z))" "hd (zone_text z) \<noteq> 46"
  by (auto simp: zone_text_def is_digit_def split: option.splits)

lemma match_seconds_text:
  assumes "\<forall>u \<in> set ds. is_digit u"
  shows "match_seconds (instant_text y m d h mi sec ds z) =
     Some (if ds = [] then None else Some ds, zone_text z)"
proof -
  have "takeWhile is_digit (ds @ zone_text z) = ds \<and> dropWhile is_digit (ds @ zone_text z) = zone_text z"
    using assms zone_text_hd [of z] by (cases "zone_text z") auto
  then show ?thesis
    using zone_text_hd [of z] matches_second_text
    by (auto simp: match_seconds_def instant_text_def frac_text_def zone_text_ok Let_def)
qed

text \<open>The only \<open>T\<close> of the text stands at its tenth place.\<close>

lemma subsecond_skip:
  "\<forall>u \<in> set a. u \<noteq> 84 \<Longrightarrow> subsecond_fraction (a @ s) = subsecond_fraction s"
  by (induction a) simp_all

lemma day_text_chars: "u \<in> set (day_text y m d) \<Longrightarrow> u \<noteq> 84"
  by (auto simp: day_text_def is_digit_def dest!: pad_digit)

lemma subsecond_none: "\<forall>u \<in> set s. u \<noteq> 84 \<Longrightarrow> subsecond_fraction s = None"
  using subsecond_skip [of s "[]"] by simp

lemma zone_text_chars: "u \<in> set (zone_text z) \<Longrightarrow> u \<noteq> 84"
  by (auto simp: zone_text_def is_digit_def dest!: pad_digit split: option.splits if_splits)

lemma time_tail_chars: "u \<in> set (pad 2 h @ 58 # pad 2 mi @ 58 # pad 2 sec @ zone_text z) \<Longrightarrow> u \<noteq> 84"
  by (auto simp: is_digit_def dest!: pad_digit zone_text_chars)

lemma instant_split:
  "instant_text y m d h mi sec ds z =
     day_text y m d @ 84 # pad 2 h @ 58 # pad 2 mi @ 58 # pad 2 sec @ frac_text ds @ zone_text z"
  by (simp add: instant_text_def second_text_def minute_text_def)

lemma subsecond_text:
  assumes "\<forall>u \<in> set ds. is_digit u"
  shows "subsecond_fraction (instant_text y m d h mi sec ds z) = (if ds = [] then None else Some ds)"
proof -
  let ?t = "84 # pad 2 h @ 58 # pad 2 mi @ 58 # pad 2 sec @ frac_text ds @ zone_text z"
  have "subsecond_fraction (instant_text y m d h mi sec ds z) = subsecond_fraction ?t"
    unfolding instant_split by (rule subsecond_skip) (auto dest: day_text_chars)
  also have "\<dots> = (if ds = [] then None else Some ds)"
  proof (cases ds)
    case Nil
    obtain c r where z: "zone_text z = c # r" and "c \<noteq> 46"
      using zone_text_hd [of z] by (cases "zone_text z") auto
    then have "\<not> matches (chr 84 @ digs 2 @ chr 58 @ digs 2 @ chr 58 @ digs 2 @ chr 46 @ digs 1)
        (take 11 ?t)"
      by (simp add: Nil frac_text_def)
    moreover have "subsecond_fraction (tl ?t) = None"
      using time_tail_chars by (intro subsecond_none) (auto simp: Nil frac_text_def)
    ultimately show ?thesis
      by (simp add: Nil)
  next
    case (Cons c r)
    have "takeWhile is_digit (ds @ zone_text z) = ds"
      using assms zone_text_hd [of z] by (cases "zone_text z") auto
    then show ?thesis
      using assms by (simp add: Cons frac_text_def matches_digs)
  qed
  finally show ?thesis .
qed

definition valid_instant ::
  "nat \<Rightarrow> nat \<Rightarrow> nat \<Rightarrow> nat \<Rightarrow> nat \<Rightarrow> nat \<Rightarrow> jstr \<Rightarrow> (bool \<times> nat \<times> nat) option \<Rightarrow> bool" where
  "valid_instant y m d h mi sec ds z \<longleftrightarrow>
     y \<le> 9999 \<and> valid_date (int y) (int m) (int d) \<and> h \<le> 23 \<and> mi \<le> 59 \<and> sec \<le> 59 \<and>
     (\<forall>u \<in> set ds. is_digit u) \<and> length ds \<le> 100 \<and> valid_zone z"

lemma valid_instant_small:
  "valid_instant y m d h mi sec ds z \<Longrightarrow>
     y < 10000 \<and> m < 100 \<and> d < 100 \<and> h < 100 \<and> mi < 100 \<and> sec < 100"
  by (auto simp: valid_instant_def valid_date_def daysInStrictMonth_def split: if_splits)

lemma length_zone_text: "length (zone_text z) \<le> 6"
  by (simp add: zone_text_def split: option.splits)

lemma parse_instant_text:
  assumes "valid_instant y m d h mi sec ds z"
  shows "parseStrictCalendarInstantMs (instant_text y m d h mi sec ds z) =
     (if length ds > 3 \<and> list_ex (\<lambda>u. u \<noteq> 48) (drop 3 ds) then None
      else Some (strictUtcMs (int y) (int m) (int d) (int h) (int mi) (int sec)
             (if ds = [] then 0 else frac_ms ds) - zone_ms z))"
proof -
  let ?v = "instant_text y m d h mi sec ds z"
  have len: "length ?v \<noteq> 0" "\<not> length ?v > 128"
    using assms length_zone_text [of z]
    by (auto simp: instant_text_def frac_text_def valid_instant_def)
  have digits: "\<forall>u \<in> set ds. is_digit u"
    using assms by (simp add: valid_instant_def)
  have nums: "num_at 0 4 ?v = int y" "num_at 5 2 ?v = int m" "num_at 8 2 ?v = int d"
    "num_at 11 2 ?v = int h" "num_at 14 2 ?v = int mi" "num_at 17 2 ?v = int sec"
    unfolding instant_text_def
    using num_at_texts [of y m d h mi sec "frac_text ds @ zone_text z"] valid_instant_small [OF assms]
    by simp_all
  have sub: "hasSubMillisecondPrecision ?v \<longleftrightarrow> length ds > 3 \<and> list_ex (\<lambda>u. u \<noteq> 48) (drop 3 ds)"
    by (auto simp: hasSubMillisecondPrecision_def subsecond_text [OF digits])
  show ?thesis
    using assms len
    unfolding parseStrictCalendarInstantMs_def nums sub match_seconds_text [OF digits]
    by (auto simp: valid_instant_def valid_date_def zone_offset_text Let_def)
qed

lemma frac_pad: "ms < 1000 \<Longrightarrow> frac_ms (pad 3 ms) = int ms"
  by (simp add: frac_ms_def undec_pad)

subsection \<open>Properties\<close>

text \<open>C36. Parsed instants compare as their fields do: for two calendar-valid texts with
  millisecond fractions in the same zone both parse, and the first is strictly earlier exactly when
  its (date, time) fields come first, over leap years, month lengths and century rules.\<close>

theorem instant_order:
  assumes "valid_instant y m d h mi sec (pad 3 ms) z" "valid_instant y' m' d' h' mi' sec' (pad 3 ms') z"
    and "ms < 1000" "ms' < 1000"
  shows "\<exists>a b. parseStrictCalendarInstantMs (instant_text y m d h mi sec (pad 3 ms) z) = Some a \<and>
       parseStrictCalendarInstantMs (instant_text y' m' d' h' mi' sec' (pad 3 ms') z) = Some b \<and>
       (a < b \<longleftrightarrow> ((y, m, d), (h, mi, sec, ms)) < ((y', m', d'), (h', mi', sec', ms')))"
proof -
  let ?f = "((y, m, d), (h, mi, sec, ms))" and ?g = "((y', m', d'), (h', mi', sec', ms'))"
  let ?a = "strictUtcMs (int y) (int m) (int d) (int h) (int mi) (int sec) (int ms)"
  let ?b = "strictUtcMs (int y') (int m') (int d') (int h') (int mi') (int sec') (int ms')"
  have valid: "valid_date (int y) (int m) (int d)" "valid_date (int y') (int m') (int d')"
    "valid_time (int h) (int mi) (int sec) (int ms)" "valid_time (int h') (int mi') (int sec') (int ms')"
    using assms by (simp_all add: valid_instant_def valid_time_def)
  have up: "?f < ?g \<Longrightarrow> ?a < ?b" and down: "?g < ?f \<Longrightarrow> ?b < ?a"
    using strictUtcMs_less [OF valid] strictUtcMs_less [OF valid(2,1,4,3)]
    by (simp_all add: less_prod_def')
  have iff: "?a < ?b \<longleftrightarrow> ?f < ?g"
    using up down linorder_less_linear [of ?f ?g] by fastforce
  have "pad 3 k \<noteq> []" for k
    by (metis length_pad list.size(3) zero_neq_numeral)
  then show ?thesis
    using parse_instant_text [OF assms(1)] parse_instant_text [OF assms(2)] iff assms(3,4)
    by (simp add: frac_pad)
qed

theorem instant_order_witness:
  "\<exists>a b. parseStrictCalendarInstantMs (instant_text 1999 12 31 23 59 59 (pad 3 999) None) = Some a \<and>
     parseStrictCalendarInstantMs (instant_text 2000 2 29 0 0 0 (pad 3 0) None) = Some b \<and>
     (a < b \<longleftrightarrow> ((1999::nat, 12::nat, 31::nat), (23::nat, 59::nat, 59::nat, 999::nat)) <
       ((2000, 2, 29), (0, 0, 0, 0)))"
  by (rule instant_order) code_simp+

end
