(* ===== verification/Instant_Spec.thy ===== *)
theory Instant_Spec
  imports Instants Complex_Main
begin

text \<open>
  What an instant text means, stated without the parser's own arithmetic: the days of the Gregorian
  calendar counted one year and one month at a time from 0000-01-01, the fraction of a second as the rational
  number that its digits denote, and the instant as a rational number of milliseconds since 1970-01-01. The
  parser is shown to return exactly that number, or nothing when the fields name no instant or the number
  is not whole. Both forms of the text are covered, with seconds and without.
\<close>

subsection \<open>The instant of a text\<close>

definition gregorian_leap :: "nat \<Rightarrow> bool" where
  "gregorian_leap y \<longleftrightarrow> 4 dvd y \<and> (100 dvd y \<longrightarrow> 400 dvd y)"

definition month_length :: "nat \<Rightarrow> nat \<Rightarrow> nat" where
  "month_length y m = [31, if gregorian_leap y then 29 else 28, 31, 30, 31, 30, 31, 31, 30, 31, 30, 31] ! (m - 1)"

text \<open>The days before a year, and the days of the year before a month.\<close>

fun years_days :: "nat \<Rightarrow> nat" where
  "years_days 0 = 0"
| "years_days (Suc y) = years_days y + (if gregorian_leap y then 366 else 365)"

fun months_days :: "nat \<Rightarrow> nat \<Rightarrow> nat" where
  "months_days y 0 = 0"
| "months_days y (Suc n) = months_days y n + month_length y (Suc n)"

definition civil_day :: "nat \<Rightarrow> nat \<Rightarrow> nat \<Rightarrow> nat" where
  "civil_day y m d = years_days y + months_days y (m - 1) + (d - 1)"

text \<open>The number that the digits after a decimal point denote.\<close>

fun fraction :: "jstr \<Rightarrow> rat" where
  "fraction [] = 0"
| "fraction (u # us) = (of_nat (u - 48) + fraction us) / 10"

text \<open>A zone is ahead of UTC by its hours and minutes, or behind it when its sign is a minus.\<close>

definition zone_minutes :: "(bool \<times> nat \<times> nat) option \<Rightarrow> int" where
  "zone_minutes z = (case z of None \<Rightarrow> 0
     | Some (behind, oh, om) \<Rightarrow> if behind then - int (60 * oh + om) else int (60 * oh + om))"

definition instant_ms ::
  "nat \<Rightarrow> nat \<Rightarrow> nat \<Rightarrow> nat \<Rightarrow> nat \<Rightarrow> nat \<Rightarrow> jstr \<Rightarrow> (bool \<times> nat \<times> nat) option \<Rightarrow> rat" where
  "instant_ms y m d h mi sec ds z =
     (let days = int (civil_day y m d) - int (civil_day 1970 1 1);
          minutes = 60 * (24 * days + int h) + int mi - zone_minutes z
      in 1000 * (of_int (60 * minutes + int sec) + fraction ds))"

text \<open>The fields name an instant: a day of the calendar, a time of that day and a zone within a day.\<close>

definition names_instant ::
  "nat \<Rightarrow> nat \<Rightarrow> nat \<Rightarrow> nat \<Rightarrow> nat \<Rightarrow> nat \<Rightarrow> (bool \<times> nat \<times> nat) option \<Rightarrow> bool" where
  "names_instant y m d h mi sec z \<longleftrightarrow>
     1 \<le> m \<and> m \<le> 12 \<and> 1 \<le> d \<and> d \<le> month_length y m \<and> h < 24 \<and> mi < 60 \<and> sec < 60 \<and>
     (case z of None \<Rightarrow> True | Some (behind, oh, om) \<Rightarrow> oh < 24 \<and> om < 60)"

definition whole_instant ::
  "nat \<Rightarrow> nat \<Rightarrow> nat \<Rightarrow> nat \<Rightarrow> nat \<Rightarrow> nat \<Rightarrow> jstr \<Rightarrow> (bool \<times> nat \<times> nat) option \<Rightarrow> rat option" where
  "whole_instant y m d h mi sec ds z =
     (if names_instant y m d h mi sec z \<and> instant_ms y m d h mi sec ds z \<in> \<int>
      then Some (instant_ms y m d h mi sec ds z) else None)"

text \<open>The fields of a text: numbers of two digits, a year of four, a zone, and fraction digits.\<close>

definition written_fields ::
  "nat \<Rightarrow> nat \<Rightarrow> nat \<Rightarrow> nat \<Rightarrow> nat \<Rightarrow> nat \<Rightarrow> jstr \<Rightarrow> (bool \<times> nat \<times> nat) option \<Rightarrow> bool" where
  "written_fields y m d h mi sec ds z \<longleftrightarrow> y < 10000 \<and> m < 100 \<and> d < 100 \<and> h < 100 \<and> mi < 100 \<and> sec < 100 \<and>
     list_all is_digit ds \<and> length ds \<le> 100 \<and> (case z of None \<Rightarrow> True | Some (behind, oh, om) \<Rightarrow> oh < 100 \<and> om < 100)"

subsection \<open>The calendar of the parser is the Gregorian one\<close>

lemma leap_is: "isLeapYear (int y) \<longleftrightarrow> gregorian_leap y"
proof -
  have m: "int y mod k = 0 \<longleftrightarrow> nat k dvd y" if "0 < k" for k
    using that int_dvd_int_iff [of "nat k" y] by (simp add: mod_eq_0_iff_dvd)
  have "400 dvd y \<Longrightarrow> 100 dvd y" "100 dvd y \<Longrightarrow> 4 dvd y"
    using dvd_trans [of 100 400 y] dvd_trans [of 4 100 y] by simp_all
  then show ?thesis
    unfolding isLeapYear_def gregorian_leap_def m [of 4, simplified] m [of 100, simplified] m [of 400, simplified] by blast
qed

lemma month_length_is: "1 \<le> m \<Longrightarrow> m \<le> 12 \<Longrightarrow> daysInStrictMonth (int y) (int m) = int (month_length y m)"
  using month_cases [of "int m"]
  by (auto simp: daysInStrictMonth_def month_length_def leap_is simp del: One_nat_def)

lemma year_days_is: "day_from_year (int y) = int (years_days y) - 719528"
proof (induction y)
  case 0
  show ?case by (simp add: day_from_year_def)
next
  case (Suc y)
  have "day_from_year (int (Suc y)) = day_from_year (int y + 1)"
    by (simp add: add.commute)
  then show ?case
    using Suc day_from_year_step [of "int y"] leap_is [of y] by simp
qed

lemma epoch_day: "years_days 1970 = 719528"
  using year_days_is [of 1970] by (simp add: day_from_year_def)

lemma months_days_is: "n < 12 \<Longrightarrow> days_before_month (int y) (int n + 1) = int (months_days y n)"
proof (induction n)
  case 0
  show ?case by (simp add: days_before_month_def)
next
  case (Suc n)
  have "int (Suc n) + 1 = (int n + 1) + 1" "int n + 1 = int (Suc n)"
    by simp_all
  then show ?case
    using Suc days_before_month_step [of "int n + 1" "int y"] month_length_is [of "Suc n" y]
    by (simp add: add.commute)
qed

lemma civil_day_is:
  assumes "1 \<le> m" "m \<le> 12" "1 \<le> d"
  shows "make_day (int y) (int m) (int d) = int (civil_day y m d) - int (civil_day 1970 1 1)"
proof -
  have "days_before_month (int y) (int m) = int (months_days y (m - 1))"
    using months_days_is [of "m - 1" y] assms by (simp add: of_nat_diff)
  then show ?thesis
    using assms year_days_is [of y] epoch_day by (simp add: make_day_def civil_day_def of_nat_diff)
qed

lemma valid_date_is: "valid_date (int y) (int m) (int d) \<longleftrightarrow> 1 \<le> m \<and> m \<le> 12 \<and> 1 \<le> d \<and> d \<le> month_length y m"
  using month_length_is [of m y] by (auto simp: valid_date_def)

subsection \<open>The fraction of the parser is the rational one\<close>

lemma digit_value: "is_digit u \<Longrightarrow> u - 48 \<le> 9 \<and> (u - 48 = 0 \<longleftrightarrow> u = 48)"
  by (auto simp: is_digit_def)

lemma fraction_bounds: "list_all is_digit ds \<Longrightarrow> 0 \<le> fraction ds \<and> fraction ds < 1"
proof (induction ds)
  case Nil
  show ?case by simp
next
  case (Cons u ds)
  then have "u - 48 \<le> 9" "0 \<le> fraction ds" "fraction ds < 1"
    using digit_value [of u] by simp_all
  moreover from this(1) have "(of_nat (u - 48) :: rat) \<le> of_nat 9"
    by (rule of_nat_mono)
  ultimately have "0 \<le> of_nat (u - 48) + fraction ds" "of_nat (u - 48) + fraction ds < 10"
    by (simp_all add: add_le_less_mono)
  then show ?case
    by (simp del: of_nat_diff)
qed

lemma fraction_zero: "list_all is_digit ds \<Longrightarrow> fraction ds = 0 \<longleftrightarrow> list_all (\<lambda>u. u = 48) ds"
proof (induction ds)
  case Nil
  show ?case by simp
next
  case (Cons u ds)
  then have "of_nat (u - 48) + fraction ds = 0 \<longleftrightarrow> u - 48 = 0 \<and> fraction ds = 0"
    using fraction_bounds [of ds] add_nonneg_eq_0_iff [of "of_nat (u - 48)" "fraction ds"] by simp
  then show ?case
    using Cons digit_value [of u] by (simp del: diff_is_0_eq)
qed

lemma fraction_ms: "1000 * fraction ds = of_int (frac_ms ds) + fraction (drop 3 ds)"
proof -
  consider "ds = []" | a where "ds = [a]" | a b where "ds = [a, b]" | a b c r where "ds = a # b # c # r"
    by (metis list.exhaust)
  then show ?thesis
    by cases (simp_all add: frac_ms_def undec_def field_simps)
qed

lemma whole_fraction:
  assumes "list_all is_digit ds"
  shows "of_int n + 1000 * fraction ds \<in> \<int> \<longleftrightarrow> list_all (\<lambda>u. u = 48) (drop 3 ds)"
proof -
  have d: "list_all is_digit (drop 3 ds)"
    using assms by (auto simp: list_all_iff dest: in_set_dropD)
  have "of_int n + 1000 * fraction ds \<in> \<int> \<longleftrightarrow> fraction (drop 3 ds) \<in> \<int>"
    using Ints_diff [of "of_int n + 1000 * fraction ds" "of_int (n + frac_ms ds)"]
      Ints_add [of "of_int (n + frac_ms ds)" "fraction (drop 3 ds)"] by (auto simp: fraction_ms)
  also have "\<dots> \<longleftrightarrow> fraction (drop 3 ds) = 0"
    using fraction_bounds [OF d] by (auto elim!: Ints_cases)
  finally show ?thesis
    using fraction_zero [OF d] by simp
qed

lemma instant_ms_is:
  assumes "names_instant y m d h mi sec z"
  shows "instant_ms y m d h mi sec ds z =
    of_int (strictUtcMs (int y) (int m) (int d) (int h) (int mi) (int sec) 0 - zone_ms z) + 1000 * fraction ds"
  using assms civil_day_is [of m d y]
  by (auto simp: instant_ms_def names_instant_def strictUtcMs_def zone_ms_def zone_minutes_def algebra_simps split: option.splits)

subsection \<open>Both forms of the text\<close>

definition minutes_text :: "nat \<Rightarrow> nat \<Rightarrow> nat \<Rightarrow> nat \<Rightarrow> nat \<Rightarrow> (bool \<times> nat \<times> nat) option \<Rightarrow> jstr" where
  "minutes_text y m d h mi z = minute_text y m d h mi @ zone_text z"

lemma zone_offset_any:
  assumes "case z of None \<Rightarrow> True | Some (behind, oh, om) \<Rightarrow> oh < 100 \<and> om < 100"
  shows "zone_offset (zone_text z) = (if valid_zone z then Some (zone_ms z) else None)"
proof (cases "valid_zone z")
  case False
  then obtain behind oh om where "z = Some (behind, oh, om)"
    by (auto simp: valid_zone_def split: option.splits)
  then show ?thesis
    using False assms by (auto simp: zone_offset_def zone_text_def valid_zone_def zone_num Let_def)
qed (simp add: zone_offset_text)

lemma names_instant_is:
  "names_instant y m d h mi sec z \<longleftrightarrow> valid_date (int y) (int m) (int d) \<and> h \<le> 23 \<and> mi \<le> 59 \<and> sec \<le> 59 \<and> valid_zone z"
  by (auto simp: names_instant_def valid_date_is valid_zone_def split: option.splits)

lemma out_of_range:
  "int m < 1 \<or> 12 < int m \<or> int d < 1 \<or> daysInStrictMonth (int y) (int m) < int d \<longleftrightarrow> \<not> valid_date (int y) (int m) (int d)"
  by (auto simp: valid_date_def)

text \<open>What the parser does with the two forms.\<close>

lemma parse_seconds:
  assumes "written_fields y m d h mi sec ds z"
  shows "parseStrictCalendarInstantMs (instant_text y m d h mi sec ds z) =
     (if names_instant y m d h mi sec z \<and> list_all (\<lambda>u. u = 48) (drop 3 ds)
      then Some (strictUtcMs (int y) (int m) (int d) (int h) (int mi) (int sec) 0 - zone_ms z + frac_ms ds) else None)"
proof -
  let ?v = "instant_text y m d h mi sec ds z"
  have len: "length ?v \<noteq> 0" "\<not> length ?v > 128"
    using assms length_zone_text [of z] by (auto simp: instant_text_def frac_text_def written_fields_def)
  have digits: "\<forall>u \<in> set ds. is_digit u"
    using assms by (simp add: written_fields_def list_all_iff)
  have nums: "num_at 0 4 ?v = int y" "num_at 5 2 ?v = int m" "num_at 8 2 ?v = int d"
    "num_at 11 2 ?v = int h" "num_at 14 2 ?v = int mi" "num_at 17 2 ?v = int sec"
    unfolding instant_text_def using num_at_texts [of y m d h mi sec "frac_text ds @ zone_text z"] assms
    by (simp_all add: written_fields_def)
  have sub: "hasSubMillisecondPrecision ?v \<longleftrightarrow> \<not> list_all (\<lambda>u. u = 48) (drop 3 ds)"
    by (cases "length ds > 3") (auto simp: hasSubMillisecondPrecision_def subsecond_text [OF digits] list_ex_iff list_all_iff)
  have zone: "zone_offset (zone_text z) = (if valid_zone z then Some (zone_ms z) else None)"
    using assms by (intro zone_offset_any) (simp add: written_fields_def)
  have frac: "(case if ds = [] then None else Some ds of None \<Rightarrow> 0 | Some ds \<Rightarrow> frac_ms ds) = frac_ms ds"
    by (simp add: frac_ms_def undec_def)
  have ms: "strictUtcMs a b c e f g n = strictUtcMs a b c e f g 0 + n" for a b c e f g n
    by (simp add: strictUtcMs_def)
  show ?thesis
    using len unfolding parseStrictCalendarInstantMs_def nums sub match_seconds_text [OF digits] Let_def names_instant_is
    by (auto simp: zone frac ms [of _ _ _ _ _ _ "frac_ms ds"] valid_date_def)
qed

lemma minutes_tail:
  obtains c r where "minutes_text y m d h mi z = minute_text y m d h mi @ c # r" "zone_text z = c # r"
    "c \<noteq> 58" "\<forall>u \<in> set (c # r). u \<noteq> 84"
proof -
  obtain c r where "zone_text z = c # r"
    using zone_text_hd [of z] by (cases "zone_text z") auto
  moreover from this have "c \<noteq> 58"
    by (auto simp: zone_text_def split: option.splits prod.splits if_splits)
  ultimately show thesis
    using that zone_text_chars [of _ z] by (metis minutes_text_def)
qed

lemma match_seconds_minutes: "match_seconds (minutes_text y m d h mi z) = None"
proof -
  obtain c r where t: "minutes_text y m d h mi z = minute_text y m d h mi @ c # r" "c \<noteq> 58"
    by (rule minutes_tail)
  then have "take 19 (minutes_text y m d h mi z) = minute_text y m d h mi @ c # take 2 r"
    by simp
  moreover have "\<not> matches (date_pat @ chr 58 @ digs 2) (minute_text y m d h mi @ c # take 2 r)"
    using t(2) by (simp add: matches_append_split length_date_pat)
  ultimately show ?thesis
    by (simp add: match_seconds_def)
qed

lemma match_minutes_minutes: "match_minutes (minutes_text y m d h mi z) = Some (zone_text z)"
  by (simp add: match_minutes_def minutes_text_def matches_minute_text zone_text_ok)

lemma subsecond_minutes: "subsecond_fraction (minutes_text y m d h mi z) = None"
proof -
  obtain c r where t: "zone_text z = c # r" "c \<noteq> 58" "\<forall>u \<in> set (c # r). u \<noteq> 84"
    by (rule minutes_tail)
  let ?t = "84 # pad 2 h @ 58 # pad 2 mi @ c # r"
  have "\<forall>u \<in> set (day_text y m d). u \<noteq> 84"
    using day_text_chars by blast
  moreover have "minutes_text y m d h mi z = day_text y m d @ ?t"
    by (simp add: minutes_text_def minute_text_def t(1))
  ultimately have "subsecond_fraction (minutes_text y m d h mi z) = subsecond_fraction ?t"
    using subsecond_skip by simp
  moreover have "\<not> matches (chr 84 @ digs 2 @ chr 58 @ digs 2 @ chr 58 @ digs 2 @ chr 46 @ digs 1) (take 11 ?t)"
    using t(2) by simp
  moreover have "subsecond_fraction (tl ?t) = None"
    using t(3) by (intro subsecond_none) (auto simp: is_digit_def dest!: pad_digit)
  ultimately show ?thesis by simp
qed

lemma num_at_minutes:
  assumes "y < 10000" "m < 100" "d < 100" "h < 100" "mi < 100"
  shows "num_at 0 4 (minute_text y m d h mi @ r) = int y" "num_at 5 2 (minute_text y m d h mi @ r) = int m"
    "num_at 8 2 (minute_text y m d h mi @ r) = int d" "num_at 11 2 (minute_text y m d h mi @ r) = int h"
    "num_at 14 2 (minute_text y m d h mi @ r) = int mi"
  using assms by (simp_all add: num_at_def minute_text_def day_text_def undec_pad)

lemma parse_minutes:
  assumes "written_fields y m d h mi 0 [] z"
  shows "parseStrictCalendarInstantMs (minutes_text y m d h mi z) =
     (if names_instant y m d h mi 0 z
      then Some (strictUtcMs (int y) (int m) (int d) (int h) (int mi) 0 0 - zone_ms z) else None)"
proof -
  let ?v = "minutes_text y m d h mi z"
  have len: "length ?v \<noteq> 0" "\<not> length ?v > 128"
    using length_zone_text [of z] by (auto simp: minutes_text_def)
  have nums: "num_at 0 4 ?v = int y" "num_at 5 2 ?v = int m" "num_at 8 2 ?v = int d"
    "num_at 11 2 ?v = int h" "num_at 14 2 ?v = int mi"
    unfolding minutes_text_def using num_at_minutes [of y m d h mi "zone_text z"] assms
    by (simp_all add: written_fields_def)
  have sub: "\<not> hasSubMillisecondPrecision ?v"
    by (simp add: hasSubMillisecondPrecision_def subsecond_minutes)
  have zone: "zone_offset (zone_text z) = (if valid_zone z then Some (zone_ms z) else None)"
    using assms by (intro zone_offset_any) (simp add: written_fields_def)
  show ?thesis
    using len sub unfolding parseStrictCalendarInstantMs_def nums match_seconds_minutes match_minutes_minutes Let_def
      names_instant_is
    by (auto simp: zone valid_date_def)
qed

subsection \<open>Properties\<close>

text \<open>C35. The parser is exact: the text of any fields, with seconds and any fraction of up to a
  hundred digits or with neither, in any zone, is read to the rational number of milliseconds since 1970 that the
  Gregorian calendar gives those fields; and it is refused, never truncated or carried over, exactly when the
  fields name no instant (a day past the end of its month, an hour of 24, a zone of a day or more) or when that
  number of milliseconds is not whole.\<close>

theorem instant_parse_exact:
  assumes "written_fields y m d h mi sec ds z"
  shows "map_option of_int (parseStrictCalendarInstantMs (instant_text y m d h mi sec ds z)) =
      whole_instant y m d h mi sec ds z \<and>
    map_option of_int (parseStrictCalendarInstantMs (minutes_text y m d h mi z)) = whole_instant y m d h mi 0 [] z"
proof
  have ds: "list_all is_digit ds" and m: "written_fields y m d h mi 0 [] z"
    using assms by (simp_all add: written_fields_def)
  let ?n = "\<lambda>sec. strictUtcMs (int y) (int m) (int d) (int h) (int mi) (int sec) 0 - zone_ms z"
  have "instant_ms y m d h mi sec ds z = of_int (?n sec + frac_ms ds)"
    if "names_instant y m d h mi sec z" "list_all (\<lambda>u. u = 48) (drop 3 ds)"
    using that ds fraction_ms [of ds] fraction_zero [of "drop 3 ds"] by (simp add: instant_ms_is list_all_iff in_set_dropD)
  then show "map_option of_int (parseStrictCalendarInstantMs (instant_text y m d h mi sec ds z)) =
      whole_instant y m d h mi sec ds z"
    using whole_fraction [OF ds, of "?n sec"]
    unfolding parse_seconds [OF assms] whole_instant_def by (auto simp: instant_ms_is)
  show "map_option of_int (parseStrictCalendarInstantMs (minutes_text y m d h mi z)) = whole_instant y m d h mi 0 [] z"
    unfolding parse_minutes [OF m] whole_instant_def by (auto simp: instant_ms_is)
qed

theorem instant_parse_exact_witness:
  "instant_ms 2024 2 29 12 30 45 (js ''1200'') (Some (False, 9, 0)) = 1709177445120 \<and>
   parseStrictCalendarInstantMs (js ''2024-02-29T12:30:45.1200+09:00'') = Some 1709177445120 \<and>
   parseStrictCalendarInstantMs (js ''2023-02-29T12:30:45.1200+09:00'') = None"
proof -
  let ?z = "Some (False, 9, 0)"
  have t: "instant_text 2024 2 29 12 30 45 (js ''1200'') ?z = js ''2024-02-29T12:30:45.1200+09:00''"
    "instant_text 2023 2 29 12 30 45 (js ''1200'') ?z = js ''2023-02-29T12:30:45.1200+09:00''"
    by code_simp+
  have w: "written_fields 2024 2 29 12 30 45 (js ''1200'') ?z" "written_fields 2023 2 29 12 30 45 (js ''1200'') ?z"
    by code_simp+
  have p: "parseStrictCalendarInstantMs (js ''2024-02-29T12:30:45.1200+09:00'') = Some 1709177445120"
    by code_simp
  have "\<not> names_instant 2023 2 29 12 30 45 ?z"
    by code_simp
  then show ?thesis
    using instant_parse_exact [OF w(1)] instant_parse_exact [OF w(2)] p unfolding t
    by (auto simp: whole_instant_def split: if_splits)
qed

end
