(* ===== verification/Json.thy ===== *)
theory Json
  imports Instants
begin

text \<open>
  Canonical JSON and the domain-separated request hash (packages/kernel/src/canonical.ts).

  A JSON value is a datatype. A number is the text that the language's \<open>Number::toString\<close> gives
  it; \<open>JUndef\<close> stands for \<open>undefined\<close>, a function or a symbol. An object is the list of its own
  properties in creation order, and \<open>JSON.stringify\<close> lists them in the language's property order:
  array indices ascending, then the other keys in creation order. SHA-256 is code outside the
  repository, so the digest is the parameter \<open>H\<close>.
\<close>

datatype json =
    JUndef | JNull | JBool bool | JNum jstr | JStr jstr | JArr "json list"
  | JObj "(jstr \<times> json) list"

definition jnat :: "nat \<Rightarrow> json" where
  "jnat n = JNum (dec n)"

subsection \<open>Own property order\<close>

text \<open>An array index: the decimal text of a number below \<open>2^32 - 1\<close>.\<close>

definition array_index :: "jstr \<Rightarrow> nat option" where
  "array_index k =
     (let n = undec k in if k \<noteq> [] \<and> length k \<le> 10 \<and> k = dec n \<and> int n < 4294967295
      then Some n else None)"

definition own_order :: "(jstr \<times> 'v) list \<Rightarrow> (jstr \<times> 'v) list" where
  "own_order kvs =
     sort_key (\<lambda>kv. the (array_index (fst kv))) (filter (\<lambda>kv. array_index (fst kv) \<noteq> None) kvs) @
     filter (\<lambda>kv. array_index (fst kv) = None) kvs"

subsection \<open>\<open>JSON.stringify\<close>\<close>

definition comma_join :: "jstr list \<Rightarrow> jstr" where
  "comma_join ts = (case ts of [] \<Rightarrow> [] | t # ts \<Rightarrow> t @ concat (map (\<lambda>x. 44 # x) ts))"

fun stringify :: "json \<Rightarrow> jstr" where
  "stringify JUndef = js ''null''"
| "stringify JNull = js ''null''"
| "stringify (JBool b) = (if b then js ''true'' else js ''false'')"
| "stringify (JNum t) = t"
| "stringify (JStr s) = json_string s"
| "stringify (JArr xs) = 91 # comma_join (map stringify xs) @ [93]"
| "stringify (JObj kvs) =
     123 # comma_join (map (\<lambda>kv. json_string (fst kv) @ 58 # the (snd kv))
       (filter (\<lambda>kv. snd kv \<noteq> None) (own_order
         (map (\<lambda>kv. (fst kv, if snd kv = JUndef then None else Some (stringify (snd kv))))
           kvs)))) @ [125]"

subsection \<open>Canonical form\<close>

fun canonicalize :: "json \<Rightarrow> json" where
  "canonicalize (JArr xs) = JArr (map canonicalize xs)"
| "canonicalize (JObj kvs) =
     JObj (own_order (sort_key fst (filter (\<lambda>kv. snd kv \<noteq> JUndef)
       (map (\<lambda>kv. (fst kv, canonicalize (snd kv))) kvs))))"
| "canonicalize v = v"

definition canonicalJson :: "json \<Rightarrow> jstr option" where
  "canonicalJson value = (if value = JUndef then None else Some (stringify (canonicalize value)))"

definition requestHash :: "(jstr \<Rightarrow> jstr) \<Rightarrow> jstr \<Rightarrow> nat \<Rightarrow> json \<Rightarrow> jstr option" where
  "requestHash H operation schemaVersion payload =
     (if operation = [] then None
      else if schemaVersion < 1 then None
      else case canonicalJson payload of
        None \<Rightarrow> None
      | Some text \<Rightarrow> Some (H (operation @ 58 # dec schemaVersion @ 58 # text)))"

subsection \<open>Reading JSON text back\<close>

text \<open>
  A text determines the value it was written from. Strings first: \<open>unq\<close> decodes the units of a
  quoted string up to the closing quote.
\<close>

definition unhex :: "nat \<Rightarrow> nat" where
  "unhex u = (if u < 58 then u - 48 else u - 87)"

fun unq :: "jstr \<Rightarrow> (jstr \<times> jstr) option" where
  "unq [] = None"
| "unq (u # r) =
     (if u = 34 then Some ([], r)
      else if u = 92 then
        (case r of
           [] \<Rightarrow> None
         | c # r1 \<Rightarrow>
             if c = 117 then
               (case r1 of
                  a # b # d # e # r2 \<Rightarrow>
                    map_option (apfst ((#) (unhex a * 4096 + unhex b * 256 + unhex d * 16 + unhex e)))
                      (unq r2)
                | _ \<Rightarrow> None)
             else map_option (apfst ((#)
                 (if c = 98 then 8 else if c = 102 then 12 else if c = 110 then 10
                  else if c = 114 then 13 else if c = 116 then 9 else c))) (unq r1))
      else map_option (apfst ((#) u)) (unq r))"

lemma unhex_digit [simp]: "d < 16 \<Longrightarrow> unhex (hex_digit d) = d"
  by (auto simp: unhex_def hex_digit_def)

lemma hex_split:
  assumes "u < 65536"
  shows "u div 4096 mod 16 * 4096 + u div 256 mod 16 * 256 + u div 16 mod 16 * 16 + u mod 16 = (u::nat)"
proof -
  have "u div 256 = u div 16 div 16" "u div 4096 = u div 16 div 16 div 16"
    by (simp_all add: div_mult2_eq [symmetric])
  moreover have "u div 16 div 16 div 16 < 16"
    using assms by (simp add: div_mult2_eq [symmetric] less_mult_imp_div_less)
  moreover have "n div 16 * 16 + n mod 16 = n" for n :: nat
    by simp
  note this [of u] this [of "u div 16"] this [of "u div 16 div 16"]
  ultimately show ?thesis
    by (simp only: mod_less)
qed

lemma unq_escape: "u < 65536 \<Longrightarrow> unq (u_escape u @ r) = map_option (apfst ((#) u)) (unq r)"
  using hex_split [of u] by (simp add: u_escape_def unq.simps)

lemma surrogate_small: "is_high u \<or> is_low u \<Longrightarrow> u < 65536 \<and> u \<noteq> 34 \<and> u \<noteq> 92"
  by (auto simp: is_high_def is_low_def)

lemma unq_plain: "u \<noteq> 34 \<Longrightarrow> u \<noteq> 92 \<Longrightarrow> unq (u # r) = map_option (apfst ((#) u)) (unq r)"
  by simp

lemma unq_short:
  "c \<noteq> 117 \<Longrightarrow> unq (92 # c # r) = map_option (apfst ((#)
     (if c = 98 then 8 else if c = 102 then 12 else if c = 110 then 10
      else if c = 114 then 13 else if c = 116 then 9 else c))) (unq r)"
  by simp

declare unq.simps(2) [simp del]

lemma unq_unit: "unq (json_unit u @ r) = map_option (apfst ((#) u)) (unq r)"
proof -
  consider "u \<in> {34, 92, 8, 12, 10, 13, 9}"
    | "u \<notin> {34, 92, 8, 12, 10, 13, 9}" "u < 32 \<or> is_high u \<or> is_low u"
    | "u \<notin> {34, 92, 8, 12, 10, 13, 9}" "\<not> (u < 32 \<or> is_high u \<or> is_low u)"
    by blast
  then show ?thesis
  proof cases
    case 1
    then show ?thesis
      by (elim insertE emptyE) (simp_all add: json_unit_def unq_short)
  next
    case 2
    then have "json_unit u = u_escape u" "u < 65536"
      using surrogate_small [of u] by (auto simp: json_unit_def)
    then show ?thesis
      by (simp add: unq_escape)
  next
    case 3
    then show ?thesis
      by (simp add: json_unit_def unq_plain)
  qed
qed

lemma unq_units: "unq (json_units s @ 34 # r) = Some (s, r)"
proof (induction s rule: json_units.induct)
  case 1
  then show ?case by (simp add: unq.simps)
next
  case (2 u)
  then show ?case by (simp add: unq_unit unq.simps(2) [of 34])
next
  case (3 u v s)
  then show ?case
    using surrogate_small [of u] surrogate_small [of v]
    by (cases "is_high u"; cases "is_low v") (simp_all add: unq_unit unq_plain)
qed

lemma json_string_prefix:
  "json_string s @ r = json_string t @ q \<Longrightarrow> s = t \<and> r = q"
proof -
  assume "json_string s @ r = json_string t @ q"
  then have "json_units s @ 34 # r = json_units t @ 34 # q"
    by (simp add: json_string_def)
  then show ?thesis
    by (metis unq_units option.inject prod.inject)
qed

text \<open>
  A value other than a number ends with its own last unit; a number ends where a delimiter (or the
  text) begins. \<open>num_text\<close> is what is used of the texts of numbers.
\<close>

definition num_unit :: "nat \<Rightarrow> bool" where
  "num_unit u \<longleftrightarrow> (48 \<le> u \<and> u \<le> 57) \<or> u = 43 \<or> u = 45 \<or> u = 46 \<or> u = 101"

definition num_text :: "jstr \<Rightarrow> bool" where
  "num_text t \<longleftrightarrow> t \<noteq> [] \<and> (\<forall>u \<in> set t. num_unit u) \<and> (hd t = 45 \<or> 48 \<le> hd t \<and> hd t \<le> 57)"

definition delim :: "jstr \<Rightarrow> bool" where
  "delim r \<longleftrightarrow> r = [] \<or> \<not> num_unit (hd r)"

fun json_ok :: "json \<Rightarrow> bool" where
  "json_ok JUndef = False"
| "json_ok (JNum t) = num_text t"
| "json_ok (JArr xs) = list_all json_ok xs"
| "json_ok (JObj kvs) = list_all (\<lambda>kv. json_ok (snd kv)) kvs"
| "json_ok v = True"

lemma num_text_dec: "num_text (dec n)"
  using dec_digits [of _ n] by (auto simp: num_text_def num_unit_def)

text \<open>The text of a value whose objects list their members in property order.\<close>

fun raw :: "json \<Rightarrow> jstr" where
  "raw JUndef = js ''null''"
| "raw JNull = js ''null''"
| "raw (JBool b) = (if b then js ''true'' else js ''false'')"
| "raw (JNum t) = t"
| "raw (JStr s) = json_string s"
| "raw (JArr xs) = 91 # comma_join (map raw xs) @ [93]"
| "raw (JObj kvs) = 123 # comma_join (map (\<lambda>kv. json_string (fst kv) @ 58 # raw (snd kv)) kvs) @ [125]"

lemma span_num:
  assumes "\<forall>u \<in> set a. num_unit u" "\<forall>u \<in> set b. num_unit u" "delim r" "delim s" "a @ r = b @ s"
  shows "a = b \<and> r = s"
proof -
  have "takeWhile num_unit (a @ r) = a" "takeWhile num_unit (b @ s) = b"
    using assms(1-4) by (auto simp: takeWhile_append delim_def takeWhile_eq_Nil_iff)
  then show ?thesis
    using assms(5) by (metis same_append_eq)
qed

lemma comma_join_Nil [simp]: "comma_join [] = []"
  by (simp add: comma_join_def)

lemma comma_join_Cons: "comma_join (t # ts) = t @ concat (map (\<lambda>x. 44 # x) ts)"
  by (simp add: comma_join_def)

text \<open>Two lists of members with the same text are equal when each member is determined.\<close>

lemma tail_unique:
  assumes "\<And>x y r s. x \<in> set xs \<Longrightarrow> y \<in> set ys \<Longrightarrow> f x @ r = f y @ s \<Longrightarrow> delim r \<Longrightarrow> delim s \<Longrightarrow>
      x = y \<and> r = s"
    and "concat (map (\<lambda>x. 44 # f x) xs) @ c # r = concat (map (\<lambda>x. 44 # f x) ys) @ c # s"
    and "c \<noteq> 44" "\<not> num_unit c"
  shows "xs = ys \<and> r = s"
  using assms(1,2)
proof (induction xs arbitrary: ys)
  case Nil
  then show ?case using assms(3) by (cases ys) auto
next
  case (Cons x xs)
  show ?case
  proof (cases ys)
    case Nil
    then show ?thesis using Cons.prems(2) assms(3) by simp
  next
    case [simp]: (Cons y ys')
    have d: "delim (concat (map (\<lambda>x. 44 # f x) zs) @ c # q)" for zs q
      using assms(4) by (cases zs) (auto simp: delim_def num_unit_def)
    have "x = y \<and> concat (map (\<lambda>x. 44 # f x) xs) @ c # r = concat (map (\<lambda>x. 44 # f x) ys') @ c # s"
      using Cons.prems(2) by (intro Cons.prems(1) d) auto
    moreover have "xs = ys' \<and> r = s" if "concat (map (\<lambda>x. 44 # f x) xs) @ c # r =
        concat (map (\<lambda>x. 44 # f x) ys') @ c # s"
      using Cons.prems(1) that by (intro Cons.IH) auto
    ultimately show ?thesis
      by simp
  qed
qed

lemma members_unique:
  assumes "\<And>x y r s. x \<in> set xs \<Longrightarrow> y \<in> set ys \<Longrightarrow> f x @ r = f y @ s \<Longrightarrow> delim r \<Longrightarrow> delim s \<Longrightarrow>
      x = y \<and> r = s"
    and "\<And>x. x \<in> set xs \<or> x \<in> set ys \<Longrightarrow> f x \<noteq> [] \<and> hd (f x) \<noteq> c"
    and "comma_join (map f xs) @ c # r = comma_join (map f ys) @ c # s"
    and "c \<noteq> 44" "\<not> num_unit c"
  shows "xs = ys \<and> r = s"
proof (cases xs)
  case Nil
  show ?thesis
  proof (cases ys)
    case Nil
    then show ?thesis using \<open>xs = []\<close> assms(3) by simp
  next
    case (Cons y ys')
    then have "f y @ concat (map (\<lambda>x. 44 # x) (map f ys')) @ c # s = c # r"
      using \<open>xs = []\<close> assms(3) by (simp add: comma_join_Cons)
    then show ?thesis using assms(2) [of y] Cons by (cases "f y") auto
  qed
next
  case x: (Cons x xs')
  show ?thesis
  proof (cases ys)
    case Nil
    then have "f x @ concat (map (\<lambda>x. 44 # x) (map f xs')) @ c # r = c # s"
      using x assms(3) by (simp add: comma_join_Cons)
    then show ?thesis using assms(2) [of x] x by (cases "f x") auto
  next
    case (Cons y ys')
    have "concat (map (\<lambda>x. 44 # f x) xs) @ c # r = concat (map (\<lambda>x. 44 # f x) ys) @ c # s"
      using assms(3) x Cons by (simp add: comma_join_Cons comp_def)
    then show ?thesis
      using assms(1,4,5) by (intro tail_unique [where f = f]) auto
  qed
qed

lemma literal_units:
  "js ''null'' = [110, 117, 108, 108]" "js ''true'' = [116, 114, 117, 101]"
  "js ''false'' = [102, 97, 108, 115, 101]"
  by code_simp+

lemma raw_hd: "json_ok j \<Longrightarrow> raw j \<noteq> [] \<and> hd (raw j) \<notin> {44, 93, 125}"
  by (cases j) (auto simp: literal_units num_text_def)

lemma snd_in_snds: "snd p \<in> Basic_BNFs.snds p"
  by (cases p) simp

lemma raw_unique:
  "json_ok j \<Longrightarrow> json_ok k \<Longrightarrow> raw j @ r = raw k @ s \<Longrightarrow> delim r \<Longrightarrow> delim s \<Longrightarrow> j = k \<and> r = s"
proof (induction j arbitrary: k r s)
  case JUndef
  then show ?case by simp
next
  case JNull
  then show ?case
    by (cases k) (auto simp: literal_units num_text_def json_string_def neq_Nil_conv split: if_splits)
next
  case (JBool b)
  then show ?case
    by (cases k) (auto simp: literal_units num_text_def json_string_def neq_Nil_conv split: if_splits)
next
  case (JNum t)
  then show ?case
  proof (cases k)
    case (JNum u)
    then show ?thesis using JNum.prems span_num [of t u r s] by (auto simp: num_text_def)
  qed (auto simp: literal_units num_text_def json_string_def neq_Nil_conv split: if_splits)
next
  case (JStr t)
  then show ?case
  proof (cases k)
    case (JStr u)
    then show ?thesis using JStr.prems json_string_prefix [of t r u s] by simp
  qed (auto simp: literal_units num_text_def json_string_def neq_Nil_conv split: if_splits)
next
  case (JArr xs)
  then show ?case
  proof (cases k)
    case [simp]: (JArr ys)
    have "comma_join (map raw xs) @ 93 # r = comma_join (map raw ys) @ 93 # s"
      using JArr.prems by simp
    moreover have "x = y \<and> r' = s'"
      if "x \<in> set xs" "y \<in> set ys" "raw x @ r' = raw y @ s'" "delim r'" "delim s'" for x y r' s'
      using that JArr.prems by (intro JArr.IH) (auto simp: list_all_iff)
    ultimately have "xs = ys \<and> r = s"
      using JArr.prems raw_hd
      by (intro members_unique [where f = raw and c = 93]) (auto simp: list_all_iff num_unit_def)
    then show ?thesis by simp
  qed (auto simp: literal_units num_text_def json_string_def neq_Nil_conv split: if_splits)
next
  case (JObj kvs)
  then show ?case
  proof (cases k)
    case [simp]: (JObj mvs)
    let ?f = "\<lambda>kv. json_string (fst kv) @ 58 # raw (snd kv)"
    have member: "x = y \<and> r' = s'"
      if "x \<in> set kvs" "y \<in> set mvs" "?f x @ r' = ?f y @ s'" "delim r'" "delim s'" for x y r' s'
    proof -
      have "fst x = fst y \<and> 58 # raw (snd x) @ r' = 58 # raw (snd y) @ s'"
        using that(3) by (intro json_string_prefix) simp
      moreover have "snd x = snd y \<and> r' = s'" if "raw (snd x) @ r' = raw (snd y) @ s'"
        using that \<open>x \<in> set kvs\<close> \<open>y \<in> set mvs\<close> \<open>delim r'\<close> \<open>delim s'\<close> JObj.prems
        by (intro JObj.IH [of x "snd x"] snd_in_snds) (auto simp: list_all_iff)
      ultimately show ?thesis by (auto simp: prod_eq_iff)
    qed
    have "comma_join (map ?f kvs) @ 125 # r = comma_join (map ?f mvs) @ 125 # s"
      using JObj.prems by simp
    then have "kvs = mvs \<and> r = s"
      by (intro members_unique [where f = ?f and c = 125] member)
        (auto simp: json_string_def num_unit_def)
    then show ?thesis by simp
  qed (auto simp: literal_units num_text_def json_string_def neq_Nil_conv split: if_splits)
qed

subsection \<open>What a payload means\<close>

text \<open>
  The abstract payload: objects are finite maps, so the order in which properties were created is
  gone; an absent property is the same as one that is \<open>undefined\<close>.
\<close>

datatype payload =
    PNull | PBool bool | PNum jstr | PStr jstr | PArr "payload list" | PObj "jstr \<Rightarrow> payload option"

fun denote :: "json \<Rightarrow> payload" where
  "denote JUndef = PNull"
| "denote JNull = PNull"
| "denote (JBool b) = PBool b"
| "denote (JNum t) = PNum t"
| "denote (JStr s) = PStr s"
| "denote (JArr xs) = PArr (map denote xs)"
| "denote (JObj kvs) = PObj (map_of (map (\<lambda>kv. (fst kv, the (snd kv))) (filter (\<lambda>kv. snd kv \<noteq> None)
      (map (\<lambda>kv. (fst kv, if snd kv = JUndef then None else Some (denote (snd kv)))) kvs))))"

text \<open>Values a program can hold: the keys of an object are distinct.\<close>

fun value_ok :: "json \<Rightarrow> bool" where
  "value_ok (JNum t) = num_text t"
| "value_ok (JArr xs) = list_all value_ok xs"
| "value_ok (JObj kvs) = (distinct (map fst kvs) \<and> list_all (\<lambda>kv. value_ok (snd kv)) kvs)"
| "value_ok v = True"

text \<open>\<open>nulled\<close> is what \<open>JSON.stringify\<close> writes for an array entry that is \<open>undefined\<close>.\<close>

fun nulled :: "json \<Rightarrow> json" where
  "nulled JUndef = JNull"
| "nulled (JArr xs) = JArr (map nulled xs)"
| "nulled (JObj kvs) = JObj (map (\<lambda>kv. (fst kv, nulled (snd kv))) kvs)"
| "nulled v = v"

lemma canonicalize_JUndef [simp]: "canonicalize v = JUndef \<longleftrightarrow> v = JUndef"
  by (cases v) auto

lemma set_own_order [simp]: "set (own_order kvs) = set kvs"
  by (auto simp: own_order_def)

lemma filter_own_order: "filter P (own_order kvs) = own_order (filter P kvs)"
  by (simp add: own_order_def filter_sort conj_commute)

lemma sort_key_map: "sort_key f (map g xs) = map g (sort_key (\<lambda>x. f (g x)) xs)"
proof (induction xs)
  case Nil
  then show ?case by simp
next
  case (Cons x xs)
  have "insort_key f (g x) (map g ys) = map g (insort_key (\<lambda>x. f (g x)) x ys)" for ys
    by (induction ys) auto
  then show ?case using Cons by simp
qed

lemma own_order_map:
  "own_order (map (\<lambda>kv. (fst kv, f (snd kv))) kvs) = map (\<lambda>kv. (fst kv, f (snd kv))) (own_order kvs)"
  by (simp add: own_order_def filter_map comp_def sort_key_map)

lemma sort_key_sorted: "sorted (map f xs) \<Longrightarrow> sort_key f xs = xs"
  by (induction xs) (auto intro!: insort_is_Cons)

lemma own_order_idem [simp]: "own_order (own_order kvs) = own_order kvs"
proof -
  let ?f = "\<lambda>kv. the (array_index (fst kv))" and ?P = "\<lambda>kv. array_index (fst kv) \<noteq> None"
  let ?s = "sort_key ?f (filter ?P kvs)" and ?n = "filter (\<lambda>kv. array_index (fst kv) = None) kvs"
  have e: "filter ?P ?s = ?s" "filter ?P ?n = []"
    "filter (\<lambda>kv. array_index (fst kv) = None) ?s = []"
    "filter (\<lambda>kv. array_index (fst kv) = None) ?n = ?n"
    by (auto simp: filter_empty_conv filter_id_conv)
  have "sort_key ?f ?s = ?s"
    by (rule sort_key_sorted) simp
  then show ?thesis
    unfolding own_order_def filter_append e by simp
qed

lemma length_own_order [simp]: "length (own_order kvs) = length kvs"
  using sum_length_filter_compl [of "\<lambda>kv. array_index (fst kv) \<noteq> None" kvs]
  by (simp add: own_order_def)

lemma distinct_keys_perm:
  "distinct (map fst xs) \<Longrightarrow> set ys = set xs \<Longrightarrow> length ys = length xs \<Longrightarrow> distinct (map fst ys)"
  by (metis card_distinct distinct_card distinct_map length_map set_map)

lemma distinct_keys_filter: "distinct (map fst xs) \<Longrightarrow> distinct (map fst (filter P xs))"
  by (simp add: distinct_map_filter)

text \<open>The members of a canonical object.\<close>

definition members :: "(jstr \<times> json) list \<Rightarrow> (jstr \<times> json) list" where
  "members kvs = own_order (sort_key fst (filter (\<lambda>kv. snd kv \<noteq> JUndef) kvs))"

lemma canonicalize_JObj:
  "canonicalize (JObj kvs) = JObj (members (map (\<lambda>kv. (fst kv, canonicalize (snd kv))) kvs))"
  by (simp add: members_def)

lemma set_members: "set (members kvs) = {kv \<in> set kvs. snd kv \<noteq> JUndef}"
  by (auto simp: members_def)

lemma distinct_members: "distinct (map fst kvs) \<Longrightarrow> distinct (map fst (members kvs))"
  unfolding members_def
  by (rule distinct_keys_perm [where xs = "filter (\<lambda>kv. snd kv \<noteq> JUndef) kvs"])
    (simp_all add: distinct_keys_filter)

lemma sorted_by_key_unique:
  assumes "distinct (map fst xs)" "distinct (map fst ys)" "set xs = set ys"
  shows "sort_key fst xs = sort_key fst (ys :: ('k::linorder \<times> 'v) list)"
proof -
  have "distinct (map fst (sort_key fst xs))" "distinct (map fst (sort_key fst ys))"
    using assms by (simp_all add: distinct_map)
  then have "map fst (sort_key fst xs) = map fst (sort_key fst ys)"
    using assms(3) by (intro sorted_distinct_set_unique) simp_all
  moreover have "inj_on fst (set (sort_key fst xs) \<union> set (sort_key fst ys))"
    using assms by (simp add: distinct_map)
  ultimately show ?thesis
    by (rule map_inj_on)
qed

lemma stringify_canonical: "stringify (canonicalize v) = raw (nulled (canonicalize v))"
proof (induction v)
  case (JArr xs)
  then show ?case by (simp add: comp_def cong: map_cong)
next
  case (JObj kvs)
  let ?c = "map (\<lambda>kv. (fst kv, canonicalize (snd kv))) kvs"
  let ?t = "\<lambda>kv. (fst kv, if snd kv = JUndef then None else Some (stringify (snd kv)))"
  have "own_order (map ?t (members ?c)) = map ?t (members ?c)"
    by (subst own_order_map) (simp add: members_def)
  moreover have "filter (\<lambda>kv. snd kv \<noteq> None) (map ?t (members ?c)) = map ?t (members ?c)"
    by (auto simp: filter_id_conv set_members)
  moreover have "map (\<lambda>kv. json_string (fst kv) @ 58 # the (snd (?t kv))) (members ?c) =
      map (\<lambda>kv. json_string (fst kv) @ 58 # raw (nulled (snd kv))) (members ?c)"
    using JObj snd_in_snds by (auto simp: set_members)
  ultimately show ?case
    unfolding canonicalize_JObj by (simp add: comp_def cong: map_cong)
qed simp_all

lemma json_ok_canonical: "value_ok v \<Longrightarrow> json_ok (nulled (canonicalize v))"
proof (induction v)
  case (JArr xs)
  then show ?case by (simp add: list_all_iff)
next
  case (JObj kvs)
  then show ?case
    unfolding canonicalize_JObj using snd_in_snds by (auto simp: list_all_iff set_members)
qed simp_all

text \<open>Both canonical forms and meanings are determined by the set of members that are present.\<close>

definition present :: "(json \<Rightarrow> 'v) \<Rightarrow> (jstr \<times> json) list \<Rightarrow> (jstr \<times> 'v) list" where
  "present f kvs = map (\<lambda>kv. (fst kv, f (snd kv))) (filter (\<lambda>kv. snd kv \<noteq> JUndef) kvs)"

lemma distinct_present: "distinct (map fst kvs) \<Longrightarrow> distinct (map fst (present f kvs))"
  by (simp add: present_def comp_def distinct_keys_filter)

lemma denote_JObj: "denote (JObj kvs) = PObj (map_of (present denote kvs))"
proof -
  have "map (\<lambda>kv. (fst kv, the (snd kv))) (filter (\<lambda>kv. snd kv \<noteq> None)
      (map (\<lambda>kv. (fst kv, if snd kv = JUndef then None else Some (denote (snd kv)))) kvs)) =
     present denote kvs"
    by (induction kvs) (auto simp: present_def)
  then show ?thesis by simp
qed

lemma nulled_JObj:
  "nulled (canonicalize (JObj kvs)) =
     JObj (own_order (sort_key fst (present (\<lambda>v. nulled (canonicalize v)) kvs)))"
proof -
  let ?n = "map (\<lambda>kv. (fst kv, nulled (snd kv)))"
  let ?c = "map (\<lambda>kv. (fst kv, canonicalize (snd kv)))"
  have "?n (own_order (sort_key fst (filter (\<lambda>kv. snd kv \<noteq> JUndef) (?c kvs)))) =
      own_order (sort_key fst (?n (filter (\<lambda>kv. snd kv \<noteq> JUndef) (?c kvs))))"
    by (simp add: own_order_map sort_key_map)
  also have "?n (filter (\<lambda>kv. snd kv \<noteq> JUndef) (?c kvs)) = present (\<lambda>v. nulled (canonicalize v)) kvs"
    by (induction kvs) (auto simp: present_def)
  finally show ?thesis by simp
qed

lemma present_cong_set:
  assumes "set (present denote a) = set (present denote b)"
    and "\<And>x y. x \<in> set a \<Longrightarrow> y \<in> set b \<Longrightarrow> denote (snd x) = denote (snd y) \<Longrightarrow> f (snd x) = f (snd y)"
  shows "set (present f a) \<subseteq> set (present f b)"
proof
  fix p assume "p \<in> set (present f a)"
  then obtain x where x: "x \<in> set a" "snd x \<noteq> JUndef" "p = (fst x, f (snd x))"
    by (auto simp: present_def)
  then have "(fst x, denote (snd x)) \<in> set (present denote b)"
    unfolding assms(1) [symmetric] by (auto simp: present_def)
  then obtain y where "y \<in> set b" "snd y \<noteq> JUndef" "fst y = fst x" "denote (snd x) = denote (snd y)"
    by (auto simp: present_def)
  then show "p \<in> set (present f b)"
    using x assms(2) [of x y] by (auto simp: present_def intro!: image_eqI [of _ _ y])
qed

lemma same_payload_same_form:
  "value_ok a \<Longrightarrow> value_ok b \<Longrightarrow> denote a = denote b \<Longrightarrow>
     nulled (canonicalize a) = nulled (canonicalize b)"
proof (induction a arbitrary: b)
  case (JArr xs)
  then obtain ys where [simp]: "b = JArr ys" and m: "map denote xs = map denote ys"
    by (cases b) auto
  have "length xs = length ys"
    using m by (metis length_map)
  moreover have "nulled (canonicalize (xs ! i)) = nulled (canonicalize (ys ! i))" if "i < length xs" for i
    using JArr.IH [of "xs ! i" "ys ! i"] JArr.prems m that \<open>length xs = length ys\<close>
    by (metis \<open>b = JArr ys\<close> list_all_length nth_map nth_mem value_ok.simps(2))
  ultimately show ?case
    by (simp add: list_eq_iff_nth_eq)
next
  case (JObj kvs)
  then obtain mvs where [simp]: "b = JObj mvs"
    by (cases b) auto
  let ?f = "\<lambda>v. nulled (canonicalize v)"
  have ok: "distinct (map fst kvs)" "distinct (map fst mvs)" "\<forall>x \<in> set kvs. value_ok (snd x)"
    "\<forall>x \<in> set mvs. value_ok (snd x)"
    using JObj.prems by (auto simp: list_all_iff)
  then have s: "set (present denote kvs) = set (present denote mvs)"
    using JObj.prems(3) unfolding \<open>b = JObj mvs\<close> denote_JObj
    by (simp add: map_of_inject_set distinct_present)
  have IH: "?f (snd x) = ?f (snd y)" if "x \<in> set kvs" "y \<in> set mvs" "denote (snd x) = denote (snd y)" for x y
    using that ok by (intro JObj.IH [of x "snd x"] snd_in_snds) auto
  have "set (present ?f kvs) = set (present ?f mvs)"
  proof (rule equalityI)
    show "set (present ?f kvs) \<subseteq> set (present ?f mvs)"
      by (rule present_cong_set [OF s]) (rule IH)
    show "set (present ?f mvs) \<subseteq> set (present ?f kvs)"
      by (rule present_cong_set [OF s [symmetric]]) (rule IH [symmetric], simp_all)
  qed
  then have "sort_key fst (present ?f kvs) = sort_key fst (present ?f mvs)"
    using ok by (intro sorted_by_key_unique) (simp_all add: distinct_present)
  then show ?case
    unfolding \<open>b = JObj mvs\<close> nulled_JObj by simp
qed (case_tac b; simp)+

lemma denote_nulled: "value_ok v \<Longrightarrow> denote (nulled (canonicalize v)) = denote v"
proof (induction v)
  case (JArr xs)
  then show ?case by (simp add: list_all_iff comp_def)
next
  case (JObj kvs)
  let ?f = "\<lambda>v. nulled (canonicalize v)"
  let ?m = "own_order (sort_key fst (present ?f kvs))"
  have nu: "nulled v \<noteq> JUndef" for v
    by (cases v) simp_all
  have d: "distinct (map fst kvs)"
    using JObj.prems by simp
  have dm: "distinct (map fst ?m)"
    by (rule distinct_keys_perm [where xs = "present ?f kvs"]) (simp_all add: distinct_present d)
  have IH: "denote (?f (snd x)) = denote (snd x)" if "x \<in> set kvs" for x
    using that JObj.prems by (intro JObj.IH [of x "snd x"] snd_in_snds) (auto simp: list_all_iff)
  have "set (present denote ?m) = (\<lambda>kv. (fst kv, denote (snd kv))) ` set (present ?f kvs)"
    using nu by (auto simp: present_def [of denote] present_def [of ?f] image_iff)
  also have "\<dots> = set (present denote kvs)"
    using IH by (force simp: present_def image_iff)
  finally have "set (present denote ?m) = set (present denote kvs)" .
  then show ?case
    unfolding nulled_JObj denote_JObj
    by (simp add: map_of_inject_set distinct_present d dm)
qed simp_all

subsection \<open>Properties\<close>

lemma canonical_inj:
  assumes "value_ok a" "value_ok b" "a \<noteq> JUndef" "b \<noteq> JUndef" "canonicalJson a = canonicalJson b"
  shows "denote a = denote b"
proof -
  have "raw (nulled (canonicalize a)) @ [] = raw (nulled (canonicalize b)) @ []"
    using assms by (simp add: canonicalJson_def stringify_canonical)
  then have "nulled (canonicalize a) = nulled (canonicalize b)"
    using raw_unique [of "nulled (canonicalize a)" "nulled (canonicalize b)" "[]" "[]"]
      json_ok_canonical assms by (simp add: delim_def)
  then show ?thesis
    by (metis assms(1,2) denote_nulled)
qed

text \<open>C34. Two payloads have the same canonical JSON text exactly when they mean the same: equal up to
  the order in which object properties were created and up to properties that are undefined, at
  every depth. No two different payloads share a text, so nothing but a digest collision can make
  an idempotent replay accept a different request.\<close>

theorem canonicalJson_iff_same_payload:
  assumes "value_ok a" "value_ok b" "a \<noteq> JUndef" "b \<noteq> JUndef"
  shows "canonicalJson a = canonicalJson b \<longleftrightarrow> denote a = denote b"
proof
  assume "denote a = denote b"
  then have "nulled (canonicalize a) = nulled (canonicalize b)"
    using assms by (intro same_payload_same_form)
  then show "canonicalJson a = canonicalJson b"
    using assms by (simp add: canonicalJson_def stringify_canonical)
qed (rule canonical_inj [OF assms])

theorem canonicalJson_iff_same_payload_witness:
  "(canonicalJson (JObj [(js ''b'', JNull), (js ''a'', jnat 1), (js ''c'', JUndef)]) =
     canonicalJson (JObj [(js ''a'', jnat 1), (js ''b'', JNull)])) =
   (denote (JObj [(js ''b'', JNull), (js ''a'', jnat 1), (js ''c'', JUndef)]) =
     denote (JObj [(js ''a'', jnat 1), (js ''b'', JNull)]))"
  by (rule canonicalJson_iff_same_payload) (code_simp, code_simp, simp, simp)

text \<open>The canonical form does not list all keys in code-unit order: the keys \<open>"10"\<close> and
  \<open>"9"\<close> come out as \<open>"9"\<close>, \<open>"10"\<close>, because \<open>JSON.stringify\<close> lists array-index keys first and by
  their numeric value.\<close>

theorem canonical_index_keys:
  "canonicalJson (JObj [(js ''9'', JNull), (js ''10'', JNull)]) = Some (js (''{'' @ [CHR 0x22] @ ''9'' @
     [CHR 0x22] @ '':null,'' @ [CHR 0x22] @ ''10'' @ [CHR 0x22] @ '':null}''))
   \<and> js ''10'' < js ''9''"
proof
  have texts: "js ''9'' = [57]" "js ''10'' = [49, 48]"
    by code_simp+
  then show "js ''10'' < js ''9''"
    by simp
  have t: "js (''{'' @ [CHR 0x22] @ ''9'' @ [CHR 0x22] @ '':null,'' @ [CHR 0x22] @ ''10'' @ [CHR 0x22] @
      '':null}'') = [123, 34, 57, 34, 58, 110, 117, 108, 108, 44, 34, 49, 48, 34, 58, 110, 117, 108,
      108, 125]"
    by code_simp
  have "array_index [57] = Some 9" "array_index [49, 48] = Some 10"
    by code_simp+
  then show "canonicalJson (JObj [(js ''9'', JNull), (js ''10'', JNull)]) = Some (js (''{'' @
      [CHR 0x22] @ ''9'' @ [CHR 0x22] @ '':null,'' @ [CHR 0x22] @ ''10'' @ [CHR 0x22] @ '':null}''))"
    unfolding t texts
    by (simp add: canonicalJson_def own_order_def literal_units json_string_def json_unit_def
        is_high_def is_low_def comma_join_def)
qed

end
