(* ===== verification/Contracts.thy ===== *)
theory Contracts
  imports Json
begin

text \<open>
  The versioned records that the kernel stores (packages/contracts/src): run statuses, turn inputs,
  frozen contexts, structured answers and run results. A record is a datatype or a record with the
  source's fields, and its schema is a predicate: \<open>Schema.parse\<close> returns the value when the
  predicate holds and throws otherwise. A field that a strict object does not list does not exist
  in the model, so unknown keys need no check.
\<close>

subsection \<open>Lexical classes\<close>

text \<open>The pieces of a text between the occurrences of a separator.\<close>

fun split_on :: "nat \<Rightarrow> jstr \<Rightarrow> jstr list" where
  "split_on c [] = [[]]"
| "split_on c (u # s) =
     (if u = c then [] # split_on c s
      else (case split_on c s of [] \<Rightarrow> [[u]] | p # ps \<Rightarrow> (u # p) # ps))"

definition is_alpha :: "nat \<Rightarrow> bool" where
  "is_alpha u \<longleftrightarrow> 97 \<le> lower_unit u \<and> lower_unit u \<le> 122"

definition is_lower_alnum :: "nat \<Rightarrow> bool" where
  "is_lower_alnum u \<longleftrightarrow> is_digit u \<or> 97 \<le> u \<and> u \<le> 122"

definition zone_char :: "nat \<Rightarrow> bool" where
  "zone_char u \<longleftrightarrow> is_alpha u \<or> is_digit u \<or> u = 95 \<or> u = 43 \<or> u = 45"

subsection \<open>Run status\<close>

datatype run_status =
    Queued | Running | Cancel_requested | Completed | Failed | Cancelled | Abandoned

definition TERMINAL_STATUSES :: "run_status list" where
  "TERMINAL_STATUSES = [Completed, Failed, Cancelled, Abandoned]"

definition ACTIVE_STATUSES :: "run_status list" where
  "ACTIVE_STATUSES = [Queued, Running, Cancel_requested]"

definition isTerminalStatus :: "run_status \<Rightarrow> bool" where
  "isTerminalStatus s \<longleftrightarrow> s \<in> set TERMINAL_STATUSES"

definition isActiveStatus :: "run_status \<Rightarrow> bool" where
  "isActiveStatus s \<longleftrightarrow> s \<in> set ACTIVE_STATUSES"

lemma status_simps [simp]:
  "isTerminalStatus Queued = False" "isTerminalStatus Running = False"
  "isTerminalStatus Cancel_requested = False" "isTerminalStatus Completed"
  "isTerminalStatus Failed" "isTerminalStatus Cancelled" "isTerminalStatus Abandoned"
  "isActiveStatus Queued" "isActiveStatus Running" "isActiveStatus Cancel_requested"
  "isActiveStatus Completed = False" "isActiveStatus Failed = False"
  "isActiveStatus Cancelled = False" "isActiveStatus Abandoned = False"
  by (simp_all add: isTerminalStatus_def isActiveStatus_def TERMINAL_STATUSES_def
      ACTIVE_STATUSES_def)

lemma active_iff: "isActiveStatus s \<longleftrightarrow> \<not> isTerminalStatus s"
  by (cases s) simp_all

datatype memory_status =
  Used | Empty | Disabled | Unavailable | Timeout | Version_mismatch | Limit

subsection \<open>Turn input\<close>

datatype turn_input =
    User_text jstr
  | Companion_text jstr
  | Action_approval jstr jstr
  | Action_rejection jstr jstr

definition MAX_USER_TEXT_LENGTH :: nat where
  "MAX_USER_TEXT_LENGTH = 32768"

definition user_text_ok :: "jstr \<Rightarrow> bool" where
  "user_text_ok t \<longleftrightarrow> 1 \<le> length t \<and> length t \<le> MAX_USER_TEXT_LENGTH \<and> length (trim t) > 0"

definition turn_input_ok :: "turn_input \<Rightarrow> bool" where
  "turn_input_ok i \<longleftrightarrow> (case i of
     User_text t \<Rightarrow> user_text_ok t
   | Companion_text t \<Rightarrow> user_text_ok t
   | Action_approval p h \<Rightarrow> uuid_ok p \<and> sha256_hex_ok h
   | Action_rejection p h \<Rightarrow> uuid_ok p \<and> sha256_hex_ok h)"

fun is_user_text :: "turn_input \<Rightarrow> bool" where
  "is_user_text (User_text t) = True"
| "is_user_text i = False"

subsection \<open>Frozen context\<close>

record temporal_context =
  tc_now :: int
  tc_timeZone :: jstr

text \<open>\<open>/^(UTC|[A-Za-z_][A-Za-z0-9_+-]*(\/[A-Za-z0-9_+-]+)+)$/\<close>, at most 128 units.\<close>

definition time_zone_ok :: "jstr \<Rightarrow> bool" where
  "time_zone_ok z \<longleftrightarrow> 1 \<le> length z \<and> length z \<le> 128 \<and>
     (z = js ''UTC'' \<or>
      (case split_on 47 z of
         a # b # ps \<Rightarrow>
           a \<noteq> [] \<and> (is_alpha (hd a) \<or> hd a = 95) \<and> list_all zone_char (tl a) \<and>
           list_all (\<lambda>p. p \<noteq> [] \<and> list_all zone_char p) (b # ps)
       | _ \<Rightarrow> False))"

definition temporal_ok :: "temporal_context \<Rightarrow> bool" where
  "temporal_ok t \<longleftrightarrow> unix_ms_ok (tc_now t) \<and> time_zone_ok (tc_timeZone t)"

record reference_context =
  rc_version :: int
  rc_items :: "jstr list"

definition reference_context_ok :: "reference_context \<Rightarrow> bool" where
  "reference_context_ok c \<longleftrightarrow> 1 \<le> rc_version c \<and> list_all uuid_ok (rc_items c)"

record frozen_context =
  fc_temporal :: temporal_context
  fc_uiContext :: json
  fc_referenceContext :: "reference_context option"

text \<open>A UI context is a JSON object; its values are JSON values (\<open>z.json()\<close> has no \<open>undefined\<close>).\<close>

fun json_value :: "json \<Rightarrow> bool" where
  "json_value JUndef = False"
| "json_value (JNum t) = num_text t"
| "json_value (JArr xs) = list_all json_value xs"
| "json_value (JObj kvs) = (distinct (map fst kvs) \<and> list_all (\<lambda>kv. json_value (snd kv)) kvs)"
| "json_value v = True"

definition ui_context_ok :: "json \<Rightarrow> bool" where
  "ui_context_ok u \<longleftrightarrow> (case u of JObj kvs \<Rightarrow> json_value u | _ \<Rightarrow> False)"

definition frozen_context_ok :: "frozen_context \<Rightarrow> bool" where
  "frozen_context_ok f \<longleftrightarrow> temporal_ok (fc_temporal f) \<and> ui_context_ok (fc_uiContext f) \<and>
     (case fc_referenceContext f of None \<Rightarrow> True | Some c \<Rightarrow> reference_context_ok c)"

lemma json_value_ok: "json_value v \<Longrightarrow> value_ok v"
proof (induction v)
  case (JObj kvs)
  then show ?case using snd_in_snds by (auto simp: list_all_iff)
qed (auto simp: list_all_iff)

subsection \<open>Structured answers\<close>

record answer_part =
  ap_text :: jstr
  ap_citations :: "jstr list"

text \<open>The structured answer; its only version is 1.\<close>

type_synonym structured_answer = "answer_part list"

text \<open>\<open>/^([rm])[1-9][0-9]*$/\<close> of 2 to 11 units.\<close>

definition citation_ok :: "jstr \<Rightarrow> bool" where
  "citation_ok c \<longleftrightarrow> 2 \<le> length c \<and> length c \<le> 11 \<and>
     (case c of k # d # ds \<Rightarrow>
        (k = 114 \<or> k = 109) \<and> 49 \<le> d \<and> d \<le> 57 \<and> list_all is_digit ds
      | _ \<Rightarrow> False)"

definition isMemoryCitationId :: "jstr \<Rightarrow> bool" where
  "isMemoryCitationId c \<longleftrightarrow>
     (case c of k # d # ds \<Rightarrow> k = 109 \<and> 49 \<le> d \<and> d \<le> 57 \<and> list_all is_digit ds | _ \<Rightarrow> False)"

definition isReferenceCitationId :: "jstr \<Rightarrow> bool" where
  "isReferenceCitationId c \<longleftrightarrow>
     (case c of k # d # ds \<Rightarrow> k = 114 \<and> 49 \<le> d \<and> d \<le> 57 \<and> list_all is_digit ds | _ \<Rightarrow> False)"

definition MAX_STRUCTURED_ANSWER_BYTES :: nat where
  "MAX_STRUCTURED_ANSWER_BYTES = 16384"

definition answer_part_ok :: "answer_part \<Rightarrow> bool" where
  "answer_part_ok p \<longleftrightarrow>
     1 \<le> countCodePoints (ap_text p) \<and> countCodePoints (ap_text p) \<le> 4000 \<and>
     list_all citation_ok (ap_citations p) \<and> length (ap_citations p) \<le> 8"

definition answer_json :: "structured_answer \<Rightarrow> json" where
  "answer_json a = JObj [(js ''version'', JNum (js ''1'')),
     (js ''parts'', JArr (map (\<lambda>p. JObj [(js ''text'', JStr (ap_text p)),
        (js ''citations'', JArr (map JStr (ap_citations p)))]) a))]"

definition measureStructuredAnswerBytes :: "structured_answer \<Rightarrow> nat" where
  "measureStructuredAnswerBytes a = utf8ByteLength (stringify (answer_json a))"

definition structured_answer_ok :: "structured_answer \<Rightarrow> bool" where
  "structured_answer_ok a \<longleftrightarrow> list_all answer_part_ok a \<and> 1 \<le> length a \<and> length a \<le> 20 \<and>
     measureStructuredAnswerBytes a \<le> MAX_STRUCTURED_ANSWER_BYTES"

subsection \<open>Run results\<close>

definition MAX_ASSISTANT_TEXT_LENGTH :: nat where
  "MAX_ASSISTANT_TEXT_LENGTH = 65536"

text \<open>The parts joined by one blank line.\<close>

definition renderRunResultText :: "structured_answer \<Rightarrow> jstr" where
  "renderRunResultText a =
     (case map ap_text a of [] \<Rightarrow> [] | t # ts \<Rightarrow> t @ concat (map (\<lambda>x. [10, 10] @ x) ts))"

datatype voice_status = Rendered | Fallback | Skipped

datatype voice_reason =
    VTimeout | VError | VInvalid_output | VPart_count | VCitation_marker | VNumber | VNegation
  | VLatin | VUrl | VCode_block | VLength | VCancelled

record voice_render =
  vr_profileId :: jstr
  vr_profileVersion :: jstr
  vr_status :: voice_status
  vr_reason :: "voice_reason option"
  vr_parts :: "jstr list option"

text \<open>\<open>/^[a-z][a-z0-9-]{0,31}$/\<close>.\<close>

definition voice_profile_ok :: "jstr \<Rightarrow> bool" where
  "voice_profile_ok p \<longleftrightarrow> p \<noteq> [] \<and> 97 \<le> hd p \<and> hd p \<le> 122 \<and> length (tl p) \<le> 31 \<and>
     list_all (\<lambda>u. is_lower_alnum u \<or> u = 45) (tl p)"

definition voice_part_ok :: "jstr \<Rightarrow> bool" where
  "voice_part_ok t \<longleftrightarrow> 1 \<le> countCodePoints t \<and> countCodePoints t \<le> 8000"

definition voice_render_ok :: "voice_render \<Rightarrow> bool" where
  "voice_render_ok v \<longleftrightarrow>
     voice_profile_ok (vr_profileId v) \<and>
     1 \<le> length (vr_profileVersion v) \<and> length (vr_profileVersion v) \<le> 64 \<and>
     (case vr_parts v of None \<Rightarrow> True | Some ps \<Rightarrow> list_all voice_part_ok ps) \<and>
     (if vr_status v = Rendered then vr_parts v \<noteq> None \<and> vr_reason v = None
      else vr_reason v \<noteq> None \<and> vr_parts v = None)"

datatype run_result =
    Result_v1 jstr
  | Result_v2 jstr structured_answer "voice_render option"

definition result_v1_ok :: "jstr \<Rightarrow> bool" where
  "result_v1_ok t \<longleftrightarrow> 1 \<le> length t \<and> length t \<le> MAX_ASSISTANT_TEXT_LENGTH"

definition result_v2_ok :: "jstr \<Rightarrow> structured_answer \<Rightarrow> voice_render option \<Rightarrow> bool" where
  "result_v2_ok t a v \<longleftrightarrow>
     1 \<le> length t \<and> length t \<le> MAX_ASSISTANT_TEXT_LENGTH \<and> structured_answer_ok a \<and>
     (case v of None \<Rightarrow> True | Some vr \<Rightarrow> voice_render_ok vr) \<and>
     t = renderRunResultText a \<and>
     \<not> (case v of None \<Rightarrow> False | Some vr \<Rightarrow> vr_status vr = Rendered \<and>
          (case vr_parts vr of None \<Rightarrow> False | Some ps \<Rightarrow> length ps \<noteq> length a))"

definition run_result_ok :: "run_result \<Rightarrow> bool" where
  "run_result_ok r = (case r of Result_v1 t \<Rightarrow> result_v1_ok t | Result_v2 t a v \<Rightarrow> result_v2_ok t a v)"

definition buildRunResultV2 ::
  "structured_answer \<Rightarrow> voice_render option \<Rightarrow> run_result option" where
  "buildRunResultV2 answer voice =
     (let t = renderRunResultText answer in
      if result_v2_ok t answer voice then Some (Result_v2 t answer voice) else None)"

text \<open>A code unit takes at least one byte, so an answer within its byte bound renders to a text
  within the text bound.\<close>

lemma length_le_utf8: "length s \<le> utf8ByteLength s"
proof -
  have "length s \<le> sum_list (map utf8_size (code_points s))"
    by (induction s rule: code_points.induct) (auto simp: utf8_size_def is_high_def is_low_def)
  then show ?thesis by (simp add: utf8ByteLength_sum)
qed

lemma length_json_units: "length s \<le> length (json_units s)"
proof (induction s rule: json_units.induct)
  case (2 u)
  then show ?case by (simp add: json_unit_def u_escape_def)
next
  case (3 u v r)
  then show ?case by (cases "is_high u \<and> is_low v") (auto simp: json_unit_def u_escape_def)
qed simp

lemma length_comma_join: "ts \<noteq> [] \<Longrightarrow> length (comma_join ts) + 1 = sum_list (map length ts) + length ts"
  by (cases ts) (auto simp: comma_join_def length_concat comp_def sum_list_Suc)

lemma no_index_key: "k \<noteq> [] \<Longrightarrow> hd k > 57 \<Longrightarrow> array_index k = None"
  using dec_digits [of "hd k" "undec k"] by (auto simp: array_index_def Let_def)

lemma member_keys:
  "array_index (js ''version'') = None" "array_index (js ''parts'') = None"
  "array_index (js ''text'') = None" "array_index (js ''citations'') = None"
  by (rule no_index_key; simp add: js_def)+

definition part_json :: "answer_part \<Rightarrow> json" where
  "part_json p = JObj [(js ''text'', JStr (ap_text p)), (js ''citations'', JArr (map JStr (ap_citations p)))]"

lemma part_json_length: "length (ap_text p) + 2 \<le> length (stringify (part_json p))"
  using length_json_units [of "ap_text p"]
  by (simp add: part_json_def own_order_def member_keys comma_join_def json_string_def)

lemma answer_json_length:
  assumes "a \<noteq> []"
  shows "sum_list (map (\<lambda>p. length (ap_text p) + 2) a) \<le> length (stringify (answer_json a))"
proof -
  have "sum_list (map (\<lambda>p. length (ap_text p) + 2) a) \<le> sum_list (map (\<lambda>p. length (stringify (part_json p))) a)"
    by (intro sum_list_mono part_json_length)
  also have "\<dots> \<le> length (comma_join (map (stringify \<circ> part_json) a)) + 1"
    using assms by (subst length_comma_join) (simp_all add: comp_def)
  also have "\<dots> \<le> length (stringify (answer_json a))"
    by (simp add: answer_json_def part_json_def [symmetric] own_order_def member_keys comma_join_def [of "[_, _]"]
        comp_def)
  finally show ?thesis .
qed

lemma render_length: "a \<noteq> [] \<Longrightarrow> length (renderRunResultText a) \<le> sum_list (map (\<lambda>p. length (ap_text p) + 2) a)"
  by (cases a) (simp_all add: renderRunResultText_def length_concat comp_def sum_list_Suc)

lemma render_bounds:
  assumes "structured_answer_ok a"
  shows "1 \<le> length (renderRunResultText a)" "length (renderRunResultText a) \<le> MAX_STRUCTURED_ANSWER_BYTES"
proof -
  obtain p ps where a: "a = p # ps"
    using assms by (cases a) (auto simp: structured_answer_ok_def)
  have "ap_text p \<noteq> []"
    using assms by (auto simp: a structured_answer_ok_def answer_part_ok_def countCodePoints_def)
  then show "1 \<le> length (renderRunResultText a)"
    by (cases "ap_text p") (simp_all add: a renderRunResultText_def)
  have "length (renderRunResultText a) \<le> length (stringify (answer_json a))"
    using render_length [of a] answer_json_length [of a] a by simp
  also have "\<dots> \<le> measureStructuredAnswerBytes a"
    unfolding measureStructuredAnswerBytes_def by (rule length_le_utf8)
  also have "\<dots> \<le> MAX_STRUCTURED_ANSWER_BYTES"
    using assms by (simp add: structured_answer_ok_def)
  finally show "length (renderRunResultText a) \<le> MAX_STRUCTURED_ANSWER_BYTES" .
qed

subsection \<open>Properties\<close>

text \<open>C37. A validated structured answer can always be made durable: its rendering is never empty and
  never exceeds 16384 code units (a quarter of what a run result may hold), so \<open>buildRunResultV2\<close> succeeds for
  every valid answer, without a voice and with any valid voice that is not rendered or has one part
  per answer part, and the result it builds passes the run-result schema.\<close>

theorem buildRunResultV2_total:
  assumes "structured_answer_ok a"
    and "case v of None \<Rightarrow> True | Some vr \<Rightarrow> voice_render_ok vr \<and>
           (vr_status vr = Rendered \<longrightarrow> map_option length (vr_parts vr) = Some (length a))"
  shows "buildRunResultV2 a v = Some (Result_v2 (renderRunResultText a) a v) \<and>
     run_result_ok (Result_v2 (renderRunResultText a) a v) \<and>
     length (renderRunResultText a) \<le> 16384"
proof -
  have "result_v2_ok (renderRunResultText a) a v"
    using assms render_bounds [OF assms(1)]
    by (auto simp: result_v2_ok_def MAX_ASSISTANT_TEXT_LENGTH_def MAX_STRUCTURED_ANSWER_BYTES_def
        split: option.splits)
  then show ?thesis
    using render_bounds(2) [OF assms(1)]
    by (simp add: buildRunResultV2_def run_result_ok_def MAX_STRUCTURED_ANSWER_BYTES_def)
qed

definition sample_answer :: structured_answer where
  "sample_answer = [\<lparr>ap_text = [72, 105], ap_citations = [[114, 49]]\<rparr>, \<lparr>ap_text = [33], ap_citations = []\<rparr>]"

lemma sample_answer_ok: "structured_answer_ok sample_answer"
  by (simp add: structured_answer_ok_def sample_answer_def answer_part_ok_def citation_ok_def
      countCodePoints_def measureStructuredAnswerBytes_def answer_json_def own_order_def member_keys
      utf8ByteLength_def comma_join_def json_string_def json_unit_def is_high_def is_low_def
      MAX_STRUCTURED_ANSWER_BYTES_def utf8_size_def js_def)

theorem buildRunResultV2_total_witness:
  "buildRunResultV2 sample_answer None =
     Some (Result_v2 [72, 105, 10, 10, 33] sample_answer None)"
proof -
  have "renderRunResultText sample_answer = [72, 105, 10, 10, 33]"
    by (simp add: renderRunResultText_def sample_answer_def)
  then show ?thesis
    using buildRunResultV2_total [OF sample_answer_ok, of None] by simp
qed

end
