(* ===== verification/Events.thy ===== *)
theory Events
  imports Contracts
begin

text \<open>
  Run events (packages/contracts/src/events.ts, action.ts, model.ts, tools.ts, references.ts): the
  twenty durable payloads, the error vocabularies, and the four generations of the payload
  registry. A payload is a constructor of \<open>payload\<close>, so its event type is a function of it; a registry
  is a predicate on payloads. Numbers that a schema bounds from below are integers.
\<close>

subsection \<open>Error vocabularies\<close>

definition M0_TOOL_ERROR_CODES :: "string list" where
  "M0_TOOL_ERROR_CODES =
     [''budget_exceeded'', ''unknown_tool'', ''tool_denied'', ''invalid_input'', ''execution_timeout'',
      ''execution_cancelled'', ''execution_failed'', ''output_invalid'', ''output_too_large'']"

definition M1_TOOL_ERROR_CODES :: "string list" where
  "M1_TOOL_ERROR_CODES =
     [''markdown_vault_too_large'', ''markdown_path_unsafe'', ''markdown_read_failed'',
      ''markdown_read_changed'', ''reference_not_found'']"

definition M4_TOOL_ERROR_CODES :: "string list" where
  "M4_TOOL_ERROR_CODES =
     [''mcp_unavailable'', ''mcp_binding_not_allowed'', ''mcp_schema_mismatch'',
      ''calendar_response_invalid'', ''calendar_upstream_error'', ''calendar_range_invalid'']"

definition M5_TOOL_ERROR_CODES :: "string list" where
  "M5_TOOL_ERROR_CODES = [''web_query_rejected'']"

definition M6_TOOL_ERROR_CODES :: "string list" where
  "M6_TOOL_ERROR_CODES = [''confirmation_required'']"

definition LATEST_TOOL_ERROR_CODES :: "string list" where
  "LATEST_TOOL_ERROR_CODES =
     M0_TOOL_ERROR_CODES @ M1_TOOL_ERROR_CODES @ M4_TOOL_ERROR_CODES @ M5_TOOL_ERROR_CODES @
     M6_TOOL_ERROR_CODES"

definition M0_RUN_ERROR_CODES :: "string list" where
  "M0_RUN_ERROR_CODES = [''execution_failed'', ''execution_cancelled'', ''output_invalid'']"

definition M2_MODEL_ERROR_CODES :: "string list" where
  "M2_MODEL_ERROR_CODES =
     [''model_unavailable'', ''model_step_timeout'', ''answer_invalid'', ''citation_invalid'']"

definition MODEL_GATEWAY_ERROR_CODES :: "string list" where
  "MODEL_GATEWAY_ERROR_CODES =
     [''invalid_base_url'', ''unsupported_capability'', ''invalid_request'', ''invalid_response'',
      ''tool_call_invalid'', ''answer_invalid'', ''request_failed'', ''transport_error'', ''timeout'']"

definition MODEL_INVALID_RESPONSE_CAUSES :: "string list" where
  "MODEL_INVALID_RESPONSE_CAUSES =
     [''response_too_large'', ''malformed_json'', ''sse_line_invalid'', ''chunk_shape_invalid'',
      ''content_too_long'', ''tool_call_shape_invalid'', ''tool_call_arguments_too_large'',
      ''stream_incomplete'', ''trailing_data'', ''unexpected_content_type'', ''response_shape_invalid'',
      ''result_shape_invalid'', ''usage_invalid'', ''encoding_invalid'', ''connection_refused'',
      ''connection_reset'', ''connection_closed'']"

definition ANSWER_INVALID_REASON_CODES :: "string list" where
  "ANSWER_INVALID_REASON_CODES =
     [''model_args_malformed'', ''model_args_oversize'', ''version_invalid'', ''mixed_tool_calls'',
      ''duplicate_answer'', ''reserved_namespace'', ''free_text'', ''citation_not_granted'',
      ''output_truncated'', ''other'']"

definition ANSWER_INVALID_PARSE_ISSUE_CODES :: "string list" where
  "ANSWER_INVALID_PARSE_ISSUE_CODES =
     [''invalid_type'', ''too_big'', ''too_small'', ''invalid_literal'', ''invalid_union'',
      ''invalid_format'', ''unrecognized_keys'', ''custom'']"

definition M5_ACTION_ERROR_CODES :: "string list" where
  "M5_ACTION_ERROR_CODES =
     [''action_preflight_failed'', ''action_cancelled_before_write'', ''action_write_failed'',
      ''action_recovery_abandoned_before_write'', ''database_state_invalid'']"

definition is_code :: "string list \<Rightarrow> jstr \<Rightarrow> bool" where
  "is_code codes c \<longleftrightarrow> c \<in> set (map js codes)"

text \<open>\<open>ANSWER_INVALID_REASON_REGEX\<close>: a fixed code, or \<open>parse:<issue>@<path>\<close> whose path segments are schema
  keys or one to three digits.\<close>

definition reason_segment_ok :: "jstr \<Rightarrow> bool" where
  "reason_segment_ok p \<longleftrightarrow> is_code [''version'', ''parts'', ''text'', ''citations'', ''answer''] p \<or>
     (1 \<le> length p \<and> length p \<le> 3 \<and> list_all is_digit p)"

definition answer_invalid_reason_ok :: "jstr \<Rightarrow> bool" where
  "answer_invalid_reason_ok r \<longleftrightarrow> length r \<le> 64 \<and>
     (is_code ANSWER_INVALID_REASON_CODES r \<or>
      list_ex (\<lambda>c. let p = js ''parse:'' @ js c @ [64] in
          starts_with r p \<and> list_all reason_segment_ok (split_on 46 (drop (length p) r)))
        ANSWER_INVALID_PARSE_ISSUE_CODES)"

text \<open>\<open>/^[a-z0-9]+(?:_[a-z0-9]+)*\.[a-z0-9]+(?:_[a-z0-9]+)*$/\<close>, 1 to 128 units.\<close>

definition snake_ok :: "jstr \<Rightarrow> bool" where
  "snake_ok w \<longleftrightarrow> list_all (\<lambda>p. p \<noteq> [] \<and> list_all is_lower_alnum p) (split_on 95 w)"

definition tool_name_ok :: "jstr \<Rightarrow> bool" where
  "tool_name_ok t \<longleftrightarrow> 1 \<le> length t \<and> length t \<le> 128 \<and>
     (case split_on 46 t of [a, b] \<Rightarrow> snake_ok a \<and> snake_ok b | _ \<Rightarrow> False)"

definition action_tool_ok :: "jstr \<Rightarrow> bool" where
  "action_tool_ok t \<longleftrightarrow> t = js ''calendar.reschedule'' \<or> t = js ''calendar.create''"

definition source_revision_ok :: "jstr \<Rightarrow> bool" where
  "source_revision_ok r \<longleftrightarrow> 1 \<le> length r \<and> length r \<le> 256"

subsection \<open>Payloads\<close>

datatype abandon_cause = Restart_recovery | Drain

datatype reported_outcome = Rep_succeeded | Rep_failed | Rep_cancelled

datatype actual_outcome =
    Act_succeeded | Act_failed | Act_denied | Act_invalid | Act_deduplicated | Act_timed_out
  | Act_cancelled | Act_unknown

datatype disposition = Accepted | Discarded | No_disposition

datatype receipt_outcome =
  Rcp_succeeded | Rcp_succeeded_unverified | Rcp_blocked_stale | Rcp_failed | Rcp_unknown

record tool_completed =
  tl_callId :: jstr
  tl_callIndex :: int
  tl_tool :: jstr
  tl_actual :: actual_outcome
  tl_reported :: "reported_outcome option"
  tl_disposition :: disposition
  tl_errorCode :: "jstr option"
  tl_resultDigest :: "jstr option"
  tl_reusedFrom :: "jstr option"

record step_failed =
  sf_step :: int
  sf_errorCode :: jstr
  sf_durationMs :: "int option"
  sf_reason :: "jstr option"
  sf_gatewayErrorCode :: "jstr option"
  sf_invalidResponseCause :: "jstr option"
  sf_httpStatus :: "int option"

datatype payload_ev =
    Run_queued int
  | Run_started int
  | Run_cancel_requested
  | Run_completed run_result
  | Run_failed jstr
  | Run_cancelled
  | Run_abandoned abandon_cause
  | Tool_requested jstr int jstr jstr
  | Tool_completed tool_completed
  | Reference_presented jstr jstr int jstr jstr
  | Model_step_started int
  | Model_step_completed int int "(int \<times> int) option"
  | Model_step_failed step_failed
  | Action_proposed jstr jstr jstr
  | Action_approved jstr jstr jstr
  | Action_preflight_started jstr
  | Action_preflight_failed jstr jstr
  | Action_preflight_blocked jstr jstr jstr
  | Action_execution_started jstr
  | Action_execution_finished jstr receipt_outcome

definition step_ok :: "int \<Rightarrow> bool" where
  "step_ok n \<longleftrightarrow> 1 \<le> n \<and> n \<le> 8"

definition opt_ok :: "('a \<Rightarrow> bool) \<Rightarrow> 'a option \<Rightarrow> bool" where
  "opt_ok P v = (case v of None \<Rightarrow> True | Some x \<Rightarrow> P x)"

definition tool_completed_ok :: "string list \<Rightarrow> tool_completed \<Rightarrow> bool" where
  "tool_completed_ok codes t \<longleftrightarrow> uuid_ok (tl_callId t) \<and> 1 \<le> tl_callIndex t \<and> tool_name_ok (tl_tool t) \<and>
     opt_ok (is_code codes) (tl_errorCode t) \<and> opt_ok sha256_hex_ok (tl_resultDigest t) \<and>
     opt_ok uuid_ok (tl_reusedFrom t)"

definition step_failed_ok :: "step_failed \<Rightarrow> bool" where
  "step_failed_ok f \<longleftrightarrow> step_ok (sf_step f) \<and> is_code M2_MODEL_ERROR_CODES (sf_errorCode f) \<and>
     opt_ok unix_ms_ok (sf_durationMs f) \<and> opt_ok answer_invalid_reason_ok (sf_reason f) \<and>
     opt_ok (is_code MODEL_GATEWAY_ERROR_CODES) (sf_gatewayErrorCode f) \<and>
     opt_ok (is_code MODEL_INVALID_RESPONSE_CAUSES) (sf_invalidResponseCause f) \<and>
     opt_ok (\<lambda>n. 100 \<le> n \<and> n \<le> 599) (sf_httpStatus f)"

text \<open>The four payload registries, each the previous one with its changed and added types.\<close>

fun m0_payload_ok :: "payload_ev \<Rightarrow> bool" where
  "m0_payload_ok (Run_queued a) = (1 \<le> a)"
| "m0_payload_ok (Run_started a) = (1 \<le> a)"
| "m0_payload_ok Run_cancel_requested = True"
| "m0_payload_ok (Run_completed r) = (case r of Result_v1 t \<Rightarrow> result_v1_ok t | _ \<Rightarrow> False)"
| "m0_payload_ok (Run_failed c) = is_code M0_RUN_ERROR_CODES c"
| "m0_payload_ok Run_cancelled = True"
| "m0_payload_ok (Run_abandoned c) = True"
| "m0_payload_ok (Tool_requested cid i t h) =
     (uuid_ok cid \<and> 1 \<le> i \<and> tool_name_ok t \<and> sha256_hex_ok h)"
| "m0_payload_ok (Tool_completed t) = tool_completed_ok M0_TOOL_ERROR_CODES t"
| "m0_payload_ok _ = False"

fun m1_payload_ok :: "payload_ev \<Rightarrow> bool" where
  "m1_payload_ok (Tool_completed t) = tool_completed_ok LATEST_TOOL_ERROR_CODES t"
| "m1_payload_ok (Reference_presented set_id ref ord snap res) =
     (uuid_ok set_id \<and> uuid_ok ref \<and> 1 \<le> ord \<and> uuid_ok snap \<and> uuid_ok res)"
| "m1_payload_ok p = m0_payload_ok p"

fun m2_payload_ok :: "payload_ev \<Rightarrow> bool" where
  "m2_payload_ok (Run_completed r) = run_result_ok r"
| "m2_payload_ok (Model_step_started n) = step_ok n"
| "m2_payload_ok (Model_step_completed n ms usage) =
     (step_ok n \<and> unix_ms_ok ms \<and> opt_ok (\<lambda>(i, out). unix_ms_ok i \<and> unix_ms_ok out) usage)"
| "m2_payload_ok (Model_step_failed f) = step_failed_ok f"
| "m2_payload_ok p = m1_payload_ok p"

fun payload_ok :: "payload_ev \<Rightarrow> bool" where
  "payload_ok (Action_proposed p h t) = (uuid_ok p \<and> sha256_hex_ok h \<and> action_tool_ok t)"
| "payload_ok (Action_approved p h e) = (uuid_ok p \<and> sha256_hex_ok h \<and> uuid_ok e)"
| "payload_ok (Action_preflight_started e) = uuid_ok e"
| "payload_ok (Action_preflight_failed e c) = (uuid_ok e \<and> is_code M5_ACTION_ERROR_CODES c)"
| "payload_ok (Action_preflight_blocked e r s) = (uuid_ok e \<and> source_revision_ok r \<and> uuid_ok s)"
| "payload_ok (Action_execution_started e) = uuid_ok e"
| "payload_ok (Action_execution_finished e out) = uuid_ok e"
| "payload_ok p = m2_payload_ok p"

fun isTerminalEvent :: "payload_ev \<Rightarrow> bool" where
  "isTerminalEvent (Run_completed r) = True"
| "isTerminalEvent (Run_failed c) = True"
| "isTerminalEvent Run_cancelled = True"
| "isTerminalEvent (Run_abandoned c) = True"
| "isTerminalEvent _ = False"

text \<open>The envelope of a stored event.\<close>

record run_event =
  ev_runId :: jstr
  ev_seq :: nat
  ev_payload :: payload_ev
  ev_createdAt :: int

definition run_event_ok :: "(payload_ev \<Rightarrow> bool) \<Rightarrow> run_event \<Rightarrow> bool" where
  "run_event_ok registry e \<longleftrightarrow> uuid_ok (ev_runId e) \<and> 1 \<le> ev_seq e \<and> unix_ms_ok (ev_createdAt e) \<and>
     registry (ev_payload e)"

definition parseRunEvent :: "run_event \<Rightarrow> run_event option" where
  "parseRunEvent e = (if run_event_ok payload_ok e then Some e else None)"

definition parseM0RunEvent :: "run_event \<Rightarrow> run_event option" where
  "parseM0RunEvent e = (if run_event_ok m0_payload_ok e then Some e else None)"

definition parseM1RunEvent :: "run_event \<Rightarrow> run_event option" where
  "parseM1RunEvent e = (if run_event_ok m1_payload_ok e then Some e else None)"

definition parseM2RunEvent :: "run_event \<Rightarrow> run_event option" where
  "parseM2RunEvent e = (if run_event_ok m2_payload_ok e then Some e else None)"

lemma codes_m0_latest: "is_code M0_TOOL_ERROR_CODES c \<Longrightarrow> is_code LATEST_TOOL_ERROR_CODES c"
  by (auto simp: is_code_def LATEST_TOOL_ERROR_CODES_def)

lemma m0_m1: "m0_payload_ok p \<Longrightarrow> m1_payload_ok p"
  by (cases p) (auto simp: tool_completed_ok_def opt_ok_def codes_m0_latest split: option.splits)

lemma m1_m2: "m1_payload_ok p \<Longrightarrow> m2_payload_ok p"
  by (cases p) (auto simp: run_result_ok_def split: run_result.splits)

lemma m2_latest: "m2_payload_ok p \<Longrightarrow> payload_ok p"
  by (cases p) auto

subsection \<open>Properties\<close>

text \<open>The registry that first knows an event type, and samples of the types that each step adds.\<close>

fun ev_milestone :: "payload_ev \<Rightarrow> nat" where
  "ev_milestone (Reference_presented s r n p q) = 1"
| "ev_milestone (Model_step_started n) = 2"
| "ev_milestone (Model_step_completed n ms usage) = 2"
| "ev_milestone (Model_step_failed f) = 2"
| "ev_milestone (Action_proposed p h t) = 5"
| "ev_milestone (Action_approved p h e) = 5"
| "ev_milestone (Action_preflight_started e) = 5"
| "ev_milestone (Action_preflight_failed e c) = 5"
| "ev_milestone (Action_preflight_blocked e r s) = 5"
| "ev_milestone (Action_execution_started e) = 5"
| "ev_milestone (Action_execution_finished e out) = 5"
| "ev_milestone _ = 0"

definition sample_id :: jstr where
  "sample_id = js ''11111111-1111-4111-8111-111111111111''"

definition sample_event :: "payload_ev \<Rightarrow> run_event" where
  "sample_event p = \<lparr>ev_runId = sample_id, ev_seq = 1, ev_payload = p, ev_createdAt = 5\<rparr>"

definition reference_samples :: "payload_ev list" where
  "reference_samples = [Reference_presented sample_id sample_id 1 sample_id sample_id]"

definition model_samples :: "payload_ev list" where
  "model_samples = [Model_step_started 1, Model_step_completed 8 250 (Some (1200, 45)),
     Model_step_failed \<lparr>sf_step = 2, sf_errorCode = js ''answer_invalid'', sf_durationMs = Some 9,
       sf_reason = Some (js ''parse:too_big@parts.0.text''), sf_gatewayErrorCode = None,
       sf_invalidResponseCause = None, sf_httpStatus = Some 200\<rparr>]"

definition action_samples :: "payload_ev list" where
  "action_samples = (let digest = replicate 64 97 in
     [Action_proposed sample_id digest (js ''calendar.create''), Action_approved sample_id digest sample_id,
      Action_preflight_started sample_id, Action_preflight_failed sample_id (js ''action_preflight_failed''),
      Action_preflight_blocked sample_id (js ''etag-2'') sample_id, Action_execution_started sample_id,
      Action_execution_finished sample_id Rcp_succeeded])"

lemma sample_id_ok: "uuid_ok sample_id"
  by code_simp

lemma samples_ok:
  "list_all m1_payload_ok reference_samples" "list_all m2_payload_ok model_samples" "list_all payload_ok action_samples"
  by code_simp+

lemma sample_event_ok: "run_event_ok registry (sample_event p) = registry p"
  by (simp add: run_event_ok_def sample_event_def sample_id_ok unix_ms_ok_def MAX_SAFE_INTEGER_def)

lemma parse_event_iff:
  "parseM0RunEvent e = Some e \<longleftrightarrow> run_event_ok m0_payload_ok e" "parseM1RunEvent e = Some e \<longleftrightarrow> run_event_ok m1_payload_ok e"
  "parseM2RunEvent e = Some e \<longleftrightarrow> run_event_ok m2_payload_ok e" "parseRunEvent e = Some e \<longleftrightarrow> run_event_ok payload_ok e"
  by (simp_all add: parseM0RunEvent_def parseM1RunEvent_def parseM2RunEvent_def parseRunEvent_def)

lemma list_all_conj: "list_all (\<lambda>p. P p \<and> Q p) ps \<longleftrightarrow> list_all P ps \<and> list_all Q ps"
  by (auto simp: list_all_iff)

lemma milestones:
  "m0_payload_ok p \<Longrightarrow> ev_milestone p = 0" "m1_payload_ok p \<Longrightarrow> ev_milestone p \<le> 1"
  "m2_payload_ok p \<Longrightarrow> ev_milestone p \<le> 2"
  by (cases p; simp)+

text \<open>C38. Every event that an earlier registry accepts is accepted unchanged by each later one, so rows
  written by an older version stay readable; each registry accepts only the event types that its milestone knows;
  and every step is a strict extension: M1 adds \<open>reference.presented\<close>, M2 the three model step events and version 2
  results, and the latest registry all seven action events, each of which reads back where it is known.\<close>

theorem registries_extend:
  "(\<forall>e. (parseM0RunEvent e = Some e \<longrightarrow> parseM1RunEvent e = Some e) \<and>
        (parseM1RunEvent e = Some e \<longrightarrow> parseM2RunEvent e = Some e) \<and>
        (parseM2RunEvent e = Some e \<longrightarrow> parseRunEvent e = Some e) \<and>
        (parseM0RunEvent e = Some e \<longrightarrow> ev_milestone (ev_payload e) = 0) \<and>
        (parseM1RunEvent e = Some e \<longrightarrow> ev_milestone (ev_payload e) \<le> 1) \<and>
        (parseM2RunEvent e = Some e \<longrightarrow> ev_milestone (ev_payload e) \<le> 2)) \<and>
   list_all (\<lambda>p. parseM1RunEvent (sample_event p) = Some (sample_event p) \<and> ev_milestone p = 1) reference_samples \<and>
   list_all (\<lambda>p. parseM2RunEvent (sample_event p) = Some (sample_event p) \<and> ev_milestone p = 2) model_samples \<and>
   list_all (\<lambda>p. parseRunEvent (sample_event p) = Some (sample_event p) \<and> ev_milestone p = 5) action_samples \<and>
   m2_payload_ok (Run_completed (Result_v2 [72, 105, 10, 10, 33] sample_answer None)) \<and>
   \<not> m1_payload_ok (Run_completed (Result_v2 [72, 105, 10, 10, 33] sample_answer None)) \<and>
   \<not> m2_payload_ok (Action_execution_started e)"
proof -
  have "result_v2_ok [72, 105, 10, 10, 33] sample_answer None"
    using sample_answer_ok
    by (simp add: result_v2_ok_def renderRunResultText_def sample_answer_def MAX_ASSISTANT_TEXT_LENGTH_def)
  moreover have "list_all (\<lambda>p. ev_milestone p = 1) reference_samples" "list_all (\<lambda>p. ev_milestone p = 2) model_samples"
    "list_all (\<lambda>p. ev_milestone p = 5) action_samples"
    by (simp_all add: reference_samples_def model_samples_def action_samples_def Let_def)
  moreover have "\<forall>e. (run_event_ok m0_payload_ok e \<longrightarrow> run_event_ok m1_payload_ok e) \<and>
      (run_event_ok m1_payload_ok e \<longrightarrow> run_event_ok m2_payload_ok e) \<and>
      (run_event_ok m2_payload_ok e \<longrightarrow> run_event_ok payload_ok e) \<and>
      (run_event_ok m0_payload_ok e \<longrightarrow> ev_milestone (ev_payload e) = 0) \<and>
      (run_event_ok m1_payload_ok e \<longrightarrow> ev_milestone (ev_payload e) \<le> 1) \<and>
      (run_event_ok m2_payload_ok e \<longrightarrow> ev_milestone (ev_payload e) \<le> 2)"
    unfolding run_event_ok_def using m0_m1 m1_m2 m2_latest milestones by blast
  ultimately show ?thesis
    using samples_ok unfolding parse_event_iff sample_event_ok list_all_conj by (simp add: run_result_ok_def)
qed

theorem registries_extend_witness:
  "parseRunEvent \<lparr>ev_runId = sample_id, ev_seq = 1, ev_payload = Run_queued 1, ev_createdAt = 5\<rparr> =
     Some \<lparr>ev_runId = sample_id, ev_seq = 1, ev_payload = Run_queued 1, ev_createdAt = 5\<rparr> \<and>
   parseRunEvent (sample_event (hd reference_samples)) = Some (sample_event (hd reference_samples)) \<and>
   parseM0RunEvent (sample_event (hd reference_samples)) \<noteq> Some (sample_event (hd reference_samples))"
proof -
  let ?e = "\<lparr>ev_runId = sample_id, ev_seq = 1, ev_payload = Run_queued 1, ev_createdAt = 5\<rparr>"
  let ?r = "sample_event (hd reference_samples)"
  have "parseM0RunEvent ?e = Some ?e"
    by (simp add: parseM0RunEvent_def run_event_ok_def sample_id_ok unix_ms_ok_def MAX_SAFE_INTEGER_def)
  moreover have "parseM1RunEvent ?r = Some ?r" "ev_milestone (ev_payload ?r) \<noteq> 0"
    using registries_extend [THEN conjunct2, THEN conjunct1] by (simp_all add: reference_samples_def sample_event_def)
  ultimately show ?thesis
    using registries_extend [THEN conjunct1] by metis
qed

text \<open>The registry of the first extension accepts tool error codes of every later milestone: the
  vocabulary it reads is the latest one, of twenty-two codes.\<close>

theorem m1_registry_reads_latest_codes:
  "length LATEST_TOOL_ERROR_CODES = 22 \<and>
   (\<exists>t. tl_errorCode t = Some (js ''confirmation_required'') \<and> m1_payload_ok (Tool_completed t))"
proof
  show "length LATEST_TOOL_ERROR_CODES = 22"
    by code_simp
  let ?t = "\<lparr>tl_callId = sample_id, tl_callIndex = 1, tl_tool = js ''web.fetch'', tl_actual = Act_denied,
      tl_reported = None, tl_disposition = No_disposition,
      tl_errorCode = Some (js ''confirmation_required''), tl_resultDigest = None, tl_reusedFrom = None\<rparr>"
  have "m1_payload_ok (Tool_completed ?t)"
    by code_simp
  then show "\<exists>t. tl_errorCode t = Some (js ''confirmation_required'') \<and> m1_payload_ok (Tool_completed t)"
    by (intro exI [of _ ?t]) simp
qed

end
