(* ===== verification/Store.thy ===== *)
theory Store
  imports Events
begin

text \<open>
  The SQLite store (packages/kernel/migrations 0001, 0002, 0004, 0010, 0011) as tables of typed rows,
  with the constraints that the statements of the kernel can run into. A JSON column holds the
  value that its schema reads from it. A statement returns the error of the first constraint that
  fails: the row's CHECK, then its unique keys in declaration order, then its foreign keys.
  \<open>BEGIN IMMEDIATE ... COMMIT\<close> runs a transaction on a private copy, so that an error leaves the
  store as it was. The rows of \<open>idem\<close> are those of the kernel's own scopes.
\<close>

datatype proposal_status = Pending | Approved | Rejected | Expired

datatype kerr =
    Validation
  | NotFound
  | Idempotency_conflict jstr
  | Session_busy jstr
  | Concurrent_conflict
  | Database_state_invalid
  | Action_dispatch_required
  | Action_not_cancellable jstr
  | Proposal_hash_mismatch
  | Proposal_state_conflict proposal_status
  | Zod_error
  | Type_error
  | Sqlite_unique
  | Sqlite_primary_key
  | Sqlite_check
  | Sqlite_foreign_key
  | Handoff_version_conflict int int
  | Handoff_state_conflict
  | Autonomy_version_conflict int int
  | Autonomy_state_conflict
  | Purpose_not_goal
  | Purpose_not_confirmable
  | Storage_failed
  | Reference_failed

subsection \<open>Rows\<close>

record session_row =
  s_id :: jstr
  s_createdAt :: int
  s_lastActiveAt :: int
  s_nextTurnPosition :: nat

record context_row =
  x_session :: jstr
  x_version :: int
  x_items :: "jstr list"
  x_updatedAt :: int

record turn_row =
  t_id :: jstr
  t_session :: jstr
  t_seq :: nat
  t_input :: turn_input
  t_frozen :: frozen_context
  t_createdAt :: int
  t_nextRunAttempt :: nat

record run_row =
  r_id :: jstr
  r_turn :: jstr
  r_session :: jstr
  r_attempt :: nat
  r_status :: run_status
  r_strategy :: jstr
  r_result :: "run_result option"
  r_errorCode :: "jstr option"
  r_eventSeq :: nat
  r_selectOnSuccess :: bool
  r_toolRequestsUsed :: nat
  r_createdAt :: int
  r_startedAt :: "int option"
  r_finishedAt :: "int option"
  r_cancelRequestedAt :: "int option"
  r_memoryStatus :: "memory_status option"

record selection_row =
  sel_turn :: jstr
  sel_run :: jstr
  sel_at :: int

text \<open>A stored response body: the schema that wrote it, with its fields.\<close>

datatype response_body =
    Session_body jstr int
  | Run_body jstr jstr jstr nat
  | Approve_body jstr jstr jstr

record idem_row =
  i_scope :: jstr
  i_key :: jstr
  i_hash :: jstr
  i_status :: int
  i_body :: response_body
  i_createdAt :: int

record activity_row =
  a_id :: jstr
  a_kind :: jstr
  a_session :: "jstr option"
  a_createdAt :: int

text \<open>The input of a calendar write, by its tool.\<close>

datatype action_input =
    Reschedule_input jstr jstr
  | Create_input jstr jstr jstr

definition action_input_ok :: "action_input \<Rightarrow> bool" where
  "action_input_ok i \<longleftrightarrow>
     (case i of
        Reschedule_input start till \<Rightarrow> 1 \<le> length start \<and> length start \<le> 128 \<and> 1 \<le> length till \<and>
          length till \<le> 128 \<and> start \<noteq> till
      | Create_input title start till \<Rightarrow> 1 \<le> length title \<and> length title \<le> 256 \<and>
          1 \<le> length start \<and> length start \<le> 128 \<and> 1 \<le> length till \<and> length till \<le> 128 \<and> start \<noteq> till)"

fun action_input_json :: "action_input \<Rightarrow> json" where
  "action_input_json (Reschedule_input start till) =
     JObj [(js ''start'', JStr start), (js ''end'', JStr till)]"
| "action_input_json (Create_input title start till) =
     JObj [(js ''title'', JStr title), (js ''start'', JStr start), (js ''end'', JStr till)]"

fun is_create_input :: "action_input \<Rightarrow> bool" where
  "is_create_input (Create_input t s e) = True"
| "is_create_input (Reschedule_input s e) = False"

record proposal_row =
  p_id :: jstr
  p_session :: jstr
  p_sourceTurn :: jstr
  p_sourceRun :: jstr
  p_decisionTurn :: "jstr option"
  p_tool :: jstr
  p_connector :: jstr
  p_input :: action_input
  p_targetRef :: "jstr option"
  p_targetResource :: "jstr option"
  p_snapshot :: "jstr option"
  p_revision :: "jstr option"
  p_preview :: jstr
  p_hash :: jstr
  p_status :: proposal_status
  p_createdAt :: int
  p_expiresAt :: int
  p_resolvedAt :: "int option"

datatype execution_status =
    Ex_queued | Ex_preflight | Ex_executing | Ex_succeeded | Ex_succeeded_unverified
  | Ex_blocked_stale | Ex_failed | Ex_unknown

record execution_row =
  x_id :: jstr
  x_sessionId :: jstr
  x_proposal :: jstr
  x_approvalTurn :: jstr
  x_actionRun :: jstr
  x_status :: execution_status
  x_callStartedAt :: "int option"
  x_finishedAt :: "int option"
  x_errorCode :: "jstr option"
  x_createdAt :: int
  x_executionUpdatedAt :: int

record grant_row =
  gr_execution :: jstr
  gr_session :: jstr
  gr_proposal :: jstr
  gr_proposalHash :: jstr
  gr_tool :: jstr
  gr_inputHash :: jstr
  gr_consumedAt :: "int option"
  gr_createdAt :: int

record receipt_row =
  rc_execution :: jstr
  rc_session :: jstr
  rc_proposal :: jstr
  rc_proposalHash :: jstr
  rc_outcome :: receipt_outcome
  rc_preflightRevision :: "jstr option"
  rc_preflightSnapshot :: "jstr option"
  rc_observedRevision :: "jstr option"
  rc_resultSnapshot :: "jstr option"
  rc_summary :: jstr
  rc_createdAt :: int

text \<open>
  The normalized calendar event of a snapshot body, and a row of the join that \<open>loadTarget\<close> selects. A
  snapshot that holds no such event has none.
\<close>

record snapshot_event =
  se_status :: jstr
  se_title :: jstr
  se_start :: jstr
  se_end :: jstr
  se_allDay :: "bool option"

record target_row =
  g_session :: jstr
  g_ref :: jstr
  g_ordinal :: int
  g_resource :: jstr
  g_snapshot :: jstr
  g_connector :: jstr
  g_kind :: jstr
  g_sourceRevision :: "jstr option"
  g_contentHash :: jstr
  g_event :: "snapshot_event option"

record db =
  sessions :: "session_row list"
  contexts :: "context_row list"
  turns :: "turn_row list"
  runs :: "run_row list"
  selections :: "selection_row list"
  events :: "run_event list"
  idem :: "idem_row list"
  activity :: "activity_row list"
  proposals :: "proposal_row list"
  executions :: "execution_row list"
  grants :: "grant_row list"
  receipts :: "receipt_row list"
  targets :: "target_row list"
  connectors :: "jstr list"
  user_version :: int

type_synonym 'a tx = "db \<Rightarrow> kerr + ('a \<times> db)"

text \<open>\<open>withImmediate\<close>: commit the body's store, or roll back and rethrow.\<close>

definition withImmediate :: "('s \<Rightarrow> kerr + ('a \<times> 's)) \<Rightarrow> 's \<Rightarrow> (kerr + 'a) \<times> 's" where
  "withImmediate fn db =
     (case fn db of
        Inl error \<Rightarrow> (Inl error, db)
      | Inr (out, db') \<Rightarrow> (Inr out, db'))"

definition isBusyConstraint :: "kerr \<Rightarrow> bool" where
  "isBusyConstraint error \<longleftrightarrow> error = Sqlite_unique"

subsection \<open>Reads\<close>

definition readSession :: "db \<Rightarrow> jstr \<Rightarrow> session_row option" where
  "readSession db sid = find (\<lambda>s. s_id s = sid) (sessions db)"

definition readContext :: "db \<Rightarrow> jstr \<Rightarrow> context_row option" where
  "readContext db sid = find (\<lambda>x. x_session x = sid) (contexts db)"

definition readTurn :: "db \<Rightarrow> jstr \<Rightarrow> turn_row option" where
  "readTurn db tid = find (\<lambda>t. t_id t = tid) (turns db)"

definition readRun :: "db \<Rightarrow> jstr \<Rightarrow> run_row option" where
  "readRun db rid = find (\<lambda>r. r_id r = rid) (runs db)"

definition runEvents :: "db \<Rightarrow> jstr \<Rightarrow> run_event list" where
  "runEvents db rid = filter (\<lambda>e. ev_runId e = rid) (events db)"

definition toStoredResponse :: "db \<Rightarrow> jstr \<Rightarrow> jstr \<Rightarrow> idem_row option" where
  "toStoredResponse db scope key = find (\<lambda>i. (i_scope i, i_key i) = (scope, key)) (idem db)"

text \<open>\<open>parseTurnRow\<close> and \<open>parseRunRow\<close> validate the JSON columns of the row they return.\<close>

definition parseTurnRow :: "turn_row \<Rightarrow> kerr + turn_row" where
  "parseTurnRow row =
     (if \<not> turn_input_ok (t_input row) then Inl Validation
      else if \<not> frozen_context_ok (t_frozen row) then Inl Validation
      else Inr row)"

definition parseRunRow :: "run_row \<Rightarrow> kerr + run_row" where
  "parseRunRow row =
     (case r_result row of
        Some result \<Rightarrow> if run_result_ok result then Inr row else Inl Validation
      | None \<Rightarrow> Inr row)"

subsection \<open>Constraints\<close>

definition active_row :: "run_row \<Rightarrow> bool" where
  "active_row r = isActiveStatus (r_status r)"

text \<open>The CHECK of \<open>runs\<close>: which columns are set in which status.\<close>

definition run_check :: "run_row \<Rightarrow> bool" where
  "run_check r \<longleftrightarrow> 1 \<le> r_attempt r \<and>
     (case r_status r of
        Queued \<Rightarrow> r_startedAt r = None \<and> r_finishedAt r = None \<and> r_result r = None \<and>
          r_errorCode r = None \<and> r_cancelRequestedAt r = None
      | Running \<Rightarrow> r_startedAt r \<noteq> None \<and> r_finishedAt r = None \<and> r_result r = None \<and>
          r_errorCode r = None \<and> r_cancelRequestedAt r = None
      | Cancel_requested \<Rightarrow> r_startedAt r \<noteq> None \<and> r_cancelRequestedAt r \<noteq> None \<and>
          r_finishedAt r = None \<and> r_result r = None \<and> r_errorCode r = None
      | Completed \<Rightarrow> r_startedAt r \<noteq> None \<and> r_result r \<noteq> None \<and> r_finishedAt r \<noteq> None \<and>
          r_errorCode r = None \<and> r_cancelRequestedAt r = None
      | Failed \<Rightarrow> r_startedAt r \<noteq> None \<and> r_errorCode r \<noteq> None \<and> r_finishedAt r \<noteq> None \<and>
          r_result r = None \<and> r_cancelRequestedAt r = None
      | Cancelled \<Rightarrow> r_cancelRequestedAt r \<noteq> None \<and> r_finishedAt r \<noteq> None \<and>
          r_result r = None \<and> r_errorCode r = None
      | Abandoned \<Rightarrow> r_startedAt r \<noteq> None \<and> r_finishedAt r \<noteq> None \<and> r_result r = None \<and>
          r_errorCode r = None \<and> r_cancelRequestedAt r = None)"

text \<open>The unique keys of \<open>runs\<close> besides its primary key: \<open>(turn_id, attempt)\<close>, and one active run per session.
  (\<open>(turn_id, id)\<close> and \<open>(session_id, id)\<close> follow from the primary key.)\<close>

definition runs_unique :: "run_row list \<Rightarrow> bool" where
  "runs_unique rs \<longleftrightarrow> distinct (map (\<lambda>r. (r_turn r, r_attempt r)) rs) \<and>
     distinct (map r_session (filter active_row rs))"

definition proposal_check :: "proposal_row \<Rightarrow> bool" where
  "proposal_check p \<longleftrightarrow>
     (p_tool p = js ''calendar.reschedule'' \<and> p_targetRef p \<noteq> None \<and> p_targetResource p \<noteq> None \<and>
        p_snapshot p \<noteq> None \<and> p_revision p \<noteq> None \<or>
      p_tool p = js ''calendar.create'' \<and> p_targetRef p = None \<and> p_targetResource p = None \<and>
        p_snapshot p = None \<and> p_revision p = None) \<and>
     p_expiresAt p > p_createdAt p \<and>
     (case p_status p of
        Pending \<Rightarrow> p_resolvedAt p = None \<and> p_decisionTurn p = None
      | Approved \<Rightarrow> p_resolvedAt p \<noteq> None \<and> p_decisionTurn p \<noteq> None
      | Rejected \<Rightarrow> p_resolvedAt p \<noteq> None \<and> p_decisionTurn p \<noteq> None
      | Expired \<Rightarrow> p_resolvedAt p \<noteq> None \<and> p_decisionTurn p = None)"

definition pending_row :: "proposal_row \<Rightarrow> bool" where
  "pending_row p \<longleftrightarrow> p_status p = Pending"

definition proposals_unique :: "proposal_row list \<Rightarrow> bool" where
  "proposals_unique ps \<longleftrightarrow>
     distinct (concat (map (\<lambda>p. case p_decisionTurn p of None \<Rightarrow> [] | Some t \<Rightarrow> [t]) ps)) \<and>
     distinct (map p_session (filter pending_row ps))"

text \<open>The CHECK of \<open>action_executions\<close>: where the external-call marker and the end may stand.\<close>

definition execution_check :: "execution_row \<Rightarrow> bool" where
  "execution_check x \<longleftrightarrow> x_executionUpdatedAt x \<ge> x_createdAt x \<and>
     (case x_status x of
        Ex_queued \<Rightarrow> x_callStartedAt x = None \<and> x_finishedAt x = None \<and> x_errorCode x = None
      | Ex_preflight \<Rightarrow> x_callStartedAt x = None \<and> x_finishedAt x = None \<and> x_errorCode x = None
      | Ex_executing \<Rightarrow> x_callStartedAt x \<noteq> None \<and> x_finishedAt x = None \<and> x_errorCode x = None
      | Ex_succeeded \<Rightarrow> x_callStartedAt x \<noteq> None \<and> x_finishedAt x \<noteq> None \<and> x_errorCode x = None
      | Ex_succeeded_unverified \<Rightarrow>
          x_callStartedAt x \<noteq> None \<and> x_finishedAt x \<noteq> None \<and> x_errorCode x = None
      | Ex_unknown \<Rightarrow> x_callStartedAt x \<noteq> None \<and> x_finishedAt x \<noteq> None \<and> x_errorCode x = None
      | Ex_blocked_stale \<Rightarrow> x_callStartedAt x = None \<and> x_finishedAt x \<noteq> None \<and> x_errorCode x = None
      | Ex_failed \<Rightarrow> x_finishedAt x \<noteq> None \<and> x_errorCode x \<noteq> None)"

definition receipt_check :: "receipt_row \<Rightarrow> bool" where
  "receipt_check c \<longleftrightarrow>
     (case rc_outcome c of
        Rcp_succeeded \<Rightarrow> rc_observedRevision c \<noteq> None \<and> rc_resultSnapshot c \<noteq> None
      | Rcp_succeeded_unverified \<Rightarrow> rc_observedRevision c = None \<and> rc_resultSnapshot c = None
      | Rcp_blocked_stale \<Rightarrow> rc_preflightRevision c \<noteq> None \<and> rc_preflightSnapshot c \<noteq> None \<and>
          rc_observedRevision c = None \<and> rc_resultSnapshot c = None
      | _ \<Rightarrow> rc_observedRevision c = None \<and> rc_resultSnapshot c = None)"

subsection \<open>Statements\<close>

definition insert_session :: "session_row \<Rightarrow> db \<Rightarrow> kerr + db" where
  "insert_session s db =
     (if s_nextTurnPosition s < 1 then Inl Sqlite_check
      else if readSession db (s_id s) \<noteq> None then Inl Sqlite_primary_key
      else Inr (db\<lparr>sessions := sessions db @ [s]\<rparr>))"

definition insert_context :: "context_row \<Rightarrow> db \<Rightarrow> kerr + db" where
  "insert_context x db =
     (if x_version x < 1 then Inl Sqlite_check
      else if readContext db (x_session x) \<noteq> None then Inl Sqlite_primary_key
      else if readSession db (x_session x) = None then Inl Sqlite_foreign_key
      else Inr (db\<lparr>contexts := contexts db @ [x]\<rparr>))"

definition insert_turn :: "turn_row \<Rightarrow> db \<Rightarrow> kerr + db" where
  "insert_turn t db =
     (if t_seq t < 1 \<or> t_nextRunAttempt t < 1 then Inl Sqlite_check
      else if readTurn db (t_id t) \<noteq> None then Inl Sqlite_primary_key
      else if (t_session t, t_seq t) \<in> set (map (\<lambda>t. (t_session t, t_seq t)) (turns db))
        then Inl Sqlite_unique
      else if readSession db (t_session t) = None then Inl Sqlite_foreign_key
      else Inr (db\<lparr>turns := turns db @ [t]\<rparr>))"

definition insert_run :: "run_row \<Rightarrow> db \<Rightarrow> kerr + db" where
  "insert_run r db =
     (if \<not> run_check r then Inl Sqlite_check
      else if readRun db (r_id r) \<noteq> None then Inl Sqlite_primary_key
      else if \<not> runs_unique (runs db @ [r]) then Inl Sqlite_unique
      else if \<not> (\<exists>t \<in> set (turns db). t_id t = r_turn r \<and> t_session t = r_session r) \<or>
           readSession db (r_session r) = None then Inl Sqlite_foreign_key
      else Inr (db\<lparr>runs := runs db @ [r]\<rparr>))"

definition insert_event :: "run_event \<Rightarrow> db \<Rightarrow> kerr + db" where
  "insert_event e db =
     (if ev_seq e < 1 then Inl Sqlite_check
      else if (ev_runId e, ev_seq e) \<in> set (map (\<lambda>e. (ev_runId e, ev_seq e)) (events db))
        then Inl Sqlite_primary_key
      else if readRun db (ev_runId e) = None then Inl Sqlite_foreign_key
      else Inr (db\<lparr>events := events db @ [e]\<rparr>))"

definition insert_idem :: "idem_row \<Rightarrow> db \<Rightarrow> kerr + db" where
  "insert_idem i db =
     (if i_status i < 200 \<or> i_status i > 299 then Inl Sqlite_check
      else if toStoredResponse db (i_scope i) (i_key i) \<noteq> None then Inl Sqlite_primary_key
      else Inr (db\<lparr>idem := idem db @ [i]\<rparr>))"

definition insert_activity :: "activity_row \<Rightarrow> db \<Rightarrow> kerr + db" where
  "insert_activity a db =
     (if a_id a \<in> set (map a_id (activity db)) then Inl Sqlite_primary_key
      else if (case a_session a of None \<Rightarrow> False | Some sid \<Rightarrow> readSession db sid = None)
        then Inl Sqlite_foreign_key
      else Inr (db\<lparr>activity := activity db @ [a]\<rparr>))"

definition insert_proposal :: "proposal_row \<Rightarrow> db \<Rightarrow> kerr + db" where
  "insert_proposal p db =
     (if \<not> proposal_check p then Inl Sqlite_check
      else if p_id p \<in> set (map p_id (proposals db)) then Inl Sqlite_primary_key
      else if \<not> proposals_unique (proposals db @ [p]) then Inl Sqlite_unique
      else if \<not> (\<exists>r \<in> set (runs db). r_id r = p_sourceRun p \<and> r_turn r = p_sourceTurn p \<and>
                   r_session r = p_session p) \<or>
           p_connector p \<notin> set (connectors db) then Inl Sqlite_foreign_key
      else Inr (db\<lparr>proposals := proposals db @ [p]\<rparr>))"

definition readExecution :: "db \<Rightarrow> jstr \<Rightarrow> execution_row option" where
  "readExecution db eid = find (\<lambda>x. x_id x = eid) (executions db)"

definition readExecutionByRun :: "db \<Rightarrow> jstr \<Rightarrow> execution_row option" where
  "readExecutionByRun db rid = find (\<lambda>x. x_actionRun x = rid) (executions db)"

definition readProposal :: "db \<Rightarrow> jstr \<Rightarrow> proposal_row option" where
  "readProposal db pid = find (\<lambda>p. p_id p = pid) (proposals db)"

definition readGrant :: "db \<Rightarrow> jstr \<Rightarrow> grant_row option" where
  "readGrant db eid = find (\<lambda>g. gr_execution g = eid) (grants db)"

definition readReceipt :: "db \<Rightarrow> jstr \<Rightarrow> receipt_row option" where
  "readReceipt db eid = find (\<lambda>c. rc_execution c = eid) (receipts db)"

definition insert_execution :: "execution_row \<Rightarrow> db \<Rightarrow> kerr + db" where
  "insert_execution x db =
     (if \<not> execution_check x then Inl Sqlite_check
      else if readExecution db (x_id x) \<noteq> None then Inl Sqlite_primary_key
      else if x_proposal x \<in> set (map x_proposal (executions db)) \<or>
              x_actionRun x \<in> set (map x_actionRun (executions db)) then Inl Sqlite_unique
      else if \<not> (\<exists>p \<in> set (proposals db). p_id p = x_proposal x \<and> p_session p = x_sessionId x) \<or>
              \<not> (\<exists>r \<in> set (runs db). r_id r = x_actionRun x \<and> r_turn r = x_approvalTurn x \<and>
                   r_session r = x_sessionId x) then Inl Sqlite_foreign_key
      else Inr (db\<lparr>executions := executions db @ [x]\<rparr>))"

definition insert_grant :: "grant_row \<Rightarrow> db \<Rightarrow> kerr + db" where
  "insert_grant g db =
     (if readGrant db (gr_execution g) \<noteq> None then Inl Sqlite_primary_key
      else if \<not> (\<exists>x \<in> set (executions db). x_id x = gr_execution g \<and> x_proposal x = gr_proposal g \<and>
                   x_sessionId x = gr_session g) then Inl Sqlite_foreign_key
      else Inr (db\<lparr>grants := grants db @ [g]\<rparr>))"

definition insert_receipt :: "receipt_row \<Rightarrow> db \<Rightarrow> kerr + db" where
  "insert_receipt c db =
     (if \<not> receipt_check c then Inl Sqlite_check
      else if readReceipt db (rc_execution c) \<noteq> None then Inl Sqlite_primary_key
      else if \<not> (\<exists>x \<in> set (executions db). x_id x = rc_execution c \<and> x_proposal x = rc_proposal c \<and>
                   x_sessionId x = rc_session c) then Inl Sqlite_foreign_key
      else Inr (db\<lparr>receipts := receipts db @ [c]\<rparr>))"

text \<open>\<open>INSERT INTO turn_selections ... ON CONFLICT(turn_id) DO UPDATE\<close>.\<close>

definition upsert_selection :: "selection_row \<Rightarrow> db \<Rightarrow> kerr + db" where
  "upsert_selection s db =
     (if \<not> (\<exists>r \<in> set (runs db). r_id r = sel_run s \<and> r_turn r = sel_turn s) then Inl Sqlite_foreign_key
      else if sel_turn s \<in> set (map sel_turn (selections db))
        then Inr (db\<lparr>selections := put_row sel_turn s (selections db)\<rparr>)
      else Inr (db\<lparr>selections := selections db @ [s]\<rparr>))"

text \<open>An \<open>UPDATE ... WHERE\<close> and the number of rows it changed.\<close>

definition update_runs :: "(run_row \<Rightarrow> bool) \<Rightarrow> (run_row \<Rightarrow> run_row) \<Rightarrow> nat tx" where
  "update_runs p f db =
     (let rs = upd_where p f (runs db) in
      if \<not> list_all run_check (map f (filter p (runs db))) then Inl Sqlite_check
      else if \<not> runs_unique rs then Inl Sqlite_unique
      else Inr (count_where p (runs db), db\<lparr>runs := rs\<rparr>))"

definition update_sessions :: "(session_row \<Rightarrow> bool) \<Rightarrow> (session_row \<Rightarrow> session_row) \<Rightarrow> nat tx" where
  "update_sessions p f db =
     (if \<not> list_all (\<lambda>s. s_nextTurnPosition s \<ge> 1) (map f (filter p (sessions db))) then Inl Sqlite_check
      else Inr (count_where p (sessions db), db\<lparr>sessions := upd_where p f (sessions db)\<rparr>))"

definition update_turns :: "(turn_row \<Rightarrow> bool) \<Rightarrow> (turn_row \<Rightarrow> turn_row) \<Rightarrow> nat tx" where
  "update_turns p f db =
     (if \<not> list_all (\<lambda>t. t_nextRunAttempt t \<ge> 1) (map f (filter p (turns db))) then Inl Sqlite_check
      else Inr (count_where p (turns db), db\<lparr>turns := upd_where p f (turns db)\<rparr>))"

definition update_proposals :: "(proposal_row \<Rightarrow> bool) \<Rightarrow> (proposal_row \<Rightarrow> proposal_row) \<Rightarrow> nat tx" where
  "update_proposals p f db =
     (let ps = upd_where p f (proposals db) in
      if \<not> list_all proposal_check (map f (filter p (proposals db))) then Inl Sqlite_check
      else if \<not> proposals_unique ps then Inl Sqlite_unique
      else Inr (count_where p (proposals db), db\<lparr>proposals := ps\<rparr>))"

definition update_executions ::
  "(execution_row \<Rightarrow> bool) \<Rightarrow> (execution_row \<Rightarrow> execution_row) \<Rightarrow> nat tx" where
  "update_executions p f db =
     (if \<not> list_all execution_check (map f (filter p (executions db))) then Inl Sqlite_check
      else Inr (count_where p (executions db), db\<lparr>executions := upd_where p f (executions db)\<rparr>))"

definition update_grants :: "(grant_row \<Rightarrow> bool) \<Rightarrow> (grant_row \<Rightarrow> grant_row) \<Rightarrow> nat tx" where
  "update_grants p f db =
     Inr (count_where p (grants db), db\<lparr>grants := upd_where p f (grants db)\<rparr>)"

subsection \<open>The event allocator\<close>

text \<open>
  \<open>appendEventInTx\<close>: the payload is validated, the run's counter moves from the sequence number the
  caller expects to the next one, and the event is inserted under it.
\<close>

definition appendEventInTx :: "jstr \<Rightarrow> nat \<Rightarrow> payload_ev \<Rightarrow> int \<Rightarrow> nat tx" where
  "appendEventInTx runId expectedPrevSeq payload now db =
     (if \<not> payload_ok payload then Inl Validation
      else let nxt = expectedPrevSeq + 1 in
        rbind (update_runs (\<lambda>r. r_id r = runId \<and> r_eventSeq r = expectedPrevSeq)
                 (\<lambda>r. r\<lparr>r_eventSeq := nxt\<rparr>) db)
          (\<lambda>(changes, db1).
             if changes \<noteq> 1 then Inl Concurrent_conflict
             else rbind (insert_event \<lparr>ev_runId = runId, ev_seq = nxt, ev_payload = payload,
                           ev_createdAt = now\<rparr> db1)
                    (\<lambda>db2. Inr (nxt, db2))))"

definition storeIdempotentResponse ::
  "jstr \<Rightarrow> jstr \<Rightarrow> jstr \<Rightarrow> int \<Rightarrow> response_body \<Rightarrow> int \<Rightarrow> db \<Rightarrow> kerr + db" where
  "storeIdempotentResponse scope key hash status body now db =
     insert_idem \<lparr>i_scope = scope, i_key = key, i_hash = hash, i_status = status, i_body = body,
       i_createdAt = now\<rparr> db"

definition shouldRecordAutonomyActivity :: "db \<Rightarrow> bool" where
  "shouldRecordAutonomyActivity db \<longleftrightarrow> user_version db \<ge> 11"

definition recordActivityInTx :: "jstr \<Rightarrow> jstr \<Rightarrow> jstr option \<Rightarrow> int \<Rightarrow> db \<Rightarrow> kerr + db" where
  "recordActivityInTx fresh kind sid now db =
     insert_activity \<lparr>a_id = fresh, a_kind = kind, a_session = sid, a_createdAt = now\<rparr> db"

definition recordUserActivityInTx :: "jstr \<Rightarrow> jstr \<Rightarrow> int \<Rightarrow> db \<Rightarrow> kerr + db" where
  "recordUserActivityInTx fresh sid now db =
     recordActivityInTx fresh (js ''user_message'') (Some sid) now db"

end
