(* ===== verification/Run_Journal.thy ===== *)
theory Run_Journal
  imports Store
begin

text \<open>
  The state of one run and its journal. Every transition of the kernel updates one row of \<open>runs\<close> and
  appends events to it; \<open>with_run row evs db\<close> is the store after such a sequence, and the rules of this
  theory turn the guarded updates and appends of a transaction into it. The journal of a run is
  read by an automaton that gives the status which the events so far lead to.
\<close>

definition with_run :: "run_row \<Rightarrow> run_event list \<Rightarrow> db \<Rightarrow> db" where
  "with_run row evs db = db\<lparr>runs := put_row r_id row (runs db), events := events db @ evs\<rparr>"

lemma with_run_sel [simp]:
  "runs (with_run row evs db) = put_row r_id row (runs db)"
  "events (with_run row evs db) = events db @ evs"
  "sessions (with_run row evs db) = sessions db"
  "contexts (with_run row evs db) = contexts db"
  "turns (with_run row evs db) = turns db"
  "selections (with_run row evs db) = selections db"
  "idem (with_run row evs db) = idem db"
  "activity (with_run row evs db) = activity db"
  "proposals (with_run row evs db) = proposals db"
  "executions (with_run row evs db) = executions db"
  "grants (with_run row evs db) = grants db"
  "receipts (with_run row evs db) = receipts db"
  "targets (with_run row evs db) = targets db"
  "connectors (with_run row evs db) = connectors db"
  "user_version (with_run row evs db) = user_version db"
  by (simp_all add: with_run_def)

text \<open>Updates of other tables move inside.\<close>

lemma with_run_upd [simp]:
  "(with_run row evs db)\<lparr>executions := x\<rparr> = with_run row evs (db\<lparr>executions := x\<rparr>)"
  "(with_run row evs db)\<lparr>grants := g\<rparr> = with_run row evs (db\<lparr>grants := g\<rparr>)"
  "(with_run row evs db)\<lparr>receipts := c\<rparr> = with_run row evs (db\<lparr>receipts := c\<rparr>)"
  "(with_run row evs db)\<lparr>proposals := p\<rparr> = with_run row evs (db\<lparr>proposals := p\<rparr>)"
  "(with_run row evs db)\<lparr>selections := s\<rparr> = with_run row evs (db\<lparr>selections := s\<rparr>)"
  "(with_run row evs db)\<lparr>sessions := n\<rparr> = with_run row evs (db\<lparr>sessions := n\<rparr>)"
  "(with_run row evs db)\<lparr>idem := i\<rparr> = with_run row evs (db\<lparr>idem := i\<rparr>)"
  "(with_run row evs db)\<lparr>activity := a\<rparr> = with_run row evs (db\<lparr>activity := a\<rparr>)"
  by (simp_all add: with_run_def)

subsection \<open>The runs table\<close>

text \<open>What the constraints and the allocator keep of the runs and the events.\<close>

definition runs_ok :: "run_row list \<Rightarrow> bool" where
  "runs_ok rs \<longleftrightarrow> distinct (map r_id rs) \<and> runs_unique rs \<and> list_all run_check rs"

definition journal_bounded :: "run_row list \<Rightarrow> run_event list \<Rightarrow> bool" where
  "journal_bounded rs es \<longleftrightarrow>
     (\<forall>e \<in> set es. \<exists>r \<in> set rs. r_id r = ev_runId e \<and> 1 \<le> ev_seq e \<and> ev_seq e \<le> r_eventSeq r)"

text \<open>
  \<open>opened rs es row evs\<close>: \<open>row\<close> is a later state of a row of \<open>rs\<close>, and \<open>evs\<close> are the events that have been
  appended for it since.
\<close>

definition opened :: "run_row list \<Rightarrow> run_event list \<Rightarrow> run_row \<Rightarrow> run_event list \<Rightarrow> bool" where
  "opened rs es row evs \<longleftrightarrow> runs_ok rs \<and> journal_bounded rs es \<and> run_check row \<and>
     (\<exists>old \<in> set rs. r_id old = r_id row \<and> r_turn old = r_turn row \<and> r_session old = r_session row \<and>
        r_attempt old = r_attempt row \<and> r_strategy old = r_strategy row \<and>
        (active_row row \<longrightarrow> active_row old) \<and> r_eventSeq old \<le> r_eventSeq row) \<and>
     (\<forall>e \<in> set evs. ev_runId e = r_id row \<and> 1 \<le> ev_seq e \<and> ev_seq e \<le> r_eventSeq row)"

lemma opened_start:
  "runs_ok rs \<Longrightarrow> journal_bounded rs es \<Longrightarrow> row \<in> set rs \<Longrightarrow> opened rs es row []"
  by (auto simp: opened_def runs_ok_def list_all_iff)

lemma with_run_start:
  "runs_ok (runs db) \<Longrightarrow> row \<in> set (runs db) \<Longrightarrow> with_run row [] db = db"
  by (simp add: with_run_def runs_ok_def put_row_same)

lemma with_run_with_run: "r_id a = r_id b \<Longrightarrow> with_run a es (with_run b fs db) = with_run a (fs @ es) db"
  by (simp add: with_run_def put_row_put_row)

text \<open>Replacing a row by a later state of it keeps the unique keys.\<close>

lemma distinct_map_filter_put:
  assumes "distinct (map r_id rs)" "old \<in> set rs" "r_id row = r_id old" "f row = f old"
    and "P row \<Longrightarrow> P old" "distinct (map f (filter P rs))"
  shows "distinct (map f (filter P (put_row r_id row rs)))"
  using assms
proof (induction rs)
  case Nil
  then show ?case by simp
next
  case (Cons r rs)
  have put: "put_row r_id row (r # rs) = (if r_id r = r_id row then row else r) # put_row r_id row rs"
    by (simp add: put_row_def upd_where_def)
  have sub: "f ` {x \<in> set (put_row r_id row rs). P x} \<subseteq> f ` {x \<in> set rs. P x}"
    if "old \<in> set rs"
    using set_put_row_subset [of r_id row rs] that Cons.prems(4,5) by (auto simp: image_iff)
  show ?case
  proof (cases "r = old")
    case True
    then have "put_row r_id row rs = rs"
      using Cons.prems(1,3) by (intro put_row_absent) auto
    then show ?thesis
      using Cons.prems True put by (cases "P old") auto
  next
    case False
    then have "r_id r \<noteq> r_id row" "old \<in> set rs"
      using Cons.prems(1-3) by (auto simp: image_iff)
    then show ?thesis
      using Cons sub put by auto
  qed
qed

lemma keys_put_row:
  assumes "distinct (map r_id rs)" "old \<in> set rs" "r_id row = r_id old"
    and "r_turn row = r_turn old" "r_attempt row = r_attempt old"
  shows "map (\<lambda>r. (r_turn r, r_attempt r)) (put_row r_id row rs) = map (\<lambda>r. (r_turn r, r_attempt r)) rs"
  using assms by (auto simp: put_row_def upd_where_def dest: distinct_key_eq)

lemma runs_unique_put:
  assumes "runs_ok rs" "old \<in> set rs" "r_id row = r_id old" "r_turn row = r_turn old"
    "r_attempt row = r_attempt old" "r_session row = r_session old" "active_row row \<Longrightarrow> active_row old"
  shows "runs_unique (put_row r_id row rs)"
  using assms keys_put_row [of rs old row] distinct_map_filter_put [of rs old row r_session active_row]
  by (auto simp: runs_ok_def runs_unique_def)

lemma runs_ok_put:
  assumes "opened rs es row evs"
  shows "runs_ok (put_row r_id row rs)"
proof -
  obtain old where "old \<in> set rs" "r_id row = r_id old" "r_turn row = r_turn old"
    "r_attempt row = r_attempt old" "r_session row = r_session old" "active_row row \<Longrightarrow> active_row old"
    using assms by (auto simp: opened_def)
  then have "runs_unique (put_row r_id row rs)"
    using assms by (intro runs_unique_put [of rs old]) (auto simp: opened_def)
  then show ?thesis
    using assms set_put_row_subset [of r_id row rs] by (auto simp: opened_def runs_ok_def list_all_iff)
qed

lemma opened_row_in: "opened rs es row evs \<Longrightarrow> row \<in> set (put_row r_id row rs)"
  by (auto simp: opened_def runs_ok_def set_put_row)

text \<open>A guarded update of the opened row.\<close>

lemma update_runs_opened:
  assumes "opened (runs db) (events db) row evs" "\<And>r. p r \<longleftrightarrow> r_id r = r_id row \<and> g r" "g row"
    and "opened (runs db) (events db) (f row) evs" "r_id (f row) = r_id row"
  shows "update_runs p f (with_run row evs db) = Inr (1, with_run (f row) evs db)"
proof -
  let ?rs = "put_row r_id row (runs db)"
  have d: "distinct (map r_id ?rs)" and m: "row \<in> set ?rs"
    using assms(1) opened_row_in [OF assms(1)] by (auto simp: opened_def runs_ok_def)
  have u: "upd_where p f ?rs = put_row r_id (f row) (runs db)"
    using upd_where_key [where key = r_id and p = p and g = g and f = f, OF d m assms(2,3,5)] assms(5)
    by (simp add: put_row_put_row)
  have c: "count_where p ?rs = 1"
    using count_where_key [where key = r_id and p = p and g = g, OF d m assms(2,3)] .
  have "list_all run_check (map f (filter p ?rs))"
  proof -
    have "r = row" if "r \<in> set ?rs" "p r" for r
      using d m that assms(2) by (metis distinct_key_eq)
    then show ?thesis
      using assms(4) by (auto simp: list_all_iff opened_def)
  qed
  moreover have "runs_unique (put_row r_id (f row) (runs db))"
    using runs_ok_put [OF assms(4)] by (simp add: runs_ok_def)
  ultimately show ?thesis
    using u c by (simp add: update_runs_def Let_def with_run_def)
qed

text \<open>\<open>opened\<close> after an update of the columns that transitions write.\<close>

lemma opened_update:
  assumes "opened rs es row evs" "r_id row' = r_id row" "r_turn row' = r_turn row"
    "r_session row' = r_session row" "r_attempt row' = r_attempt row" "r_strategy row' = r_strategy row"
    "r_eventSeq row' = r_eventSeq row" "run_check row'" "active_row row' \<Longrightarrow> active_row row"
  shows "opened rs es row' evs"
  using assms unfolding opened_def by (auto; metis)

definition appended :: "run_row \<Rightarrow> payload_ev \<Rightarrow> int \<Rightarrow> run_event" where
  "appended row payload now =
     \<lparr>ev_runId = r_id row, ev_seq = r_eventSeq row + 1, ev_payload = payload, ev_createdAt = now\<rparr>"

definition next_seq :: "run_row \<Rightarrow> run_row" where
  "next_seq row = row\<lparr>r_eventSeq := r_eventSeq row + 1\<rparr>"

lemma next_seq_sel [simp]:
  "r_id (next_seq row) = r_id row" "r_turn (next_seq row) = r_turn row"
  "r_session (next_seq row) = r_session row" "r_attempt (next_seq row) = r_attempt row"
  "r_status (next_seq row) = r_status row" "r_strategy (next_seq row) = r_strategy row"
  "r_result (next_seq row) = r_result row" "r_errorCode (next_seq row) = r_errorCode row"
  "r_eventSeq (next_seq row) = r_eventSeq row + 1"
  "r_selectOnSuccess (next_seq row) = r_selectOnSuccess row"
  "r_toolRequestsUsed (next_seq row) = r_toolRequestsUsed row"
  "r_createdAt (next_seq row) = r_createdAt row" "r_startedAt (next_seq row) = r_startedAt row"
  "r_finishedAt (next_seq row) = r_finishedAt row"
  "r_cancelRequestedAt (next_seq row) = r_cancelRequestedAt row"
  "r_memoryStatus (next_seq row) = r_memoryStatus row"
  "active_row (next_seq row) = active_row row"
  by (simp_all add: next_seq_def active_row_def)

lemma run_check_next [simp]: "run_check (next_seq row) = run_check row"
  by (simp add: run_check_def split: run_status.splits)

lemma opened_next:
  assumes "opened rs es row evs"
  shows "opened rs es (next_seq row) (evs @ [appended row payload now])"
  using assms unfolding opened_def by (auto simp: appended_def intro: le_SucI; meson le_SucI)

lemma appendEventInTx_opened:
  assumes "opened (runs db) (events db) row evs" "payload_ok payload" "rid = r_id row" "n = r_eventSeq row"
  shows "appendEventInTx rid n payload now (with_run row evs db) =
     Inr (n + 1, with_run (next_seq row) (evs @ [appended row payload now]) db)"
proof -
  let ?row = "row\<lparr>r_eventSeq := r_eventSeq row + 1\<rparr>"
  have o: "opened (runs db) (events db) (next_seq row) evs"
    using assms(1) unfolding opened_def by (auto intro: le_SucI; meson le_SucI)
  then have u: "update_runs (\<lambda>r. r_id r = r_id row \<and> r_eventSeq r = r_eventSeq row)
      (\<lambda>r. r\<lparr>r_eventSeq := r_eventSeq row + 1\<rparr>) (with_run row evs db) =
     Inr (1, with_run ?row evs db)"
    by (intro update_runs_opened [where g = "\<lambda>r. r_eventSeq r = r_eventSeq row"])
      (simp_all add: assms(1) next_seq_def)
  have bound: "ev_seq e \<le> r_eventSeq row"
    if e: "e \<in> set (events db) \<or> e \<in> set evs" "ev_runId e = r_id row" for e
  proof -
    obtain old where old: "old \<in> set (runs db)" "r_id old = r_id row" "r_eventSeq old \<le> r_eventSeq row"
      using assms(1) by (auto simp: opened_def)
    show ?thesis
      using e(1)
    proof
      assume "e \<in> set (events db)"
      then obtain r where "r \<in> set (runs db)" "r_id r = ev_runId e" "ev_seq e \<le> r_eventSeq r"
        using assms(1) by (auto simp: opened_def journal_bounded_def)
      moreover have "r = old"
        using calculation old e(2) assms(1) distinct_key_eq [of r_id "runs db" r old]
        by (simp add: opened_def runs_ok_def)
      ultimately show ?thesis using old by simp
    next
      assume "e \<in> set evs"
      then show ?thesis using assms(1) by (auto simp: opened_def)
    qed
  qed
  have fresh: "(r_id row, r_eventSeq row + 1) \<notin> set (map (\<lambda>e. (ev_runId e, ev_seq e)) (events db @ evs))"
  proof
    assume "(r_id row, r_eventSeq row + 1) \<in> set (map (\<lambda>e. (ev_runId e, ev_seq e)) (events db @ evs))"
    then obtain e where e: "(r_id row, r_eventSeq row + 1) = (ev_runId e, ev_seq e)"
      and "e \<in> set (events db @ evs)"
      unfolding set_map by (rule imageE)
    then have "ev_seq e \<le> r_eventSeq row"
      by (intro bound) auto
    then show False using e by simp
  qed
  have "readRun (with_run ?row evs db) (r_id row) \<noteq> None"
    using opened_row_in [OF o] by (auto simp: readRun_def find_None_iff next_seq_def)
  then have i: "insert_event \<lparr>ev_runId = r_id row, ev_seq = r_eventSeq row + 1, ev_payload = payload,
      ev_createdAt = now\<rparr> (with_run ?row evs db) =
     Inr (with_run (next_seq row) (evs @ [appended row payload now]) db)"
    using fresh by (auto simp: insert_event_def appended_def next_seq_def with_run_def)
  show ?thesis
    using assms(2-4) u i by (simp add: appendEventInTx_def Let_def)
qed

lemma readRun_opened: "opened (runs db) (events db) row evs \<Longrightarrow> readRun (with_run row evs db) (r_id row) = Some row"
  by (auto simp: readRun_def find_put_row opened_def) (metis rev_image_eqI)+

lemma readRun_Some: "readRun db rid = Some row \<Longrightarrow> row \<in> set (runs db) \<and> r_id row = rid"
  unfolding readRun_def by (rule find_key_Some)

subsection \<open>The journal automaton\<close>

text \<open>
  The status after an event. An action run (\<open>m5\<close>) is cancelled out of \<open>running\<close> in one step; any other
  run passes through \<open>cancel_requested\<close>. Nothing follows a terminal event.
\<close>

definition status_after :: "bool \<Rightarrow> run_status \<Rightarrow> payload_ev \<Rightarrow> run_status option" where
  "status_after m5 s p =
     (case p of
        Run_queued _ \<Rightarrow> None
      | Run_started _ \<Rightarrow> if s = Queued then Some Running else None
      | Run_cancel_requested \<Rightarrow> if s = Running \<and> \<not> m5 then Some Cancel_requested else None
      | Run_completed _ \<Rightarrow> if s = Running then Some Completed else None
      | Run_failed _ \<Rightarrow> if s = Running then Some Failed else None
      | Run_cancelled \<Rightarrow>
          if s = Queued \<or> s = Cancel_requested \<or> m5 \<and> s = Running then Some Cancelled else None
      | Run_abandoned _ \<Rightarrow> if s = Running then Some Abandoned else None
      | _ \<Rightarrow> if isTerminalStatus s then None else Some s)"

fun follow :: "bool \<Rightarrow> run_status \<Rightarrow> payload_ev list \<Rightarrow> run_status option" where
  "follow m5 s [] = Some s"
| "follow m5 s (p # ps) = (case status_after m5 s p of None \<Rightarrow> None | Some s' \<Rightarrow> follow m5 s' ps)"

fun journal_status :: "bool \<Rightarrow> payload_ev list \<Rightarrow> run_status option" where
  "journal_status m5 (Run_queued a # ps) = follow m5 Queued ps"
| "journal_status m5 _ = None"

definition m5_strategy :: jstr where
  "m5_strategy = js ''m5-action''"

definition is_m5 :: "run_row \<Rightarrow> bool" where
  "is_m5 r \<longleftrightarrow> r_strategy r = m5_strategy"

definition run_journal_ok :: "run_event list \<Rightarrow> run_row \<Rightarrow> bool" where
  "run_journal_ok es r \<longleftrightarrow>
     (let mine = filter (\<lambda>e. ev_runId e = r_id r) es in
      map ev_seq mine = [1..<Suc (r_eventSeq r)] \<and>
      journal_status (is_m5 r) (map ev_payload mine) = Some (r_status r) \<and>
      list_all payload_ok (map ev_payload mine))"

definition journal_ok :: "run_row list \<Rightarrow> run_event list \<Rightarrow> bool" where
  "journal_ok rs es \<longleftrightarrow> list_all (run_journal_ok es) rs \<and>
     (\<forall>e \<in> set es. ev_runId e \<in> set (map r_id rs))"

lemma follow_append:
  "follow m5 s (ps @ qs) = (case follow m5 s ps of None \<Rightarrow> None | Some s' \<Rightarrow> follow m5 s' qs)"
  by (induction ps arbitrary: s) (auto split: option.splits)

lemma journal_status_append:
  "journal_status m5 ps = Some s \<Longrightarrow> journal_status m5 (ps @ qs) = follow m5 s qs"
  by (cases "(m5, ps)" rule: journal_status.cases) (auto simp: follow_append)

lemma status_after_terminal: "isTerminalStatus s \<Longrightarrow> status_after m5 s p = None"
  by (cases p; cases s) (simp_all add: status_after_def)

lemma follow_terminal: "isTerminalStatus s \<Longrightarrow> follow m5 s ps = Some s' \<Longrightarrow> ps = [] \<and> s' = s"
  by (cases ps) (auto simp: status_after_terminal)

text \<open>A status is terminal exactly after a terminal event.\<close>

lemma status_after_kind: "status_after m5 s p = Some s' \<Longrightarrow> isTerminalStatus s' \<longleftrightarrow> isTerminalEvent p"
  by (cases p) (auto simp: status_after_def split: if_splits)

lemma follow_kind:
  "follow m5 s ps = Some s' \<Longrightarrow> ps \<noteq> [] \<Longrightarrow>
     (isTerminalStatus s' \<longleftrightarrow> isTerminalEvent (last ps)) \<and> (\<forall>p \<in> set (butlast ps). \<not> isTerminalEvent p)"
proof (induction ps arbitrary: s)
  case Nil
  then show ?case by simp
next
  case (Cons p ps)
  then obtain t where t: "status_after m5 s p = Some t" "follow m5 t ps = Some s'"
    by (auto split: option.splits)
  show ?case
  proof (cases "ps = []")
    case True
    then show ?thesis using t status_after_kind by auto
  next
    case False
    then have "\<not> isTerminalStatus t"
      using t(2) follow_terminal by blast
    then show ?thesis
      using Cons.IH [OF t(2) False] t(1) status_after_kind False by auto
  qed
qed

lemma journal_bounded_ok: "journal_ok rs es \<Longrightarrow> journal_bounded rs es"
  unfolding journal_bounded_def
proof
  fix e assume j: "journal_ok rs es" and e: "e \<in> set es"
  then obtain r where r: "r \<in> set rs" "r_id r = ev_runId e"
    by (auto simp: journal_ok_def)
  then have "map ev_seq (filter (\<lambda>e. ev_runId e = r_id r) es) = [1..<Suc (r_eventSeq r)]"
    using j by (auto simp: journal_ok_def list_all_iff run_journal_ok_def Let_def)
  moreover have "ev_seq e \<in> set (map ev_seq (filter (\<lambda>e. ev_runId e = r_id r) es))"
    using e r by auto
  ultimately have "ev_seq e \<in> set [1..<Suc (r_eventSeq r)]"
    by metis
  then show "\<exists>r \<in> set rs. r_id r = ev_runId e \<and> 1 \<le> ev_seq e \<and> ev_seq e \<le> r_eventSeq r"
    using r by auto
qed

text \<open>A transition whose events lead from the old status to the new one keeps the journals.\<close>

definition extends :: "run_row \<Rightarrow> run_row \<Rightarrow> run_event list \<Rightarrow> bool" where
  "extends old row evs \<longleftrightarrow> r_id row = r_id old \<and> r_strategy row = r_strategy old \<and>
     map ev_seq evs = [Suc (r_eventSeq old)..<Suc (r_eventSeq row)] \<and> r_eventSeq old \<le> r_eventSeq row \<and>
     list_all (\<lambda>e. ev_runId e = r_id old \<and> payload_ok (ev_payload e)) evs \<and>
     follow (is_m5 old) (r_status old) (map ev_payload evs) = Some (r_status row)"

lemma upt_join: "m \<le> n \<Longrightarrow> [1..<Suc m] @ [Suc m..<Suc n] = [1..<Suc n]"
  using upt_add_eq_append [of 1 "Suc m" "n - m"] by (simp del: upt_Suc)

lemma journal_ok_put:
  assumes j: "journal_ok rs es" and d: "distinct (map r_id rs)" and old: "old \<in> set rs"
    and x: "extends old row evs"
  shows "journal_ok (put_row r_id row rs) (es @ evs)"
proof -
  have ids: "r_id row = r_id old"
    using x by (simp add: extends_def)
  have mine: "filter (\<lambda>e. ev_runId e = r_id old) evs = evs"
    using x by (auto simp: extends_def list_all_iff filter_id_conv)
  have others: "filter (\<lambda>e. ev_runId e = i) evs = []" if "i \<noteq> r_id old" for i
    using x that by (auto simp: extends_def list_all_iff filter_empty_conv)
  have o: "run_journal_ok es old"
    using j old by (auto simp: journal_ok_def list_all_iff)
  have r: "run_journal_ok (es @ evs) row"
    using o x mine upt_join [of "r_eventSeq old" "r_eventSeq row"]
    unfolding run_journal_ok_def Let_def extends_def
    by (auto simp: is_m5_def journal_status_append list_all_iff ids simp del: upt_Suc)
  have "run_journal_ok (es @ evs) q" if "q \<in> set rs" "q \<noteq> old" for q
  proof -
    have "r_id q \<noteq> r_id old"
      using that old d by (auto dest: distinct_key_eq)
    then show ?thesis
      using that j others by (simp add: journal_ok_def list_all_iff run_journal_ok_def)
  qed
  then have "list_all (run_journal_ok (es @ evs)) (put_row r_id row rs)"
    using r set_put_row [OF d old ids] by (auto simp: list_all_iff)
  moreover have "\<forall>e \<in> set (es @ evs). ev_runId e \<in> set (map r_id (put_row r_id row rs))"
    unfolding map_key_put_row using j x old by (auto simp: journal_ok_def extends_def list_all_iff)
  ultimately show ?thesis
    by (simp add: journal_ok_def)
qed

end
