(* ===== verification/Action_Runs.thy ===== *)
theory Action_Runs
  imports Run_Journal
begin

text \<open>
  The action execution service (packages/kernel/src/action_executions.ts): the atomic boundaries of an
  approved calendar write. An execution goes from \<open>queued\<close> to \<open>preflight\<close> with its run's pickup, to
  \<open>executing\<close> when its one-shot grant is consumed (which commits the external-call marker), and to a
  terminal status with a receipt. SHA-256 is the parameter \<open>H\<close>; the ends that a read-back verifies are in
  Action_Ends.
\<close>

definition action_id_ok :: "jstr \<Rightarrow> bool" where
  "action_id_ok s \<longleftrightarrow> length s = 36 \<and> list_all (\<lambda>u. is_hex u \<or> u = 45) s"

definition assertActionRun :: "jstr \<Rightarrow> db \<Rightarrow> kerr + run_row" where
  "assertActionRun rid db = (case readRun db rid of None \<Rightarrow> Inl NotFound | Some row \<Rightarrow> Inr row)"

text \<open>A transaction that first checks its arguments.\<close>

definition checked :: "bool \<Rightarrow> 'a tx \<Rightarrow> db \<Rightarrow> (kerr + 'a) \<times> db" where
  "checked ok body db = (if ok then withImmediate body db else (Inl Validation, db))"

text \<open>An update that must change exactly one row, or the transition is retried.\<close>

definition one_row :: "kerr + (nat \<times> db) \<Rightarrow> kerr + db" where
  "one_row m = rbind m (\<lambda>(changes, db). if changes \<noteq> 1 then Inl Concurrent_conflict else Inr db)"

lemma one_row_simps [simp]: "one_row (Inr (1, db)) = Inr db" "one_row (Inl e) = Inl e"
  by (simp_all add: one_row_def)

subsection \<open>Pickup\<close>

datatype pickup = Picked jstr | Not_queued run_status

definition startActionRun :: "jstr \<Rightarrow> int \<Rightarrow> db \<Rightarrow> (kerr + pickup) \<times> db" where
  "startActionRun rid now =
     checked (action_id_ok rid) (\<lambda>db.
       rbind (assertActionRun rid db) (\<lambda>run.
         if r_status run \<noteq> Queued then Inr (Not_queued (r_status run), db)
         else case readExecutionByRun db rid of
           None \<Rightarrow> Inl Database_state_invalid
         | Some execution \<Rightarrow>
             if x_status execution \<noteq> Ex_queued then Inl Database_state_invalid
             else rbind (one_row (update_runs (\<lambda>r. r_id r = rid \<and> r_status r = Queued)
                      (\<lambda>r. r\<lparr>r_status := Running, r_startedAt := Some now\<rparr>) db)) (\<lambda>db1.
                  rbind (one_row (update_executions
                      (\<lambda>x. x_id x = x_id execution \<and> x_status x = Ex_queued)
                      (\<lambda>x. x\<lparr>x_status := Ex_preflight, x_executionUpdatedAt := now\<rparr>) db1)) (\<lambda>db2.
                  rbind (appendEventInTx rid (r_eventSeq run) (Run_started (int (r_attempt run))) now db2)
                    (\<lambda>(startedSeq, db3).
                  rbind (appendEventInTx rid startedSeq (Action_preflight_started (x_id execution)) now db3)
                    (\<lambda>(_, db4). Inr (Picked (x_id execution), db4)))))))"

definition requirePreflightStage ::
  "jstr \<Rightarrow> db \<Rightarrow> kerr + (run_row \<times> execution_row \<times> proposal_row)" where
  "requirePreflightStage rid db =
     rbind (assertActionRun rid db) (\<lambda>run.
       if r_status run \<noteq> Running then Inl Database_state_invalid
       else case readExecutionByRun db rid of
         None \<Rightarrow> Inl Database_state_invalid
       | Some execution \<Rightarrow>
           if x_status execution \<noteq> Ex_preflight \<or> x_callStartedAt execution \<noteq> None \<or>
              x_finishedAt execution \<noteq> None then Inl Database_state_invalid
           else case readProposal db (x_proposal execution) of
             None \<Rightarrow> Inl Database_state_invalid
           | Some proposal \<Rightarrow>
               if p_status proposal \<noteq> Approved then Inl Database_state_invalid
               else Inr (run, execution, proposal))"

subsection \<open>Receipts and result texts\<close>

definition renderedPreviewSummary :: "proposal_row \<Rightarrow> jstr" where
  "renderedPreviewSummary proposal =
     (let summary = p_preview proposal; tool = js ''calendar.reschedule:'';
          withoutTool = (if starts_with summary tool then trim (drop (length tool) summary)
                         else trim summary)
      in if length withoutTool > 0 then withoutTool else js ''schedule update'')"

definition em_dash :: jstr where
  "em_dash = [32, 8212, 32]"

definition safeActionOutcomeText :: "receipt_outcome \<Rightarrow> jstr" where
  "safeActionOutcomeText outcome =
     (case outcome of
        Rcp_succeeded \<Rightarrow> js ''verified and confirmed''
      | Rcp_succeeded_unverified \<Rightarrow>
          js ''finished but not verified'' @ em_dash @ js ''please check the external calendar''
      | Rcp_blocked_stale \<Rightarrow> js ''not applied (source changed)'' @ em_dash @ js ''please check manually''
      | Rcp_failed \<Rightarrow> js ''failed'' @ em_dash @ js ''please check manually''
      | Rcp_unknown \<Rightarrow> js ''result unknown'' @ em_dash @ js ''please check the external calendar'')"

definition actionRunResultText :: "receipt_outcome \<Rightarrow> proposal_row \<Rightarrow> jstr" where
  "actionRunResultText outcome proposal =
     renderedPreviewSummary proposal @ em_dash @ safeActionOutcomeText outcome"

definition insertReceipt ::
  "execution_row \<Rightarrow> proposal_row \<Rightarrow> receipt_outcome \<Rightarrow> jstr option \<Rightarrow> jstr option \<Rightarrow> int \<Rightarrow> db \<Rightarrow> kerr + db"
where
  "insertReceipt execution proposal outcome preflightRevision preflightSnapshotId now db =
     insert_receipt \<lparr>rc_execution = x_id execution, rc_session = x_sessionId execution,
       rc_proposal = p_id proposal, rc_proposalHash = p_hash proposal, rc_outcome = outcome,
       rc_preflightRevision = preflightRevision, rc_preflightSnapshot = preflightSnapshotId,
       rc_observedRevision = None, rc_resultSnapshot = None, rc_summary = p_preview proposal,
       rc_createdAt = now\<rparr> db"

definition unmarked_preflight :: "execution_row \<Rightarrow> execution_row \<Rightarrow> bool" where
  "unmarked_preflight execution x \<longleftrightarrow> x_id x = x_id execution \<and> x_status x = Ex_preflight \<and>
     x_callStartedAt x = None \<and> x_finishedAt x = None"

definition select_run :: "run_row \<Rightarrow> int \<Rightarrow> db \<Rightarrow> kerr + db" where
  "select_run run now db =
     (if r_selectOnSuccess run
      then upsert_selection \<lparr>sel_turn = r_turn run, sel_run = r_id run, sel_at = now\<rparr> db
      else Inr db)"

subsection \<open>Preflight terminals\<close>

datatype finish_skip = Run_not_running | Execution_not_in_stage

text \<open>The result of a terminal boundary: not applied and why, or the execution and its last event.\<close>

type_synonym terminal_result = "finish_skip + (jstr \<times> nat)"

definition recordActionPreflightFailure :: "jstr \<Rightarrow> int \<Rightarrow> db \<Rightarrow> (kerr + terminal_result) \<times> db" where
  "recordActionPreflightFailure rid now =
     checked (action_id_ok rid) (\<lambda>db.
       rbind (assertActionRun rid db) (\<lambda>run.
         if r_status run \<noteq> Running then Inr (Inl Run_not_running, db)
         else case requirePreflightStage rid db of
           Inl _ \<Rightarrow> Inl Database_state_invalid
         | Inr (_, execution, proposal) \<Rightarrow>
             rbind (update_executions (unmarked_preflight execution)
                 (\<lambda>x. x\<lparr>x_status := Ex_failed, x_errorCode := Some (js ''action_preflight_failed''),
                        x_finishedAt := Some now, x_executionUpdatedAt := now\<rparr>) db) (\<lambda>(changes, db1).
             if changes \<noteq> 1 then Inr (Inl Execution_not_in_stage, db1)
             else rbind (insertReceipt execution proposal Rcp_failed None None now db1) (\<lambda>db2.
               rbind (appendEventInTx rid (r_eventSeq run)
                   (Action_preflight_failed (x_id execution) (js ''action_preflight_failed'')) now db2)
                 (\<lambda>(sq, db3).
               rbind (one_row (update_runs (\<lambda>r. r_id r = rid \<and> r_status r = Running)
                   (\<lambda>r. r\<lparr>r_status := Failed, r_errorCode := Some (js ''execution_failed''),
                          r_finishedAt := Some now\<rparr>) db3)) (\<lambda>db4.
               rbind (appendEventInTx rid sq (Run_failed (js ''execution_failed'')) now db4) (\<lambda>(_, db5).
                 Inr (Inr (x_id execution, sq + 1), db5))))))))"

definition recordActionPreflightBlocked ::
  "jstr \<Rightarrow> jstr \<Rightarrow> int \<Rightarrow> db \<Rightarrow> (kerr + terminal_result) \<times> db" where
  "recordActionPreflightBlocked rid preflightRevision now =
     checked (action_id_ok rid \<and> source_revision_ok preflightRevision) (\<lambda>db.
       rbind (assertActionRun rid db) (\<lambda>run.
         if r_status run \<noteq> Running then Inr (Inl Run_not_running, db)
         else rbind (requirePreflightStage rid db) (\<lambda>(_, execution, proposal).
           case p_snapshot proposal of
             None \<Rightarrow> Inl Validation
           | Some blockedSnapshotId \<Rightarrow>
             rbind (update_executions (unmarked_preflight execution)
                 (\<lambda>x. x\<lparr>x_status := Ex_blocked_stale, x_finishedAt := Some now,
                        x_executionUpdatedAt := now\<rparr>) db) (\<lambda>(changes, db1).
             if changes \<noteq> 1 then Inr (Inl Execution_not_in_stage, db1)
             else rbind (insertReceipt execution proposal Rcp_blocked_stale (Some preflightRevision)
                     (Some blockedSnapshotId) now db1) (\<lambda>db2.
               rbind (appendEventInTx rid (r_eventSeq run)
                   (Action_preflight_blocked (x_id execution) preflightRevision blockedSnapshotId) now db2)
                 (\<lambda>(seq1, db3).
               rbind (appendEventInTx rid seq1
                   (Action_execution_finished (x_id execution) Rcp_blocked_stale) now db3) (\<lambda>(seq2, db4).
               let safeResult = Result_v1 (actionRunResultText Rcp_blocked_stale proposal) in
               if \<not> run_result_ok safeResult then Inl Validation
               else rbind (one_row (update_runs (\<lambda>r. r_id r = rid \<and> r_status r = Running)
                   (\<lambda>r. r\<lparr>r_status := Completed, r_result := Some safeResult, r_finishedAt := Some now\<rparr>)
                   db4)) (\<lambda>db5.
               rbind (appendEventInTx rid seq2 (Run_completed safeResult) now db5) (\<lambda>(_, db6).
               rbind (select_run run now db6) (\<lambda>db7.
                 Inr (Inr (x_id execution, seq2 + 2), db7)))))))))))"

subsection \<open>The grant gate\<close>

datatype grant_denial =
  G_run_not_running | G_execution_not_preflight | G_proposal_not_approved | G_grant_missing | G_grant_consumed

record committed_grant =
  cg_execution :: jstr
  cg_proposal :: jstr
  cg_proposalHash :: jstr
  cg_tool :: jstr
  cg_inputHash :: jstr
  cg_expectedRevision :: "jstr option"
  cg_consumedAt :: int

definition input_hash :: "(jstr \<Rightarrow> jstr) \<Rightarrow> action_input \<Rightarrow> jstr" where
  "input_hash H i = H (stringify (canonicalize (action_input_json i)))"

text \<open>The stored input, read by the schema of the proposal's tool.\<close>

definition proposed_input :: "proposal_row \<Rightarrow> kerr + action_input" where
  "proposed_input proposal =
     (if is_create_input (p_input proposal) = (p_tool proposal = js ''calendar.create'') \<and>
         action_input_ok (p_input proposal)
      then Inr (p_input proposal) else Inl Zod_error)"

definition consumeActionGrant ::
  "(jstr \<Rightarrow> jstr) \<Rightarrow> jstr \<Rightarrow> int \<Rightarrow> db \<Rightarrow> (kerr + grant_denial + committed_grant) \<times> db" where
  "consumeActionGrant H rid now =
     checked (action_id_ok rid) (\<lambda>db.
       rbind (assertActionRun rid db) (\<lambda>run.
       if r_status run \<noteq> Running then Inr (Inl G_run_not_running, db)
       else case readExecutionByRun db rid of
         None \<Rightarrow> Inl Database_state_invalid
       | Some execution \<Rightarrow>
         if x_status execution \<noteq> Ex_preflight \<or> x_callStartedAt execution \<noteq> None
         then Inr (Inl G_execution_not_preflight, db)
         else case readProposal db (x_proposal execution) of
           None \<Rightarrow> Inr (Inl G_proposal_not_approved, db)
         | Some proposal \<Rightarrow>
           if p_status proposal \<noteq> Approved then Inr (Inl G_proposal_not_approved, db)
           else case readGrant db (x_id execution) of
             None \<Rightarrow> Inr (Inl G_grant_missing, db)
           | Some grant \<Rightarrow>
             if gr_execution grant \<noteq> x_id execution \<or> gr_proposal grant \<noteq> p_id proposal \<or>
                gr_session grant \<noteq> r_session run \<or> gr_proposalHash grant \<noteq> p_hash proposal \<or>
                gr_tool grant \<noteq> p_tool proposal
             then Inl Database_state_invalid
             else rbind (proposed_input proposal) (\<lambda>i.
               if input_hash H i \<noteq> gr_inputHash grant then Inl Database_state_invalid
               else rbind (update_grants
                   (\<lambda>g. gr_execution g = x_id execution \<and> gr_consumedAt g = None)
                   (\<lambda>g. g\<lparr>gr_consumedAt := Some now\<rparr>) db) (\<lambda>(changes, db1).
               if changes \<noteq> 1 then Inr (Inl G_grant_consumed, db1)
               else rbind (one_row (update_executions (unmarked_preflight execution)
                   (\<lambda>x. x\<lparr>x_status := Ex_executing, x_callStartedAt := Some now,
                          x_executionUpdatedAt := now\<rparr>) db1)) (\<lambda>db2.
               rbind (appendEventInTx rid (r_eventSeq run)
                   (Action_execution_started (x_id execution)) now db2) (\<lambda>(_, db3).
                 Inr (Inr \<lparr>cg_execution = x_id execution, cg_proposal = p_id proposal,
                        cg_proposalHash = p_hash proposal, cg_tool = p_tool proposal,
                        cg_inputHash = gr_inputHash grant, cg_expectedRevision = p_revision proposal,
                        cg_consumedAt = now\<rparr>, db3)))))))"

subsection \<open>Cancellation\<close>

text \<open>The run's status after the call, and the last event when the cancellation was applied.\<close>

definition cancelActionRun ::
  "jstr \<Rightarrow> jstr \<Rightarrow> int \<Rightarrow> db \<Rightarrow> (kerr + run_status \<times> nat option) \<times> db" where
  "cancelActionRun sid rid now =
     checked (action_id_ok sid \<and> action_id_ok rid) (\<lambda>db.
       rbind (assertActionRun rid db) (\<lambda>run.
       if r_session run \<noteq> sid then Inl NotFound
       else if isTerminalStatus (r_status run) then Inr ((r_status run, None), db)
       else case readExecutionByRun db rid of
         None \<Rightarrow> Inl Database_state_invalid
       | Some execution \<Rightarrow>
         if x_callStartedAt execution \<noteq> None then Inl (Action_not_cancellable rid)
         else if x_status execution \<noteq> Ex_queued \<and> x_status execution \<noteq> Ex_preflight \<or>
                 x_finishedAt execution \<noteq> None then Inl Database_state_invalid
         else case readProposal db (x_proposal execution) of
           None \<Rightarrow> Inl Database_state_invalid
         | Some proposal \<Rightarrow>
           rbind (one_row (update_runs
               (\<lambda>r. r_id r = rid \<and> r_status r \<in> {Queued, Running, Cancel_requested} \<and> r_finishedAt r = None)
               (\<lambda>r. r\<lparr>r_status := Cancelled, r_cancelRequestedAt := Some now, r_finishedAt := Some now\<rparr>)
               db)) (\<lambda>db1.
           rbind (one_row (update_executions
               (\<lambda>x. x_id x = x_id execution \<and> x_status x \<in> {Ex_queued, Ex_preflight} \<and>
                    x_callStartedAt x = None \<and> x_finishedAt x = None)
               (\<lambda>x. x\<lparr>x_status := Ex_failed, x_errorCode := Some (js ''action_cancelled_before_write''),
                      x_finishedAt := Some now, x_executionUpdatedAt := now\<rparr>) db1)) (\<lambda>db2.
           rbind (insertReceipt execution proposal Rcp_failed None None now db2) (\<lambda>db3.
           rbind (appendEventInTx rid (r_eventSeq run)
               (Action_execution_finished (x_id execution) Rcp_failed) now db3) (\<lambda>(sq, db4).
           rbind (appendEventInTx rid sq Run_cancelled now db4) (\<lambda>(eventSeq, db5).
             Inr ((Cancelled, Some eventSeq), db5))))))))"

subsection \<open>The end of a write\<close>

definition assertExecutingStage :: "jstr \<Rightarrow> db \<Rightarrow> kerr + (execution_row \<times> proposal_row)" where
  "assertExecutingStage rid db =
     (case readExecutionByRun db rid of
        None \<Rightarrow> Inl Database_state_invalid
      | Some execution \<Rightarrow>
          if x_status execution \<noteq> Ex_executing \<or> x_callStartedAt execution = None \<or>
             x_finishedAt execution \<noteq> None then Inl Database_state_invalid
          else case readProposal db (x_proposal execution) of
            None \<Rightarrow> Inl Database_state_invalid
          | Some proposal \<Rightarrow>
              if p_status proposal \<noteq> Approved then Inl Database_state_invalid
              else Inr (execution, proposal))"

text \<open>The three plain outcomes, with the status they give the execution.\<close>

datatype plain_outcome = Plain_unverified | Plain_failed | Plain_unknown

fun outcome_receipt :: "plain_outcome \<Rightarrow> receipt_outcome" where
  "outcome_receipt Plain_unverified = Rcp_succeeded_unverified"
| "outcome_receipt Plain_failed = Rcp_failed"
| "outcome_receipt Plain_unknown = Rcp_unknown"

fun outcome_status :: "plain_outcome \<Rightarrow> execution_status" where
  "outcome_status Plain_unverified = Ex_succeeded_unverified"
| "outcome_status Plain_failed = Ex_failed"
| "outcome_status Plain_unknown = Ex_unknown"

definition finishPlainTerminal ::
  "jstr \<Rightarrow> plain_outcome \<Rightarrow> jstr option \<Rightarrow> jstr option \<Rightarrow> int \<Rightarrow> db \<Rightarrow> (kerr + terminal_result) \<times> db"
where
  "finishPlainTerminal rid outcome preflightRevision preflightSnapshotId now =
     withImmediate (\<lambda>db.
       rbind (assertActionRun rid db) (\<lambda>run.
       if r_status run \<noteq> Running then Inr (Inl Run_not_running, db)
       else rbind (assertExecutingStage rid db) (\<lambda>(execution, proposal).
         rbind (update_executions
             (\<lambda>x. x_id x = x_id execution \<and> x_status x = Ex_executing \<and> x_callStartedAt x \<noteq> None \<and>
                  x_finishedAt x = None)
             (\<lambda>x. x\<lparr>x_status := outcome_status outcome,
                    x_errorCode := (if outcome = Plain_failed then Some (js ''action_write_failed'') else None),
                    x_finishedAt := Some now, x_executionUpdatedAt := now\<rparr>) db) (\<lambda>(changes, db1).
         if changes \<noteq> 1 then Inr (Inl Execution_not_in_stage, db1)
         else rbind (insertReceipt execution proposal (outcome_receipt outcome) preflightRevision
                 preflightSnapshotId now db1) (\<lambda>db2.
         rbind (assertActionRun rid db2) (\<lambda>current.
         rbind (appendEventInTx rid (r_eventSeq current)
             (Action_execution_finished (x_id execution) (outcome_receipt outcome)) now db2) (\<lambda>(sq, db3).
         let runResult = Result_v1 (actionRunResultText (outcome_receipt outcome) proposal) in
         if \<not> run_result_ok runResult then Inl Validation
         else rbind (one_row (update_runs (\<lambda>r. r_id r = rid \<and> r_status r = Running)
             (\<lambda>r. if outcome = Plain_unverified
                  then r\<lparr>r_status := Completed, r_result := Some runResult, r_errorCode := None,
                         r_finishedAt := Some now\<rparr>
                  else r\<lparr>r_status := Failed, r_errorCode := Some (js ''execution_failed''),
                         r_result := None, r_finishedAt := Some now\<rparr>) db3)) (\<lambda>db4.
         rbind (appendEventInTx rid sq
             (if outcome = Plain_unverified then Run_completed runResult
              else Run_failed (js ''execution_failed'')) now db4) (\<lambda>(eventSeq, db5).
         rbind (if outcome = Plain_unverified then select_run run now db5 else Inr db5) (\<lambda>db6.
           Inr (Inr (x_id execution, eventSeq), db6)))))))))))"

subsection \<open>Recovery\<close>

datatype recovery_plan = Unchanged | Abandon_pre_marker | Abandon_post_marker

definition terminal_execution :: "execution_status \<Rightarrow> receipt_outcome option" where
  "terminal_execution s =
     (case s of
        Ex_succeeded \<Rightarrow> Some Rcp_succeeded
      | Ex_succeeded_unverified \<Rightarrow> Some Rcp_succeeded_unverified
      | Ex_blocked_stale \<Rightarrow> Some Rcp_blocked_stale
      | Ex_failed \<Rightarrow> Some Rcp_failed
      | Ex_unknown \<Rightarrow> Some Rcp_unknown
      | _ \<Rightarrow> None)"

definition classifyActionPair :: "db \<Rightarrow> run_row \<Rightarrow> execution_row \<Rightarrow> kerr + recovery_plan" where
  "classifyActionPair db run execution =
     (let markered = (x_callStartedAt execution \<noteq> None); finished = (x_finishedAt execution \<noteq> None);
          consumedAt = map_option gr_consumedAt (readGrant db (x_id execution)) in
      if r_status run = Queued then
        if x_status execution = Ex_queued \<and> \<not> markered \<and> \<not> finished \<and> x_errorCode execution = None
        then Inr Unchanged else Inl Database_state_invalid
      else if r_status run = Running then
        if x_status execution = Ex_preflight \<and> \<not> markered \<and> \<not> finished then Inr Abandon_pre_marker
        else if x_status execution = Ex_executing \<and> markered \<and> \<not> finished then Inr Abandon_post_marker
        else Inl Database_state_invalid
      else if isTerminalStatus (r_status run) then
        if terminal_execution (x_status execution) = None \<or> \<not> finished then Inl Database_state_invalid
        else if x_status execution = Ex_failed \<and> \<not> markered \<and>
                consumedAt \<noteq> None \<and> consumedAt \<noteq> Some None then Inl Database_state_invalid
        else if x_status execution \<noteq> Ex_failed \<and>
                (x_status execution = Ex_succeeded \<or> x_status execution = Ex_succeeded_unverified \<or>
                 x_status execution = Ex_unknown) \<noteq> markered then Inl Database_state_invalid
        else if x_errorCode execution = None \<and> x_status execution = Ex_failed then Inl Database_state_invalid
        else if map_option rc_outcome (readReceipt db (x_id execution)) \<noteq>
                terminal_execution (x_status execution) then Inl Database_state_invalid
        else if markered \<and> consumedAt = Some None then Inl Database_state_invalid
        else Inr Unchanged
      else Inl Database_state_invalid)"

definition applyRecoveryAbandon ::
  "run_row \<Rightarrow> execution_row \<Rightarrow> recovery_plan \<Rightarrow> abandon_cause \<Rightarrow> int \<Rightarrow> db \<Rightarrow> kerr + db" where
  "applyRecoveryAbandon run execution plan cause now db =
     (if plan = Unchanged then Inr db
      else let outcome = (if plan = Abandon_pre_marker then Rcp_failed else Rcp_unknown) in
      case readProposal db (x_proposal execution) of
        None \<Rightarrow> Inl Database_state_invalid
      | Some proposal \<Rightarrow>
          rbind (one_row (update_executions
              (\<lambda>x. x_id x = x_id execution \<and> x_status x = x_status execution \<and>
                   (x_callStartedAt x = None \<longleftrightarrow> plan = Abandon_pre_marker) \<and> x_finishedAt x = None)
              (\<lambda>x. x\<lparr>x_status := (if plan = Abandon_pre_marker then Ex_failed else Ex_unknown),
                     x_errorCode := (if plan = Abandon_pre_marker
                       then Some (js ''action_recovery_abandoned_before_write'') else None),
                     x_finishedAt := Some now, x_executionUpdatedAt := now\<rparr>) db)) (\<lambda>db1.
          rbind (insertReceipt execution proposal outcome None None now db1) (\<lambda>db2.
          rbind (assertActionRun (r_id run) db2) (\<lambda>current.
          rbind (appendEventInTx (r_id run) (r_eventSeq current)
              (Action_execution_finished (x_id execution) outcome) now db2) (\<lambda>(sq, db3).
          rbind (one_row (update_runs
              (\<lambda>r. r_id r = r_id run \<and> r_status r = Running \<and> r_finishedAt r = None)
              (\<lambda>r. r\<lparr>r_status := Abandoned, r_finishedAt := Some now\<rparr>) db3)) (\<lambda>db4.
          rbind (appendEventInTx (r_id run) sq (Run_abandoned cause) now db4) (\<lambda>(_, db5). Inr db5)))))))"

text \<open>\<open>ORDER BY created_at, id\<close>: a stable sort by the key.\<close>

definition action_runs :: "db \<Rightarrow> run_row list" where
  "action_runs db = sort_key (\<lambda>r. (r_createdAt r, r_id r)) (filter is_m5 (runs db))"

fun planActionRuns :: "db \<Rightarrow> run_row list \<Rightarrow> kerr + (run_row \<times> execution_row \<times> recovery_plan) list" where
  "planActionRuns db [] = Inr []"
| "planActionRuns db (run # rs) =
     (case readExecutionByRun db (r_id run) of
        None \<Rightarrow> Inl Database_state_invalid
      | Some execution \<Rightarrow>
          rbind (classifyActionPair db run execution) (\<lambda>plan.
          rbind (planActionRuns db rs) (\<lambda>plans. Inr ((run, execution, plan) # plans))))"

fun applyPlans ::
  "(run_row \<times> execution_row \<times> recovery_plan) list \<Rightarrow> abandon_cause \<Rightarrow> int \<Rightarrow> db \<Rightarrow> kerr + db" where
  "applyPlans [] cause now db = Inr db"
| "applyPlans ((run, execution, plan) # ps) cause now db =
     rbind (applyRecoveryAbandon run execution plan cause now db) (applyPlans ps cause now)"

text \<open>The summary counts the unchanged, the pre-marker and the post-marker pairs.\<close>

definition validateAndRecoverActionRuns ::
  "abandon_cause \<Rightarrow> int \<Rightarrow> db \<Rightarrow> (kerr + nat \<times> nat \<times> nat) \<times> db" where
  "validateAndRecoverActionRuns cause now =
     withImmediate (\<lambda>db.
       rbind (planActionRuns db (action_runs db)) (\<lambda>plans.
       rbind (applyPlans plans cause now db) (\<lambda>db1.
         let count = (\<lambda>k. length (filter (\<lambda>(_, _, plan). plan = k) plans)) in
         Inr ((count Unchanged, count Abandon_pre_marker, count Abandon_post_marker), db1))))"

definition recoverAbandonedActionRun ::
  "jstr \<Rightarrow> abandon_cause \<Rightarrow> int \<Rightarrow> db \<Rightarrow> (kerr + bool \<times> run_status) \<times> db" where
  "recoverAbandonedActionRun rid cause now =
     checked (action_id_ok rid) (\<lambda>db.
       rbind (assertActionRun rid db) (\<lambda>run.
       if r_status run \<noteq> Running then Inr ((False, r_status run), db)
       else case readExecutionByRun db rid of
         None \<Rightarrow> Inl Database_state_invalid
       | Some execution \<Rightarrow>
         rbind (classifyActionPair db run execution) (\<lambda>plan.
           if plan = Unchanged then Inr ((False, r_status run), db)
           else rbind (applyRecoveryAbandon run execution plan cause now db) (\<lambda>db1.
             Inr ((True, Abandoned), db1)))))"

end
