(* ===== verification/Run_Repo.thy ===== *)
theory Run_Repo
  imports Action_Runs
begin

text \<open>
  The kernel repository (packages/kernel/src/repository.ts): sessions, messages, retries, decisions on
  proposals and the run transitions, each with its argument checks, its transaction and the calls
  it makes to the action execution service. The staged proposals of the repository's stager
  (action_proposals.ts) live in memory, outside the transaction, so the state of the kernel is the
  store with that map. Generated ids are arguments, in the order the code generates them.
\<close>

text \<open>What a \<open>read\<close> after an update returns.\<close>

definition reread :: "jstr \<Rightarrow> db \<Rightarrow> kerr + run_row" where
  "reread rid db = (case readRun db rid of None \<Rightarrow> Inl NotFound | Some current \<Rightarrow> parseRunRow current)"

text \<open>An accepted response: its status, its body, and whether it was replayed.\<close>

type_synonym accepted = "int \<times> response_body \<times> bool"

fun parse_session_body :: "response_body \<Rightarrow> kerr + response_body" where
  "parse_session_body (Session_body sid createdAt) =
     (if uuid_ok sid \<and> unix_ms_ok createdAt then Inr (Session_body sid createdAt) else Inl Validation)"
| "parse_session_body _ = Inl Validation"

fun parse_run_body :: "response_body \<Rightarrow> kerr + response_body" where
  "parse_run_body (Run_body sid tid rid attempt) =
     (if uuid_ok sid \<and> uuid_ok tid \<and> uuid_ok rid \<and> 1 \<le> attempt then Inr (Run_body sid tid rid attempt)
      else Inl Validation)"
| "parse_run_body _ = Inl Validation"

fun parse_approve_body :: "response_body \<Rightarrow> kerr + response_body" where
  "parse_approve_body (Approve_body pid eid rid) =
     (if uuid_ok pid \<and> uuid_ok eid \<and> uuid_ok rid then Inr (Approve_body pid eid rid) else Inl Validation)"
| "parse_approve_body _ = Inl Validation"

text \<open>A constraint error of the inserts becomes \<open>session_busy\<close> when it is a uniqueness violation.\<close>

definition busy_guard :: "jstr \<Rightarrow> kerr + 'a \<Rightarrow> kerr + 'a" where
  "busy_guard sid m =
     (case m of Inl e \<Rightarrow> Inl (if isBusyConstraint e then Session_busy sid else e) | Inr x \<Rightarrow> Inr x)"

subsection \<open>Sessions, messages and retries\<close>

definition createSession :: "(jstr \<Rightarrow> jstr) \<Rightarrow> jstr \<Rightarrow> int \<Rightarrow> jstr \<Rightarrow> db \<Rightarrow> (kerr + accepted) \<times> db" where
  "createSession H key now freshId db =
     (if \<not> isUuidV4 key \<or> \<not> unix_ms_ok now then (Inl Validation, db)
      else case requestHash H (js ''create_session'') 1 (JObj []) of
        None \<Rightarrow> (Inl Type_error, db)
      | Some hash \<Rightarrow>
          withImmediate (\<lambda>db.
            let k = lower_ascii key; scope = js ''sessions:create'' in
            case toStoredResponse db scope k of
              Some existing \<Rightarrow>
                if i_hash existing \<noteq> hash then Inl (Idempotency_conflict scope)
                else rbind (parse_session_body (i_body existing)) (\<lambda>body.
                  Inr ((i_status existing, body, True), db))
            | None \<Rightarrow>
                rbind (insert_session \<lparr>s_id = freshId, s_createdAt = now, s_lastActiveAt = now,
                    s_nextTurnPosition = 1\<rparr> db) (\<lambda>db1.
                rbind (insert_context \<lparr>x_session = freshId, x_version = 1, x_items = [],
                    x_updatedAt = now\<rparr> db1) (\<lambda>db2.
                rbind (parse_session_body (Session_body freshId now)) (\<lambda>body.
                rbind (storeIdempotentResponse scope k hash 201 body now db2) (\<lambda>db3.
                  Inr ((201, body, False), db3)))))) db)"

record message_options =
  mo_key :: jstr
  mo_now :: int
  mo_strategy :: "jstr option"
  mo_selectOnSuccess :: "bool option"
  mo_timeZone :: "jstr option"

definition default_to :: "'a \<Rightarrow> 'a option \<Rightarrow> 'a" where
  "default_to d v = (case v of None \<Rightarrow> d | Some x \<Rightarrow> x)"

definition strategy_ok :: "jstr \<Rightarrow> bool" where
  "strategy_ok s \<longleftrightarrow> length s \<noteq> 0 \<and> length s \<le> 128"

definition queued_run :: "jstr \<Rightarrow> jstr \<Rightarrow> jstr \<Rightarrow> nat \<Rightarrow> jstr \<Rightarrow> bool \<Rightarrow> int \<Rightarrow> run_row" where
  "queued_run rid tid sid attempt strategy select now =
     \<lparr>r_id = rid, r_turn = tid, r_session = sid, r_attempt = attempt, r_status = Queued,
      r_strategy = strategy, r_result = None, r_errorCode = None, r_eventSeq = 0,
      r_selectOnSuccess = select, r_toolRequestsUsed = 0, r_createdAt = now, r_startedAt = None,
      r_finishedAt = None, r_cancelRequestedAt = None, r_memoryStatus = None\<rparr>"

text \<open>The turn, its first run, the run's first event and the session's allocator.\<close>

definition allocate_message ::
  "jstr \<Rightarrow> session_row \<Rightarrow> turn_input \<Rightarrow> frozen_context \<Rightarrow> jstr \<Rightarrow> bool \<Rightarrow> int \<Rightarrow> jstr \<Rightarrow> jstr \<Rightarrow> db \<Rightarrow> kerr + db"
where
  "allocate_message session sessionRow turnInput frozen strategy select now turnId runId db =
     (let sq = s_nextTurnPosition sessionRow in
      rbind (insert_turn \<lparr>t_id = turnId, t_session = session, t_seq = sq, t_input = turnInput,
          t_frozen = frozen, t_createdAt = now, t_nextRunAttempt = 2\<rparr> db) (\<lambda>db1.
      rbind (insert_run (queued_run runId turnId session 1 strategy select now) db1) (\<lambda>db2.
      rbind (appendEventInTx runId 0 (Run_queued 1) now db2) (\<lambda>(_, db3).
      rbind (update_sessions (\<lambda>s. s_id s = session \<and> s_nextTurnPosition s = sq)
          (\<lambda>s. s\<lparr>s_nextTurnPosition := sq + 1, s_lastActiveAt := now\<rparr>) db3) (\<lambda>(changes, db4).
        if changes \<noteq> 1 then Inl Validation else Inr db4)))))"

definition post_message_tx ::
  "jstr \<Rightarrow> jstr \<Rightarrow> jstr \<Rightarrow> jstr \<Rightarrow> turn_input \<Rightarrow> json \<Rightarrow> jstr \<Rightarrow> bool \<Rightarrow> jstr \<Rightarrow> int \<Rightarrow> jstr \<times> jstr \<times> jstr \<Rightarrow> accepted tx"
where
  "post_message_tx session scope key hash turnInput uiContext strategy select timeZone now fresh db =
     (let (turnId, runId, activityId) = fresh in
      case toStoredResponse db scope key of
        Some existing \<Rightarrow>
          if i_hash existing \<noteq> hash then Inl (Idempotency_conflict scope)
          else rbind (parse_run_body (i_body existing)) (\<lambda>body. Inr ((i_status existing, body, True), db))
      | None \<Rightarrow>
          (case readSession db session of
             None \<Rightarrow> Inl NotFound
           | Some sessionRow \<Rightarrow>
             (case readContext db session of
                None \<Rightarrow> Inl Database_state_invalid
              | Some contextRow \<Rightarrow>
                let context = \<lparr>rc_version = x_version contextRow, rc_items = x_items contextRow\<rparr>;
                    frozen = \<lparr>fc_temporal = \<lparr>tc_now = now, tc_timeZone = timeZone\<rparr>,
                      fc_uiContext = uiContext, fc_referenceContext = Some context\<rparr> in
                if \<not> reference_context_ok context then Inl Validation
                else if \<not> frozen_context_ok frozen then Inl Validation
                else rbind (busy_guard session (allocate_message session sessionRow turnInput frozen
                         strategy select now turnId runId db)) (\<lambda>db1.
                  rbind (parse_run_body (Run_body session turnId runId 1)) (\<lambda>body.
                  rbind (if shouldRecordAutonomyActivity db1
                         then recordUserActivityInTx activityId session now db1 else Inr db1) (\<lambda>db2.
                  rbind (storeIdempotentResponse scope key hash 202 body now db2) (\<lambda>db3.
                    Inr ((202, body, False), db3))))))))"

definition postMessage ::
  "(jstr \<Rightarrow> jstr) \<Rightarrow> jstr \<Rightarrow> jstr \<Rightarrow> json \<Rightarrow> message_options \<Rightarrow> jstr \<times> jstr \<times> jstr \<Rightarrow> db \<Rightarrow> (kerr + accepted) \<times> db"
where
  "postMessage H session message uiContext options fresh db =
     (let now = mo_now options; strategy = default_to (js ''m0-default'') (mo_strategy options);
          select = default_to True (mo_selectOnSuccess options);
          timeZone = default_to (js ''UTC'') (mo_timeZone options) in
      if \<not> isUuidV4 session \<or> \<not> isUuidV4 (mo_key options) \<or> \<not> unix_ms_ok now \<or>
         \<not> user_text_ok message \<or> \<not> ui_context_ok uiContext \<or> \<not> strategy_ok strategy \<or>
         \<not> turn_input_ok (User_text message)
      then (Inl Validation, db)
      else case messageScope session of
        None \<Rightarrow> (Inl Validation, db)
      | Some scope \<Rightarrow>
          if \<not> idempotencyScope_ok scope then (Inl Validation, db)
          else case requestHash H (js ''post_message'') 1
              (JObj [(js ''text'', JStr message), (js ''uiContext'', uiContext),
                 (js ''strategy'', JStr strategy), (js ''selectOnSuccess'', JBool select),
                 (js ''timeZone'', JStr timeZone)]) of
            None \<Rightarrow> (Inl Type_error, db)
          | Some hash \<Rightarrow>
              withImmediate (post_message_tx session scope (lower_ascii (mo_key options)) hash
                (User_text message) uiContext strategy select timeZone now fresh) db)"

text \<open>The run of a retry: the attempt allocator of the turn, the run, its first event and the session.\<close>

definition allocate_retry ::
  "jstr \<Rightarrow> jstr \<Rightarrow> nat \<Rightarrow> jstr \<Rightarrow> bool \<Rightarrow> int \<Rightarrow> jstr \<Rightarrow> db \<Rightarrow> kerr + db" where
  "allocate_retry session turn attempt strategy select now runId db =
     rbind (insert_run (queued_run runId turn session attempt strategy select now) db) (\<lambda>db1.
     rbind (appendEventInTx runId 0 (Run_queued (int attempt)) now db1) (\<lambda>(_, db2).
     rbind (update_sessions (\<lambda>s. s_id s = session) (\<lambda>s. s\<lparr>s_lastActiveAt := now\<rparr>) db2)
       (\<lambda>(_, db3). Inr db3)))"

definition post_retry_tx ::
  "jstr \<Rightarrow> jstr \<Rightarrow> jstr \<Rightarrow> jstr \<Rightarrow> jstr \<Rightarrow> jstr \<Rightarrow> bool \<Rightarrow> int \<Rightarrow> jstr \<times> jstr \<Rightarrow> accepted tx" where
  "post_retry_tx session turn scope key hash strategy select now fresh db =
     (let (runId, activityId) = fresh in
      if readSession db session = None then Inl NotFound
      else case readTurn db turn of
        None \<Rightarrow> Inl NotFound
      | Some turnRow \<Rightarrow>
          if t_session turnRow \<noteq> session then Inl NotFound
          else if \<not> turn_input_ok (t_input turnRow) then Inl Validation
          else if \<not> is_user_text (t_input turnRow) then Inl Validation
          else if \<not> frozen_context_ok (t_frozen turnRow) then Inl Validation
          else (case toStoredResponse db scope key of
            Some existing \<Rightarrow>
              if i_hash existing \<noteq> hash then Inl (Idempotency_conflict scope)
              else rbind (parse_run_body (i_body existing)) (\<lambda>body.
                case body of
                  Run_body sid tid rid attempt \<Rightarrow>
                    if sid \<noteq> session \<or> tid \<noteq> turn then Inl (Idempotency_conflict scope)
                    else Inr ((i_status existing, body, True), db)
                | _ \<Rightarrow> Inl Validation)
          | None \<Rightarrow>
              if list_ex (\<lambda>r. r_session r = session \<and> active_row r) (runs db)
              then Inl (Session_busy session)
              else let attempt = t_nextRunAttempt turnRow in
                rbind (update_turns (\<lambda>t. t_id t = turn \<and> t_nextRunAttempt t = attempt)
                    (\<lambda>t. t\<lparr>t_nextRunAttempt := attempt + 1\<rparr>) db) (\<lambda>(changes, db1).
                if changes \<noteq> 1 then Inl Validation
                else rbind (busy_guard session
                      (allocate_retry session turn attempt strategy select now runId db1)) (\<lambda>db2.
                  rbind (parse_run_body (Run_body session turn runId attempt)) (\<lambda>body.
                  rbind (if shouldRecordAutonomyActivity db2
                         then recordUserActivityInTx activityId session now db2 else Inr db2) (\<lambda>db3.
                  rbind (storeIdempotentResponse scope key hash 202 body now db3) (\<lambda>db4.
                    Inr ((202, body, False), db4))))))))"

definition postRetry ::
  "(jstr \<Rightarrow> jstr) \<Rightarrow> jstr \<Rightarrow> jstr \<Rightarrow> message_options \<Rightarrow> jstr \<times> jstr \<Rightarrow> db \<Rightarrow> (kerr + accepted) \<times> db" where
  "postRetry H session turn options fresh db =
     (let now = mo_now options; strategy = default_to (js ''m0-default'') (mo_strategy options);
          select = default_to True (mo_selectOnSuccess options) in
      if \<not> isUuidV4 session \<or> \<not> isUuidV4 turn \<or> \<not> isUuidV4 (mo_key options) \<or> \<not> unix_ms_ok now \<or>
         \<not> strategy_ok strategy
      then (Inl Validation, db)
      else case retryScope turn of
        None \<Rightarrow> (Inl Validation, db)
      | Some scope \<Rightarrow>
          if \<not> idempotencyScope_ok scope then (Inl Validation, db)
          else case requestHash H (js ''post_retry'') 1
              (JObj [(js ''sessionId'', JStr session), (js ''turnId'', JStr turn),
                 (js ''strategy'', JStr strategy), (js ''selectOnSuccess'', JBool select)]) of
            None \<Rightarrow> (Inl Type_error, db)
          | Some hash \<Rightarrow>
              withImmediate (post_retry_tx session turn scope (lower_ascii (mo_key options)) hash
                strategy select now fresh) db)"

subsection \<open>Staged proposals\<close>

record staged_entry =
  st_session :: jstr
  st_sourceTurn :: jstr
  st_tool :: jstr
  st_input :: action_input
  st_targetRef :: "jstr option"
  st_targetResource :: "jstr option"
  st_snapshot :: "jstr option"
  st_connector :: jstr
  st_revision :: "jstr option"
  st_preview :: jstr
  st_hash :: jstr
  st_createdAt :: int
  st_expiresAt :: int

text \<open>The state of the repository: the store, and the stager's map of staged entries by run.\<close>

record kernel =
  kdb :: db
  staged :: "(jstr \<times> staged_entry) list"

text \<open>How the stager was composed; without options there is none.\<close>

record stager_options =
  so_writeEnabled :: bool
  so_createEnabled :: bool

definition removeStaged :: "jstr \<Rightarrow> (jstr \<times> staged_entry) list \<Rightarrow> (jstr \<times> staged_entry) list" where
  "removeStaged rid st = AList.delete rid st"

definition clearStaged :: "stager_options option \<Rightarrow> jstr \<Rightarrow> kernel \<Rightarrow> kernel" where
  "clearStaged opts rid k = (if opts = None then k else k\<lparr>staged := removeStaged rid (staged k)\<rparr>)"

text \<open>\<open>getStaged\<close>: an entry past its end by the stager's clock is dropped.\<close>

definition getStaged ::
  "int \<Rightarrow> jstr \<Rightarrow> (jstr \<times> staged_entry) list \<Rightarrow> staged_entry option \<times> (jstr \<times> staged_entry) list" where
  "getStaged clock rid st =
     (case map_of st rid of
        None \<Rightarrow> (None, st)
      | Some entry \<Rightarrow> if clock \<ge> st_expiresAt entry then (None, removeStaged rid st) else (Some entry, st))"

definition loadTarget :: "db \<Rightarrow> jstr \<Rightarrow> jstr \<Rightarrow> kerr + target_row" where
  "loadTarget db sid ref =
     (case find (\<lambda>g. g_session g = sid \<and> g_ref g = ref) (targets db) of
        None \<Rightarrow> Inl Validation
      | Some g \<Rightarrow> if g_ordinal g > MAX_SAFE_INTEGER \<or> g_ordinal g < 1 then Inl Validation else Inr g)"

text \<open>\<open>freshSnapshotRevision\<close>: the revision of a snapshot whose event is not deleted.\<close>

definition freshSnapshotRevision :: "target_row \<Rightarrow> kerr + jstr option" where
  "freshSnapshotRevision g =
     (case g_event g of
        None \<Rightarrow> Inl Validation
      | Some e \<Rightarrow>
          if se_status e = js ''deleted'' then Inr None
          else Inr (Some (default_to (g_contentHash g) (g_sourceRevision g))))"

definition requireCreateAuthority :: "db \<Rightarrow> jstr \<Rightarrow> kerr + unit" where
  "requireCreateAuthority db cid =
     (if \<not> action_id_ok cid then Inl Validation
      else if cid \<notin> set (connectors db) then Inl Validation
      else Inr ())"

definition recheck_target :: "stager_options \<Rightarrow> staged_entry \<Rightarrow> run_row \<Rightarrow> db \<Rightarrow> kerr + unit" where
  "recheck_target opts entry run db =
     (if st_tool entry = js ''calendar.create'' then
        (if \<not> so_createEnabled opts then Inl Validation
         else requireCreateAuthority db (st_connector entry))
      else case (st_targetRef entry, st_targetResource entry, st_snapshot entry, st_revision entry) of
        (Some ref, Some resource, Some snapshot, Some revision) \<Rightarrow>
          rbind (loadTarget db (r_session run) ref) (\<lambda>g.
            if g_ref g \<noteq> ref \<or> g_resource g \<noteq> resource \<or> g_snapshot g \<noteq> snapshot \<or>
               g_connector g \<noteq> st_connector entry \<or> g_kind g \<noteq> js ''calendar'' \<or>
               default_to (g_contentHash g) (g_sourceRevision g) \<noteq> revision
            then Inl Validation
            else rbind (freshSnapshotRevision g) (\<lambda>fresh.
              if fresh = None then Inl Validation else Inr ()))
      | _ \<Rightarrow> Inl Validation)"

text \<open>\<open>commitStaged\<close>, inside the transaction of a completion; its result is the new event sequence.\<close>

definition commitStaged ::
  "stager_options \<Rightarrow> staged_entry \<Rightarrow> jstr \<Rightarrow> int \<Rightarrow> jstr \<Rightarrow> nat tx" where
  "commitStaged opts entry rid now proposalId db =
     (if \<not> so_writeEnabled opts then Inl Validation
      else if now \<ge> st_expiresAt entry then Inl Validation
      else case readRun db rid of
        None \<Rightarrow> Inl NotFound
      | Some run \<Rightarrow>
          if r_status run \<noteq> Running then Inl Validation
          else if r_session run \<noteq> st_session entry \<or> r_turn run \<noteq> st_sourceTurn entry then Inl Validation
          else rbind (recheck_target opts entry run db) (\<lambda>_.
            rbind (update_proposals
                (\<lambda>p. p_session p = r_session run \<and> p_status p = Pending \<and> p_expiresAt p \<le> now)
                (\<lambda>p. p\<lparr>p_status := Expired, p_resolvedAt := Some now, p_decisionTurn := None\<rparr>) db)
              (\<lambda>(_, db1).
            if list_ex (\<lambda>p. p_session p = r_session run \<and> p_status p = Pending) (proposals db1)
            then Inl Validation
            else rbind (insert_proposal \<lparr>p_id = proposalId, p_session = st_session entry,
                p_sourceTurn = st_sourceTurn entry, p_sourceRun = rid, p_decisionTurn = None,
                p_tool = st_tool entry, p_connector = st_connector entry, p_input = st_input entry,
                p_targetRef = st_targetRef entry, p_targetResource = st_targetResource entry,
                p_snapshot = st_snapshot entry, p_revision = st_revision entry,
                p_preview = st_preview entry, p_hash = st_hash entry, p_status = Pending,
                p_createdAt = st_createdAt entry, p_expiresAt = st_expiresAt entry,
                p_resolvedAt = None\<rparr> db1) (\<lambda>db2.
              if \<not> payload_ok (Action_proposed proposalId (st_hash entry) (st_tool entry)) then Inl Zod_error
              else appendEventInTx rid (r_eventSeq run)
                (Action_proposed proposalId (st_hash entry) (st_tool entry)) now db2))))"

subsection \<open>Transitions\<close>

definition start_tx :: "jstr \<Rightarrow> int \<Rightarrow> (bool \<times> run_row) tx" where
  "start_tx rid now db =
     (case readRun db rid of
        None \<Rightarrow> Inl NotFound
      | Some row \<Rightarrow>
          if r_status row \<noteq> Queued then rbind (parseRunRow row) (\<lambda>run. Inr ((False, run), db))
          else rbind (update_runs (\<lambda>r. r_id r = rid \<and> r_status r = Queued)
              (\<lambda>r. r\<lparr>r_status := Running, r_startedAt := Some now\<rparr>) db) (\<lambda>(changes, db1).
            if changes \<noteq> 1 then rbind (reread rid db1) (\<lambda>run. Inr ((False, run), db1))
            else rbind (appendEventInTx rid (r_eventSeq row) (Run_started (int (r_attempt row))) now db1)
                (\<lambda>(_, db2).
              rbind (reread rid db2) (\<lambda>run. Inr ((True, run), db2)))))"

text \<open>\<open>startRun\<close>: an action run is picked up by the action execution service.\<close>

definition startRun :: "jstr \<Rightarrow> int \<Rightarrow> db \<Rightarrow> (kerr + bool \<times> run_row) \<times> db" where
  "startRun rid now db =
     (if \<not> isUuidV4 rid \<or> \<not> unix_ms_ok now then (Inl Validation, db)
      else case readRun db rid of
        None \<Rightarrow> (Inl NotFound, db)
      | Some preflightRow \<Rightarrow>
          if is_m5 preflightRow then
            (case startActionRun rid now db of
               (Inl e, db1) \<Rightarrow> (Inl e, db1)
             | (Inr pick, db1) \<Rightarrow>
                 (rbind (reread rid db1) (\<lambda>run. Inr (case pick of Picked _ \<Rightarrow> True | _ \<Rightarrow> False, run)), db1))
          else withImmediate (start_tx rid now) db)"

definition complete_tx ::
  "stager_options option \<Rightarrow> staged_entry option \<Rightarrow> jstr \<Rightarrow> run_result \<Rightarrow> int \<Rightarrow> jstr \<Rightarrow>
     (bool \<times> run_row \<times> bool) tx" where
  "complete_tx opts entry rid result now proposalId db =
     (case readRun db rid of
        None \<Rightarrow> Inl NotFound
      | Some row \<Rightarrow>
          if is_m5 row then Inl Action_dispatch_required
          else if r_status row \<noteq> Running then rbind (parseRunRow row) (\<lambda>run. Inr ((False, run, False), db))
          else rbind (case (opts, entry) of
                 (Some o1, Some e1) \<Rightarrow>
                   rbind (commitStaged o1 e1 rid now proposalId db) (\<lambda>(sq, db1). Inr ((sq, True), db1))
               | _ \<Rightarrow> Inr ((r_eventSeq row, False), db)) (\<lambda>((prev, committed), db1).
            rbind (one_row (update_runs (\<lambda>r. r_id r = rid \<and> r_status r = Running)
                (\<lambda>r. r\<lparr>r_status := Completed, r_result := Some result, r_finishedAt := Some now\<rparr>) db1))
              (\<lambda>db2.
            rbind (appendEventInTx rid prev (Run_completed result) now db2) (\<lambda>(_, db3).
            rbind (select_run row now db3) (\<lambda>db4.
            rbind (reread rid db4) (\<lambda>run. Inr ((True, run, committed), db4)))))))"

text \<open>
  \<open>completeRun\<close>. Reading the stager's map may drop an expired entry, and a commit that finds the entry
  expired drops it too; both happen in memory, whatever becomes of the transaction.
\<close>

definition staged_for_completion ::
  "stager_options option \<Rightarrow> jstr \<Rightarrow> int \<Rightarrow> int \<Rightarrow> kernel \<Rightarrow>
     staged_entry option \<times> (jstr \<times> staged_entry) list" where
  "staged_for_completion opts rid now clock k =
     (case readRun (kdb k) rid of
        None \<Rightarrow> (None, staged k)
      | Some row \<Rightarrow>
          (case opts of
             None \<Rightarrow> (None, staged k)
           | Some o1 \<Rightarrow>
               if is_m5 row \<or> r_status row \<noteq> Running then (None, staged k)
               else (case getStaged clock rid (staged k) of
                   (None, st) \<Rightarrow> (None, st)
                 | (Some entry, st) \<Rightarrow>
                     (Some entry, if so_writeEnabled o1 \<and> now \<ge> st_expiresAt entry
                                  then removeStaged rid st else st))))"

definition completeRun ::
  "stager_options option \<Rightarrow> jstr \<Rightarrow> run_result \<Rightarrow> int \<Rightarrow> int \<Rightarrow> jstr \<Rightarrow> kernel \<Rightarrow>
     (kerr + bool \<times> run_row) \<times> kernel" where
  "completeRun opts rid result now clock proposalId k =
     (if \<not> isUuidV4 rid \<or> \<not> unix_ms_ok now \<or> \<not> run_result_ok result then (Inl Validation, k)
      else let (entry, st) = staged_for_completion opts rid now clock k in
        (case withImmediate (complete_tx opts entry rid result now proposalId) (kdb k) of
           (Inl e, db1) \<Rightarrow> (Inl e, k\<lparr>kdb := db1, staged := st\<rparr>)
         | (Inr (applied, run, committed), db1) \<Rightarrow>
             let k1 = k\<lparr>kdb := db1, staged := st\<rparr> in
             (Inr (applied, run), if applied \<and> committed then clearStaged opts rid k1 else k1)))"

definition fail_tx :: "jstr \<Rightarrow> jstr \<Rightarrow> int \<Rightarrow> (bool \<times> run_row) tx" where
  "fail_tx rid code now db =
     (case readRun db rid of
        None \<Rightarrow> Inl NotFound
      | Some row \<Rightarrow>
          if is_m5 row then Inl Action_dispatch_required
          else if r_status row \<noteq> Running then rbind (parseRunRow row) (\<lambda>run. Inr ((False, run), db))
          else rbind (update_runs (\<lambda>r. r_id r = rid \<and> r_status r = Running)
              (\<lambda>r. r\<lparr>r_status := Failed, r_errorCode := Some code, r_finishedAt := Some now\<rparr>) db)
            (\<lambda>(changes, db1).
            if changes \<noteq> 1 then rbind (reread rid db1) (\<lambda>run. Inr ((False, run), db1))
            else rbind (appendEventInTx rid (r_eventSeq row) (Run_failed code) now db1) (\<lambda>(_, db2).
              rbind (reread rid db2) (\<lambda>run. Inr ((True, run), db2)))))"

text \<open>A transition that clears the staged entry after a commit that satisfies \<open>dead\<close>.\<close>

definition then_clear ::
  "stager_options option \<Rightarrow> jstr \<Rightarrow> ('a \<Rightarrow> bool) \<Rightarrow> (kerr + 'a) \<times> db \<Rightarrow> kernel \<Rightarrow> (kerr + 'a) \<times> kernel" where
  "then_clear opts rid dead out k =
     (case out of
        (Inl e, db1) \<Rightarrow> (Inl e, k\<lparr>kdb := db1\<rparr>)
      | (Inr x, db1) \<Rightarrow>
          (Inr x, if dead x then clearStaged opts rid (k\<lparr>kdb := db1\<rparr>) else k\<lparr>kdb := db1\<rparr>))"

definition failRun ::
  "stager_options option \<Rightarrow> jstr \<Rightarrow> jstr \<Rightarrow> int \<Rightarrow> kernel \<Rightarrow> (kerr + bool \<times> run_row) \<times> kernel" where
  "failRun opts rid code now k =
     (if \<not> isUuidV4 rid \<or> \<not> unix_ms_ok now \<or> \<not> is_code M0_RUN_ERROR_CODES code then (Inl Validation, k)
      else then_clear opts rid fst (withImmediate (fail_tx rid code now) (kdb k)) k)"

definition requireOwnedRun :: "jstr \<Rightarrow> jstr \<Rightarrow> db \<Rightarrow> kerr + run_row" where
  "requireOwnedRun session rid db =
     (case readRun db rid of
        None \<Rightarrow> Inl NotFound
      | Some row \<Rightarrow> if r_session row \<noteq> session then Inl NotFound else Inr row)"

definition cancel_tx :: "jstr \<Rightarrow> jstr \<Rightarrow> int \<Rightarrow> (run_status \<times> run_row) tx" where
  "cancel_tx session rid now db =
     rbind (requireOwnedRun session rid db) (\<lambda>row.
       if isTerminalStatus (r_status row)
       then rbind (parseRunRow row) (\<lambda>run. Inr ((r_status row, run), db))
       else if r_status row = Queued then
         rbind (update_runs (\<lambda>r. r_id r = rid \<and> r_status r = Queued)
             (\<lambda>r. r\<lparr>r_status := Cancelled, r_cancelRequestedAt := Some now, r_finishedAt := Some now\<rparr>) db)
           (\<lambda>(changes, db1).
           if changes \<noteq> 1 then rbind (reread rid db1) (\<lambda>run. Inr ((r_status run, run), db1))
           else rbind (appendEventInTx rid (r_eventSeq row) Run_cancelled now db1) (\<lambda>(_, db2).
             rbind (reread rid db2) (\<lambda>run. Inr ((Cancelled, run), db2))))
       else if r_status row = Running then
         rbind (update_runs (\<lambda>r. r_id r = rid \<and> r_status r = Running)
             (\<lambda>r. r\<lparr>r_status := Cancel_requested, r_cancelRequestedAt := Some now\<rparr>) db)
           (\<lambda>(changes, db1).
           if changes \<noteq> 1 then rbind (reread rid db1) (\<lambda>run. Inr ((r_status run, run), db1))
           else rbind (appendEventInTx rid (r_eventSeq row) Run_cancel_requested now db1) (\<lambda>(_, db2).
             rbind (reread rid db2) (\<lambda>run. Inr ((Cancel_requested, run), db2))))
       else rbind (parseRunRow row) (\<lambda>run. Inr ((r_status row, run), db)))"

definition getRun :: "jstr \<Rightarrow> db \<Rightarrow> kerr + run_row" where
  "getRun rid db = (if \<not> isUuidV4 rid then Inl Validation else reread rid db)"

definition cancelRun ::
  "stager_options option \<Rightarrow> jstr \<Rightarrow> jstr \<Rightarrow> int \<Rightarrow> kernel \<Rightarrow> (kerr + run_status \<times> run_row) \<times> kernel"
where
  "cancelRun opts session rid now k =
     (if \<not> unix_ms_ok now \<or> \<not> isUuidV4 session \<or> \<not> isUuidV4 rid then (Inl Validation, k)
      else if (case readRun (kdb k) rid of None \<Rightarrow> False | Some row \<Rightarrow> is_m5 row) then
        (case cancelActionRun session rid now (kdb k) of
           (Inl e, db1) \<Rightarrow> (Inl e, k\<lparr>kdb := db1\<rparr>)
         | (Inr (status, _), db1) \<Rightarrow>
             (rbind (getRun rid db1) (\<lambda>run. Inr (status, run)), k\<lparr>kdb := db1\<rparr>))
      else then_clear opts rid (\<lambda>(status, _). status = Cancelled \<or> status = Cancel_requested)
             (withImmediate (cancel_tx session rid now) (kdb k)) k)"

definition finalize_tx :: "jstr \<Rightarrow> int \<Rightarrow> (bool \<times> run_row) tx" where
  "finalize_tx rid now db =
     (case readRun db rid of
        None \<Rightarrow> Inl NotFound
      | Some row \<Rightarrow>
          if r_status row \<noteq> Cancel_requested then rbind (parseRunRow row) (\<lambda>run. Inr ((False, run), db))
          else rbind (update_runs (\<lambda>r. r_id r = rid \<and> r_status r = Cancel_requested)
              (\<lambda>r. r\<lparr>r_status := Cancelled, r_finishedAt := Some now\<rparr>) db) (\<lambda>(changes, db1).
            if changes \<noteq> 1 then rbind (reread rid db1) (\<lambda>run. Inr ((False, run), db1))
            else rbind (appendEventInTx rid (r_eventSeq row) Run_cancelled now db1) (\<lambda>(_, db2).
              rbind (reread rid db2) (\<lambda>run. Inr ((True, run), db2)))))"

definition finalizeCancelRequested ::
  "stager_options option \<Rightarrow> jstr \<Rightarrow> int \<Rightarrow> kernel \<Rightarrow> (kerr + bool \<times> run_row) \<times> kernel" where
  "finalizeCancelRequested opts rid now k =
     (if \<not> isUuidV4 rid \<or> \<not> unix_ms_ok now then (Inl Validation, k)
      else then_clear opts rid fst (withImmediate (finalize_tx rid now) (kdb k)) k)"

text \<open>
  \<open>sweepTerminals\<close>: action runs first, in their own transaction; then one transaction over the running
  and the cancelling runs, in order of creation. The staged entries are cleared inside the loop,
  so they are gone even when the transaction fails later.
\<close>

definition sweep_one ::
  "run_status \<Rightarrow> run_status \<Rightarrow> payload_ev \<Rightarrow> int \<Rightarrow> run_row \<Rightarrow> bool tx" where
  "sweep_one from target payload now row db =
     rbind (update_runs (\<lambda>r. r_id r = r_id row \<and> r_status r = from)
         (\<lambda>r. r\<lparr>r_status := target, r_finishedAt := Some now\<rparr>) db) (\<lambda>(changes, db1).
       if changes = 1 then rbind (appendEventInTx (r_id row) (r_eventSeq row) payload now db1)
         (\<lambda>(_, db2). Inr (True, db2))
       else Inr (False, db1))"

text \<open>The loop returns the store or the error, with the runs whose entries were cleared so far.\<close>

fun sweep_rows ::
  "run_status \<Rightarrow> run_status \<Rightarrow> payload_ev \<Rightarrow> int \<Rightarrow> run_row list \<Rightarrow> db \<Rightarrow> (kerr + db) \<times> jstr list" where
  "sweep_rows from target payload now [] db = (Inr db, [])"
| "sweep_rows from target payload now (row # rows) db =
     (case sweep_one from target payload now row db of
        Inl e \<Rightarrow> (Inl e, [])
      | Inr (moved, db1) \<Rightarrow>
          let (out, cleared) = sweep_rows from target payload now rows db1 in
          (out, if moved then r_id row # cleared else cleared))"

definition swept :: "run_status \<Rightarrow> db \<Rightarrow> run_row list" where
  "swept status db = sort_key r_createdAt (filter (\<lambda>r. r_status r = status \<and> \<not> is_m5 r) (runs db))"

definition sweep_tx ::
  "abandon_cause \<Rightarrow> int \<Rightarrow> db \<Rightarrow> (kerr + (nat \<times> nat) \<times> db) \<times> jstr list" where
  "sweep_tx cause now db =
     (case sweep_rows Running Abandoned (Run_abandoned cause) now (swept Running db) db of
        (Inl e, cleared) \<Rightarrow> (Inl e, cleared)
      | (Inr db1, cleared) \<Rightarrow>
          (case sweep_rows Cancel_requested Cancelled Run_cancelled now (swept Cancel_requested db) db1 of
             (Inl e, cleared2) \<Rightarrow> (Inl e, cleared @ cleared2)
           | (Inr db2, cleared2) \<Rightarrow>
               (Inr ((length cleared, length cleared2), db2), cleared @ cleared2)))"

definition sweepTerminals ::
  "stager_options option \<Rightarrow> abandon_cause \<Rightarrow> int \<Rightarrow> kernel \<Rightarrow> (kerr + nat \<times> nat) \<times> kernel" where
  "sweepTerminals opts cause now k =
     (case validateAndRecoverActionRuns cause now (kdb k) of
        (Inl e, db0) \<Rightarrow> (Inl e, k\<lparr>kdb := db0\<rparr>)
      | (Inr _, db0) \<Rightarrow>
          let (out, cleared) = sweep_tx cause now db0;
              k1 = fold (clearStaged opts) cleared (k\<lparr>kdb := db0\<rparr>) in
          (case out of
             Inl e \<Rightarrow> (Inl e, k1)
           | Inr (counts, db1) \<Rightarrow> (Inr counts, k1\<lparr>kdb := db1\<rparr>)))"

definition recover ::
  "stager_options option \<Rightarrow> int \<Rightarrow> kernel \<Rightarrow> (kerr + nat \<times> nat) \<times> kernel" where
  "recover opts now k =
     (if unix_ms_ok now then sweepTerminals opts Restart_recovery now k else (Inl Validation, k))"

definition drain :: "stager_options option \<Rightarrow> int \<Rightarrow> kernel \<Rightarrow> (kerr + nat \<times> nat) \<times> kernel" where
  "drain opts now k =
     (if unix_ms_ok now then sweepTerminals opts Drain now k else (Inl Validation, k))"

definition settle_tx :: "jstr \<Rightarrow> abandon_cause \<Rightarrow> int \<Rightarrow> (bool \<times> run_status) tx" where
  "settle_tx rid cause now db =
     (case readRun db rid of
        None \<Rightarrow> Inl NotFound
      | Some current \<Rightarrow>
          if r_status current \<noteq> Running then Inr ((False, r_status current), db)
          else rbind (update_runs (\<lambda>r. r_id r = rid \<and> r_status r = Running)
              (\<lambda>r. r\<lparr>r_status := Abandoned, r_finishedAt := Some now\<rparr>) db) (\<lambda>(changes, db1).
            if changes \<noteq> 1 then Inr ((False, Running), db1)
            else rbind (appendEventInTx rid (r_eventSeq current) (Run_abandoned cause) now db1)
              (\<lambda>(_, db2). Inr ((True, Abandoned), db2))))"

definition settleAbandonedRunningRun ::
  "stager_options option \<Rightarrow> jstr \<Rightarrow> abandon_cause \<Rightarrow> int \<Rightarrow> kernel \<Rightarrow>
     (kerr + bool \<times> run_status) \<times> kernel" where
  "settleAbandonedRunningRun opts rid cause now k =
     (if \<not> isUuidV4 rid \<or> \<not> unix_ms_ok now then (Inl Validation, k)
      else case readRun (kdb k) rid of
        None \<Rightarrow> (Inl NotFound, k)
      | Some row \<Rightarrow>
          if is_m5 row then
            (case recoverAbandonedActionRun rid cause now (kdb k) of (out, db1) \<Rightarrow> (out, k\<lparr>kdb := db1\<rparr>))
          else then_clear opts rid fst (withImmediate (settle_tx rid cause now) (kdb k)) k)"

fun is_tool_event :: "payload_ev \<Rightarrow> bool" where
  "is_tool_event (Tool_requested a b c d) = True"
| "is_tool_event (Tool_completed t) = True"
| "is_tool_event _ = False"

definition tool_event_tx :: "jstr \<Rightarrow> payload_ev \<Rightarrow> int \<Rightarrow> run_event tx" where
  "tool_event_tx rid payload now db =
     (case readRun db rid of
        None \<Rightarrow> Inl NotFound
      | Some row \<Rightarrow>
          if isTerminalStatus (r_status row) then Inl Validation
          else rbind (appendEventInTx rid (r_eventSeq row) payload now db) (\<lambda>(nxt, db1).
            case find (\<lambda>e. ev_runId e = rid \<and> ev_seq e = nxt) (events db1) of
              None \<Rightarrow> Inl NotFound
            | Some stored \<Rightarrow>
                if run_event_ok payload_ok stored then Inr (stored, db1) else Inl Validation))"

definition appendToolEvent :: "jstr \<Rightarrow> payload_ev \<Rightarrow> int \<Rightarrow> db \<Rightarrow> (kerr + run_event) \<times> db" where
  "appendToolEvent rid payload now db =
     (if \<not> isUuidV4 rid \<or> \<not> unix_ms_ok now \<or> \<not> is_tool_event payload then (Inl Validation, db)
      else withImmediate (tool_event_tx rid payload now) db)"

subsection \<open>Decisions on proposals\<close>

definition freezeDecisionContext :: "jstr \<Rightarrow> int \<Rightarrow> jstr \<Rightarrow> db \<Rightarrow> kerr + frozen_context" where
  "freezeDecisionContext sid now timeZone db =
     (case readContext db sid of
        None \<Rightarrow> Inl Database_state_invalid
      | Some contextRow \<Rightarrow>
          let frozen = \<lparr>fc_temporal = \<lparr>tc_now = now, tc_timeZone = timeZone\<rparr>, fc_uiContext = JObj [],
            fc_referenceContext = Some \<lparr>rc_version = x_version contextRow,
              rc_items = x_items contextRow\<rparr>\<rparr> in
          if frozen_context_ok frozen then Inr frozen else Inl Validation)"

definition allocateDecisionTurn ::
  "jstr \<Rightarrow> turn_input \<Rightarrow> frozen_context \<Rightarrow> int \<Rightarrow> jstr \<Rightarrow> db \<Rightarrow> kerr + db" where
  "allocateDecisionTurn session turnInput frozen now turnId db =
     (case readSession db session of
        None \<Rightarrow> Inl NotFound
      | Some sessionRow \<Rightarrow>
          let sq = s_nextTurnPosition sessionRow in
          rbind (insert_turn \<lparr>t_id = turnId, t_session = session, t_seq = sq, t_input = turnInput,
              t_frozen = frozen, t_createdAt = now, t_nextRunAttempt = 1\<rparr> db) (\<lambda>db1.
          rbind (update_sessions (\<lambda>s. s_id s = session \<and> s_nextTurnPosition s = sq)
              (\<lambda>s. s\<lparr>s_nextTurnPosition := sq + 1, s_lastActiveAt := now\<rparr>) db1) (\<lambda>(changes, db2).
            if changes \<noteq> 1 then Inl Validation else Inr db2)))"

definition decide_proposal ::
  "jstr \<Rightarrow> jstr \<Rightarrow> proposal_status \<Rightarrow> int \<Rightarrow> jstr option \<Rightarrow> db \<Rightarrow> kerr + db" where
  "decide_proposal session proposal status now turn db =
     one_row (update_proposals
       (\<lambda>p. p_id p = proposal \<and> p_session p = session \<and> p_status p = Pending)
       (\<lambda>p. if status = Expired then p\<lparr>p_status := status, p_resolvedAt := Some now\<rparr>
            else p\<lparr>p_status := status, p_resolvedAt := Some now, p_decisionTurn := turn\<rparr>) db)"

datatype 'b decision = Decided int 'b bool | State_conflict proposal_status | Busy

definition approve_tx ::
  "(jstr \<Rightarrow> jstr) \<Rightarrow> jstr \<Rightarrow> jstr \<Rightarrow> jstr \<Rightarrow> jstr \<Rightarrow> jstr \<Rightarrow> jstr \<Rightarrow> jstr \<Rightarrow> int \<Rightarrow> jstr \<times> jstr \<times> jstr \<Rightarrow>
     response_body decision tx" where
  "approve_tx H session proposal scope key hash proposalHash timeZone now fresh db =
     (let (turnId, runId, executionId) = fresh in
      if readSession db session = None then Inl NotFound
      else case readProposal db proposal of
        None \<Rightarrow> Inl NotFound
      | Some row \<Rightarrow>
          if p_session row \<noteq> session then Inl NotFound
          else (case toStoredResponse db scope key of
            Some existing \<Rightarrow>
              if i_hash existing \<noteq> hash then Inl (Idempotency_conflict scope)
              else rbind (parse_approve_body (i_body existing)) (\<lambda>body.
                case body of
                  Approve_body pid eid rid \<Rightarrow>
                    if pid \<noteq> proposal then Inl (Idempotency_conflict scope)
                    else Inr (Decided (i_status existing) body True, db)
                | _ \<Rightarrow> Inl Validation)
          | None \<Rightarrow>
              if p_hash row \<noteq> proposalHash then Inl Proposal_hash_mismatch
              else if p_status row \<noteq> Pending then Inr (State_conflict (p_status row), db)
              else if now \<ge> p_expiresAt row then
                rbind (decide_proposal session proposal Expired now None db) (\<lambda>db1.
                  Inr (State_conflict Expired, db1))
              else if list_ex (\<lambda>r. r_session r = session \<and> active_row r) (runs db) then Inr (Busy, db)
              else rbind (freezeDecisionContext session now timeZone db) (\<lambda>frozen.
                if \<not> turn_input_ok (Action_approval proposal proposalHash) then Inl Validation
                else rbind (allocateDecisionTurn session (Action_approval proposal proposalHash) frozen
                       now turnId db) (\<lambda>db1.
                rbind (decide_proposal session proposal Approved now (Some turnId) db1) (\<lambda>db2.
                rbind (insert_run (queued_run runId turnId session 1 m5_strategy True now) db2) (\<lambda>db3.
                rbind (appendEventInTx runId 0 (Run_queued 1) now db3) (\<lambda>(_, db4).
                rbind (appendEventInTx runId 1 (Action_approved proposal proposalHash executionId) now db4)
                  (\<lambda>(_, db5).
                rbind (insert_execution \<lparr>x_id = executionId, x_sessionId = session, x_proposal = proposal,
                    x_approvalTurn = turnId, x_actionRun = runId, x_status = Ex_queued,
                    x_callStartedAt = None, x_finishedAt = None, x_errorCode = None, x_createdAt = now,
                    x_executionUpdatedAt = now\<rparr> db5) (\<lambda>db6.
                if \<not> action_input_ok (p_input row) then Inl Validation
                else rbind (insert_grant \<lparr>gr_execution = executionId, gr_session = session,
                    gr_proposal = proposal, gr_proposalHash = p_hash row, gr_tool = p_tool row,
                    gr_inputHash = input_hash H (p_input row), gr_consumedAt = None,
                    gr_createdAt = now\<rparr> db6) (\<lambda>db7.
                rbind (parse_approve_body (Approve_body proposal executionId runId)) (\<lambda>body.
                rbind (storeIdempotentResponse scope key hash 202 body now db7) (\<lambda>db8.
                  Inr (Decided 202 body False, db8)))))))))))))"

text \<open>The errors of a decision are thrown after the commit, so that an expiry persists.\<close>

definition after_decision ::
  "jstr \<Rightarrow> (kerr + 'b decision) \<times> db \<Rightarrow> (kerr + int \<times> 'b \<times> bool) \<times> db" where
  "after_decision session out =
     (case out of
        (Inl e, db) \<Rightarrow> (Inl e, db)
      | (Inr (State_conflict reason), db) \<Rightarrow> (Inl (Proposal_state_conflict reason), db)
      | (Inr Busy, db) \<Rightarrow> (Inl (Session_busy session), db)
      | (Inr (Decided status body replayed), db) \<Rightarrow> (Inr (status, body, replayed), db))"

definition approveProposal ::
  "(jstr \<Rightarrow> jstr) \<Rightarrow> jstr \<Rightarrow> jstr \<Rightarrow> jstr \<Rightarrow> jstr \<Rightarrow> int \<Rightarrow> jstr option \<Rightarrow> jstr \<times> jstr \<times> jstr \<Rightarrow> db \<Rightarrow>
     (kerr + accepted) \<times> db" where
  "approveProposal H session proposal proposalHash key now timeZone fresh db =
     (if \<not> isUuidV4 session \<or> \<not> isUuidV4 proposal \<or> \<not> isUuidV4 key \<or> \<not> unix_ms_ok now \<or>
         \<not> sha256_hex_ok proposalHash
      then (Inl Validation, db)
      else case proposalApproveScope proposal of
        None \<Rightarrow> (Inl Validation, db)
      | Some scope \<Rightarrow>
          if \<not> idempotencyScope_ok scope then (Inl Validation, db)
          else case requestHash H (js ''approve_proposal'') 1
              (JObj [(js ''proposalId'', JStr proposal), (js ''proposalHash'', JStr proposalHash)]) of
            None \<Rightarrow> (Inl Type_error, db)
          | Some hash \<Rightarrow>
              after_decision session (withImmediate (approve_tx H session proposal scope
                (lower_ascii key) hash proposalHash (default_to (js ''UTC'') timeZone) now fresh) db))"

text \<open>The body of a rejection: its decision turn and time.\<close>

definition reject_tx ::
  "jstr \<Rightarrow> jstr \<Rightarrow> jstr \<Rightarrow> jstr \<Rightarrow> int \<Rightarrow> jstr \<Rightarrow> (jstr \<times> int) decision tx" where
  "reject_tx session proposal proposalHash timeZone now turnId db =
     (if readSession db session = None then Inl NotFound
      else case readProposal db proposal of
        None \<Rightarrow> Inl NotFound
      | Some row \<Rightarrow>
          if p_session row \<noteq> session then Inl NotFound
          else if p_hash row \<noteq> proposalHash then Inl Proposal_hash_mismatch
          else if p_status row = Rejected then
            (case (p_decisionTurn row, p_resolvedAt row) of
               (Some t, Some at) \<Rightarrow> if uuid_ok t \<and> unix_ms_ok at then Inr (Decided 200 (t, at) True, db)
                 else Inl Validation
             | _ \<Rightarrow> Inl Validation)
          else if p_status row \<noteq> Pending then Inr (State_conflict (p_status row), db)
          else if now \<ge> p_expiresAt row then
            rbind (decide_proposal session proposal Expired now None db) (\<lambda>db1.
              Inr (State_conflict Expired, db1))
          else rbind (freezeDecisionContext session now timeZone db) (\<lambda>frozen.
            if \<not> turn_input_ok (Action_rejection proposal proposalHash) then Inl Validation
            else rbind (allocateDecisionTurn session (Action_rejection proposal proposalHash) frozen
                   now turnId db) (\<lambda>db1.
            rbind (decide_proposal session proposal Rejected now (Some turnId) db1) (\<lambda>db2.
              if uuid_ok turnId then Inr (Decided 200 (turnId, now) False, db2) else Inl Validation))))"

definition rejectProposal ::
  "jstr \<Rightarrow> jstr \<Rightarrow> jstr \<Rightarrow> int \<Rightarrow> jstr option \<Rightarrow> jstr \<Rightarrow> db \<Rightarrow>
     (kerr + int \<times> (jstr \<times> int) \<times> bool) \<times> db" where
  "rejectProposal session proposal proposalHash now timeZone turnId db =
     (if \<not> isUuidV4 session \<or> \<not> isUuidV4 proposal \<or> \<not> unix_ms_ok now \<or> \<not> sha256_hex_ok proposalHash
      then (Inl Validation, db)
      else after_decision session (withImmediate (reject_tx session proposal proposalHash
             (default_to (js ''UTC'') timeZone) now turnId) db))"

end
