(* ===== verification/Run_Inv.thy ===== *)
theory Run_Inv
  imports Run_Repo
begin

text \<open>
  The invariant of the store, and that the repository's operations keep it. \<open>wf_db\<close> is made of the runs
  table (\<open>runs_ok\<close>), the journals (\<open>journal_ok\<close>) and the references between the tables (\<open>refs_ok\<close>).
\<close>

definition session_refs :: "db \<Rightarrow> session_row \<Rightarrow> bool" where
  "session_refs db s \<longleftrightarrow> 1 \<le> s_nextTurnPosition s \<and> s_id s \<in> set (map x_session (contexts db))"

definition turn_refs :: "db \<Rightarrow> turn_row \<Rightarrow> bool" where
  "turn_refs db t \<longleftrightarrow> turn_input_ok (t_input t) \<and> frozen_context_ok (t_frozen t) \<and> 1 \<le> t_seq t \<and>
     list_ex (\<lambda>s. s_id s = t_session t \<and> t_seq t < s_nextTurnPosition s) (sessions db)"

definition run_refs :: "db \<Rightarrow> run_row \<Rightarrow> bool" where
  "run_refs db r \<longleftrightarrow> opt_ok run_result_ok (r_result r) \<and>
     list_ex (\<lambda>t. t_id t = r_turn r \<and> t_session t = r_session r \<and>
       (is_user_text (t_input t) \<longrightarrow> r_attempt r < t_nextRunAttempt t)) (turns db)"

definition selection_refs :: "run_row list \<Rightarrow> selection_row \<Rightarrow> bool" where
  "selection_refs rs s \<longleftrightarrow>
     list_ex (\<lambda>r. r_id r = sel_run s \<and> r_turn r = sel_turn s \<and> r_status r = Completed) rs"

definition refs_ok :: "db \<Rightarrow> bool" where
  "refs_ok db \<longleftrightarrow>
     distinct (map s_id (sessions db)) \<and> list_all (session_refs db) (sessions db) \<and>
     distinct (map t_id (turns db)) \<and> distinct (map (\<lambda>t. (t_session t, t_seq t)) (turns db)) \<and>
     list_all (turn_refs db) (turns db) \<and>
     list_all (run_refs db) (runs db) \<and>
     distinct (map sel_turn (selections db)) \<and> list_all (selection_refs (runs db)) (selections db) \<and>
     distinct (map (\<lambda>i. (i_scope i, i_key i)) (idem db))"

definition wf_db :: "db \<Rightarrow> bool" where
  "wf_db db \<longleftrightarrow> runs_ok (runs db) \<and> journal_ok (runs db) (events db) \<and> refs_ok db"

definition empty_db :: "int \<Rightarrow> db" where
  "empty_db version =
     \<lparr>sessions = [], contexts = [], turns = [], runs = [], selections = [], events = [], idem = [],
      activity = [], proposals = [], executions = [], grants = [], receipts = [], targets = [],
      connectors = [], user_version = version\<rparr>"

lemma wf_empty: "wf_db (empty_db v)"
  by (simp add: wf_db_def empty_db_def runs_ok_def runs_unique_def journal_ok_def refs_ok_def)

lemma wf_opened: "wf_db db \<Longrightarrow> row \<in> set (runs db) \<Longrightarrow> opened (runs db) (events db) row []"
  by (simp add: wf_db_def opened_start journal_bounded_ok)

lemma wf_start: "wf_db db \<Longrightarrow> row \<in> set (runs db) \<Longrightarrow> with_run row [] db = db"
  by (simp add: wf_db_def with_run_start)

lemma wf_parse: "wf_db db \<Longrightarrow> row \<in> set (runs db) \<Longrightarrow> parseRunRow row = Inr row"
  by (auto simp: wf_db_def refs_ok_def list_all_iff run_refs_def opt_ok_def parseRunRow_def
      split: option.splits)

subsection \<open>A finished transition\<close>

text \<open>
  The columns of a run that its end freezes: all but the memory status and the count of tool requests,
  which are written without a look at the status.
\<close>

definition frozen_columns :: "run_row \<Rightarrow> run_row" where
  "frozen_columns r = r\<lparr>r_toolRequestsUsed := 0, r_memoryStatus := None\<rparr>"

lemma frozen_columns_sel:
  assumes "frozen_columns r' = frozen_columns r"
  shows "r_id r' = r_id r" "r_turn r' = r_turn r" "r_session r' = r_session r" "r_attempt r' = r_attempt r"
    "r_status r' = r_status r" "r_strategy r' = r_strategy r" "r_result r' = r_result r"
    "r_errorCode r' = r_errorCode r" "r_eventSeq r' = r_eventSeq r" "r_selectOnSuccess r' = r_selectOnSuccess r"
    "r_startedAt r' = r_startedAt r" "r_finishedAt r' = r_finishedAt r" "r_cancelRequestedAt r' = r_cancelRequestedAt r"
  using assms by (cases r; cases r'; simp add: frozen_columns_def)+

text \<open>
  \<open>moved db row evs\<close>: \<open>row\<close> is the finished state of a row of the store after the events \<open>evs\<close>: everything that
  \<open>with_run row evs db\<close> needs to satisfy the invariant again.
\<close>

definition moved :: "db \<Rightarrow> run_row \<Rightarrow> run_event list \<Rightarrow> bool" where
  "moved db row evs \<longleftrightarrow> opened (runs db) (events db) row evs \<and> opt_ok run_result_ok (r_result row) \<and>
     (\<exists>old \<in> set (runs db). extends old row evs \<and> r_turn row = r_turn old \<and> r_session row = r_session old \<and>
        r_attempt row = r_attempt old \<and>
        (isTerminalStatus (r_status old) \<longrightarrow> frozen_columns row = frozen_columns old))"

lemma selection_refs_put:
  assumes "distinct (map r_id rs)" "old \<in> set rs" "r_id row = r_id old" "r_turn row = r_turn old"
    "r_status old = Completed \<Longrightarrow> r_status row = Completed" "selection_refs rs s"
  shows "selection_refs (put_row r_id row rs) s"
  using assms by (fastforce simp: selection_refs_def list_ex_iff set_put_row)

lemma refs_ok_with_run:
  assumes "refs_ok db" "distinct (map r_id (runs db))" "old \<in> set (runs db)" "r_id row = r_id old"
    "r_turn row = r_turn old" "r_session row = r_session old" "r_attempt row = r_attempt old"
    "opt_ok run_result_ok (r_result row)" "r_status old = Completed \<Longrightarrow> r_status row = Completed"
  shows "refs_ok (with_run row evs db)"
proof -
  have "list_all (selection_refs (put_row r_id row (runs db))) (selections db)"
    using assms selection_refs_put [of "runs db" old row] by (auto simp: refs_ok_def list_all_iff)
  moreover have "list_all (run_refs db) (put_row r_id row (runs db))"
    using assms set_put_row [of r_id "runs db" old row] by (auto simp: refs_ok_def list_all_iff run_refs_def)
  ultimately show ?thesis
    using assms(1)
    by (simp add: refs_ok_def session_refs_def [abs_def] turn_refs_def [abs_def] run_refs_def [abs_def])
qed

lemma wf_moved:
  assumes "wf_db db" "moved db row evs"
  shows "wf_db (with_run row evs db)"
proof -
  obtain old where old: "old \<in> set (runs db)" "extends old row evs" "r_turn row = r_turn old"
    "r_session row = r_session old" "r_attempt row = r_attempt old"
    "isTerminalStatus (r_status old) \<longrightarrow> frozen_columns row = frozen_columns old"
    using assms(2) by (auto simp: moved_def)
  have d: "distinct (map r_id (runs db))"
    using assms(1) by (simp add: wf_db_def runs_ok_def)
  have c: "r_status row = Completed" if "r_status old = Completed"
    using old(6) that frozen_columns_sel(5) [of row old] by simp
  have "refs_ok db" "r_id row = r_id old" "opt_ok run_result_ok (r_result row)"
    using assms old(2) by (simp_all add: wf_db_def moved_def extends_def)
  then have "refs_ok (with_run row evs db)"
    using d old(1,3-5) c by (intro refs_ok_with_run)
  moreover have "runs_ok (put_row r_id row (runs db))"
    using assms(2) runs_ok_put by (auto simp: moved_def)
  moreover have "journal_ok (put_row r_id row (runs db)) (events db @ evs)"
    using assms(1) d old by (intro journal_ok_put) (auto simp: wf_db_def)
  ultimately show ?thesis
    by (simp add: wf_db_def)
qed

text \<open>The other tables that transitions touch do not matter to the invariant, except the selections.\<close>

lemma wf_other [simp]:
  "wf_db (db\<lparr>executions := x\<rparr>) = wf_db db" "wf_db (db\<lparr>grants := g\<rparr>) = wf_db db"
  "wf_db (db\<lparr>receipts := c\<rparr>) = wf_db db" "wf_db (db\<lparr>proposals := p\<rparr>) = wf_db db"
  "wf_db (db\<lparr>activity := a\<rparr>) = wf_db db"
  by (simp_all add: wf_db_def refs_ok_def session_refs_def [abs_def] turn_refs_def [abs_def]
      run_refs_def [abs_def])

lemma wf_idem:
  "wf_db db \<Longrightarrow> storeIdempotentResponse scope key hash status body now db = Inr db' \<Longrightarrow> wf_db db'"
  by (auto simp: storeIdempotentResponse_def insert_idem_def toStoredResponse_def find_None_iff wf_db_def
      refs_ok_def session_refs_def [abs_def] turn_refs_def [abs_def] run_refs_def [abs_def]
      split: if_splits)

lemma wf_select:
  assumes "wf_db db" "select_run run now db = Inr db'" "r_id run = rid"
    and "\<And>r. r \<in> set (runs db) \<Longrightarrow> r_id r = rid \<Longrightarrow> r_status r = Completed"
  shows "wf_db db'"
proof (cases "r_selectOnSuccess run")
  case False
  then show ?thesis using assms(1,2) by (simp add: select_run_def)
next
  case True
  let ?s = "\<lparr>sel_turn = r_turn run, sel_run = r_id run, sel_at = now\<rparr>"
  obtain r where r: "r \<in> set (runs db)" "r_id r = rid" "r_turn r = r_turn run" "r_status r = Completed"
    using True assms by (auto simp: select_run_def upsert_selection_def split: if_splits)
  then have s: "selection_refs (runs db) ?s"
    using assms(3) by (auto simp: selection_refs_def list_ex_iff)
  have "db' = db\<lparr>selections := put_row sel_turn ?s (selections db)\<rparr> \<or>
      db' = db\<lparr>selections := selections db @ [?s]\<rparr> \<and> r_turn run \<notin> set (map sel_turn (selections db))"
    using True assms(2) by (auto simp: select_run_def upsert_selection_def split: if_splits)
  then show ?thesis
    using assms(1) s set_put_row_subset [of sel_turn ?s "selections db"]
    by (auto simp: wf_db_def refs_ok_def session_refs_def [abs_def] turn_refs_def [abs_def]
        run_refs_def [abs_def] list_all_iff)
qed

subsection \<open>What a run's past and future have in common\<close>

text \<open>
  \<open>evolves db db'\<close>: every run of \<open>db\<close> is still there, its journal was only extended, by events that lead
  from its old status to its new one; a run that had ended keeps its frozen columns; and every stored
  response is still there.
\<close>

definition run_evolves :: "db \<Rightarrow> db \<Rightarrow> run_row \<Rightarrow> run_row \<Rightarrow> bool" where
  "run_evolves db db' r r' \<longleftrightarrow> r_id r' = r_id r \<and> r_turn r' = r_turn r \<and> r_session r' = r_session r \<and>
     r_attempt r' = r_attempt r \<and> r_strategy r' = r_strategy r \<and>
     (\<exists>evs. runEvents db' (r_id r) = runEvents db (r_id r) @ evs \<and>
        follow (is_m5 r) (r_status r) (map ev_payload evs) = Some (r_status r')) \<and>
     (isTerminalStatus (r_status r) \<longrightarrow> frozen_columns r' = frozen_columns r)"

definition evolves :: "db \<Rightarrow> db \<Rightarrow> bool" where
  "evolves db db' \<longleftrightarrow> set (idem db) \<subseteq> set (idem db') \<and>
     (\<forall>r \<in> set (runs db). \<exists>r' \<in> set (runs db'). run_evolves db db' r r')"

lemma evolves_same: "runs db' = runs db \<Longrightarrow> events db' = events db \<Longrightarrow> set (idem db) \<subseteq> set (idem db') \<Longrightarrow> evolves db db'"
  unfolding evolves_def run_evolves_def runEvents_def by (auto intro!: bexI exI [of _ "[]"])

lemma evolves_refl: "evolves db db"
  by (rule evolves_same) simp_all

lemma run_evolves_trans:
  assumes "run_evolves a b r r'" "run_evolves b c r' r''"
  shows "run_evolves a c r r''"
proof -
  obtain e1 where e1: "runEvents b (r_id r) = runEvents a (r_id r) @ e1"
    "follow (is_m5 r) (r_status r) (map ev_payload e1) = Some (r_status r')"
    using assms(1) by (auto simp: run_evolves_def)
  obtain e2 where e2: "runEvents c (r_id r') = runEvents b (r_id r') @ e2"
    "follow (is_m5 r') (r_status r') (map ev_payload e2) = Some (r_status r'')"
    using assms(2) by (auto simp: run_evolves_def)
  have "runEvents c (r_id r) = runEvents a (r_id r) @ e1 @ e2"
    using e1 e2 assms(1) by (simp add: run_evolves_def)
  moreover have "follow (is_m5 r) (r_status r) (map ev_payload (e1 @ e2)) = Some (r_status r'')"
    using e1 e2 assms(1) by (simp add: follow_append run_evolves_def is_m5_def)
  moreover have "frozen_columns r'' = frozen_columns r" if "isTerminalStatus (r_status r)"
  proof -
    have "frozen_columns r' = frozen_columns r"
      using assms(1) that by (simp add: run_evolves_def)
    then show ?thesis
      using assms(2) that frozen_columns_sel(5) [of r' r] by (simp add: run_evolves_def)
  qed
  ultimately show ?thesis
    using assms unfolding run_evolves_def by auto
qed

lemma evolves_trans: "evolves a b \<Longrightarrow> evolves b c \<Longrightarrow> evolves a c"
  unfolding evolves_def by (meson run_evolves_trans subset_trans)

lemma evolves_moved:
  assumes "wf_db db" "moved db row evs"
  shows "evolves db (with_run row evs db)"
proof -
  obtain old where old: "old \<in> set (runs db)" "extends old row evs" "r_turn row = r_turn old"
    "r_session row = r_session old" "r_attempt row = r_attempt old"
    "isTerminalStatus (r_status old) \<longrightarrow> frozen_columns row = frozen_columns old"
    using assms(2) by (auto simp: moved_def)
  have d: "distinct (map r_id (runs db))"
    using assms(1) by (simp add: wf_db_def runs_ok_def)
  have s: "set (put_row r_id row (runs db)) = insert row (set (runs db) - {old})"
    using d old by (intro set_put_row) (auto simp: extends_def)
  have mine: "filter (\<lambda>e. ev_runId e = r_id old) evs = evs"
    using old(2) by (auto simp: extends_def list_all_iff filter_id_conv)
  have "run_evolves db (with_run row evs db) old row"
    using old mine by (auto simp: run_evolves_def runEvents_def extends_def)
  moreover have "run_evolves db (with_run row evs db) q q" if "q \<in> set (runs db)" "q \<noteq> old" for q
  proof -
    have "r_id q \<noteq> r_id old"
      using that old d by (auto dest: distinct_key_eq)
    then have "filter (\<lambda>e. ev_runId e = r_id q) evs = []"
      using old(2) by (auto simp: extends_def list_all_iff filter_empty_conv)
    then show ?thesis
      by (simp add: run_evolves_def runEvents_def)
  qed
  ultimately show ?thesis
    unfolding evolves_def using s by (metis Diff_iff empty_iff insert_iff subset_refl with_run_sel(1,7))
qed

definition kept :: "db \<Rightarrow> db \<Rightarrow> bool" where
  "kept db db' \<longleftrightarrow> wf_db db' \<and> evolves db db'"

lemma kept_refl: "wf_db db \<Longrightarrow> kept db db"
  by (simp add: kept_def evolves_refl)

lemma kept_trans: "kept a b \<Longrightarrow> kept b c \<Longrightarrow> kept a c"
  unfolding kept_def using evolves_trans by blast

lemma kept_wf: "kept a b \<Longrightarrow> wf_db b"
  by (simp add: kept_def)

lemma kept_moved: "wf_db db \<Longrightarrow> moved db row evs \<Longrightarrow> kept db (with_run row evs db)"
  by (simp add: kept_def wf_moved evolves_moved)

lemma kept_idem:
  "wf_db db \<Longrightarrow> storeIdempotentResponse scope key hash status body now db = Inr db' \<Longrightarrow> kept db db'"
proof -
  assume w: "wf_db db" and r: "storeIdempotentResponse scope key hash status body now db = Inr db'"
  obtain i where "db' = db\<lparr>idem := idem db @ [i]\<rparr>"
    using r by (auto simp: storeIdempotentResponse_def insert_idem_def split: if_splits)
  then have "evolves db db'"
    by (intro evolves_same) auto
  then show ?thesis
    using wf_idem [OF w r] by (simp add: kept_def)
qed

lemma kept_other:
  assumes "wf_db db" "runs db' = runs db" "events db' = events db" "sessions db' = sessions db"
    "contexts db' = contexts db" "turns db' = turns db" "selections db' = selections db" "idem db' = idem db"
  shows "kept db db'"
proof -
  have "session_refs db' = session_refs db" "turn_refs db' = turn_refs db" "run_refs db' = run_refs db"
    using assms by (simp_all add: fun_eq_iff session_refs_def turn_refs_def run_refs_def)
  then have "wf_db db'"
    using assms unfolding wf_db_def refs_ok_def by simp
  moreover have "evolves db db'"
    using assms by (intro evolves_same) simp_all
  ultimately show ?thesis by (simp add: kept_def)
qed

lemma kept_activity:
  "wf_db db \<Longrightarrow> recordUserActivityInTx fresh sid now db = Inr db' \<Longrightarrow> kept db db'"
proof -
  assume w: "wf_db db" and r: "recordUserActivityInTx fresh sid now db = Inr db'"
  obtain a where "db' = db\<lparr>activity := activity db @ [a]\<rparr>"
    using r by (auto simp: recordUserActivityInTx_def recordActivityInTx_def insert_activity_def
        split: if_splits)
  then show ?thesis
    using w by (intro kept_other) simp_all
qed

subsection \<open>One guarded update and one event\<close>

lemma transition1:
  assumes "wf_db db" "row \<in> set (runs db)" "rid = r_id row" "\<And>r. p r \<longleftrightarrow> r_id r = rid \<and> g r" "g row"
    and "r_id (f row) = r_id row" "r_turn (f row) = r_turn row" "r_session (f row) = r_session row"
    and "r_attempt (f row) = r_attempt row" "r_strategy (f row) = r_strategy row"
    and "r_eventSeq (f row) = r_eventSeq row" "run_check (f row)" "opt_ok run_result_ok (r_result (f row))"
    and "active_row (f row) \<Longrightarrow> active_row row" "payload_ok pl"
    and "status_after (is_m5 row) (r_status row) pl = Some (r_status (f row))"
  shows "update_runs p f db = Inr (1, with_run (f row) [] db)"
    and "appendEventInTx rid (r_eventSeq row) pl now (with_run (f row) [] db) =
      Inr (r_eventSeq row + 1, with_run (next_seq (f row)) [appended (f row) pl now] db)"
    and "moved db (next_seq (f row)) [appended (f row) pl now]"
    and "reread rid (with_run (next_seq (f row)) [appended (f row) pl now] db) = Inr (next_seq (f row))"
proof -
  have o: "opened (runs db) (events db) row []"
    using assms(1,2) by (rule wf_opened)
  have of: "opened (runs db) (events db) (f row) []"
    using assms by (intro opened_update [OF o]) auto
  have on: "opened (runs db) (events db) (next_seq (f row)) [appended (f row) pl now]"
    using opened_next [OF of] by simp
  show "update_runs p f db = Inr (1, with_run (f row) [] db)"
    using update_runs_opened [where db = db and row = row and evs = "[]" and p = p and g = g and f = f,
        OF o _ assms(5) of] assms by (simp add: wf_start)
  show "appendEventInTx rid (r_eventSeq row) pl now (with_run (f row) [] db) =
      Inr (r_eventSeq row + 1, with_run (next_seq (f row)) [appended (f row) pl now] db)"
    using appendEventInTx_opened [OF of assms(15)] assms by simp
  show "moved db (next_seq (f row)) [appended (f row) pl now]"
    unfolding moved_def extends_def using on assms status_after_terminal [of "r_status row"]
    by (auto simp: appended_def intro!: bexI [of _ row])
  show "reread rid (with_run (next_seq (f row)) [appended (f row) pl now] db) = Inr (next_seq (f row))"
    using readRun_opened [OF on] assms by (auto simp: reread_def parseRunRow_def opt_ok_def split: option.splits)
qed

lemma run_check_of: "wf_db db \<Longrightarrow> row \<in> set (runs db) \<Longrightarrow> run_check row"
  by (auto simp: wf_db_def runs_ok_def list_all_iff)

lemma result_of: "wf_db db \<Longrightarrow> row \<in> set (runs db) \<Longrightarrow> opt_ok run_result_ok (r_result row)"
  by (auto simp: wf_db_def refs_ok_def list_all_iff run_refs_def)

text \<open>A write of the columns that stay open after the end.\<close>

lemma moved_columns:
  assumes "wf_db db" "row \<in> set (runs db)" "frozen_columns row' = frozen_columns row"
  shows "moved db row' []"
proof -
  note c = frozen_columns_sel [OF assms(3)]
  have "run_check row'"
    using run_check_of [OF assms(1,2)] unfolding run_check_def c .
  then have "opened (runs db) (events db) row' []"
    using c by (intro opened_update [OF wf_opened [OF assms(1,2)]]) (simp_all add: active_row_def)
  moreover have "extends row row' []"
    using c by (simp add: extends_def)
  ultimately show ?thesis
    unfolding moved_def using assms(2,3) c result_of [OF assms(1,2)] by (auto intro!: bexI [of _ row])
qed

end
