(* ===== verification/Run_Steps.thy ===== *)
theory Run_Steps
  imports Run_Inv
begin

text \<open>
  What each transition of the repository does to a store that satisfies the invariant: the exact
  store after it (one row of \<open>runs\<close> replaced and its events appended), and that it is kept
  (\<open>wf_db\<close> and \<open>evolves\<close>).
\<close>

definition started :: "int \<Rightarrow> run_row \<Rightarrow> run_row" where
  "started now r = r\<lparr>r_status := Running, r_startedAt := Some now\<rparr>"

definition failed_with :: "jstr \<Rightarrow> int \<Rightarrow> run_row \<Rightarrow> run_row" where
  "failed_with code now r = r\<lparr>r_status := Failed, r_errorCode := Some code, r_finishedAt := Some now\<rparr>"

definition completed_with :: "run_result \<Rightarrow> int \<Rightarrow> run_row \<Rightarrow> run_row" where
  "completed_with result now r = r\<lparr>r_status := Completed, r_result := Some result, r_finishedAt := Some now\<rparr>"

definition cancelled_now :: "int \<Rightarrow> run_row \<Rightarrow> run_row" where
  "cancelled_now now r = r\<lparr>r_status := Cancelled, r_cancelRequestedAt := Some now, r_finishedAt := Some now\<rparr>"

definition cancel_asked :: "int \<Rightarrow> run_row \<Rightarrow> run_row" where
  "cancel_asked now r = r\<lparr>r_status := Cancel_requested, r_cancelRequestedAt := Some now\<rparr>"

definition ended :: "run_status \<Rightarrow> int \<Rightarrow> run_row \<Rightarrow> run_row" where
  "ended target now r = r\<lparr>r_status := target, r_finishedAt := Some now\<rparr>"

lemmas row_update_defs =
  started_def failed_with_def completed_with_def cancelled_now_def cancel_asked_def ended_def

lemma upd_sel [simp]:
  "r_id (started now r) = r_id r" "r_id (failed_with c now r) = r_id r"
  "r_id (completed_with res now r) = r_id r" "r_id (cancelled_now now r) = r_id r"
  "r_id (cancel_asked now r) = r_id r" "r_id (ended t now r) = r_id r"
  "r_status (started now r) = Running" "r_status (failed_with c now r) = Failed"
  "r_status (completed_with res now r) = Completed" "r_status (cancelled_now now r) = Cancelled"
  "r_status (cancel_asked now r) = Cancel_requested" "r_status (ended t now r) = t"
  by (simp_all add: row_update_defs)

lemma row_update_folds:
  "(\<lambda>r. r\<lparr>r_status := Running, r_startedAt := Some now\<rparr>) = started now"
  "(\<lambda>r. r\<lparr>r_status := Failed, r_errorCode := Some code, r_finishedAt := Some now\<rparr>) = failed_with code now"
  "(\<lambda>r. r\<lparr>r_status := Completed, r_result := Some result, r_finishedAt := Some now\<rparr>) =
     completed_with result now"
  "(\<lambda>r. r\<lparr>r_status := Cancelled, r_cancelRequestedAt := Some now, r_finishedAt := Some now\<rparr>) =
     cancelled_now now"
  "(\<lambda>r. r\<lparr>r_status := Cancel_requested, r_cancelRequestedAt := Some now\<rparr>) = cancel_asked now"
  "(\<lambda>r. r\<lparr>r_status := target, r_finishedAt := Some now\<rparr>) = ended target now"
  by (simp_all add: row_update_defs fun_eq_iff)

text \<open>A legal single step of a row, with the event it is journalled by.\<close>

definition legal :: "run_row \<Rightarrow> run_row \<Rightarrow> payload_ev \<Rightarrow> bool" where
  "legal row row' pl \<longleftrightarrow> r_id row' = r_id row \<and> r_turn row' = r_turn row \<and> r_session row' = r_session row \<and>
     r_attempt row' = r_attempt row \<and> r_strategy row' = r_strategy row \<and> r_eventSeq row' = r_eventSeq row \<and>
     run_check row' \<and> opt_ok run_result_ok (r_result row') \<and> (active_row row' \<longrightarrow> active_row row) \<and>
     payload_ok pl \<and> status_after (is_m5 row) (r_status row) pl = Some (r_status row')"

text \<open>The store after the step.\<close>

definition after_db :: "run_row \<Rightarrow> payload_ev \<Rightarrow> int \<Rightarrow> db \<Rightarrow> db" where
  "after_db row' pl now db = with_run (next_seq row') [appended row' pl now] db"

lemma legal_step:
  assumes "wf_db db" "row \<in> set (runs db)" "legal row (f row) pl" "r_status row = s"
  shows legal_update:
      "update_runs (\<lambda>r. r_id r = r_id row \<and> r_status r = s) f db = Inr (1, with_run (f row) [] db)"
    and legal_append: "appendEventInTx (r_id row) (r_eventSeq row) pl now (with_run (f row) [] db) =
      Inr (r_eventSeq row + 1, after_db (f row) pl now db)"
    and legal_moved: "moved db (next_seq (f row)) [appended (f row) pl now]"
    and legal_reread: "reread (r_id row) (after_db (f row) pl now db) = Inr (next_seq (f row))"
proof -
  have l: "r_id (f row) = r_id row" "r_turn (f row) = r_turn row" "r_session (f row) = r_session row"
    "r_attempt (f row) = r_attempt row" "r_strategy (f row) = r_strategy row"
    "r_eventSeq (f row) = r_eventSeq row" "run_check (f row)" "opt_ok run_result_ok (r_result (f row))"
    "active_row (f row) \<Longrightarrow> active_row row" "payload_ok pl"
    "status_after (is_m5 row) (r_status row) pl = Some (r_status (f row))"
    using assms(3) by (simp_all add: legal_def)
  note t = transition1 [where rid = "r_id row" and p = "\<lambda>r. r_id r = r_id row \<and> r_status r = s" and
      g = "\<lambda>r. r_status r = s" and f = f and row = row and db = db and pl = pl, OF assms(1,2) refl refl assms(4) l]
  show "update_runs (\<lambda>r. r_id r = r_id row \<and> r_status r = s) f db = Inr (1, with_run (f row) [] db)"
    by (rule t(1))
  show "appendEventInTx (r_id row) (r_eventSeq row) pl now (with_run (f row) [] db) =
      Inr (r_eventSeq row + 1, after_db (f row) pl now db)"
    unfolding after_db_def by (rule t(2))
  show "moved db (next_seq (f row)) [appended (f row) pl now]"
    by (rule t(3))
  show "reread (r_id row) (after_db (f row) pl now db) = Inr (next_seq (f row))"
    unfolding after_db_def by (rule t(4))
qed

lemma kept_after: "wf_db db \<Longrightarrow> moved db (next_seq row') [appended row' pl now] \<Longrightarrow> kept db (after_db row' pl now db)"
  unfolding after_db_def by (rule kept_moved)

lemma status_row:
  assumes "wf_db db" "row \<in> set (runs db)"
  shows "r_status row = Queued \<Longrightarrow> legal row (started now row) (Run_started (int (r_attempt row)))"
    and "r_status row = Queued \<Longrightarrow> legal row (cancelled_now now row) Run_cancelled"
    and "r_status row = Running \<Longrightarrow> is_code M0_RUN_ERROR_CODES code \<Longrightarrow>
           legal row (failed_with code now row) (Run_failed code)"
    and "r_status row = Running \<Longrightarrow> run_result_ok result \<Longrightarrow>
           legal row (completed_with result now row) (Run_completed result)"
    and "r_status row = Running \<Longrightarrow> \<not> is_m5 row \<Longrightarrow> legal row (cancel_asked now row) Run_cancel_requested"
    and "r_status row = Running \<Longrightarrow> legal row (ended Abandoned now row) (Run_abandoned cause)"
    and "r_status row = Cancel_requested \<Longrightarrow> legal row (ended Cancelled now row) Run_cancelled"
  using run_check_of [OF assms] result_of [OF assms]
  by (simp_all add: legal_def run_check_def row_update_defs active_row_def status_after_def opt_ok_def)

lemma readRun_in: "readRun db rid = Some row \<Longrightarrow> row \<in> set (runs db) \<and> rid = r_id row"
  using readRun_Some by blast

subsection \<open>The single-step transactions\<close>

lemma start_tx_queued:
  assumes "wf_db db" "readRun db rid = Some row" "r_status row = Queued"
  shows "start_tx rid now db = Inr ((True, next_seq (started now row)),
      after_db (started now row) (Run_started (int (r_attempt row))) now db)"
    and "kept db (after_db (started now row) (Run_started (int (r_attempt row))) now db)"
proof -
  have r: "row \<in> set (runs db)" "rid = r_id row"
    using readRun_in [OF assms(2)] by auto
  note l = status_row(1) [OF assms(1) r(1) assms(3)]
  note s = legal_step [where f = "started now" and pl = "Run_started (int (r_attempt row))" and row = row and
      db = db and s = Queued, OF assms(1) r(1) l assms(3)]
  show "start_tx rid now db = Inr ((True, next_seq (started now row)),
      after_db (started now row) (Run_started (int (r_attempt row))) now db)"
    using assms(2,3) s unfolding start_tx_def row_update_folds r(2) by simp
  show "kept db (after_db (started now row) (Run_started (int (r_attempt row))) now db)"
    by (rule kept_after [OF assms(1) s(3)])
qed

lemma fail_tx_running:
  assumes "wf_db db" "readRun db rid = Some row" "r_status row = Running" "\<not> is_m5 row"
    "is_code M0_RUN_ERROR_CODES code"
  shows "fail_tx rid code now db = Inr ((True, next_seq (failed_with code now row)),
      after_db (failed_with code now row) (Run_failed code) now db)"
    and "kept db (after_db (failed_with code now row) (Run_failed code) now db)"
proof -
  have r: "row \<in> set (runs db)" "rid = r_id row"
    using readRun_in [OF assms(2)] by auto
  note l = status_row(3) [OF assms(1) r(1) assms(3,5)]
  note s = legal_step [where f = "failed_with code now" and pl = "Run_failed code" and row = row and
      db = db and s = Running, OF assms(1) r(1) l assms(3)]
  show "fail_tx rid code now db = Inr ((True, next_seq (failed_with code now row)),
      after_db (failed_with code now row) (Run_failed code) now db)"
    using assms(2-4) s unfolding fail_tx_def row_update_folds r(2) by simp
  show "kept db (after_db (failed_with code now row) (Run_failed code) now db)"
    by (rule kept_after [OF assms(1) s(3)])
qed

lemma cancel_tx_queued:
  assumes "wf_db db" "readRun db rid = Some row" "r_status row = Queued" "r_session row = session"
  shows "cancel_tx session rid now db = Inr ((Cancelled, next_seq (cancelled_now now row)),
      after_db (cancelled_now now row) Run_cancelled now db)"
    and "kept db (after_db (cancelled_now now row) Run_cancelled now db)"
proof -
  have r: "row \<in> set (runs db)" "rid = r_id row"
    using readRun_in [OF assms(2)] by auto
  note l = status_row(2) [OF assms(1) r(1) assms(3)]
  note s = legal_step [where f = "cancelled_now now" and pl = Run_cancelled and row = row and
      db = db and s = Queued, OF assms(1) r(1) l assms(3)]
  show "cancel_tx session rid now db = Inr ((Cancelled, next_seq (cancelled_now now row)),
      after_db (cancelled_now now row) Run_cancelled now db)"
    using assms(2-4) s unfolding cancel_tx_def requireOwnedRun_def row_update_folds r(2) by simp
  show "kept db (after_db (cancelled_now now row) Run_cancelled now db)"
    by (rule kept_after [OF assms(1) s(3)])
qed

lemma cancel_tx_running:
  assumes "wf_db db" "readRun db rid = Some row" "r_status row = Running" "\<not> is_m5 row"
    "r_session row = session"
  shows "cancel_tx session rid now db = Inr ((Cancel_requested, next_seq (cancel_asked now row)),
      after_db (cancel_asked now row) Run_cancel_requested now db)"
    and "kept db (after_db (cancel_asked now row) Run_cancel_requested now db)"
proof -
  have r: "row \<in> set (runs db)" "rid = r_id row"
    using readRun_in [OF assms(2)] by auto
  note l = status_row(5) [OF assms(1) r(1) assms(3,4)]
  note s = legal_step [where f = "cancel_asked now" and pl = Run_cancel_requested and row = row and
      db = db and s = Running, OF assms(1) r(1) l assms(3)]
  show "cancel_tx session rid now db = Inr ((Cancel_requested, next_seq (cancel_asked now row)),
      after_db (cancel_asked now row) Run_cancel_requested now db)"
    using assms(2-5) s unfolding cancel_tx_def requireOwnedRun_def row_update_folds r(2) by simp
  show "kept db (after_db (cancel_asked now row) Run_cancel_requested now db)"
    by (rule kept_after [OF assms(1) s(3)])
qed

lemma finalize_tx_asked:
  assumes "wf_db db" "readRun db rid = Some row" "r_status row = Cancel_requested"
  shows "finalize_tx rid now db = Inr ((True, next_seq (ended Cancelled now row)),
      after_db (ended Cancelled now row) Run_cancelled now db)"
    and "kept db (after_db (ended Cancelled now row) Run_cancelled now db)"
proof -
  have r: "row \<in> set (runs db)" "rid = r_id row"
    using readRun_in [OF assms(2)] by auto
  note l = status_row(7) [OF assms(1) r(1) assms(3)]
  note s = legal_step [where f = "ended Cancelled now" and pl = Run_cancelled and row = row and
      db = db and s = Cancel_requested, OF assms(1) r(1) l assms(3)]
  show "finalize_tx rid now db = Inr ((True, next_seq (ended Cancelled now row)),
      after_db (ended Cancelled now row) Run_cancelled now db)"
    using assms(2,3) s unfolding finalize_tx_def row_update_folds r(2) by simp
  show "kept db (after_db (ended Cancelled now row) Run_cancelled now db)"
    by (rule kept_after [OF assms(1) s(3)])
qed

lemma settle_tx_running:
  assumes "wf_db db" "readRun db rid = Some row" "r_status row = Running"
  shows "settle_tx rid cause now db =
      Inr ((True, Abandoned), after_db (ended Abandoned now row) (Run_abandoned cause) now db)"
    and "kept db (after_db (ended Abandoned now row) (Run_abandoned cause) now db)"
proof -
  have r: "row \<in> set (runs db)" "rid = r_id row"
    using readRun_in [OF assms(2)] by auto
  note l = status_row(6) [OF assms(1) r(1) assms(3)]
  note s = legal_step [where f = "ended Abandoned now" and pl = "Run_abandoned cause" and row = row and
      db = db and s = Running, OF assms(1) r(1) l assms(3)]
  show "settle_tx rid cause now db =
      Inr ((True, Abandoned), after_db (ended Abandoned now row) (Run_abandoned cause) now db)"
    using assms(2,3) s unfolding settle_tx_def row_update_folds r(2) by simp
  show "kept db (after_db (ended Abandoned now row) (Run_abandoned cause) now db)"
    by (rule kept_after [OF assms(1) s(3)])
qed

text \<open>One row of a sweep: a row of the expected status is ended.\<close>

lemma sweep_one_row:
  assumes "wf_db db" "row \<in> set (runs db)" "r_status row = s" "legal row (ended t now row) pl"
  shows "sweep_one s t pl now row db = Inr (True, after_db (ended t now row) pl now db)"
    and "kept db (after_db (ended t now row) pl now db)"
proof -
  note s = legal_step [where f = "ended t now" and pl = pl and row = row and
      db = db and s = s, OF assms(1,2,4,3)]
  show "sweep_one s t pl now row db = Inr (True, after_db (ended t now row) pl now db)"
    using assms(3) s unfolding sweep_one_def row_update_folds by simp
  show "kept db (after_db (ended t now row) pl now db)"
    by (rule kept_after [OF assms(1) s(3)])
qed

subsection \<open>Every outcome of the single-step transactions is kept\<close>

lemma start_tx_kept: "wf_db db \<Longrightarrow> start_tx rid now db = Inr (x, db') \<Longrightarrow> kept db db'"
proof (cases "readRun db rid")
  case (Some row)
  assume a: "wf_db db" "start_tx rid now db = Inr (x, db')"
  show ?thesis
  proof (cases "r_status row = Queued")
    case True
    then show ?thesis using start_tx_queued [OF a(1) Some] a(2) by auto
  next
    case False
    then show ?thesis using Some a by (auto simp: start_tx_def rbind_eq_Inr kept_refl)
  qed
qed (simp add: start_tx_def)

lemma fail_tx_kept:
  "wf_db db \<Longrightarrow> is_code M0_RUN_ERROR_CODES code \<Longrightarrow> fail_tx rid code now db = Inr (x, db') \<Longrightarrow> kept db db'"
proof (cases "readRun db rid")
  case (Some row)
  assume a: "wf_db db" "is_code M0_RUN_ERROR_CODES code" "fail_tx rid code now db = Inr (x, db')"
  show ?thesis
  proof (cases "r_status row = Running \<and> \<not> is_m5 row")
    case True
    then show ?thesis using fail_tx_running [OF a(1) Some] a(2,3) by auto
  next
    case False
    then show ?thesis using Some a by (auto simp: fail_tx_def rbind_eq_Inr kept_refl split: if_splits)
  qed
qed (simp add: fail_tx_def)

lemma cancel_tx_kept:
  assumes "wf_db db" "cancel_tx session rid now db = Inr (x, db')"
    and "\<And>row. readRun db rid = Some row \<Longrightarrow> \<not> is_m5 row"
  shows "kept db db'"
proof (cases "readRun db rid")
  case None
  then show ?thesis using assms by (simp add: cancel_tx_def requireOwnedRun_def)
next
  case (Some row)
  have own: "r_session row = session"
    using Some assms(2) by (auto simp: cancel_tx_def requireOwnedRun_def split: if_splits)
  show ?thesis
  proof (cases "r_status row")
    case Queued
    then show ?thesis using cancel_tx_queued [OF assms(1) Some Queued own] assms(2) by auto
  next
    case Running
    then show ?thesis using cancel_tx_running [OF assms(1) Some Running assms(3) [OF Some] own] assms(2) by auto
  qed (use Some own assms in \<open>auto simp: cancel_tx_def requireOwnedRun_def rbind_eq_Inr kept_refl\<close>)
qed

lemma finalize_tx_kept: "wf_db db \<Longrightarrow> finalize_tx rid now db = Inr (x, db') \<Longrightarrow> kept db db'"
proof (cases "readRun db rid")
  case (Some row)
  assume a: "wf_db db" "finalize_tx rid now db = Inr (x, db')"
  show ?thesis
  proof (cases "r_status row = Cancel_requested")
    case True
    then show ?thesis using finalize_tx_asked [OF a(1) Some] a(2) by auto
  next
    case False
    then show ?thesis using Some a by (auto simp: finalize_tx_def rbind_eq_Inr kept_refl)
  qed
qed (simp add: finalize_tx_def)

lemma settle_tx_kept: "wf_db db \<Longrightarrow> settle_tx rid cause now db = Inr (x, db') \<Longrightarrow> kept db db'"
proof (cases "readRun db rid")
  case (Some row)
  assume a: "wf_db db" "settle_tx rid cause now db = Inr (x, db')"
  show ?thesis
  proof (cases "r_status row = Running")
    case True
    then show ?thesis using settle_tx_running [OF a(1) Some] a(2) by auto
  next
    case False
    then show ?thesis using Some a by (auto simp: settle_tx_def kept_refl)
  qed
qed (simp add: settle_tx_def)

end
