(* ===== verification/Run_Trail.thy ===== *)
theory Run_Trail
  imports Run_Steps
begin

text \<open>
  Transactions that journal a run by several events. \<open>during db old row evs s\<close> holds in the middle of one:
  \<open>row\<close> and \<open>evs\<close> are what has become of the row \<open>old\<close> of \<open>db\<close> so far, and \<open>s\<close> is the status that the events lead
  to, which may lag behind the status of \<open>row\<close>. The rules say what an update and an append do then,
  and that the store after the last of them is kept.
\<close>

definition during :: "db \<Rightarrow> run_row \<Rightarrow> run_row \<Rightarrow> run_event list \<Rightarrow> run_status \<Rightarrow> bool" where
  "during db old row evs s \<longleftrightarrow> opened (runs db) (events db) row evs \<and> old \<in> set (runs db) \<and>
     r_id row = r_id old \<and> r_turn row = r_turn old \<and> r_session row = r_session old \<and>
     r_attempt row = r_attempt old \<and> r_strategy row = r_strategy old \<and>
     r_eventSeq old \<le> r_eventSeq row \<and> map ev_seq evs = [Suc (r_eventSeq old)..<Suc (r_eventSeq row)] \<and>
     list_all (\<lambda>e. ev_runId e = r_id old \<and> payload_ok (ev_payload e)) evs \<and>
     follow (is_m5 old) (r_status old) (map ev_payload evs) = Some s"

lemma during_start: "wf_db db \<Longrightarrow> row \<in> set (runs db) \<Longrightarrow> during db row row [] (r_status row)"
  by (simp add: during_def wf_opened)

lemma during_tables:
  "runs db' = runs db \<Longrightarrow> events db' = events db \<Longrightarrow> during db' old row evs s = during db old row evs s"
  by (simp add: during_def)

lemma during_append:
  assumes "during db old row evs s" "payload_ok pl" "status_after (is_m5 old) s pl = Some s'"
  shows "during db old (next_seq row) (evs @ [appended row pl now]) s'"
  using assms opened_next [of "runs db" "events db" row evs pl now]
  by (auto simp: during_def appended_def follow_append)

lemma during_appendEvent:
  assumes "during db old row evs s" "payload_ok pl" "rid = r_id old" "n = r_eventSeq row"
  shows "appendEventInTx rid n pl now (with_run row evs db) =
    Inr (Suc n, with_run (next_seq row) (evs @ [appended row pl now]) db)"
  using assms appendEventInTx_opened [of db row evs pl rid n now] by (simp add: during_def)

text \<open>The columns a transition writes: not the keys, nor the event counter.\<close>

definition rewritten :: "run_row \<Rightarrow> run_row \<Rightarrow> bool" where
  "rewritten row row' \<longleftrightarrow> r_id row' = r_id row \<and> r_turn row' = r_turn row \<and> r_session row' = r_session row \<and>
     r_attempt row' = r_attempt row \<and> r_strategy row' = r_strategy row \<and> r_eventSeq row' = r_eventSeq row \<and>
     run_check row' \<and> (active_row row' \<longrightarrow> active_row row)"

lemma during_update:
  assumes "during db old row evs s" "rewritten row row'"
  shows "during db old row' evs s"
  using assms opened_update [of "runs db" "events db" row evs row'] by (auto simp: during_def rewritten_def)

lemma during_update_runs:
  assumes "during db old row evs s" "rewritten row (f row)" "\<And>r. p r \<longleftrightarrow> r_id r = r_id old \<and> g r" "g row"
  shows "update_runs p f (with_run row evs db) = Inr (1, with_run (f row) evs db)"
proof (rule update_runs_opened [where g = g])
  show "opened (runs db) (events db) row evs" and "opened (runs db) (events db) (f row) evs"
    using assms(1) during_update [OF assms(1,2)] by (simp_all add: during_def)
  show "p r \<longleftrightarrow> r_id r = r_id row \<and> g r" for r
    using assms(1,3) by (simp add: during_def)
  show "r_id (f row) = r_id row"
    using assms(2) by (simp add: rewritten_def)
qed (rule assms(4))

lemma during_readRun: "during db old row evs s \<Longrightarrow> rid = r_id old \<Longrightarrow> readRun (with_run row evs db) rid = Some row"
  using readRun_opened [of db row evs] by (simp add: during_def)

lemma during_moved:
  assumes "during db old row evs (r_status row)" "opt_ok run_result_ok (r_result row)" "\<not> isTerminalStatus (r_status old)"
  shows "moved db row evs"
  using assms unfolding moved_def by (auto simp: during_def extends_def intro!: bexI [of _ old])

lemma during_kept:
  "wf_db db \<Longrightarrow> during db old row evs (r_status row) \<Longrightarrow> opt_ok run_result_ok (r_result row) \<Longrightarrow>
     \<not> isTerminalStatus (r_status old) \<Longrightarrow> kept db (with_run row evs db)"
  by (rule kept_moved [OF _ during_moved])

lemma during_reread:
  "during db old row evs s \<Longrightarrow> opt_ok run_result_ok (r_result row) \<Longrightarrow> rid = r_id old \<Longrightarrow>
     reread rid (with_run row evs db) = Inr row"
  by (auto simp: reread_def during_readRun parseRunRow_def opt_ok_def split: option.splits)

subsection \<open>Tool events\<close>

lemma find_append: "find p (xs @ ys) = (case find p xs of None \<Rightarrow> find p ys | Some x \<Rightarrow> Some x)"
  by (induction xs) simp_all

lemma tool_event_tx_live:
  assumes "wf_db db" "readRun db rid = Some row" "\<not> isTerminalStatus (r_status row)" "is_tool_event pl"
    "payload_ok pl" "run_event_ok payload_ok (appended row pl now)"
  shows "tool_event_tx rid pl now db =
      Inr (appended row pl now, with_run (next_seq row) [appended row pl now] db)"
    and "kept db (with_run (next_seq row) [appended row pl now] db)"
proof -
  have r: "row \<in> set (runs db)" "rid = r_id row"
    using readRun_in [OF assms(2)] by auto
  note d = during_start [OF assms(1) r(1)]
  have st: "status_after (is_m5 row) (r_status row) pl = Some (r_status row)"
    using assms(3,4) by (cases pl) (auto simp: status_after_def)
  note e = during_append [OF d assms(5) st, of now, simplified]
  show k: "kept db (with_run (next_seq row) [appended row pl now] db)"
    using e result_of [OF assms(1) r(1)] assms(3) by (intro during_kept [OF assms(1)]) simp_all
  have old: "find (\<lambda>e. ev_runId e = r_id row \<and> ev_seq e = Suc (r_eventSeq row)) (events db) = None"
  proof -
    have "ev_seq e \<le> r_eventSeq row" if ev: "e \<in> set (events db)" "ev_runId e = r_id row" for e
    proof -
      obtain q where q: "q \<in> set (runs db)" "r_id q = ev_runId e" "ev_seq e \<le> r_eventSeq q"
        using wf_opened [OF assms(1) r(1)] ev by (auto simp: opened_def journal_bounded_def)
      then show ?thesis
        using ev(2) r(1) assms(1) distinct_key_eq [of r_id "runs db" q row]
        by (simp add: wf_db_def runs_ok_def)
    qed
    then show ?thesis by (fastforce simp: find_None_iff)
  qed
  have "find (\<lambda>e. ev_runId e = r_id row \<and> ev_seq e = Suc (r_eventSeq row)) (events db @ [appended row pl now]) =
      Some (appended row pl now)"
    using old by (simp add: appended_def find_append)
  then show "tool_event_tx rid pl now db =
      Inr (appended row pl now, with_run (next_seq row) [appended row pl now] db)"
    using assms(2,3,6) during_appendEvent [OF d assms(5) refl refl, of now] wf_start [OF assms(1) r(1)]
    by (simp add: tool_event_tx_def r(2))
qed

lemma tool_event_tx_kept:
  assumes "wf_db db" "is_tool_event pl" "tool_event_tx rid pl now db = Inr (x, db')"
  shows "kept db db'"
proof -
  obtain row where row: "readRun db rid = Some row" "\<not> isTerminalStatus (r_status row)"
    using assms(3) by (auto simp: tool_event_tx_def split: option.splits if_splits)
  then have r: "row \<in> set (runs db)" "rid = r_id row"
    using readRun_in [OF row(1)] by auto
  have ok: "payload_ok pl"
    using assms(3) row by (auto simp: tool_event_tx_def appendEventInTx_def split: if_splits)
  have st: "status_after (is_m5 row) (r_status row) pl = Some (r_status row)"
    using row(2) assms(2) by (cases pl) (auto simp: status_after_def)
  note d = during_start [OF assms(1) r(1)]
  have "db' = with_run (next_seq row) [appended row pl now] db"
    using assms(3) row during_appendEvent [OF d ok refl refl, of now] wf_start [OF assms(1) r(1)]
    by (auto simp: tool_event_tx_def r(2) split: option.splits if_splits)
  then show ?thesis
    using during_append [OF d ok st, of now, simplified] result_of [OF assms(1) r(1)] row(2)
    by (auto intro!: during_kept [OF assms(1)])
qed

subsection \<open>Completion\<close>

lemma if_Inl_eq_Inr: "(if b then Inl e else m) = Inr x \<longleftrightarrow> \<not> b \<and> m = Inr x"
  by simp

lemma update_proposals_shape:
  "update_proposals p f db = Inr (n, db') \<Longrightarrow> db' = db\<lparr>proposals := upd_where p f (proposals db)\<rparr>"
  by (auto simp: update_proposals_def Let_def split: if_splits)

text \<open>The proposals of a completion: the approved ones stay, and ids stay distinct.\<close>

definition approvals_kept :: "proposal_row list \<Rightarrow> proposal_row list \<Rightarrow> bool" where
  "approvals_kept ps ps' \<longleftrightarrow> (distinct (map p_id ps) \<longrightarrow> distinct (map p_id ps')) \<and>
     (\<forall>p \<in> set ps. p_status p = Approved \<longrightarrow> p \<in> set ps')"

lemma approvals_upd:
  assumes "\<And>p. q p \<Longrightarrow> p_status p = Pending" "\<And>p. p_id (f p) = p_id p"
  shows "approvals_kept ps (upd_where q f ps)"
proof -
  have "p \<in> set (upd_where q f ps)" if "p \<in> set ps" "p_status p = Approved" for p
  proof -
    have "\<not> q p"
      using assms(1) [of p] that(2) by auto
    then show ?thesis
      using that(1) by (force simp: upd_where_def)
  qed
  then show ?thesis
    using assms(2) by (simp add: approvals_kept_def map_key_upd_where)
qed

lemma approvals_trans: "approvals_kept a b \<Longrightarrow> approvals_kept b c \<Longrightarrow> approvals_kept a c"
  by (simp add: approvals_kept_def)

lemma insert_proposal_shape:
  "insert_proposal p db = Inr db' \<Longrightarrow> db' = db\<lparr>proposals := proposals db @ [p]\<rparr> \<and>
     approvals_kept (proposals db) (proposals db @ [p])"
  by (auto simp: insert_proposal_def approvals_kept_def split: if_splits)

lemma commitStaged_shape:
  assumes "wf_db db" "readRun db rid = Some row" "commitStaged opts entry rid now pid db = Inr (sq, db1)"
  shows "\<exists>ps. sq = Suc (r_eventSeq row) \<and> r_status row = Running \<and>
     payload_ok (Action_proposed pid (st_hash entry) (st_tool entry)) \<and> approvals_kept (proposals db) ps \<and>
     db1 = with_run (next_seq row) [appended row (Action_proposed pid (st_hash entry) (st_tool entry)) now]
       (db\<lparr>proposals := ps\<rparr>)"
proof -
  have r: "row \<in> set (runs db)" "rid = r_id row"
    using readRun_in [OF assms(2)] by auto
  let ?pl = "Action_proposed pid (st_hash entry) (st_tool entry)"
  obtain n dbu q dbi where run: "r_status row = Running" and ok: "payload_ok ?pl" and
    c: "update_proposals (\<lambda>p. p_session p = r_session row \<and> p_status p = Pending \<and> p_expiresAt p \<le> now)
       (\<lambda>p. p\<lparr>p_status := Expired, p_resolvedAt := Some now, p_decisionTurn := None\<rparr>) db = Inr (n, dbu)"
    "insert_proposal q dbu = Inr dbi" "appendEventInTx rid (r_eventSeq row) ?pl now dbi = Inr (sq, db1)"
    using assms(2,3) unfolding commitStaged_def
    by (auto simp: rbind_eq_Inr if_Inl_eq_Inr simp del: payload_ok.simps)
  let ?ps = "proposals dbu @ [q]"
  have "approvals_kept (proposals db) (proposals dbu)"
    unfolding update_proposals_shape [OF c(1)] by simp (rule approvals_upd; simp)
  then have keep: "approvals_kept (proposals db) ?ps"
    using insert_proposal_shape [OF c(2)] approvals_trans by blast
  have ps: "appendEventInTx rid (r_eventSeq row) ?pl now (db\<lparr>proposals := ?ps\<rparr>) = Inr (sq, db1)"
    using c(3) insert_proposal_shape [OF c(2)] update_proposals_shape [OF c(1)] by simp
  have w: "wf_db (db\<lparr>proposals := ?ps\<rparr>)" "row \<in> set (runs (db\<lparr>proposals := ?ps\<rparr>))"
    using assms(1) r by simp_all
  show ?thesis
    using ps run ok keep during_appendEvent [OF during_start [OF w] ok refl refl, of now] wf_start [OF w] r(2)
    by (intro exI [of _ ?ps]) auto
qed

lemma complete_tx_shape:
  assumes "wf_db db" "readRun db rid = Some row" "r_status row = Running" "run_result_ok result"
    "complete_tx opts entry rid result now pid db = Inr ((applied, run, committed), db')"
  shows "applied \<and> r_status run = Completed \<and> r_result run = Some result \<and> r_id run = rid \<and> kept db db' \<and>
    (\<exists>evs ps. select_run row now (with_run run evs (db\<lparr>proposals := ps\<rparr>)) = Inr db' \<and>
      approvals_kept (proposals db) ps \<and> r_turn run = r_turn row \<and> r_session run = r_session row \<and>
      r_strategy run = r_strategy row \<and> readRun db' rid = Some run)"
proof -
  have r: "row \<in> set (runs db)" "rid = r_id row"
    using readRun_in [OF assms(2)] by auto
  have notm5: "\<not> is_m5 row"
    using assms(2,5) by (auto simp: complete_tx_def)
  obtain prev c db1 where c: "(case (opts, entry) of
        (Some o1, Some e1) \<Rightarrow> rbind (commitStaged o1 e1 rid now pid db) (\<lambda>(sq, db1). Inr ((sq, True), db1))
      | _ \<Rightarrow> Inr ((r_eventSeq row, False), db)) = Inr ((prev, c), db1)"
    using assms(2,3,5) notm5 unfolding complete_tx_def by (auto dest!: rbind_eq_Inr [THEN iffD1])
  obtain row1 evs1 ps where one: "db1 = with_run row1 evs1 (db\<lparr>proposals := ps\<rparr>)"
    "during (db\<lparr>proposals := ps\<rparr>) row row1 evs1 Running" "prev = r_eventSeq row1" "r_status row1 = Running"
    "run_check row1" "r_result row1 = r_result row" "r_selectOnSuccess row1 = r_selectOnSuccess row"
    "approvals_kept (proposals db) ps"
  proof (cases "\<exists>o1 e1. opts = Some o1 \<and> entry = Some e1")
    case False
    then have "db1 = db \<and> prev = r_eventSeq row"
      using c by (auto split: option.splits)
    then show ?thesis
      using that [of row "[]" "proposals db"] approvals_kept_def during_start [OF assms(1) r(1)] wf_start [OF assms(1) r(1)]
        run_check_of [OF assms(1) r(1)] assms(3) by simp
  next
    case True
    then obtain o1 e1 where oe: "commitStaged o1 e1 rid now pid db = Inr (prev, db1)"
      using c by (auto simp: rbind_eq_Inr)
    let ?pl = "Action_proposed pid (st_hash e1) (st_tool e1)"
    obtain ps where ps: "prev = Suc (r_eventSeq row)" "payload_ok ?pl" "approvals_kept (proposals db) ps"
      "db1 = with_run (next_seq row) [appended row ?pl now] (db\<lparr>proposals := ps\<rparr>)"
      using commitStaged_shape [OF assms(1,2) oe] by auto
    have "during (db\<lparr>proposals := ps\<rparr>) row row [] Running"
      using during_start [OF assms(1) r(1)] assms(3) by (simp add: during_def)
    from during_append [OF this ps(2), of Running now] show ?thesis
      using that [of "next_seq row" "[appended row ?pl now]" ps] ps run_check_of [OF assms(1) r(1)] assms(3)
      by (simp add: status_after_def)
  qed
  let ?f = "completed_with result now"
  let ?db = "db\<lparr>proposals := ps\<rparr>"
  have ids: "r_id row1 = r_id row" "r_strategy row1 = r_strategy row" "r_turn row1 = r_turn row"
    "r_session row1 = r_session row"
    using one(2) by (simp_all add: during_def)
  have w: "rewritten row1 (?f row1)"
    using one(4,5) by (simp add: rewritten_def completed_with_def run_check_def active_row_def)
  have u: "update_runs (\<lambda>r. r_id r = rid \<and> r_status r = Running) ?f db1 = Inr (1, with_run (?f row1) evs1 ?db)"
    using during_update_runs [where g = "\<lambda>r. r_status r = Running" and f = ?f, OF one(2) w _ one(4)] r(2) one(1)
    by simp
  note d2 = during_update [OF one(2) w]
  have a: "appendEventInTx rid prev (Run_completed result) now (with_run (?f row1) evs1 ?db) =
      Inr (Suc prev, with_run (next_seq (?f row1)) (evs1 @ [appended (?f row1) (Run_completed result) now]) ?db)"
    using assms(4) r(2) one(3) by (intro during_appendEvent [OF d2]) (simp_all add: completed_with_def)
  have d3: "during ?db row (next_seq (?f row1)) (evs1 @ [appended (?f row1) (Run_completed result) now]) Completed"
    using assms(4) by (intro during_append [OF d2]) (simp_all add: status_after_def)
  let ?db3 = "with_run (next_seq (?f row1)) (evs1 @ [appended (?f row1) (Run_completed result) now]) ?db"
  have k: "kept ?db ?db3"
    using d3 assms(1,3,4) by (intro during_kept [where old = row]) (simp_all add: completed_with_def opt_ok_def)
  have k0: "kept db ?db"
    using assms(1) by (intro kept_other) simp_all
  obtain db4 where s: "select_run row now ?db3 = Inr db4"
    and t: "reread rid db4 = Inr run" "db4 = db'" "applied" "committed = c"
    using assms(2,3,5) notm5 c u a unfolding complete_tx_def row_update_folds one_row_def
    by (auto simp: rbind_eq_Inr)
  have same: "runs db4 = runs ?db3"  "events db4 = events ?db3" "idem db4 = idem ?db3"
    using s by (auto simp: select_run_def upsert_selection_def split: if_splits)
  have rd: "readRun ?db3 rid = Some (next_seq (?f row1))"
    using during_readRun [OF d3 r(2)] .
  then have rd4: "readRun db4 rid = Some (next_seq (?f row1))"
    using same(1) by (simp add: readRun_def)
  have run: "run = next_seq (?f row1)"
    using t(1) rd4 by (auto simp: reread_def parseRunRow_def split: option.splits if_splits)
  have "wf_db db4"
  proof (rule wf_select [OF kept_wf [OF k] s refl])
    fix q assume "q \<in> set (runs ?db3)" "r_id q = r_id row"
    moreover have "next_seq (?f row1) \<in> set (runs ?db3)"
      using rd readRun_in by blast
    ultimately have "q = next_seq (?f row1)"
      using kept_wf [OF k] ids distinct_key_eq [of r_id "runs ?db3" q "next_seq (?f row1)"]
      by (simp add: wf_db_def runs_ok_def)
    then show "r_status q = Completed"
      by simp
  qed
  then have "kept ?db3 db4"
    using same by (simp add: kept_def evolves_same)
  then have "kept db db4"
    using k k0 kept_trans by blast
  then show ?thesis
    using s t run rd4 ids r(2) one(8) by (auto simp: completed_with_def)
qed

lemma complete_tx_kept:
  assumes "wf_db db" "run_result_ok result" "complete_tx opts entry rid result now pid db = Inr (x, db')"
  shows "kept db db'"
proof -
  obtain row where row: "readRun db rid = Some row"
    using assms(3) by (auto simp: complete_tx_def split: option.splits)
  show ?thesis
  proof (cases "r_status row = Running")
    case True
    obtain a b c where x: "x = (a, b, c)"
      by (cases x)
    show ?thesis
      using complete_tx_shape [OF assms(1) row True assms(2) assms(3) [unfolded x]] by blast
  next
    case False
    then show ?thesis
      using assms row by (auto simp: complete_tx_def rbind_eq_Inr kept_refl split: if_splits)
  qed
qed

end
