(* ===== verification/Run_Alloc.thy ===== *)
theory Run_Alloc
  imports Run_Trail
begin

text \<open>
  Transactions that allocate: a session with its context, a turn at the session's next position, a run
  with its first event, and the decisions that resolve a proposal. Each is kept.
\<close>

subsection \<open>Rows of other tables\<close>

lemma kept_new_session:
  assumes "wf_db db" "s_id s \<notin> set (map s_id (sessions db))" "1 \<le> s_nextTurnPosition s" "x_session x = s_id s"
  shows "kept db (db\<lparr>sessions := sessions db @ [s], contexts := contexts db @ [x]\<rparr>)" (is "kept db ?db")
proof -
  have "session_refs ?db q" if "session_refs db q" for q
    using that by (auto simp: session_refs_def)
  moreover have "turn_refs ?db t" if "turn_refs db t" for t
    using that by (auto simp: turn_refs_def)
  moreover have "run_refs ?db r" if "run_refs db r" for r
    using that by (auto simp: run_refs_def)
  ultimately have "wf_db ?db"
    using assms by (auto simp: wf_db_def refs_ok_def list_all_iff session_refs_def)
  then show ?thesis
    by (simp add: kept_def evolves_same)
qed

lemma update_sessions_row:
  assumes "distinct (map s_id (sessions db))" "s \<in> set (sessions db)" "\<And>r. p r \<longleftrightarrow> s_id r = s_id s \<and> g r" "g s"
    "s_id (f s) = s_id s" "1 \<le> s_nextTurnPosition (f s)"
  shows "update_sessions p f db = Inr (1, db\<lparr>sessions := put_row s_id (f s) (sessions db)\<rparr>)"
proof -
  have "r = s" if "r \<in> set (sessions db)" "p r" for r
    using that assms by (auto dest: distinct_key_eq)
  then have "list_all (\<lambda>s. 1 \<le> s_nextTurnPosition s) (map f (filter p (sessions db)))"
    using assms(6) by (auto simp: list_all_iff)
  then show ?thesis
    using upd_where_key [where key = s_id and p = p and g = g and f = f, OF assms(1,2,3,4,5)]
      count_where_key [where key = s_id and p = p and g = g, OF assms(1,2,3,4)]
    by (simp add: update_sessions_def)
qed

text \<open>A session row that only moves forward.\<close>

lemma kept_session:
  assumes "wf_db db" "s \<in> set (sessions db)" "s_id s' = s_id s" "s_nextTurnPosition s \<le> s_nextTurnPosition s'"
  shows "kept db (db\<lparr>sessions := put_row s_id s' (sessions db)\<rparr>)" (is "kept db ?db")
proof -
  have d: "distinct (map s_id (sessions db))"
    using assms(1) by (simp add: wf_db_def refs_ok_def)
  have set: "set (sessions ?db) = insert s' (set (sessions db) - {s})"
    using set_put_row [OF d assms(2,3)] by simp
  have "turn_refs ?db t" if t: "turn_refs db t" for t
  proof -
    obtain q where q: "q \<in> set (sessions db)" "s_id q = t_session t" "t_seq t < s_nextTurnPosition q"
      using t by (auto simp: turn_refs_def list_ex_iff)
    then have "\<exists>q' \<in> set (sessions ?db). s_id q' = t_session t \<and> t_seq t < s_nextTurnPosition q'"
      unfolding set using assms(3,4) by (cases "q = s") auto
    then show ?thesis
      using t by (auto simp: turn_refs_def list_ex_iff)
  qed
  moreover have "session_refs ?db s'"
    using assms by (auto simp: wf_db_def refs_ok_def list_all_iff session_refs_def)
  moreover have "session_refs ?db q" if "session_refs db q" for q
    using that by (simp add: session_refs_def)
  moreover have "run_refs ?db r = run_refs db r" for r
    by (simp add: run_refs_def)
  ultimately have "wf_db ?db"
    using assms(1) set by (auto simp: wf_db_def refs_ok_def list_all_iff)
  then show ?thesis
    by (simp add: kept_def evolves_same)
qed

text \<open>A new turn takes the position that the session's counter gives, and the counter moves on.\<close>

lemma kept_new_turn:
  assumes "wf_db db" "s \<in> set (sessions db)" "t_session t = s_id s" "t_seq t = s_nextTurnPosition s"
    "t_id t \<notin> set (map t_id (turns db))" "turn_input_ok (t_input t)" "frozen_context_ok (t_frozen t)"
    "s_id s' = s_id s" "s_nextTurnPosition s' = s_nextTurnPosition s + 1"
  shows "kept db (db\<lparr>turns := turns db @ [t], sessions := put_row s_id s' (sessions db)\<rparr>)"
proof -
  let ?db1 = "db\<lparr>sessions := put_row s_id s' (sessions db)\<rparr>"
  let ?db = "?db1\<lparr>turns := turns db @ [t]\<rparr>"
  have k: "kept db ?db1"
    using assms(8,9) by (intro kept_session [OF assms(1,2)]) simp_all
  note w = kept_wf [OF k]
  have d: "distinct (map s_id (sessions db))"
    using assms(1) by (simp add: wf_db_def refs_ok_def)
  have "(t_session t, t_seq t) \<noteq> (t_session q, t_seq q)" if q: "q \<in> set (turns db)" for q
  proof
    assume e: "(t_session t, t_seq t) = (t_session q, t_seq q)"
    obtain u where u: "u \<in> set (sessions db)" "s_id u = t_session q" "t_seq q < s_nextTurnPosition u"
      using q assms(1) by (auto simp: wf_db_def refs_ok_def list_all_iff turn_refs_def list_ex_iff)
    then have "u = s"
      using e assms(2,3) distinct_key_eq [OF d, of u s] by simp
    then show False
      using u e assms(4) by simp
  qed
  then have seqs: "distinct (map (\<lambda>t. (t_session t, t_seq t)) (turns db @ [t]))"
    using w by (auto simp: wf_db_def refs_ok_def)
  have "s' \<in> set (sessions ?db)"
    using set_put_row [OF d assms(2,8)] by simp
  moreover have "1 \<le> s_nextTurnPosition s"
    using assms(1,2) by (auto simp: wf_db_def refs_ok_def list_all_iff session_refs_def)
  ultimately have new: "turn_refs ?db t"
    using assms by (auto simp: turn_refs_def list_ex_iff intro!: bexI [of _ s'])
  have "session_refs ?db q = session_refs ?db1 q" "turn_refs ?db u = turn_refs ?db1 u" for q u
    by (simp_all add: session_refs_def turn_refs_def)
  moreover have "run_refs ?db r" if "run_refs ?db1 r" for r
    using that by (auto simp: run_refs_def)
  ultimately have "refs_ok ?db"
    using w seqs new assms(5) by (auto simp: wf_db_def refs_ok_def list_all_iff)
  then have "wf_db ?db"
    using w by (simp add: wf_db_def)
  then have "kept ?db1 ?db"
    by (simp add: kept_def evolves_same)
  then have "kept db ?db"
    using k kept_trans by blast
  moreover have "?db = db\<lparr>turns := turns db @ [t], sessions := put_row s_id s' (sessions db)\<rparr>"
    by simp
  ultimately show ?thesis
    by metis
qed

lemma kept_turn_attempt:
  assumes "wf_db db" "t \<in> set (turns db)" "t' = t\<lparr>t_nextRunAttempt := n\<rparr>" "t_nextRunAttempt t \<le> n"
  shows "kept db (db\<lparr>turns := put_row t_id t' (turns db)\<rparr>)" (is "kept db ?db")
proof -
  have d: "distinct (map t_id (turns db))"
    using assms(1) by (simp add: wf_db_def refs_ok_def)
  have set: "set (put_row t_id t' (turns db)) = insert t' (set (turns db) - {t})"
    using set_put_row [OF d assms(2), of t'] assms(3) by simp
  have same: "f (put_row t_id t' (turns db)) = f (turns db)"
    if "f = map (\<lambda>t. (t_session t, t_seq t))" for f
    unfolding that using d assms(2,3)
    by (auto simp: put_row_def upd_where_def dest: distinct_key_eq)
  have "run_refs ?db r" if r: "run_refs db r" for r
  proof -
    obtain u where u: "u \<in> set (turns db)" "t_id u = r_turn r" "t_session u = r_session r"
      "is_user_text (t_input u) \<longrightarrow> r_attempt r < t_nextRunAttempt u"
      using r by (auto simp: run_refs_def list_ex_iff)
    then have "\<exists>u' \<in> set (turns ?db). t_id u' = r_turn r \<and> t_session u' = r_session r \<and>
        (is_user_text (t_input u') \<longrightarrow> r_attempt r < t_nextRunAttempt u')"
      using assms(3,4) set by (cases "u = t") auto
    then show ?thesis
      using r by (simp add: run_refs_def list_ex_iff)
  qed
  moreover have "turn_refs ?db u = turn_refs db u" "session_refs ?db q = session_refs db q" for u q
    by (simp_all add: turn_refs_def session_refs_def)
  moreover have "turn_refs db t' = turn_refs db t"
    using assms(3) by (simp add: turn_refs_def)
  ultimately have "wf_db ?db"
    using assms(1,2) set same by (auto simp: wf_db_def refs_ok_def list_all_iff)
  then show ?thesis
    by (simp add: kept_def evolves_same)
qed

subsection \<open>A new run and its first event\<close>

lemma appendEvent_new:
  assumes "wf_db db0" "runs db = runs db0 @ [row]" "events db = events db0" "r_id row \<notin> set (map r_id (runs db0))"
    "runs_unique (runs db)" "run_check row" "r_eventSeq row = 0" "payload_ok pl"
  shows "appendEventInTx (r_id row) 0 pl now db =
    Inr (1, db\<lparr>runs := runs db0 @ [next_seq row], events := events db0 @ [appended row pl now]\<rparr>)"
proof -
  have rk: "runs_ok (runs db)"
    using assms(1,2,4,5,6) by (auto simp: wf_db_def runs_ok_def)
  have "journal_bounded (runs db0) (events db0)"
    using assms(1) by (simp add: wf_db_def journal_bounded_ok)
  then have "journal_bounded (runs db) (events db)"
    unfolding journal_bounded_def assms(2,3) by auto
  then have o: "opened (runs db) (events db) row []"
    using rk assms(2) by (intro opened_start) simp_all
  have "with_run row [] db = db"
    using rk assms(2) by (intro with_run_start) simp_all
  moreover have "put_row r_id (next_seq row) (runs db0) = runs db0"
    using assms(4) by (intro put_row_absent) auto
  then have "with_run (next_seq row) [appended row pl now] db =
      db\<lparr>runs := runs db0 @ [next_seq row], events := events db0 @ [appended row pl now]\<rparr>"
    using assms(2,3) by (simp add: with_run_def put_row_def upd_where_def)
  ultimately show ?thesis
    using appendEventInTx_opened [OF o assms(8) refl, of 0 now] assms(7) by simp
qed

lemma kept_new_run:
  fixes now
  assumes w: "wf_db db" and new: "r_id row \<notin> set (map r_id (runs db))" "runs_unique (runs db @ [row])"
    "run_check row" "r_status row = Queued" "r_eventSeq row = 0" "1 \<le> r_attempt row"
    and turn: "t \<in> set (turns db)" "t_id t = r_turn row" "t_session t = r_session row"
      "is_user_text (t_input t) \<Longrightarrow> r_attempt row < t_nextRunAttempt t"
  defines "ev \<equiv> appended row (Run_queued (int (r_attempt row))) now"
  shows "kept db (db\<lparr>runs := runs db @ [next_seq row], events := events db @ [ev]\<rparr>)" (is "kept db ?db")
proof -
  have "distinct (map r_session (filter active_row (runs db @ [next_seq row])))" and
    "distinct (map (\<lambda>r. (r_turn r, r_attempt r)) (runs db @ [next_seq row]))"
    using new(2) by (auto simp: runs_unique_def)
  then have rk: "runs_ok (runs ?db)"
    using w new(1,3) by (auto simp: wf_db_def runs_ok_def runs_unique_def)
  have ids: "ev_runId e \<in> set (map r_id (runs db))" if "e \<in> set (events db)" for e
    using that w by (simp add: wf_db_def journal_ok_def)
  have none: "filter (\<lambda>e. ev_runId e = r_id row) (events db) = []"
  proof -
    have "ev_runId e \<noteq> r_id row" if "e \<in> set (events db)" for e
      using ids [OF that] new(1) by auto
    then show ?thesis by (simp add: filter_empty_conv)
  qed
  have evid: "ev_runId ev = r_id row" "ev_seq ev = 1" "ev_payload ev = Run_queued (int (r_attempt row))"
    using new(5) by (simp_all add: ev_def appended_def)
  have mine: "filter (\<lambda>e. ev_runId e = r_id q) (events ?db) = filter (\<lambda>e. ev_runId e = r_id q) (events db)"
    if "q \<in> set (runs db)" for q
    using that new(1) evid by auto
  have "run_journal_ok (events ?db) q" if "q \<in> set (runs db)" for q
    using that mine [OF that] w by (simp add: wf_db_def journal_ok_def list_all_iff run_journal_ok_def)
  moreover have "run_journal_ok (events ?db) (next_seq row)"
    using none evid new(4,5,6) by (simp add: run_journal_ok_def)
  ultimately have j: "journal_ok (runs ?db) (events ?db)"
    using ids evid by (auto simp: journal_ok_def list_all_iff)
  have "run_refs ?db (next_seq row)"
    using turn new(3,4) by (auto simp: run_refs_def list_ex_iff opt_ok_def run_check_def intro!: bexI [of _ t])
  moreover have "run_refs ?db r = run_refs db r" "turn_refs ?db u = turn_refs db u"
    "session_refs ?db s = session_refs db s" for r u s
    by (simp_all add: run_refs_def turn_refs_def session_refs_def)
  moreover have "selection_refs (runs ?db) s" if "selection_refs (runs db) s" for s
    using that by (auto simp: selection_refs_def)
  ultimately have "refs_ok ?db"
    using w by (auto simp: wf_db_def refs_ok_def list_all_iff)
  then have "wf_db ?db"
    using rk j by (simp add: wf_db_def)
  moreover have "run_evolves db ?db q q" if "q \<in> set (runs db)" for q
    using mine [OF that] by (simp add: run_evolves_def runEvents_def)
  then have "evolves db ?db"
    unfolding evolves_def by auto
  ultimately show ?thesis
    by (simp add: kept_def)
qed

subsection \<open>Statements that insert one row\<close>

lemma insert_turn_shape:
  "insert_turn t db = Inr db' \<Longrightarrow> db' = db\<lparr>turns := turns db @ [t]\<rparr> \<and> t_id t \<notin> set (map t_id (turns db))"
  by (auto simp: insert_turn_def readTurn_def find_None_iff split: if_splits)

lemma insert_run_shape:
  "insert_run r db = Inr db' \<Longrightarrow> db' = db\<lparr>runs := runs db @ [r]\<rparr> \<and> run_check r \<and>
     r_id r \<notin> set (map r_id (runs db)) \<and> runs_unique (runs db @ [r])"
  by (auto simp: insert_run_def readRun_def find_None_iff split: if_splits)

lemma readSession_in: "readSession db sid = Some s \<Longrightarrow> s \<in> set (sessions db) \<and> s_id s = sid"
  unfolding readSession_def by (rule find_key_Some)

lemma readTurn_in: "readTurn db tid = Some t \<Longrightarrow> t \<in> set (turns db) \<and> t_id t = tid"
  unfolding readTurn_def by (rule find_key_Some)

lemma session_row_ok: "wf_db db \<Longrightarrow> s \<in> set (sessions db) \<Longrightarrow> 1 \<le> s_nextTurnPosition s"
  by (auto simp: wf_db_def refs_ok_def list_all_iff session_refs_def)

lemma sessions_distinct: "wf_db db \<Longrightarrow> distinct (map s_id (sessions db))"
  by (simp add: wf_db_def refs_ok_def)

lemma turns_distinct: "wf_db db \<Longrightarrow> distinct (map t_id (turns db))"
  by (simp add: wf_db_def refs_ok_def)

lemmas guard_Inr = if_Inl_eq_Inr

lemma body_case_Inr:
  "(case b of Run_body s t r a \<Rightarrow> F s t r a | _ \<Rightarrow> Inl e) = Inr x \<longleftrightarrow> (\<exists>s t r a. b = Run_body s t r a \<and> F s t r a = Inr x)"
  "(case b of Approve_body p x' r' \<Rightarrow> G p x' r' | _ \<Rightarrow> Inl e) = Inr x \<longleftrightarrow>
     (\<exists>p x' r'. b = Approve_body p x' r' \<and> G p x' r' = Inr x)"
  by (cases b; simp)+

lemma busy_guard_Inr: "busy_guard sid m = Inr x \<longleftrightarrow> m = Inr x"
  by (cases m) (simp_all add: busy_guard_def)

subsection \<open>Messages\<close>

text \<open>What an accepted message inserts: a turn, its first run and that run's first event.\<close>

definition message_turn :: "jstr \<Rightarrow> session_row \<Rightarrow> turn_input \<Rightarrow> frozen_context \<Rightarrow> int \<Rightarrow> jstr \<Rightarrow> turn_row" where
  "message_turn session s input frozen now tid =
     \<lparr>t_id = tid, t_session = session, t_seq = s_nextTurnPosition s, t_input = input,
      t_frozen = frozen, t_createdAt = now, t_nextRunAttempt = 2\<rparr>"

definition moved_session :: "int \<Rightarrow> session_row \<Rightarrow> session_row" where
  "moved_session now s = s\<lparr>s_nextTurnPosition := s_nextTurnPosition s + 1, s_lastActiveAt := now\<rparr>"

lemma moved_session_sel [simp]:
  "s_id (moved_session now s) = s_id s" "s_nextTurnPosition (moved_session now s) = s_nextTurnPosition s + 1"
  by (simp_all add: moved_session_def)

definition with_message :: "turn_row \<Rightarrow> session_row \<Rightarrow> run_row \<Rightarrow> int \<Rightarrow> db \<Rightarrow> db" where
  "with_message t s r now db = db\<lparr>turns := turns db @ [t], runs := runs db @ [next_seq r],
     events := events db @ [appended r (Run_queued (int (r_attempt r))) now],
     sessions := put_row s_id (moved_session now s) (sessions db)\<rparr>"

lemma queued_run_sel [simp]:
  "r_id (queued_run rid tid sid a st sel now) = rid" "r_turn (queued_run rid tid sid a st sel now) = tid"
  "r_session (queued_run rid tid sid a st sel now) = sid" "r_attempt (queued_run rid tid sid a st sel now) = a"
  "r_status (queued_run rid tid sid a st sel now) = Queued" "r_eventSeq (queued_run rid tid sid a st sel now) = 0"
  "r_strategy (queued_run rid tid sid a st sel now) = st" "r_result (queued_run rid tid sid a st sel now) = None"
  by (simp_all add: queued_run_def)

lemma allocate_message_shape:
  assumes "wf_db db" "s \<in> set (sessions db)" "s_id s = session"
    and "allocate_message session s input frozen strategy select now tid rid db = Inr db'"
  defines "t \<equiv> message_turn session s input frozen now tid" and "r \<equiv> queued_run rid tid session 1 strategy select now"
  shows "db' = with_message t s r now db" and "t_id t \<notin> set (map t_id (turns db))" and "run_check r"
    and "r_id r \<notin> set (map r_id (runs db))" and "runs_unique (runs db @ [r])"
proof -
  let ?dbt = "db\<lparr>turns := turns db @ [t]\<rparr>"
  obtain db1 db2 db3 db4 n k where ops: "insert_turn t db = Inr db1" "insert_run r db1 = Inr db2"
    "appendEventInTx rid 0 (Run_queued 1) now db2 = Inr (n, db3)"
    "update_sessions (\<lambda>q. s_id q = session \<and> s_nextTurnPosition q = s_nextTurnPosition s)
          (\<lambda>q. q\<lparr>s_nextTurnPosition := s_nextTurnPosition s + 1, s_lastActiveAt := now\<rparr>) db3 = Inr (k, db4)"
    "db' = db4"
    using assms(4) unfolding allocate_message_def Let_def t_def r_def message_turn_def
    by (auto simp: rbind_eq_Inr split: if_splits)
  have db1: "db1 = ?dbt" and fresh: "t_id t \<notin> set (map t_id (turns db))"
    using insert_turn_shape [OF ops(1)] by simp_all
  have db2: "db2 = ?dbt\<lparr>runs := runs db @ [r]\<rparr>" and c: "run_check r" "r_id r \<notin> set (map r_id (runs db))"
    "runs_unique (runs db @ [r])"
    using insert_run_shape [OF ops(2)] db1 by auto
  show "t_id t \<notin> set (map t_id (turns db))" "run_check r" "r_id r \<notin> set (map r_id (runs db))"
    "runs_unique (runs db @ [r])"
    using fresh c by simp_all
  have "appendEventInTx (r_id r) 0 (Run_queued 1) now db2 = Inr (1, db2\<lparr>runs := runs db @ [next_seq r],
      events := events db @ [appended r (Run_queued 1) now]\<rparr>)"
    using c assms(1) db2 by (intro appendEvent_new [of db]) (simp_all add: r_def)
  then have db3: "db3 = db2\<lparr>runs := runs db @ [next_seq r], events := events db @ [appended r (Run_queued 1) now]\<rparr>"
    using ops(3) by (simp add: r_def)
  have "update_sessions (\<lambda>q. s_id q = session \<and> s_nextTurnPosition q = s_nextTurnPosition s)
          (\<lambda>q. q\<lparr>s_nextTurnPosition := s_nextTurnPosition s + 1, s_lastActiveAt := now\<rparr>) db3 =
      Inr (1, db3\<lparr>sessions := put_row s_id (moved_session now s) (sessions db3)\<rparr>)"
    unfolding moved_session_def
    using assms(1-3) db2 db3 sessions_distinct [OF assms(1)]
    by (intro update_sessions_row [where g = "\<lambda>q. s_nextTurnPosition q = s_nextTurnPosition s"]) simp_all
  then show "db' = with_message t s r now db"
    using ops(4,5) db2 db3 by (auto simp: with_message_def r_def)
qed

lemma kept_message:
  assumes "wf_db db" "s \<in> set (sessions db)" "s_id s = t_session t" "t_seq t = s_nextTurnPosition s"
    "t_id t \<notin> set (map t_id (turns db))" "turn_input_ok (t_input t)" "frozen_context_ok (t_frozen t)"
    "t_nextRunAttempt t = 2" "run_check r" "r_id r \<notin> set (map r_id (runs db))" "runs_unique (runs db @ [r])"
    "r_status r = Queued" "r_eventSeq r = 0" "r_attempt r = 1" "r_turn r = t_id t" "r_session r = t_session t"
  shows "kept db (with_message t s r now db)"
proof -
  let ?dbt = "db\<lparr>turns := turns db @ [t], sessions := put_row s_id (moved_session now s) (sessions db)\<rparr>"
  have k: "kept db ?dbt"
    using assms by (intro kept_new_turn [OF assms(1,2)]) simp_all
  have "kept ?dbt (?dbt\<lparr>runs := runs ?dbt @ [next_seq r],
      events := events ?dbt @ [appended r (Run_queued (int (r_attempt r))) now]\<rparr>)"
    using assms by (intro kept_new_run [OF kept_wf [OF k], where t = t]) simp_all
  moreover have "with_message t s r now db = ?dbt\<lparr>runs := runs ?dbt @ [next_seq r],
      events := events ?dbt @ [appended r (Run_queued (int (r_attempt r))) now]\<rparr>"
    by (simp add: with_message_def)
  ultimately show ?thesis
    using k kept_trans by metis
qed

lemma post_message_tx_kept:
  assumes "wf_db db" "turn_input_ok input"
    and "post_message_tx session scope key hash input ui strategy select tz now fresh db = Inr (out, db')"
  shows "kept db db'"
proof (cases "toStoredResponse db scope key")
  case (Some e)
  then show ?thesis
    using assms by (auto simp: post_message_tx_def rbind_eq_Inr kept_refl split: prod.splits if_splits)
next
  case None
  obtain tid rid aid where fr: "fresh = (tid, rid, aid)"
    by (cases fresh)
  obtain s x where s: "readSession db session = Some s" and x: "readContext db session = Some x"
    using None assms(3) by (auto simp: post_message_tx_def fr split: option.splits)
  let ?frozen = "\<lparr>fc_temporal = \<lparr>tc_now = now, tc_timeZone = tz\<rparr>, fc_uiContext = ui,
     fc_referenceContext = Some \<lparr>rc_version = x_version x, rc_items = x_items x\<rparr>\<rparr>"
  obtain db1 db2 body where ok: "frozen_context_ok ?frozen"
    and one: "allocate_message session s input ?frozen strategy select now tid rid db = Inr db1"
    and two: "(if shouldRecordAutonomyActivity db1 then recordUserActivityInTx aid session now db1 else Inr db1) = Inr db2"
    and three: "storeIdempotentResponse scope key hash 202 body now db2 = Inr db'"
    using None s x assms(3) unfolding post_message_tx_def fr
    by (auto simp: rbind_eq_Inr busy_guard_Inr guard_Inr Let_def simp del: parse_run_body.simps)
  have sess: "s \<in> set (sessions db)" "s_id s = session"
    using readSession_in [OF s] by simp_all
  note shape = allocate_message_shape [OF assms(1) sess one]
  have k1: "kept db db1"
    unfolding shape(1) using shape ok assms(1,2) sess by (intro kept_message) (simp_all add: message_turn_def)
  have "kept db1 db2"
    using two kept_wf [OF k1] by (auto intro: kept_activity kept_refl split: if_splits)
  then have k2: "kept db db2"
    using k1 kept_trans by blast
  then show ?thesis
    using kept_idem [OF kept_wf [OF k2] three] kept_trans by blast
qed

subsection \<open>Retries\<close>

definition with_retry :: "session_row \<Rightarrow> run_row \<Rightarrow> int \<Rightarrow> db \<Rightarrow> db" where
  "with_retry s r now db = db\<lparr>runs := runs db @ [next_seq r],
     events := events db @ [appended r (Run_queued (int (r_attempt r))) now],
     sessions := put_row s_id (s\<lparr>s_lastActiveAt := now\<rparr>) (sessions db)\<rparr>"

lemma allocate_retry_shape:
  assumes "wf_db db" "s \<in> set (sessions db)" "s_id s = session"
    and "allocate_retry session turn attempt strategy select now rid db = Inr db'"
  defines "r \<equiv> queued_run rid turn session attempt strategy select now"
  shows "db' = with_retry s r now db" and "run_check r" and "r_id r \<notin> set (map r_id (runs db))"
    and "runs_unique (runs db @ [r])"
proof -
  obtain db1 db2 db3 n k where ops: "insert_run r db = Inr db1"
    "appendEventInTx rid 0 (Run_queued (int attempt)) now db1 = Inr (n, db2)"
    "update_sessions (\<lambda>q. s_id q = session) (\<lambda>q. q\<lparr>s_lastActiveAt := now\<rparr>) db2 = Inr (k, db3)" "db' = db3"
    using assms(4) unfolding allocate_retry_def Let_def r_def by (auto simp: rbind_eq_Inr)
  have c: "db1 = db\<lparr>runs := runs db @ [r]\<rparr>" "run_check r" "r_id r \<notin> set (map r_id (runs db))"
    "runs_unique (runs db @ [r])"
    using insert_run_shape [OF ops(1)] by auto
  show "run_check r" "r_id r \<notin> set (map r_id (runs db))" "runs_unique (runs db @ [r])"
    using c by simp_all
  have att: "1 \<le> int attempt"
    using c(2) by (simp add: run_check_def r_def)
  have "appendEventInTx (r_id r) 0 (Run_queued (int attempt)) now db1 = Inr (1, db1\<lparr>runs := runs db @ [next_seq r],
      events := events db @ [appended r (Run_queued (int attempt)) now]\<rparr>)"
    using c assms(1) ops(2) by (intro appendEvent_new [of db])
      (auto simp: r_def appendEventInTx_def split: if_splits)
  then have db2: "db2 = db1\<lparr>runs := runs db @ [next_seq r], events := events db @ [appended r (Run_queued (int attempt)) now]\<rparr>"
    using ops(2) by (simp add: r_def)
  have "update_sessions (\<lambda>q. s_id q = session) (\<lambda>q. q\<lparr>s_lastActiveAt := now\<rparr>) db2 =
      Inr (1, db2\<lparr>sessions := put_row s_id (s\<lparr>s_lastActiveAt := now\<rparr>) (sessions db2)\<rparr>)"
    using assms(1-3) c(1) db2 sessions_distinct [OF assms(1)] session_row_ok [OF assms(1,2)]
    by (intro update_sessions_row [where g = "\<lambda>_. True"]) simp_all
  then show "db' = with_retry s r now db"
    using ops(3,4) c(1) db2 by (auto simp: with_retry_def r_def)
qed

lemma kept_retry:
  assumes "wf_db db" "s \<in> set (sessions db)" "t \<in> set (turns db)" "t_id t = r_turn r" "t_session t = r_session r"
    "is_user_text (t_input t) \<Longrightarrow> r_attempt r < t_nextRunAttempt t" "run_check r"
    "r_id r \<notin> set (map r_id (runs db))" "runs_unique (runs db @ [r])" "r_status r = Queued" "r_eventSeq r = 0"
  shows "kept db (with_retry s r now db)"
proof -
  let ?db1 = "db\<lparr>runs := runs db @ [next_seq r], events := events db @ [appended r (Run_queued (int (r_attempt r))) now]\<rparr>"
  have k: "kept db ?db1"
    using assms by (intro kept_new_run) (auto simp: run_check_def)
  have "kept ?db1 (?db1\<lparr>sessions := put_row s_id (s\<lparr>s_lastActiveAt := now\<rparr>) (sessions ?db1)\<rparr>)"
    using assms(2) by (intro kept_session [where s = s, OF kept_wf [OF k]]) simp_all
  then show ?thesis
    using kept_trans [OF k] unfolding with_retry_def by simp
qed

lemma update_turn_row:
  assumes "wf_db db" "t \<in> set (turns db)" "1 \<le> n"
  shows "update_turns (\<lambda>q. t_id q = t_id t \<and> t_nextRunAttempt q = t_nextRunAttempt t)
      (\<lambda>q. q\<lparr>t_nextRunAttempt := n\<rparr>) db = Inr (1, db\<lparr>turns := put_row t_id (t\<lparr>t_nextRunAttempt := n\<rparr>) (turns db)\<rparr>)"
  using assms(3)
    upd_where_key [where key = t_id and g = "\<lambda>q. t_nextRunAttempt q = t_nextRunAttempt t"
      and f = "\<lambda>q. q\<lparr>t_nextRunAttempt := n\<rparr>" and row = t, OF turns_distinct [OF assms(1)] assms(2) refl]
    count_where_key [where key = t_id and g = "\<lambda>q. t_nextRunAttempt q = t_nextRunAttempt t"
      and row = t, OF turns_distinct [OF assms(1)] assms(2) refl]
  by (auto simp: update_turns_def list_all_iff)

lemma post_retry_tx_kept:
  assumes "wf_db db" "post_retry_tx session turn scope key hash strategy select now fresh db = Inr (out, db')"
  shows "kept db db'"
proof -
  obtain rid aid where fr: "fresh = (rid, aid)"
    by (cases fresh)
  obtain s t where s: "readSession db session = Some s" and t: "readTurn db turn = Some t" "t_session t = session"
    using assms(2) by (auto simp: post_retry_tx_def fr split: option.splits if_splits)
  have sess: "s \<in> set (sessions db)" "s_id s = session" and trn: "t \<in> set (turns db)" "t_id t = turn"
    using readSession_in [OF s] readTurn_in [OF t(1)] by simp_all
  show ?thesis
  proof (cases "toStoredResponse db scope key")
    case (Some e)
    then show ?thesis
      using assms s t by (auto simp: post_retry_tx_def fr rbind_eq_Inr body_case_Inr guard_Inr kept_refl)
  next
    case None
    let ?a = "t_nextRunAttempt t"
    let ?t = "t\<lparr>t_nextRunAttempt := ?a + 1\<rparr>"
    let ?db0 = "db\<lparr>turns := put_row t_id ?t (turns db)\<rparr>"
    have upd: "update_turns (\<lambda>q. t_id q = turn \<and> t_nextRunAttempt q = ?a) (\<lambda>q. q\<lparr>t_nextRunAttempt := ?a + 1\<rparr>) db =
        Inr (1, ?db0)"
      using update_turn_row [OF assms(1) trn(1), of "?a + 1"] trn(2) by simp
    obtain db1 db2 body where one: "allocate_retry session turn ?a strategy select now rid ?db0 = Inr db1"
      and two: "(if shouldRecordAutonomyActivity db1 then recordUserActivityInTx aid session now db1 else Inr db1) = Inr db2"
      and three: "storeIdempotentResponse scope key hash 202 body now db2 = Inr db'"
      using None s t assms(2) upd unfolding post_retry_tx_def fr
      by (auto simp: rbind_eq_Inr busy_guard_Inr guard_Inr Let_def simp del: parse_run_body.simps)
    have k0: "kept db ?db0"
      by (rule kept_turn_attempt [where n = "?a + 1", OF assms(1) trn(1)]) simp_all
    have w0: "wf_db ?db0" and "s \<in> set (sessions ?db0)"
      using kept_wf [OF k0] sess by simp_all
    note shape = allocate_retry_shape [OF this sess(2) one]
    have "?t \<in> set (turns ?db0)"
      using set_put_row [OF turns_distinct [OF assms(1)] trn(1), of ?t] by simp
    then have k1: "kept ?db0 db1"
      unfolding shape(1) using shape(2-4) sess trn t(2)
      by (intro kept_retry [where t = ?t, OF w0]) simp_all
    have "kept db1 db2"
      using two kept_wf [OF k1] by (auto intro: kept_activity kept_refl split: if_splits)
    then have k2: "kept db db2"
      using k0 k1 kept_trans by blast
    then show ?thesis
      using kept_idem [OF kept_wf [OF k2] three] kept_trans by blast
  qed
qed

subsection \<open>Sessions\<close>

lemma createSession_kept:
  assumes "wf_db db" "createSession H key now fresh db = (out, db')"
  shows "kept db db'"
proof (cases "db' = db")
  case True
  then show ?thesis using assms(1) by (simp add: kept_refl)
next
  case False
  let ?s = "\<lparr>s_id = fresh, s_createdAt = now, s_lastActiveAt = now, s_nextTurnPosition = 1\<rparr>"
  let ?x = "\<lparr>x_session = fresh, x_version = 1, x_items = [], x_updatedAt = now\<rparr>"
  obtain hash db1 db2 body where ops: "insert_session ?s db = Inr db1" "insert_context ?x db1 = Inr db2"
    "storeIdempotentResponse (js ''sessions:create'') (lower_ascii key) hash 201 body now db2 = Inr db'"
    using assms(2) False unfolding createSession_def withImmediate_def Let_def
    by (auto simp: rbind_eq_Inr guard_Inr simp del: parse_session_body.simps
        split: if_splits option.splits sum.splits)
  have "db2 = db\<lparr>sessions := sessions db @ [?s], contexts := contexts db @ [?x]\<rparr>" "s_id ?s \<notin> set (map s_id (sessions db))"
    using ops(1,2) by (auto simp: insert_session_def insert_context_def readSession_def find_None_iff split: if_splits)
  then have k: "kept db db2"
    using kept_new_session [OF assms(1), of ?s ?x] by simp
  then show ?thesis
    using kept_idem [OF kept_wf [OF k] ops(3)] kept_trans by blast
qed

subsection \<open>Decisions\<close>

lemma decide_proposal_shape:
  "decide_proposal session proposal st now t db = Inr db' \<Longrightarrow> \<exists>ps. db' = db\<lparr>proposals := ps\<rparr>"
  by (auto simp: decide_proposal_def one_row_def rbind_eq_Inr update_proposals_def Let_def split: if_splits)

definition decision_turn :: "jstr \<Rightarrow> session_row \<Rightarrow> turn_input \<Rightarrow> frozen_context \<Rightarrow> int \<Rightarrow> jstr \<Rightarrow> turn_row" where
  "decision_turn session s input frozen now tid =
     \<lparr>t_id = tid, t_session = session, t_seq = s_nextTurnPosition s, t_input = input,
      t_frozen = frozen, t_createdAt = now, t_nextRunAttempt = 1\<rparr>"

lemma allocateDecisionTurn_shape:
  assumes "wf_db db" "readSession db session = Some s"
    "allocateDecisionTurn session input frozen now tid db = Inr db'"
  defines "t \<equiv> decision_turn session s input frozen now tid"
  shows "db' = db\<lparr>turns := turns db @ [t], sessions := put_row s_id (moved_session now s) (sessions db)\<rparr>"
    and "t_id t \<notin> set (map t_id (turns db))"
proof -
  have s: "s \<in> set (sessions db)" "s_id s = session"
    using readSession_in [OF assms(2)] by simp_all
  obtain db1 k where ops: "insert_turn t db = Inr db1"
    "update_sessions (\<lambda>q. s_id q = session \<and> s_nextTurnPosition q = s_nextTurnPosition s)
          (\<lambda>q. q\<lparr>s_nextTurnPosition := s_nextTurnPosition s + 1, s_lastActiveAt := now\<rparr>) db1 = Inr (k, db')"
    using assms(2,3) unfolding allocateDecisionTurn_def t_def decision_turn_def
    by (auto simp: rbind_eq_Inr Let_def split: if_splits)
  have db1: "db1 = db\<lparr>turns := turns db @ [t]\<rparr>" and f: "t_id t \<notin> set (map t_id (turns db))"
    using insert_turn_shape [OF ops(1)] by simp_all
  show "t_id t \<notin> set (map t_id (turns db))"
    by (rule f)
  have "update_sessions (\<lambda>q. s_id q = session \<and> s_nextTurnPosition q = s_nextTurnPosition s)
          (\<lambda>q. q\<lparr>s_nextTurnPosition := s_nextTurnPosition s + 1, s_lastActiveAt := now\<rparr>) db1 =
      Inr (1, db1\<lparr>sessions := put_row s_id (moved_session now s) (sessions db1)\<rparr>)"
    unfolding moved_session_def
    using s db1 sessions_distinct [OF assms(1)]
    by (intro update_sessions_row [where g = "\<lambda>q. s_nextTurnPosition q = s_nextTurnPosition s"]) simp_all
  then show "db' = db\<lparr>turns := turns db @ [t], sessions := put_row s_id (moved_session now s) (sessions db)\<rparr>"
    using ops(2) db1 by auto
qed

lemma allocateDecisionTurn_kept:
  assumes "wf_db db" "readSession db session = Some s" "turn_input_ok input" "frozen_context_ok frozen"
    "allocateDecisionTurn session input frozen now tid db = Inr db'"
  shows "kept db db'"
  unfolding allocateDecisionTurn_shape(1) [OF assms(1,2,5)]
  using allocateDecisionTurn_shape(2) [OF assms(1,2,5)] readSession_in [OF assms(2)] assms(1,3,4)
  by (intro kept_new_turn) (simp_all add: decision_turn_def)

lemma decide_kept:
  "wf_db db \<Longrightarrow> decide_proposal session proposal st now t db = Inr db' \<Longrightarrow> kept db db'"
  using decide_proposal_shape [of session proposal st now t db db'] by (auto intro!: kept_other)

lemma freeze_ok: "freezeDecisionContext sid now tz db = Inr frozen \<Longrightarrow> frozen_context_ok frozen"
  by (auto simp: freezeDecisionContext_def Let_def split: option.splits if_splits)

lemma reject_tx_kept:
  assumes "wf_db db" "reject_tx session proposal ph tz now tid db = Inr (out, db')"
  shows "kept db db'"
proof (cases "db' = db")
  case True
  then show ?thesis using assms(1) by (simp add: kept_refl)
next
  case False
  obtain s where s: "readSession db session = Some s"
    using assms(2) by (auto simp: reject_tx_def split: if_splits)
  have "(\<exists>st t. decide_proposal session proposal st now t db = Inr db') \<or>
    (\<exists>frozen db1 st t. freezeDecisionContext session now tz db = Inr frozen \<and>
       turn_input_ok (Action_rejection proposal ph) \<and>
       allocateDecisionTurn session (Action_rejection proposal ph) frozen now tid db = Inr db1 \<and>
       decide_proposal session proposal st now t db1 = Inr db')"
    using assms(2) False s unfolding reject_tx_def
    by (auto simp: rbind_eq_Inr guard_Inr split: option.splits if_splits; blast)
  then show ?thesis
    using decide_kept [OF assms(1)] allocateDecisionTurn_kept [OF assms(1) s] decide_kept freeze_ok
      kept_trans kept_wf by metis
qed

text \<open>The statements of an approval, from its decision turn to its grant.\<close>

definition approved_run :: "jstr \<Rightarrow> jstr \<Rightarrow> jstr \<Rightarrow> int \<Rightarrow> run_row" where
  "approved_run session tid rid now = queued_run rid tid session 1 m5_strategy True now"

definition new_execution :: "jstr \<Rightarrow> jstr \<Rightarrow> jstr \<Rightarrow> jstr \<Rightarrow> jstr \<Rightarrow> int \<Rightarrow> execution_row" where
  "new_execution eid session proposal tid rid now =
     \<lparr>x_id = eid, x_sessionId = session, x_proposal = proposal, x_approvalTurn = tid, x_actionRun = rid,
      x_status = Ex_queued, x_callStartedAt = None, x_finishedAt = None, x_errorCode = None,
      x_createdAt = now, x_executionUpdatedAt = now\<rparr>"

definition new_grant :: "(jstr \<Rightarrow> jstr) \<Rightarrow> jstr \<Rightarrow> jstr \<Rightarrow> proposal_row \<Rightarrow> int \<Rightarrow> grant_row" where
  "new_grant H eid session p now =
     \<lparr>gr_execution = eid, gr_session = session, gr_proposal = p_id p, gr_proposalHash = p_hash p,
      gr_tool = p_tool p, gr_inputHash = input_hash H (p_input p), gr_consumedAt = None, gr_createdAt = now\<rparr>"

text \<open>A queued run after its first two events.\<close>

lemma approve_events:
  assumes "wf_db db" "readSession db session = Some s" "turn_input_ok input" "frozen_context_ok frozen"
    "\<not> is_user_text input"
    "allocateDecisionTurn session input frozen now tid db = Inr db1"
    "decide_proposal session proposal st now (Some tid) db1 = Inr db2"
    "insert_run (approved_run session tid rid now) db2 = Inr db3"
    "appendEventInTx rid 0 (Run_queued 1) now db3 = Inr (n, db4)"
    "appendEventInTx rid 1 (Action_approved proposal ph eid) now db4 = Inr (m, db5)"
  defines "r \<equiv> approved_run session tid rid now"
  shows "db5 = db2\<lparr>runs := runs db @ [next_seq (next_seq r)], events := events db @
      [appended r (Run_queued 1) now, appended (next_seq r) (Action_approved proposal ph eid) now]\<rparr>"
    and "kept db db5" and "r_id r \<notin> set (map r_id (runs db))" and "runs_unique (runs db @ [r])"
    and "runs db2 = runs db" and "events db2 = events db"
proof -
  note shape = allocateDecisionTurn_shape [OF assms(1,2,6)]
  have k1: "kept db db1"
    using assms(1-4,6) by (intro allocateDecisionTurn_kept)
  have k2: "kept db db2"
    using kept_trans [OF k1 decide_kept [OF kept_wf [OF k1] assms(7)]] .
  obtain ps where db2: "db2 = db1\<lparr>proposals := ps\<rparr>"
    using decide_proposal_shape [OF assms(7)] by blast
  show same: "runs db2 = runs db" "events db2 = events db"
    using db2 shape by simp_all
  have c: "db3 = db2\<lparr>runs := runs db @ [r]\<rparr>" "run_check r" "r_id r \<notin> set (map r_id (runs db))"
    "runs_unique (runs db @ [r])"
    using insert_run_shape [OF assms(8)] same by (auto simp: r_def)
  show "r_id r \<notin> set (map r_id (runs db))" "runs_unique (runs db @ [r])"
    using c by simp_all
  have sel: "r_id r = rid" "r_turn r = tid" "r_session r = session" "r_attempt r = 1" "r_status r = Queued"
    "r_eventSeq r = 0" "is_m5 r" "r_result r = None"
    by (simp_all add: r_def approved_run_def is_m5_def)
  have "appendEventInTx (r_id r) 0 (Run_queued 1) now db3 = Inr (1, db3\<lparr>runs := runs db2 @ [next_seq r],
      events := events db2 @ [appended r (Run_queued 1) now]\<rparr>)"
    using c sel same kept_wf [OF k2] by (intro appendEvent_new [of db2]) simp_all
  then have db4: "db4 = db2\<lparr>runs := runs db2 @ [next_seq r], events := events db2 @ [appended r (Run_queued 1) now]\<rparr>"
    using assms(9) c(1) sel by simp
  let ?t = "decision_turn session s input frozen now tid"
  have "?t \<in> set (turns db2)"
    using shape db2 by simp
  then have "kept db2 (db2\<lparr>runs := runs db2 @ [next_seq r],
      events := events db2 @ [appended r (Run_queued (int (r_attempt r))) now]\<rparr>)"
    using c sel same assms(5)
    by (intro kept_new_run [where t = ?t, OF kept_wf [OF k2]]) (simp_all add: decision_turn_def)
  then have k4: "kept db2 db4"
    using db4 sel by simp
  let ?pl = "Action_approved proposal ph eid"
  have ok: "payload_ok ?pl"
    using assms(10) unfolding appendEventInTx_def by (auto split: if_splits)
  have inr: "next_seq r \<in> set (runs db4)"
    using db4 by simp
  note d = during_start [OF kept_wf [OF k4] inr]
  have e: "db5 = with_run (next_seq (next_seq r)) [appended (next_seq r) ?pl now] db4"
    using assms(10) during_appendEvent [OF d ok, of rid 1 now] sel wf_start [OF kept_wf [OF k4] inr] by auto
  have "put_row r_id (next_seq (next_seq r)) (runs db) = runs db"
    using c(3) by (intro put_row_absent) auto
  then show "db5 = db2\<lparr>runs := runs db @ [next_seq (next_seq r)], events := events db @
      [appended r (Run_queued 1) now, appended (next_seq r) ?pl now]\<rparr>"
    using e db4 same by (simp add: with_run_def put_row_def upd_where_def)
  have "during db4 (next_seq r) (next_seq (next_seq r)) ([] @ [appended (next_seq r) ?pl now]) Queued"
    using sel by (intro during_append [OF d ok]) (simp add: status_after_def)
  then have "kept db4 db5"
    unfolding e using sel by (intro during_kept [where old = "next_seq r", OF kept_wf [OF k4]]) (simp_all add: opt_ok_def)
  then show "kept db db5"
    using k2 k4 kept_trans by blast
qed

lemma insert_grant_shape: "insert_grant g db = Inr db' \<Longrightarrow> db' = db\<lparr>grants := grants db @ [g]\<rparr> \<and>
     gr_execution g \<notin> set (map gr_execution (grants db))"
  by (auto simp: insert_grant_def readGrant_def find_None_iff split: if_splits)

lemma insert_execution_shape:
  "insert_execution x db = Inr db' \<Longrightarrow> db' = db\<lparr>executions := executions db @ [x]\<rparr> \<and> execution_check x \<and>
     x_id x \<notin> set (map x_id (executions db)) \<and> x_proposal x \<notin> set (map x_proposal (executions db)) \<and>
     x_actionRun x \<notin> set (map x_actionRun (executions db))"
  by (auto simp: insert_execution_def readExecution_def find_None_iff split: if_splits)

text \<open>The branch of an approval that resolves the proposal.\<close>

definition approves ::
  "(jstr \<Rightarrow> jstr) \<Rightarrow> jstr \<Rightarrow> proposal_row \<Rightarrow> jstr \<Rightarrow> int \<Rightarrow> jstr \<times> jstr \<times> jstr \<Rightarrow> db \<Rightarrow> db \<Rightarrow> bool" where
  "approves H session p tz now fresh db db7 \<longleftrightarrow> (\<exists>tid rid eid frozen db1 db2 db3 db4 db5 n m.
     fresh = (tid, rid, eid) \<and> freezeDecisionContext session now tz db = Inr frozen \<and>
     turn_input_ok (Action_approval (p_id p) (p_hash p)) \<and>
     allocateDecisionTurn session (Action_approval (p_id p) (p_hash p)) frozen now tid db = Inr db1 \<and>
     decide_proposal session (p_id p) Approved now (Some tid) db1 = Inr db2 \<and>
     insert_run (approved_run session tid rid now) db2 = Inr db3 \<and>
     appendEventInTx rid 0 (Run_queued 1) now db3 = Inr (n, db4) \<and>
     appendEventInTx rid 1 (Action_approved (p_id p) (p_hash p) eid) now db4 = Inr (m, db5) \<and>
     eid \<notin> set (map x_id (executions db5)) \<and> p_id p \<notin> set (map x_proposal (executions db5)) \<and>
     rid \<notin> set (map x_actionRun (executions db5)) \<and> eid \<notin> set (map gr_execution (grants db5)) \<and>
     db7 = db5\<lparr>executions := executions db5 @ [new_execution eid session (p_id p) tid rid now],
       grants := grants db5 @ [new_grant H eid session p now]\<rparr>)"

lemma readProposal_in: "readProposal db pid = Some p \<Longrightarrow> p \<in> set (proposals db) \<and> p_id p = pid"
  unfolding readProposal_def by (rule find_key_Some)

text \<open>What a successful approval transaction did.\<close>

lemma approve_tx_cases:
  assumes "approve_tx H session proposal scope key hash ph tz now fresh db = Inr (out, db')"
  obtains "db' = db"
  | (expired) st where "decide_proposal session proposal Expired now None db = Inr db'" "out = State_conflict st"
  | (approved) p s db7 body where "readProposal db proposal = Some p" "readSession db session = Some s"
      "p_session p = session" "p_status p = Pending" "p_hash p = ph" "now < p_expiresAt p"
      "action_input_ok (p_input p)"
      "approves H session p tz now fresh db db7" "storeIdempotentResponse scope key hash 202 body now db7 = Inr db'"
      "toStoredResponse db scope key = None" "out = Decided 202 body False"
      "\<not> list_ex (\<lambda>r. r_session r = session \<and> active_row r) (runs db)"
proof -
  obtain tid rid eid where fr: "fresh = (tid, rid, eid)"
    by (cases fresh)
  obtain s p where s: "readSession db session = Some s" and p: "readProposal db proposal = Some p" "p_session p = session"
    using assms by (auto simp: approve_tx_def fr split: option.splits if_splits)
  note pid = readProposal_in [OF p(1)]
  show thesis
  proof (cases "toStoredResponse db scope key")
    case (Some e)
    then show thesis
      using assms s p that(1) by (auto simp: approve_tx_def fr rbind_eq_Inr body_case_Inr guard_Inr)
  next
    case None
    have h: "p_hash p = ph"
      using None assms s p by (simp add: approve_tx_def fr guard_Inr)
    consider "p_status p \<noteq> Pending \<or> now < p_expiresAt p \<and> list_ex (\<lambda>r. r_session r = session \<and> active_row r) (runs db)"
      | "p_status p = Pending" "now \<ge> p_expiresAt p"
      | "p_status p = Pending" "now < p_expiresAt p" "\<not> list_ex (\<lambda>r. r_session r = session \<and> active_row r) (runs db)"
      by linarith
    then show thesis
    proof cases
      case 1
      then show thesis
        using None assms s p h that(1) by (auto simp: approve_tx_def fr split: if_splits)
    next
      case 2
      then show thesis
        using None assms s p h that(2) by (auto simp: approve_tx_def fr rbind_eq_Inr)
    next
      case 3
      obtain db7 body where "approves H session p tz now fresh db db7" "action_input_ok (p_input p)"
        "storeIdempotentResponse scope key hash 202 body now db7 = Inr db'" "out = Decided 202 body False"
        using None assms s p pid h 3 unfolding approve_tx_def fr approves_def approved_run_def new_execution_def new_grant_def
        by (auto simp: rbind_eq_Inr guard_Inr simp del: parse_approve_body.simps
          dest!: insert_grant_shape insert_execution_shape)
      then show thesis
        using that(3) None s p h 3 by blast
    qed
  qed
qed

lemma approves_kept:
  assumes "wf_db db" "readSession db session = Some s" "approves H session p tz now fresh db db7"
  shows "kept db db7"
proof -
  obtain tid rid eid frozen db1 db2 db3 db4 db5 n m where a:
    "freezeDecisionContext session now tz db = Inr frozen" "turn_input_ok (Action_approval (p_id p) (p_hash p))"
    "allocateDecisionTurn session (Action_approval (p_id p) (p_hash p)) frozen now tid db = Inr db1"
    "decide_proposal session (p_id p) Approved now (Some tid) db1 = Inr db2"
    "insert_run (approved_run session tid rid now) db2 = Inr db3"
    "appendEventInTx rid 0 (Run_queued 1) now db3 = Inr (n, db4)"
    "appendEventInTx rid 1 (Action_approved (p_id p) (p_hash p) eid) now db4 = Inr (m, db5)"
    "db7 = db5\<lparr>executions := executions db5 @ [new_execution eid session (p_id p) tid rid now],
       grants := grants db5 @ [new_grant H eid session p now]\<rparr>"
    using assms(3) unfolding approves_def by blast
  have k: "kept db db5"
    using approve_events(2) [OF assms(1,2) a(2) freeze_ok [OF a(1)] _ a(3-7)] by simp
  have "kept db5 db7"
    unfolding a(8) using kept_wf [OF k] by (intro kept_other) simp_all
  then show ?thesis
    using k kept_trans by blast
qed

lemma approve_tx_kept:
  assumes "wf_db db" "approve_tx H session proposal scope key hash ph tz now fresh db = Inr (out, db')"
  shows "kept db db'"
  using assms(2)
proof (cases rule: approve_tx_cases)
  case 1
  then show ?thesis using assms(1) by (simp add: kept_refl)
next
  case (expired st)
  then show ?thesis using decide_kept [OF assms(1)] by blast
next
  case (approved p s db7 body)
  have k: "kept db db7"
    using approves_kept [OF assms(1) approved(2,8)] .
  then show ?thesis
    using kept_idem [OF kept_wf [OF k] approved(9)] kept_trans by blast
qed

end
