(* ===== verification/Action_Inv.thy ===== *)
theory Action_Inv
  imports Run_Alloc
begin

text \<open>
  The invariant of the approved writes. Every action run has one execution, which belongs to an approved
  proposal and has one grant; the status of the execution fits the status of the run, the grant is
  consumed exactly when the external-call marker is set, and there is a receipt exactly when the
  execution has ended, with its outcome.
\<close>

definition marked :: "execution_row \<Rightarrow> bool" where
  "marked x \<longleftrightarrow> x_callStartedAt x \<noteq> None"

definition status_pair :: "run_status \<Rightarrow> execution_row \<Rightarrow> bool" where
  "status_pair s x \<longleftrightarrow>
     (case s of
        Queued \<Rightarrow> x_status x = Ex_queued
      | Running \<Rightarrow> x_status x = Ex_preflight \<or> x_status x = Ex_executing
      | Cancel_requested \<Rightarrow> False
      | Completed \<Rightarrow> x_status x = Ex_succeeded \<or> x_status x = Ex_succeeded_unverified \<or> x_status x = Ex_blocked_stale
      | Failed \<Rightarrow> x_status x = Ex_failed \<or> x_status x = Ex_unknown
      | Cancelled \<Rightarrow> x_status x = Ex_failed \<and> \<not> marked x
      | Abandoned \<Rightarrow> x_status x = Ex_failed \<and> \<not> marked x \<or> x_status x = Ex_unknown)"

definition granted :: "(jstr \<Rightarrow> jstr) \<Rightarrow> db \<Rightarrow> execution_row \<Rightarrow> bool" where
  "granted H db x \<longleftrightarrow> list_ex (\<lambda>p. p_id p = x_proposal x \<and> p_session p = x_sessionId x \<and> p_status p = Approved \<and>
     list_ex (\<lambda>g. gr_execution g = x_id x \<and> gr_proposal g = p_id p \<and> gr_session g = p_session p \<and>
       gr_proposalHash g = p_hash p \<and> gr_tool g = p_tool p \<and> gr_inputHash g = input_hash H (p_input p) \<and>
       (gr_consumedAt g \<noteq> None \<longleftrightarrow> marked x)) (grants db)) (proposals db)"

definition paired :: "db \<Rightarrow> execution_row \<Rightarrow> bool" where
  "paired db x \<longleftrightarrow> execution_check x \<and> uuid_ok (x_id x) \<and>
     list_ex (\<lambda>r. r_id r = x_actionRun x \<and> r_turn r = x_approvalTurn x \<and> r_session r = x_sessionId x \<and>
       is_m5 r \<and> status_pair (r_status r) x) (runs db) \<and>
     map_option rc_outcome (readReceipt db (x_id x)) = terminal_execution (x_status x)"

definition act_ok :: "(jstr \<Rightarrow> jstr) \<Rightarrow> db \<Rightarrow> bool" where
  "act_ok H db \<longleftrightarrow>
     distinct (map x_id (executions db)) \<and> distinct (map x_actionRun (executions db)) \<and>
     distinct (map x_proposal (executions db)) \<and> distinct (map p_id (proposals db)) \<and>
     distinct (map gr_execution (grants db)) \<and> distinct (map rc_execution (receipts db)) \<and>
     list_all (paired db) (executions db) \<and> list_all (granted H db) (executions db) \<and>
     list_all (\<lambda>r. is_m5 r \<longrightarrow> r_id r \<in> set (map x_actionRun (executions db))) (runs db) \<and>
     list_all (\<lambda>c. rc_execution c \<in> set (map x_id (executions db))) (receipts db) \<and>
     list_all (\<lambda>g. gr_execution g \<in> set (map x_id (executions db))) (grants db)"

lemma act_empty: "act_ok H (empty_db v)"
  by (simp add: act_ok_def empty_db_def)

lemma readExecutionByRun_in:
  "readExecutionByRun db rid = Some x \<Longrightarrow> x \<in> set (executions db) \<and> x_actionRun x = rid"
  unfolding readExecutionByRun_def by (rule find_key_Some)

text \<open>The rows of one action run.\<close>

definition pair :: "(jstr \<Rightarrow> jstr) \<Rightarrow> db \<Rightarrow> run_row \<Rightarrow> execution_row \<Rightarrow> proposal_row \<Rightarrow> grant_row \<Rightarrow> bool" where
  "pair H db r x p g \<longleftrightarrow> wf_db db \<and> act_ok H db \<and> r \<in> set (runs db) \<and> x \<in> set (executions db) \<and>
     x_actionRun x = r_id r \<and> is_m5 r \<and> p \<in> set (proposals db) \<and> p_id p = x_proposal x \<and>
     p_session p = x_sessionId x \<and> p_status p = Approved \<and>
     g \<in> set (grants db) \<and> gr_execution g = x_id x \<and> gr_proposal g = p_id p \<and> gr_session g = p_session p \<and>
     gr_proposalHash g = p_hash p \<and> gr_tool g = p_tool p \<and> gr_inputHash g = input_hash H (p_input p) \<and>
     (gr_consumedAt g \<noteq> None \<longleftrightarrow> marked x) \<and> execution_check x \<and> uuid_ok (x_id x) \<and>
     status_pair (r_status r) x \<and> r_session r = x_sessionId x \<and> r_turn r = x_approvalTurn x \<and>
     map_option rc_outcome (readReceipt db (x_id x)) = terminal_execution (x_status x)"

lemma pair_reads:
  assumes "pair H db r x p g"
  shows "readRun db (r_id r) = Some r" "readExecutionByRun db (r_id r) = Some x"
    "readProposal db (x_proposal x) = Some p" "readGrant db (x_id x) = Some g"
    "readExecution db (x_id x) = Some x"
proof -
  have d: "distinct (map r_id (runs db))" "distinct (map x_actionRun (executions db))" "distinct (map p_id (proposals db))"
    "distinct (map gr_execution (grants db))" "distinct (map x_id (executions db))"
    using assms by (simp_all add: pair_def wf_db_def runs_ok_def act_ok_def)
  have m: "r \<in> set (runs db)" "x \<in> set (executions db)" "x_actionRun x = r_id r" "p \<in> set (proposals db)"
    "p_id p = x_proposal x" "g \<in> set (grants db)" "gr_execution g = x_id x"
    using assms by (simp_all add: pair_def)
  show "readRun db (r_id r) = Some r" "readExecutionByRun db (r_id r) = Some x"
    "readProposal db (x_proposal x) = Some p" "readGrant db (x_id x) = Some g" "readExecution db (x_id x) = Some x"
    using find_key_distinct [OF d(1) m(1)] find_key_distinct [OF d(2) m(2)] find_key_distinct [OF d(3) m(4)]
      find_key_distinct [OF d(4) m(6)] find_key_distinct [OF d(5) m(2)] m(3,5,7)
    by (simp_all add: readRun_def readExecutionByRun_def readProposal_def readGrant_def readExecution_def)
qed

lemma pair_exists:
  assumes "wf_db db" "act_ok H db" "r \<in> set (runs db)" "is_m5 r"
  obtains x p g where "pair H db r x p g"
proof -
  obtain x where x: "x \<in> set (executions db)" "x_actionRun x = r_id r"
    using assms(2-4) by (auto simp: act_ok_def list_all_iff)
  then have "paired db x" "granted H db x"
    using assms(2) by (auto simp: act_ok_def list_all_iff)
  then obtain r' p g where r': "r' \<in> set (runs db)" "r_id r' = x_actionRun x" "r_turn r' = x_approvalTurn x"
    "r_session r' = x_sessionId x" "is_m5 r'" "status_pair (r_status r') x" "execution_check x" "uuid_ok (x_id x)"
    "map_option rc_outcome (readReceipt db (x_id x)) = terminal_execution (x_status x)"
    and pg: "p \<in> set (proposals db)" "p_id p = x_proposal x" "p_session p = x_sessionId x" "p_status p = Approved"
    "g \<in> set (grants db)" "gr_execution g = x_id x" "gr_proposal g = p_id p" "gr_session g = p_session p"
    "gr_proposalHash g = p_hash p" "gr_tool g = p_tool p" "gr_inputHash g = input_hash H (p_input p)"
    "gr_consumedAt g \<noteq> None \<longleftrightarrow> marked x"
    by (auto simp: paired_def granted_def list_ex_iff)
  have "r' = r"
    using r'(1,2) x(2) assms(1,3) distinct_key_eq [of r_id "runs db" r' r] by (simp add: wf_db_def runs_ok_def)
  then show thesis
    using that [of x p g] r' pg x assms by (simp add: pair_def)
qed

text \<open>A run that is not an action run has no execution.\<close>

lemma no_execution:
  assumes "wf_db db" "act_ok H db" "r \<in> set (runs db)" "\<not> is_m5 r"
  shows "readExecutionByRun db (r_id r) = None"
proof (rule ccontr)
  assume "readExecutionByRun db (r_id r) \<noteq> None"
  then obtain x where x: "x \<in> set (executions db)" "x_actionRun x = r_id r"
    using readExecutionByRun_in by blast
  then obtain r' where "r' \<in> set (runs db)" "r_id r' = r_id r" "is_m5 r'"
    using assms(2) by (auto simp: act_ok_def list_all_iff paired_def list_ex_iff)
  then have "r' = r"
    using assms(1,3) distinct_key_eq [of r_id "runs db" r' r] by (simp add: wf_db_def runs_ok_def)
  then show False
    using \<open>is_m5 r'\<close> assms(4) by simp
qed

subsection \<open>Statements on the rows of a pair\<close>

lemma update_executions_row:
  assumes "distinct (map x_id (executions db))" "x \<in> set (executions db)" "\<And>y. q y \<longleftrightarrow> x_id y = x_id x \<and> h y" "h x"
    "x_id (f x) = x_id x"
  shows "update_executions q f db = (if execution_check (f x)
     then Inr (1, db\<lparr>executions := put_row x_id (f x) (executions db)\<rparr>) else Inl Sqlite_check)"
proof -
  have "y = x" if "y \<in> set (executions db)" "q y" for y
    using that assms by (auto dest: distinct_key_eq)
  then have "set (filter q (executions db)) = {x}"
    using assms(2,3,4) unfolding set_filter by blast
  then have "list_all execution_check (map f (filter q (executions db))) \<longleftrightarrow> execution_check (f x)"
    by (simp only: list_all_iff set_map) simp
  then show ?thesis
    using upd_where_key [where key = x_id and p = q and g = h and f = f, OF assms(1,2,3,4,5)]
      count_where_key [where key = x_id and p = q and g = h, OF assms(1,2,3,4)]
    by (simp add: update_executions_def)
qed

lemma update_grants_row:
  assumes "distinct (map gr_execution (grants db))" "g \<in> set (grants db)"
    "\<And>y. q y \<longleftrightarrow> gr_execution y = gr_execution g \<and> h y" "h g" "gr_execution (f g) = gr_execution g"
  shows "update_grants q f db = Inr (1, db\<lparr>grants := put_row gr_execution (f g) (grants db)\<rparr>)"
  using upd_where_key [where key = gr_execution and p = q and g = h and f = f, OF assms(1,2,3,4,5)]
    count_where_key [where key = gr_execution and p = q and g = h, OF assms(1,2,3,4)]
  by (simp add: update_grants_def)

text \<open>The receipt that the statements of a terminal boundary insert.\<close>

definition receipt_for ::
  "execution_row \<Rightarrow> proposal_row \<Rightarrow> receipt_outcome \<Rightarrow> jstr option \<Rightarrow> jstr option \<Rightarrow> int \<Rightarrow> receipt_row" where
  "receipt_for x p out rv snap now =
     \<lparr>rc_execution = x_id x, rc_session = x_sessionId x, rc_proposal = p_id p, rc_proposalHash = p_hash p,
      rc_outcome = out, rc_preflightRevision = rv, rc_preflightSnapshot = snap, rc_observedRevision = None,
      rc_resultSnapshot = None, rc_summary = p_preview p, rc_createdAt = now\<rparr>"

lemma insertReceipt_row:
  assumes "readReceipt db (x_id x) = None" "x' \<in> set (executions db)" "x_id x' = x_id x" "x_proposal x' = p_id p"
    "x_sessionId x' = x_sessionId x" "out \<noteq> Rcp_succeeded" "out = Rcp_blocked_stale \<Longrightarrow> rv \<noteq> None \<and> snap \<noteq> None"
  shows "insertReceipt x p out rv snap now db = Inr (db\<lparr>receipts := receipts db @ [receipt_for x p out rv snap now]\<rparr>)"
  using assms by (cases out) (auto simp: insertReceipt_def insert_receipt_def receipt_for_def receipt_check_def)

subsection \<open>Steps that keep the pairs\<close>

text \<open>A new state of an execution and of its grant: the same references, the same agreement.\<close>

definition execution_moves :: "execution_row \<Rightarrow> execution_row \<Rightarrow> bool" where
  "execution_moves x x' \<longleftrightarrow> x_id x' = x_id x \<and> x_sessionId x' = x_sessionId x \<and> x_proposal x' = x_proposal x \<and>
     x_approvalTurn x' = x_approvalTurn x \<and> x_actionRun x' = x_actionRun x \<and> execution_check x'"

definition grant_moves :: "grant_row \<Rightarrow> grant_row \<Rightarrow> bool" where
  "grant_moves g g' \<longleftrightarrow> gr_execution g' = gr_execution g \<and> gr_proposal g' = gr_proposal g \<and>
     gr_session g' = gr_session g \<and> gr_proposalHash g' = gr_proposalHash g \<and> gr_tool g' = gr_tool g \<and>
     gr_inputHash g' = gr_inputHash g"

definition run_moves :: "run_row \<Rightarrow> run_row \<Rightarrow> bool" where
  "run_moves r r' \<longleftrightarrow> r_id r' = r_id r \<and> r_turn r' = r_turn r \<and> r_session r' = r_session r \<and>
     r_strategy r' = r_strategy r"

lemma put_row_map:
  assumes "distinct (map key rows)" "old \<in> set rows" "key row = key old" "f row = f old"
  shows "map f (put_row key row rows) = map f rows"
  using assms by (auto simp: put_row_def upd_where_def dest: distinct_key_eq)

lemma act_move:
  assumes pr: "pair H db r x p g"
    and rows: "run_moves r r'" "execution_moves x x'" "grant_moves g g'" "status_pair (r_status r') x'"
      "gr_consumedAt g' \<noteq> None \<longleftrightarrow> marked x'"
    and rc: "rs = receipts db \<and> terminal_execution (x_status x') = terminal_execution (x_status x) \<or>
      (\<exists>c. rs = receipts db @ [c] \<and> rc_execution c = x_id x \<and> terminal_execution (x_status x) = None \<and>
         terminal_execution (x_status x') = Some (rc_outcome c))"
    and db': "runs db' = put_row r_id r' (runs db)" "executions db' = put_row x_id x' (executions db)"
      "grants db' = put_row gr_execution g' (grants db)" "receipts db' = rs" "proposals db' = proposals db"
  shows "act_ok H db'"
proof -
  have w: "act_ok H db" and m: "r \<in> set (runs db)" "x \<in> set (executions db)" "g \<in> set (grants db)"
    and k: "x_actionRun x = r_id r" "gr_execution g = x_id x" "is_m5 r"
    using pr by (simp_all add: pair_def)
  have d: "distinct (map r_id (runs db))" "distinct (map x_id (executions db))" "distinct (map gr_execution (grants db))"
    "distinct (map x_actionRun (executions db))"
    using pr w by (simp_all add: pair_def act_ok_def wf_db_def runs_ok_def)
  have sets: "set (runs db') = insert r' (set (runs db) - {r})"
    "set (executions db') = insert x' (set (executions db) - {x})"
    "set (grants db') = insert g' (set (grants db) - {g})"
    using set_put_row [OF d(1) m(1)] set_put_row [OF d(2) m(2)] set_put_row [OF d(3) m(3)] rows db'
    by (simp_all add: run_moves_def execution_moves_def grant_moves_def)
  have maps: "map x_id (executions db') = map x_id (executions db)"
    "map x_actionRun (executions db') = map x_actionRun (executions db)"
    "map x_proposal (executions db') = map x_proposal (executions db)"
    "map gr_execution (grants db') = map gr_execution (grants db)"
    unfolding db' using rows(2) put_row_map [OF d(2) m(2), of x' x_actionRun] put_row_map [OF d(2) m(2), of x' x_proposal]
    by (simp_all add: execution_moves_def)
  have none: "readReceipt db (x_id x) = None" if "terminal_execution (x_status x) = None"
    using pr that by (simp add: pair_def)
  have rcs: "readReceipt db' i = readReceipt db i" if "i \<noteq> x_id x" for i
    using rc db'(4) that by (auto simp: readReceipt_def find_append split: option.splits)
  have "map_option rc_outcome (readReceipt db' (x_id x)) = terminal_execution (x_status x')"
    using rc db'(4) pr none by (auto simp: readReceipt_def find_append pair_def)
  then have px: "paired db' x'"
    using rows sets(1) pr by (auto simp: paired_def list_ex_iff execution_moves_def run_moves_def pair_def is_m5_def)
  have gx: "granted H db' x'"
    using rows sets(3) pr db'(5)
    by (auto simp: granted_def list_ex_iff execution_moves_def grant_moves_def pair_def intro!: bexI [of _ p] bexI [of _ g'])
  have others: "paired db' y \<and> granted H db' y" if y: "y \<in> set (executions db)" "y \<noteq> x" for y
  proof -
    have ne: "x_id y \<noteq> x_id x" "x_actionRun y \<noteq> r_id r"
      using y m(2) k(1) d(2,4) by (auto dest: distinct_key_eq)
    have py: "paired db y" "granted H db y"
      using w y by (auto simp: act_ok_def list_all_iff)
    then obtain q where "q \<in> set (runs db)" "r_id q = x_actionRun y" "r_turn q = x_approvalTurn y"
      "r_session q = x_sessionId y" "is_m5 q" "status_pair (r_status q) y"
      by (auto simp: paired_def list_ex_iff)
    moreover have "q \<noteq> r"
      using calculation ne by auto
    ultimately have "paired db' y"
      using py(1) rcs [OF ne(1)] sets(1) by (auto simp: paired_def list_ex_iff)
    moreover have "granted H db' y"
    proof -
      obtain p' g'' where "p' \<in> set (proposals db)" "p_id p' = x_proposal y" "p_session p' = x_sessionId y"
        "p_status p' = Approved" "g'' \<in> set (grants db)" "gr_execution g'' = x_id y" "gr_proposal g'' = p_id p'"
        "gr_session g'' = p_session p'" "gr_proposalHash g'' = p_hash p'" "gr_tool g'' = p_tool p'"
        "gr_inputHash g'' = input_hash H (p_input p')" "(gr_consumedAt g'' \<noteq> None) = marked y"
        using py(2) by (auto simp: granted_def list_ex_iff)
      moreover have "g'' \<noteq> g"
        using calculation ne(1) k(2) by auto
      ultimately show ?thesis
        unfolding granted_def list_ex_iff db'(5) sets(3) by blast
    qed
    ultimately show ?thesis by simp
  qed
  have "list_all (\<lambda>r. is_m5 r \<longrightarrow> r_id r \<in> set (map x_actionRun (executions db'))) (runs db')"
    unfolding maps list_all_iff sets(1)
    using w rows(1) m k by (auto simp: act_ok_def list_all_iff run_moves_def intro: rev_image_eqI)
  moreover have "list_all (\<lambda>c. rc_execution c \<in> set (map x_id (executions db'))) (receipts db')"
    unfolding maps using rc w db'(4) m by (auto simp: act_ok_def list_all_iff)
  moreover have "list_all (\<lambda>q. gr_execution q \<in> set (map x_id (executions db'))) (grants db')"
    unfolding maps list_all_iff sets(3) using w rows(3) m by (auto simp: act_ok_def list_all_iff grant_moves_def)
  moreover have "distinct (map rc_execution (receipts db'))"
  proof -
    have "x_id x \<notin> rc_execution ` set (receipts db)" if "terminal_execution (x_status x) = None"
      using none [OF that] by (auto simp: readReceipt_def find_None_iff)
    then show ?thesis
      using rc w db'(4) by (auto simp: act_ok_def)
  qed
  ultimately show ?thesis
    unfolding act_ok_def maps using w px gx others sets(2) db'(5) by (auto simp: act_ok_def list_all_iff)
qed

text \<open>Steps that leave the action tables alone, and add or move runs that are not action runs.\<close>

definition same_actions :: "db \<Rightarrow> db \<Rightarrow> bool" where
  "same_actions db db' \<longleftrightarrow> executions db' = executions db \<and> grants db' = grants db \<and> receipts db' = receipts db \<and>
     distinct (map p_id (proposals db')) \<and>
     (\<forall>p \<in> set (proposals db). p_status p = Approved \<longrightarrow> p \<in> set (proposals db')) \<and>
     (\<forall>r \<in> set (runs db). is_m5 r \<longrightarrow> r \<in> set (runs db')) \<and>
     (\<forall>r \<in> set (runs db'). is_m5 r \<longrightarrow> r \<in> set (runs db))"

lemma act_same:
  assumes "act_ok H db" "same_actions db db'"
  shows "act_ok H db'"
proof -
  have "paired db' x" if "paired db x" for x
    using that assms(2) unfolding same_actions_def paired_def list_ex_iff readReceipt_def by metis
  moreover have "granted H db' x" if "granted H db x" for x
    using that assms(2) unfolding same_actions_def granted_def list_ex_iff by metis
  moreover have "list_all (\<lambda>r. is_m5 r \<longrightarrow> r_id r \<in> set (map x_actionRun (executions db'))) (runs db')"
    using assms unfolding same_actions_def act_ok_def list_all_iff by metis
  ultimately show ?thesis
    using assms by (auto simp: act_ok_def same_actions_def list_all_iff)
qed

end
