(* ===== verification/Action_Steps.thy ===== *)
theory Action_Steps
  imports Action_Inv
begin

text \<open>
  What the boundaries of the action execution service do to a pair of a run and its execution, and that
  the store after them satisfies both invariants.
\<close>

definition acted ::
  "run_row \<Rightarrow> run_event list \<Rightarrow> execution_row \<Rightarrow> grant_row \<Rightarrow> receipt_row list \<Rightarrow> db \<Rightarrow> db" where
  "acted row evs x' g' rs db = with_run row evs (db\<lparr>executions := put_row x_id x' (executions db),
     grants := put_row gr_execution g' (grants db), receipts := receipts db @ rs\<rparr>)"

lemma pair_distinct:
  assumes "pair H db r x p g"
  shows "distinct (map x_id (executions db))" "distinct (map gr_execution (grants db))"
    "x \<in> set (executions db)" "g \<in> set (grants db)" "r \<in> set (runs db)" "wf_db db" "act_ok H db"
    "uuid_ok (x_id x)" "x_proposal x = p_id p" "p_status p = Approved" "is_m5 r"
  using assms by (simp_all add: pair_def act_ok_def)

lemma grants_same: "pair H db r x p g \<Longrightarrow> put_row gr_execution g (grants db) = grants db"
  by (simp add: pair_def act_ok_def put_row_same)

lemma receipts_add_nil: "receipts db @ [] = receipts db"
  by simp

text \<open>Every boundary of a pair that is not over ends in a store like this.\<close>

lemma acted_ok:
  assumes "pair H db r x p g" "during db r row evs (r_status row)" "opt_ok run_result_ok (r_result row)"
    "\<not> isTerminalStatus (r_status r)" "execution_moves x x'" "grant_moves g g'" "status_pair (r_status row) x'"
    "gr_consumedAt g' \<noteq> None \<longleftrightarrow> marked x'"
    "rs = [] \<and> terminal_execution (x_status x') = terminal_execution (x_status x) \<or>
      (\<exists>c. rs = [c] \<and> rc_execution c = x_id x \<and> terminal_execution (x_status x) = None \<and>
         terminal_execution (x_status x') = Some (rc_outcome c))"
  shows "kept db (acted row evs x' g' rs db)" and "act_ok H (acted row evs x' g' rs db)"
proof -
  let ?db = "db\<lparr>executions := put_row x_id x' (executions db),
     grants := put_row gr_execution g' (grants db), receipts := receipts db @ rs\<rparr>"
  have w: "wf_db db"
    using assms(1) by (simp add: pair_def)
  have k: "kept db ?db"
    using w by (intro kept_other) simp_all
  have "kept ?db (acted row evs x' g' rs db)"
    unfolding acted_def using assms(2-4) kept_wf [OF k]
    by (intro during_kept [where old = r]) (simp_all add: during_def)
  then show "kept db (acted row evs x' g' rs db)"
    using k kept_trans by blast
  have m: "run_moves r row"
    using assms(2) by (simp add: during_def run_moves_def)
  show "act_ok H (acted row evs x' g' rs db)"
    using assms(9) by (intro act_move [OF assms(1) m assms(5-8), of "receipts db @ rs"]) (auto simp: acted_def)
qed

subsection \<open>Pickup\<close>

definition picked :: "int \<Rightarrow> execution_row \<Rightarrow> execution_row" where
  "picked now x = x\<lparr>x_status := Ex_preflight, x_executionUpdatedAt := now\<rparr>"

definition pickup_events :: "run_row \<Rightarrow> execution_row \<Rightarrow> int \<Rightarrow> run_event list" where
  "pickup_events r x now = [appended r (Run_started (int (r_attempt r))) now,
     appended (next_seq r) (Action_preflight_started (x_id x)) now]"

lemma start_action_queued:
  assumes "pair H db r x p g" "r_status r = Queued" "x_createdAt x \<le> now" "action_id_ok (r_id r)"
  defines "row \<equiv> next_seq (next_seq (started now r))"
  shows "startActionRun (r_id r) now db =
      (Inr (Picked (x_id x)), acted row (pickup_events (started now r) x now) (picked now x) g [] db)"
    and "kept db (acted row (pickup_events (started now r) x now) (picked now x) g [] db)"
    and "act_ok H (acted row (pickup_events (started now r) x now) (picked now x) g [] db)"
proof -
  note p = pair_distinct [OF assms(1)] and rd = pair_reads [OF assms(1)]
  have x: "x_status x = Ex_queued" "execution_check x"
    using assms(1,2) by (simp_all add: pair_def status_pair_def)
  have rc: "run_check r" "opt_ok run_result_ok (r_result r)"
    using run_check_of [OF p(6,5)] result_of [OF p(6,5)] .
  have w: "rewritten r (started now r)"
    using rc(1) assms(2) by (simp add: rewritten_def started_def run_check_def active_row_def)
  note d0 = during_start [OF p(6,5)]
  note d1 = during_update [OF d0 w]
  let ?db = "db\<lparr>executions := put_row x_id (picked now x) (executions db)\<rparr>"
  have u1: "update_runs (\<lambda>q. r_id q = r_id r \<and> r_status q = Queued)
      (\<lambda>r. r\<lparr>r_status := Running, r_startedAt := Some now\<rparr>) db = Inr (1, with_run (started now r) [] db)"
    using during_update_runs [where f = "started now" and g = "\<lambda>q. r_status q = Queued", OF d0 w refl assms(2)]
      wf_start [OF p(6,5)] by (simp add: started_def [abs_def])
  have c: "execution_check (picked now x)"
    using x assms(3) by (simp add: execution_check_def picked_def)
  have u2: "update_executions (\<lambda>y. x_id y = x_id x \<and> x_status y = Ex_queued)
      (\<lambda>y. y\<lparr>x_status := Ex_preflight, x_executionUpdatedAt := now\<rparr>) (with_run (started now r) [] db) =
      Inr (1, with_run (started now r) [] ?db)"
    using c x p by (subst update_executions_row [where x = x and h = "\<lambda>y. x_status y = Ex_queued"])
      (simp_all add: picked_def)
  let ?row1 = "started now r"
  have d1': "during ?db r ?row1 [] Queued"
    using d1 assms(2) by (simp add: during_def)
  have u3: "appendEventInTx (r_id r) (r_eventSeq r) (Run_started (int (r_attempt r))) now (with_run ?row1 [] ?db) =
      Inr (Suc (r_eventSeq r), with_run (next_seq ?row1) [appended ?row1 (Run_started (int (r_attempt r))) now] ?db)"
    using rc(1) during_appendEvent [OF d1', of "Run_started (int (r_attempt r))" "r_id r" "r_eventSeq r" now]
    by (simp add: run_check_def started_def)
  have d2: "during ?db r (next_seq ?row1) [appended ?row1 (Run_started (int (r_attempt r))) now] Running"
    using rc(1) during_append [OF d1', of "Run_started (int (r_attempt r))" Running now]
    by (simp add: status_after_def run_check_def)
  have u4: "appendEventInTx (r_id r) (Suc (r_eventSeq r)) (Action_preflight_started (x_id x)) now
        (with_run (next_seq ?row1) [appended ?row1 (Run_started (int (r_attempt r))) now] ?db) =
      Inr (Suc (Suc (r_eventSeq r)), with_run row (pickup_events ?row1 x now) ?db)"
    using p(8) during_appendEvent [OF d2, of "Action_preflight_started (x_id x)" "r_id r" "Suc (r_eventSeq r)" now]
    by (simp add: row_def pickup_events_def started_def)
  have d3: "during ?db r row (pickup_events ?row1 x now) Running"
    using p(8) during_append [OF d2, of "Action_preflight_started (x_id x)" Running now]
    by (simp add: status_after_def row_def pickup_events_def started_def)
  have e: "acted row (pickup_events ?row1 x now) (picked now x) g [] db = with_run row (pickup_events ?row1 x now) ?db"
    using grants_same [OF assms(1)] by (simp add: acted_def)
  show "startActionRun (r_id r) now db =
      (Inr (Picked (x_id x)), acted row (pickup_events (started now r) x now) (picked now x) g [] db)"
    unfolding e using assms(2,4) rd x u1 u2 u3 u4
    by (simp add: startActionRun_def checked_def withImmediate_def assertActionRun_def one_row_def)
  show "kept db (acted row (pickup_events (started now r) x now) (picked now x) g [] db)"
    and "act_ok H (acted row (pickup_events (started now r) x now) (picked now x) g [] db)"
    using d3 rc(2) assms(1,2) c x(1)
    by (auto intro!: acted_ok [OF assms(1)]
        simp: row_def during_def started_def execution_moves_def grant_moves_def picked_def status_pair_def
          marked_def pair_def terminal_execution_def)
qed

subsection \<open>Ends\<close>

text \<open>An event, the end of the run, and its terminal event; the tables of actions change before them.\<close>

definition end_row :: "(run_row \<Rightarrow> run_row) \<Rightarrow> run_row \<Rightarrow> run_row" where
  "end_row f r = next_seq (f (next_seq r))"

definition end_events :: "(run_row \<Rightarrow> run_row) \<Rightarrow> payload_ev \<Rightarrow> payload_ev \<Rightarrow> run_row \<Rightarrow> int \<Rightarrow> run_event list" where
  "end_events f pl1 pl2 r now = [appended r pl1 now, appended (f (next_seq r)) pl2 now]"

lemma ending:
  fixes now :: int
  assumes "wf_db db" "r \<in> set (runs db)" "runs db1 = runs db" "events db1 = events db" "r_status r = s"
    "payload_ok pl1" "status_after (is_m5 r) s pl1 = Some s" "payload_ok pl2"
    "rewritten (next_seq r) (f (next_seq r))"
    "status_after (is_m5 r) s pl2 = Some (r_status (f (next_seq r)))"
    "\<And>q. P q \<longleftrightarrow> r_id q = r_id r \<and> G q" "G (next_seq r)"
  shows ending_append: "appendEventInTx (r_id r) (r_eventSeq r) pl1 now db1 =
      Inr (Suc (r_eventSeq r), with_run (next_seq r) [appended r pl1 now] db1)"
    and ending_update: "update_runs P f (with_run (next_seq r) [appended r pl1 now] db1) =
      Inr (1, with_run (f (next_seq r)) [appended r pl1 now] db1)"
    and ending_last: "appendEventInTx (r_id r) (Suc (r_eventSeq r)) pl2 now
        (with_run (f (next_seq r)) [appended r pl1 now] db1) =
      Inr (Suc (Suc (r_eventSeq r)), with_run (end_row f r) (end_events f pl1 pl2 r now) db1)"
    and ending_during: "during db r (end_row f r) (end_events f pl1 pl2 r now) (r_status (f (next_seq r)))"
proof -
  have d0: "during db1 r r [] s"
    using during_start [OF assms(1,2)] assms(3-5) by (simp add: during_def)
  have start: "with_run r [] db1 = db1"
    using assms(1-3) by (intro with_run_start) (simp_all add: wf_db_def)
  show "appendEventInTx (r_id r) (r_eventSeq r) pl1 now db1 =
      Inr (Suc (r_eventSeq r), with_run (next_seq r) [appended r pl1 now] db1)"
    using during_appendEvent [OF d0 assms(6) refl refl, of now] start by simp
  have d1: "during db1 r (next_seq r) [appended r pl1 now] s"
    using during_append [OF d0 assms(6,7), of now] by simp
  show "update_runs P f (with_run (next_seq r) [appended r pl1 now] db1) =
      Inr (1, with_run (f (next_seq r)) [appended r pl1 now] db1)"
    using assms(11,12) by (intro during_update_runs [where g = G and f = f, OF d1 assms(9)]) simp_all
  note d2 = during_update [OF d1 assms(9)]
  have sq: "r_eventSeq (f (next_seq r)) = Suc (r_eventSeq r)"
    using assms(9) by (simp add: rewritten_def)
  show "appendEventInTx (r_id r) (Suc (r_eventSeq r)) pl2 now
        (with_run (f (next_seq r)) [appended r pl1 now] db1) =
      Inr (Suc (Suc (r_eventSeq r)), with_run (end_row f r) (end_events f pl1 pl2 r now) db1)"
    using during_appendEvent [OF d2 assms(8) refl, of "Suc (r_eventSeq r)" now] sq
    by (simp add: end_row_def end_events_def)
  have "during db1 r (end_row f r) (end_events f pl1 pl2 r now) (r_status (f (next_seq r)))"
    using during_append [OF d2 assms(8,10), of now] by (simp add: end_row_def end_events_def)
  then show "during db r (end_row f r) (end_events f pl1 pl2 r now) (r_status (f (next_seq r)))"
    using assms(3,4) by (simp add: during_def)
qed

text \<open>The end of an execution with its receipt.\<close>

lemma closing:
  assumes "pair H db r x p g" "terminal_execution (x_status x) = None"
    "executions db0 = executions db" "receipts db0 = receipts db"
    "\<And>y. P y \<longleftrightarrow> x_id y = x_id x \<and> h y" "h x" "execution_moves x (f x)"
    "out \<noteq> Rcp_succeeded" "out = Rcp_blocked_stale \<Longrightarrow> rv \<noteq> None \<and> snap \<noteq> None"
  shows closing_update: "update_executions P f db0 =
      Inr (1, db0\<lparr>executions := put_row x_id (f x) (executions db)\<rparr>)"
    and closing_receipt: "insertReceipt x p out rv snap now (db0\<lparr>executions := put_row x_id (f x) (executions db)\<rparr>) =
      Inr (db0\<lparr>executions := put_row x_id (f x) (executions db),
        receipts := receipts db @ [receipt_for x p out rv snap now]\<rparr>)"
proof -
  note p = pair_distinct [OF assms(1)]
  have m: "x_id (f x) = x_id x" "x_sessionId (f x) = x_sessionId x" "x_proposal (f x) = x_proposal x"
    "execution_check (f x)"
    using assms(7) by (simp_all add: execution_moves_def)
  show "update_executions P f db0 = Inr (1, db0\<lparr>executions := put_row x_id (f x) (executions db)\<rparr>)"
    using assms(3,5,6) p m by (subst update_executions_row [where x = x and h = h]) simp_all
  have "f x \<in> set (put_row x_id (f x) (executions db))"
    using set_put_row [OF p(1,3) m(1)] by simp
  moreover have "readReceipt db (x_id x) = None"
    using assms(1,2) by (simp add: pair_def)
  ultimately show "insertReceipt x p out rv snap now (db0\<lparr>executions := put_row x_id (f x) (executions db)\<rparr>) =
      Inr (db0\<lparr>executions := put_row x_id (f x) (executions db),
        receipts := receipts db @ [receipt_for x p out rv snap now]\<rparr>)"
    using assms(4,8,9) m p(9) by (subst insertReceipt_row [where x' = "f x"]) (simp_all add: readReceipt_def)
qed

lemma closed_store:
  "pair H db r x p g \<Longrightarrow>
     with_run row evs (db\<lparr>executions := put_row x_id x' (executions db), receipts := receipts db @ rs\<rparr>) =
     acted row evs x' g rs db"
  by (simp add: acted_def grants_same)

text \<open>An ended execution with its receipt satisfies the invariants.\<close>

lemma closed_ok:
  assumes "pair H db r x p g" "during db r row evs (r_status row)" "opt_ok run_result_ok (r_result row)"
    "\<not> isTerminalStatus (r_status r)" "terminal_execution (x_status x) = None" "execution_moves x x'"
    "status_pair (r_status row) x'" "marked x' = marked x" "terminal_execution (x_status x') = Some out"
  shows "kept db (acted row evs x' g [receipt_for x p out rv snap now] db)"
    and "act_ok H (acted row evs x' g [receipt_for x p out rv snap now] db)"
proof -
  have "gr_consumedAt g \<noteq> None \<longleftrightarrow> marked x'"
    using assms(1,8) by (simp add: pair_def)
  moreover have "grant_moves g g"
    by (simp add: grant_moves_def)
  ultimately show "kept db (acted row evs x' g [receipt_for x p out rv snap now] db)"
    and "act_ok H (acted row evs x' g [receipt_for x p out rv snap now] db)"
    using assms by (auto intro!: acted_ok [OF assms(1-4,6)] simp: receipt_for_def)
qed

subsection \<open>A failed preflight\<close>

definition ex_failed :: "string \<Rightarrow> int \<Rightarrow> execution_row \<Rightarrow> execution_row" where
  "ex_failed code now x = x\<lparr>x_status := Ex_failed, x_errorCode := Some (js code), x_finishedAt := Some now,
     x_executionUpdatedAt := now\<rparr>"

lemma unmarked_preflight_row:
  "x_status x = Ex_preflight \<Longrightarrow> x_callStartedAt x = None \<Longrightarrow> x_finishedAt x = None \<Longrightarrow> unmarked_preflight x x"
  by (simp add: unmarked_preflight_def)

lemma preflight_columns:
  assumes "pair H db r x p g" "x_status x = Ex_preflight"
  shows "x_callStartedAt x = None" "x_finishedAt x = None" "x_errorCode x = None"
    "terminal_execution (x_status x) = None" "readReceipt db (x_id x) = None" "\<not> marked x"
    "gr_consumedAt g = None"
  using assms by (auto simp: pair_def execution_check_def terminal_execution_def marked_def)

lemma running_pair:
  assumes "pair H db r x p g" "r_status r = Running" "x_status x = Ex_preflight"
  shows "requirePreflightStage (r_id r) db = Inr (r, x, p)"
  using assms pair_reads [OF assms(1)] preflight_columns [OF assms(1,3)] pair_distinct(10) [OF assms(1)]
  by (simp add: requirePreflightStage_def assertActionRun_def)

definition action_failed :: "int \<Rightarrow> run_row \<Rightarrow> run_row" where
  "action_failed now r = failed_with (js ''execution_failed'') now r"

lemma failed_code: "is_code M0_RUN_ERROR_CODES (js ''execution_failed'')"
  by (simp add: is_code_def M0_RUN_ERROR_CODES_def)

lemma preflight_failure_eq:
  assumes "pair H db r x p g" "r_status r = Running" "x_status x = Ex_preflight" "x_createdAt x \<le> now"
    "action_id_ok (r_id r)"
  defines "D \<equiv> acted (end_row (action_failed now) r)
    (end_events (action_failed now) (Action_preflight_failed (x_id x) (js ''action_preflight_failed''))
      (Run_failed (js ''execution_failed'')) r now)
    (ex_failed ''action_preflight_failed'' now x) g [receipt_for x p Rcp_failed None None now] db"
  shows "recordActionPreflightFailure (r_id r) now db = (Inr (Inr (x_id x, r_eventSeq r + 2)), D)"
    and "kept db D" and "act_ok H D"
proof -
  note p = pair_distinct [OF assms(1)] and rd = pair_reads [OF assms(1)] and c = preflight_columns [OF assms(1,3)]
  let ?x = "ex_failed ''action_preflight_failed'' now x"
  let ?db1 = "db\<lparr>executions := put_row x_id ?x (executions db), receipts := receipts db @ [receipt_for x p Rcp_failed None None now]\<rparr>"
  let ?pl1 = "Action_preflight_failed (x_id x) (js ''action_preflight_failed'')"
  have mv: "execution_moves x ?x"
    using assms(4) by (simp add: execution_moves_def execution_check_def ex_failed_def)
  note u = closing [where f = "ex_failed ''action_preflight_failed'' now" and P = "unmarked_preflight x" and
      h = "\<lambda>y. x_status y = Ex_preflight \<and> x_callStartedAt y = None \<and> x_finishedAt y = None" and out = Rcp_failed and
      ?db0.0 = db, OF assms(1) c(4) refl refl unmarked_preflight_def _ mv]
  have w: "rewritten (next_seq r) (action_failed now (next_seq r))"
    using run_check_of [OF p(6,5)] assms(2)
    by (simp add: rewritten_def action_failed_def failed_with_def run_check_def active_row_def next_seq_def)
  have st: "r_status (next_seq r) = Running" "r_status (action_failed now (next_seq r)) = Failed"
    "r_status (end_row (action_failed now) r) = Failed" "r_result (end_row (action_failed now) r) = r_result r"
    using assms(2) by (simp_all add: action_failed_def failed_with_def end_row_def)
  have pre: "runs ?db1 = runs db" "events ?db1 = events db" "payload_ok ?pl1"
    "status_after (is_m5 r) Running ?pl1 = Some Running" "payload_ok (Run_failed (js ''execution_failed''))"
    "status_after (is_m5 r) Running (Run_failed (js ''execution_failed'')) = Some (r_status (action_failed now (next_seq r)))"
    using p(8) failed_code st by (simp_all add: status_after_def is_code_def M5_ACTION_ERROR_CODES_def)
  note e = ending [where db = db and ?db1.0 = ?db1 and r = r and s = Running and f = "action_failed now" and
      ?pl1.0 = ?pl1 and ?pl2.0 = "Run_failed (js ''execution_failed'')" and
      P = "\<lambda>q. r_id q = r_id r \<and> r_status q = Running" and G = "\<lambda>q. r_status q = Running" and now = now,
      OF p(6,5) pre(1,2) assms(2) pre(3,4,5) w pre(6) refl st(1)]
  have D: "D = with_run (end_row (action_failed now) r) (end_events (action_failed now) ?pl1
      (Run_failed (js ''execution_failed'')) r now) ?db1"
    unfolding D_def by (rule closed_store [OF assms(1), symmetric])
  show "recordActionPreflightFailure (r_id r) now db = (Inr (Inr (x_id x, r_eventSeq r + 2)), D)"
    unfolding D using u assms(3) c running_pair [OF assms(1-3)] rd(1) assms(2,5) e(1-3)
    by (simp add: recordActionPreflightFailure_def checked_def withImmediate_def assertActionRun_def one_row_def
        action_failed_def [abs_def] failed_with_def [abs_def] ex_failed_def [abs_def])
  show "kept db D" and "act_ok H D"
    unfolding D_def using e(4) result_of [OF p(6,5)] assms(2) c(4) st mv
    by (auto intro!: closed_ok [OF assms(1)] simp: ex_failed_def status_pair_def marked_def terminal_execution_def)
qed

subsection \<open>Recovery of a pair\<close>

definition recovered :: "int \<Rightarrow> execution_row \<Rightarrow> execution_row" where
  "recovered now x = (if marked x
     then x\<lparr>x_status := Ex_unknown, x_errorCode := None, x_finishedAt := Some now, x_executionUpdatedAt := now\<rparr>
     else ex_failed ''action_recovery_abandoned_before_write'' now x)"

definition recovery_outcome :: "execution_row \<Rightarrow> receipt_outcome" where
  "recovery_outcome x = (if marked x then Rcp_unknown else Rcp_failed)"

definition recovery_of :: "execution_row \<Rightarrow> recovery_plan" where
  "recovery_of x = (if marked x then Abandon_post_marker else Abandon_pre_marker)"

definition recovered_db ::
  "run_row \<Rightarrow> execution_row \<Rightarrow> proposal_row \<Rightarrow> grant_row \<Rightarrow> abandon_cause \<Rightarrow> int \<Rightarrow> db \<Rightarrow> db" where
  "recovered_db r x p g cause now db = acted (end_row (ended Abandoned now) r)
     (end_events (ended Abandoned now) (Action_execution_finished (x_id x) (recovery_outcome x))
       (Run_abandoned cause) r now)
     (recovered now x) g [receipt_for x p (recovery_outcome x) None None now] db"

lemma open_columns:
  assumes "pair H db r x p g" "r_status r = Running"
  shows "x_finishedAt x = None" "terminal_execution (x_status x) = None" "x_errorCode x = None"
    "x_status x = (if marked x then Ex_executing else Ex_preflight)"
  using assms by (auto simp: pair_def execution_check_def terminal_execution_def marked_def status_pair_def)

lemma classify_running:
  "pair H db r x p g \<Longrightarrow> r_status r = Running \<Longrightarrow> classifyActionPair db r x = Inr (recovery_of x)"
  using open_columns [of H db r x p g]
  by (auto simp: classifyActionPair_def recovery_of_def marked_def split: if_splits)

lemma recovery_eq:
  fixes cause
  assumes "pair H db r x p g" "r_status r = Running" "x_createdAt x \<le> now"
  defines "D \<equiv> recovered_db r x p g cause now db"
  shows "applyRecoveryAbandon r x (recovery_of x) cause now db = Inr D"
    and "kept db D" and "act_ok H D"
proof -
  note p = pair_distinct [OF assms(1)] and rd = pair_reads [OF assms(1)] and c = open_columns [OF assms(1,2)]
  let ?x = "recovered now x" and ?out = "recovery_outcome x"
  let ?rc = "receipt_for x p ?out None None now"
  let ?db1 = "db\<lparr>executions := put_row x_id ?x (executions db), receipts := receipts db @ [?rc]\<rparr>"
  let ?pl1 = "Action_execution_finished (x_id x) ?out"
  have mv: "execution_moves x ?x"
    using assms(3) by (simp add: execution_moves_def execution_check_def recovered_def ex_failed_def marked_def)
  note u = closing [where f = "\<lambda>y. y\<lparr>x_status := (if recovery_of x = Abandon_pre_marker then Ex_failed else Ex_unknown),
       x_errorCode := (if recovery_of x = Abandon_pre_marker
         then Some (js ''action_recovery_abandoned_before_write'') else None),
       x_finishedAt := Some now, x_executionUpdatedAt := now\<rparr>"
      and P = "\<lambda>y. x_id y = x_id x \<and> x_status y = x_status x \<and>
        (x_callStartedAt y = None \<longleftrightarrow> recovery_of x = Abandon_pre_marker) \<and> x_finishedAt y = None" and
      h = "\<lambda>y. x_status y = x_status x \<and> (x_callStartedAt y = None \<longleftrightarrow> recovery_of x = Abandon_pre_marker) \<and>
        x_finishedAt y = None" and out = ?out and x = x and ?db0.0 = db and rv = None and snap = None, OF assms(1) c(2) refl refl refl]
  have fx: "x\<lparr>x_status := (if recovery_of x = Abandon_pre_marker then Ex_failed else Ex_unknown),
       x_errorCode := (if recovery_of x = Abandon_pre_marker
         then Some (js ''action_recovery_abandoned_before_write'') else None),
       x_finishedAt := Some now, x_executionUpdatedAt := now\<rparr> = ?x"
    by (simp add: recovered_def recovery_of_def ex_failed_def)
  have w: "rewritten (next_seq r) (ended Abandoned now (next_seq r))"
    using run_check_of [OF p(6,5)] assms(2)
    by (simp add: rewritten_def ended_def run_check_def active_row_def next_seq_def)
  have st: "r_status (next_seq r) = Running \<and> r_finishedAt (next_seq r) = None"
    "r_status (end_row (ended Abandoned now) r) = Abandoned" "r_result (end_row (ended Abandoned now) r) = r_result r"
    using assms(2) run_check_of [OF p(6,5)] by (simp_all add: ended_def end_row_def run_check_def)
  have pre: "runs ?db1 = runs db" "events ?db1 = events db" "payload_ok ?pl1"
    "status_after (is_m5 r) Running ?pl1 = Some Running" "payload_ok (Run_abandoned cause)"
    "status_after (is_m5 r) Running (Run_abandoned cause) = Some (r_status (ended Abandoned now (next_seq r)))"
    using p(8) by (simp_all add: status_after_def)
  note e = ending [where db = db and ?db1.0 = ?db1 and r = r and s = Running and f = "ended Abandoned now" and
      ?pl1.0 = ?pl1 and ?pl2.0 = "Run_abandoned cause" and
      P = "\<lambda>q. r_id q = r_id r \<and> r_status q = Running \<and> r_finishedAt q = None" and
      G = "\<lambda>q. r_status q = Running \<and> r_finishedAt q = None" and now = now,
      OF p(6,5) pre(1,2) assms(2) pre(3,4,5) w pre(6) refl st(1)]
  have D: "D = with_run (end_row (ended Abandoned now) r) (end_events (ended Abandoned now) ?pl1
      (Run_abandoned cause) r now) ?db1"
    unfolding D_def recovered_db_def by (rule closed_store [OF assms(1), symmetric])
  have rdr: "readRun ?db1 (r_id r) = Some r"
    using rd(1) by (simp add: readRun_def)
  have plan: "recovery_of x \<noteq> Unchanged" "(if recovery_of x = Abandon_pre_marker then Rcp_failed else Rcp_unknown) = ?out"
    "x_callStartedAt x = None \<longleftrightarrow> recovery_of x = Abandon_pre_marker"
    by (simp_all add: recovery_of_def recovery_outcome_def marked_def)
  have out: "?out \<noteq> Rcp_succeeded" "?out \<noteq> Rcp_blocked_stale"
    by (simp_all add: recovery_outcome_def)
  show "applyRecoveryAbandon r x (recovery_of x) cause now db = Inr D"
    unfolding D applyRecoveryAbandon_def
    using u [unfolded fx, OF _ mv out(1)] out plan c(1) rd(3) rdr e(1-3)
    by (simp add: Let_def assertActionRun_def one_row_def ended_def [abs_def])
  show "kept db D" and "act_ok H D"
    unfolding D_def recovered_db_def using e(4) result_of [OF p(6,5)] assms(2) c(2) st(2,3) mv
    by (auto intro!: closed_ok [OF assms(1)]
        simp: recovered_def ex_failed_def status_pair_def marked_def terminal_execution_def recovery_outcome_def)
qed

subsection \<open>The grant gate\<close>

definition executing :: "int \<Rightarrow> execution_row \<Rightarrow> execution_row" where
  "executing now x = x\<lparr>x_status := Ex_executing, x_callStartedAt := Some now, x_executionUpdatedAt := now\<rparr>"

definition consumed :: "int \<Rightarrow> grant_row \<Rightarrow> grant_row" where
  "consumed now g = g\<lparr>gr_consumedAt := Some now\<rparr>"

definition grant_of :: "execution_row \<Rightarrow> proposal_row \<Rightarrow> grant_row \<Rightarrow> int \<Rightarrow> committed_grant" where
  "grant_of x p g now = \<lparr>cg_execution = x_id x, cg_proposal = p_id p, cg_proposalHash = p_hash p,
     cg_tool = p_tool p, cg_inputHash = gr_inputHash g, cg_expectedRevision = p_revision p, cg_consumedAt = now\<rparr>"

definition consumed_db :: "run_row \<Rightarrow> execution_row \<Rightarrow> grant_row \<Rightarrow> int \<Rightarrow> db \<Rightarrow> db" where
  "consumed_db r x g now db = acted (next_seq r) [appended r (Action_execution_started (x_id x)) now]
     (executing now x) (consumed now g) [] db"

lemma consume_eq:
  assumes "pair H db r x p g" "r_status r = Running" "x_status x = Ex_preflight" "x_createdAt x \<le> now"
    "action_id_ok (r_id r)" "proposed_input p = Inr i"
  shows "consumeActionGrant H (r_id r) now db = (Inr (Inr (grant_of x p g now)), consumed_db r x g now db)"
    and "kept db (consumed_db r x g now db)" and "act_ok H (consumed_db r x g now db)"
proof -
  note p = pair_distinct [OF assms(1)] and rd = pair_reads [OF assms(1)] and c = preflight_columns [OF assms(1,3)]
  let ?db1 = "db\<lparr>grants := put_row gr_execution (consumed now g) (grants db)\<rparr>"
  let ?db2 = "?db1\<lparr>executions := put_row x_id (executing now x) (executions db)\<rparr>"
  let ?pl = "Action_execution_started (x_id x)"
  have i: "i = p_input p"
    using assms(6) by (auto simp: proposed_input_def split: if_splits)
  have ge: "gr_execution g = x_id x" "gr_proposal g = p_id p" "gr_session g = r_session r"
    "gr_proposalHash g = p_hash p" "gr_tool g = p_tool p" "gr_inputHash g = input_hash H (p_input p)"
    using assms(1) by (simp_all add: pair_def)
  have u1: "update_grants (\<lambda>q. gr_execution q = x_id x \<and> gr_consumedAt q = None)
      (\<lambda>q. q\<lparr>gr_consumedAt := Some now\<rparr>) db = Inr (1, ?db1)"
    using update_grants_row [where db = db and g = g and f = "consumed now" and h = "\<lambda>q. gr_consumedAt q = None",
        OF p(2,4) _ c(7)] ge(1)
    by (simp add: consumed_def [abs_def])
  have mv: "execution_moves x (executing now x)"
    using c assms(4) by (simp add: execution_moves_def execution_check_def executing_def)
  have u2: "update_executions (unmarked_preflight x)
      (\<lambda>x. x\<lparr>x_status := Ex_executing, x_callStartedAt := Some now, x_executionUpdatedAt := now\<rparr>) ?db1 =
      Inr (1, ?db2)"
    using mv p assms(3) c
    by (subst update_executions_row [where x = x and
        h = "\<lambda>y. x_status y = Ex_preflight \<and> x_callStartedAt y = None \<and> x_finishedAt y = None"])
      (simp_all add: unmarked_preflight_def executing_def execution_moves_def)
  have d: "during ?db2 r r [] Running"
    using during_start [OF p(6,5)] assms(2) by (simp add: during_def)
  have start: "with_run r [] ?db2 = ?db2"
    using p(5,6) by (intro with_run_start) (simp_all add: wf_db_def)
  have u3: "appendEventInTx (r_id r) (r_eventSeq r) ?pl now ?db2 =
      Inr (Suc (r_eventSeq r), with_run (next_seq r) [appended r ?pl now] ?db2)"
    using during_appendEvent [OF d _ refl refl, of ?pl now] start p(8) by simp
  have D: "consumed_db r x g now db = with_run (next_seq r) [appended r ?pl now] ?db2"
    by (simp add: consumed_db_def acted_def)
  show "consumeActionGrant H (r_id r) now db = (Inr (Inr (grant_of x p g now)), consumed_db r x g now db)"
    unfolding D grant_of_def using assms(2,3,5,6) i rd c(1) ge p(10) u1 u2 u3
    by (simp add: consumeActionGrant_def checked_def withImmediate_def assertActionRun_def one_row_def)
  have d1: "during db r (next_seq r) [appended r ?pl now] Running"
    using during_append [OF d, of ?pl Running now] p(8) by (simp add: during_def status_after_def)
  show "kept db (consumed_db r x g now db)" and "act_ok H (consumed_db r x g now db)"
    unfolding consumed_db_def using d1 result_of [OF p(6,5)] assms(2,3) mv
    by (auto intro!: acted_ok [OF assms(1)]
        simp: executing_def consumed_def grant_moves_def status_pair_def marked_def terminal_execution_def)
qed

subsection \<open>Cancellation\<close>

definition cancel_events :: "run_row \<Rightarrow> execution_row \<Rightarrow> int \<Rightarrow> run_event list" where
  "cancel_events row x now = [appended row (Action_execution_finished (x_id x) Rcp_failed) now,
     appended (next_seq row) Run_cancelled now]"

definition cancelled_db :: "run_row \<Rightarrow> execution_row \<Rightarrow> proposal_row \<Rightarrow> grant_row \<Rightarrow> int \<Rightarrow> db \<Rightarrow> db" where
  "cancelled_db r x p g now db = acted (next_seq (next_seq (cancelled_now now r)))
     (cancel_events (cancelled_now now r) x now) (ex_failed ''action_cancelled_before_write'' now x) g
     [receipt_for x p Rcp_failed None None now] db"

lemma cancel_eq:
  assumes "pair H db r x p g" "r_status r = Queued \<or> r_status r = Running" "\<not> marked x" "x_createdAt x \<le> now"
    "action_id_ok (r_id r)" "action_id_ok (r_session r)"
  shows "cancelActionRun (r_session r) (r_id r) now db =
      (Inr (Cancelled, Some (r_eventSeq r + 2)), cancelled_db r x p g now db)"
    and "kept db (cancelled_db r x p g now db)" and "act_ok H (cancelled_db r x p g now db)"
proof -
  note p = pair_distinct [OF assms(1)] and rd = pair_reads [OF assms(1)]
  let ?x = "ex_failed ''action_cancelled_before_write'' now x" and ?row = "cancelled_now now r"
  let ?rc = "receipt_for x p Rcp_failed None None now"
  let ?db1 = "db\<lparr>executions := put_row x_id ?x (executions db), receipts := receipts db @ [?rc]\<rparr>"
  let ?pl = "Action_execution_finished (x_id x) Rcp_failed"
  have c: "x_callStartedAt x = None" "x_finishedAt x = None" "x_status x = Ex_queued \<or> x_status x = Ex_preflight"
    "terminal_execution (x_status x) = None"
    using assms(1-3) by (auto simp: pair_def execution_check_def marked_def status_pair_def terminal_execution_def)
  have mv: "execution_moves x ?x"
    using assms(4) c by (simp add: execution_moves_def execution_check_def ex_failed_def)
  have live: "\<not> isTerminalStatus (r_status r)" "r_finishedAt r = None"
    using assms(2) run_check_of [OF p(6,5)] by (auto simp: run_check_def)
  have w: "rewritten r ?row"
    using run_check_of [OF p(6,5)] assms(2)
    by (auto simp: rewritten_def cancelled_now_def run_check_def active_row_def)
  note d0 = during_start [OF p(6,5)]
  note d1 = during_update [OF d0 w]
  have u1: "update_runs (\<lambda>q. r_id q = r_id r \<and> r_status q \<in> {Queued, Running, Cancel_requested} \<and> r_finishedAt q = None)
      (cancelled_now now) db = Inr (1, with_run ?row [] db)"
    using during_update_runs [where f = "cancelled_now now" and row = r and evs = "[]" and
        g = "\<lambda>q. r_status q \<in> {Queued, Running, Cancel_requested} \<and> r_finishedAt q = None", OF d0 w refl]
      wf_start [OF p(6,5)] assms(2) live by auto
  note u = closing [where f = "ex_failed ''action_cancelled_before_write'' now" and out = Rcp_failed and
      P = "\<lambda>y. x_id y = x_id x \<and> x_status y \<in> {Ex_queued, Ex_preflight} \<and> x_callStartedAt y = None \<and> x_finishedAt y = None" and
      h = "\<lambda>y. x_status y \<in> {Ex_queued, Ex_preflight} \<and> x_callStartedAt y = None \<and> x_finishedAt y = None" and
      rv = None and snap = None and ?db0.0 = "with_run ?row [] db", OF assms(1) c(4) with_run_sel(10,12) refl _ mv]
  have d1': "during ?db1 r ?row [] (r_status r)"
    using d1 by (simp add: during_def)
  have u3: "appendEventInTx (r_id r) (r_eventSeq r) ?pl now (with_run ?row [] ?db1) =
      Inr (Suc (r_eventSeq r), with_run (next_seq ?row) [appended ?row ?pl now] ?db1)"
    using during_appendEvent [OF d1', of ?pl "r_id r" "r_eventSeq r" now] p(8) by (simp add: cancelled_now_def)
  have d2: "during ?db1 r (next_seq ?row) [appended ?row ?pl now] (r_status r)"
    using during_append [OF d1', of ?pl "r_status r" now] p(8) live by (simp add: status_after_def)
  have u4: "appendEventInTx (r_id r) (Suc (r_eventSeq r)) Run_cancelled now
        (with_run (next_seq ?row) [appended ?row ?pl now] ?db1) =
      Inr (Suc (Suc (r_eventSeq r)), with_run (next_seq (next_seq ?row)) (cancel_events ?row x now) ?db1)"
    using during_appendEvent [OF d2, of Run_cancelled "r_id r" "Suc (r_eventSeq r)" now]
    by (simp add: cancelled_now_def cancel_events_def)
  have "status_after (is_m5 r) (r_status r) Run_cancelled = Some Cancelled"
    using p(11) assms(2) by (auto simp: status_after_def)
  then have "during ?db1 r (next_seq (next_seq ?row)) (cancel_events ?row x now) Cancelled"
    using during_append [OF d2, of Run_cancelled Cancelled now] by (simp add: cancel_events_def)
  then have d3: "during db r (next_seq (next_seq ?row)) (cancel_events ?row x now) Cancelled"
    by (simp add: during_def)
  have D: "cancelled_db r x p g now db = with_run (next_seq (next_seq ?row)) (cancel_events ?row x now) ?db1"
    unfolding cancelled_db_def by (rule closed_store [OF assms(1), symmetric])
  show "cancelActionRun (r_session r) (r_id r) now db =
      (Inr (Cancelled, Some (r_eventSeq r + 2)), cancelled_db r x p g now db)"
    unfolding D using rd live c assms(5,6) u1 u u3 u4
    by (simp add: cancelActionRun_def checked_def withImmediate_def assertActionRun_def one_row_def
        cancelled_now_def [abs_def] ex_failed_def [abs_def])
  show "kept db (cancelled_db r x p g now db)" and "act_ok H (cancelled_db r x p g now db)"
    unfolding cancelled_db_def using d3 result_of [OF p(6,5)] live c(4) mv assms(3)
    by (auto intro!: closed_ok [OF assms(1)]
        simp: ex_failed_def status_pair_def marked_def terminal_execution_def cancelled_now_def)
qed

subsection \<open>Selecting the run that ended\<close>

lemma select_run_ok:
  assumes "wf_db D" "row \<in> set (runs D)" "r_id row = r_id r" "r_turn row = r_turn r" "r_status row = Completed"
  obtains ss where "select_run r now D = Inr (D\<lparr>selections := ss\<rparr>)" "kept D (D\<lparr>selections := ss\<rparr>)"
proof -
  have "\<exists>ss. select_run r now D = Inr (D\<lparr>selections := ss\<rparr>)"
  proof (cases "r_selectOnSuccess r")
    case True
    then show ?thesis
      using assms(2-4) by (auto simp: select_run_def upsert_selection_def)
  next
    case False
    then show ?thesis
      by (auto simp: select_run_def intro: exI [of _ "selections D"])
  qed
  then obtain ss where ss: "select_run r now D = Inr (D\<lparr>selections := ss\<rparr>)" by blast
  have "wf_db (D\<lparr>selections := ss\<rparr>)"
  proof (rule wf_select [OF assms(1) ss refl])
    fix q assume q: "q \<in> set (runs D)" "r_id q = r_id r"
    then have "q = row"
      using assms(1-3) distinct_key_eq [of r_id "runs D" q row] by (simp add: wf_db_def runs_ok_def)
    then show "r_status q = Completed" using assms(5) by simp
  qed
  then have "kept D (D\<lparr>selections := ss\<rparr>)"
    by (simp add: kept_def evolves_same)
  with ss show thesis by (rule that)
qed

lemma act_selections [simp]: "act_ok H (db\<lparr>selections := ss\<rparr>) = act_ok H db"
  by (simp add: act_ok_def paired_def [abs_def] granted_def [abs_def] readReceipt_def)

lemma act_idem [simp]: "act_ok H (db\<lparr>idem := is\<rparr>) = act_ok H db"
  by (simp add: act_ok_def paired_def [abs_def] granted_def [abs_def] readReceipt_def)

lemma acted_row_in: "pair H db r x p g \<Longrightarrow> r_id row = r_id r \<Longrightarrow> row \<in> set (runs (acted row evs x' g' rs db))"
  by (auto simp: acted_def pair_def wf_db_def runs_ok_def set_put_row [of r_id "runs db" r])

subsection \<open>The end of a write\<close>

definition plain_execution :: "plain_outcome \<Rightarrow> int \<Rightarrow> execution_row \<Rightarrow> execution_row" where
  "plain_execution outcome now x = x\<lparr>x_status := outcome_status outcome,
     x_errorCode := (if outcome = Plain_failed then Some (js ''action_write_failed'') else None),
     x_finishedAt := Some now, x_executionUpdatedAt := now\<rparr>"

definition plain_run :: "plain_outcome \<Rightarrow> run_result \<Rightarrow> int \<Rightarrow> run_row \<Rightarrow> run_row" where
  "plain_run outcome res now r =
     (if outcome = Plain_unverified
      then r\<lparr>r_status := Completed, r_result := Some res, r_errorCode := None, r_finishedAt := Some now\<rparr>
      else r\<lparr>r_status := Failed, r_errorCode := Some (js ''execution_failed''), r_result := None,
             r_finishedAt := Some now\<rparr>)"

definition plain_event :: "plain_outcome \<Rightarrow> run_result \<Rightarrow> payload_ev" where
  "plain_event outcome res =
     (if outcome = Plain_unverified then Run_completed res else Run_failed (js ''execution_failed''))"

definition plain_text :: "plain_outcome \<Rightarrow> proposal_row \<Rightarrow> run_result" where
  "plain_text outcome p = Result_v1 (actionRunResultText (outcome_receipt outcome) p)"

definition finished_db ::
  "plain_outcome \<Rightarrow> jstr option \<Rightarrow> jstr option \<Rightarrow> run_row \<Rightarrow> execution_row \<Rightarrow> proposal_row \<Rightarrow> grant_row \<Rightarrow> int \<Rightarrow> db \<Rightarrow> db"
where
  "finished_db outcome rv snap r x p g now db =
     acted (end_row (plain_run outcome (plain_text outcome p) now) r)
       (end_events (plain_run outcome (plain_text outcome p) now)
         (Action_execution_finished (x_id x) (outcome_receipt outcome))
         (plain_event outcome (plain_text outcome p)) r now)
       (plain_execution outcome now x) g [receipt_for x p (outcome_receipt outcome) rv snap now] db"

lemma finish_eq:
  assumes "pair H db r x p g" "r_status r = Running" "x_status x = Ex_executing" "x_createdAt x \<le> now"
    "run_result_ok (plain_text outcome p)"
  obtains ss where
    "finishPlainTerminal (r_id r) outcome rv snap now db =
      (Inr (Inr (x_id x, r_eventSeq r + 2)), (finished_db outcome rv snap r x p g now db)\<lparr>selections := ss\<rparr>)"
    "kept db ((finished_db outcome rv snap r x p g now db)\<lparr>selections := ss\<rparr>)"
    "act_ok H ((finished_db outcome rv snap r x p g now db)\<lparr>selections := ss\<rparr>)"
proof -
  note p = pair_distinct [OF assms(1)] and rd = pair_reads [OF assms(1)] and c = open_columns [OF assms(1,2)]
  let ?res = "plain_text outcome p"
  let ?x = "plain_execution outcome now x" and ?out = "outcome_receipt outcome" and ?f = "plain_run outcome ?res now"
  let ?rc = "receipt_for x p ?out rv snap now"
  let ?db1 = "db\<lparr>executions := put_row x_id ?x (executions db), receipts := receipts db @ [?rc]\<rparr>"
  let ?pl1 = "Action_execution_finished (x_id x) ?out" and ?pl2 = "plain_event outcome ?res"
  let ?D = "finished_db outcome rv snap r x p g now db"
  have mk: "marked x" "x_callStartedAt x \<noteq> None"
    using c(4) assms(3) by (auto simp: marked_def split: if_splits)
  have mv: "execution_moves x ?x"
    using assms(4) mk(2) by (cases outcome) (simp_all add: execution_moves_def execution_check_def plain_execution_def)
  have out: "?out \<noteq> Rcp_succeeded" "?out \<noteq> Rcp_blocked_stale"
    by (cases outcome; simp)+
  note u = closing [where f = "plain_execution outcome now" and out = ?out and
      P = "\<lambda>y. x_id y = x_id x \<and> x_status y = Ex_executing \<and> x_callStartedAt y \<noteq> None \<and> x_finishedAt y = None" and
      h = "\<lambda>y. x_status y = Ex_executing \<and> x_callStartedAt y \<noteq> None \<and> x_finishedAt y = None" and
      rv = rv and snap = snap and ?db0.0 = db, OF assms(1) c(2) refl refl refl _ mv out(1)]
  have w: "rewritten (next_seq r) (?f (next_seq r))"
    using run_check_of [OF p(6,5)] assms(2)
    by (simp add: rewritten_def plain_run_def run_check_def active_row_def next_seq_def)
  have st: "r_status (next_seq r) = Running" "r_status (end_row ?f r) = (if outcome = Plain_unverified then Completed else Failed)"
    "opt_ok run_result_ok (r_result (end_row ?f r))"
    using assms(2,5) by (auto simp: plain_run_def end_row_def opt_ok_def)
  have pre: "runs ?db1 = runs db" "events ?db1 = events db" "payload_ok ?pl1"
    "status_after (is_m5 r) Running ?pl1 = Some Running" "payload_ok ?pl2"
    "status_after (is_m5 r) Running ?pl2 = Some (r_status (?f (next_seq r)))"
    using p(8) assms(5) failed_code by (auto simp: status_after_def plain_event_def plain_run_def)
  note e = ending [where db = db and ?db1.0 = ?db1 and r = r and s = Running and f = ?f and
      ?pl1.0 = ?pl1 and ?pl2.0 = ?pl2 and
      P = "\<lambda>q. r_id q = r_id r \<and> r_status q = Running" and G = "\<lambda>q. r_status q = Running" and now = now,
      OF p(6,5) pre(1,2) assms(2) pre(3,4,5) w pre(6) refl st(1)]
  have D: "?D = with_run (end_row ?f r) (end_events ?f ?pl1 ?pl2 r now) ?db1"
    unfolding finished_db_def by (rule closed_store [OF assms(1), symmetric])
  have eid: "r_status (?f (next_seq r)) = r_status (end_row ?f r)"
    by (simp add: end_row_def)
  have ok: "kept db ?D" "act_ok H ?D"
    unfolding finished_db_def using e(4) [unfolded eid] st assms(2) c(2) mv
    by (cases outcome; auto intro!: closed_ok [OF assms(1)]
        simp: plain_execution_def status_pair_def marked_def terminal_execution_def)+
  have rdr: "readRun ?db1 (r_id r) = Some r"
    using rd(1) by (simp add: readRun_def)
  have body: "(\<lambda>r. if outcome = Plain_unverified
        then r\<lparr>r_status := Completed, r_result := Some ?res, r_errorCode := None, r_finishedAt := Some now\<rparr>
        else r\<lparr>r_status := Failed, r_errorCode := Some (js ''execution_failed''), r_result := None,
               r_finishedAt := Some now\<rparr>) = ?f"
    by (simp add: plain_run_def [abs_def])
  have stage: "assertExecutingStage (r_id r) db = Inr (x, p)"
    using rd(2,3) assms(3) mk(2) c(1) p(10) by (simp add: assertExecutingStage_def)
  have eq: "finishPlainTerminal (r_id r) outcome rv snap now db =
      withImmediate (\<lambda>_. rbind (if outcome = Plain_unverified then select_run r now ?D else Inr ?D)
        (\<lambda>db6. Inr (Inr (x_id x, r_eventSeq r + 2), db6))) db"
    unfolding D finishPlainTerminal_def body [symmetric, unfolded plain_text_def] Let_def
    using assms(2,3,5) mk c(1) rd(1) stage u rdr e(1-3) out
    by (simp add: withImmediate_def assertActionRun_def one_row_def plain_text_def plain_event_def
        plain_execution_def [abs_def] plain_run_def [abs_def])
  show thesis
  proof (cases "outcome = Plain_unverified")
    case True
    have mem: "end_row ?f r \<in> set (runs ?D)"
      unfolding finished_db_def by (rule acted_row_in [OF assms(1)]) (simp add: end_row_def plain_run_def)
    have "r_id (end_row ?f r) = r_id r" "r_turn (end_row ?f r) = r_turn r" "r_status (end_row ?f r) = Completed"
      using True by (simp_all add: end_row_def plain_run_def)
    then obtain ss where "select_run r now ?D = Inr (?D\<lparr>selections := ss\<rparr>)" "kept ?D (?D\<lparr>selections := ss\<rparr>)"
      using select_run_ok [OF kept_wf [OF ok(1)] mem] by metis
    then show thesis
      using that [of ss] eq True ok kept_trans [OF ok(1)] by (simp add: withImmediate_def)
  next
    case False
    then show thesis
      using that [of "selections ?D"] eq ok by (simp add: withImmediate_def)
  qed
qed

subsection \<open>A blocked preflight\<close>

definition blocked_execution :: "int \<Rightarrow> execution_row \<Rightarrow> execution_row" where
  "blocked_execution now x =
     x\<lparr>x_status := Ex_blocked_stale, x_finishedAt := Some now, x_executionUpdatedAt := now\<rparr>"

definition blocked_text :: "proposal_row \<Rightarrow> run_result" where
  "blocked_text p = Result_v1 (actionRunResultText Rcp_blocked_stale p)"

definition blocked_events ::
  "jstr \<Rightarrow> jstr \<Rightarrow> run_row \<Rightarrow> execution_row \<Rightarrow> proposal_row \<Rightarrow> int \<Rightarrow> run_event list" where
  "blocked_events rv snap r x p now =
     [appended r (Action_preflight_blocked (x_id x) rv snap) now,
      appended (next_seq r) (Action_execution_finished (x_id x) Rcp_blocked_stale) now,
      appended (completed_with (blocked_text p) now (next_seq (next_seq r))) (Run_completed (blocked_text p)) now]"

definition blocked_row :: "proposal_row \<Rightarrow> int \<Rightarrow> run_row \<Rightarrow> run_row" where
  "blocked_row p now r = next_seq (completed_with (blocked_text p) now (next_seq (next_seq r)))"

definition blocked_db ::
  "jstr \<Rightarrow> jstr \<Rightarrow> run_row \<Rightarrow> execution_row \<Rightarrow> proposal_row \<Rightarrow> grant_row \<Rightarrow> int \<Rightarrow> db \<Rightarrow> db" where
  "blocked_db rv snap r x p g now db =
     acted (blocked_row p now r) (blocked_events rv snap r x p now) (blocked_execution now x) g
       [receipt_for x p Rcp_blocked_stale (Some rv) (Some snap) now] db"

lemma completed_with_sel [simp]:
  "r_eventSeq (completed_with res now r) = r_eventSeq r" "r_turn (completed_with res now r) = r_turn r"
  "r_result (completed_with res now r) = Some res"
  by (simp_all add: completed_with_def)

lemma blocked_eq:
  assumes "pair H db r x p g" "r_status r = Running" "x_status x = Ex_preflight" "x_createdAt x \<le> now"
    "action_id_ok (r_id r)" "source_revision_ok rv" "p_snapshot p = Some snap" "uuid_ok snap"
    "run_result_ok (blocked_text p)"
  obtains ss where
    "recordActionPreflightBlocked (r_id r) rv now db =
      (Inr (Inr (x_id x, r_eventSeq r + 4)), (blocked_db rv snap r x p g now db)\<lparr>selections := ss\<rparr>)"
    "kept db ((blocked_db rv snap r x p g now db)\<lparr>selections := ss\<rparr>)"
    "act_ok H ((blocked_db rv snap r x p g now db)\<lparr>selections := ss\<rparr>)"
proof -
  note p = pair_distinct [OF assms(1)] and rd = pair_reads [OF assms(1)] and c = preflight_columns [OF assms(1,3)]
  let ?res = "blocked_text p" and ?x = "blocked_execution now x" and ?f = "completed_with (blocked_text p) now"
  let ?rc = "receipt_for x p Rcp_blocked_stale (Some rv) (Some snap) now"
  let ?db1 = "db\<lparr>executions := put_row x_id ?x (executions db), receipts := receipts db @ [?rc]\<rparr>"
  let ?pl0 = "Action_preflight_blocked (x_id x) rv snap"
  let ?pl1 = "Action_execution_finished (x_id x) Rcp_blocked_stale" and ?pl2 = "Run_completed ?res"
  let ?D = "blocked_db rv snap r x p g now db"
  have mv: "execution_moves x ?x"
    using assms(4) c by (simp add: execution_moves_def execution_check_def blocked_execution_def)
  note u = closing [where f = "blocked_execution now" and P = "unmarked_preflight x" and
      h = "\<lambda>y. x_status y = Ex_preflight \<and> x_callStartedAt y = None \<and> x_finishedAt y = None" and
      out = Rcp_blocked_stale and rv = "Some rv" and snap = "Some snap" and
      ?db0.0 = db, OF assms(1) c(4) refl refl unmarked_preflight_def _ mv]
  have d0: "during ?db1 r r [] Running"
    using during_start [OF p(6,5)] assms(2) by (simp add: during_def)
  have start: "with_run r [] ?db1 = ?db1"
    using p(5,6) by (intro with_run_start) (simp_all add: wf_db_def)
  have ok: "payload_ok ?pl0" "payload_ok ?pl1" "payload_ok ?pl2"
    using p(8) assms(6,8,9) by simp_all
  have sa: "status_after (is_m5 r) Running ?pl0 = Some Running" "status_after (is_m5 r) Running ?pl1 = Some Running"
    "status_after (is_m5 r) Running ?pl2 = Some Completed"
    by (simp_all add: status_after_def)
  note d1 = during_append [OF d0 ok(1) sa(1), of now, simplified append_Nil]
  note d2 = during_append [OF d1 ok(2) sa(2), of now, unfolded append_Cons append_Nil]
  have w: "rewritten (next_seq (next_seq r)) (?f (next_seq (next_seq r)))"
    using run_check_of [OF p(6,5)] assms(2)
    by (simp add: rewritten_def completed_with_def run_check_def active_row_def next_seq_def)
  note d3 = during_update [OF d2 w]
  note d4 = during_append [OF d3 ok(3) sa(3), of now, unfolded append_Cons append_Nil, folded blocked_row_def blocked_events_def]
  have a1: "appendEventInTx (r_id r) (r_eventSeq r) ?pl0 now ?db1 =
      Inr (Suc (r_eventSeq r), with_run (next_seq r) [appended r ?pl0 now] ?db1)"
    using during_appendEvent [OF d0 ok(1) refl refl, of now] start by simp
  have a2: "appendEventInTx (r_id r) (Suc (r_eventSeq r)) ?pl1 now (with_run (next_seq r) [appended r ?pl0 now] ?db1) =
      Inr (Suc (Suc (r_eventSeq r)), with_run (next_seq (next_seq r))
        [appended r ?pl0 now, appended (next_seq r) ?pl1 now] ?db1)"
    using during_appendEvent [OF d1 ok(2) refl refl, of now] by simp
  have a3: "update_runs (\<lambda>q. r_id q = r_id r \<and> r_status q = Running) ?f (with_run (next_seq (next_seq r))
        [appended r ?pl0 now, appended (next_seq r) ?pl1 now] ?db1) =
      Inr (1, with_run (?f (next_seq (next_seq r))) [appended r ?pl0 now, appended (next_seq r) ?pl1 now] ?db1)"
    using assms(2) by (intro during_update_runs [where g = "\<lambda>q. r_status q = Running" and f = ?f, OF d2 w]) simp_all
  have a4: "appendEventInTx (r_id r) (Suc (Suc (r_eventSeq r))) ?pl2 now (with_run (?f (next_seq (next_seq r)))
        [appended r ?pl0 now, appended (next_seq r) ?pl1 now] ?db1) =
      Inr (Suc (Suc (Suc (r_eventSeq r))), with_run (blocked_row p now r) (blocked_events rv snap r x p now) ?db1)"
    using during_appendEvent [OF d3 ok(3) refl refl, of now] by (simp add: blocked_row_def blocked_events_def)
  have D: "?D = with_run (blocked_row p now r) (blocked_events rv snap r x p now) ?db1"
    unfolding blocked_db_def by (rule closed_store [OF assms(1), symmetric])
  have dd: "during db r (blocked_row p now r) (blocked_events rv snap r x p now) Completed"
    using d4 by (simp add: during_def)
  have st: "r_status (blocked_row p now r) = Completed" "opt_ok run_result_ok (r_result (blocked_row p now r))"
    using assms(9) by (simp_all add: blocked_row_def opt_ok_def)
  have kd: "kept db ?D" "act_ok H ?D"
    unfolding blocked_db_def using dd st assms(2) c(4) mv
    by (auto intro!: closed_ok [OF assms(1)]
        simp: blocked_execution_def status_pair_def marked_def terminal_execution_def)
  have "blocked_row p now r \<in> set (runs ?D)"
    unfolding blocked_db_def by (rule acted_row_in [OF assms(1)]) (simp add: blocked_row_def)
  then obtain ss where ss: "select_run r now ?D = Inr (?D\<lparr>selections := ss\<rparr>)" "kept ?D (?D\<lparr>selections := ss\<rparr>)"
    by (rule select_run_ok [OF kept_wf [OF kd(1)]]) (simp_all add: blocked_row_def)
  have "recordActionPreflightBlocked (r_id r) rv now db =
      (Inr (Inr (x_id x, r_eventSeq r + 4)), ?D\<lparr>selections := ss\<rparr>)"
    using u a1 a2 a3 a4 ss(1) [unfolded D] assms(2,3,5,6,7,9) c rd(1) running_pair [OF assms(1-3)]
    unfolding D recordActionPreflightBlocked_def blocked_text_def
    by (simp add: Let_def checked_def withImmediate_def assertActionRun_def one_row_def
        completed_with_def [abs_def] blocked_execution_def [abs_def])
  then show thesis
    using that [of ss] ss(2) kd kept_trans [OF kd(1)] by simp
qed

end
