(* ===== verification/Kernel_Inv.thy ===== *)
theory Kernel_Inv
  imports Action_Steps
begin

text \<open>
  The two invariants together, and that each operation of the kernel keeps them: \<open>preserved H db db'\<close> says
  that \<open>db'\<close> is well formed, evolved from \<open>db\<close>, and still agrees on the approved writes.
\<close>

definition kernel_ok :: "(jstr \<Rightarrow> jstr) \<Rightarrow> db \<Rightarrow> bool" where
  "kernel_ok H db \<longleftrightarrow> wf_db db \<and> act_ok H db"

definition preserved :: "(jstr \<Rightarrow> jstr) \<Rightarrow> db \<Rightarrow> db \<Rightarrow> bool" where
  "preserved H db db' \<longleftrightarrow> kernel_ok H db' \<and> evolves db db'"

lemma preserved_refl: "kernel_ok H db \<Longrightarrow> preserved H db db"
  by (simp add: preserved_def evolves_refl)

lemma preserved_trans: "preserved H a b \<Longrightarrow> preserved H b c \<Longrightarrow> preserved H a c"
  unfolding preserved_def using evolves_trans by blast

lemma preserved_kept: "kept db db' \<Longrightarrow> act_ok H db' \<Longrightarrow> preserved H db db'"
  by (simp add: preserved_def kept_def kernel_ok_def)

lemma preserved_ok: "preserved H db db' \<Longrightarrow> kernel_ok H db'"
  by (simp add: preserved_def)

subsection \<open>Steps of other runs\<close>

lemma act_with_run:
  assumes "wf_db db" "act_ok H db" "old \<in> set (runs db)" "run_moves old row" "is_m5 old \<Longrightarrow> r_status row = r_status old"
  shows "act_ok H (with_run row evs db)"
proof -
  have d: "distinct (map r_id (runs db))"
    using assms(1) by (simp add: wf_db_def runs_ok_def)
  have m: "r_id row = r_id old" "r_turn row = r_turn old" "r_session row = r_session old" "is_m5 row = is_m5 old"
    using assms(4) by (simp_all add: run_moves_def is_m5_def)
  have set: "set (put_row r_id row (runs db)) = insert row (set (runs db) - {old})"
    using set_put_row [OF d assms(3) m(1)] .
  have "paired (with_run row evs db) x" if x: "paired db x" for x
  proof -
    obtain q where q: "q \<in> set (runs db)" "r_id q = x_actionRun x" "r_turn q = x_approvalTurn x"
      "r_session q = x_sessionId x" "is_m5 q" "status_pair (r_status q) x"
      using x by (auto simp: paired_def list_ex_iff)
    then have "\<exists>q' \<in> set (runs (with_run row evs db)). r_id q' = x_actionRun x \<and> r_turn q' = x_approvalTurn x \<and>
        r_session q' = x_sessionId x \<and> is_m5 q' \<and> status_pair (r_status q') x"
      using assms(5) m set by (cases "q = old") auto
    then show ?thesis
      using x by (auto simp: paired_def list_ex_iff readReceipt_def)
  qed
  moreover have "granted H (with_run row evs db) x = granted H db x" for x
    by (simp add: granted_def)
  ultimately show ?thesis
    using assms(2,3) set m by (auto simp: act_ok_def list_all_iff)
qed

text \<open>Only five tables matter.\<close>

lemma act_tables:
  assumes "act_ok H db" "runs db' = runs db" "executions db' = executions db" "grants db' = grants db"
    "receipts db' = receipts db" "proposals db' = proposals db"
  shows "act_ok H db'"
  using assms by (intro act_same [OF assms(1)]) (simp_all add: same_actions_def act_ok_def)

lemma act_add_run:
  assumes "act_ok H db" "\<not> is_m5 r" "runs db' = runs db @ [r]" "executions db' = executions db"
    "grants db' = grants db" "receipts db' = receipts db" "proposals db' = proposals db"
  shows "act_ok H db'"
  using assms by (intro act_same [OF assms(1)]) (auto simp: same_actions_def act_ok_def)

lemma act_store:
  "act_ok H db \<Longrightarrow> storeIdempotentResponse sc k h st b now db = Inr db' \<Longrightarrow> act_ok H db'"
  by (erule act_tables; auto simp: storeIdempotentResponse_def insert_idem_def split: if_splits)

lemma act_user:
  "act_ok H db \<Longrightarrow> (if shouldRecordAutonomyActivity db then recordUserActivityInTx f sid now db else Inr db) = Inr db' \<Longrightarrow>
     act_ok H db'"
  by (erule act_tables; auto simp: recordUserActivityInTx_def recordActivityInTx_def insert_activity_def split: if_splits)

lemma act_select: "act_ok H db \<Longrightarrow> select_run r now db = Inr db' \<Longrightarrow> act_ok H db'"
  by (erule act_tables; auto simp: select_run_def upsert_selection_def split: if_splits)

subsection \<open>Proposals\<close>

text \<open>An update of proposals that keeps the approved ones.\<close>

lemma act_approvals:
  assumes "act_ok H db" "approvals_kept (proposals db) ps"
  shows "act_ok H (db\<lparr>proposals := ps\<rparr>)"
  using assms by (intro act_same [OF assms(1)]) (simp_all add: same_actions_def approvals_kept_def act_ok_def)

lemma decide_upd:
  "decide_proposal session proposal st now t db = Inr db' \<Longrightarrow>
     db' = db\<lparr>proposals := upd_where (\<lambda>p. p_id p = proposal \<and> p_session p = session \<and> p_status p = Pending)
       (\<lambda>p. if st = Expired then p\<lparr>p_status := st, p_resolvedAt := Some now\<rparr>
            else p\<lparr>p_status := st, p_resolvedAt := Some now, p_decisionTurn := t\<rparr>) (proposals db)\<rparr>"
  by (auto simp: decide_proposal_def one_row_def rbind_eq_Inr update_proposals_def Let_def split: if_splits)

lemma decide_approvals:
  "decide_proposal session proposal st now t db = Inr db' \<Longrightarrow> approvals_kept (proposals db) (proposals db')"
  using decide_upd [of session proposal st now t db db'] by simp (rule approvals_upd; simp)

lemma act_decide: "act_ok H db \<Longrightarrow> decide_proposal session proposal st now t db = Inr db' \<Longrightarrow> act_ok H db'"
  using act_approvals [of H db "proposals db'"] decide_approvals [of session proposal st now t db db']
    decide_proposal_shape [of session proposal st now t db db'] by auto

subsection \<open>Transitions of a run\<close>

lemma moves_next: "run_moves r (next_seq row) = run_moves r row"
  by (simp add: run_moves_def)

lemma moves_updates:
  "run_moves r (started now r)" "run_moves r (failed_with c now r)" "run_moves r (cancelled_now now r)"
  "run_moves r (cancel_asked now r)" "run_moves r (ended t now r)" "run_moves r r"
  by (simp_all add: run_moves_def row_update_defs)

lemma preserved_after:
  assumes "kernel_ok H db" "row \<in> set (runs db)" "\<not> is_m5 row" "run_moves row row'" "kept db (after_db row' pl now db)"
  shows "preserved H db (after_db row' pl now db)"
  using assms act_with_run [of db H row "next_seq row'" "[appended row' pl now]"]
  by (auto intro!: preserved_kept simp: kernel_ok_def after_db_def moves_next)

lemma start_tx_preserved:
  assumes "kernel_ok H db" "start_tx rid now db = Inr (x, db')" "\<And>row. readRun db rid = Some row \<Longrightarrow> \<not> is_m5 row"
  shows "preserved H db db'"
proof (cases "\<exists>row. readRun db rid = Some row \<and> r_status row = Queued")
  case True
  then obtain row where row: "readRun db rid = Some row" "r_status row = Queued" by blast
  have w: "wf_db db" using assms(1) by (simp add: kernel_ok_def)
  note e = start_tx_queued [OF w row, of now]
  show ?thesis
    using e assms(2) preserved_after [OF assms(1) conjunct1 [OF readRun_in [OF row(1)]] assms(3) [OF row(1)] moves_updates(1) e(2)]
    by auto
next
  case False
  then show ?thesis
    using assms by (auto simp: start_tx_def rbind_eq_Inr preserved_refl split: option.splits if_splits)
qed

lemma fail_tx_preserved:
  assumes "kernel_ok H db" "is_code M0_RUN_ERROR_CODES code" "fail_tx rid code now db = Inr (x, db')"
  shows "preserved H db db'"
proof (cases "\<exists>row. readRun db rid = Some row \<and> r_status row = Running \<and> \<not> is_m5 row")
  case True
  then obtain row where row: "readRun db rid = Some row" "r_status row = Running" "\<not> is_m5 row" by blast
  have w: "wf_db db" using assms(1) by (simp add: kernel_ok_def)
  note e = fail_tx_running [OF w row assms(2), of now]
  show ?thesis
    using e assms(3) preserved_after [OF assms(1) conjunct1 [OF readRun_in [OF row(1)]] row(3) moves_updates(2) e(2)]
    by auto
next
  case False
  then show ?thesis
    using assms by (auto simp: fail_tx_def rbind_eq_Inr preserved_refl split: option.splits if_splits)
qed

lemma cancel_tx_preserved:
  assumes "kernel_ok H db" "cancel_tx session rid now db = Inr (x, db')"
    and "\<And>row. readRun db rid = Some row \<Longrightarrow> \<not> is_m5 row"
  shows "preserved H db db'"
proof (cases "readRun db rid")
  case None
  then show ?thesis using assms by (simp add: cancel_tx_def requireOwnedRun_def)
next
  case (Some row)
  have w: "wf_db db" using assms(1) by (simp add: kernel_ok_def)
  have own: "r_session row = session"
    using Some assms(2) by (auto simp: cancel_tx_def requireOwnedRun_def split: if_splits)
  note m = conjunct1 [OF readRun_in [OF Some]] assms(3) [OF Some]
  show ?thesis
  proof (cases "r_status row")
    case Queued
    note e = cancel_tx_queued [OF w Some Queued own, of now]
    show ?thesis
      using e assms(2) preserved_after [OF assms(1) m moves_updates(3) e(2)] by auto
  next
    case Running
    note e = cancel_tx_running [OF w Some Running m(2) own, of now]
    show ?thesis
      using e assms(2) preserved_after [OF assms(1) m moves_updates(4) e(2)] by auto
  qed (use Some own assms in \<open>auto simp: cancel_tx_def requireOwnedRun_def rbind_eq_Inr preserved_refl\<close>)
qed

text \<open>An action run is never in \<open>cancel_requested\<close>.\<close>

lemma not_m5_asked:
  assumes "kernel_ok H db" "row \<in> set (runs db)" "r_status row = Cancel_requested"
  shows "\<not> is_m5 row"
proof
  assume "is_m5 row"
  with assms obtain x p g where "pair H db row x p g"
    by (metis kernel_ok_def pair_exists)
  then show False
    using assms(3) by (simp add: pair_def status_pair_def)
qed

lemma finalize_tx_preserved:
  assumes "kernel_ok H db" "finalize_tx rid now db = Inr (x, db')"
  shows "preserved H db db'"
proof (cases "\<exists>row. readRun db rid = Some row \<and> r_status row = Cancel_requested")
  case True
  then obtain row where row: "readRun db rid = Some row" "r_status row = Cancel_requested" by blast
  have w: "wf_db db" using assms(1) by (simp add: kernel_ok_def)
  note m = conjunct1 [OF readRun_in [OF row(1)]]
  note e = finalize_tx_asked [OF w row, of now]
  show ?thesis
    using e assms(2) preserved_after [OF assms(1) m not_m5_asked [OF assms(1) m row(2)] moves_updates(5) e(2)] by auto
next
  case False
  then show ?thesis
    using assms by (auto simp: finalize_tx_def rbind_eq_Inr preserved_refl split: option.splits if_splits)
qed

lemma settle_tx_preserved:
  assumes "kernel_ok H db" "settle_tx rid cause now db = Inr (x, db')"
    "\<And>row. readRun db rid = Some row \<Longrightarrow> \<not> is_m5 row"
  shows "preserved H db db'"
proof (cases "\<exists>row. readRun db rid = Some row \<and> r_status row = Running")
  case True
  then obtain row where row: "readRun db rid = Some row" "r_status row = Running" by blast
  have w: "wf_db db" using assms(1) by (simp add: kernel_ok_def)
  note e = settle_tx_running [where now = now and cause = cause, OF w row]
  show ?thesis
    using e assms(2) preserved_after [OF assms(1) conjunct1 [OF readRun_in [OF row(1)]] assms(3) [OF row(1)] moves_updates(5) e(2)]
    by auto
next
  case False
  then show ?thesis
    using assms by (auto simp: settle_tx_def preserved_refl split: option.splits if_splits)
qed

lemma tool_event_tx_preserved:
  assumes "kernel_ok H db" "is_tool_event pl" "tool_event_tx rid pl now db = Inr (x, db')"
  shows "preserved H db db'"
proof -
  have w: "wf_db db" "act_ok H db" using assms(1) by (simp_all add: kernel_ok_def)
  obtain row where row: "readRun db rid = Some row" "\<not> isTerminalStatus (r_status row)"
    using assms(3) by (auto simp: tool_event_tx_def split: option.splits if_splits)
  then have r: "row \<in> set (runs db)" "rid = r_id row"
    using readRun_in [OF row(1)] by auto
  have ok: "payload_ok pl"
    using assms(3) row by (auto simp: tool_event_tx_def appendEventInTx_def split: if_splits)
  have "db' = with_run (next_seq row) [appended row pl now] db"
    using assms(3) row during_appendEvent [OF during_start [OF w(1) r(1)] ok refl refl, of now] wf_start [OF w(1) r(1)]
    by (auto simp: tool_event_tx_def r(2) split: option.splits if_splits)
  then have "act_ok H db'"
    using act_with_run [OF w r(1)] by (simp add: moves_next moves_updates)
  then show ?thesis
    using tool_event_tx_kept [OF w(1) assms(2,3)] by (rule preserved_kept [rotated])
qed

subsection \<open>Completion\<close>

lemma complete_tx_preserved:
  assumes "kernel_ok H db" "run_result_ok result" "complete_tx opts entry rid result now pid db = Inr (x, db')"
  shows "preserved H db db'"
proof (rule preserved_kept)
  have w: "wf_db db" "act_ok H db" using assms(1) by (simp_all add: kernel_ok_def)
  show "kept db db'"
    by (rule complete_tx_kept [OF w(1) assms(2,3)])
  obtain row where row: "readRun db rid = Some row"
    using assms(3) by (auto simp: complete_tx_def split: option.splits)
  have r: "row \<in> set (runs db)" "r_id row = rid" using readRun_in [OF row] by auto
  have n: "\<not> is_m5 row"
    using row assms(3) by (auto simp: complete_tx_def)
  show "act_ok H db'"
  proof (cases "r_status row = Running")
    case False
    then show ?thesis
      using w row assms(3) by (auto simp: complete_tx_def rbind_eq_Inr split: if_splits)
  next
    case True
    obtain applied run committed where x: "x = (applied, run, committed)"
      by (cases x)
    obtain evs ps where s: "select_run row now (with_run run evs (db\<lparr>proposals := ps\<rparr>)) = Inr db'"
      "approvals_kept (proposals db) ps" "run_moves row run"
      using complete_tx_shape [OF w(1) row True assms(2) assms(3) [unfolded x]] r(2)
      by (auto simp: run_moves_def)
    have "act_ok H (with_run run evs (db\<lparr>proposals := ps\<rparr>))"
      using act_with_run [of "db\<lparr>proposals := ps\<rparr>" H row run] act_approvals [OF w(2) s(2)] w(1) r s(3) n
      by simp
    then show ?thesis
      using s(1) act_select by blast
  qed
qed

subsection \<open>Allocations\<close>

lemma createSession_preserved:
  assumes "kernel_ok H db" "createSession H' key now fresh db = (out, db')"
  shows "preserved H db db'"
proof (rule preserved_kept)
  have w: "wf_db db" "act_ok H db" using assms(1) by (simp_all add: kernel_ok_def)
  show "kept db db'"
    by (rule createSession_kept [OF w(1) assms(2)])
  have "executions db' = executions db \<and> grants db' = grants db \<and> receipts db' = receipts db \<and>
      proposals db' = proposals db \<and> runs db' = runs db"
    using assms(2) unfolding createSession_def withImmediate_def Let_def
    by (auto simp: rbind_eq_Inr insert_session_def insert_context_def storeIdempotentResponse_def insert_idem_def
        split: if_splits option.splits sum.splits)
  then show "act_ok H db'"
    using w(2) by (intro act_same [OF w(2)]) (simp_all add: same_actions_def act_ok_def)
qed

lemma post_message_tx_preserved:
  assumes "kernel_ok H db" "turn_input_ok input" "strategy \<noteq> m5_strategy"
    and "post_message_tx session scope key hash input ui strategy select tz now fresh db = Inr (out, db')"
  shows "preserved H db db'"
proof (rule preserved_kept)
  have w: "wf_db db" "act_ok H db" using assms(1) by (simp_all add: kernel_ok_def)
  show "kept db db'"
    by (rule post_message_tx_kept [OF w(1) assms(2,4)])
  show "act_ok H db'"
  proof (cases "db' = db")
    case False
    obtain s frozen tid rid aid db1 db2 body where s: "readSession db session = Some s"
      and one: "allocate_message session s input frozen strategy select now tid rid db = Inr db1"
      and two: "(if shouldRecordAutonomyActivity db1 then recordUserActivityInTx aid session now db1 else Inr db1) = Inr db2"
      and three: "storeIdempotentResponse scope key hash 202 body now db2 = Inr db'"
      using False assms(4) unfolding post_message_tx_def
      by (auto simp: rbind_eq_Inr busy_guard_Inr guard_Inr Let_def simp del: parse_run_body.simps
          split: option.splits prod.splits)
    have "db1 = with_message (message_turn session s input frozen now tid) s
        (queued_run rid tid session 1 strategy select now) now db"
      using allocate_message_shape(1) [OF w(1) _ _ one] readSession_in [OF s] by simp
    moreover have "\<not> is_m5 (next_seq (queued_run rid tid session 1 strategy select now))"
      using assms(3) by (simp add: is_m5_def)
    ultimately have "act_ok H db1"
      using act_add_run [OF w(2)] by (simp add: with_message_def)
    then show ?thesis
      using two three act_store act_user by blast
  qed (simp add: w)
qed

lemma post_retry_tx_preserved:
  assumes "kernel_ok H db" "strategy \<noteq> m5_strategy"
    and "post_retry_tx session turn scope key hash strategy select now fresh db = Inr (out, db')"
  shows "preserved H db db'"
proof (rule preserved_kept)
  have w: "wf_db db" "act_ok H db" using assms(1) by (simp_all add: kernel_ok_def)
  show "kept db db'"
    by (rule post_retry_tx_kept [OF w(1) assms(3)])
  show "act_ok H db'"
  proof (cases "db' = db")
    case False
    obtain rid aid where fr: "fresh = (rid, aid)"
      by (cases fresh)
    obtain s t where s: "readSession db session = Some s" and t: "readTurn db turn = Some t" "t_session t = session"
      using assms(3) by (auto simp: post_retry_tx_def fr split: option.splits if_splits)
    note trn = readTurn_in [OF t(1)] and sess = readSession_in [OF s]
    let ?a = "t_nextRunAttempt t"
    let ?t = "t\<lparr>t_nextRunAttempt := ?a + 1\<rparr>"
    let ?db0 = "db\<lparr>turns := put_row t_id ?t (turns db)\<rparr>"
    have upd: "update_turns (\<lambda>q. t_id q = turn \<and> t_nextRunAttempt q = ?a) (\<lambda>q. q\<lparr>t_nextRunAttempt := ?a + 1\<rparr>) db =
        Inr (1, ?db0)"
      using update_turn_row [OF w(1) conjunct1 [OF trn], of "?a + 1"] trn by simp
    obtain db1 db2 body where one: "allocate_retry session turn ?a strategy select now rid ?db0 = Inr db1"
      and two: "(if shouldRecordAutonomyActivity db1 then recordUserActivityInTx aid session now db1 else Inr db1) = Inr db2"
      and three: "storeIdempotentResponse scope key hash 202 body now db2 = Inr db'"
      using False s t assms(3) upd unfolding post_retry_tx_def fr
      by (auto simp: rbind_eq_Inr busy_guard_Inr guard_Inr body_case_Inr Let_def simp del: parse_run_body.simps
          split: option.splits)
    have "wf_db ?db0"
      using kept_turn_attempt [where n = "?a + 1", OF w(1) conjunct1 [OF trn] refl] kept_wf by simp
    then have "db1 = with_retry s (queued_run rid turn session ?a strategy select now) now ?db0"
      using sess by (intro allocate_retry_shape(1) [OF _ _ _ one]) simp_all
    moreover have "\<not> is_m5 (next_seq (queued_run rid turn session ?a strategy select now))"
      using assms(2) by (simp add: is_m5_def)
    ultimately have "act_ok H db1"
      using act_add_run [OF w(2)] by (simp add: with_retry_def)
    then show ?thesis
      using two three act_store act_user by blast
  qed (simp add: w)
qed

subsection \<open>Decisions\<close>

lemma reject_tx_preserved:
  assumes "kernel_ok H db" "reject_tx session proposal ph tz now tid db = Inr (out, db')"
  shows "preserved H db db'"
proof (rule preserved_kept)
  have w: "wf_db db" "act_ok H db" using assms(1) by (simp_all add: kernel_ok_def)
  show "kept db db'"
    by (rule reject_tx_kept [OF w(1) assms(2)])
  show "act_ok H db'"
  proof (cases "db' = db")
    case False
    obtain s where s: "readSession db session = Some s"
      using assms(2) by (auto simp: reject_tx_def split: if_splits)
    have "(\<exists>st t. decide_proposal session proposal st now t db = Inr db') \<or>
      (\<exists>frozen db1 st t. allocateDecisionTurn session (Action_rejection proposal ph) frozen now tid db = Inr db1 \<and>
         decide_proposal session proposal st now t db1 = Inr db')"
      using assms(2) False s unfolding reject_tx_def
      by (auto simp: rbind_eq_Inr guard_Inr split: option.splits if_splits; blast)
    moreover have "act_ok H db1"
      if "allocateDecisionTurn session (Action_rejection proposal ph) frozen now tid db = Inr db1" for frozen db1
      using allocateDecisionTurn_shape(1) [OF w(1) s that] by (auto intro: act_tables [OF w(2)])
    ultimately show ?thesis
      using act_decide w(2) by blast
  qed (simp add: w)
qed

text \<open>An approval adds a pair: a queued action run and its execution, with an unused grant.\<close>

lemma approves_act:
  assumes "kernel_ok H db" "readSession db session = Some s" "readProposal db proposal = Some p"
    "p_session p = session" "p_status p = Pending" "approves H session p tz now fresh db db7"
  shows "act_ok H db7"
proof -
  have w: "wf_db db" "act_ok H db" using assms(1) by (simp_all add: kernel_ok_def)
  have pin: "p \<in> set (proposals db)"
    using readProposal_in [OF assms(3)] by simp
  obtain tid rid eid frozen db1 db2 db3 db4 db5 n m where a:
    "freezeDecisionContext session now tz db = Inr frozen" "turn_input_ok (Action_approval (p_id p) (p_hash p))"
    "allocateDecisionTurn session (Action_approval (p_id p) (p_hash p)) frozen now tid db = Inr db1"
    "decide_proposal session (p_id p) Approved now (Some tid) db1 = Inr db2"
    "insert_run (approved_run session tid rid now) db2 = Inr db3"
    "appendEventInTx rid 0 (Run_queued 1) now db3 = Inr (n, db4)"
    "appendEventInTx rid 1 (Action_approved (p_id p) (p_hash p) eid) now db4 = Inr (m, db5)"
    and f: "eid \<notin> set (map x_id (executions db5))" "p_id p \<notin> set (map x_proposal (executions db5))"
      "rid \<notin> set (map x_actionRun (executions db5))" "eid \<notin> set (map gr_execution (grants db5))"
    and db7: "db7 = db5\<lparr>executions := executions db5 @ [new_execution eid session (p_id p) tid rid now],
       grants := grants db5 @ [new_grant H eid session p now]\<rparr>"
    using assms(6) unfolding approves_def by blast
  let ?r = "next_seq (next_seq (approved_run session tid rid now))"
  let ?x = "new_execution eid session (p_id p) tid rid now" and ?g = "new_grant H eid session p now"
  let ?p = "p\<lparr>p_status := Approved, p_resolvedAt := Some now, p_decisionTurn := Some tid\<rparr>"
  note ev = approve_events [OF w(1) assms(2) a(2) freeze_ok [OF a(1)] _ a(3-7)]
  have t1: "executions db1 = executions db" "grants db1 = grants db" "receipts db1 = receipts db"
    "proposals db1 = proposals db"
    using allocateDecisionTurn_shape(1) [OF w(1) assms(2) a(3)] by simp_all
  have t2: "executions db2 = executions db" "grants db2 = grants db" "receipts db2 = receipts db"
    using decide_proposal_shape [OF a(4)] t1 by auto
  have ps: "approvals_kept (proposals db) (proposals db2)" "?p \<in> set (proposals db2)"
    using decide_approvals [OF a(4)] decide_upd [OF a(4)] t1(4) pin assms(4,5)
    by (auto simp: upd_where_def image_iff intro!: bexI [of _ p])
  have t7: "executions db7 = executions db @ [?x]" "grants db7 = grants db @ [?g]" "receipts db7 = receipts db"
    "proposals db7 = proposals db2" "runs db7 = runs db @ [?r]"
    using ev(1) db7 t2 by simp_all
  have fresh: "eid \<notin> set (map x_id (executions db))" "p_id p \<notin> set (map x_proposal (executions db))"
    "rid \<notin> set (map x_actionRun (executions db))" "eid \<notin> set (map gr_execution (grants db))"
    using f ev(1) t2 by simp_all
  have uid: "uuid_ok eid"
    using a(7) unfolding appendEventInTx_def by (auto split: if_splits)
  have "paired db7 x" if "paired db x" for x
    using that t7 by (auto simp: paired_def list_ex_iff readReceipt_def)
  moreover have "granted H db7 x" if "granted H db x" for x
    using that ps(1) unfolding granted_def list_ex_iff t7 approvals_kept_def set_append by blast
  moreover have "readReceipt db eid = None"
    using w(2) fresh(1) by (auto simp: act_ok_def list_all_iff readReceipt_def find_None_iff)
  then have "paired db7 ?x"
    using t7 uid
    by (auto simp: paired_def list_ex_iff readReceipt_def new_execution_def execution_check_def approved_run_def
        is_m5_def status_pair_def terminal_execution_def)
  moreover have "granted H db7 ?x"
    unfolding granted_def list_ex_iff t7 using ps(2) assms(4)
    by (auto simp: new_execution_def new_grant_def marked_def intro!: bexI [of _ ?p])
  moreover have "is_m5 ?r" "r_id ?r = rid"
    by (simp_all add: is_m5_def approved_run_def)
  ultimately show ?thesis
    using w(2) t7 fresh ps(1)
    by (auto simp: act_ok_def list_all_iff approvals_kept_def new_execution_def new_grant_def)
qed

lemma approve_tx_preserved:
  assumes "kernel_ok H db" "approve_tx H session proposal scope key hash ph tz now fresh db = Inr (out, db')"
  shows "preserved H db db'"
proof (rule preserved_kept)
  have w: "wf_db db" "act_ok H db" using assms(1) by (simp_all add: kernel_ok_def)
  show "kept db db'"
    by (rule approve_tx_kept [OF w(1) assms(2)])
  show "act_ok H db'"
    using assms(2)
  proof (cases rule: approve_tx_cases)
    case (expired st)
    then show ?thesis using act_decide [OF w(2)] by blast
  next
    case (approved p s db7 body)
    then show ?thesis
      using approves_act [OF assms(1)] act_store by blast
  qed (simp add: w)
qed

end
