(* ===== verification/Recovery.thy ===== *)
theory Recovery
  imports Kernel_Inv
begin

text \<open>
  The action boundaries keep the invariants whatever they are called on; recovery accepts every pair of a
  store that satisfies them, and after a sweep nothing is running any more.
\<close>

lemma withImmediate_cases:
  assumes "withImmediate body db = (out, db')"
  obtains "db' = db" "\<exists>e. out = Inl e" | v where "out = Inr v" "body db = Inr (v, db')"
  using assms by (auto simp: withImmediate_def split: sum.splits prod.splits)

lemma checked_cases:
  assumes "checked ok body db = (out, db')"
  obtains "db' = db" "\<exists>e. out = Inl e" | v where "ok" "out = Inr v" "body db = Inr (v, db')"
  using assms by (auto simp: checked_def withImmediate_def split: if_splits sum.splits prod.splits)

lemma update_executions_check:
  "update_executions q f db = Inr (n, db') \<Longrightarrow> x \<in> set (executions db) \<Longrightarrow> q x \<Longrightarrow> execution_check (f x)"
  by (auto simp: update_executions_def list_all_iff split: if_splits)

lemma unmarked_update_count:
  assumes "pair H db r x p g" "unmarked_preflight x x" "update_executions (unmarked_preflight x) f db = Inr (n, db')"
    "x_id (f x) = x_id x"
  shows "n = 1"
  using assms(2,3) update_executions_row [where x = x and q = "unmarked_preflight x" and f = f and
      h = "\<lambda>y. x_status y = Ex_preflight \<and> x_callStartedAt y = None \<and> x_finishedAt y = None",
      OF pair_distinct(1,3) [OF assms(1)] unmarked_preflight_def _ assms(4)]
  by (auto simp: unmarked_preflight_def split: if_splits)

lemma one_row_Inr: "one_row m = Inr db \<longleftrightarrow> m = Inr (1, db)"
  by (cases m) (auto simp: one_row_def split: if_splits)

text \<open>The pair of a run that has an execution.\<close>

lemma pair_of_execution:
  assumes "kernel_ok H db" "readRun db rid = Some r" "readExecutionByRun db rid = Some x"
  obtains p g where "pair H db r x p g" "r_id r = rid"
proof -
  have w: "wf_db db" "act_ok H db" using assms(1) by (simp_all add: kernel_ok_def)
  have r: "r \<in> set (runs db)" "r_id r = rid" using readRun_in [OF assms(2)] by auto
  have "is_m5 r"
    using no_execution [OF w r(1)] assms(3) r(2) by auto
  then obtain x' p g where "pair H db r x' p g"
    using pair_exists [OF w r(1)] by blast
  moreover have "x' = x"
    using pair_reads(2) [OF calculation] r(2) assms(3) by simp
  ultimately show thesis
    using that r(2) by blast
qed

lemma startActionRun_preserved:
  assumes "kernel_ok H db" "startActionRun rid now db = (out, db')"
  shows "preserved H db db'"
  using assms(2) unfolding startActionRun_def
proof (cases rule: checked_cases)
  case 1
  then show ?thesis using preserved_refl [OF assms(1)] by simp
next
  case (2 v)
  show ?thesis
  proof (cases "db' = db")
    case True
    then show ?thesis using preserved_refl [OF assms(1)] by simp
  next
    case False
    obtain r x db1 db2 where o: "readRun db rid = Some r" "r_status r = Queued" "readExecutionByRun db rid = Some x"
      "update_runs (\<lambda>r. r_id r = rid \<and> r_status r = Queued) (\<lambda>r. r\<lparr>r_status := Running, r_startedAt := Some now\<rparr>) db = Inr (1, db1)"
      "update_executions (\<lambda>y. x_id y = x_id x \<and> x_status y = Ex_queued)
         (\<lambda>y. y\<lparr>x_status := Ex_preflight, x_executionUpdatedAt := now\<rparr>) db1 = Inr (1, db2)" "x_status x = Ex_queued"
      using 2 False by (auto simp: assertActionRun_def rbind_eq_Inr guard_Inr one_row_Inr split: option.splits if_splits)
    obtain p g where pr: "pair H db r x p g" "r_id r = rid"
      using pair_of_execution [OF assms(1) o(1,3)] .
    have "x \<in> set (executions db1)"
      using pair_distinct(3) [OF pr(1)] o(4) by (auto simp: update_runs_def Let_def split: if_splits)
    then have "execution_check (x\<lparr>x_status := Ex_preflight, x_executionUpdatedAt := now\<rparr>)"
      using update_executions_check [OF o(5)] o(6) by simp
    then have c: "x_createdAt x \<le> now"
      by (simp add: execution_check_def)
    note e = start_action_queued [OF pr(1) o(2) c]
    show ?thesis
      using e 2(1) assms(2) pr(2) by (auto intro: preserved_kept)
  qed
qed

lemma preflight_stage_cases:
  assumes "requirePreflightStage rid db = Inr (run, x, p)"
  shows "readRun db rid = Some run" "r_status run = Running" "readExecutionByRun db rid = Some x"
    "x_status x = Ex_preflight" "x_callStartedAt x = None" "x_finishedAt x = None"
    "readProposal db (x_proposal x) = Some p" "p_status p = Approved"
  using assms by (auto simp: requirePreflightStage_def assertActionRun_def split: option.splits if_splits)

lemma preflight_failure_preserved:
  assumes "kernel_ok H db" "recordActionPreflightFailure rid now db = (out, db')"
  shows "preserved H db db'"
  using assms(2) unfolding recordActionPreflightFailure_def
proof (cases rule: checked_cases)
  case 1
  then show ?thesis using preserved_refl [OF assms(1)] by simp
next
  case (2 v)
  show ?thesis
  proof (cases "db' = db")
    case True
    then show ?thesis using preserved_refl [OF assms(1)] by simp
  next
    case False
    obtain run x p n db1 where st: "requirePreflightStage rid db = Inr (run, x, p)"
      and u: "update_executions (unmarked_preflight x)
         (\<lambda>x. x\<lparr>x_status := Ex_failed, x_errorCode := Some (js ''action_preflight_failed''),
                        x_finishedAt := Some now, x_executionUpdatedAt := now\<rparr>) db = Inr (n, db1)"
      using 2 False by (auto simp: assertActionRun_def rbind_eq_Inr guard_Inr split: option.splits if_splits sum.splits)
    note c = preflight_stage_cases [OF st]
    obtain p' g where pr: "pair H db run x p' g" "r_id run = rid"
      using pair_of_execution [OF assms(1) c(1,3)] .
    have "x_createdAt x \<le> now"
      using update_executions_check [OF u pair_distinct(3) [OF pr(1)] unmarked_preflight_row [OF c(4-6)]]
      by (simp add: execution_check_def)
    note e = preflight_failure_eq [OF pr(1) c(2,4) this]
    show ?thesis
      using e 2(1) assms(2) pr(2) by (auto intro: preserved_kept)
  qed
qed

text \<open>A blocked preflight either is recorded, with the effect of \<open>blocked_db\<close>, or changes nothing.\<close>

lemma blocked_cases:
  assumes "kernel_ok H db" "recordActionPreflightBlocked rid rv now db = (out, db')"
  obtains (skipped) "db' = db" "\<nexists>t. out = Inr (Inr t)"
  | (recorded) r x p g snap ss where "pair H db r x p g" "r_id r = rid" "r_status r = Running"
      "out = Inr (Inr (x_id x, r_eventSeq r + 4))" "db' = (blocked_db rv snap r x p g now db)\<lparr>selections := ss\<rparr>"
      "kept db db'" "act_ok H db'"
  using assms(2) unfolding recordActionPreflightBlocked_def
proof (cases rule: checked_cases)
  case 1
  then show thesis using skipped by auto
next
  case (2 v)
  show thesis
  proof (cases "db' = db \<and> (\<nexists>t. v = Inr t)")
    case True
    then show thesis using skipped 2(2) by simp
  next
    case False
    obtain run x p snap n db1 where st: "requirePreflightStage rid db = Inr (run, x, p)"
      and sn: "p_snapshot p = Some snap"
      and u: "update_executions (unmarked_preflight x) (\<lambda>x. x\<lparr>x_status := Ex_blocked_stale, x_finishedAt := Some now,
                        x_executionUpdatedAt := now\<rparr>) db = Inr (n, db1)"
      using 2 False
      by (auto simp: assertActionRun_def rbind_eq_Inr guard_Inr Let_def split: option.splits if_splits)
    note c = preflight_stage_cases [OF st]
    obtain p' g where pr: "pair H db run x p' g" "r_id run = rid"
      using pair_of_execution [OF assms(1) c(1,3)] .
    have pp: "p' = p"
      using pair_reads(3) [OF pr(1)] c(7) by simp
    have "n = 1"
      using unmarked_update_count [OF pr(1) unmarked_preflight_row [OF c(4-6)] u] by simp
    then obtain sq db2 db3 where res: "run_result_ok (blocked_text p)"
      and ap: "appendEventInTx rid sq (Action_preflight_blocked (x_id x) rv snap) now db2 = Inr db3"
      using 2 False st sn u c(1,2) unfolding blocked_text_def
      by (auto simp: assertActionRun_def rbind_eq_Inr guard_Inr Let_def)
    have un: "uuid_ok snap"
      using ap unfolding appendEventInTx_def by (auto split: if_splits)
    have "x_createdAt x \<le> now"
      using update_executions_check [OF u pair_distinct(3) [OF pr(1)] unmarked_preflight_row [OF c(4-6)]]
      by (simp add: execution_check_def)
    then obtain ss where
      "recordActionPreflightBlocked (r_id run) rv now db =
        (Inr (Inr (x_id x, r_eventSeq run + 4)), (blocked_db rv snap run x p g now db)\<lparr>selections := ss\<rparr>)"
      "kept db ((blocked_db rv snap run x p g now db)\<lparr>selections := ss\<rparr>)"
      "act_ok H ((blocked_db rv snap run x p g now db)\<lparr>selections := ss\<rparr>)"
      using blocked_eq [OF pr(1) c(2,4) _ _ _ _ un, of now rv] 2(1) pr(2) pp sn res by auto
    then show thesis
      using assms(2) recorded [where snap = snap and ss = ss, OF pr c(2)] pr(2) pp by simp
  qed
qed

lemma blocked_preserved:
  assumes "kernel_ok H db" "recordActionPreflightBlocked rid rv now db = (out, db')"
  shows "preserved H db db'"
  using assms
proof (cases rule: blocked_cases)
  case skipped
  then show ?thesis using preserved_refl [OF assms(1)] by simp
next
  case (recorded r x p g snap ss)
  then show ?thesis by (intro preserved_kept)
qed

text \<open>A call of the gate either is granted, with the effect of \<open>consumed_db\<close>, or changes nothing.\<close>

lemma consume_cases:
  assumes "kernel_ok H db" "consumeActionGrant H rid now db = (out, db')"
  obtains (denied) "db' = db" "\<nexists>g. out = Inr (Inr g)"
  | (granted) r x p g where "pair H db r x p g" "r_id r = rid" "r_status r = Running" "x_status x = Ex_preflight"
      "x_createdAt x \<le> now" "action_id_ok rid" "\<exists>i. proposed_input p = Inr i"
      "out = Inr (Inr (grant_of x p g now))" "db' = consumed_db r x g now db"
  using assms(2) unfolding consumeActionGrant_def
proof (cases rule: checked_cases)
  case 1
  then show thesis using denied by auto
next
  case (2 v)
  show thesis
  proof (cases "db' = db \<and> (\<nexists>g. v = Inr g)")
    case True
    then show thesis using denied 2(2) by simp
  next
    case False
    obtain run x p gr i n db1 m db2 where o: "readRun db rid = Some run" "r_status run = Running"
      "readExecutionByRun db rid = Some x" "x_status x = Ex_preflight" "x_callStartedAt x = None"
      "readProposal db (x_proposal x) = Some p" "proposed_input p = Inr i"
      "update_grants (\<lambda>g. gr_execution g = x_id x \<and> gr_consumedAt g = None)
                   (\<lambda>g. g\<lparr>gr_consumedAt := Some now\<rparr>) db = Inr (n, db1)"
      and u: "n = 1 \<Longrightarrow> update_executions (unmarked_preflight x)
                   (\<lambda>x. x\<lparr>x_status := Ex_executing, x_callStartedAt := Some now,
                          x_executionUpdatedAt := now\<rparr>) db1 = Inr (m, db2)"
      using 2 False
      by (auto simp: assertActionRun_def rbind_eq_Inr guard_Inr one_row_Inr split: option.splits if_splits)
    obtain p' g where pr: "pair H db run x p' g" "r_id run = rid"
      using pair_of_execution [OF assms(1) o(1,3)] .
    note c = preflight_columns [OF pr(1) o(4)]
    have pp: "p' = p"
      using pair_reads(3) [OF pr(1)] o(6) by simp
    have "n = 1"
      using update_grants_row [where db = db and g = g and f = "\<lambda>g. g\<lparr>gr_consumedAt := Some now\<rparr>" and
          h = "\<lambda>q. gr_consumedAt q = None", OF pair_distinct(2,4) [OF pr(1)] _ c(7)] o(8) pr(1)
      by (simp add: pair_def)
    moreover have "x \<in> set (executions db1)"
      using pair_distinct(3) [OF pr(1)] o(8) by (auto simp: update_grants_def)
    ultimately have t: "x_createdAt x \<le> now"
      using update_executions_check [OF u] unmarked_preflight_row [OF o(4) c(1,2)]
      by (fastforce simp: execution_check_def)
    show thesis
      using consume_eq(1) [OF pr(1) o(2,4) t] granted [OF pr o(2,4) t] 2(1) assms(2) pr(2) pp o(7) by auto
  qed
qed

lemma consume_preserved:
  assumes "kernel_ok H db" "consumeActionGrant H rid now db = (out, db')"
  shows "preserved H db db'"
  using assms
proof (cases rule: consume_cases)
  case denied
  then show ?thesis using preserved_refl [OF assms(1)] by simp
next
  case (granted r x p g)
  then show ?thesis using consume_eq(2,3) by (auto intro: preserved_kept)
qed

text \<open>A cancellation either is applied, with the effect of \<open>cancelled_db\<close>, or changes nothing.\<close>

lemma cancel_action_cases:
  assumes "kernel_ok H db" "cancelActionRun sid rid now db = (out, db')"
  obtains (refused) "db' = db" "\<And>status n. out = Inr (status, n) \<Longrightarrow> \<exists>r. readRun db rid = Some r \<and> r_status r = status"
  | (applied) r x p g where "pair H db r x p g" "r_id r = rid" "r_session r = sid" "r_status r = Queued \<or> r_status r = Running"
      "\<not> marked x" "x_createdAt x \<le> now" "action_id_ok rid" "action_id_ok sid" "db' = cancelled_db r x p g now db"
  using assms(2) unfolding cancelActionRun_def
proof (cases rule: checked_cases)
  case 1
  then show thesis using refused by auto
next
  case (2 v)
  show thesis
  proof (cases "\<exists>r. readRun db rid = Some r \<and> isTerminalStatus (r_status r)")
    case True
    then show thesis
      using 2 refused by (auto simp: assertActionRun_def split: if_splits)
  next
    case False
    obtain run x db1 db2 where o: "readRun db rid = Some run" "r_session run = sid" "\<not> isTerminalStatus (r_status run)"
      "readExecutionByRun db rid = Some x" "x_callStartedAt x = None" "x_status x = Ex_queued \<or> x_status x = Ex_preflight"
      "x_finishedAt x = None"
      "update_runs (\<lambda>r. r_id r = rid \<and> r_status r \<in> {Queued, Running, Cancel_requested} \<and> r_finishedAt r = None)
               (\<lambda>r. r\<lparr>r_status := Cancelled, r_cancelRequestedAt := Some now, r_finishedAt := Some now\<rparr>) db = Inr (1, db1)"
      "update_executions
               (\<lambda>y. x_id y = x_id x \<and> x_status y \<in> {Ex_queued, Ex_preflight} \<and>
                    x_callStartedAt y = None \<and> x_finishedAt y = None)
               (\<lambda>x. x\<lparr>x_status := Ex_failed, x_errorCode := Some (js ''action_cancelled_before_write''),
                      x_finishedAt := Some now, x_executionUpdatedAt := now\<rparr>) db1 = Inr (1, db2)"
      using 2 False
      by (auto simp: assertActionRun_def rbind_eq_Inr guard_Inr one_row_Inr split: option.splits if_splits)
    obtain p g where pr: "pair H db run x p g" "r_id run = rid"
      using pair_of_execution [OF assms(1) o(1,4)] .
    have "x \<in> set (executions db1)"
      using pair_distinct(3) [OF pr(1)] o(8) by (auto simp: update_runs_def Let_def split: if_splits)
    then have "x_createdAt x \<le> now"
      using update_executions_check [OF o(9)] o(5-7) by (auto simp: execution_check_def)
    moreover have "r_status run = Queued \<or> r_status run = Running"
      using pr(1) o(3) by (cases "r_status run") (auto simp: pair_def status_pair_def)
    moreover have "\<not> marked x"
      using o(5) by (simp add: marked_def)
    ultimately show thesis
      using cancel_eq(1) [OF pr(1), of now] 2(1) assms(2) pr(2) o(2) applied [OF pr] by auto
  qed
qed

lemma cancelActionRun_preserved:
  assumes "kernel_ok H db" "cancelActionRun sid rid now db = (out, db')"
  shows "preserved H db db'"
  using assms
proof (cases rule: cancel_action_cases)
  case refused
  then show ?thesis using preserved_refl [OF assms(1)] by simp
next
  case (applied r x p g)
  then show ?thesis using cancel_eq(2,3) by (auto intro: preserved_kept)
qed

lemma finish_preserved:
  assumes "kernel_ok H db" "finishPlainTerminal rid outcome rv snap now db = (out, db')"
  shows "preserved H db db'"
  using assms(2) unfolding finishPlainTerminal_def
proof (cases rule: withImmediate_cases)
  case 1
  then show ?thesis using preserved_refl [OF assms(1)] by simp
next
  case (2 v)
  show ?thesis
  proof (cases "db' = db")
    case True
    then show ?thesis using preserved_refl [OF assms(1)] by simp
  next
    case False
    let ?f = "\<lambda>x. x\<lparr>x_status := outcome_status outcome,
       x_errorCode := (if outcome = Plain_failed then Some (js ''action_write_failed'') else None),
       x_finishedAt := Some now, x_executionUpdatedAt := now\<rparr>"
    let ?q = "\<lambda>x y. x_id y = x_id x \<and> x_status y = Ex_executing \<and> x_callStartedAt y \<noteq> None \<and> x_finishedAt y = None"
    obtain run x p n db1 where o: "readRun db rid = Some run" "r_status run = Running"
      "assertExecutingStage rid db = Inr (x, p)" "update_executions (?q x) ?f db = Inr (n, db1)"
      using 2 False
      by (auto simp: assertActionRun_def rbind_eq_Inr guard_Inr one_row_Inr Let_def split: option.splits if_splits)
    have c: "readExecutionByRun db rid = Some x" "x_status x = Ex_executing" "x_callStartedAt x \<noteq> None"
      "x_finishedAt x = None" "readProposal db (x_proposal x) = Some p"
      using o(3) by (auto simp: assertExecutingStage_def split: option.splits if_splits)
    obtain p' g where pr: "pair H db run x p' g" "r_id run = rid"
      using pair_of_execution [OF assms(1) o(1) c(1)] .
    have pp: "p' = p"
      using pair_reads(3) [OF pr(1)] c(5) by simp
    have "n = 1"
      using o(4) update_executions_row [where x = x and q = "?q x" and f = ?f and
          h = "\<lambda>y. x_status y = Ex_executing \<and> x_callStartedAt y \<noteq> None \<and> x_finishedAt y = None",
          OF pair_distinct(1,3) [OF pr(1)]] c(2-4) by (auto split: if_splits)
    then have "run_result_ok (plain_text outcome p)"
      using 2 False o c(2-4) unfolding plain_text_def
      by (auto simp: assertActionRun_def rbind_eq_Inr guard_Inr Let_def split: option.splits)
    moreover have "x_createdAt x \<le> now"
      using update_executions_check [OF o(4) pair_distinct(3) [OF pr(1)]] c(2-4) by (auto simp: execution_check_def)
    ultimately obtain ss where
      "finishPlainTerminal (r_id run) outcome rv snap now db =
        (Inr (Inr (x_id x, r_eventSeq run + 2)), (finished_db outcome rv snap run x p g now db)\<lparr>selections := ss\<rparr>)"
      "kept db ((finished_db outcome rv snap run x p g now db)\<lparr>selections := ss\<rparr>)"
      "act_ok H ((finished_db outcome rv snap run x p g now db)\<lparr>selections := ss\<rparr>)"
      using finish_eq [OF pr(1) o(2) c(2), of now outcome rv snap] pp by auto
    then show ?thesis
      using assms(2) pr(2) by (auto intro: preserved_kept)
  qed
qed

subsection \<open>Recovery of all action runs\<close>

definition plan_of :: "run_row \<Rightarrow> execution_row \<Rightarrow> recovery_plan" where
  "plan_of r x = (if r_status r = Running then recovery_of x else Unchanged)"

text \<open>No pair is in an impossible state.\<close>

lemma classify_pair:
  assumes "pair H db r x p g"
  shows "classifyActionPair db r x = Inr (plan_of r x)"
proof (cases "r_status r = Running")
  case True
  then show ?thesis using classify_running [OF assms] by (simp add: plan_of_def)
next
  case False
  have c: "status_pair (r_status r) x" "execution_check x"
    "map_option rc_outcome (readReceipt db (x_id x)) = terminal_execution (x_status x)"
    "readGrant db (x_id x) = Some g"
    using assms pair_reads(4) [OF assms] by (simp_all add: pair_def)
  have m: "gr_consumedAt g = None \<longleftrightarrow> x_callStartedAt x = None"
    using assms by (auto simp: pair_def marked_def)
  show ?thesis
  proof (cases "r_status r")
    case Queued
    then show ?thesis
      using c(1,2) by (simp add: classifyActionPair_def plan_of_def status_pair_def execution_check_def)
  next
    case Cancel_requested
    then show ?thesis using c(1) by (simp add: status_pair_def)
  next
    case Completed
    then consider "x_status x = Ex_succeeded" | "x_status x = Ex_succeeded_unverified" | "x_status x = Ex_blocked_stale"
      using c(1) by (auto simp: status_pair_def)
    then show ?thesis
      using Completed c(2-4) m
      by cases (auto simp: classifyActionPair_def plan_of_def execution_check_def terminal_execution_def Let_def)
  next
    case Failed
    then consider "x_status x = Ex_failed" | "x_status x = Ex_unknown"
      using c(1) by (auto simp: status_pair_def)
    then show ?thesis
      using Failed c(2-4) m
      by cases (auto simp: classifyActionPair_def plan_of_def execution_check_def terminal_execution_def Let_def)
  next
    case Cancelled
    then have "x_status x = Ex_failed"
      using c(1) by (auto simp: status_pair_def)
    then show ?thesis
      using Cancelled c(2-4) m
      by (auto simp: classifyActionPair_def plan_of_def execution_check_def terminal_execution_def Let_def)
  next
    case Abandoned
    then consider "x_status x = Ex_failed" | "x_status x = Ex_unknown"
      using c(1) by (auto simp: status_pair_def)
    then show ?thesis
      using Abandoned c(2-4) m
      by cases (auto simp: classifyActionPair_def plan_of_def execution_check_def terminal_execution_def Let_def)
  qed (use False in simp)
qed

lemma plan_exists:
  assumes "kernel_ok H db" "\<forall>r \<in> set rs. r \<in> set (runs db) \<and> is_m5 r"
  shows "\<exists>plans. planActionRuns db rs = Inr plans \<and> map fst plans = rs \<and>
    (\<forall>(r, x, plan) \<in> set plans. plan = plan_of r x \<and> (\<exists>p g. pair H db r x p g))"
  using assms(2)
proof (induction rs)
  case Nil
  then show ?case by simp
next
  case (Cons r rs)
  obtain plans where plans: "planActionRuns db rs = Inr plans" "map fst plans = rs"
    "\<forall>(r, x, plan) \<in> set plans. plan = plan_of r x \<and> (\<exists>p g. pair H db r x p g)"
    using Cons by auto
  have "wf_db db" "act_ok H db" "r \<in> set (runs db)" "is_m5 r"
    using assms(1) Cons.prems by (simp_all add: kernel_ok_def)
  then obtain x p g where pr: "pair H db r x p g"
    using pair_exists by blast
  have "planActionRuns db (r # rs) = Inr ((r, x, plan_of r x) # plans)"
    using plans(1) pair_reads(2) [OF pr] classify_pair [OF pr] by simp
  then show ?case
    using plans(2,3) pr by auto
qed

text \<open>Recovering one pair leaves the others as they are.\<close>

lemma pair_other:
  assumes "pair H db r x p g" "pair H db r2 x2 p2 g2" "r2 \<noteq> r" "r_status r = Running" "x_createdAt x \<le> now"
  shows "pair H (recovered_db r x p g cause now db) r2 x2 p2 g2"
proof -
  let ?D = "recovered_db r x p g cause now db"
  note e = recovery_eq [OF assms(1,4,5), of cause]
  note p1 = pair_distinct [OF assms(1)] and p2 = pair_distinct [OF assms(2)]
  have d: "distinct (map r_id (runs db))"
    using p1(6) by (simp add: wf_db_def runs_ok_def)
  have ne: "r_id r2 \<noteq> r_id r"
    using d p1(5) p2(5) assms(3) by (auto dest: distinct_key_eq)
  moreover have "x_actionRun x = r_id r" "x_actionRun x2 = r_id r2"
    using assms(1,2) by (simp_all add: pair_def)
  ultimately have nx: "x2 \<noteq> x"
    by auto
  then have nid: "x_id x2 \<noteq> x_id x"
    using distinct_key_eq [OF p1(1) p2(3) p1(3)] by blast
  have "r2 \<in> set (runs ?D)"
    unfolding recovered_db_def acted_def
    using set_put_row [OF d p1(5), of "end_row (ended Abandoned now) r"] p2(5) assms(3)
    by (simp add: end_row_def)
  moreover have "x2 \<in> set (executions ?D)"
    unfolding recovered_db_def acted_def
    using set_put_row [OF p1(1,3), of "recovered now x"] p2(3) nx by (simp add: recovered_def ex_failed_def)
  moreover have "g2 \<in> set (grants ?D)" "p2 \<in> set (proposals ?D)"
    using assms(2) grants_same [OF assms(1)] by (simp_all add: recovered_db_def acted_def pair_def)
  moreover have "readReceipt ?D (x_id x2) = readReceipt db (x_id x2)"
    using nid by (auto simp: recovered_db_def acted_def readReceipt_def find_append receipt_for_def split: option.splits)
  ultimately show ?thesis
    using e(2,3) assms(2) by (simp add: pair_def kept_def)
qed

text \<open>What a sweep does to the runs: those of \<open>es\<close> have ended, the others are as they were.\<close>

definition calmed :: "db \<Rightarrow> db \<Rightarrow> run_row set \<Rightarrow> bool" where
  "calmed db db' es \<longleftrightarrow> (\<forall>q \<in> set (runs db). q \<notin> es \<longrightarrow> q \<in> set (runs db')) \<and>
     (\<forall>q \<in> set (runs db'). \<not> isTerminalStatus (r_status q) \<longrightarrow> q \<in> set (runs db) \<and> q \<notin> es)"

lemma calmed_refl: "calmed db db {}"
  by (simp add: calmed_def)

lemma calmed_trans: "calmed a b A \<Longrightarrow> calmed b c B \<Longrightarrow> calmed a c (A \<union> B)"
  unfolding calmed_def by blast

lemma calmed_put:
  assumes "runs db' = put_row r_id e (runs db)" "distinct (map r_id (runs db))" "r \<in> set (runs db)" "r_id e = r_id r"
    "isTerminalStatus (r_status e)" "\<not> isTerminalStatus (r_status r)"
  shows "calmed db db' {r}"
proof -
  have s: "set (runs db') = insert e (set (runs db) - {r})"
    unfolding assms(1) by (rule set_put_row [OF assms(2-4)])
  show ?thesis
    unfolding calmed_def s using assms(5,6) by blast
qed

lemma calmed_recovered:
  assumes "pair H db r x p g" "r_status r = Running"
  shows "calmed db (recovered_db r x p g cause now db) {r}"
proof (rule calmed_put)
  show "runs (recovered_db r x p g cause now db) = put_row r_id (end_row (ended Abandoned now) r) (runs db)"
    by (simp add: recovered_db_def acted_def)
  show "distinct (map r_id (runs db))" "r \<in> set (runs db)"
    using pair_distinct(5,6) [OF assms(1)] by (simp_all add: wf_db_def runs_ok_def)
qed (use assms(2) in \<open>simp_all add: end_row_def\<close>)

lemma recovery_clock:
  assumes "pair H db r x p g" "r_status r = Running" "now < x_createdAt x"
  shows "\<exists>e. applyRecoveryAbandon r x (recovery_of x) cause now db = Inl e"
proof (rule ccontr)
  assume "\<not> ?thesis"
  then obtain db' where r: "applyRecoveryAbandon r x (recovery_of x) cause now db = Inr db'"
    by (cases "applyRecoveryAbandon r x (recovery_of x) cause now db") auto
  have plan: "recovery_of x \<noteq> Unchanged" "x_callStartedAt x = None \<longleftrightarrow> recovery_of x = Abandon_pre_marker"
    by (simp_all add: recovery_of_def marked_def)
  then obtain db1 where u: "update_executions
      (\<lambda>y. x_id y = x_id x \<and> x_status y = x_status x \<and>
         (x_callStartedAt y = None \<longleftrightarrow> recovery_of x = Abandon_pre_marker) \<and> x_finishedAt y = None)
      (\<lambda>x'. x'\<lparr>x_status := (if recovery_of x = Abandon_pre_marker then Ex_failed else Ex_unknown),
                     x_errorCode := (if recovery_of x = Abandon_pre_marker
                       then Some (js ''action_recovery_abandoned_before_write'') else None),
                     x_finishedAt := Some now, x_executionUpdatedAt := now\<rparr>) db = Inr (1, db1)"
    using r pair_reads(3) [OF assms(1)]
    by (auto simp: applyRecoveryAbandon_def rbind_eq_Inr one_row_Inr Let_def)
  show False
    using update_executions_check [OF u pair_distinct(3) [OF assms(1)]] plan(2) open_columns(1) [OF assms(1,2)] assms(3)
    by (simp add: execution_check_def)
qed

lemma apply_plans:
  assumes "kernel_ok H db" "distinct (map fst plans)"
    "\<forall>(r, x, plan) \<in> set plans. plan = plan_of r x \<and> (\<exists>p g. pair H db r x p g)"
  shows "(\<exists>db'. applyPlans plans cause now db = Inr db' \<and> preserved H db db' \<and>
       calmed db db' {r \<in> set (map fst plans). r_status r = Running}) \<or>
     (\<exists>e. applyPlans plans cause now db = Inl e) \<and> (\<exists>(r, x, plan) \<in> set plans. now < x_createdAt x)"
  using assms
proof (induction plans arbitrary: db)
  case Nil
  then show ?case by (simp add: preserved_refl calmed_refl)
next
  case (Cons a plans)
  obtain r x plan where a: "a = (r, x, plan)"
    by (cases a)
  then obtain p g where pr: "pair H db r x p g" and pl: "plan = plan_of r x"
    using Cons.prems(3) by auto
  show ?case
  proof (cases "r_status r = Running")
    case False
    then have "applyRecoveryAbandon r x plan cause now db = Inr db"
      using pl(1) by (simp add: plan_of_def applyRecoveryAbandon_def)
    then have "applyPlans (a # plans) cause now db = applyPlans plans cause now db"
      using a by simp
    moreover have "{r \<in> set (map fst (a # plans)). r_status r = Running} = {r \<in> set (map fst plans). r_status r = Running}"
      using False a by auto
    ultimately show ?thesis
      using Cons.IH [OF Cons.prems(1)] Cons.prems(2,3) by auto
  next
    case True
    show ?thesis
    proof (cases "x_createdAt x \<le> now")
      case False
      then show ?thesis
        using recovery_clock [OF pr True, of now cause] a pl True by (auto simp: plan_of_def)
    next
      case le: True
      let ?D = "recovered_db r x p g cause now db"
      have D: "applyPlans (a # plans) cause now db = applyPlans plans cause now ?D" "preserved H db ?D"
        using recovery_eq [OF pr True le, of cause] pl True a by (auto simp: plan_of_def intro: preserved_kept)
      have "\<forall>(r2, x2, plan2) \<in> set plans. plan2 = plan_of r2 x2 \<and> (\<exists>p g. pair H ?D r2 x2 p g)"
      proof (clarify)
        fix r2 x2 plan2 assume m: "(r2, x2, plan2) \<in> set plans"
        then obtain p2 g2 where "pair H db r2 x2 p2 g2" "plan2 = plan_of r2 x2"
          using Cons.prems(3) by fastforce
        moreover have "r2 \<noteq> r"
          using m Cons.prems(2) a by (auto simp: image_iff)
        ultimately show "plan2 = plan_of r2 x2 \<and> (\<exists>p g. pair H ?D r2 x2 p g)"
          using pair_other [OF pr _ _ True le] by blast
      qed
      then have IH: "(\<exists>db'. applyPlans plans cause now ?D = Inr db' \<and> preserved H ?D db' \<and>
           calmed ?D db' {r \<in> set (map fst plans). r_status r = Running}) \<or>
         (\<exists>e. applyPlans plans cause now ?D = Inl e) \<and> (\<exists>(r, x, plan) \<in> set plans. now < x_createdAt x)"
        using Cons.IH [of ?D] Cons.prems(2) preserved_ok [OF D(2)] by simp
      have es: "{r \<in> set (map fst (a # plans)). r_status r = Running} =
          {r} \<union> {r \<in> set (map fst plans). r_status r = Running}"
        using True a by auto
      show ?thesis
        unfolding D(1) es
        using IH preserved_trans [OF D(2)] calmed_trans [OF calmed_recovered [OF pr True]] by fastforce
    qed
  qed
qed

text \<open>The whole first transaction of a sweep.\<close>

definition clock_ok :: "int \<Rightarrow> db \<Rightarrow> bool" where
  "clock_ok now db \<longleftrightarrow> list_all (\<lambda>x. x_createdAt x \<le> now) (executions db)"

lemma recover_actions:
  assumes "kernel_ok H db"
  shows "(\<exists>counts db'. validateAndRecoverActionRuns cause now db = (Inr counts, db') \<and> preserved H db db' \<and>
       calmed db db' {r \<in> set (runs db). is_m5 r \<and> r_status r = Running}) \<or>
     (\<exists>e. validateAndRecoverActionRuns cause now db = (Inl e, db)) \<and> \<not> clock_ok now db"
proof -
  have w: "wf_db db" using assms by (simp add: kernel_ok_def)
  have set: "set (action_runs db) = {r \<in> set (runs db). is_m5 r}"
    by (simp add: action_runs_def)
  then obtain plans where pl: "planActionRuns db (action_runs db) = Inr plans" "map fst plans = action_runs db"
    "\<forall>(r, x, plan) \<in> set plans. plan = plan_of r x \<and> (\<exists>p g. pair H db r x p g)"
    using plan_exists [OF assms, of "action_runs db"] by auto
  have "distinct (runs db)"
    using w by (simp add: wf_db_def runs_ok_def distinct_map)
  then have "distinct (map fst plans)"
    by (simp add: pl(2) action_runs_def)
  moreover have "{r \<in> set (map fst plans). r_status r = Running} = {r \<in> set (runs db). is_m5 r \<and> r_status r = Running}"
    unfolding pl(2) set by auto
  moreover have "\<not> clock_ok now db" if "\<exists>(r, x, plan) \<in> set plans. now < x_createdAt x"
    using that pl(3) by (fastforce simp: clock_ok_def list_all_iff pair_def)
  ultimately show ?thesis
    using apply_plans [OF assms _ pl(3), of cause now] pl(1)
    by (auto simp: validateAndRecoverActionRuns_def withImmediate_def Let_def)
qed

lemma recoverAbandoned_preserved:
  assumes "kernel_ok H db" "recoverAbandonedActionRun rid cause now db = (out, db')"
  shows "preserved H db db'"
  using assms(2) unfolding recoverAbandonedActionRun_def
proof (cases rule: checked_cases)
  case 1
  then show ?thesis using preserved_refl [OF assms(1)] by simp
next
  case (2 v)
  show ?thesis
  proof (cases "db' = db")
    case True
    then show ?thesis using preserved_refl [OF assms(1)] by simp
  next
    case False
    obtain run x plan where o: "readRun db rid = Some run" "r_status run = Running" "readExecutionByRun db rid = Some x"
      "classifyActionPair db run x = Inr plan" "applyRecoveryAbandon run x plan cause now db = Inr db'"
      using 2 False by (auto simp: assertActionRun_def rbind_eq_Inr split: option.splits if_splits)
    obtain p g where pr: "pair H db run x p g"
      using pair_of_execution [OF assms(1) o(1,3)] .
    have plan: "plan = recovery_of x"
      using o(4) classify_running [OF pr o(2)] by simp
    then have "x_createdAt x \<le> now"
      using recovery_clock [OF pr o(2), of now cause] o(5) by force
    then show ?thesis
      using recovery_eq [OF pr o(2), of now cause] o(5) plan by (auto intro: preserved_kept)
  qed
qed

subsection \<open>The sweep\<close>

definition sweep_kind :: "run_status \<Rightarrow> run_status \<Rightarrow> payload_ev \<Rightarrow> bool" where
  "sweep_kind s t pl \<longleftrightarrow> (s = Running \<and> t = Abandoned \<and> (\<exists>cause. pl = Run_abandoned cause)) \<or>
     (s = Cancel_requested \<and> t = Cancelled \<and> pl = Run_cancelled)"

lemma sweep_rows_all:
  assumes "kernel_ok H db" "distinct rows" "sweep_kind s t pl"
    "\<forall>row \<in> set rows. row \<in> set (runs db) \<and> r_status row = s \<and> \<not> is_m5 row"
  shows "\<exists>db'. sweep_rows s t pl now rows db = (Inr db', map r_id rows) \<and> preserved H db db' \<and> calmed db db' (set rows)"
  using assms
proof (induction rows arbitrary: db)
  case Nil
  then show ?case by (simp add: preserved_refl calmed_refl)
next
  case (Cons row rows)
  have w: "wf_db db" and row: "row \<in> set (runs db)" "r_status row = s" "\<not> is_m5 row"
    using Cons.prems by (simp_all add: kernel_ok_def)
  have "legal row (ended t now row) pl"
    using status_row(6,7) [OF w row(1)] row(2) Cons.prems(3) by (auto simp: sweep_kind_def)
  note e = sweep_one_row [OF w row(1,2) this]
  let ?D = "after_db (ended t now row) pl now db"
  have p: "preserved H db ?D"
    by (rule preserved_after [OF Cons.prems(1) row(1,3) moves_updates(5) e(2)])
  have c: "calmed db ?D {row}"
  proof (rule calmed_put)
    show "runs ?D = put_row r_id (next_seq (ended t now row)) (runs db)"
      by (simp add: after_db_def)
    show "distinct (map r_id (runs db))"
      using w by (simp add: wf_db_def runs_ok_def)
  qed (use row Cons.prems(3) in \<open>auto simp: sweep_kind_def\<close>)
  have "\<forall>q \<in> set rows. q \<in> set (runs ?D) \<and> r_status q = s \<and> \<not> is_m5 q"
    using Cons.prems(2,4) c by (auto simp: calmed_def)
  then obtain db' where "sweep_rows s t pl now rows ?D = (Inr db', map r_id rows)" "preserved H ?D db'" "calmed ?D db' (set rows)"
    using Cons.IH [OF preserved_ok [OF p]] Cons.prems(2,3) by auto
  then show ?case
    using e(1) preserved_trans [OF p] calmed_trans [OF c] by auto
qed

lemma sweep_tx_all:
  assumes "kernel_ok H db" "\<forall>r \<in> set (runs db). is_m5 r \<longrightarrow> r_status r \<noteq> Running"
  shows "\<exists>db'. sweep_tx cause now db = (Inr ((length (swept Running db), length (swept Cancel_requested db)), db'),
       map r_id (swept Running db) @ map r_id (swept Cancel_requested db)) \<and> preserved H db db' \<and>
     calmed db db' {r \<in> set (runs db). r_status r = Running \<or> r_status r = Cancel_requested}"
proof -
  let ?a = "swept Running db" and ?b = "swept Cancel_requested db"
  have w: "distinct (runs db)"
    using assms(1) by (simp add: kernel_ok_def wf_db_def runs_ok_def distinct_map)
  have sets: "set ?a = {r \<in> set (runs db). r_status r = Running}" "set ?b = {r \<in> set (runs db). r_status r = Cancel_requested}"
    using assms not_m5_asked [OF assms(1)] by (auto simp: swept_def)
  have d: "distinct ?a" "distinct ?b"
    using w by (simp_all add: swept_def)
  have kinds: "sweep_kind Running Abandoned (Run_abandoned cause)" "sweep_kind Cancel_requested Cancelled Run_cancelled"
    by (simp_all add: sweep_kind_def)
  have ra: "\<forall>row \<in> set ?a. row \<in> set (runs db) \<and> r_status row = Running \<and> \<not> is_m5 row"
    by (simp add: swept_def)
  obtain db1 where one: "sweep_rows Running Abandoned (Run_abandoned cause) now ?a db = (Inr db1, map r_id ?a)"
    "preserved H db db1" "calmed db db1 (set ?a)"
    using sweep_rows_all [OF assms(1) d(1) kinds(1) ra] by blast
  have rb: "\<forall>row \<in> set ?b. row \<in> set (runs db1) \<and> r_status row = Cancel_requested \<and> \<not> is_m5 row"
  proof
    fix row assume "row \<in> set ?b"
    then have b: "row \<in> set (runs db)" "r_status row = Cancel_requested" "\<not> is_m5 row"
      by (simp_all add: swept_def)
    then have "row \<notin> set ?a"
      using ra by force
    then have "row \<in> set (runs db1)"
      using one(3) b(1) unfolding calmed_def by blast
    then show "row \<in> set (runs db1) \<and> r_status row = Cancel_requested \<and> \<not> is_m5 row"
      using b by simp
  qed
  obtain db2 where two: "sweep_rows Cancel_requested Cancelled Run_cancelled now ?b db1 = (Inr db2, map r_id ?b)"
    "preserved H db1 db2" "calmed db1 db2 (set ?b)"
    using sweep_rows_all [OF preserved_ok [OF one(2)] d(2) kinds(2) rb] by blast
  have "set ?a \<union> set ?b = {r \<in> set (runs db). r_status r = Running \<or> r_status r = Cancel_requested}"
    unfolding sets by auto
  then show ?thesis
    using one two preserved_trans [OF one(2) two(2)] calmed_trans [OF one(3) two(3)] by (simp add: sweep_tx_def)
qed

lemma clear_kdb [simp]: "kdb (clearStaged opts rid k) = kdb k"
  by (simp add: clearStaged_def)

lemma fold_clear_kdb [simp]: "kdb (fold (clearStaged opts) ids k) = kdb k"
  by (induction ids arbitrary: k) simp_all

text \<open>Either the clock is behind an execution and nothing changed, or every active run but the queued has ended.\<close>

lemma sweep_all:
  assumes "kernel_ok H (kdb k)" "sweepTerminals opts cause now k = (out, k')"
  shows "(\<exists>counts. out = Inr counts) \<and> preserved H (kdb k) (kdb k') \<and>
      calmed (kdb k) (kdb k') {r \<in> set (runs (kdb k)). r_status r = Running \<or> r_status r = Cancel_requested} \<or>
    (\<exists>e. out = Inl e) \<and> k' = k \<and> \<not> clock_ok now (kdb k)"
  using recover_actions [OF assms(1), of cause now]
proof
  assume "(\<exists>e. validateAndRecoverActionRuns cause now (kdb k) = (Inl e, kdb k)) \<and> \<not> clock_ok now (kdb k)"
  then show ?thesis
    using assms(2) by (auto simp: sweepTerminals_def)
next
  assume "\<exists>counts db'. validateAndRecoverActionRuns cause now (kdb k) = (Inr counts, db') \<and> preserved H (kdb k) db' \<and>
       calmed (kdb k) db' {r \<in> set (runs (kdb k)). is_m5 r \<and> r_status r = Running}"
  then obtain counts db0 where r: "validateAndRecoverActionRuns cause now (kdb k) = (Inr counts, db0)"
    "preserved H (kdb k) db0" "calmed (kdb k) db0 {r \<in> set (runs (kdb k)). is_m5 r \<and> r_status r = Running}"
    by blast
  have "\<forall>q \<in> set (runs db0). is_m5 q \<longrightarrow> r_status q \<noteq> Running"
    using r(3) by (auto simp: calmed_def)
  then obtain db1 ids n m where s: "sweep_tx cause now db0 = (Inr ((n, m), db1), ids)" "preserved H db0 db1"
    "calmed db0 db1 {r \<in> set (runs db0). r_status r = Running \<or> r_status r = Cancel_requested}"
    using sweep_tx_all [OF preserved_ok [OF r(2)], of cause now] by blast
  let ?A = "{r \<in> set (runs (kdb k)). is_m5 r \<and> r_status r = Running}"
  let ?B = "{r \<in> set (runs db0). r_status r = Running \<or> r_status r = Cancel_requested}"
  let ?E = "{r \<in> set (runs (kdb k)). r_status r = Running \<or> r_status r = Cancel_requested}"
  have stay: "q \<in> set (runs db0)" if "q \<in> set (runs (kdb k))" "q \<notin> ?A" for q
    using r(3) that unfolding calmed_def by blast
  have old: "q \<in> set (runs (kdb k))" if "q \<in> set (runs db0)" "r_status q = Running \<or> r_status q = Cancel_requested" for q
  proof -
    have "\<not> isTerminalStatus (r_status q)"
      using that(2) by auto
    then show ?thesis
      using r(3) that(1) unfolding calmed_def by blast
  qed
  have "?A \<union> ?B = ?E"
  proof (intro set_eqI iffI)
    fix q assume "q \<in> ?A \<union> ?B"
    then show "q \<in> ?E" using old [of q] by blast
  next
    fix q assume "q \<in> ?E"
    then show "q \<in> ?A \<union> ?B" using stay [of q] by blast
  qed
  then have "calmed (kdb k) db1 ?E"
    using calmed_trans [OF r(3) s(3)] by simp
  then show ?thesis
    using assms(2) r s preserved_trans [OF r(2) s(2)] by (auto simp: sweepTerminals_def Let_def)
qed

end
