(* ===== verification/Json_Parse.thy ===== *)
theory Json_Parse
  imports Json Ids
begin

text \<open>
  \<open>JSON.parse\<close> of the language's standard library, on UTF-16 code units: the grammar of ECMA-404 with its four
  white-space characters. A number keeps the text it was written with (nothing here computes with one),
  and of two members with the same name the later value wins, at the place of the first. The recursion
  has fuel; \<open>fuel_enough\<close> shows that twice the length of the text is enough for every text, so
  \<open>json_parse\<close> never fails for want of it.
\<close>

subsection \<open>Strings and numbers\<close>

text \<open>The units of a string literal up to its closing quote, and the rest of the text.\<close>

fun str_lit :: "jstr \<Rightarrow> (jstr \<times> jstr) option" where
  "str_lit [] = None"
| "str_lit (u # r) =
     (if u = 34 then Some ([], r)
      else if u < 32 then None
      else if u = 92 then
        (case r of
           [] \<Rightarrow> None
         | c # r1 \<Rightarrow>
             if c = 117 then
               (case r1 of
                  a # b # d # e # r2 \<Rightarrow>
                    if is_hex a \<and> is_hex b \<and> is_hex d \<and> is_hex e
                    then map_option (apfst ((#) (hex_value a * 4096 + hex_value b * 256 + hex_value d * 16 +
                        hex_value e))) (str_lit r2)
                    else None
                | _ \<Rightarrow> None)
             else if c \<in> {34, 92, 47, 98, 102, 110, 114, 116} then map_option (apfst ((#)
                 (if c = 98 then 8 else if c = 102 then 12 else if c = 110 then 10
                  else if c = 114 then 13 else if c = 116 then 9 else c))) (str_lit r1)
             else None)
      else map_option (apfst ((#) u)) (str_lit r))"

definition digit :: "nat \<Rightarrow> bool" where
  "digit u \<longleftrightarrow> 48 \<le> u \<and> u \<le> 57"

definition some_digits :: "jstr \<Rightarrow> jstr option" where
  "some_digits s = (case s of [] \<Rightarrow> None | u # r \<Rightarrow> if digit u then Some (dropWhile digit r) else None)"

definition int_part :: "jstr \<Rightarrow> jstr option" where
  "int_part s = (case s of [] \<Rightarrow> None
     | u # r \<Rightarrow> if u = 48 then Some r else if digit u then Some (dropWhile digit r) else None)"

definition frac_part :: "jstr \<Rightarrow> jstr option" where
  "frac_part s = (case s of [] \<Rightarrow> Some [] | u # r \<Rightarrow> if u = 46 then some_digits r else Some s)"

definition exp_part :: "jstr \<Rightarrow> jstr option" where
  "exp_part s = (case s of [] \<Rightarrow> Some []
     | u # r \<Rightarrow> if u = 101 \<or> u = 69
               then some_digits (case r of [] \<Rightarrow> [] | c # q \<Rightarrow> if c = 43 \<or> c = 45 then q else r)
               else Some s)"

text \<open>The rest of the text after a number.\<close>

definition number_rest :: "jstr \<Rightarrow> jstr option" where
  "number_rest s =
     Option.bind (int_part (case s of [] \<Rightarrow> [] | c # q \<Rightarrow> if c = 45 then q else s)) (\<lambda>a.
       Option.bind (frac_part a) exp_part)"

definition num_lit :: "jstr \<Rightarrow> (json \<times> jstr) option" where
  "num_lit s = map_option (\<lambda>r. (JNum (take (length s - length r) s), r)) (number_rest s)"

subsection \<open>Values\<close>

definition json_space :: "nat \<Rightarrow> bool" where
  "json_space u \<longleftrightarrow> u = 32 \<or> u = 9 \<or> u = 10 \<or> u = 13"

abbreviation skip :: "jstr \<Rightarrow> jstr" where
  "skip s \<equiv> dropWhile json_space s"

definition word_lit :: "string \<Rightarrow> json \<Rightarrow> jstr \<Rightarrow> (json \<times> jstr) option" where
  "word_lit w v s = (if starts_with s (js w) then Some (v, drop (length w) s) else None)"

definition build_object :: "(jstr \<times> json) list \<Rightarrow> json" where
  "build_object kvs = JObj (fold (\<lambda>kv. AList.update (fst kv) (snd kv)) kvs [])"

text \<open>The rest of the text after the unit \<open>c\<close>, which may follow white space.\<close>

definition expect :: "nat \<Rightarrow> jstr \<Rightarrow> jstr option" where
  "expect c s = (case skip s of [] \<Rightarrow> None | u # r \<Rightarrow> if u = c then Some r else None)"

fun pvalue :: "nat \<Rightarrow> jstr \<Rightarrow> (json \<times> jstr) option"
and pelems :: "nat \<Rightarrow> jstr \<Rightarrow> (json list \<times> jstr) option"
and pmembers :: "nat \<Rightarrow> jstr \<Rightarrow> ((jstr \<times> json) list \<times> jstr) option"
where
  "pvalue 0 s = None"
| "pvalue (Suc n) s =
     (case skip s of
        [] \<Rightarrow> None
      | c # r \<Rightarrow>
          if c = 34 then map_option (apfst JStr) (str_lit r)
          else if c = 91 then
            (case expect 93 r of
               Some q \<Rightarrow> Some (JArr [], q)
             | None \<Rightarrow> map_option (apfst JArr) (pelems n r))
          else if c = 123 then
            (case expect 125 r of
               Some q \<Rightarrow> Some (JObj [], q)
             | None \<Rightarrow> map_option (apfst build_object) (pmembers n r))
          else if c = 110 then word_lit ''null'' JNull (c # r)
          else if c = 116 then word_lit ''true'' (JBool True) (c # r)
          else if c = 102 then word_lit ''false'' (JBool False) (c # r)
          else num_lit (c # r))"
| "pelems 0 s = None"
| "pelems (Suc n) s =
     (case pvalue n s of
        None \<Rightarrow> None
      | Some (v, r) \<Rightarrow>
          (case expect 44 r of
             Some q \<Rightarrow> map_option (apfst ((#) v)) (pelems n q)
           | None \<Rightarrow> map_option (\<lambda>q. ([v], q)) (expect 93 r)))"
| "pmembers 0 s = None"
| "pmembers (Suc n) s =
     (case Option.bind (expect 34 s) str_lit of
        None \<Rightarrow> None
      | Some (k, r1) \<Rightarrow>
          (case Option.bind (expect 58 r1) (pvalue n) of
             None \<Rightarrow> None
           | Some (v, r2) \<Rightarrow>
               (case expect 44 r2 of
                  Some q \<Rightarrow> map_option (apfst ((#) (k, v))) (pmembers n q)
                | None \<Rightarrow> map_option (\<lambda>q. ([(k, v)], q)) (expect 125 r2))))"

definition json_parse :: "jstr \<Rightarrow> json option" where
  "json_parse s =
     (case pvalue (2 * length s + 1) s of
        None \<Rightarrow> None
      | Some (v, r) \<Rightarrow> if skip r = [] then Some v else None)"

text \<open>Reading a property: of anything but an object it is \<open>undefined\<close>.\<close>

fun property :: "json \<Rightarrow> string \<Rightarrow> json" where
  "property (JObj kvs) k = (case map_of kvs (js k) of None \<Rightarrow> JUndef | Some v \<Rightarrow> v)"
| "property v k = JUndef"

fun as_string :: "json \<Rightarrow> jstr option" where
  "as_string (JStr s) = Some s"
| "as_string v = None"

fun is_object :: "json \<Rightarrow> bool" where
  "is_object (JObj kvs) = True"
| "is_object v = False"


subsection \<open>Every text has enough fuel\<close>

lemma length_skip: "length (skip s) \<le> length s"
  by (rule length_dropWhile_le)

lemma length_digits: "some_digits s = Some r \<Longrightarrow> length r < length s"
  using length_dropWhile_le by (fastforce simp: some_digits_def less_Suc_eq_le split: list.splits if_splits)

lemma length_expect: "expect c s = Some r \<Longrightarrow> length r < length s"
  using length_skip [of s] by (auto simp: expect_def split: list.splits if_splits)

lemma length_str_lit: "str_lit s = Some (t, r) \<Longrightarrow> length r < length s"
proof (induction s arbitrary: t rule: str_lit.induct)
  case (2 u r0)
  then show ?case
    by (fastforce simp: apfst_def map_prod_def split: if_splits list.splits)
qed simp

lemma length_int_part: "int_part s = Some r \<Longrightarrow> length r < length s"
  using length_dropWhile_le by (fastforce simp: int_part_def less_Suc_eq_le split: list.splits if_splits)

lemma length_frac_part: "frac_part s = Some r \<Longrightarrow> length r \<le> length s"
  by (auto simp: frac_part_def split: list.splits if_splits dest: length_digits)

lemma length_exp_part: "exp_part s = Some r \<Longrightarrow> length r \<le> length s"
  by (auto simp: exp_part_def split: list.splits if_splits dest!: length_digits)

lemma length_number_rest: "number_rest s = Some r \<Longrightarrow> length r < length s"
  by (fastforce simp: number_rest_def bind_eq_Some_conv split: list.splits if_splits
      dest: length_int_part length_frac_part length_exp_part)

lemma length_num_lit: "num_lit s = Some (v, r) \<Longrightarrow> length r < length s"
  by (auto simp: num_lit_def length_number_rest)

lemma length_word_lit: "word_lit w v s = Some (x, r) \<Longrightarrow> w \<noteq> [] \<Longrightarrow> length r < length s"
  by (cases s) (auto simp: word_lit_def starts_with_def js_def split: if_splits)

declare pvalue.simps(2) [simp del] pelems.simps(2) [simp del] pmembers.simps(2) [simp del]

lemma map_apfst_Some: "map_option (apfst f) m = Some (v, r) \<longleftrightarrow> (\<exists>x. m = Some (x, r) \<and> v = f x)"
  by (cases m) auto

lemma shrinks:
  "pvalue n s = Some (v, r) \<Longrightarrow> length r < length s"
  "pelems n s = Some (vs, r) \<Longrightarrow> length r < length s"
  "pmembers n s = Some (kvs, r) \<Longrightarrow> length r < length s"
proof (induction n arbitrary: s v r vs kvs)
  case (Suc n)
  {
    case 1
    then obtain c q where c: "skip s = c # q"
      by (cases "skip s") (simp_all add: pvalue.simps(2))
    then have "length q < length s"
      using length_skip [of s] by simp
    moreover have "length r \<le> length q"
      using 1 Suc.IH(2,3) [of q] unfolding pvalue.simps(2) c list.case
      by (auto simp: map_apfst_Some less_imp_le split: if_splits option.splits
          dest!: length_str_lit length_expect length_num_lit length_word_lit)
    ultimately show ?case by simp
  next
    case 2
    then obtain v q where v: "pvalue n s = Some (v, q)"
      by (auto simp: pelems.simps(2) split: option.splits)
    then have "length r < length q"
      using 2 Suc.IH(2)
      by (fastforce simp: pelems.simps(2) map_apfst_Some split: option.splits dest: length_expect)
    then show ?case
      using Suc.IH(1) [OF v] by simp
  next
    case 3
    then obtain q k r1 r2 v r3 where v: "expect 34 s = Some q" "str_lit q = Some (k, r1)"
      "expect 58 r1 = Some r2" "pvalue n r2 = Some (v, r3)"
      by (auto simp: pmembers.simps(2) bind_eq_Some_conv split: option.splits)
    then have "length r < length r3"
      using 3 Suc.IH(3)
      by (fastforce simp: pmembers.simps(2) map_apfst_Some split: option.splits dest: length_expect)
    then show ?case
      using length_expect [OF v(1)] length_str_lit [OF v(2)] length_expect [OF v(3)] Suc.IH(1) [OF v(4)]
      by simp
  }
qed simp_all

lemma more_fuel:
  "2 * length s + 1 \<le> n \<Longrightarrow> pvalue (Suc n) s = pvalue n s"
  "2 * length s + 2 \<le> n \<Longrightarrow> pelems (Suc n) s = pelems n s"
  "2 * length s + 2 \<le> n \<Longrightarrow> pmembers (Suc n) s = pmembers n s"
proof (induction n arbitrary: s)
  case (Suc n)
  {
    case 1
    show ?case
    proof (cases "skip s")
      case (Cons c r)
      then have "length r < length s"
        using length_skip [of s] by simp
      then have "pelems (Suc n) r = pelems n r" "pmembers (Suc n) r = pmembers n r"
        using 1 Suc.IH(2,3) [of r] by simp_all
      then show ?thesis
        by (simp only: pvalue.simps(2) Cons list.case)
    next
      case Nil
      then show ?thesis by (simp only: pvalue.simps(2) list.case)
    qed
  next
    case 2
    have "pelems (Suc n) q = pelems n q" if "pvalue n s = Some (v, r)" "expect 44 r = Some q" for v r q
      using 2 Suc.IH(2) [of q] shrinks(1) [OF that(1)] length_expect [OF that(2)] by simp
    moreover have "pvalue (Suc n) s = pvalue n s"
      using 2 Suc.IH(1) [of s] by simp
    ultimately show ?case
      by (auto simp: pelems.simps(2) split: option.split)
  next
    case 3
    have "pvalue (Suc n) r2 = pvalue n r2" if "Option.bind (expect 34 s) str_lit = Some (k, r1)"
      "expect 58 r1 = Some r2" for k r1 r2
      using 3 Suc.IH(1) [of r2] that by (auto simp: bind_eq_Some_conv dest!: length_expect length_str_lit)
    then have "Option.bind (expect 58 r1) (pvalue (Suc n)) = Option.bind (expect 58 r1) (pvalue n)"
      if "Option.bind (expect 34 s) str_lit = Some (k, r1)" for k r1
      using that by (cases "expect 58 r1") auto
    moreover have "pmembers (Suc n) q = pmembers n q" if "Option.bind (expect 34 s) str_lit = Some (k, r1)"
      "Option.bind (expect 58 r1) (pvalue n) = Some (w, r3)" "expect 44 r3 = Some q" for k r1 w r3 q
      using 3 Suc.IH(3) [of q] that
      by (auto simp: bind_eq_Some_conv dest!: length_expect length_str_lit shrinks(1))
    ultimately show ?case
      by (auto simp: pmembers.simps(2) split: option.split)
  }
qed simp_all

lemma fuel_enough: "2 * length s + 1 \<le> n \<Longrightarrow> pvalue n s = pvalue (2 * length s + 1) s"
proof (induction "n - (2 * length s + 1)" arbitrary: n)
  case (Suc d)
  then have "pvalue (Suc (n - 1)) s = pvalue (n - 1) s"
    by (intro more_fuel(1)) simp
  then show ?case
    using Suc(1) [of "n - 1"] Suc(2,3) by simp
qed simp


subsection \<open>Reading back what \<open>JSON.stringify\<close> wrote\<close>

text \<open>What may follow a value inside a text without white space.\<close>

definition stop :: "jstr \<Rightarrow> bool" where
  "stop r \<longleftrightarrow> r = [] \<or> hd r \<in> {44, 93, 125}"

lemma expect_here [simp]: "\<not> json_space c \<Longrightarrow> expect c (c # r) = Some r"
  by (simp add: expect_def)

lemma expect_other: "s = [] \<or> \<not> json_space (hd s) \<and> hd s \<noteq> c \<Longrightarrow> expect c s = None"
  by (cases s) (auto simp: expect_def)

lemma hex_digit_is_hex: "d < 16 \<Longrightarrow> is_hex (hex_digit d) \<and> hex_value (hex_digit d) = d"
  by (auto simp: hex_digit_def is_hex_def hex_value_def lower_unit_def)

declare str_lit.simps(2) [simp del]

lemma str_lit_escape: "u < 65536 \<Longrightarrow> str_lit (u_escape u @ r) = map_option (apfst ((#) u)) (str_lit r)"
  using hex_split [of u] by (simp add: u_escape_def str_lit.simps(2) hex_digit_is_hex)

lemma str_lit_plain: "u \<noteq> 34 \<Longrightarrow> u \<noteq> 92 \<Longrightarrow> 32 \<le> u \<Longrightarrow> str_lit (u # r) = map_option (apfst ((#) u)) (str_lit r)"
  by (simp add: str_lit.simps(2))

lemma str_lit_unit: "str_lit (json_unit u @ r) = map_option (apfst ((#) u)) (str_lit r)"
proof -
  consider "u \<in> {34, 92, 8, 12, 10, 13, 9}"
    | "u \<notin> {34, 92, 8, 12, 10, 13, 9}" "u < 32 \<or> is_high u \<or> is_low u"
    | "u \<notin> {34, 92, 8, 12, 10, 13, 9}" "\<not> (u < 32 \<or> is_high u \<or> is_low u)"
    by blast
  then show ?thesis
  proof cases
    case 1
    then show ?thesis
      by (elim insertE emptyE) (simp_all add: json_unit_def str_lit.simps(2))
  next
    case 2
    then show ?thesis
      using surrogate_small [of u] by (auto simp: json_unit_def str_lit_escape)
  next
    case 3
    then show ?thesis
      by (simp add: json_unit_def str_lit_plain)
  qed
qed

lemma str_lit_units: "str_lit (json_units s @ 34 # r) = Some (s, r)"
proof (induction s rule: json_units.induct)
  case 1
  then show ?case by (simp add: str_lit.simps(2))
next
  case (2 u)
  then show ?case by (simp add: str_lit_unit str_lit.simps(2) [of 34])
next
  case (3 u v s)
  have "32 \<le> w" if "is_high w \<or> is_low w" for w
    using that by (auto simp: is_high_def is_low_def)
  then show ?case
    using 3 surrogate_small [of u] surrogate_small [of v]
    by (cases "is_high u"; cases "is_low v") (simp_all add: str_lit_unit str_lit_plain)
qed

lemma drop_digits_stop: "stop r \<Longrightarrow> dropWhile digit (t @ r) = dropWhile digit t @ r"
  by (cases r) (auto simp: dropWhile_append stop_def digit_def dropWhile_eq_Nil_conv)

lemma some_digits_stop: "stop r \<Longrightarrow> some_digits t = Some q \<Longrightarrow> some_digits (t @ r) = Some (q @ r)"
  by (auto simp: some_digits_def drop_digits_stop split: list.splits if_splits)

lemma number_stop: "stop r \<Longrightarrow> number_rest t = Some q \<Longrightarrow> number_rest (t @ r) = Some (q @ r)"
proof -
  assume r: "stop r" and t: "number_rest t = Some q"
  have i: "int_part (x @ r) = Some (y @ r)" if "int_part x = Some y" for x y
    using that r by (auto simp: int_part_def drop_digits_stop split: list.splits if_splits)
  have f: "frac_part (x @ r) = Some (y @ r)" if "frac_part x = Some y" for x y
    using that r by (cases x; cases r) (auto simp: frac_part_def some_digits_stop stop_def split: if_splits)
  have d: "some_digits [] = None"
    by (simp add: some_digits_def)
  have e: "exp_part (x @ r) = Some (y @ r)" if "exp_part x = Some y" for x y
  proof (cases x)
    case Nil
    then show ?thesis using that r by (cases r) (auto simp: exp_part_def stop_def)
  next
    case (Cons u z)
    then show ?thesis
      using that d some_digits_stop [OF r, of z] some_digits_stop [OF r, of "tl z"]
      by (cases z) (auto simp: exp_part_def split: if_splits)
  qed
  show ?thesis
    using t i [of t] i [of "tl t"] f e unfolding number_rest_def
    by (cases t) (auto simp: bind_eq_Some_conv int_part_def [of "[]"] split: if_splits)
qed


text \<open>Values whose text can be read back: the numbers are written as JSON numbers.\<close>

definition json_number :: "jstr \<Rightarrow> bool" where
  "json_number t \<longleftrightarrow> number_rest t = Some []"

fun writable :: "json \<Rightarrow> bool" where
  "writable JUndef = False"
| "writable (JNum t) = json_number t"
| "writable (JArr xs) = list_all writable xs"
| "writable (JObj kvs) = (distinct (map fst kvs) \<and> list_all (\<lambda>kv. writable (snd kv)) kvs)"
| "writable v = True"

lemma json_number_hd: "json_number t \<Longrightarrow> t \<noteq> [] \<and> (hd t = 45 \<or> digit (hd t))"
  by (cases t) (auto simp: json_number_def number_rest_def bind_eq_Some_conv int_part_def digit_def
      split: if_splits)

lemma num_lit_stop: "json_number t \<Longrightarrow> stop r \<Longrightarrow> num_lit (t @ r) = Some (JNum t, r)"
  using number_stop [of r t "[]"] by (simp add: json_number_def num_lit_def)

definition value_hd :: "nat \<Rightarrow> bool" where
  "value_hd c \<longleftrightarrow> \<not> json_space c \<and> c \<notin> {44, 93, 125}"

lemma raw_starts: "writable j \<Longrightarrow> raw j \<noteq> [] \<and> value_hd (hd (raw j))"
proof (cases j)
  case (JNum t)
  assume "writable j"
  then show ?thesis
    using json_number_hd [of t] JNum by (auto simp: value_hd_def json_space_def digit_def)
qed (auto simp: literal_units value_hd_def json_space_def)

lemma expect_value: "value_hd (hd s) \<Longrightarrow> c \<in> {44, 93, 125} \<Longrightarrow> s \<noteq> [] \<Longrightarrow> expect c (s @ r) = None"
  by (rule expect_other) (auto simp: value_hd_def)

lemma stop_tail: "stop (concat (map (\<lambda>x. 44 # f x) xs) @ 93 # r)" "stop (concat (map (\<lambda>x. 44 # f x) xs) @ 125 # r)"
  by (cases xs; simp add: stop_def)+

lemma pelems_raw:
  assumes "\<And>x n r. x \<in> set xs \<Longrightarrow> stop r \<Longrightarrow> 2 * length (raw x) + 1 \<le> n \<Longrightarrow> pvalue n (raw x @ r) = Some (x, r)"
    and "xs \<noteq> []" "2 * length (comma_join (map raw xs)) + 2 \<le> n"
  shows "pelems n (comma_join (map raw xs) @ 93 # r) = Some (xs, r)"
  using assms
proof (induction xs arbitrary: n)
  case (Cons x xs)
  obtain m where n: "n = Suc m"
    using Cons.prems(3) by (cases n) auto
  let ?tail = "concat (map (\<lambda>x. 44 # raw x) xs) @ 93 # r"
  have v: "pvalue m (raw x @ ?tail) = Some (x, ?tail)"
    using Cons.prems(3) n by (intro Cons.prems(1) stop_tail) (auto simp: comma_join_Cons)
  show ?case
  proof (cases xs)
    case Nil
    then show ?thesis
      using v n by (simp add: comma_join_Cons pelems.simps(2) expect_other json_space_def)
  next
    case (Cons y ys)
    have "expect 44 ?tail = Some (comma_join (map raw xs) @ 93 # r)"
      by (simp add: Cons comma_join_Cons comp_def json_space_def)
    moreover have "pelems m (comma_join (map raw xs) @ 93 # r) = Some (xs, r)"
      using Cons.prems(3) n Cons by (intro Cons.IH Cons.prems(1)) (auto simp: comma_join_Cons comp_def)
    ultimately show ?thesis
      using v n by (simp add: comma_join_Cons comp_def pelems.simps(2))
  qed
qed simp

lemma pmembers_raw:
  assumes "\<And>kv n r. kv \<in> set kvs \<Longrightarrow> stop r \<Longrightarrow> 2 * length (raw (snd kv)) + 1 \<le> n \<Longrightarrow>
      pvalue n (raw (snd kv) @ r) = Some (snd kv, r)"
    and "kvs \<noteq> []" "2 * length (comma_join (map (\<lambda>kv. json_string (fst kv) @ 58 # raw (snd kv)) kvs)) + 2 \<le> n"
  shows "pmembers n (comma_join (map (\<lambda>kv. json_string (fst kv) @ 58 # raw (snd kv)) kvs) @ 125 # r) = Some (kvs, r)"
  using assms
proof (induction kvs arbitrary: n)
  case (Cons kv kvs)
  let ?f = "\<lambda>kv. json_string (fst kv) @ 58 # raw (snd kv)"
  obtain m where n: "n = Suc m"
    using Cons.prems(3) by (cases n) auto
  let ?tail = "concat (map (\<lambda>kv. 44 # ?f kv) kvs) @ 125 # r"
  have "pvalue m (raw (snd kv) @ ?tail) = Some (snd kv, ?tail)"
    using Cons.prems(3) n by (intro Cons.prems(1) stop_tail) (auto simp: comma_join_Cons)
  then have v: "Option.bind (expect 58 (58 # raw (snd kv) @ ?tail)) (pvalue m) = Some (snd kv, ?tail)"
    by (simp add: json_space_def)
  have k: "Option.bind (expect 34 (json_string (fst kv) @ q)) str_lit = Some (fst kv, q)" for q
    by (simp add: json_string_def json_space_def str_lit_units)
  have head: "comma_join (map ?f (kv # kvs)) @ 125 # r = json_string (fst kv) @ 58 # raw (snd kv) @ ?tail"
    by (simp add: comma_join_Cons comp_def)
  show ?case
  proof (cases kvs)
    case Nil
    then show ?thesis
      unfolding head n pmembers.simps(2) k option.case prod.case v by (simp add: expect_other json_space_def)
  next
    case (Cons kv' kvs')
    have "expect 44 ?tail = Some (comma_join (map ?f kvs) @ 125 # r)"
      by (simp add: Cons comma_join_Cons comp_def json_space_def)
    moreover have "pmembers m (comma_join (map ?f kvs) @ 125 # r) = Some (kvs, r)"
      using Cons.prems(3) n Cons by (intro Cons.IH Cons.prems(1)) (auto simp: comma_join_Cons comp_def)
    ultimately show ?thesis
      unfolding head n pmembers.simps(2) k option.case prod.case v by simp
  qed
qed simp

lemma build_distinct: "distinct (map fst kvs) \<Longrightarrow> build_object kvs = JObj kvs"
proof -
  have new: "AList.update k v al = al @ [(k, v)]" if "k \<notin> fst ` set al" for k and v :: json and al
    using that by (induction al) auto
  have "fold (\<lambda>kv. AList.update (fst kv) (snd kv)) kvs acc = acc @ kvs"
    if "distinct (map fst (acc @ kvs))" for kvs acc :: "(jstr \<times> json) list"
    using that
  proof (induction kvs arbitrary: acc)
    case (Cons kv kvs)
    then show ?case
      using Cons.IH [of "acc @ [kv]"] by (simp add: new)
  qed simp
  from this [of "[]"] show "distinct (map fst kvs) \<Longrightarrow> build_object kvs = JObj kvs"
    by (simp add: build_object_def)
qed

text \<open>A written value, followed by anything that may follow it, is read back.\<close>

lemma pvalue_raw: "writable j \<Longrightarrow> stop r \<Longrightarrow> 2 * length (raw j) + 1 \<le> n \<Longrightarrow> pvalue n (raw j @ r) = Some (j, r)"
proof (induction j arbitrary: n r)
  case (JNum t)
  obtain c q where t: "t = c # q" "\<not> json_space c" "c \<notin> {34, 91, 123, 110, 116, 102}"
    using json_number_hd [of t] JNum.prems(1)
    by (cases t) (auto simp: json_space_def digit_def)
  then show ?case
    using JNum.prems num_lit_stop [of t r] by (cases n) (auto simp: pvalue.simps(2))
next
  case (JStr s)
  then show ?case
    by (cases n) (auto simp: pvalue.simps(2) json_string_def json_space_def str_lit_units)
next
  case (JArr xs)
  obtain m where n: "n = Suc m"
    using JArr.prems(3) by (cases n) auto
  show ?case
  proof (cases xs)
    case Nil
    then show ?thesis by (simp add: n pvalue.simps(2) json_space_def)
  next
    case (Cons x ys)
    have "raw x \<noteq> [] \<and> value_hd (hd (raw x))"
      using JArr.prems(1) Cons by (intro raw_starts) simp
    then have "expect 93 (comma_join (map raw xs) @ 93 # r) = None"
      by (simp add: Cons comma_join_Cons expect_value)
    moreover have "pelems m (comma_join (map raw xs) @ 93 # r) = Some (xs, r)"
      using JArr Cons n by (intro pelems_raw) (auto simp: list_all_iff)
    ultimately show ?thesis
      by (simp add: n pvalue.simps(2) json_space_def)
  qed
next
  case (JObj kvs)
  obtain m where n: "n = Suc m"
    using JObj.prems(3) by (cases n) auto
  let ?t = "comma_join (map (\<lambda>kv. json_string (fst kv) @ 58 # raw (snd kv)) kvs)"
  show ?case
  proof (cases kvs)
    case Nil
    then show ?thesis by (simp add: n pvalue.simps(2) json_space_def)
  next
    case (Cons kv kvs')
    have "expect 125 (?t @ 125 # r) = None"
      by (rule expect_other) (simp add: Cons comma_join_Cons json_string_def json_space_def)
    moreover have "pvalue i (raw (snd kv) @ q) = Some (snd kv, q)"
      if "kv \<in> set kvs" "stop q" "2 * length (raw (snd kv)) + 1 \<le> i" for kv i q
      using that JObj.prems(1) by (intro JObj.IH [of kv]) (auto simp: list_all_iff snd_in_snds)
    then have "pmembers m (?t @ 125 # r) = Some (kvs, r)"
      using JObj.prems(3) Cons n by (intro pmembers_raw) auto
    ultimately show ?thesis
      using JObj.prems(1) by (simp add: n pvalue.simps(2) json_space_def build_distinct)
  qed
next
  case JNull
  then show ?case
    by (cases n) (auto simp: literal_units word_lit_def starts_with_def json_space_def pvalue.simps(2))
next
  case (JBool b)
  then show ?case
    by (cases n) (auto simp: literal_units word_lit_def starts_with_def json_space_def pvalue.simps(2))
qed simp

lemma json_parse_raw: "writable j \<Longrightarrow> json_parse (raw j) = Some j"
  using pvalue_raw [of j "[]"] by (simp add: json_parse_def stop_def)

text \<open>The numbers a value holds are written as JSON numbers (what \<open>Number::toString\<close> gives for finite ones).\<close>

fun numbers_ok :: "json \<Rightarrow> bool" where
  "numbers_ok (JNum t) = json_number t"
| "numbers_ok (JArr xs) = list_all numbers_ok xs"
| "numbers_ok (JObj kvs) = list_all (\<lambda>kv. numbers_ok (snd kv)) kvs"
| "numbers_ok v = True"

lemma writable_canonical: "value_ok v \<Longrightarrow> numbers_ok v \<Longrightarrow> writable (nulled (canonicalize v))"
proof (induction v)
  case (JArr xs)
  then show ?case by (simp add: list_all_iff)
next
  case (JObj kvs)
  have "distinct (map fst (members (map (\<lambda>kv. (fst kv, canonicalize (snd kv))) kvs)))"
    using JObj.prems by (intro distinct_members) (simp add: comp_def)
  moreover have "writable (nulled (canonicalize (snd kv)))" if "kv \<in> set kvs" for kv
    using that JObj.prems by (intro JObj.IH [of kv]) (auto simp: list_all_iff snd_in_snds)
  ultimately show ?case
    unfolding canonicalize_JObj by (auto simp: list_all_iff set_members comp_def)
qed simp_all

text \<open>C39. Canonical JSON can be read back: for every value whose numbers are JSON numbers the parser
  accepts its canonical text, and what it reads means the same as the value that was written.\<close>

theorem canonical_roundtrip:
  assumes "value_ok v" "numbers_ok v" "canonicalJson v = Some text1"
  shows "\<exists>w. json_parse text1 = Some w \<and> denote w = denote v"
proof (intro exI conjI)
  have "text1 = raw (nulled (canonicalize v))"
    using assms(3) by (auto simp: canonicalJson_def stringify_canonical split: if_splits)
  then show "json_parse text1 = Some (nulled (canonicalize v))"
    using writable_canonical [OF assms(1,2)] by (simp add: json_parse_raw)
  show "denote (nulled (canonicalize v)) = denote v"
    by (rule denote_nulled [OF assms(1)])
qed

theorem canonical_roundtrip_witness:
  "\<exists>w. json_parse (the (canonicalJson (JObj [(js ''b'', JNum (js ''-1.5e+21'')), (js ''a'', JStr [10])]))) = Some w \<and>
     denote w = denote (JObj [(js ''b'', JNum (js ''-1.5e+21'')), (js ''a'', JStr [10])])"
proof (rule canonical_roundtrip)
  show "value_ok (JObj [(js ''b'', JNum (js ''-1.5e+21'')), (js ''a'', JStr [10])])"
    by code_simp
  show "numbers_ok (JObj [(js ''b'', JNum (js ''-1.5e+21'')), (js ''a'', JStr [10])])"
    by code_simp
  show "canonicalJson (JObj [(js ''b'', JNum (js ''-1.5e+21'')), (js ''a'', JStr [10])]) =
      Some (the (canonicalJson (JObj [(js ''b'', JNum (js ''-1.5e+21'')), (js ''a'', JStr [10])])))"
    by (simp add: canonicalJson_def)
qed

subsection \<open>\<open>JSON.parse\<close> after \<open>JSON.stringify\<close>\<close>

text \<open>The value with the members of its objects in property order, at every depth.\<close>

fun ordered :: "json \<Rightarrow> json" where
  "ordered (JArr xs) = JArr (map ordered xs)"
| "ordered (JObj kvs) = JObj (own_order (map (\<lambda>kv. (fst kv, ordered (snd kv))) kvs))"
| "ordered v = v"

lemma writable_not_JUndef: "writable v \<Longrightarrow> v \<noteq> JUndef"
  by auto

lemma distinct_own_order: "distinct (map fst kvs) \<Longrightarrow> distinct (map fst (own_order kvs))"
  by (rule distinct_keys_perm [where xs = kvs]) simp_all

lemma stringify_ordered: "writable v \<Longrightarrow> stringify v = raw (ordered v)"
proof (induction v)
  case (JArr xs)
  have "map stringify xs = map (raw \<circ> ordered) xs"
    using JArr by (auto simp: list_all_iff)
  then show ?case
    by (simp only: stringify.simps raw.simps ordered.simps map_map)
next
  case (JObj kvs)
  let ?t = "map (\<lambda>kv. (fst kv, if snd kv = JUndef then None else Some (stringify (snd kv)))) kvs"
  have "?t = map (\<lambda>kv. (fst kv, Some (raw (ordered (snd kv))))) kvs"
    using JObj writable_not_JUndef snd_in_snds by (fastforce simp: list_all_iff)
  also have "own_order \<dots> = map (\<lambda>kv. (fst kv, Some (raw (snd kv)))) (own_order (map (\<lambda>kv. (fst kv, ordered (snd kv))) kvs))"
    by (subst own_order_map [symmetric]) (simp add: comp_def)
  finally show ?case
    by (simp add: comp_def)
qed simp_all

lemma writable_ordered: "writable v \<Longrightarrow> writable (ordered v)"
proof (induction v)
  case (JObj kvs)
  have "distinct (map fst (own_order (map (\<lambda>kv. (fst kv, ordered (snd kv))) kvs)))"
    using JObj.prems by (intro distinct_own_order) (simp add: comp_def)
  moreover have "writable (ordered (snd kv))" if "kv \<in> set kvs" for kv
    using that JObj.prems by (intro JObj.IH [of kv]) (auto simp: list_all_iff snd_in_snds)
  ultimately show ?case
    by (auto simp: list_all_iff)
qed (auto simp: list_all_iff)

lemma parse_stringify: "writable v \<Longrightarrow> json_parse (stringify v) = Some (ordered v)"
  by (simp add: stringify_ordered json_parse_raw writable_ordered)

lemma map_of_own_order: "distinct (map fst kvs) \<Longrightarrow> map_of (own_order kvs) = map_of kvs"
  by (subst map_of_inject_set) (simp_all add: distinct_own_order)

lemma property_ordered: "writable v \<Longrightarrow> property (ordered v) k = ordered (property v k)"
proof (cases v)
  case (JObj kvs)
  assume "writable v"
  then have "map_of (own_order (map (\<lambda>kv. (fst kv, ordered (snd kv))) kvs)) = map_of (map (\<lambda>kv. (fst kv, ordered (snd kv))) kvs)"
    using JObj by (intro map_of_own_order) (simp add: comp_def)
  also have "\<dots> = map_option ordered \<circ> map_of kvs"
    using map_of_map [of ordered kvs] by (simp add: case_prod_unfold)
  finally show ?thesis
    using JObj by (simp split: option.split)
qed simp_all

lemma as_string_ordered [simp]: "as_string (ordered v) = as_string v"
  by (cases v) simp_all

lemma is_object_ordered [simp]: "is_object (ordered v) = is_object v"
  by (cases v) simp_all

lemma ordered_JStr_iff [simp]: "ordered v = JStr s \<longleftrightarrow> v = JStr s"
  by (cases v) simp_all

lemma writable_property: "writable v \<Longrightarrow> property v k \<noteq> JUndef \<Longrightarrow> writable (property v k)"
  by (cases v) (auto simp: list_all_iff split: option.splits dest!: map_of_SomeD)

subsection \<open>What was read can be written\<close>

lemma some_digits_split:
  "some_digits s = Some r \<Longrightarrow> \<exists>t. s = t @ r \<and> t \<noteq> [] \<and> list_all digit t \<and> (r = [] \<or> \<not> digit (hd r))"
proof -
  assume a: "some_digits s = Some r"
  then obtain u q where s: "s = u # q" "digit u" "r = dropWhile digit q"
    by (auto simp: some_digits_def split: list.splits if_splits)
  have "r = [] \<or> \<not> digit (hd r)"
    using s(3) hd_dropWhile [of digit q] by auto
  then show ?thesis
    using s by (intro exI [of _ "u # takeWhile digit q"]) (auto simp: list_all_iff dest: set_takeWhileD)
qed

lemma dropWhile_all: "list_all p t \<Longrightarrow> dropWhile p (t @ r) = dropWhile p r"
  by (induction t) auto

lemma some_digits_back: "t \<noteq> [] \<Longrightarrow> list_all digit t \<Longrightarrow> r = [] \<or> \<not> digit (hd r) \<Longrightarrow> some_digits (t @ r) = Some r"
  by (cases t; cases r) (auto simp: some_digits_def dropWhile_all list_all_iff)

lemma exp_part_split:
  assumes "exp_part s = Some r"
  shows "\<exists>t. s = t @ r \<and> exp_part t = Some [] \<and> (t = [] \<or> \<not> digit (hd t) \<and> hd t \<noteq> 46)"
proof (cases s)
  case (Cons u q)
  show ?thesis
  proof (cases "u = 101 \<or> u = 69")
    case True
    let ?q = "case q of [] \<Rightarrow> [] | c # q' \<Rightarrow> if c = 43 \<or> c = 45 then q' else q"
    have "some_digits ?q = Some r"
      using assms Cons True by (simp add: exp_part_def)
    then obtain t where t: "?q = t @ r" "t \<noteq> []" "list_all digit t"
      using some_digits_split by blast
    then obtain sg where "q = sg @ t @ r" "sg = [] \<or> sg = [43] \<or> sg = [45]"
      by (cases q) (auto split: if_splits)
    then show ?thesis
      using Cons True t some_digits_back [OF t(2,3), of "[]"]
      by (intro exI [of _ "u # sg @ t"]) (cases t; auto simp: exp_part_def digit_def list_all_iff)
  next
    case False
    then show ?thesis
      using assms Cons by (intro exI [of _ "[]"]) (auto simp: exp_part_def)
  qed
qed (use assms in \<open>auto simp: exp_part_def\<close>)

lemma frac_part_split:
  assumes "frac_part s = Some r"
  shows "\<exists>t. s = t @ r \<and> (t = [] \<or> hd t = 46) \<and>
    (\<forall>q. (q = [] \<or> \<not> digit (hd q) \<and> hd q \<noteq> 46) \<longrightarrow> frac_part (t @ q) = Some q)"
proof (cases s)
  case Nil
  then show ?thesis
    using assms by (intro exI [of _ "[]"]) (auto simp: frac_part_def split: list.splits)
next
  case (Cons u q)
  show ?thesis
  proof (cases "u = 46")
    case True
    then have "some_digits q = Some r"
      using assms Cons by (simp add: frac_part_def)
    then obtain t where "q = t @ r" "t \<noteq> []" "list_all digit t"
      using some_digits_split by blast
    then show ?thesis
      using Cons True some_digits_back [of t] some_digits_back [of t "[]"]
      by (intro exI [of _ "46 # t"]) (auto simp: frac_part_def)
  next
    case False
    then show ?thesis
      using assms Cons by (intro exI [of _ "[]"]) (auto simp: frac_part_def split: list.splits)
  qed
qed

lemma int_part_split:
  assumes "int_part s = Some r"
  shows "\<exists>t. s = t @ r \<and> t \<noteq> [] \<and> hd t \<noteq> 45 \<and>
    (\<forall>q. (q = [] \<or> \<not> digit (hd q)) \<longrightarrow> int_part (t @ q) = Some q)"
proof (cases s)
  case (Cons u q)
  show ?thesis
  proof (cases "u = 48")
    case True
    then show ?thesis
      using assms Cons by (intro exI [of _ "[48]"]) (auto simp: int_part_def)
  next
    case False
    then have u: "digit u" "r = dropWhile digit q"
      using assms Cons by (auto simp: int_part_def split: if_splits)
    have "dropWhile digit (takeWhile digit q @ p) = p" if "p = [] \<or> \<not> digit (hd p)" for p
    proof -
      have "list_all digit (takeWhile digit q)"
        by (auto simp: list_all_iff dest: set_takeWhileD)
      then show ?thesis
        using that by (cases p) (auto simp: dropWhile_all dest: set_takeWhileD)
    qed
    then show ?thesis
      using Cons False u by (intro exI [of _ "u # takeWhile digit q"]) (auto simp: int_part_def digit_def)
  qed
qed (use assms in \<open>simp add: int_part_def\<close>)

lemma number_split:
  assumes "number_rest s = Some r"
  shows "\<exists>t. s = t @ r \<and> json_number t"
proof -
  let ?s = "case s of [] \<Rightarrow> [] | c # q \<Rightarrow> if c = 45 then q else s"
  obtain a b where ab: "int_part ?s = Some a" "frac_part a = Some b" "exp_part b = Some r"
    using assms by (auto simp: number_rest_def bind_eq_Some_conv)
  obtain ti where i: "?s = ti @ a" "ti \<noteq> []" "hd ti \<noteq> 45"
      "\<And>q. q = [] \<or> \<not> digit (hd q) \<Longrightarrow> int_part (ti @ q) = Some q"
    using int_part_split [OF ab(1)] by blast
  obtain tf where f: "a = tf @ b" "tf = [] \<or> hd tf = 46"
      "\<And>q. q = [] \<or> \<not> digit (hd q) \<and> hd q \<noteq> 46 \<Longrightarrow> frac_part (tf @ q) = Some q"
    using frac_part_split [OF ab(2)] by blast
  obtain te where e: "b = te @ r" "exp_part te = Some []" "te = [] \<or> \<not> digit (hd te) \<and> hd te \<noteq> 46"
    using exp_part_split [OF ab(3)] by blast
  have "int_part (ti @ tf @ te) = Some (tf @ te)"
    using f(2) e(3) by (intro i(4)) (cases tf; auto simp: digit_def)
  moreover have "frac_part (tf @ te) = Some te"
    using e(3) by (rule f(3))
  moreover obtain sg where sg: "s = sg @ ?s" "sg = [] \<or> sg = [45]"
  proof (cases "s \<noteq> [] \<and> hd s = 45")
    case True
    then show ?thesis
      using that [of "[45]"] by (cases s) auto
  next
    case False
    then show ?thesis
      using that [of "[]"] by (cases s) auto
  qed
  moreover have "(case sg @ ti @ tf @ te of [] \<Rightarrow> [] | c # q \<Rightarrow> if c = 45 then q else sg @ ti @ tf @ te) = ti @ tf @ te"
    using sg(2) i(2,3) by (cases ti) auto
  ultimately have "number_rest (sg @ ti @ tf @ te) = Some []"
    using e(2) by (simp add: number_rest_def)
  then show ?thesis
    using sg(1) i(1) f(1) e(1) by (intro exI [of _ "sg @ ti @ tf @ te"]) (simp add: json_number_def)
qed

lemma num_lit_writable: "num_lit s = Some (v, r) \<Longrightarrow> writable v"
  using number_split [of s r] by (auto simp: num_lit_def)

lemma build_writable: "list_all (\<lambda>kv. writable (snd kv)) kvs \<Longrightarrow> writable (build_object kvs)"
proof -
  have "distinct (map fst acc) \<and> list_all (\<lambda>kv. writable (snd kv)) acc \<Longrightarrow>
      distinct (map fst (fold (\<lambda>kv. AList.update (fst kv) (snd kv)) kvs acc)) \<and>
      list_all (\<lambda>kv. writable (snd kv)) (fold (\<lambda>kv. AList.update (fst kv) (snd kv)) kvs acc)"
    if "list_all (\<lambda>kv. writable (snd kv)) kvs" for kvs acc :: "(jstr \<times> json) list"
    using that
  proof (induction kvs arbitrary: acc)
    case (Cons kv kvs)
    have "list_all (\<lambda>kv. writable (snd kv)) (AList.update k v al)"
      if "writable v" "list_all (\<lambda>kv. writable (snd kv)) al" for k :: jstr and v al
      using that by (induction al) auto
    then show ?case
      using Cons.prems Cons.IH [of "AList.update (fst kv) (snd kv) acc"] by (simp add: distinct_update)
  qed simp
  from this [of kvs "[]"] show "list_all (\<lambda>kv. writable (snd kv)) kvs \<Longrightarrow> writable (build_object kvs)"
    by (simp add: build_object_def)
qed

lemma parsed_writable:
  "pvalue n s = Some (v, r) \<Longrightarrow> writable v"
  "pelems n s = Some (vs, r) \<Longrightarrow> list_all writable vs"
  "pmembers n s = Some (kvs, r) \<Longrightarrow> list_all (\<lambda>kv. writable (snd kv)) kvs"
proof (induction n arbitrary: s v r vs kvs)
  case (Suc n)
  {
    case 1
    then show ?case
      using Suc.IH(2,3)
      by (auto simp: pvalue.simps(2) map_apfst_Some word_lit_def num_lit_writable build_writable
          split: list.splits if_splits option.splits)
  next
    case 2
    then show ?case
      using Suc.IH(1,2) by (fastforce simp: pelems.simps(2) map_apfst_Some split: option.splits)
  next
    case 3
    then show ?case
      using Suc.IH(1,3)
      by (fastforce simp: pmembers.simps(2) map_apfst_Some bind_eq_Some_conv split: option.splits)
  }
qed simp_all

lemma parse_writable: "json_parse t = Some v \<Longrightarrow> writable v"
  by (auto simp: json_parse_def parsed_writable split: option.splits if_splits)

end
