(* ===== verification/Run_Writers.thy ===== *)
theory Run_Writers
  imports Run_Repo Json_Parse
begin

text \<open>
  The other writers of the kernel's tables: companion messages, model step events and the memory status
  (packages/kernel/src/repository.ts), the tool broker's budget and its requested and completed tool calls
  (packages/kernel/src/broker.ts; its table of calls is outside the model), and the presentation of references
  (packages/kernel/src/reference_manager.ts). What the reference manager reads and writes outside the modelled
  tables (resources, snapshots, references, sets) is an argument: its result, or the error it raises.
\<close>

subsection \<open>The repository\<close>

text \<open>A companion message: its turn, position, text and time.\<close>

record companion_message =
  cm_turn :: jstr
  cm_seq :: nat
  cm_text :: jstr
  cm_createdAt :: int

definition companion_message_ok :: "companion_message \<Rightarrow> bool" where
  "companion_message_ok m \<longleftrightarrow> uuid_ok (cm_turn m) \<and> 1 \<le> cm_seq m \<and> int (cm_seq m) \<le> MAX_SAFE_INTEGER \<and>
     1 \<le> length (cm_text m) \<and> length (cm_text m) \<le> MAX_USER_TEXT_LENGTH \<and> unix_ms_ok (cm_createdAt m)"

definition companion_tx :: "jstr \<Rightarrow> jstr \<Rightarrow> jstr \<Rightarrow> int \<Rightarrow> jstr \<Rightarrow> companion_message tx" where
  "companion_tx session message timeZone now turnId db =
     (if readSession db session = None then Inl NotFound
      else rbind (freezeDecisionContext session now timeZone db) (\<lambda>frozen.
        rbind (allocateDecisionTurn session (Companion_text message) frozen now turnId db) (\<lambda>db1.
        case readTurn db1 turnId of
          None \<Rightarrow> Inl Type_error
        | Some row \<Rightarrow>
            let m = \<lparr>cm_turn = turnId, cm_seq = t_seq row, cm_text = message, cm_createdAt = t_createdAt row\<rparr> in
            if companion_message_ok m then Inr (m, db1) else Inl Validation)))"

definition postCompanionMessage ::
  "jstr \<Rightarrow> jstr \<Rightarrow> int \<Rightarrow> jstr option \<Rightarrow> jstr \<Rightarrow> db \<Rightarrow> (kerr + companion_message) \<times> db" where
  "postCompanionMessage session message now timeZone turnId db =
     (if \<not> isUuidV4 session \<or> \<not> unix_ms_ok now \<or> \<not> turn_input_ok (Companion_text message)
      then (Inl Validation, db)
      else withImmediate (companion_tx session message (default_to (js ''UTC'') timeZone) now turnId) db)"

fun is_model_step_event :: "payload_ev \<Rightarrow> bool" where
  "is_model_step_event (Model_step_started n) = True"
| "is_model_step_event (Model_step_completed n ms usage) = True"
| "is_model_step_event (Model_step_failed f) = True"
| "is_model_step_event _ = False"

text \<open>The transaction is the one of \<open>appendToolEvent\<close>.\<close>

definition appendModelStepEvent :: "jstr \<Rightarrow> payload_ev \<Rightarrow> int \<Rightarrow> db \<Rightarrow> (kerr + run_event) \<times> db" where
  "appendModelStepEvent rid payload now db =
     (if \<not> isUuidV4 rid \<or> \<not> unix_ms_ok now \<or> \<not> is_model_step_event payload then (Inl Validation, db)
      else withImmediate (tool_event_tx rid payload now) db)"

text \<open>A single statement without a transaction: it is rolled back by itself when it fails.\<close>

definition recordRunMemoryStatus :: "jstr \<Rightarrow> memory_status \<Rightarrow> db \<Rightarrow> (kerr + unit) \<times> db" where
  "recordRunMemoryStatus rid status db =
     (if \<not> isUuidV4 rid then (Inl Validation, db)
      else case update_runs (\<lambda>r. r_id r = rid) (\<lambda>r. r\<lparr>r_memoryStatus := Some status\<rparr>) db of
        Inl e \<Rightarrow> (Inl e, db)
      | Inr (changes, db1) \<Rightarrow> if changes \<noteq> 1 then (Inl NotFound, db1) else (Inr (), db1))"

subsection \<open>The tool broker\<close>

definition reserveBudget :: "nat \<Rightarrow> jstr \<Rightarrow> db \<Rightarrow> (kerr + bool) \<times> db" where
  "reserveBudget maxToolRequestsPerRun rid db =
     (case update_runs (\<lambda>r. r_id r = rid \<and> r_toolRequestsUsed r < maxToolRequestsPerRun)
         (\<lambda>r. r\<lparr>r_toolRequestsUsed := r_toolRequestsUsed r + 1\<rparr>) db of
        Inl e \<Rightarrow> (Inl e, db)
      | Inr (changes, db1) \<Rightarrow>
          if changes = 1 then (Inr True, db1)
          else if readRun db1 rid = None then (Inl NotFound, db1)
          else (Inr False, db1))"

text \<open>\<open>isRunning\<close>: \<open>getRun\<close> may raise, and then the run does not count as running.\<close>

definition isRunning :: "jstr \<Rightarrow> db \<Rightarrow> bool" where
  "isRunning rid db \<longleftrightarrow> isUuidV4 rid \<and>
     (case readRun db rid of
        None \<Rightarrow> False
      | Some row \<Rightarrow> (case parseRunRow row of Inl _ \<Rightarrow> False | Inr run \<Rightarrow> r_status run = Running))"

text \<open>
  The final commit of a tool call. Its result says whether the event was appended; the row of the call is
  outside the model. An error that is not the kernel's own becomes \<open>kernel_storage_failed\<close>.
\<close>

definition finished_tx :: "jstr \<Rightarrow> tool_completed \<Rightarrow> int \<Rightarrow> bool tx" where
  "finished_tx rid call now db =
     (case readRun db rid of
        None \<Rightarrow> Inl NotFound
      | Some row \<Rightarrow>
          if r_status row \<noteq> Running then Inr (False, db)
          else if \<not> payload_ok (Tool_completed call) then Inl Storage_failed
          else (case appendEventInTx rid (r_eventSeq row) (Tool_completed call) now db of
              Inl e \<Rightarrow> Inl (if e = Concurrent_conflict then e else Storage_failed)
            | Inr (_, db1) \<Rightarrow> Inr (True, db1)))"

definition commitFinished :: "jstr \<Rightarrow> tool_completed \<Rightarrow> int \<Rightarrow> db \<Rightarrow> (kerr + bool) \<times> db" where
  "commitFinished rid call now db =
     (if isRunning rid db then withImmediate (finished_tx rid call now) db else (Inr False, db))"

text \<open>The request of a tool call is journalled through \<open>appendToolEvent\<close> while the run is running.\<close>

definition appendRequested ::
  "jstr \<Rightarrow> jstr \<Rightarrow> int \<Rightarrow> jstr \<Rightarrow> jstr \<Rightarrow> int \<Rightarrow> db \<Rightarrow> (kerr + bool) \<times> db" where
  "appendRequested rid callId callIndex tool argsHash now db =
     (if \<not> isRunning rid db then (Inr False, db)
      else case appendToolEvent rid (Tool_requested callId callIndex tool argsHash) now db of
        (Inr _, db1) \<Rightarrow> (Inr True, db1)
      | (Inl e, db1) \<Rightarrow>
          if \<not> isRunning rid db1 then (Inr False, db1)
          else if e = Concurrent_conflict \<or> e = NotFound \<or> e = Validation then (Inl e, db1)
          else (Inl Storage_failed, db1))"

subsection \<open>The reference manager\<close>

record presented_ref =
  pf_reference :: jstr
  pf_ordinal :: int
  pf_snapshot :: jstr
  pf_resource :: jstr

definition appendPresentedInTx :: "jstr \<Rightarrow> nat \<Rightarrow> jstr \<Rightarrow> presented_ref \<Rightarrow> int \<Rightarrow> nat tx" where
  "appendPresentedInTx rid prevSeq setId entry now db =
     (let payload = Reference_presented setId (pf_reference entry) (pf_ordinal entry) (pf_snapshot entry)
        (pf_resource entry) in
      if \<not> payload_ok payload then Inl Zod_error else appendEventInTx rid prevSeq payload now db)"

text \<open>One event for each presented reference, in order.\<close>

fun present_each :: "jstr \<Rightarrow> nat \<Rightarrow> jstr \<Rightarrow> presented_ref list \<Rightarrow> int \<Rightarrow> db \<Rightarrow> kerr + db" where
  "present_each rid eventSeq setId [] now db = Inr db"
| "present_each rid eventSeq setId (entry # views) now db =
     rbind (appendPresentedInTx rid eventSeq setId entry now db) (\<lambda>(nxt, db1).
       present_each rid nxt setId views now db1)"

text \<open>
  The result of a presentation: the status of a run that is not running (none when its row is gone), or what was
  presented and the result of \<open>onApplied\<close>.
\<close>

type_synonym 'a presentation = "run_status option + (jstr option \<times> presented_ref list \<times> 'a)"

text \<open>
  The transaction that \<open>presentObservations\<close> and \<open>presentStored\<close> share. \<open>materialized\<close> is what the statements on
  the manager's own tables give: an error, nothing to present, or the new set with its references in order.
  \<open>onApplied\<close> runs last, in the same transaction.
\<close>

definition present_tx ::
  "jstr \<Rightarrow> jstr \<Rightarrow> kerr + (jstr \<times> presented_ref list) option \<Rightarrow> (presented_ref list \<Rightarrow> 'a tx) \<Rightarrow> int \<Rightarrow>
     'a presentation tx" where
  "present_tx session rid materialized onApplied now db =
     (case readRun db rid of
        None \<Rightarrow> Inl NotFound
      | Some row \<Rightarrow>
          if r_session row \<noteq> session then Inl NotFound
          else if r_status row \<noteq> Running then Inr (Inl (Some (r_status row)), db)
          else rbind (update_runs (\<lambda>r. r_id r = rid \<and> r_status r = Running) (\<lambda>r. r\<lparr>r_status := Running\<rparr>) db)
            (\<lambda>(changes, db1).
            if changes \<noteq> 1 then Inr (Inl (map_option r_status (readRun db1 rid)), db1)
            else rbind materialized (\<lambda>made.
              case made of
                None \<Rightarrow> rbind (onApplied [] db1) (\<lambda>(out, db2). Inr (Inr (None, [], out), db2))
              | Some (setId, views) \<Rightarrow>
                  rbind (present_each rid (r_eventSeq row) setId views now db1) (\<lambda>db2.
                  rbind (onApplied views db2) (\<lambda>(out, db3). Inr (Inr (Some setId, views, out), db3))))))"

text \<open>\<open>prepared\<close> is the error of the checks and normalization of the observations, before the transaction.\<close>

definition presentObservations ::
  "jstr \<Rightarrow> jstr \<Rightarrow> kerr option \<Rightarrow> kerr + (jstr \<times> presented_ref list) option \<Rightarrow>
     (presented_ref list \<Rightarrow> 'a tx) \<Rightarrow> int \<Rightarrow> db \<Rightarrow> (kerr + 'a presentation) \<times> db" where
  "presentObservations session rid prepared materialized onApplied now db =
     (if \<not> isUuidV4 session \<or> \<not> isUuidV4 rid \<or> \<not> unix_ms_ok now then (Inl Validation, db)
      else case prepared of
        Some e \<Rightarrow> (Inl e, db)
      | None \<Rightarrow> withImmediate (present_tx session rid materialized onApplied now) db)"

text \<open>An \<open>onApplied\<close> that writes none of the modelled tables: its error, if it raises one.\<close>

definition private_effects :: "(presented_ref list \<Rightarrow> kerr option) \<Rightarrow> presented_ref list \<Rightarrow> unit tx" where
  "private_effects raised views db = (case raised views of Some e \<Rightarrow> Inl e | None \<Rightarrow> Inr ((), db))"

text \<open>\<open>found\<close> looks up a reference of the session, or raises; \<open>setId\<close> is the generated id of the set.\<close>

fun find_each :: "(jstr \<Rightarrow> kerr + presented_ref) \<Rightarrow> jstr list \<Rightarrow> kerr + presented_ref list" where
  "find_each found [] = Inr []"
| "find_each found (i # ids) = rbind (found i) (\<lambda>entry. rbind (find_each found ids) (\<lambda>rest. Inr (entry # rest)))"

definition stored_references ::
  "(jstr \<Rightarrow> kerr + presented_ref) \<Rightarrow> jstr \<Rightarrow> jstr list \<Rightarrow> kerr + (jstr \<times> presented_ref list) option" where
  "stored_references found setId ids =
     (if ids = [] then Inr None
      else if \<not> distinct ids then Inl Reference_failed
      else rbind (find_each found ids) (\<lambda>views. Inr (Some (setId, views))))"

definition presentStored ::
  "jstr \<Rightarrow> jstr \<Rightarrow> jstr list \<Rightarrow> (jstr \<Rightarrow> kerr + presented_ref) \<Rightarrow> jstr \<Rightarrow> int \<Rightarrow> db \<Rightarrow>
     (kerr + unit presentation) \<times> db" where
  "presentStored session rid ids found setId now db =
     (if \<not> isUuidV4 session \<or> \<not> isUuidV4 rid \<or> \<not> unix_ms_ok now \<or> \<not> list_all isUuidV4 ids
      then (Inl Validation, db)
      else withImmediate (present_tx session rid (stored_references found setId ids)
        (private_effects (\<lambda>_. None)) now) db)"

end
