(* ===== verification/Action_Ends.thy ===== *)
theory Action_Ends
  imports Run_Writers
begin

text \<open>
  The ends of an approved write (packages/kernel/src/action_executions.ts): \<open>finishActionExecution\<close> and
  \<open>finishCreateExecution\<close>. A success is recorded only when an authoritative read-back verifies it; the fresh
  reference and the terminal commit together, in the transaction that \<open>presentObservations\<close> opens. SHA-256 is
  \<open>H\<close>, \<open>normalize("NFC")\<close> is \<open>nfc\<close>; the row of \<open>resources\<close>, the reference manager's tables and the connector's
  target store are arguments, as in Run_Writers.
\<close>

subsection \<open>The observation\<close>

record observation =
  ob_connector :: jstr
  ob_canonicalKey :: jstr
  ob_title :: "jstr option"
  ob_text :: jstr
  ob_sourceRevision :: "jstr option"
  ob_eventStatus :: jstr
  ob_observedAt :: int

definition observation_ok :: "observation \<Rightarrow> bool" where
  "observation_ok b \<longleftrightarrow> uuid_ok (ob_connector b) \<and>
     1 \<le> length (ob_canonicalKey b) \<and> length (ob_canonicalKey b) \<le> 512 \<and>
     opt_ok (\<lambda>t. length t \<le> 128) (ob_title b) \<and> length (ob_text b) \<le> 1048576 \<and>
     opt_ok source_revision_ok (ob_sourceRevision b) \<and>
     is_code [''confirmed'', ''tentative'', ''cancelled'', ''deleted''] (ob_eventStatus b) \<and>
     unix_ms_ok (ob_observedAt b)"

definition observed_key :: "(jstr \<Rightarrow> jstr) \<Rightarrow> (jstr \<Rightarrow> jstr) \<Rightarrow> observation \<Rightarrow> jstr" where
  "observed_key H nfc b = default_to (H (nfc (ob_text b))) (ob_sourceRevision b)"

subsection \<open>The verified terminal\<close>

text \<open>The receipt of a verified success, with what was observed.\<close>

definition insertVerifiedReceipt ::
  "execution_row \<Rightarrow> proposal_row \<Rightarrow> jstr option \<Rightarrow> jstr option \<Rightarrow> jstr \<Rightarrow> jstr \<Rightarrow> int \<Rightarrow> db \<Rightarrow> kerr + db" where
  "insertVerifiedReceipt execution proposal preflightRevision preflightSnapshotId observed snapshot now db =
     insert_receipt \<lparr>rc_execution = x_id execution, rc_session = x_sessionId execution,
       rc_proposal = p_id proposal, rc_proposalHash = p_hash proposal, rc_outcome = Rcp_succeeded,
       rc_preflightRevision = preflightRevision, rc_preflightSnapshot = preflightSnapshotId,
       rc_observedRevision = Some observed, rc_resultSnapshot = Some snapshot,
       rc_summary = p_preview proposal, rc_createdAt = now\<rparr> db"

definition verified_answer :: "proposal_row \<Rightarrow> int \<Rightarrow> structured_answer" where
  "verified_answer proposal ordinal =
     [\<lparr>ap_text = actionRunResultText Rcp_succeeded proposal, ap_citations = [114 # dec (nat ordinal)]\<rparr>]"

text \<open>The end itself: the \<open>onApplied\<close> of the presentation. \<open>put\<close> is the target store's write of a create.\<close>

definition commit_verified ::
  "jstr \<Rightarrow> run_row \<Rightarrow> kerr + unit \<Rightarrow> jstr option \<Rightarrow> jstr option \<Rightarrow> jstr \<Rightarrow> int \<Rightarrow> presented_ref list \<Rightarrow>
     (jstr \<times> nat) tx" where
  "commit_verified rid run put preflightRevision preflightSnapshotId observed now presented db =
     (case presented of
        [fresh] \<Rightarrow>
          rbind put (\<lambda>_.
          rbind (assertExecutingStage rid db) (\<lambda>(execution, proposal).
          rbind (update_executions
              (\<lambda>x. x_id x = x_id execution \<and> x_status x = Ex_executing \<and> x_callStartedAt x \<noteq> None \<and>
                   x_finishedAt x = None)
              (\<lambda>x. x\<lparr>x_status := Ex_succeeded, x_finishedAt := Some now, x_executionUpdatedAt := now\<rparr>) db)
            (\<lambda>(changes, db1).
          if changes \<noteq> 1 then Inl Database_state_invalid
          else rbind (insertVerifiedReceipt execution proposal preflightRevision preflightSnapshotId observed
                  (pf_snapshot fresh) now db1) (\<lambda>db2.
          rbind (case readRun db2 rid of None \<Rightarrow> Inl Type_error | Some current \<Rightarrow> Inr current) (\<lambda>current.
          rbind (appendEventInTx rid (r_eventSeq current)
              (Action_execution_finished (x_id execution) Rcp_succeeded) now db2) (\<lambda>(sq, db3).
          case buildRunResultV2 (verified_answer proposal (pf_ordinal fresh)) None of
            None \<Rightarrow> Inl Zod_error
          | Some runResult \<Rightarrow>
              rbind (one_row (update_runs (\<lambda>r. r_id r = rid \<and> r_status r = Running)
                  (\<lambda>r. r\<lparr>r_status := Completed, r_result := Some runResult, r_errorCode := None,
                         r_finishedAt := Some now\<rparr>) db3)) (\<lambda>db4.
              rbind (appendEventInTx rid sq (Run_completed runResult) now db4) (\<lambda>(eventSeq, db5).
              rbind (select_run run now db5) (\<lambda>db6.
                Inr ((x_id execution, eventSeq), db6))))))))))
      | _ \<Rightarrow> Inl Database_state_invalid)"

text \<open>What the boundaries return of the presentation.\<close>

definition verified_result ::
  "(kerr + (jstr \<times> nat) presentation) \<times> db \<Rightarrow> (kerr + terminal_result) \<times> db" where
  "verified_result out =
     (case out of
        (Inl e, db) \<Rightarrow> (Inl e, db)
      | (Inr (Inl _), db) \<Rightarrow> (Inr (Inl Run_not_running), db)
      | (Inr (Inr (_, _, committed)), db) \<Rightarrow> (Inr (Inr committed), db))"

text \<open>
  The services a boundary is composed with: the canonical key that a resource of a connector is stored under, the
  reference manager (the error of its checks, and what it materializes), and the target store of created events.
\<close>

record finish_ports =
  fp_resourceKey :: "jstr option \<Rightarrow> jstr \<Rightarrow> jstr option"
  fp_hasReferences :: bool
  fp_prepared :: "kerr option"
  fp_materialized :: "kerr + (jstr \<times> presented_ref list) option"
  fp_put :: "(jstr \<Rightarrow> jstr \<Rightarrow> jstr \<Rightarrow> jstr option \<Rightarrow> kerr + unit) option"

text \<open>The proposal of the run's execution is a create.\<close>

definition creates_event :: "jstr \<Rightarrow> db \<Rightarrow> bool" where
  "creates_event rid db =
     (case readExecutionByRun db rid of
        None \<Rightarrow> False
      | Some early \<Rightarrow>
          (case readProposal db (x_proposal early) of
             None \<Rightarrow> False
           | Some proposal \<Rightarrow> p_tool proposal = js ''calendar.create''))"

definition finishVerifiedTerminal ::
  "(jstr \<Rightarrow> jstr) \<Rightarrow> (jstr \<Rightarrow> jstr) \<Rightarrow> finish_ports \<Rightarrow> jstr \<Rightarrow> observation \<Rightarrow> jstr option \<Rightarrow> jstr option \<Rightarrow>
     int \<Rightarrow> db \<Rightarrow> (kerr + terminal_result) \<times> db" where
  "finishVerifiedTerminal H nfc ports rid b preflightRevision preflightSnapshotId now db =
     (if creates_event rid db then (Inl Database_state_invalid, db)
      else if \<not> observation_ok b then (Inl Validation, db)
      else case assertActionRun rid db of
        Inl e \<Rightarrow> (Inl e, db)
      | Inr run \<Rightarrow>
          if r_status run \<noteq> Running then (Inr (Inl Run_not_running), db)
          else (case assertExecutingStage rid db of
            Inl e \<Rightarrow> (Inl e, db)
          | Inr (execution, proposal) \<Rightarrow>
              (case fp_resourceKey ports (p_targetResource proposal) (p_connector proposal) of
                 None \<Rightarrow> (Inl Database_state_invalid, db)
               | Some key \<Rightarrow>
                   if ob_connector b \<noteq> p_connector proposal \<or> ob_canonicalKey b \<noteq> key then (Inl Validation, db)
                   else if ob_eventStatus b = js ''deleted''
                   then finishPlainTerminal rid Plain_unverified preflightRevision preflightSnapshotId now db
                   else if \<not> fp_hasReferences ports then (Inl Validation, db)
                   else verified_result (presentObservations (r_session run) rid (fp_prepared ports)
                     (fp_materialized ports)
                     (commit_verified rid run (Inr ()) preflightRevision preflightSnapshotId
                       (observed_key H nfc b) now) now db))))"

text \<open>The classified result of a write, and its terminal.\<close>

datatype finish_request = Fin_verified observation | Fin_plain plain_outcome

definition finishActionExecution ::
  "(jstr \<Rightarrow> jstr) \<Rightarrow> (jstr \<Rightarrow> jstr) \<Rightarrow> finish_ports \<Rightarrow> jstr \<Rightarrow> finish_request \<Rightarrow> jstr option \<Rightarrow> jstr option \<Rightarrow>
     int \<Rightarrow> db \<Rightarrow> (kerr + terminal_result) \<times> db" where
  "finishActionExecution H nfc ports rid request preflightRevision preflightSnapshotId now db =
     (if \<not> action_id_ok rid then (Inl Validation, db)
      else case request of
        Fin_verified b \<Rightarrow>
          finishVerifiedTerminal H nfc ports rid b preflightRevision preflightSnapshotId now db
      | Fin_plain outcome \<Rightarrow> finishPlainTerminal rid outcome preflightRevision preflightSnapshotId now db)"

subsection \<open>Creates\<close>

definition deriveCreateEventId :: "jstr \<Rightarrow> kerr + jstr" where
  "deriveCreateEventId executionId =
     (if \<not> uuid_ok executionId then Inl Zod_error
      else let i = filter (\<lambda>u. u \<noteq> 45) (lower_ascii executionId) in
        if 5 \<le> length i \<and> length i \<le> 1024 \<and> list_all (\<lambda>u. 97 \<le> u \<and> u \<le> 118 \<or> 48 \<le> u \<and> u \<le> 57) i
        then Inr i else Inl Zod_error)"

definition expectedCreateCanonicalKey :: "(jstr \<Rightarrow> jstr) \<Rightarrow> jstr \<Rightarrow> jstr \<Rightarrow> jstr \<Rightarrow> jstr" where
  "expectedCreateCanonicalKey H connectorInstanceId calendarId stableEventId =
     js ''calendar:'' @ H (stringify (JArr [JStr connectorInstanceId, JStr calendarId, JStr stableEventId]))"

text \<open>The observed event body, when its text parses to an object.\<close>

definition event_body :: "jstr \<Rightarrow> json option" where
  "event_body t = (case json_parse t of None \<Rightarrow> None | Some v \<Rightarrow> if is_object v then Some v else None)"

definition createBodyIsTimed :: "jstr \<Rightarrow> bool" where
  "createBodyIsTimed t =
     (case event_body t of None \<Rightarrow> False | Some body \<Rightarrow> property body ''allDayEndExclusive'' = JBool False)"

definition authoritativeCreateTitleMatches :: "(jstr \<Rightarrow> jstr) \<Rightarrow> jstr \<Rightarrow> jstr \<Rightarrow> bool" where
  "authoritativeCreateTitleMatches nfc t intendedTitleNfc =
     (case event_body t of
        None \<Rightarrow> False
      | Some body \<Rightarrow>
          (case as_string (property body ''title'') of None \<Rightarrow> False | Some title \<Rightarrow> nfc title = intendedTitleNfc))"

text \<open>\<open>createStrictInstantMs\<close>: the grammar of the strict instants, with a fraction of any length truncated.\<close>

definition createStrictInstantMs :: "jstr \<Rightarrow> int option" where
  "createStrictInstantMs value =
     (let year = num_at 0 4 value; month = num_at 5 2 value; day = num_at 8 2 value;
          hour = num_at 11 2 value; minute = num_at 14 2 value; second = num_at 17 2 value in
      case match_seconds value of
        Some (fraction, zone) \<Rightarrow>
          if month < 1 \<or> month > 12 then None
          else if day < 1 \<or> day > daysInStrictMonth year month then None
          else if hour > 23 \<or> minute > 59 \<or> second > 59 then None
          else let millis = (case fraction of Some ds \<Rightarrow> frac_ms ds | None \<Rightarrow> 0) in
            map_option (\<lambda>offsetMs. strictUtcMs year month day hour minute second millis - offsetMs)
              (zone_offset zone)
      | None \<Rightarrow>
          (case match_minutes value of
             None \<Rightarrow> None
           | Some zone \<Rightarrow>
               if month < 1 \<or> month > 12 then None
               else if day < 1 \<or> day > daysInStrictMonth year month then None
               else if hour > 23 \<or> minute > 59 then None
               else map_option (\<lambda>offsetMs. strictUtcMs year month day hour minute 0 0 - offsetMs)
                 (zone_offset zone)))"

definition createBoundariesMatch :: "jstr \<Rightarrow> jstr \<Rightarrow> jstr \<Rightarrow> bool" where
  "createBoundariesMatch t start till =
     (case event_body t of
        None \<Rightarrow> False
      | Some body \<Rightarrow>
          (case (as_string (property body ''start''), as_string (property body ''end'')) of
             (Some s, Some e) \<Rightarrow>
               if s = start \<and> e = till then True
               else (case (createStrictInstantMs s, createStrictInstantMs e, createStrictInstantMs start,
                        createStrictInstantMs till) of
                 (Some os, Some oe, Some is, Some ie) \<Rightarrow> os = is \<and> oe = ie
               | _ \<Rightarrow> False)
           | _ \<Rightarrow> False))"

definition finishCreateVerifiedTerminal ::
  "(jstr \<Rightarrow> jstr) \<Rightarrow> (jstr \<Rightarrow> jstr) \<Rightarrow> finish_ports \<Rightarrow> jstr \<Rightarrow> observation \<Rightarrow> jstr \<Rightarrow> jstr option \<Rightarrow> jstr \<Rightarrow> int \<Rightarrow>
     db \<Rightarrow> (kerr + terminal_result) \<times> db" where
  "finishCreateVerifiedTerminal H nfc ports rid b calendarId account stableEventId now db =
     (if \<not> observation_ok b then (Inl Validation, db)
      else case assertActionRun rid db of
        Inl e \<Rightarrow> (Inl e, db)
      | Inr run \<Rightarrow>
          if r_status run \<noteq> Running then (Inr (Inl Run_not_running), db)
          else (case assertExecutingStage rid db of
            Inl e \<Rightarrow> (Inl e, db)
          | Inr (execution, proposal) \<Rightarrow>
              if p_tool proposal \<noteq> js ''calendar.create'' then (Inl Database_state_invalid, db)
              else if p_targetResource proposal \<noteq> None \<or> p_targetRef proposal \<noteq> None \<or>
                      p_snapshot proposal \<noteq> None \<or> p_revision proposal \<noteq> None
              then (Inl Database_state_invalid, db)
              else (case deriveCreateEventId (x_id execution) of
                Inl e \<Rightarrow> (Inl e, db)
              | Inr derived \<Rightarrow>
                  if stableEventId \<noteq> derived then (Inl Validation, db)
                  else if ob_connector b \<noteq> p_connector proposal \<or>
                          ob_canonicalKey b \<noteq> expectedCreateCanonicalKey H (p_connector proposal) calendarId stableEventId
                  then (Inl Validation, db)
                  else if ob_eventStatus b = js ''deleted''
                  then finishPlainTerminal rid Plain_unverified None None now db
                  else (case proposed_input proposal of
                    Inr (Create_input title start till) \<Rightarrow>
                      if \<not> createBodyIsTimed (ob_text b) \<or>
                         \<not> authoritativeCreateTitleMatches nfc (ob_text b) (nfc title) \<or>
                         \<not> createBoundariesMatch (ob_text b) start till
                      then finishPlainTerminal rid Plain_unverified None None now db
                      else if \<not> fp_hasReferences ports then (Inl Validation, db)
                      else (case fp_put ports of
                        None \<Rightarrow> (Inl Validation, db)
                      | Some put \<Rightarrow>
                          verified_result (presentObservations (r_session run) rid (fp_prepared ports)
                            (fp_materialized ports)
                            (commit_verified rid run (put (ob_canonicalKey b) calendarId stableEventId account)
                              None None (observed_key H nfc b) now) now db))
                  | _ \<Rightarrow> (Inl Zod_error, db)))))"

text \<open>A create finishes with an observation of the calendar's event, or plainly.\<close>

datatype create_request = Cre_verified observation jstr "jstr option" jstr | Cre_plain plain_outcome

definition finishCreateExecution ::
  "(jstr \<Rightarrow> jstr) \<Rightarrow> (jstr \<Rightarrow> jstr) \<Rightarrow> finish_ports \<Rightarrow> jstr \<Rightarrow> create_request \<Rightarrow> int \<Rightarrow> db \<Rightarrow>
     (kerr + terminal_result) \<times> db" where
  "finishCreateExecution H nfc ports rid request now db =
     (if \<not> action_id_ok rid then (Inl Validation, db)
      else case request of
        Cre_plain outcome \<Rightarrow> finishPlainTerminal rid outcome None None now db
      | Cre_verified b calendarId account stableEventId \<Rightarrow>
          finishCreateVerifiedTerminal H nfc ports rid b calendarId account stableEventId now db)"

end
