(* ===== verification/Writer_Steps.thy ===== *)
theory Writer_Steps
  imports Recovery Action_Ends
begin

text \<open>
  The other writers keep the invariants: an event that does not change the status of a run, the two columns that
  are written whatever the status, companion turns, presentations, and the verified end of a write.
\<close>

subsection \<open>Events that keep the status\<close>

definition quiet :: "payload_ev \<Rightarrow> bool" where
  "quiet pl \<longleftrightarrow> is_tool_event pl \<or> is_model_step_event pl \<or> (\<exists>s r n i q. pl = Reference_presented s r n i q)"

lemma quiet_status: "quiet pl \<Longrightarrow> \<not> isTerminalStatus s \<Longrightarrow> status_after m5 s pl = Some s"
  by (cases pl) (auto simp: quiet_def status_after_def)

lemma quiet_append:
  assumes "kernel_ok H db" "readRun db rid = Some row" "\<not> isTerminalStatus (r_status row)" "quiet pl"
    "appendEventInTx rid (r_eventSeq row) pl now db = Inr (n, db')"
  shows "preserved H db db'" "n = r_eventSeq (next_seq row)" "readRun db' rid = Some (next_seq row)"
proof -
  have w: "wf_db db" "act_ok H db" using assms(1) by (simp_all add: kernel_ok_def)
  have r: "row \<in> set (runs db)" "rid = r_id row"
    using readRun_in [OF assms(2)] by auto
  have ok: "payload_ok pl"
    using assms(5) by (auto simp: appendEventInTx_def split: if_splits)
  note d = during_start [OF w(1) r(1)]
  have db': "n = Suc (r_eventSeq row)" "db' = with_run (next_seq row) [appended row pl now] db"
    using assms(5) during_appendEvent [OF d ok refl refl, of now] wf_start [OF w(1) r(1)] r(2) by simp_all
  have e: "during db row (next_seq row) [appended row pl now] (r_status (next_seq row))"
    using during_append [OF d ok quiet_status [OF assms(4,3)], of now] by simp
  have "kept db db'"
    unfolding db' using e result_of [OF w(1) r(1)] assms(3) by (intro during_kept [OF w(1)]) simp_all
  moreover have "act_ok H db'"
    unfolding db' by (rule act_with_run [OF w r(1)]) (simp_all add: run_moves_def)
  ultimately show "preserved H db db'"
    by (rule preserved_kept)
  show "n = r_eventSeq (next_seq row)"
    using db'(1) by simp
  show "readRun db' rid = Some (next_seq row)"
    unfolding db' using during_readRun [OF e r(2)] .
qed

lemma event_tx_preserved:
  assumes "kernel_ok H db" "quiet pl" "tool_event_tx rid pl now db = Inr (v, db')"
  shows "preserved H db db'"
proof -
  obtain row n where "readRun db rid = Some row" "\<not> isTerminalStatus (r_status row)"
    "appendEventInTx rid (r_eventSeq row) pl now db = Inr (n, db')"
    using assms(3) by (auto simp: tool_event_tx_def rbind_eq_Inr split: option.splits if_splits)
  then show ?thesis
    using quiet_append(1) [OF assms(1) _ _ assms(2)] by blast
qed

lemma finished_tx_preserved:
  assumes "kernel_ok H db" "finished_tx rid call now db = Inr (v, db')"
  shows "preserved H db db'"
proof (cases "db' = db")
  case True
  then show ?thesis using preserved_refl [OF assms(1)] by simp
next
  case False
  then obtain row n where row: "readRun db rid = Some row" "r_status row = Running"
    "appendEventInTx rid (r_eventSeq row) (Tool_completed call) now db = Inr (n, db')"
    using assms(2) by (auto simp: finished_tx_def simp del: payload_ok.simps split: option.splits if_splits sum.splits)
  show ?thesis
    by (rule quiet_append(1) [OF assms(1) row(1) _ _ row(3)]) (simp_all add: row(2) quiet_def)
qed

subsection \<open>The columns that stay open\<close>

lemma kept_columns:
  assumes "kernel_ok H db" "row \<in> set (runs db)" "frozen_columns row' = frozen_columns row"
  shows "preserved H db (with_run row' [] db)"
proof (rule preserved_kept)
  have w: "wf_db db" "act_ok H db" using assms(1) by (simp_all add: kernel_ok_def)
  show "kept db (with_run row' [] db)"
    by (rule kept_moved [OF w(1) moved_columns [OF w(1) assms(2,3)]])
  show "act_ok H (with_run row' [] db)"
    using frozen_columns_sel [OF assms(3)] by (intro act_with_run [OF w assms(2)]) (simp_all add: run_moves_def)
qed

text \<open>An update by id, with any further guard, of those columns.\<close>

lemma update_columns_preserved:
  assumes "kernel_ok H db" "\<And>r. frozen_columns (f r) = frozen_columns r"
    "update_runs (\<lambda>r. r_id r = rid \<and> G r) f db = Inr (n, db')"
  shows "preserved H db db'"
proof (cases "\<exists>row \<in> set (runs db). r_id row = rid \<and> G row")
  case False
  then have "upd_where (\<lambda>r. r_id r = rid \<and> G r) f (runs db) = runs db"
    unfolding upd_where_def by (intro map_idI) auto
  then have "db' = db"
    using assms(3) by (auto simp: update_runs_def Let_def split: if_splits)
  then show ?thesis
    using preserved_refl [OF assms(1)] by simp
next
  case True
  then obtain row where row: "row \<in> set (runs db)" "r_id row = rid" "G row" by blast
  have w: "wf_db db" using assms(1) by (simp add: kernel_ok_def)
  have m: "moved db (f row) []"
    by (rule moved_columns [OF w row(1) assms(2)])
  have o: "opened (runs db) (events db) (f row) []"
    using m by (simp add: moved_def)
  have "update_runs (\<lambda>r. r_id r = rid \<and> G r) f (with_run row [] db) = Inr (1, with_run (f row) [] db)"
    using row frozen_columns_sel(1) [OF assms(2)]
    by (intro update_runs_opened [where g = G and f = f, OF wf_opened [OF w row(1)] _ row(3) o]) simp_all
  then have "db' = with_run (f row) [] db"
    using assms(3) wf_start [OF w row(1)] by simp
  then show ?thesis
    using kept_columns [OF assms(1) row(1) assms(2)] by simp
qed

lemma memory_status_preserved:
  assumes "kernel_ok H db"
  shows "preserved H db (snd (recordRunMemoryStatus rid status db))"
  using preserved_refl [OF assms] update_columns_preserved [OF assms, where G = "\<lambda>_. True" and
      f = "\<lambda>r. r\<lparr>r_memoryStatus := Some status\<rparr>"]
  by (auto simp: recordRunMemoryStatus_def frozen_columns_def split: sum.splits)

lemma budget_preserved:
  assumes "kernel_ok H db"
  shows "preserved H db (snd (reserveBudget cap rid db))"
  using preserved_refl [OF assms] update_columns_preserved [OF assms, where
      f = "\<lambda>r. r\<lparr>r_toolRequestsUsed := r_toolRequestsUsed r + 1\<rparr>"]
  by (auto simp: reserveBudget_def frozen_columns_def split: sum.splits)

subsection \<open>Companion messages\<close>

lemma companion_preserved:
  assumes "kernel_ok H db" "turn_input_ok (Companion_text message)"
    "companion_tx session message tz now turnId db = Inr (m, db')"
  shows "preserved H db db'"
proof -
  have w: "wf_db db" "act_ok H db" using assms(1) by (simp_all add: kernel_ok_def)
  obtain s frozen where s: "readSession db session = Some s" and
    c: "freezeDecisionContext session now tz db = Inr frozen"
    "allocateDecisionTurn session (Companion_text message) frozen now turnId db = Inr db'"
    using assms(3) by (auto simp: companion_tx_def rbind_eq_Inr Let_def split: if_splits option.splits)
  have "kept db db'"
    by (rule allocateDecisionTurn_kept [OF w(1) s assms(2) freeze_ok [OF c(1)] c(2)])
  moreover have "act_ok H db'"
    using allocateDecisionTurn_shape(1) [OF w(1) s c(2)] by (auto intro: act_tables [OF w(2)])
  ultimately show ?thesis
    by (rule preserved_kept)
qed

subsection \<open>Presentations\<close>

lemma present_each_preserved:
  "kernel_ok H db \<Longrightarrow> readRun db rid = Some row \<Longrightarrow> \<not> isTerminalStatus (r_status row) \<Longrightarrow>
     present_each rid (r_eventSeq row) setId refs now db = Inr db' \<Longrightarrow>
     preserved H db db' \<and> (\<exists>row'. readRun db' rid = Some row' \<and> r_turn row' = r_turn row)"
proof (induction refs arbitrary: db row)
  case Nil
  then show ?case by (simp add: preserved_refl)
next
  case (Cons entry refs)
  let ?pl = "Reference_presented setId (pf_reference entry) (pf_ordinal entry) (pf_snapshot entry) (pf_resource entry)"
  obtain n db1 where a: "appendEventInTx rid (r_eventSeq row) ?pl now db = Inr (n, db1)"
    and rest: "present_each rid n setId refs now db1 = Inr db'"
    using Cons.prems(4) by (auto simp: appendPresentedInTx_def Let_def rbind_eq_Inr split: if_splits)
  have pl: "quiet ?pl"
    by (simp add: quiet_def)
  note q = quiet_append [OF Cons.prems(1-3) pl a]
  have "preserved H db1 db' \<and> (\<exists>row'. readRun db' rid = Some row' \<and> r_turn row' = r_turn (next_seq row))"
    using Cons.IH [OF preserved_ok [OF q(1)] q(3)] Cons.prems(3) rest q(2) by simp
  then show ?case
    using preserved_trans [OF q(1)] by auto
qed

text \<open>A presentation does what its references and its \<open>onApplied\<close> do.\<close>

lemma present_tx_preserved:
  assumes "kernel_ok H db" "present_tx session rid materialized onApplied now db = Inr (v, db')"
    and tail: "\<And>refs D row out D'. kernel_ok H D \<Longrightarrow> readRun D rid = Some row \<Longrightarrow>
      (\<exists>r0. readRun db rid = Some r0 \<and> r_turn row = r_turn r0) \<Longrightarrow>
      onApplied refs D = Inr (out, D') \<Longrightarrow> preserved H D D'"
  shows "preserved H db db'"
proof (cases "db' = db")
  case True
  then show ?thesis using preserved_refl [OF assms(1)] by simp
next
  case False
  have w: "wf_db db" using assms(1) by (simp add: kernel_ok_def)
  obtain row where row: "readRun db rid = Some row" "r_session row = session" "r_status row = Running"
    using assms(2) False by (auto simp: present_tx_def split: option.splits if_splits)
  have r: "row \<in> set (runs db)" "rid = r_id row"
    using readRun_in [OF row(1)] by auto
  have same: "row\<lparr>r_status := Running\<rparr> = row"
    using row(3) by simp
  have o: "opened (runs db) (events db) (row\<lparr>r_status := Running\<rparr>) []"
    unfolding same by (rule wf_opened [OF w r(1)])
  have "update_runs (\<lambda>r. r_id r = rid \<and> r_status r = Running) (\<lambda>r. r\<lparr>r_status := Running\<rparr>) (with_run row [] db) =
      Inr (1, with_run (row\<lparr>r_status := Running\<rparr>) [] db)"
    using r(2) by (intro update_runs_opened [where g = "\<lambda>r. r_status r = Running" and f = "\<lambda>r. r\<lparr>r_status := Running\<rparr>",
        OF wf_opened [OF w r(1)] _ row(3) o]) simp_all
  then have "update_runs (\<lambda>r. r_id r = rid \<and> r_status r = Running) (\<lambda>r. r\<lparr>r_status := Running\<rparr>) db = Inr (1, db)"
    unfolding same wf_start [OF w r(1)] .
  then obtain refs D out where D: "D = db \<or> (\<exists>setId. present_each rid (r_eventSeq row) setId refs now db = Inr D)"
    and t: "onApplied refs D = Inr (out, db')"
    using assms(2) row by (auto simp: present_tx_def rbind_eq_Inr split: option.splits; blast)
  have "preserved H db D \<and> (\<exists>row'. readRun D rid = Some row' \<and> r_turn row' = r_turn row)"
    using D
  proof
    assume "D = db"
    then show ?thesis using preserved_refl [OF assms(1)] row(1) by simp
  next
    assume "\<exists>setId. present_each rid (r_eventSeq row) setId refs now db = Inr D"
    then show ?thesis using present_each_preserved [OF assms(1) row(1)] row(3) by auto
  qed
  then obtain row' where p: "preserved H db D" "readRun D rid = Some row'" "r_turn row' = r_turn row" by blast
  have "preserved H D db'"
    using tail [OF preserved_ok [OF p(1)] p(2) _ t] row(1) p(3) by simp
  then show ?thesis
    by (rule preserved_trans [OF p(1)])
qed

lemma private_preserved: "kernel_ok H D \<Longrightarrow> private_effects raised refs D = Inr (out, D') \<Longrightarrow> preserved H D D'"
  by (auto simp: private_effects_def preserved_refl split: option.splits)

subsection \<open>The verified end of a write\<close>

definition verified_execution :: "int \<Rightarrow> execution_row \<Rightarrow> execution_row" where
  "verified_execution now x = x\<lparr>x_status := Ex_succeeded, x_finishedAt := Some now, x_executionUpdatedAt := now\<rparr>"

definition verified_run :: "run_result \<Rightarrow> int \<Rightarrow> run_row \<Rightarrow> run_row" where
  "verified_run res now r =
     r\<lparr>r_status := Completed, r_result := Some res, r_errorCode := None, r_finishedAt := Some now\<rparr>"

lemma verified_folds:
  "(\<lambda>x. x\<lparr>x_status := Ex_succeeded, x_finishedAt := Some now, x_executionUpdatedAt := now\<rparr>) = verified_execution now"
  "(\<lambda>r. r\<lparr>r_status := Completed, r_result := Some res, r_errorCode := None, r_finishedAt := Some now\<rparr>) =
     verified_run res now"
  by (simp_all add: verified_execution_def verified_run_def fun_eq_iff)

definition verified_receipt ::
  "execution_row \<Rightarrow> proposal_row \<Rightarrow> jstr option \<Rightarrow> jstr option \<Rightarrow> jstr \<Rightarrow> jstr \<Rightarrow> int \<Rightarrow> receipt_row" where
  "verified_receipt x p prv psnap observed snap now =
     \<lparr>rc_execution = x_id x, rc_session = x_sessionId x, rc_proposal = p_id p, rc_proposalHash = p_hash p,
      rc_outcome = Rcp_succeeded, rc_preflightRevision = prv, rc_preflightSnapshot = psnap,
      rc_observedRevision = Some observed, rc_resultSnapshot = Some snap, rc_summary = p_preview p, rc_createdAt = now\<rparr>"

lemma insertVerifiedReceipt_shape:
  "insertVerifiedReceipt x p prv psnap observed snap now db = Inr db' \<Longrightarrow>
     db' = db\<lparr>receipts := receipts db @ [verified_receipt x p prv psnap observed snap now]\<rparr>"
  by (auto simp: insertVerifiedReceipt_def insert_receipt_def verified_receipt_def split: if_splits)

lemma built_ok: "buildRunResultV2 answer v = Some res \<Longrightarrow> run_result_ok res"
  by (auto simp: buildRunResultV2_def run_result_ok_def Let_def split: if_splits)

text \<open>The store after it, before the selection.\<close>

definition verified_db ::
  "run_row \<Rightarrow> execution_row \<Rightarrow> grant_row \<Rightarrow> run_result \<Rightarrow> receipt_row \<Rightarrow> int \<Rightarrow> db \<Rightarrow> db" where
  "verified_db r x g res rc now db =
     acted (end_row (verified_run res now) r)
       (end_events (verified_run res now) (Action_execution_finished (x_id x) Rcp_succeeded) (Run_completed res) r now)
       (verified_execution now x) g [rc] db"

lemma commit_verified_cases:
  assumes "kernel_ok H db" "readRun db rid = Some r"
    "commit_verified rid run put prv psnap observed now refs db = Inr ((eid, sq), db')"
  obtains fresh x p g res where "refs = [fresh]" "pair H db r x p g" "r_id r = rid" "r_status r = Running"
    "x_status x = Ex_executing" "eid = x_id x" "sq = r_eventSeq r + 2" "run_result_ok res"
    "buildRunResultV2 (verified_answer p (pf_ordinal fresh)) None = Some res"
    "select_run run now
       (verified_db r x g res (verified_receipt x p prv psnap observed (pf_snapshot fresh) now) now db) = Inr db'"
    "kept db (verified_db r x g res (verified_receipt x p prv psnap observed (pf_snapshot fresh) now) now db)"
    "act_ok H (verified_db r x g res (verified_receipt x p prv psnap observed (pf_snapshot fresh) now) now db)"
proof -
  let ?P = "\<lambda>x y. x_id y = x_id x \<and> x_status y = Ex_executing \<and> x_callStartedAt y \<noteq> None \<and> x_finishedAt y = None"
  obtain fresh where refs: "refs = [fresh]"
    using assms(3) by (auto simp: commit_verified_def split: list.splits)
  obtain x p db1 db2 current s3 db3 res db4 db5 where
    st: "assertExecutingStage rid db = Inr (x, p)" and
    u: "update_executions (?P x) (verified_execution now) db = Inr (1, db1)" and
    rcp: "insertVerifiedReceipt x p prv psnap observed (pf_snapshot fresh) now db1 = Inr db2" and
    cur: "readRun db2 rid = Some current" and
    a1: "appendEventInTx rid (r_eventSeq current) (Action_execution_finished (x_id x) Rcp_succeeded) now db2 = Inr (s3, db3)" and
    res: "buildRunResultV2 (verified_answer p (pf_ordinal fresh)) None = Some res" and
    ur: "update_runs (\<lambda>r. r_id r = rid \<and> r_status r = Running) (verified_run res now) db3 = Inr (1, db4)" and
    a2: "appendEventInTx rid s3 (Run_completed res) now db4 = Inr (sq, db5)" and
    sel: "select_run run now db5 = Inr db'" "eid = x_id x"
    using assms(3) unfolding commit_verified_def refs verified_folds
    by (auto simp: rbind_eq_Inr guard_Inr one_row_Inr split: option.splits if_splits)
  have c: "readExecutionByRun db rid = Some x" "x_status x = Ex_executing" "x_callStartedAt x \<noteq> None"
    "x_finishedAt x = None" "readProposal db (x_proposal x) = Some p"
    using st by (auto simp: assertExecutingStage_def split: option.splits if_splits)
  obtain p' g where pr: "pair H db r x p' g" "r_id r = rid"
    using pair_of_execution [OF assms(1,2) c(1)] .
  have pp: "p' = p"
    using pair_reads(3) [OF pr(1)] c(5) by simp
  note pd = pair_distinct [OF pr(1)]
  have run: "r_status r = Running"
    using pr(1) c(2) by (cases "r_status r") (auto simp: pair_def status_pair_def)
  have check: "execution_check (verified_execution now x)"
    using update_executions_check [OF u pd(3)] c(2-4) by simp
  then have mv: "execution_moves x (verified_execution now x)"
    by (simp add: execution_moves_def verified_execution_def)
  have db1: "db1 = db\<lparr>executions := put_row x_id (verified_execution now x) (executions db)\<rparr>"
    using u update_executions_row [where x = x and q = "?P x" and f = "verified_execution now" and
        h = "\<lambda>y. x_status y = Ex_executing \<and> x_callStartedAt y \<noteq> None \<and> x_finishedAt y = None", OF pd(1,3)] c(2-4) check
    by (simp add: verified_execution_def)
  let ?rc = "verified_receipt x p prv psnap observed (pf_snapshot fresh) now"
  have db2: "db2 = db\<lparr>executions := put_row x_id (verified_execution now x) (executions db), receipts := receipts db @ [?rc]\<rparr>"
    using insertVerifiedReceipt_shape [OF rcp] db1 by simp
  have cr: "current = r"
    using cur assms(2) by (simp add: db2 readRun_def)
  note rok = built_ok [OF res]
  have w: "rewritten (next_seq r) (verified_run res now (next_seq r))"
    using run_check_of [OF pd(6,5)] run
    by (simp add: rewritten_def verified_run_def run_check_def active_row_def next_seq_def)
  have pre: "runs db2 = runs db" "events db2 = events db" "payload_ok (Action_execution_finished (x_id x) Rcp_succeeded)"
    "status_after (is_m5 r) Running (Action_execution_finished (x_id x) Rcp_succeeded) = Some Running"
    "payload_ok (Run_completed res)"
    "status_after (is_m5 r) Running (Run_completed res) = Some (r_status (verified_run res now (next_seq r)))"
    using pd(8) rok by (simp_all add: db2 status_after_def verified_run_def)
  note e = ending [where db = db and ?db1.0 = db2 and r = r and s = Running and f = "verified_run res now" and
      ?pl1.0 = "Action_execution_finished (x_id x) Rcp_succeeded" and ?pl2.0 = "Run_completed res" and
      P = "\<lambda>q. r_id q = r_id r \<and> r_status q = Running" and G = "\<lambda>q. r_status q = Running" and now = now,
      OF pd(6,5) pre(1,2) run pre(3,4,5) w pre(6) refl]
  have nr: "r_status (next_seq r) = Running"
    using run by simp
  let ?D = "verified_db r x g res ?rc now db"
  have D: "?D = with_run (end_row (verified_run res now) r)
      (end_events (verified_run res now) (Action_execution_finished (x_id x) Rcp_succeeded) (Run_completed res) r now) db2"
    unfolding verified_db_def db2 by (rule closed_store [OF pr(1), symmetric])
  have 5: "db5 = ?D" "sq = r_eventSeq r + 2"
    using a1 ur a2 e(1-3) [OF nr] pr(2) unfolding cr D by simp_all
  have ids: "r_status (verified_run res now (next_seq r)) = r_status (end_row (verified_run res now) r)"
    by (simp add: end_row_def)
  have "terminal_execution (x_status x) = None" "terminal_execution (x_status (verified_execution now x)) = Some Rcp_succeeded"
    "marked (verified_execution now x) = marked x" "opt_ok run_result_ok (r_result (end_row (verified_run res now) r))"
    "status_pair (r_status (end_row (verified_run res now) r)) (verified_execution now x)"
    using c(2) rok by (simp_all add: terminal_execution_def verified_execution_def marked_def end_row_def verified_run_def
        opt_ok_def status_pair_def)
  then have ok: "kept db ?D" "act_ok H ?D"
    unfolding verified_db_def using e(4) [OF nr, unfolded ids] run mv pr(1)
    by (auto intro!: acted_ok [OF pr(1)] simp: grant_moves_def verified_receipt_def pair_def)
  show thesis
    by (rule that [OF refs pr(1) [unfolded pp] pr(2) run c(2) sel(2) 5(2) rok res sel(1) [unfolded 5(1)] ok])
qed

lemma commit_verified_preserved:
  assumes "kernel_ok H db" "readRun db rid = Some r" "r_id run = rid" "r_turn run = r_turn r"
    "commit_verified rid run put prv psnap observed now refs db = Inr (out, db')"
  shows "preserved H db db'"
proof -
  obtain eid sq where out: "out = (eid, sq)" by (cases out)
  obtain fresh :: presented_ref and x p g res where c: "pair H db r x p g" "r_id r = rid"
    "select_run run now
       (verified_db r x g res (verified_receipt x p prv psnap observed (pf_snapshot fresh) now) now db) = Inr db'"
    "kept db (verified_db r x g res (verified_receipt x p prv psnap observed (pf_snapshot fresh) now) now db)"
    "act_ok H (verified_db r x g res (verified_receipt x p prv psnap observed (pf_snapshot fresh) now) now db)"
    by (rule commit_verified_cases [OF assms(1,2) assms(5) [unfolded out]]) blast
  let ?D = "verified_db r x g res (verified_receipt x p prv psnap observed (pf_snapshot fresh) now) now db"
  let ?row = "end_row (verified_run res now) r"
  have mem: "?row \<in> set (runs ?D)"
    unfolding verified_db_def by (rule acted_row_in [OF c(1)]) (simp add: end_row_def verified_run_def)
  have "r_id ?row = r_id run" "r_turn ?row = r_turn run" "r_status ?row = Completed"
    using assms(3,4) c(2) by (simp_all add: end_row_def verified_run_def)
  then obtain ss where "select_run run now ?D = Inr (?D\<lparr>selections := ss\<rparr>)" "kept ?D (?D\<lparr>selections := ss\<rparr>)"
    using select_run_ok [OF kept_wf [OF c(4)] mem] by metis
  then show ?thesis
    using c(3-5) kept_trans [OF c(4)] by (auto intro!: preserved_kept)
qed

subsection \<open>The boundaries\<close>

lemma preserved_immediate:
  assumes "kernel_ok H db" "\<And>v db'. body db = Inr (v, db') \<Longrightarrow> preserved H db db'"
  shows "preserved H db (snd (withImmediate body db))"
  using assms preserved_refl [OF assms(1)] by (auto simp: withImmediate_def split: sum.splits)

lemma companion_message_preserved:
  assumes "kernel_ok H db"
  shows "preserved H db (snd (postCompanionMessage session message now tz turnId db))"
  using preserved_refl [OF assms]
  by (auto simp: postCompanionMessage_def intro!: preserved_immediate [OF assms] companion_preserved [OF assms])

lemma model_step_preserved:
  assumes "kernel_ok H db"
  shows "preserved H db (snd (appendModelStepEvent rid payload now db))"
  using preserved_refl [OF assms]
  by (auto simp: appendModelStepEvent_def quiet_def intro!: preserved_immediate [OF assms] event_tx_preserved [OF assms])

lemma finished_preserved:
  assumes "kernel_ok H db"
  shows "preserved H db (snd (commitFinished rid call now db))"
proof -
  have "preserved H db (snd (withImmediate (finished_tx rid call now) db))"
    by (rule preserved_immediate [OF assms], rule finished_tx_preserved [OF assms])
  then show ?thesis
    using preserved_refl [OF assms] by (simp add: commitFinished_def)
qed

lemma snd_appendRequested:
  "snd (appendRequested rid callId i tool h now db) =
     (if isRunning rid db then snd (appendToolEvent rid (Tool_requested callId i tool h) now db) else db)"
  by (auto simp: appendRequested_def split: prod.splits sum.splits)

lemma requested_preserved:
  assumes "kernel_ok H db"
  shows "preserved H db (snd (appendRequested rid callId i tool h now db))"
  using preserved_refl [OF assms]
  by (auto simp: snd_appendRequested appendToolEvent_def quiet_def
      intro!: preserved_immediate [OF assms] event_tx_preserved [OF assms])

lemma private_tx_preserved:
  assumes "kernel_ok H db"
  shows "preserved H db (snd (withImmediate (present_tx session rid materialized (private_effects raised) now) db))"
  by (rule preserved_immediate [OF assms], erule present_tx_preserved [OF assms], erule (1) private_preserved)

lemma observations_preserved:
  assumes "kernel_ok H db"
  shows "preserved H db (snd (presentObservations session rid prepared materialized (private_effects raised) now db))"
  using preserved_refl [OF assms] private_tx_preserved [OF assms]
  by (simp add: presentObservations_def split: option.split)

lemma stored_preserved:
  assumes "kernel_ok H db"
  shows "preserved H db (snd (presentStored session rid ids found setId now db))"
  using preserved_refl [OF assms] private_tx_preserved [OF assms]
  by (simp add: presentStored_def)

lemma snd_verified_result: "snd (verified_result out) = snd out"
  by (auto simp: verified_result_def split: prod.splits sum.splits)

lemma verified_end_preserved:
  assumes "kernel_ok H db" "assertActionRun rid db = Inr run"
  shows "preserved H db (snd (verified_result (presentObservations (r_session run) rid prepared materialized
    (commit_verified rid run put prv psnap observed now) now db)))"
proof -
  have r: "readRun db rid = Some run" "r_id run = rid"
    using assms(2) readRun_in by (fastforce simp: assertActionRun_def split: option.splits)+
  have "preserved H D D'"
    if "kernel_ok H D" "readRun D rid = Some row" "\<exists>r0. readRun db rid = Some r0 \<and> r_turn row = r_turn r0"
      "commit_verified rid run put prv psnap observed now refs D = Inr (out, D')" for refs D row out D'
    using that r by (intro commit_verified_preserved [OF that(1,2) r(2) _ that(4)]) simp
  then show ?thesis
    using preserved_refl [OF assms(1)]
    by (auto simp: snd_verified_result presentObservations_def split: option.splits
        intro!: preserved_immediate [OF assms(1)] present_tx_preserved [OF assms(1)])
qed

lemma plain_end_preserved:
  "kernel_ok H db \<Longrightarrow> preserved H db (snd (finishPlainTerminal rid outcome rv snap now db))"
  using finish_preserved by (metis prod.collapse)

lemma finish_action_preserved:
  assumes "kernel_ok H db"
  shows "preserved H db (snd (finishActionExecution H' nfc ports rid request prv psnap now db))"
  using preserved_refl [OF assms] plain_end_preserved [OF assms] verified_end_preserved [OF assms]
  by (simp add: finishActionExecution_def finishVerifiedTerminal_def
      split: finish_request.split option.split sum.split prod.split)

lemma finish_create_preserved:
  assumes "kernel_ok H db"
  shows "preserved H db (snd (finishCreateExecution H' nfc ports rid request now db))"
  using preserved_refl [OF assms] plain_end_preserved [OF assms] verified_end_preserved [OF assms]
  by (simp add: finishCreateExecution_def finishCreateVerifiedTerminal_def
      split: create_request.split option.split sum.split prod.split action_input.split)

end
