(* ===== verification/Kernel.thy ===== *)
theory Kernel
  imports Writer_Steps Transition
begin

text \<open>
  The kernel as a state machine over the tables of the store: one rule for each operation of the repository, the
  action execution service, the tool broker and the reference manager that writes them, with any arguments and any
  generated ids. \<open>env_step\<close> is what other components write to the tables that this model only reads, or only
  appends to: the stager's map, the join of references that a stager reads, the connectors, a session's reference
  context, and the activities that the autonomy service records. The rows of \<open>idem\<close> are those of the kernel's own
  scopes; the handoff, autonomy, learning and shadow services use other scopes of the same table.
  A message or a retry is never posted with the strategy of action runs: the server passes none.
\<close>

definition env_step :: "kernel \<Rightarrow> kernel \<Rightarrow> bool" where
  "env_step k k' \<longleftrightarrow> (\<exists>st ts cs xs as. map x_session xs = map x_session (contexts (kdb k)) \<and>
     k' = k\<lparr>staged := st, kdb := (kdb k)\<lparr>targets := ts, connectors := cs, contexts := xs,
       activity := activity (kdb k) @ as\<rparr>\<rparr>)"

definition on_db :: "('a \<times> db) \<Rightarrow> kernel \<Rightarrow> kernel" where
  "on_db out k = k\<lparr>kdb := snd out\<rparr>"

lemma on_db_sel [simp]: "kdb (on_db out k) = snd out" "staged (on_db out k) = staged k"
  by (simp_all add: on_db_def)

definition plain_strategy :: "message_options \<Rightarrow> bool" where
  "plain_strategy options \<longleftrightarrow> default_to (js ''m0-default'') (mo_strategy options) \<noteq> m5_strategy"

inductive kernel_step :: "(jstr \<Rightarrow> jstr) \<Rightarrow> stager_options option \<Rightarrow> kernel \<Rightarrow> kernel \<Rightarrow> bool"
  for H :: "jstr \<Rightarrow> jstr" and opts :: "stager_options option" where
  create: "kernel_step H opts k (on_db (createSession H key now fresh (kdb k)) k)"
| message: "plain_strategy options \<Longrightarrow>
    kernel_step H opts k (on_db (postMessage H session text ui options fresh (kdb k)) k)"
| retry: "plain_strategy options \<Longrightarrow>
    kernel_step H opts k (on_db (postRetry H session turn options fresh2 (kdb k)) k)"
| approve: "kernel_step H opts k (on_db (approveProposal H session proposal ph key now tz fresh (kdb k)) k)"
| reject: "kernel_step H opts k (on_db (rejectProposal session proposal ph now tz turn (kdb k)) k)"
| start: "kernel_step H opts k (on_db (startRun rid now (kdb k)) k)"
| complete: "kernel_step H opts k (snd (completeRun opts rid result now clock pid k))"
| fail: "kernel_step H opts k (snd (failRun opts rid code now k))"
| cancel: "kernel_step H opts k (snd (cancelRun opts session rid now k))"
| finalize: "kernel_step H opts k (snd (finalizeCancelRequested opts rid now k))"
| settle: "kernel_step H opts k (snd (settleAbandonedRunningRun opts rid cause now k))"
| tool: "kernel_step H opts k (on_db (appendToolEvent rid payload now (kdb k)) k)"
| recovery: "kernel_step H opts k (snd (recover opts now k))"
| draining: "kernel_step H opts k (snd (drain opts now k))"
| preflight_failure: "kernel_step H opts k (on_db (recordActionPreflightFailure rid now (kdb k)) k)"
| preflight_blocked: "kernel_step H opts k (on_db (recordActionPreflightBlocked rid rv now (kdb k)) k)"
| consume: "kernel_step H opts k (on_db (consumeActionGrant H rid now (kdb k)) k)"
| finish_action: "kernel_step H opts k (on_db (finishActionExecution H nfc ports rid request prv psnap now (kdb k)) k)"
| finish_create: "kernel_step H opts k (on_db (finishCreateExecution H nfc ports rid creation now (kdb k)) k)"
| companion: "kernel_step H opts k (on_db (postCompanionMessage session text now tz turn (kdb k)) k)"
| model_step: "kernel_step H opts k (on_db (appendModelStepEvent rid payload now (kdb k)) k)"
| memory_marker: "kernel_step H opts k (on_db (recordRunMemoryStatus rid memory (kdb k)) k)"
| budget: "kernel_step H opts k (on_db (reserveBudget cap rid (kdb k)) k)"
| requested: "kernel_step H opts k (on_db (appendRequested rid callId index name digest now (kdb k)) k)"
| finished: "kernel_step H opts k (on_db (commitFinished rid call now (kdb k)) k)"
| observations: "kernel_step H opts k (on_db (presentObservations session rid prepared materialized
    (private_effects raised) now (kdb k)) k)"
| stored: "kernel_step H opts k (on_db (presentStored session rid ids found setId now (kdb k)) k)"
| environment: "env_step k k' \<Longrightarrow> kernel_step H opts k k'"

text \<open>A plain end is one of the requests of \<open>finishActionExecution\<close>.\<close>

lemma finish_plain_step:
  "action_id_ok rid \<Longrightarrow> kernel_step H opts k (on_db (finishPlainTerminal rid outcome prv psnap now (kdb k)) k)"
  using kernel_step.finish_action [of H opts k _ _ rid "Fin_plain outcome" prv psnap now]
  by (simp add: finishActionExecution_def)

abbreviation kernel_run :: "(jstr \<Rightarrow> jstr) \<Rightarrow> stager_options option \<Rightarrow> kernel \<Rightarrow> kernel \<Rightarrow> bool" where
  "kernel_run H opts \<equiv> (kernel_step H opts)\<^sup>*\<^sup>*"

definition booted :: "kernel \<Rightarrow> bool" where
  "booted k \<longleftrightarrow> (\<exists>v. kdb k = empty_db v)"

definition reachable :: "(jstr \<Rightarrow> jstr) \<Rightarrow> stager_options option \<Rightarrow> kernel \<Rightarrow> bool" where
  "reachable H opts k \<longleftrightarrow> (\<exists>k0. booted k0 \<and> kernel_run H opts k0 k)"

lemma reachable_run: "reachable H opts k \<Longrightarrow> kernel_run H opts k k' \<Longrightarrow> reachable H opts k'"
  unfolding reachable_def by (meson rtranclp_trans)

lemma reachable_step: "reachable H opts k \<Longrightarrow> kernel_step H opts k k' \<Longrightarrow> reachable H opts k'"
  by (rule reachable_run) auto

subsection \<open>Every step keeps the invariants\<close>

lemma preserved_tx:
  assumes "kernel_ok H db" "\<And>v db'. body db = Inr (v, db') \<Longrightarrow> preserved H db db'"
  shows "preserved H db (snd (withImmediate body db))"
  using assms preserved_refl [OF assms(1)] by (auto simp: withImmediate_def split: sum.splits)

lemma preserved_postMessage:
  assumes "kernel_ok H db" "plain_strategy options"
  shows "preserved H db (snd (postMessage H' session text ui options fresh db))"
  using assms preserved_refl [OF assms(1)] unfolding postMessage_def Let_def plain_strategy_def
  by (auto intro!: preserved_tx post_message_tx_preserved split: option.splits)

lemma preserved_postRetry:
  assumes "kernel_ok H db" "plain_strategy options"
  shows "preserved H db (snd (postRetry H' session turn options fresh db))"
  using assms preserved_refl [OF assms(1)] unfolding postRetry_def Let_def plain_strategy_def
  by (auto intro!: preserved_tx post_retry_tx_preserved split: option.splits)

lemma snd_after_decision: "snd (after_decision session out) = snd out"
  by (auto simp: after_decision_def split: prod.splits sum.splits decision.splits)

lemma preserved_approve:
  assumes "kernel_ok H db"
  shows "preserved H db (snd (approveProposal H session proposal ph key now tz fresh db))"
proof -
  have "preserved H db (snd (withImmediate (approve_tx H session proposal scope k hash ph z now fresh) db))"
    for scope k hash z
    by (rule preserved_tx [OF assms]) (rule approve_tx_preserved [OF assms])
  then show ?thesis
    using preserved_refl [OF assms] by (simp add: approveProposal_def snd_after_decision split: option.splits)
qed

lemma preserved_reject:
  assumes "kernel_ok H db"
  shows "preserved H db (snd (rejectProposal session proposal ph now tz turn db))"
proof -
  have "preserved H db (snd (withImmediate (reject_tx session proposal ph z now turn) db))" for z
    by (rule preserved_tx [OF assms]) (rule reject_tx_preserved [OF assms])
  then show ?thesis
    using preserved_refl [OF assms] by (simp add: rejectProposal_def snd_after_decision)
qed

lemma preserved_start:
  assumes "kernel_ok H db"
  shows "preserved H db (snd (startRun rid now db))"
proof (cases "readRun db rid")
  case None
  then show ?thesis using preserved_refl [OF assms] by (simp add: startRun_def)
next
  case (Some row)
  have "preserved H db (snd (startActionRun rid now db))"
    using startActionRun_preserved [OF assms, of rid now] by (metis prod.collapse)
  moreover have "preserved H db (snd (withImmediate (start_tx rid now) db))" if "\<not> is_m5 row"
    using that Some by (intro preserved_tx [OF assms] start_tx_preserved [OF assms]) auto
  ultimately show ?thesis
    using Some preserved_refl [OF assms] by (auto simp: startRun_def split: prod.splits sum.splits)
qed

lemma preserved_tool:
  assumes "kernel_ok H db"
  shows "preserved H db (snd (appendToolEvent rid payload now db))"
  using assms preserved_refl [OF assms(1)] unfolding appendToolEvent_def
  by (auto intro!: preserved_tx tool_event_tx_preserved)

lemma kdb_then_clear: "kdb (snd (then_clear opts rid dead out k)) = snd out"
  by (auto simp: then_clear_def split: prod.splits sum.splits)

lemma kdb_complete:
  "kdb (snd (completeRun opts rid result now clock pid k)) =
     (if \<not> isUuidV4 rid \<or> \<not> unix_ms_ok now \<or> \<not> run_result_ok result then kdb k
      else snd (withImmediate (complete_tx opts (fst (staged_for_completion opts rid now clock k)) rid result now pid) (kdb k)))"
  by (auto simp: completeRun_def Let_def split: prod.splits sum.splits)

lemma preserved_complete:
  assumes "kernel_ok H (kdb k)"
  shows "preserved H (kdb k) (kdb (snd (completeRun opts rid result now clock pid k)))"
  using assms preserved_refl [OF assms(1)] by (auto simp: kdb_complete intro!: preserved_tx complete_tx_preserved)

lemma preserved_fail:
  assumes "kernel_ok H (kdb k)"
  shows "preserved H (kdb k) (kdb (snd (failRun opts rid code now k)))"
  using assms preserved_refl [OF assms(1)]
  by (auto simp: failRun_def kdb_then_clear intro!: preserved_tx fail_tx_preserved)

lemma preserved_cancel:
  assumes "kernel_ok H (kdb k)"
  shows "preserved H (kdb k) (kdb (snd (cancelRun opts session rid now k)))"
proof -
  have "preserved H (kdb k) (snd (cancelActionRun session rid now (kdb k)))"
    using cancelActionRun_preserved [OF assms, of session rid now] by (metis prod.collapse)
  moreover have "preserved H (kdb k) (snd (withImmediate (cancel_tx session rid now) (kdb k)))"
    if "\<not> (case readRun (kdb k) rid of None \<Rightarrow> False | Some row \<Rightarrow> is_m5 row)"
    using that by (intro preserved_tx [OF assms] cancel_tx_preserved [OF assms]) auto
  ultimately show ?thesis
    using preserved_refl [OF assms] by (auto simp: cancelRun_def kdb_then_clear split: prod.splits sum.splits)
qed

lemma preserved_finalize:
  assumes "kernel_ok H (kdb k)"
  shows "preserved H (kdb k) (kdb (snd (finalizeCancelRequested opts rid now k)))"
  using preserved_refl [OF assms]
    preserved_tx [where body = "finalize_tx rid now", OF assms finalize_tx_preserved [OF assms]]
  by (auto simp: finalizeCancelRequested_def kdb_then_clear)

lemma preserved_settle:
  assumes "kernel_ok H (kdb k)"
  shows "preserved H (kdb k) (kdb (snd (settleAbandonedRunningRun opts rid cause now k)))"
proof -
  have "preserved H (kdb k) (snd (recoverAbandonedActionRun rid cause now (kdb k)))"
    using recoverAbandoned_preserved [OF assms, of rid cause now] by (metis prod.collapse)
  moreover have "preserved H (kdb k) (snd (withImmediate (settle_tx rid cause now) (kdb k)))"
    if "readRun (kdb k) rid = Some row" "\<not> is_m5 row" for row
    using that by (intro preserved_tx [OF assms] settle_tx_preserved [OF assms]) auto
  ultimately show ?thesis
    using preserved_refl [OF assms]
    by (auto simp: settleAbandonedRunningRun_def kdb_then_clear split: prod.splits option.splits)
qed

lemma preserved_sweep:
  assumes "kernel_ok H (kdb k)"
  shows "preserved H (kdb k) (kdb (snd (sweepTerminals opts cause now k)))"
  using sweep_all [OF assms, of opts cause now] preserved_refl [OF assms] by (metis prod.collapse)

lemma preserved_recover:
  assumes "kernel_ok H (kdb k)"
  shows "preserved H (kdb k) (kdb (snd (recover opts now k)))" "preserved H (kdb k) (kdb (snd (drain opts now k)))"
  using preserved_sweep [OF assms] preserved_refl [OF assms] by (simp_all add: recover_def drain_def)

lemma kept_outside:
  assumes "wf_db db" "map x_session xs = map x_session (contexts db)"
  shows "kept db (db\<lparr>targets := ts, connectors := cs, contexts := xs, activity := as\<rparr>)"
proof -
  let ?db = "db\<lparr>targets := ts, connectors := cs, contexts := xs, activity := as\<rparr>"
  have "session_refs ?db = session_refs db" "turn_refs ?db = turn_refs db" "run_refs ?db = run_refs db"
    using arg_cong [OF assms(2), of set] by (simp_all add: fun_eq_iff session_refs_def turn_refs_def run_refs_def)
  then have "wf_db ?db"
    using assms(1) unfolding wf_db_def refs_ok_def by simp
  moreover have "evolves db ?db"
    by (intro evolves_same) simp_all
  ultimately show ?thesis by (simp add: kept_def)
qed

lemma preserved_env:
  assumes "kernel_ok H (kdb k)" "env_step k k'"
  shows "preserved H (kdb k) (kdb k')"
proof -
  obtain ts cs xs as where e: "kdb k' = (kdb k)\<lparr>targets := ts, connectors := cs, contexts := xs, activity := as\<rparr>"
    "map x_session xs = map x_session (contexts (kdb k))"
    using assms(2) by (auto simp: env_step_def)
  have "kept (kdb k) (kdb k')"
    unfolding e(1) using assms(1) e(2) by (intro kept_outside) (simp_all add: kernel_ok_def)
  moreover have "act_ok H (kdb k')"
    using assms(1) e(1) by (auto simp: kernel_ok_def intro!: act_tables [of H "kdb k"])
  ultimately show ?thesis by (rule preserved_kept)
qed

lemma kernel_step_preserved:
  assumes "kernel_step H opts k k'" "kernel_ok H (kdb k)"
  shows "preserved H (kdb k) (kdb k')"
  using assms
proof (induction rule: kernel_step.induct)
  case (create k key now fresh)
  then show ?case using createSession_preserved by (metis on_db_sel(1) prod.collapse)
next
  case (preflight_failure k rid now)
  then show ?case using preflight_failure_preserved by (metis on_db_sel(1) prod.collapse)
next
  case (preflight_blocked k rid rv now)
  then show ?case using blocked_preserved by (metis on_db_sel(1) prod.collapse)
next
  case (consume k rid now)
  then show ?case using consume_preserved by (metis on_db_sel(1) prod.collapse)
qed (simp_all add: preserved_postMessage preserved_postRetry preserved_approve preserved_reject preserved_start
    preserved_tool preserved_complete preserved_fail preserved_cancel preserved_finalize preserved_settle
    preserved_recover preserved_env finish_action_preserved finish_create_preserved companion_message_preserved
    model_step_preserved memory_status_preserved budget_preserved requested_preserved finished_preserved
    observations_preserved stored_preserved)

lemma boot_ok: "booted k \<Longrightarrow> kernel_ok H (kdb k)"
  by (auto simp: booted_def kernel_ok_def wf_empty act_empty)

interpretation kernel_system: transition_system booted "kernel_step H opts" "\<lambda>k. kernel_ok H (kdb k)"
    "\<lambda>k k'. evolves (kdb k) (kdb k')" for H opts
proof (unfold_locales, goal_cases)
  case 1
  then show ?case by (rule boot_ok)
next
  case 2
  then show ?case using kernel_step_preserved by (auto simp: preserved_def)
next
  case 3
  then show ?case using kernel_step_preserved by (auto simp: preserved_def)
next
  case 4
  then show ?case by (rule evolves_refl)
next
  case 5
  then show ?case by (rule evolves_trans)
qed

lemma reachable_ok: "reachable H opts k \<Longrightarrow> kernel_ok H (kdb k)"
  using kernel_system.reachable_inv by (auto simp: reachable_def)

lemma reachable_evolves: "reachable H opts k \<Longrightarrow> kernel_run H opts k k' \<Longrightarrow> evolves (kdb k) (kdb k')"
  using kernel_system.run_rel [OF _ reachable_ok] by blast

end
