(* ===== verification/History.thy ===== *)
theory History
  imports Kernel
begin

text \<open>
  What the kernel never rewrites. A relation between stores that every statement of the code respects
  (the locale \<open>store_history\<close>) is respected by every operation. The row relations say how
  an update of the code may change a row: a decided proposal, an ended execution, the external-call
  marker, a consumed grant and the content of a turn stay as they are.
\<close>

subsection \<open>What an update may do to a row\<close>

definition session_step :: "session_row \<Rightarrow> session_row \<Rightarrow> bool" where
  "session_step s s' \<longleftrightarrow> s_id s' = s_id s \<and> s_createdAt s' = s_createdAt s \<and>
     s_nextTurnPosition s \<le> s_nextTurnPosition s'"

definition turn_step :: "turn_row \<Rightarrow> turn_row \<Rightarrow> bool" where
  "turn_step t t' \<longleftrightarrow> t\<lparr>t_nextRunAttempt := 0\<rparr> = t'\<lparr>t_nextRunAttempt := 0\<rparr> \<and>
     t_nextRunAttempt t \<le> t_nextRunAttempt t'"

definition proposal_content :: "proposal_row \<Rightarrow> proposal_row" where
  "proposal_content p = p\<lparr>p_status := Pending, p_resolvedAt := None, p_decisionTurn := None\<rparr>"

definition proposal_step :: "proposal_row \<Rightarrow> proposal_row \<Rightarrow> bool" where
  "proposal_step p p' \<longleftrightarrow> proposal_content p' = proposal_content p \<and> (p_status p \<noteq> Pending \<longrightarrow> p' = p)"

definition over :: "execution_row \<Rightarrow> bool" where
  "over x \<longleftrightarrow> terminal_execution (x_status x) \<noteq> None"

definition execution_step :: "execution_row \<Rightarrow> execution_row \<Rightarrow> bool" where
  "execution_step x x' \<longleftrightarrow> x_id x' = x_id x \<and> x_sessionId x' = x_sessionId x \<and> x_proposal x' = x_proposal x \<and>
     x_approvalTurn x' = x_approvalTurn x \<and> x_actionRun x' = x_actionRun x \<and> x_createdAt x' = x_createdAt x \<and>
     (over x \<longrightarrow> x' = x) \<and> (marked x \<longrightarrow> x_callStartedAt x' = x_callStartedAt x)"

definition grant_step :: "grant_row \<Rightarrow> grant_row \<Rightarrow> bool" where
  "grant_step g g' \<longleftrightarrow> g'\<lparr>gr_consumedAt := None\<rparr> = g\<lparr>gr_consumedAt := None\<rparr> \<and>
     (gr_consumedAt g \<noteq> None \<longrightarrow> g' = g)"

lemmas step_defs = session_step_def turn_step_def proposal_step_def proposal_content_def execution_step_def
  grant_step_def over_def marked_def terminal_execution_def

lemma step_refl [simp]: "session_step s s" "turn_step t t" "proposal_step p p" "execution_step x x" "grant_step g g"
  by (simp_all add: step_defs)

lemma step_trans:
  "session_step s s1 \<Longrightarrow> session_step s1 s2 \<Longrightarrow> session_step s s2"
  "turn_step t t1 \<Longrightarrow> turn_step t1 t2 \<Longrightarrow> turn_step t t2"
  "proposal_step p p1 \<Longrightarrow> proposal_step p1 p2 \<Longrightarrow> proposal_step p p2"
  "execution_step x x1 \<Longrightarrow> execution_step x1 x2 \<Longrightarrow> execution_step x x2"
  "grant_step g g1 \<Longrightarrow> grant_step g1 g2 \<Longrightarrow> grant_step g g2"
  by (auto simp: session_step_def turn_step_def proposal_step_def execution_step_def grant_step_def marked_def)

subsection \<open>The contract of a history relation\<close>

locale store_history =
  fixes rel :: "db \<Rightarrow> db \<Rightarrow> bool"
  assumes rel_refl: "rel db db"
    and rel_trans: "rel db db1 \<Longrightarrow> rel db1 db2 \<Longrightarrow> rel db db2"
    and add_session: "rel db (db\<lparr>sessions := sessions db @ [s]\<rparr>)"
    and add_context: "rel db (db\<lparr>contexts := contexts db @ [y]\<rparr>)"
    and add_turn: "rel db (db\<lparr>turns := turns db @ [t]\<rparr>)"
    and add_idem: "rel db (db\<lparr>idem := idem db @ [i]\<rparr>)"
    and add_proposal: "rel db (db\<lparr>proposals := proposals db @ [p]\<rparr>)"
    and add_execution: "rel db (db\<lparr>executions := executions db @ [x]\<rparr>)"
    and add_grant: "rel db (db\<lparr>grants := grants db @ [g]\<rparr>)"
    and add_receipt: "rel db (db\<lparr>receipts := receipts db @ [c]\<rparr>)"
    and add_activity: "rel db (db\<lparr>activity := activity db @ [a]\<rparr>)"
    and set_runs: "rel db (db\<lparr>runs := rs\<rparr>)"
    and add_event: "rel db (db\<lparr>events := events db @ [e]\<rparr>)"
    and set_selections: "rel db (db\<lparr>selections := ss\<rparr>)"
    and set_outside: "rel db (db\<lparr>targets := ts, connectors := cs, contexts := ys\<rparr>)"
    and upd_sessions: "(\<And>s. P1 s \<Longrightarrow> session_step s (f1 s)) \<Longrightarrow> rel db (db\<lparr>sessions := upd_where P1 f1 (sessions db)\<rparr>)"
    and upd_turns: "(\<And>t. P2 t \<Longrightarrow> turn_step t (f2 t)) \<Longrightarrow> rel db (db\<lparr>turns := upd_where P2 f2 (turns db)\<rparr>)"
    and upd_proposals: "(\<And>p. P3 p \<Longrightarrow> proposal_step p (f3 p)) \<Longrightarrow> rel db (db\<lparr>proposals := upd_where P3 f3 (proposals db)\<rparr>)"
    and upd_executions: "(\<And>x. P4 x \<Longrightarrow> execution_step x (f4 x)) \<Longrightarrow> rel db (db\<lparr>executions := upd_where P4 f4 (executions db)\<rparr>)"
    and upd_grants: "(\<And>g. P5 g \<Longrightarrow> grant_step g (f5 g)) \<Longrightarrow> rel db (db\<lparr>grants := upd_where P5 f5 (grants db)\<rparr>)"
begin

lemma statement_frames:
  "insert_session s db1 = Inr db2 \<Longrightarrow> rel d db1 \<Longrightarrow> rel d db2"
  "insert_context y db1 = Inr db2 \<Longrightarrow> rel d db1 \<Longrightarrow> rel d db2"
  "insert_turn t db1 = Inr db2 \<Longrightarrow> rel d db1 \<Longrightarrow> rel d db2"
  "insert_run r db1 = Inr db2 \<Longrightarrow> rel d db1 \<Longrightarrow> rel d db2"
  "insert_event e db1 = Inr db2 \<Longrightarrow> rel d db1 \<Longrightarrow> rel d db2"
  "insert_idem i db1 = Inr db2 \<Longrightarrow> rel d db1 \<Longrightarrow> rel d db2"
  "insert_activity a db1 = Inr db2 \<Longrightarrow> rel d db1 \<Longrightarrow> rel d db2"
  "insert_proposal p db1 = Inr db2 \<Longrightarrow> rel d db1 \<Longrightarrow> rel d db2"
  "insert_execution x db1 = Inr db2 \<Longrightarrow> rel d db1 \<Longrightarrow> rel d db2"
  "insert_grant g db1 = Inr db2 \<Longrightarrow> rel d db1 \<Longrightarrow> rel d db2"
  "insert_receipt c db1 = Inr db2 \<Longrightarrow> rel d db1 \<Longrightarrow> rel d db2"
  "upsert_selection sel db1 = Inr db2 \<Longrightarrow> rel d db1 \<Longrightarrow> rel d db2"
  "update_runs P f db1 = Inr (n, db2) \<Longrightarrow> rel d db1 \<Longrightarrow> rel d db2"
  by (erule rel_trans, auto simp: insert_session_def insert_context_def insert_turn_def insert_run_def insert_event_def
      insert_idem_def insert_activity_def insert_proposal_def insert_execution_def insert_grant_def insert_receipt_def
      upsert_selection_def update_runs_def Let_def add_session add_context add_turn set_runs add_event add_idem
      add_activity add_proposal add_execution add_grant add_receipt set_selections split: if_splits)+

lemma update_frames:
  "update_sessions P1 f1 db1 = Inr (n, db2) \<Longrightarrow> (\<And>s. P1 s \<Longrightarrow> session_step s (f1 s)) \<Longrightarrow> rel d db1 \<Longrightarrow> rel d db2"
  "update_turns P2 f2 db1 = Inr (n, db2) \<Longrightarrow> (\<And>t. P2 t \<Longrightarrow> turn_step t (f2 t)) \<Longrightarrow> rel d db1 \<Longrightarrow> rel d db2"
  "update_proposals P3 f3 db1 = Inr (n, db2) \<Longrightarrow> (\<And>p. P3 p \<Longrightarrow> proposal_step p (f3 p)) \<Longrightarrow> rel d db1 \<Longrightarrow> rel d db2"
  "update_executions P4 f4 db1 = Inr (n, db2) \<Longrightarrow> (\<And>x. P4 x \<Longrightarrow> execution_step x (f4 x)) \<Longrightarrow> rel d db1 \<Longrightarrow> rel d db2"
  "update_grants P5 f5 db1 = Inr (n, db2) \<Longrightarrow> (\<And>g. P5 g \<Longrightarrow> grant_step g (f5 g)) \<Longrightarrow> rel d db1 \<Longrightarrow> rel d db2"
  by (erule rel_trans, auto simp: update_sessions_def update_turns_def update_proposals_def update_executions_def
      update_grants_def Let_def upd_sessions upd_turns upd_proposals upd_executions upd_grants split: if_splits)+

lemma append_frame: "appendEventInTx rid m pl now db1 = Inr (n, db2) \<Longrightarrow> rel d db1 \<Longrightarrow> rel d db2"
  by (auto simp: appendEventInTx_def rbind_eq_Inr Let_def split: if_splits intro: statement_frames)

lemma response_frames:
  "storeIdempotentResponse scope key hash st body now db1 = Inr db2 \<Longrightarrow> rel d db1 \<Longrightarrow> rel d db2"
  "recordUserActivityInTx aid sid now db1 = Inr db2 \<Longrightarrow> rel d db1 \<Longrightarrow> rel d db2"
  "insertReceipt x p out rv snap now db1 = Inr db2 \<Longrightarrow> rel d db1 \<Longrightarrow> rel d db2"
  "select_run r now db1 = Inr db2 \<Longrightarrow> rel d db1 \<Longrightarrow> rel d db2"
  by (auto simp: storeIdempotentResponse_def recordUserActivityInTx_def recordActivityInTx_def insertReceipt_def
      select_run_def split: if_splits intro: statement_frames)

lemmas frames = statement_frames update_frames append_frame response_frames

lemma add_activities: "rel db (db\<lparr>activity := activity db @ as\<rparr>)"
proof (induction as rule: rev_induct)
  case Nil
  then show ?case by (simp add: rel_refl)
next
  case (snoc a as)
  then show ?case
    using add_activity [of "db\<lparr>activity := activity db @ as\<rparr>" a] by (auto intro: rel_trans)
qed

lemma outside_frame: "rel db (db\<lparr>targets := ts, connectors := cs, contexts := ys, activity := activity db @ as\<rparr>)"
  using rel_trans [OF set_outside [where db = db and ts = ts and cs = cs and ys = ys] add_activities [of "db\<lparr>targets := ts, connectors := cs, contexts := ys\<rparr>" as]]
  by simp

lemma tx_frame: "(\<And>v db'. body db = Inr (v, db') \<Longrightarrow> rel db db') \<Longrightarrow> rel db (snd (withImmediate body db))"
  using rel_refl by (auto simp: withImmediate_def split: sum.splits)

lemma checked_frame: "(\<And>v db'. body db = Inr (v, db') \<Longrightarrow> rel db db') \<Longrightarrow> rel db (snd (checked ok body db))"
  using rel_refl by (cases ok) (auto simp: checked_def intro: tx_frame)

end

subsection \<open>The operations respect it\<close>

lemmas row_step_simps = session_step_def turn_step_def proposal_step_def proposal_content_def execution_step_def
  grant_step_def over_def terminal_execution_def marked_def

text \<open>Which branch of a transaction returned.\<close>

lemma branch_Inr:
  "(case o1 of None \<Rightarrow> m | Some x \<Rightarrow> F x) = Inr y \<longleftrightarrow> o1 = None \<and> m = Inr y \<or> (\<exists>x. o1 = Some x \<and> F x = Inr y)"
  "(if b then m else n) = Inr y \<longleftrightarrow> b \<and> m = Inr y \<or> \<not> b \<and> n = Inr y"
  "(case s of Inl e \<Rightarrow> f e | Inr z \<Rightarrow> g z) = Inr y \<longleftrightarrow> (\<exists>e. s = Inl e \<and> f e = Inr y) \<or> (\<exists>z. s = Inr z \<and> g z = Inr y)"
  "(case pr of (a, c) \<Rightarrow> h a c) = Inr y \<longleftrightarrow> (\<exists>a c. pr = (a, c) \<and> h a c = Inr y)"
  by (auto split: option.splits sum.splits prod.splits)

context store_history begin

lemma createSession_frame: "rel db (snd (createSession H key now fresh db))"
  using rel_refl
  by (auto simp: createSession_def rbind_eq_Inr Let_def split: option.splits if_splits intro!: tx_frame)
    (assumption | rule rel_refl | erule frames)+

lemma allocate_frames:
  "allocate_message session s input frozen strategy sel now tid rid db1 = Inr db2 \<Longrightarrow> rel d db1 \<Longrightarrow> rel d db2"
  "allocate_retry session turn attempt strategy sel now rid db1 = Inr db2 \<Longrightarrow> rel d db1 \<Longrightarrow> rel d db2"
  "allocateDecisionTurn session input frozen now tid db1 = Inr db2 \<Longrightarrow> rel d db1 \<Longrightarrow> rel d db2"
  "decide_proposal session proposal status now t db1 = Inr db2 \<Longrightarrow> rel d db1 \<Longrightarrow> rel d db2"
  by (auto simp: allocate_message_def allocate_retry_def allocateDecisionTurn_def decide_proposal_def one_row_Inr
      rbind_eq_Inr Let_def split: if_splits option.splits)
    (assumption | rule rel_refl | erule frames | force simp: row_step_simps)+

lemma postMessage_frame: "rel db (snd (postMessage H session text ui options fresh db))"
  using rel_refl
  by (auto simp: postMessage_def post_message_tx_def busy_guard_Inr rbind_eq_Inr Let_def
      split: option.splits if_splits prod.splits intro!: tx_frame)
    (assumption | rule rel_refl | erule frames allocate_frames | force simp: row_step_simps)+

lemma postRetry_frame: "rel db (snd (postRetry H session turn options fresh db))"
  using rel_refl
  by (auto simp: postRetry_def post_retry_tx_def busy_guard_Inr body_case_Inr rbind_eq_Inr Let_def
      split: option.splits if_splits prod.splits intro!: tx_frame)
    (assumption | rule rel_refl | erule frames allocate_frames | force simp: row_step_simps)+

lemma approve_frame: "rel db (snd (approveProposal H session proposal ph key now tz fresh db))"
proof -
  have "rel db db'" if "approve_tx H session proposal scope k hash ph z now fresh db = Inr (v, db')" for scope k hash z v db'
    using that rel_refl
    by (auto simp: approve_tx_def body_case_Inr rbind_eq_Inr Let_def split: option.splits if_splits prod.splits)
      (assumption | rule rel_refl | erule frames allocate_frames)+
  then show ?thesis
    using rel_refl by (auto simp: approveProposal_def snd_after_decision split: option.splits intro!: tx_frame)
qed

lemma reject_frame: "rel db (snd (rejectProposal session proposal ph now tz turn db))"
proof -
  have "rel db db'" if "reject_tx session proposal ph z now turn db = Inr (v, db')" for z v db'
    using that rel_refl
    by (auto simp: reject_tx_def rbind_eq_Inr split: option.splits if_splits)
      (assumption | rule rel_refl | erule frames allocate_frames)+
  then show ?thesis
    using rel_refl by (auto simp: rejectProposal_def snd_after_decision intro!: tx_frame)
qed

lemma startActionRun_frame: "rel db (snd (startActionRun rid now db))"
  unfolding startActionRun_def
  by (rule checked_frame, auto simp: rbind_eq_Inr branch_Inr one_row_Inr Let_def intro: rel_refl)
    (assumption | rule rel_refl | erule frames | force simp: row_step_simps)+

lemma cancelActionRun_frame: "rel db (snd (cancelActionRun sid rid now db))"
  unfolding cancelActionRun_def
  by (rule checked_frame, auto simp: rbind_eq_Inr branch_Inr one_row_Inr Let_def intro: rel_refl)
    (assumption | rule rel_refl | erule frames | force simp: row_step_simps)+

lemma preflight_failure_frame: "rel db (snd (recordActionPreflightFailure rid now db))"
  unfolding recordActionPreflightFailure_def
  by (rule checked_frame, auto simp: rbind_eq_Inr branch_Inr one_row_Inr Let_def intro: rel_refl)
    (assumption | rule rel_refl | erule frames | force simp: row_step_simps unmarked_preflight_def)+

lemma preflight_blocked_frame: "rel db (snd (recordActionPreflightBlocked rid rv now db))"
  unfolding recordActionPreflightBlocked_def
  by (rule checked_frame, auto simp: rbind_eq_Inr branch_Inr one_row_Inr Let_def intro: rel_refl)
    (assumption | rule rel_refl | erule frames | force simp: row_step_simps unmarked_preflight_def)+

lemma consume_frame: "rel db (snd (consumeActionGrant H rid now db))"
  unfolding consumeActionGrant_def
  by (rule checked_frame, auto simp: rbind_eq_Inr branch_Inr one_row_Inr Let_def intro: rel_refl)
    (assumption | rule rel_refl | erule frames | force simp: row_step_simps unmarked_preflight_def)+

lemma finish_frame: "rel db (snd (finishPlainTerminal rid outcome rv snap now db))"
  unfolding finishPlainTerminal_def
  by (rule tx_frame, auto simp: rbind_eq_Inr branch_Inr one_row_Inr Let_def intro: rel_refl)
    (assumption | rule rel_refl | erule frames | force simp: row_step_simps)+

lemma start_frame: "rel db (snd (startRun rid now db))"
proof -
  have "rel db db'" if "start_tx rid now db = Inr (v, db')" for v db'
    using that by (auto simp: start_tx_def rbind_eq_Inr branch_Inr intro: rel_refl)
      (assumption | rule rel_refl | erule frames)+
  then show ?thesis
    using rel_refl startActionRun_frame [of db rid now]
    by (auto simp: startRun_def split: option.splits prod.splits sum.splits intro!: tx_frame)
qed

lemma recheck_frame: "commitStaged opts entry rid now pid db1 = Inr (n, db2) \<Longrightarrow> rel d db1 \<Longrightarrow> rel d db2"
  by (auto simp: commitStaged_def rbind_eq_Inr branch_Inr)
    (assumption | erule frames | force simp: row_step_simps)+

lemma complete_frame: "rel (kdb k) (kdb (snd (completeRun opts rid result now clock pid k)))"
proof -
  have "rel db db'" if "complete_tx opts entry rid result now pid db = Inr (v, db')" for entry db v db'
    using that by (auto simp: complete_tx_def rbind_eq_Inr branch_Inr one_row_Inr intro: rel_refl)
      (assumption | rule rel_refl | erule frames recheck_frame)+
  then show ?thesis
    using rel_refl by (auto simp: kdb_complete intro!: tx_frame)
qed

lemma fail_frame: "rel (kdb k) (kdb (snd (failRun opts rid code now k)))"
proof -
  have "rel db db'" if "fail_tx rid code now db = Inr (v, db')" for db v db'
    using that by (auto simp: fail_tx_def rbind_eq_Inr branch_Inr intro: rel_refl)
      (assumption | rule rel_refl | erule frames)+
  then show ?thesis
    using rel_refl by (auto simp: failRun_def kdb_then_clear intro!: tx_frame)
qed

lemma cancel_frame: "rel (kdb k) (kdb (snd (cancelRun opts session rid now k)))"
proof -
  have "rel db db'" if "cancel_tx session rid now db = Inr (v, db')" for db v db'
    using that by (auto simp: cancel_tx_def rbind_eq_Inr branch_Inr intro: rel_refl)
      (assumption | rule rel_refl | erule frames)+
  then show ?thesis
    using rel_refl cancelActionRun_frame [of "kdb k" session rid now]
    by (auto simp: cancelRun_def kdb_then_clear split: prod.splits sum.splits intro!: tx_frame)
qed

lemma finalize_frame: "rel (kdb k) (kdb (snd (finalizeCancelRequested opts rid now k)))"
proof -
  have "rel db db'" if "finalize_tx rid now db = Inr (v, db')" for db v db'
    using that by (auto simp: finalize_tx_def rbind_eq_Inr branch_Inr intro: rel_refl)
      (assumption | rule rel_refl | erule frames)+
  then show ?thesis
    using rel_refl by (auto simp: finalizeCancelRequested_def kdb_then_clear intro!: tx_frame)
qed

text \<open>Recovery touches executions that are not over.\<close>

lemma classify_open:
  "classifyActionPair db run x = Inr plan \<Longrightarrow> plan \<noteq> Unchanged \<Longrightarrow> terminal_execution (x_status x) = None"
  by (auto simp: classifyActionPair_def Let_def terminal_execution_def split: if_splits)

lemma abandon_frame:
  "applyRecoveryAbandon run x plan cause now db1 = Inr db2 \<Longrightarrow>
     (plan \<noteq> Unchanged \<Longrightarrow> terminal_execution (x_status x) = None) \<Longrightarrow> rel d db1 \<Longrightarrow> rel d db2"
  by (auto simp: applyRecoveryAbandon_def rbind_eq_Inr branch_Inr one_row_Inr Let_def split: if_splits)
    (assumption | rule rel_refl | erule frames | force simp: session_step_def execution_step_def over_def marked_def)+

lemma plans_open:
  "planActionRuns db rs = Inr plans \<Longrightarrow> (run, x, plan) \<in> set plans \<Longrightarrow> plan \<noteq> Unchanged \<Longrightarrow>
     terminal_execution (x_status x) = None"
  by (induction rs arbitrary: plans) (auto simp: rbind_eq_Inr branch_Inr dest: classify_open)

lemma applyPlans_frame:
  "applyPlans plans cause now db1 = Inr db2 \<Longrightarrow>
     (\<And>run x plan. (run, x, plan) \<in> set plans \<Longrightarrow> plan \<noteq> Unchanged \<Longrightarrow> terminal_execution (x_status x) = None) \<Longrightarrow>
     rel d db1 \<Longrightarrow> rel d db2"
proof (induction plans arbitrary: db1)
  case Nil
  then show ?case by simp
next
  case (Cons q plans)
  obtain run x plan where q: "q = (run, x, plan)" by (cases q)
  obtain db3 where "applyRecoveryAbandon run x plan cause now db1 = Inr db3" "applyPlans plans cause now db3 = Inr db2"
    using Cons.prems(1) q by (auto simp: rbind_eq_Inr)
  moreover from this(1) have "rel d db3"
    using Cons.prems(2,3) q by (auto intro: abandon_frame)
  ultimately show ?case using Cons.IH Cons.prems(2) by auto
qed

lemma recover_actions_frame: "rel db (snd (validateAndRecoverActionRuns cause now db))"
  unfolding validateAndRecoverActionRuns_def
  by (rule tx_frame) (auto simp: rbind_eq_Inr Let_def intro: applyPlans_frame plans_open rel_refl)

lemma recover_abandoned_frame: "rel db (snd (recoverAbandonedActionRun rid cause now db))"
  unfolding recoverAbandonedActionRun_def
  by (rule checked_frame) (auto simp: rbind_eq_Inr branch_Inr intro: rel_refl abandon_frame classify_open)

lemma settle_frame: "rel (kdb k) (kdb (snd (settleAbandonedRunningRun opts rid cause now k)))"
proof -
  have "rel db db'" if "settle_tx rid cause now db = Inr (v, db')" for db v db'
    using that by (auto simp: settle_tx_def rbind_eq_Inr branch_Inr intro: rel_refl)
      (assumption | rule rel_refl | erule frames)+
  then show ?thesis
    using rel_refl recover_abandoned_frame [of "kdb k" rid cause now]
    by (auto simp: settleAbandonedRunningRun_def kdb_then_clear split: prod.splits option.splits intro!: tx_frame)
qed

lemma sweep_rows_frame:
  "sweep_rows from target pl now rows db1 = (Inr db2, cleared) \<Longrightarrow> rel d db1 \<Longrightarrow> rel d db2"
proof (induction rows arbitrary: db1 cleared)
  case Nil
  then show ?case by simp
next
  case (Cons row rows)
  obtain b db3 cl where "sweep_one from target pl now row db1 = Inr (b, db3)"
    "sweep_rows from target pl now rows db3 = (Inr db2, cl)"
    using Cons.prems(1) by (auto simp: Let_def split: sum.splits prod.splits)
  moreover from this(1) have "rel d db3"
    using Cons.prems(2) by (auto simp: sweep_one_def rbind_eq_Inr branch_Inr) (assumption | erule frames)+
  ultimately show ?case using Cons.IH by blast
qed

lemma sweep_frame: "rel (kdb k) (kdb (snd (sweepTerminals opts cause now k)))"
proof -
  have "rel db db2" if "sweep_tx cause now db = (Inr (n, db2), cleared)" for db n db2 cleared
    using that rel_refl [of db] by (auto simp: sweep_tx_def split: prod.splits sum.splits dest: sweep_rows_frame)
  then have "rel db db'" if "snd (validateAndRecoverActionRuns cause now (kdb k)) = db"
      "sweep_tx cause now db = (Inr (n, db'), cl)" for db n db' cl
    using that by blast
  then show ?thesis
    using recover_actions_frame [of "kdb k" cause now]
    by (auto simp: sweepTerminals_def Let_def split: prod.splits sum.splits intro: rel_trans)
qed

lemma recover_frame:
  "rel (kdb k) (kdb (snd (recover opts now k)))" "rel (kdb k) (kdb (snd (drain opts now k)))"
  using rel_refl sweep_frame by (auto simp: recover_def drain_def)

lemma tool_frame: "rel db (snd (appendToolEvent rid payload now db))"
proof -
  have "rel db db'" if "tool_event_tx rid payload now db = Inr (v, db')" for v db'
    using that by (auto simp: tool_event_tx_def rbind_eq_Inr branch_Inr) (rule rel_refl | erule frames)+
  then show ?thesis
    using rel_refl by (auto simp: appendToolEvent_def intro!: tx_frame)
qed

lemma model_step_frame: "rel db (snd (appendModelStepEvent rid payload now db))"
  using rel_refl
  by (auto simp: appendModelStepEvent_def tool_event_tx_def rbind_eq_Inr branch_Inr intro!: tx_frame) (erule frames, rule rel_refl)+

lemma companion_frame: "rel db (snd (postCompanionMessage session message now tz turnId db))"
  using rel_refl
  by (auto simp: postCompanionMessage_def companion_tx_def rbind_eq_Inr branch_Inr Let_def intro!: tx_frame)
    (assumption | rule rel_refl | erule frames allocate_frames)+

lemma column_frames:
  "rel db (snd (recordRunMemoryStatus rid status db))" "rel db (snd (reserveBudget cap rid db))"
  using rel_refl set_runs
  by (auto simp: recordRunMemoryStatus_def reserveBudget_def update_runs_def Let_def split: sum.splits if_splits)

lemma requested_frame: "rel db (snd (appendRequested rid callId i name digest now db))"
  using rel_refl tool_frame by (simp add: snd_appendRequested)

lemma finished_frame: "rel db (snd (commitFinished rid call now db))"
proof -
  have "rel db db'" if "finished_tx rid call now db = Inr (v, db')" for v db'
    using that by (auto simp: finished_tx_def branch_Inr simp del: payload_ok.simps intro: rel_refl) (erule append_frame, rule rel_refl)
  then show ?thesis
    using rel_refl by (auto simp: commitFinished_def intro!: tx_frame)
qed

lemma present_each_frame: "present_each rid n setId refs now db1 = Inr db2 \<Longrightarrow> rel d db1 \<Longrightarrow> rel d db2"
proof (induction refs arbitrary: n db1)
  case Nil
  then show ?case by simp
next
  case (Cons entry refs)
  obtain m db3 where "appendPresentedInTx rid n setId entry now db1 = Inr (m, db3)" "present_each rid m setId refs now db3 = Inr db2"
    using Cons.prems(1) by (auto simp: rbind_eq_Inr)
  moreover from this(1) have "rel d db3"
    using Cons.prems(2) by (auto simp: appendPresentedInTx_def Let_def simp del: payload_ok.simps split: if_splits intro: append_frame)
  ultimately show ?case using Cons.IH by blast
qed

lemma present_frame:
  assumes "\<And>refs D out D'. onApplied refs D = Inr (out, D') \<Longrightarrow> rel D D'"
  shows "rel db (snd (withImmediate (present_tx session rid materialized onApplied now) db))"
proof (rule tx_frame)
  fix v db' assume p: "present_tx session rid materialized onApplied now db = Inr (v, db')"
  show "rel db db'"
  proof (cases "db' = db")
    case True
    then show ?thesis by (simp add: rel_refl)
  next
    case False
    obtain n db1 where u: "update_runs (\<lambda>r. r_id r = rid \<and> r_status r = Running) (\<lambda>r. r\<lparr>r_status := Running\<rparr>) db = Inr (n, db1)"
      and c: "db' = db1 \<or> (\<exists>refs D out. (D = db1 \<or> (\<exists>m setId. present_each rid m setId refs now db1 = Inr D)) \<and>
        onApplied refs D = Inr (out, db'))"
      using p False unfolding present_tx_def rbind_eq_Inr branch_Inr by (auto; blast)
    have "rel db db1"
      using u rel_refl by (auto intro: statement_frames)
    then show ?thesis
      using c assms present_each_frame rel_trans by meson
  qed
qed

lemma observations_frame:
  "rel db (snd (presentObservations session rid prepared materialized (private_effects raised) now db))"
  "rel db (snd (presentStored session rid ids found setId now db))"
proof -
  have "rel D D'" if "private_effects f refs D = Inr (out, D')" for f refs D out D'
    using that rel_refl by (auto simp: private_effects_def split: option.splits)
  then have "rel db (snd (withImmediate (present_tx session rid made (private_effects f) now) db))" for made f
    by (rule present_frame)
  then show "rel db (snd (presentObservations session rid prepared materialized (private_effects raised) now db))"
    "rel db (snd (presentStored session rid ids found setId now db))"
    using rel_refl by (simp_all add: presentObservations_def presentStored_def split: option.split)
qed

lemma commit_verified_frame:
  "commit_verified rid run put prv psnap observed now refs D = Inr (out, D') \<Longrightarrow> rel D D'"
  unfolding commit_verified_def insertVerifiedReceipt_def
  by (auto simp: rbind_eq_Inr branch_Inr one_row_Inr split: list.splits)
    (assumption | rule rel_refl | erule frames | force simp: row_step_simps)+

lemma verified_frame:
  "rel db (snd (verified_result (presentObservations session rid prepared materialized
    (commit_verified rid run put prv psnap observed now) now db)))"
  using rel_refl present_frame [of "commit_verified rid run put prv psnap observed now"] commit_verified_frame
  by (simp add: snd_verified_result presentObservations_def split: option.split)

lemma finish_action_frame: "rel db (snd (finishActionExecution H nfc ports rid request prv psnap now db))"
  using rel_refl finish_frame verified_frame
  by (simp add: finishActionExecution_def finishVerifiedTerminal_def
      split: finish_request.split option.split sum.split prod.split)

lemma finish_create_frame: "rel db (snd (finishCreateExecution H nfc ports rid request now db))"
  using rel_refl finish_frame verified_frame
  by (simp add: finishCreateExecution_def finishCreateVerifiedTerminal_def
      split: create_request.split option.split sum.split prod.split action_input.split)

lemma kernel_step_rel: "kernel_step H opts k k' \<Longrightarrow> rel (kdb k) (kdb k')"
proof (induction rule: kernel_step.induct)
  case (environment k k')
  then show ?case using outside_frame by (auto simp: env_step_def)
qed (simp_all add: createSession_frame postMessage_frame postRetry_frame approve_frame reject_frame start_frame
    complete_frame fail_frame cancel_frame finalize_frame settle_frame tool_frame recover_frame
    preflight_failure_frame preflight_blocked_frame consume_frame finish_action_frame finish_create_frame companion_frame
    model_step_frame column_frames requested_frame finished_frame observations_frame)

lemma kernel_run_rel: "kernel_run H opts k k' \<Longrightarrow> rel (kdb k) (kdb k')"
proof (induction rule: rtranclp_induct)
  case base
  then show ?case by (rule rel_refl)
next
  case (step k1 k2)
  then show ?case using kernel_step_rel rel_trans by blast
qed

end

subsection \<open>The record of the kernel\<close>

definition kept_rows :: "('r \<Rightarrow> 'r \<Rightarrow> bool) \<Rightarrow> 'r list \<Rightarrow> 'r list \<Rightarrow> bool" where
  "kept_rows R rows rows' \<longleftrightarrow> list_all2 R rows (take (length rows) rows')"

lemma kept_rows_refl: "(\<And>r. R r r) \<Longrightarrow> kept_rows R rows rows"
  by (simp add: kept_rows_def list.rel_refl)

lemma kept_rows_trans:
  assumes "kept_rows R a b" "kept_rows R b c" "\<And>x y z. R x y \<Longrightarrow> R y z \<Longrightarrow> R x z"
  shows "kept_rows R a c"
proof -
  have "length (take (length a) b) = length a"
    using assms(1) list_all2_lengthD unfolding kept_rows_def by metis
  then have n: "length a \<le> length b" by simp
  have "list_all2 R (take (length a) b) (take (length a) (take (length b) c))"
    using assms(2) unfolding kept_rows_def by (rule list_all2_takeI)
  then show ?thesis
    using assms(1,3) n list_all2_trans [of R R R a "take (length a) b"] unfolding kept_rows_def
    by (simp add: min_absorb1 take_take)
qed

lemma kept_rows_append: "(\<And>r. R r r) \<Longrightarrow> kept_rows R rows (rows @ rest)"
  by (simp add: kept_rows_def list.rel_refl)

lemma kept_rows_upd: "(\<And>r. R r r) \<Longrightarrow> (\<And>r. P r \<Longrightarrow> R r (f r)) \<Longrightarrow> kept_rows R rows (upd_where P f rows)"
  by (simp add: kept_rows_def upd_where_def list_all2_conv_all_nth)

lemma kept_rowsD: "kept_rows R rows rows' \<Longrightarrow> r \<in> set rows \<Longrightarrow> \<exists>r' \<in> set rows'. R r r'"
  unfolding kept_rows_def list_all2_conv_all_nth by (metis in_set_conv_nth in_set_takeD nth_mem)

lemma kept_rows_eqD: "kept_rows (=) rows rows' \<Longrightarrow> \<exists>rest. rows' = rows @ rest"
  by (metis append_take_drop_id kept_rows_def list.rel_eq)

text \<open>\<open>remembers db db'\<close>: every table of \<open>db'\<close> begins with the rows of \<open>db\<close>, changed at most by row steps.\<close>

definition remembers :: "db \<Rightarrow> db \<Rightarrow> bool" where
  "remembers db db' \<longleftrightarrow> kept_rows session_step (sessions db) (sessions db') \<and>
     kept_rows turn_step (turns db) (turns db') \<and>
     kept_rows (=) (idem db) (idem db') \<and> kept_rows proposal_step (proposals db) (proposals db') \<and>
     kept_rows execution_step (executions db) (executions db') \<and> kept_rows grant_step (grants db) (grants db') \<and>
     kept_rows (=) (receipts db) (receipts db') \<and> kept_rows (=) (events db) (events db') \<and>
     kept_rows (=) (activity db) (activity db')"

lemma remembers_refl: "remembers db db"
  by (simp add: remembers_def kept_rows_refl)

lemma remembers_trans: "remembers db1 db2 \<Longrightarrow> remembers db2 db3 \<Longrightarrow> remembers db1 db3"
  unfolding remembers_def
  by (intro conjI; elim conjE) (erule kept_rows_trans, assumption, (erule step_trans, assumption | simp))+

interpretation history: store_history remembers
proof (unfold_locales, goal_cases)
  case 1 then show ?case by (rule remembers_refl)
next
  case 2 then show ?case by (rule remembers_trans)
qed (simp_all add: remembers_def kept_rows_refl kept_rows_append kept_rows_upd)

lemma run_remembers: "kernel_run H opts k k' \<Longrightarrow> remembers (kdb k) (kdb k')"
  by (rule history.kernel_run_rel)

end
