(* ===== verification/Scenario.thy ===== *)
theory Scenario
  imports History "HOL-Library.Code_Target_Nat"
begin

text \<open>
  A concrete history of the kernel, from an empty store to an approved calendar write and its branches:
  every state is reachable, so the claims of the kernel apply to it. The digest is the identity.
\<close>

definition uid :: "char \<Rightarrow> jstr" where
  "uid c = js (''0000000'' @ [c] @ ''-0000-4000-8000-000000000000'')"

definition sess :: jstr where "sess = uid CHR ''1''"
definition turn1 :: jstr where "turn1 = uid CHR ''2''"
definition run1 :: jstr where "run1 = uid CHR ''3''"
definition prop1 :: jstr where "prop1 = uid CHR ''4''"
definition turn2 :: jstr where "turn2 = uid CHR ''5''"
definition run2 :: jstr where "run2 = uid CHR ''6''"
definition exec1 :: jstr where "exec1 = uid CHR ''7''"
definition conn1 :: jstr where "conn1 = uid CHR ''8''"
definition snap1 :: jstr where "snap1 = uid CHR ''9''"
definition res1 :: jstr where "res1 = uid CHR ''a''"
definition key1 :: jstr where "key1 = uid CHR ''b''"
definition act1 :: jstr where "act1 = uid CHR ''c''"
definition key2 :: jstr where "key2 = uid CHR ''d''"

definition hash1 :: jstr where "hash1 = js (replicate 64 CHR ''a'')"

definition opts1 :: stager_options where
  "opts1 = \<lparr>so_writeEnabled = True, so_createEnabled = False\<rparr>"

definition message1 :: message_options where
  "message1 = \<lparr>mo_key = key1, mo_now = 1000, mo_strategy = None, mo_selectOnSuccess = None, mo_timeZone = None\<rparr>"

definition entry1 :: staged_entry where
  "entry1 = \<lparr>st_session = sess, st_sourceTurn = turn1, st_tool = js ''calendar.reschedule'',
     st_input = Reschedule_input (js ''2026-01-02'') (js ''2026-01-03''), st_targetRef = Some (js ''r1''),
     st_targetResource = Some res1, st_snapshot = Some snap1, st_connector = conn1,
     st_revision = Some (js ''rev1''), st_preview = js ''move lunch'', st_hash = hash1,
     st_createdAt = 1200, st_expiresAt = 9000\<rparr>"

definition target1 :: target_row where
  "target1 = \<lparr>g_session = sess, g_ref = js ''r1'', g_ordinal = 1, g_resource = res1, g_snapshot = snap1,
     g_connector = conn1, g_kind = js ''calendar'', g_sourceRevision = Some (js ''rev1''), g_contentHash = hash1,
     g_event = Some \<lparr>se_status = js ''confirmed'', se_title = js ''lunch'', se_start = js ''2026-01-01'',
       se_end = js ''2026-01-02'', se_allDay = Some True\<rparr>\<rparr>"

definition do_db :: "(db \<Rightarrow> 'a \<times> db) \<Rightarrow> kernel \<Rightarrow> kernel" where
  "do_db f k = on_db (f (kdb k)) k"

definition observe :: "kernel \<Rightarrow> kernel" where
  "observe k = k\<lparr>staged := [(run1, entry1)], kdb := (kdb k)\<lparr>targets := [target1], connectors := [conn1]\<rparr>\<rparr>"

definition sk0 :: kernel where "sk0 = \<lparr>kdb = empty_db 40, staged = []\<rparr>"
definition sk1 :: kernel where "sk1 = do_db (createSession id key1 900 sess) sk0"
definition sk2 :: kernel where
  "sk2 = do_db (postMessage id sess (js ''hello'') (JObj []) message1 (turn1, run1, act1)) sk1"
definition sk3 :: kernel where "sk3 = do_db (startRun run1 1100) sk2"
definition sk4 :: kernel where
  "sk4 = observe sk3"
definition sk5 :: kernel where
  "sk5 = snd (completeRun (Some opts1) run1 (Result_v1 (js ''done'')) 1300 1300 prop1 sk4)"
definition sk6 :: kernel where
  "sk6 = do_db (approveProposal id sess prop1 hash1 key2 1400 None (turn2, run2, exec1)) sk5"
definition sk7 :: kernel where "sk7 = do_db (startRun run2 1500) sk6"
definition sk8 :: kernel where "sk8 = do_db (consumeActionGrant id run2 1600) sk7"
definition sk9 :: kernel where
  "sk9 = do_db (finishPlainTerminal run2 Plain_unverified None None 1700) sk8"
definition sk10 :: kernel where
  "sk10 = snd (cancelRun (Some opts1) sess run1 1200 sk3)"

lemma plain_message1: "plain_strategy message1"
  by code_simp

lemma step_sk4: "kernel_step id (Some opts1) sk3 sk4"
  by (rule kernel_step.environment, unfold env_step_def sk4_def observe_def, rule exI [where x = "[(run1, entry1)]"],
      rule exI [where x = "[target1]"], rule exI [where x = "[conn1]"], rule exI [where x = "contexts (kdb sk3)"],
      rule exI [where x = "[]"]) simp

lemma step_sk1: "kernel_step id (Some opts1) sk0 sk1"
  unfolding sk1_def do_db_def by (rule kernel_step.create)

lemma step_sk2: "kernel_step id (Some opts1) sk1 sk2"
  unfolding sk2_def do_db_def by (rule kernel_step.message [OF plain_message1])

lemma step_sk3: "kernel_step id (Some opts1) sk2 sk3"
  unfolding sk3_def do_db_def by (rule kernel_step.start)

lemma step_sk5: "kernel_step id (Some opts1) sk4 sk5"
  unfolding sk5_def do_db_def by (rule kernel_step.complete)

lemma step_sk6: "kernel_step id (Some opts1) sk5 sk6"
  unfolding sk6_def do_db_def by (rule kernel_step.approve)

lemma step_sk7: "kernel_step id (Some opts1) sk6 sk7"
  unfolding sk7_def do_db_def by (rule kernel_step.start)

lemma step_sk8: "kernel_step id (Some opts1) sk7 sk8"
  unfolding sk8_def do_db_def by (rule kernel_step.consume)

lemma step_sk9: "kernel_step id (Some opts1) sk8 sk9"
  unfolding sk9_def do_db_def by (rule finish_plain_step) code_simp

lemma step_sk10: "kernel_step id (Some opts1) sk3 sk10"
  unfolding sk10_def do_db_def by (rule kernel_step.cancel)

definition sk11 :: kernel where "sk11 = snd (cancelRun (Some opts1) sess run2 1600 sk7)"

text \<open>The memory status of the first run, recorded after its end.\<close>

definition sk12 :: kernel where "sk12 = do_db (recordRunMemoryStatus run1 Unavailable) sk7"

lemma step_sk12: "kernel_step id (Some opts1) sk7 sk12"
  unfolding sk12_def do_db_def by (rule kernel_step.memory_marker)

lemma reachable_sk0: "reachable id (Some opts1) sk0"
  by (auto simp: reachable_def booted_def sk0_def intro!: exI [of _ sk0])

lemmas reachable_sk1 = reachable_step [OF reachable_sk0 step_sk1]
lemmas reachable_sk2 = reachable_step [OF reachable_sk1 step_sk2]
lemmas reachable_sk3 = reachable_step [OF reachable_sk2 step_sk3]
lemmas reachable_sk4 = reachable_step [OF reachable_sk3 step_sk4]
lemmas reachable_sk5 = reachable_step [OF reachable_sk4 step_sk5]
lemmas reachable_sk6 = reachable_step [OF reachable_sk5 step_sk6]
lemmas reachable_sk7 = reachable_step [OF reachable_sk6 step_sk7]
lemmas reachable_sk8 = reachable_step [OF reachable_sk7 step_sk8]
lemmas reachable_sk9 = reachable_step [OF reachable_sk8 step_sk9]
lemmas reachable_sk10 = reachable_step [OF reachable_sk3 step_sk10]

lemma runs_along:
  "kernel_run id (Some opts1) sk2 sk5" "kernel_run id (Some opts1) sk5 sk7" "kernel_run id (Some opts1) sk7 sk9"
  "kernel_run id (Some opts1) sk8 sk9" "kernel_run id (Some opts1) sk3 sk5" "kernel_run id (Some opts1) sk3 sk10"
  by (meson step_sk3 step_sk4 step_sk5 step_sk6 step_sk7 step_sk8 step_sk9 step_sk10 rtranclp.rtrancl_into_rtrancl
      rtranclp.rtrancl_refl)+

subsection \<open>The stores along the way\<close>

definition turn1_row :: turn_row where
  "turn1_row =
   \<lparr>t_id = turn1, t_session = sess, t_seq = 1, t_input = User_text (js ''hello''), t_frozen =
     \<lparr>fc_temporal = \<lparr>tc_now = 1000, tc_timeZone = (js ''UTC'')\<rparr>, fc_uiContext = JObj
     [], fc_referenceContext = Some \<lparr>rc_version = 1, rc_items = []\<rparr>\<rparr>, t_createdAt =
     1000, t_nextRunAttempt = 2\<rparr>"

definition turn2_row :: turn_row where
  "turn2_row =
   \<lparr>t_id = turn2, t_session = sess, t_seq = 2, t_input = Action_approval prop1 hash1, t_frozen =
     \<lparr>fc_temporal = \<lparr>tc_now = 1400, tc_timeZone = (js ''UTC'')\<rparr>, fc_uiContext = JObj
     [], fc_referenceContext = Some \<lparr>rc_version = 1, rc_items = []\<rparr>\<rparr>, t_createdAt =
     1400, t_nextRunAttempt = 1\<rparr>"

definition run1_row :: run_row where
  "run1_row =
   \<lparr>r_id = run1, r_turn = turn1, r_session = sess, r_attempt = 1, r_status = Completed, r_strategy =
     (js ''m0-default''), r_result = Some (Result_v1 (js ''done'')), r_errorCode = None, r_eventSeq = 4,
     r_selectOnSuccess = True, r_toolRequestsUsed = 0, r_createdAt = 1000, r_startedAt = Some 1100,
     r_finishedAt = Some 1300, r_cancelRequestedAt = None, r_memoryStatus = None\<rparr>"

definition prop1_row :: proposal_row where
  "prop1_row =
   \<lparr>p_id = prop1, p_session = sess, p_sourceTurn = turn1, p_sourceRun = run1, p_decisionTurn = Some
     turn2, p_tool = (js ''calendar.reschedule''), p_connector = conn1, p_input = Reschedule_input (js
     ''2026-01-02'') (js ''2026-01-03''), p_targetRef = Some (js ''r1''), p_targetResource = Some res1,
     p_snapshot = Some snap1, p_revision = Some (js ''rev1''), p_preview = (js ''move lunch''), p_hash =
     hash1, p_status = Approved, p_createdAt = 1200, p_expiresAt = 9000, p_resolvedAt = Some 1400\<rparr>"

definition idem1_row :: idem_row where
  "idem1_row =
   \<lparr>i_scope = (js ''sessions:create''), i_key = key1, i_hash = (js ''create_session:1:{}''), i_status
     = 201, i_body = Session_body sess 900, i_createdAt = 900\<rparr>"

definition idem2_row :: idem_row where
  "idem2_row =
   \<lparr>i_scope = (js ''session:'' @ sess @ js '':message''), i_key = key1, i_hash = (js
     ''post_message:1:{\"selectOnSuccess\":true,\"strategy\":\"m0-default\",\"text\":\"hello\",\"timeZone\":\"UTC\",\"uiContext\":{}}''),
     i_status = 202, i_body = Run_body sess turn1 run1 1, i_createdAt = 1000\<rparr>"

definition idem3_row :: idem_row where
  "idem3_row =
   \<lparr>i_scope = (js ''proposal:'' @ prop1 @ js '':approve''), i_key = key2, i_hash = (js
     ''approve_proposal:1:{\"proposalHash\":\"'' @ hash1 @ js ''\",\"proposalId\":\"'' @ prop1 @ js ''\"}''),
     i_status = 202, i_body = Approve_body prop1 exec1 run2, i_createdAt = 1400\<rparr>"

definition context1_row :: context_row where
  "context1_row =
   \<lparr>x_session = sess, x_version = 1, x_items = [], x_updatedAt = 900\<rparr>"

definition act1_row :: activity_row where
  "act1_row =
   \<lparr>a_id = act1, a_kind = (js ''user_message''), a_session = Some sess, a_createdAt = 1000\<rparr>"

definition journal1 :: "run_event list" where
  "journal1 =
   [\<lparr>ev_runId = run1, ev_seq = 1, ev_payload = Run_queued 1, ev_createdAt = 1000\<rparr>,
     \<lparr>ev_runId = run1, ev_seq = 2, ev_payload = Run_started 1, ev_createdAt = 1100\<rparr>,
     \<lparr>ev_runId = run1, ev_seq = 3, ev_payload = Action_proposed prop1 hash1 (js
     ''calendar.reschedule''), ev_createdAt = 1300\<rparr>, \<lparr>ev_runId = run1, ev_seq = 4, ev_payload
     = Run_completed (Result_v1 (js ''done'')), ev_createdAt = 1300\<rparr>]"

definition journal2 :: "run_event list" where
  "journal2 =
   [\<lparr>ev_runId = run2, ev_seq = 1, ev_payload = Run_queued 1, ev_createdAt = 1400\<rparr>,
     \<lparr>ev_runId = run2, ev_seq = 2, ev_payload = Action_approved prop1 hash1 exec1, ev_createdAt =
     1400\<rparr>, \<lparr>ev_runId = run2, ev_seq = 3, ev_payload = Run_started 1, ev_createdAt =
     1500\<rparr>, \<lparr>ev_runId = run2, ev_seq = 4, ev_payload = Action_preflight_started exec1,
     ev_createdAt = 1500\<rparr>]"

lemma sk3_code: "sk3 =
   \<lparr>kdb = \<lparr>sessions = [\<lparr>s_id = sess, s_createdAt = 900, s_lastActiveAt = 1000,
     s_nextTurnPosition = 2\<rparr>], contexts = [context1_row], turns = [turn1_row], runs = [\<lparr>r_id =
     run1, r_turn = turn1, r_session = sess, r_attempt = 1, r_status = Running, r_strategy = (js
     ''m0-default''), r_result = None, r_errorCode = None, r_eventSeq = 2, r_selectOnSuccess = True,
     r_toolRequestsUsed = 0, r_createdAt = 1000, r_startedAt = Some 1100, r_finishedAt = None,
     r_cancelRequestedAt = None, r_memoryStatus = None\<rparr>], selections = [], events = [\<lparr>ev_runId
     = run1, ev_seq = 1, ev_payload = Run_queued 1, ev_createdAt = 1000\<rparr>, \<lparr>ev_runId = run1,
     ev_seq = 2, ev_payload = Run_started 1, ev_createdAt = 1100\<rparr>], idem = [idem1_row, idem2_row],
     activity = [act1_row], proposals = [], executions = [], grants = [], receipts = [], targets = [],
     connectors = [], user_version = 40\<rparr>, staged = []\<rparr>"
  by code_simp

declare sk3_def [code del] and sk3_code [code]

lemma sk5_code: "sk5 =
   \<lparr>kdb = \<lparr>sessions = [\<lparr>s_id = sess, s_createdAt = 900, s_lastActiveAt = 1000,
     s_nextTurnPosition = 2\<rparr>], contexts = [context1_row], turns = [turn1_row], runs = [run1_row],
     selections = [\<lparr>sel_turn = turn1, sel_run = run1, sel_at = 1300\<rparr>], events = journal1, idem
     = [idem1_row, idem2_row], activity = [act1_row], proposals = [\<lparr>p_id = prop1, p_session = sess,
     p_sourceTurn = turn1, p_sourceRun = run1, p_decisionTurn = None, p_tool = (js ''calendar.reschedule''),
     p_connector = conn1, p_input = Reschedule_input (js ''2026-01-02'') (js ''2026-01-03''), p_targetRef =
     Some (js ''r1''), p_targetResource = Some res1, p_snapshot = Some snap1, p_revision = Some (js
     ''rev1''), p_preview = (js ''move lunch''), p_hash = hash1, p_status = Pending, p_createdAt = 1200,
     p_expiresAt = 9000, p_resolvedAt = None\<rparr>], executions = [], grants = [], receipts = [], targets
     = [target1], connectors = [conn1], user_version = 40\<rparr>, staged = []\<rparr>"
  by code_simp

declare sk5_def [code del] and sk5_code [code]

lemma sk7_code: "sk7 =
   \<lparr>kdb = \<lparr>sessions = [\<lparr>s_id = sess, s_createdAt = 900, s_lastActiveAt = 1400,
     s_nextTurnPosition = 3\<rparr>], contexts = [context1_row], turns = [turn1_row, turn2_row], runs =
     [run1_row, \<lparr>r_id = run2, r_turn = turn2, r_session = sess, r_attempt = 1, r_status = Running,
     r_strategy = (js ''m5-action''), r_result = None, r_errorCode = None, r_eventSeq = 4, r_selectOnSuccess
     = True, r_toolRequestsUsed = 0, r_createdAt = 1400, r_startedAt = Some 1500, r_finishedAt = None,
     r_cancelRequestedAt = None, r_memoryStatus = None\<rparr>], selections = [\<lparr>sel_turn = turn1,
     sel_run = run1, sel_at = 1300\<rparr>], events = journal1 @ journal2, idem = [idem1_row, idem2_row,
     idem3_row], activity = [act1_row], proposals = [prop1_row], executions = [\<lparr>x_id = exec1,
     x_sessionId = sess, x_proposal = prop1, x_approvalTurn = turn2, x_actionRun = run2, x_status =
     Ex_preflight, x_callStartedAt = None, x_finishedAt = None, x_errorCode = None, x_createdAt = 1400,
     x_executionUpdatedAt = 1500\<rparr>], grants = [\<lparr>gr_execution = exec1, gr_session = sess,
     gr_proposal = prop1, gr_proposalHash = hash1, gr_tool = (js ''calendar.reschedule''), gr_inputHash =
     (js ''{\"end\":\"2026-01-03\",\"start\":\"2026-01-02\"}''), gr_consumedAt = None, gr_createdAt = 1400\<rparr>],
     receipts = [], targets = [target1], connectors = [conn1], user_version = 40\<rparr>, staged =
     []\<rparr>"
  by code_simp

declare sk7_def [code del] and sk7_code [code]

text \<open>The run of the first message and the action run, where they are.\<close>

lemma first_run: "runs (kdb sk3) \<noteq> []" "runs (kdb sk5) \<noteq> []" "runs (kdb sk7) \<noteq> []" "runs (kdb sk8) \<noteq> []" "runs (kdb sk9) \<noteq> []"
  by code_simp+

lemmas hd_run = first_run [THEN hd_in_set] and last_run = first_run [THEN last_in_set]

lemma sk2_same: "sk1\<lparr>kdb := kdb sk2\<rparr> = sk2"
  by (simp add: sk2_def do_db_def on_db_def)

lemma accepted_message:
  "postMessage id sess (js ''hello'') (JObj []) message1 (turn1, run1, act1) (kdb sk1) =
     (Inr (202, Run_body sess turn1 run1 1, False), kdb sk2)"
proof -
  have "fst (postMessage id sess (js ''hello'') (JObj []) message1 (turn1, run1, act1) (kdb sk1)) =
      Inr (202, Run_body sess turn1 run1 1, False)"
    by code_simp
  then show ?thesis by (simp add: sk2_def do_db_def prod_eq_iff)
qed

lemma sk8_same: "sk7\<lparr>kdb := kdb sk8\<rparr> = sk8"
  by (simp add: sk8_def do_db_def on_db_def)

lemma granted_once: "\<exists>g. consumeActionGrant id run2 1600 (kdb sk7) = (Inr (Inr g), kdb sk8)"
proof -
  have "case fst (consumeActionGrant id run2 1600 (kdb sk7)) of Inr (Inr g) \<Rightarrow> True | _ \<Rightarrow> False"
    by code_simp
  then show ?thesis
    by (auto simp: sk8_def do_db_def prod_eq_iff split: sum.splits)
qed

lemma cancelled_action:
  "cancelRun (Some opts1) sess run2 1600 sk7 = (Inr (Cancelled, last (runs (kdb sk11))), sk11)"
proof -
  have "(case fst (cancelRun (Some opts1) sess run2 1600 sk7) of Inl e \<Rightarrow> False | Inr (s, r) \<Rightarrow> s = Cancelled \<and> r = last (runs (kdb sk11)))"
    by code_simp
  then show ?thesis
    by (auto simp: sk11_def prod_eq_iff split: sum.splits)
qed

end
