(* ===== verification/Kernel_Claims.thy ===== *)
theory Kernel_Claims
  imports Scenario
begin

text \<open>
  What the kernel promises of every reachable state and of every later state of a run of it, each with an
  instance on the states of the scenario.
\<close>

subsection \<open>Reachable states\<close>

lemma reachable_wf: "reachable H opts k \<Longrightarrow> wf_db (kdb k)"
  using reachable_ok by (auto simp: kernel_ok_def)

lemma reachable_act: "reachable H opts k \<Longrightarrow> act_ok H (kdb k)"
  using reachable_ok by (auto simp: kernel_ok_def)

lemma readRun_of: "wf_db db \<Longrightarrow> r \<in> set (runs db) \<Longrightarrow> readRun db (r_id r) = Some r"
  unfolding readRun_def by (rule find_key_distinct) (simp_all add: wf_db_def runs_ok_def)

lemma distinct_filter_eq:
  "distinct (map f (filter P xs)) \<Longrightarrow> a \<in> set xs \<Longrightarrow> b \<in> set xs \<Longrightarrow> P a \<Longrightarrow> P b \<Longrightarrow> f a = f b \<Longrightarrow> a = b"
  using distinct_key_eq [of f "filter P xs" a b] by simp

lemma filter_key_single:
  "distinct (map f xs) \<Longrightarrow> x \<in> set xs \<Longrightarrow> filter (\<lambda>y. f y = f x) xs = [x]"
  by (induction xs) (auto simp: filter_empty_conv image_iff)

text \<open>C2. A session never has two runs that are queued, running or being cancelled.\<close>

theorem one_active_run:
  assumes "reachable H opts k" "r1 \<in> set (runs (kdb k))" "r2 \<in> set (runs (kdb k))"
    and "isActiveStatus (r_status r1)" "isActiveStatus (r_status r2)" "r_session r1 = r_session r2"
  shows "r1 = r2"
proof (rule distinct_filter_eq)
  show "distinct (map r_session (filter active_row (runs (kdb k))))"
    using reachable_wf [OF assms(1)] by (simp add: wf_db_def runs_ok_def runs_unique_def)
qed (use assms in \<open>simp_all add: active_row_def\<close>)

theorem one_active_run_witness:
  "isActiveStatus (r_status (last (runs (kdb sk7)))) \<and> runs (kdb sk7) ! 1 = last (runs (kdb sk7))"
proof
  have m: "length (runs (kdb sk7)) = 2" "isActiveStatus (r_status (runs (kdb sk7) ! 1))"
    "r_session (runs (kdb sk7) ! 1) = r_session (last (runs (kdb sk7)))"
    by code_simp+
  then have n: "runs (kdb sk7) ! 1 \<in> set (runs (kdb sk7))"
    by (intro nth_mem) simp
  show a: "isActiveStatus (r_status (last (runs (kdb sk7))))"
    by code_simp
  show "runs (kdb sk7) ! 1 = last (runs (kdb sk7))"
    by (rule one_active_run [OF reachable_sk7 n last_run(3) m(2) a m(3)])
qed

text \<open>
  C1. The journal of a run: its events are numbered 1, 2, ... up to the run's counter, replaying
  them from \<open>run.queued\<close> gives exactly the stored status, every payload satisfies its schema, and
  there is a terminal event exactly when the status is terminal, as the last event.
\<close>

theorem journal_of_run:
  assumes "reachable H opts k" "r \<in> set (runs (kdb k))"
  defines "es \<equiv> runEvents (kdb k) (r_id r)"
  shows "map ev_seq es = [1..<Suc (r_eventSeq r)] \<and>
    journal_status (is_m5 r) (map ev_payload es) = Some (r_status r) \<and>
    list_all payload_ok (map ev_payload es) \<and>
    (isTerminalStatus (r_status r) \<longleftrightarrow> isTerminalEvent (ev_payload (last es))) \<and>
    list_all (\<lambda>e. \<not> isTerminalEvent (ev_payload e)) (butlast es)"
proof -
  have j: "run_journal_ok (events (kdb k)) r"
    using reachable_wf [OF assms(1)] assms(2) by (simp add: wf_db_def journal_ok_def list_all_iff)
  then have js: "journal_status (is_m5 r) (map ev_payload es) = Some (r_status r)"
    by (simp add: run_journal_ok_def es_def runEvents_def Let_def)
  then obtain a ps where p: "map ev_payload es = Run_queued a # ps" "follow (is_m5 r) Queued ps = Some (r_status r)"
    by (cases "(is_m5 r, map ev_payload es)" rule: journal_status.cases) auto
  have k: "(isTerminalStatus (r_status r) \<longleftrightarrow> isTerminalEvent (last (map ev_payload es))) \<and>
      (\<forall>q \<in> set (butlast (map ev_payload es)). \<not> isTerminalEvent q)"
  proof (cases "ps = []")
    case True
    then show ?thesis using p by simp
  next
    case False
    then show ?thesis using p follow_kind [OF p(2)] by auto
  qed
  have ne: "es \<noteq> []" using p by auto
  have "list_all (\<lambda>e. \<not> isTerminalEvent (ev_payload e)) (butlast es)"
    using k by (simp add: list_all_iff map_butlast [symmetric])
  then show ?thesis
    using j js k ne by (simp add: run_journal_ok_def es_def runEvents_def Let_def last_map)
qed

theorem journal_of_run_witness:
  "map ev_seq (runEvents (kdb sk9) (r_id (last (runs (kdb sk9))))) = [1..<8] \<and>
   isTerminalEvent (ev_payload (last (runEvents (kdb sk9) (r_id (last (runs (kdb sk9)))))))"
proof -
  have "r_eventSeq (last (runs (kdb sk9))) = 7"
    "isTerminalStatus (r_status (last (runs (kdb sk9))))"
    by code_simp+
  then show ?thesis
    using journal_of_run [OF reachable_sk9 last_run(5)] by simp
qed

subsection \<open>What later states keep\<close>

lemma later_run:
  assumes "reachable H opts k" "kernel_run H opts k k'" "r \<in> set (runs (kdb k))"
  obtains r' where "r' \<in> set (runs (kdb k'))" "run_evolves (kdb k) (kdb k') r r'"
  using reachable_evolves [OF assms(1,2)] assms(3) unfolding evolves_def by blast

lemma frozen_columns_only:
  "frozen_columns r' = frozen_columns r \<Longrightarrow>
     r' = r\<lparr>r_toolRequestsUsed := r_toolRequestsUsed r', r_memoryStatus := r_memoryStatus r'\<rparr>"
  by (cases r; cases r') (simp add: frozen_columns_def)

lemma ended_rows_stay:
  assumes "reachable H opts k" "kernel_run H opts k k'" "r \<in> set (runs (kdb k))" "isTerminalStatus (r_status r)"
  obtains r' where "readRun (kdb k') (r_id r) = Some r'" "frozen_columns r' = frozen_columns r"
proof -
  obtain r' where r': "r' \<in> set (runs (kdb k'))" "run_evolves (kdb k) (kdb k') r r'"
    using later_run [OF assms(1-3)] .
  then have f: "frozen_columns r' = frozen_columns r"
    using assms(4) unfolding run_evolves_def by blast
  moreover have "readRun (kdb k') (r_id r) = Some r'"
    using readRun_of [OF reachable_wf [OF reachable_run [OF assms(1,2)]] r'(1)] frozen_columns_sel(1) [OF f] by simp
  ultimately show thesis
    using that by blast
qed

text \<open>C11. A run that has ended keeps its row, whatever is called, but for two columns that are written without a look
  at the status (the memory status and the count of tool requests); and its journal never changes.\<close>

theorem ended_run_frozen:
  assumes "reachable H opts k" "kernel_run H opts k k'" "r \<in> set (runs (kdb k))" "isTerminalStatus (r_status r)"
  shows "(\<exists>used memory. readRun (kdb k') (r_id r) = Some (r\<lparr>r_toolRequestsUsed := used, r_memoryStatus := memory\<rparr>)) \<and>
    runEvents (kdb k') (r_id r) = runEvents (kdb k) (r_id r)"
proof -
  obtain r' where r': "r' \<in> set (runs (kdb k'))" "run_evolves (kdb k) (kdb k') r r'"
    using later_run [OF assms(1-3)] .
  obtain evs where evs: "runEvents (kdb k') (r_id r) = runEvents (kdb k) (r_id r) @ evs"
    "follow (is_m5 r) (r_status r) (map ev_payload evs) = Some (r_status r')"
    using r'(2) unfolding run_evolves_def by blast
  have "evs = []"
    using follow_terminal [OF assms(4) evs(2)] by simp
  moreover obtain r'' where "readRun (kdb k') (r_id r) = Some r''" "frozen_columns r'' = frozen_columns r"
    using ended_rows_stay [OF assms] .
  ultimately show ?thesis
    using evs(1) frozen_columns_only [of r'' r] by auto
qed

theorem ended_run_frozen_witness:
  "r_status (hd (runs (kdb sk5))) = Completed \<and>
   (\<exists>used memory. readRun (kdb sk12) (r_id (hd (runs (kdb sk5)))) =
      Some (hd (runs (kdb sk5))\<lparr>r_toolRequestsUsed := used, r_memoryStatus := memory\<rparr>)) \<and>
   runEvents (kdb sk12) (r_id (hd (runs (kdb sk5)))) = runEvents (kdb sk5) (r_id (hd (runs (kdb sk5)))) \<and>
   r_memoryStatus (hd (runs (kdb sk5))) = None \<and> r_memoryStatus (hd (runs (kdb sk12))) = Some Unavailable"
proof -
  have c: "r_status (hd (runs (kdb sk5))) = Completed" "isTerminalStatus (r_status (hd (runs (kdb sk5))))"
    "r_memoryStatus (hd (runs (kdb sk5))) = None" "r_memoryStatus (hd (runs (kdb sk12))) = Some Unavailable"
    by code_simp+
  have run: "kernel_run id (Some opts1) sk5 sk12"
    using runs_along(2) step_sk12 by (rule rtranclp.rtrancl_into_rtrancl)
  note e = ended_run_frozen [OF reachable_sk5 run hd_run(2) c(2)]
  show ?thesis
    by (intro conjI c(1) c(3) c(4) e [THEN conjunct1] e [THEN conjunct2])
qed

text \<open>A stored response stays the response of its scope and key.\<close>

lemma response_later:
  assumes "reachable H opts k" "kernel_run H opts k k'" "i \<in> set (idem (kdb k))"
  shows "toStoredResponse (kdb k') (i_scope i) (i_key i) = Some i"
proof -
  have "i \<in> set (idem (kdb k'))"
    using reachable_evolves [OF assms(1,2)] assms(3) unfolding evolves_def by blast
  moreover have "distinct (map (\<lambda>i. (i_scope i, i_key i)) (idem (kdb k')))"
    using reachable_wf [OF reachable_run [OF assms(1,2)]] by (simp add: wf_db_def refs_ok_def)
  ultimately show ?thesis
    using find_key_distinct [of "\<lambda>i. (i_scope i, i_key i)"] by (simp add: toStoredResponse_def)
qed

lemma stored_at_end:
  "storeIdempotentResponse scope key hash st body now db = Inr db' \<Longrightarrow>
     idem db' = idem db @ [\<lparr>i_scope = scope, i_key = key, i_hash = hash, i_status = st, i_body = body, i_createdAt = now\<rparr>]"
  by (auto simp: storeIdempotentResponse_def insert_idem_def split: if_splits)

text \<open>The payload that a message hashes.\<close>

definition message_payload :: "jstr \<Rightarrow> json \<Rightarrow> message_options \<Rightarrow> json" where
  "message_payload text ui options = JObj [(js ''text'', JStr text), (js ''uiContext'', ui),
     (js ''strategy'', JStr (default_to (js ''m0-default'') (mo_strategy options))),
     (js ''selectOnSuccess'', JBool (default_to True (mo_selectOnSuccess options))),
     (js ''timeZone'', JStr (default_to (js ''UTC'') (mo_timeZone options)))]"

lemma parse_run_body_same: "parse_run_body b = Inr b' \<Longrightarrow> b' = b"
  by (cases b) (auto split: if_splits)

text \<open>What an accepted, first message leaves behind.\<close>

lemma message_accepted:
  assumes "postMessage H session text ui options fresh db = (Inr (st, body, False), db')"
  obtains scope hash i where "messageScope session = Some scope" "isUuidV4 session" "user_text_ok text"
    "ui_context_ok ui" "strategy_ok (default_to (js ''m0-default'') (mo_strategy options))"
    "turn_input_ok (User_text text)" "idempotencyScope_ok scope"
    "requestHash H (js ''post_message'') 1 (message_payload text ui options) = Some hash"
    "i \<in> set (idem db')" "i_scope i = scope" "i_key i = lower_ascii (mo_key options)" "i_hash i = hash"
    "i_status i = st" "i_body i = body" "parse_run_body body = Inr body"
proof -
  have g: "isUuidV4 session" "isUuidV4 (mo_key options)" "unix_ms_ok (mo_now options)" "user_text_ok text"
    "ui_context_ok ui" "strategy_ok (default_to (js ''m0-default'') (mo_strategy options))"
    "turn_input_ok (User_text text)"
    using assms by (auto simp: postMessage_def Let_def split: if_splits)
  obtain scope hash where sh: "messageScope session = Some scope" "idempotencyScope_ok scope"
    "requestHash H (js ''post_message'') 1 (message_payload text ui options) = Some hash"
    using assms g by (auto simp: postMessage_def Let_def message_payload_def split: option.splits if_splits)
  have tx: "post_message_tx session scope (lower_ascii (mo_key options)) hash (User_text text) ui
      (default_to (js ''m0-default'') (mo_strategy options)) (default_to True (mo_selectOnSuccess options))
      (default_to (js ''UTC'') (mo_timeZone options)) (mo_now options) fresh db = Inr ((st, body, False), db')"
    using assms g sh
    by (auto simp: postMessage_def Let_def message_payload_def withImmediate_def split: sum.splits)
  then obtain db3 where e: "storeIdempotentResponse scope (lower_ascii (mo_key options)) hash 202 body (mo_now options) db3 = Inr db'"
    "st = 202" "parse_run_body body = Inr body"
    by (auto simp: post_message_tx_def rbind_eq_Inr Let_def split: option.splits if_splits prod.splits)
  show thesis
    by (rule that [OF sh(1) g(1,4,5,6,7) sh(2,3)]) (use stored_at_end [OF e(1)] e(2,3) parse_run_body_same in \<open>auto\<close>)
qed

text \<open>A repeated message finds the stored response.\<close>

lemma message_repeated:
  assumes "messageScope session = Some scope" "isUuidV4 session" "user_text_ok text" "ui_context_ok ui"
    "strategy_ok (default_to (js ''m0-default'') (mo_strategy options))" "turn_input_ok (User_text text)"
    "idempotencyScope_ok scope" "requestHash H (js ''post_message'') 1 (message_payload text ui options) = Some hash"
    "isUuidV4 (mo_key options)" "unix_ms_ok (mo_now options)"
    "toStoredResponse db scope (lower_ascii (mo_key options)) = Some i"
  shows "postMessage H session text ui options fresh db =
    (if i_hash i \<noteq> hash then (Inl (Idempotency_conflict scope), db)
     else case parse_run_body (i_body i) of Inl e \<Rightarrow> (Inl e, db) | Inr body \<Rightarrow> (Inr (i_status i, body, True), db))"
  using assms
  by (auto simp: postMessage_def Let_def message_payload_def withImmediate_def post_message_tx_def
      split: prod.splits sum.splits)

lemma reachable_message:
  assumes "reachable H opts k" "plain_strategy options"
    and "postMessage H session msg ui options fresh (kdb k) = (out, db1)"
  shows "reachable H opts (k\<lparr>kdb := db1\<rparr>)"
proof -
  have "kernel_step H opts k (k\<lparr>kdb := db1\<rparr>)"
    using kernel_step.message [OF assms(2), where H = H and k = k] assms(3) by (metis on_db_def snd_conv)
  then show ?thesis using assms(1) by (rule reachable_step [rotated])
qed

text \<open>
  C4. A message that was accepted is accepted once: after any later operations of the kernel, the same
  request under the same key (in either case, at any time) returns the stored response, marked as
  replayed, and writes nothing.
\<close>

theorem message_replayed:
  assumes "reachable H opts k" "plain_strategy options"
    and "postMessage H session text ui options fresh (kdb k) = (Inr (st, body, False), db1)"
    and "kernel_run H opts (k\<lparr>kdb := db1\<rparr>) k'"
    and "isUuidV4 key'" "lower_ascii key' = lower_ascii (mo_key options)" "unix_ms_ok now'"
  shows "postMessage H session text ui (options\<lparr>mo_key := key', mo_now := now'\<rparr>) fresh' (kdb k') =
    (Inr (st, body, True), kdb k')"
proof -
  have r: "reachable H opts (k\<lparr>kdb := db1\<rparr>)"
    by (rule reachable_message [OF assms(1-3)])
  show ?thesis
  proof (rule message_accepted [OF assms(3)])
    fix scope hash i
    assume a: "messageScope session = Some scope" "isUuidV4 session" "user_text_ok text" "ui_context_ok ui"
      "strategy_ok (default_to (js ''m0-default'') (mo_strategy options))" "turn_input_ok (User_text text)"
      "idempotencyScope_ok scope" "requestHash H (js ''post_message'') 1 (message_payload text ui options) = Some hash"
      "i \<in> set (idem db1)" "i_scope i = scope" "i_key i = lower_ascii (mo_key options)" "i_hash i = hash"
      "i_status i = st" "i_body i = body" "parse_run_body body = Inr body"
    have "toStoredResponse (kdb k') scope (lower_ascii key') = Some i"
      using response_later [OF r assms(4), of i] a(9-11) assms(6) by simp
    then show ?thesis
      using a assms(5,7) by (subst message_repeated [where i = i and hash = hash])
        (simp_all add: message_payload_def)
  qed
qed

theorem message_replayed_witness:
  "postMessage id sess (js ''hello'') (JObj []) message1 (turn1, run1, act1) (kdb sk1) =
     (Inr (202, Run_body sess turn1 run1 1, False), kdb sk2) \<and>
   postMessage id sess (js ''hello'') (JObj []) (message1\<lparr>mo_key := mo_key message1, mo_now := 7000\<rparr>)
     (turn2, run2, act1) (kdb sk5) = (Inr (202, Run_body sess turn1 run1 1, True), kdb sk5)"
proof
  show m: "postMessage id sess (js ''hello'') (JObj []) message1 (turn1, run1, act1) (kdb sk1) =
     (Inr (202, Run_body sess turn1 run1 1, False), kdb sk2)"
    by (rule accepted_message)
  show "postMessage id sess (js ''hello'') (JObj []) (message1\<lparr>mo_key := mo_key message1, mo_now := 7000\<rparr>)
     (turn2, run2, act1) (kdb sk5) = (Inr (202, Run_body sess turn1 run1 1, True), kdb sk5)"
    by (rule message_replayed [OF reachable_sk1 plain_message1 m]) (simp_all add: sk2_same runs_along, code_simp+)
qed

lemma payload_text:
  assumes "ui_context_ok ui" "canonicalJson (message_payload text ui options) = canonicalJson (message_payload text' ui options)"
  shows "text = text'"
proof -
  have v: "value_ok (message_payload t ui options)" for t
    using assms(1) json_value_ok [of ui]
    by (auto simp: message_payload_def ui_context_ok_def js_inj split: json.splits)
  have "denote (message_payload text ui options) = denote (message_payload text' ui options)"
    by (rule canonical_inj [OF v v _ _ assms(2)]) (simp_all add: message_payload_def)
  then show ?thesis
    by (auto simp: message_payload_def denote_JObj present_def dest!: fun_cong [of _ _ "js ''text''"])
qed

lemma other_hash:
  assumes "inj H" "ui_context_ok ui" "msg' \<noteq> msg"
    "requestHash H (js ''post_message'') 1 (message_payload msg ui options) = Some hash"
  obtains hash' where "requestHash H (js ''post_message'') 1 (message_payload msg' ui options) = Some hash'" "hash' \<noteq> hash"
proof -
  have some: "\<exists>c. canonicalJson (message_payload m ui options) = Some c" for m
  proof -
    have "message_payload m ui options \<noteq> JUndef"
      by (simp add: message_payload_def)
    then show ?thesis
      by (simp only: canonicalJson_def if_False) blast
  qed
  obtain c where c: "canonicalJson (message_payload msg' ui options) = Some c"
    using some by blast
  obtain c0 where c0: "canonicalJson (message_payload msg ui options) = Some c0"
    using some by blast
  have "c \<noteq> c0"
    using payload_text [OF assms(2), of msg' options msg] assms(3) c c0 by auto
  then show thesis
    using that assms(1,4) c c0 by (auto simp: requestHash_def inj_eq split: if_splits)
qed

text \<open>
  C12. The key of an accepted message cannot be reused for another text: the request is refused with the
  scope of the session, and nothing is written. The digest must be injective, as SHA-256 is assumed to be.
\<close>

theorem message_key_conflict:
  assumes "reachable H opts k" "plain_strategy options" "inj H"
    and "postMessage H session msg ui options fresh (kdb k) = (Inr (st, body, False), db1)"
    and "kernel_run H opts (k\<lparr>kdb := db1\<rparr>) k'" "messageScope session = Some scope"
    and "msg' \<noteq> msg" "user_text_ok msg'" "turn_input_ok (User_text msg')"
  shows "postMessage H session msg' ui options fresh' (kdb k') = (Inl (Idempotency_conflict scope), kdb k')"
proof -
  have r: "reachable H opts (k\<lparr>kdb := db1\<rparr>)"
    by (rule reachable_message [OF assms(1,2,4)])
  have g: "isUuidV4 (mo_key options)" "unix_ms_ok (mo_now options)"
    using assms(4) by (auto simp: postMessage_def Let_def split: if_splits)
  show ?thesis
  proof (rule message_accepted [OF assms(4)])
    fix sc hash i
    assume a: "messageScope session = Some sc" "isUuidV4 session" "user_text_ok msg" "ui_context_ok ui"
      "strategy_ok (default_to (js ''m0-default'') (mo_strategy options))" "turn_input_ok (User_text msg)"
      "idempotencyScope_ok sc" "requestHash H (js ''post_message'') 1 (message_payload msg ui options) = Some hash"
      "i \<in> set (idem db1)" "i_scope i = sc" "i_key i = lower_ascii (mo_key options)" "i_hash i = hash"
    have "toStoredResponse (kdb k') sc (lower_ascii (mo_key options)) = Some i"
      using response_later [OF r assms(5), of i] a(9-11) by simp
    moreover obtain hash' where h: "requestHash H (js ''post_message'') 1 (message_payload msg' ui options) = Some hash'"
      "hash' \<noteq> hash"
      using other_hash [OF assms(3) a(4) assms(7) a(8)] by blast
    ultimately show ?thesis
      using a g assms(6,8,9) by (subst message_repeated [where i = i and hash = hash', OF _ _ _ _ _ _ _ h(1)]) simp_all
  qed
qed

theorem message_key_conflict_witness:
  "postMessage id sess (js ''bye'') (JObj []) message1 (turn2, run2, act1) (kdb sk5) =
     (Inl (Idempotency_conflict (js ''session:'' @ sess @ js '':message'')), kdb sk5)"
proof (rule message_key_conflict [OF reachable_sk1 plain_message1 _ accepted_message])
  show "kernel_run id (Some opts1) (sk1\<lparr>kdb := kdb sk2\<rparr>) sk5"
    by (simp add: sk2_same runs_along)
qed (simp, code_simp+)

subsection \<open>Cancellation\<close>

lemma follow_cancelling:
  "follow m5 Cancel_requested ps = Some s \<Longrightarrow> s = Cancel_requested \<or> s = Cancelled"
proof (induction ps)
  case Nil
  then show ?case by simp
next
  case (Cons p ps)
  then obtain s1 where s1: "status_after m5 Cancel_requested p = Some s1" "follow m5 s1 ps = Some s"
    by (auto split: option.splits)
  then have "s1 = Cancel_requested \<or> s1 = Cancelled"
    by (cases p) (auto simp: status_after_def split: if_splits)
  then show ?case
    using s1(2) Cons.IH follow_terminal [of Cancelled m5 ps s] by auto
qed

text \<open>
  C10. Once a cancellation of a running run has been accepted, the run can only end cancelled: in
  every later state completing or failing it is refused without an effect.
\<close>

lemma not_running_completes:
  assumes "wf_db (kdb k)" "r \<in> set (runs (kdb k))" "r_status r \<noteq> Running"
  shows "kdb (snd (completeRun opts (r_id r) result now clock pid k)) = kdb k"
    and "fst (completeRun opts (r_id r) result now clock pid k) = Inr (b, row) \<Longrightarrow> \<not> b \<and> row = r"
    and "kdb (snd (failRun opts (r_id r) code now k)) = kdb k"
    and "fst (failRun opts (r_id r) code now k) = Inr (b, row) \<Longrightarrow> \<not> b \<and> row = r"
proof -
  have rd: "readRun (kdb k) (r_id r) = Some r" "parseRunRow r = Inr r"
    using readRun_of [OF assms(1,2)] wf_parse [OF assms(1,2)] by simp_all
  show "kdb (snd (completeRun opts (r_id r) result now clock pid k)) = kdb k"
    using rd assms(3) by (simp add: kdb_complete complete_tx_def withImmediate_def)
  show "fst (completeRun opts (r_id r) result now clock pid k) = Inr (b, row) \<Longrightarrow> \<not> b \<and> row = r"
    using rd assms(3) by (auto simp: completeRun_def complete_tx_def withImmediate_def Let_def split: if_splits prod.splits)
  show "kdb (snd (failRun opts (r_id r) code now k)) = kdb k"
    using rd assms(3) by (simp add: failRun_def kdb_then_clear fail_tx_def withImmediate_def)
  show "fst (failRun opts (r_id r) code now k) = Inr (b, row) \<Longrightarrow> \<not> b \<and> row = r"
    using rd assms(3) by (auto simp: failRun_def then_clear_def fail_tx_def withImmediate_def split: if_splits)
qed

theorem cancellation_wins:
  assumes "reachable H opts k" "kernel_run H opts k k'" "r \<in> set (runs (kdb k))" "r_status r = Cancel_requested"
  shows "\<exists>r'. readRun (kdb k') (r_id r) = Some r' \<and> (r_status r' = Cancel_requested \<or> r_status r' = Cancelled) \<and>
    kdb (snd (completeRun opts (r_id r) result now clock pid k')) = kdb k' \<and>
    kdb (snd (failRun opts (r_id r) code now k')) = kdb k'"
proof -
  obtain r' where r': "r' \<in> set (runs (kdb k'))" "run_evolves (kdb k) (kdb k') r r'"
    using later_run [OF assms(1-3)] .
  then have id: "r_id r' = r_id r" and s: "r_status r' = Cancel_requested \<or> r_status r' = Cancelled"
    using follow_cancelling assms(4) unfolding run_evolves_def by metis+
  have w: "wf_db (kdb k')"
    by (rule reachable_wf [OF reachable_run [OF assms(1,2)]])
  have "r_status r' \<noteq> Running"
    using s by auto
  then show ?thesis
    using readRun_of [OF w r'(1)] not_running_completes(1,3) [OF w r'(1)] s id by auto
qed

theorem cancellation_wins_witness:
  "r_status (hd (runs (kdb sk10))) = Cancel_requested \<and>
   kdb (snd (completeRun (Some opts1) (r_id (hd (runs (kdb sk10)))) (Result_v1 (js ''late'')) 1300 1300 prop1 sk10)) = kdb sk10"
proof
  show s: "r_status (hd (runs (kdb sk10))) = Cancel_requested"
    by code_simp
  have "runs (kdb sk10) \<noteq> []"
    by code_simp
  then show "kdb (snd (completeRun (Some opts1) (r_id (hd (runs (kdb sk10)))) (Result_v1 (js ''late'')) 1300 1300 prop1 sk10)) = kdb sk10"
    using cancellation_wins [OF reachable_sk10 rtranclp.rtrancl_refl hd_in_set s] by blast
qed

subsection \<open>Decisions and approved writes\<close>

text \<open>
  C13. A proposal is decided once: when it is approved, rejected or expired, its row never changes again;
  while it is pending, only its decision can change, never what was proposed.
\<close>

theorem decision_is_final:
  assumes "kernel_run H opts k k'" "p \<in> set (proposals (kdb k))"
  shows "\<exists>p' \<in> set (proposals (kdb k')). proposal_content p' = proposal_content p \<and> (p_status p \<noteq> Pending \<longrightarrow> p' = p)"
proof -
  have "kept_rows proposal_step (proposals (kdb k)) (proposals (kdb k'))"
    using run_remembers [OF assms(1)] by (simp add: remembers_def)
  then show ?thesis
    using kept_rowsD [OF _ assms(2)] unfolding proposal_step_def by blast
qed

theorem decision_is_final_witness:
  "p_status (hd (proposals (kdb sk5))) = Pending \<and>
   (\<exists>p' \<in> set (proposals (kdb sk7)). proposal_content p' = proposal_content (hd (proposals (kdb sk5))))"
proof
  show "p_status (hd (proposals (kdb sk5))) = Pending"
    by code_simp
  have "proposals (kdb sk5) \<noteq> []"
    by code_simp
  then show "\<exists>p' \<in> set (proposals (kdb sk7)). proposal_content p' = proposal_content (hd (proposals (kdb sk5)))"
    using decision_is_final [OF runs_along(2) hd_in_set] by blast
qed

text \<open>A marked execution stays marked, at the same time, for the same run.\<close>

lemma later_execution:
  assumes "kernel_run H opts k k'" "x \<in> set (executions (kdb k))"
  obtains x' where "x' \<in> set (executions (kdb k'))" "execution_step x x'"
proof -
  have "kept_rows execution_step (executions (kdb k)) (executions (kdb k'))"
    using run_remembers [OF assms(1)] by (simp add: remembers_def)
  then show thesis
    using kept_rowsD [OF _ assms(2)] that by blast
qed

lemma execution_of_run:
  assumes "reachable H opts k" "x \<in> set (executions (kdb k))"
  shows "readExecutionByRun (kdb k) (x_actionRun x) = Some x"
proof -
  have "distinct (map x_actionRun (executions (kdb k)))"
    using reachable_act [OF assms(1)] by (simp add: act_ok_def)
  then show ?thesis
    using assms(2) unfolding readExecutionByRun_def by (rule find_key_distinct)
qed

lemma granted_marks:
  assumes "reachable H opts k" "consumeActionGrant H rid now (kdb k) = (Inr (Inr g), db1)"
  obtains x where "x \<in> set (executions db1)" "x_actionRun x = rid" "marked x"
proof -
  obtain r x p gr where pr: "pair H (kdb k) r x p gr" "r_id r = rid" "db1 = consumed_db r x gr now (kdb k)"
    using consume_cases [OF reachable_ok [OF assms(1)] assms(2)] by metis
  have "executions db1 = put_row x_id (executing now x) (executions (kdb k))"
    using pr(3) by (simp add: consumed_db_def acted_def)
  moreover have "executing now x \<in> set (put_row x_id (executing now x) (executions (kdb k)))"
    using pair_distinct(3) [OF pr(1)] by (force simp: put_row_def upd_where_def executing_def)
  moreover have "x_actionRun (executing now x) = rid" "marked (executing now x)"
    using pr by (simp_all add: executing_def marked_def pair_def)
  ultimately show thesis using that by simp
qed

lemma reachable_consume:
  assumes "reachable H opts k" "consumeActionGrant H rid now (kdb k) = (out, db1)"
  shows "reachable H opts (k\<lparr>kdb := db1\<rparr>)"
  using reachable_step [OF assms(1) kernel_step.consume [of H opts k rid now]] assms(2) by (simp add: on_db_def)

text \<open>The marker of a granted run in every later state.\<close>

lemma marker_later:
  assumes "reachable H opts k" "consumeActionGrant H rid now (kdb k) = (Inr (Inr g), db1)"
    "kernel_run H opts (k\<lparr>kdb := db1\<rparr>) k'"
  obtains x where "readExecutionByRun (kdb k') rid = Some x" "marked x"
proof -
  obtain x where x: "x \<in> set (executions db1)" "x_actionRun x = rid" "marked x"
    using granted_marks [OF assms(1,2)] .
  then obtain x' where x': "x' \<in> set (executions (kdb k'))" "execution_step x x'"
    using later_execution [OF assms(3), of x] by auto
  then have "x_actionRun x' = rid" "marked x'"
    using x by (simp_all add: execution_step_def marked_def)
  then show thesis
    using execution_of_run [OF reachable_run [OF reachable_consume [OF assms(1,2)] assms(3)] x'(1)] that by simp
qed

text \<open>
  C3. The right to issue the external write is given at most once: after a granted call, no later call
  for the same run is granted, whatever happened in between.
\<close>

theorem grant_is_one_shot:
  assumes "reachable H opts k" "consumeActionGrant H rid now (kdb k) = (Inr (Inr g), db1)"
    and "kernel_run H opts (k\<lparr>kdb := db1\<rparr>) k'"
  shows "\<nexists>g'. fst (consumeActionGrant H rid now' (kdb k')) = Inr (Inr g')"
proof
  assume "\<exists>g'. fst (consumeActionGrant H rid now' (kdb k')) = Inr (Inr g')"
  then obtain g' db2 where c: "consumeActionGrant H rid now' (kdb k') = (Inr (Inr g'), db2)"
    by (metis prod.collapse)
  obtain x where x: "readExecutionByRun (kdb k') rid = Some x" "marked x"
    using marker_later [OF assms] .
  obtain r y p gr where "pair H (kdb k') r y p gr" "r_id r = rid" "x_status y = Ex_preflight"
    using consume_cases [OF reachable_ok [OF reachable_run [OF reachable_consume [OF assms(1,2)] assms(3)]] c] by metis
  then show False
    using pair_reads(2) preflight_columns(6) x by fastforce
qed

theorem grant_is_one_shot_witness:
  "(\<exists>g. consumeActionGrant id run2 1600 (kdb sk7) = (Inr (Inr g), kdb sk8)) \<and>
   (\<nexists>g'. fst (consumeActionGrant id run2 1650 (kdb sk9)) = Inr (Inr g'))"
proof -
  obtain g where g: "consumeActionGrant id run2 1600 (kdb sk7) = (Inr (Inr g), kdb sk8)"
    using granted_once by blast
  then show ?thesis
    using grant_is_one_shot [OF reachable_sk7 g, of sk9 1650] by (simp add: sk8_same runs_along)
qed

text \<open>
  C6. After the grant the action run cannot be cancelled: a cancellation by the owner either finds the
  run ended and returns its status, or is refused as not cancellable; it changes nothing.
\<close>

lemma is_m5_of_execution:
  assumes "reachable H opts k" "readExecutionByRun (kdb k) rid = Some x"
  obtains r where "readRun (kdb k) rid = Some r" "is_m5 r" "r_session r = x_sessionId x"
proof -
  have x: "x \<in> set (executions (kdb k))" "x_actionRun x = rid"
    using readExecutionByRun_in [OF assms(2)] by simp_all
  then obtain r where r: "r \<in> set (runs (kdb k))" "r_id r = rid" "is_m5 r" "r_session r = x_sessionId x"
    using reachable_act [OF assms(1)] by (auto simp: act_ok_def list_all_iff paired_def list_ex_iff)
  then show thesis
    using that readRun_of [OF reachable_wf [OF assms(1)] r(1)] by simp
qed

lemma uuid_action_id:
  assumes "isUuidV4 s"
  shows "action_id_ok s"
proof -
  have "list_all (\<lambda>p. \<forall>u. p u \<longrightarrow> is_hex u \<or> u = 45) UUID_V4_CORE"
    by (auto simp: UUID_V4_CORE_def hexes_def dash_def list_all_iff set_replicate_conv_if is_variant_def is_hex_def lower_unit_def)
  then have "list_all (\<lambda>u. is_hex u \<or> u = 45) s"
    using assms unfolding isUuidV4_def matches_def
    by (auto simp: list_all2_conv_all_nth list_all_length)
  then show ?thesis
    using uuid_ok_length [of s] assms by (simp add: action_id_ok_def isUuidV4_def uuid_ok_def)
qed

lemma cancel_marked:
  assumes "readRun db rid = Some r" "readExecutionByRun db rid = Some x" "marked x" "r_session r = session"
    "action_id_ok session" "action_id_ok rid"
  shows "cancelActionRun session rid now db = (if isTerminalStatus (r_status r) then (Inr (r_status r, None), db)
    else (Inl (Action_not_cancellable rid), db))"
  using assms by (simp add: cancelActionRun_def checked_def withImmediate_def assertActionRun_def marked_def)

theorem marker_is_a_hard_stop:
  assumes "reachable H opts k" "consumeActionGrant H rid now (kdb k) = (Inr (Inr g), db1)"
    and "kernel_run H opts (k\<lparr>kdb := db1\<rparr>) k'" "readRun (kdb k') rid = Some r"
    and "isUuidV4 rid" "isUuidV4 (r_session r)" "unix_ms_ok now'"
  shows "cancelRun opts (r_session r) rid now' k' =
    (if isTerminalStatus (r_status r) then (Inr (r_status r, r), k') else (Inl (Action_not_cancellable rid), k'))"
proof -
  have re: "reachable H opts k'"
    by (rule reachable_run [OF reachable_consume [OF assms(1,2)] assms(3)])
  obtain x where x: "readExecutionByRun (kdb k') rid = Some x" "marked x"
    using marker_later [OF assms(1-3)] .
  have m5: "is_m5 r"
    using is_m5_of_execution [OF re x(1)] assms(4) by auto
  have p: "parseRunRow r = Inr r"
    using wf_parse [OF reachable_wf [OF re]] readRun_in [OF assms(4)] by simp
  have "cancelActionRun (r_session r) rid now' (kdb k') = (if isTerminalStatus (r_status r)
      then (Inr (r_status r, None), kdb k') else (Inl (Action_not_cancellable rid), kdb k'))"
    by (rule cancel_marked [OF assms(4) x refl]) (use assms(5,6) uuid_action_id in auto)
  then show ?thesis
    using assms(4-7) m5 p by (simp add: cancelRun_def getRun_def reread_def)
qed

lemma cancel_tx_row:
  assumes "wf_db db" "cancel_tx session rid now db = Inr ((Cancelled, row), db')"
  obtains r where "readRun db' rid = Some r" "r_status r = Cancelled"
proof -
  obtain r0 where r0: "readRun db rid = Some r0" "r_session r0 = session"
    using assms(2) by (auto simp: cancel_tx_def requireOwnedRun_def rbind_eq_Inr branch_Inr)
  have m: "r0 \<in> set (runs db)" "r_id r0 = rid"
    using readRun_in [OF r0(1)] by simp_all
  show thesis
  proof (cases "r_status r0 = Queued")
    case True
    note c = cancel_tx_queued [OF assms(1) r0(1) True r0(2), of now]
    have d: "db' = after_db (cancelled_now now r0) Run_cancelled now db"
      using c(1) assms(2) by simp
    have "wf_db db'"
      using kept_wf [OF c(2)] d by simp
    moreover have "next_seq (cancelled_now now r0) \<in> set (runs db')"
      unfolding d after_db_def using m by (force simp: put_row_def upd_where_def)
    ultimately have "readRun db' rid = Some (next_seq (cancelled_now now r0))"
      using readRun_of m(2) by fastforce
    then show thesis using that by simp
  next
    case False
    have st: "(Cancelled, row) = (s, row') \<Longrightarrow> s = Cancelled" for s row' by simp
    have "\<not> (r_status r0 = Running \<and> \<not> is_m5 r0)"
    proof
      assume a: "r_status r0 = Running \<and> \<not> is_m5 r0"
      show False
        using cancel_tx_running [OF assms(1) r0(1) _ _ r0(2), of now] a assms(2) by simp
    qed
    then show thesis
      using that r0 False assms(2) wf_parse [OF assms(1) m(1)]
      by (cases "r_status r0") (auto simp: cancel_tx_def requireOwnedRun_def rbind_eq_Inr branch_Inr reread_def parseRunRow_def)
  qed
qed

lemma cancelled_row:
  assumes "reachable H opts k" "cancelRun opts session rid now k = (Inr (Cancelled, row), k1)"
  obtains r where "readRun (kdb k1) rid = Some r" "r_status r = Cancelled"
proof (cases "case readRun (kdb k) rid of None \<Rightarrow> False | Some row \<Rightarrow> is_m5 row")
  case True
  obtain out db1 where o: "cancelActionRun session rid now (kdb k) = (out, db1)"
    by fastforce
  have "(case out of Inl e \<Rightarrow> (Inl e, k\<lparr>kdb := db1\<rparr>)
      | Inr (status, _) \<Rightarrow> (rbind (getRun rid db1) (\<lambda>run. Inr (status, run)), k\<lparr>kdb := db1\<rparr>)) = (Inr (Cancelled, row), k1)"
    using assms(2) True o by (auto simp: cancelRun_def split: if_splits prod.splits sum.splits)
  then have "\<exists>n. out = Inr (Cancelled, n)" "k1 = k\<lparr>kdb := db1\<rparr>"
    by (auto simp: rbind_eq_Inr split: sum.splits)
  then have "\<exists>n. out = Inr (Cancelled, n)" "db1 = kdb k1"
    by simp_all
  then obtain n where c: "cancelActionRun session rid now (kdb k) = (Inr (Cancelled, n), kdb k1)"
    using o by blast
  show thesis
    using reachable_ok [OF assms(1)] c
  proof (cases rule: cancel_action_cases)
    case refused
    then show thesis using that by metis
  next
    case (applied r x p g)
    let ?r = "next_seq (next_seq (cancelled_now now r))"
    note e = cancel_eq [OF applied(1,4,5,6)]
    have "wf_db (kdb k1)"
      using e(2) applied(2,3,7,8,9) kept_wf by auto
    moreover have "?r \<in> set (runs (kdb k1))"
      using applied(9) pair_distinct(5) [OF applied(1)]
      by (force simp: cancelled_db_def acted_def put_row_def upd_where_def)
    ultimately have "readRun (kdb k1) rid = Some ?r"
      using readRun_of applied(2) by fastforce
    then show thesis using that by simp
  qed
next
  case False
  then have c: "withImmediate (cancel_tx session rid now) (kdb k) = (Inr (Cancelled, row), kdb k1)"
    using assms(2) by (auto simp: cancelRun_def then_clear_def split: if_splits prod.splits sum.splits)
  then show thesis
    by (auto simp: withImmediate_def split: sum.splits intro: cancel_tx_row [OF reachable_wf [OF assms(1)]] that)
qed

text \<open>
  C7. A cancellation that ends an action run excludes the external write: no later call is granted.
\<close>

theorem cancelled_is_never_granted:
  assumes "reachable H opts k" "cancelRun opts session rid now k = (Inr (Cancelled, row), k1)"
    and "kernel_run H opts k1 k'"
  shows "\<nexists>g. fst (consumeActionGrant H rid now' (kdb k')) = Inr (Inr g)"
proof
  assume "\<exists>g. fst (consumeActionGrant H rid now' (kdb k')) = Inr (Inr g)"
  then obtain g db2 where c: "consumeActionGrant H rid now' (kdb k') = (Inr (Inr g), db2)"
    by (metis prod.collapse)
  have r1: "reachable H opts k1"
    using reachable_step [OF assms(1) kernel_step.cancel [of H opts k session rid now]] assms(2) by simp
  obtain r where r: "readRun (kdb k1) rid = Some r" "r_status r = Cancelled"
    using cancelled_row [OF assms(1,2)] .
  have m: "r \<in> set (runs (kdb k1))" "isTerminalStatus (r_status r)"
    using readRun_in [OF r(1)] r(2) by auto
  obtain r2 where "readRun (kdb k') (r_id r) = Some r2" "frozen_columns r2 = frozen_columns r"
    using ended_rows_stay [OF r1 assms(3) m] .
  then have "readRun (kdb k') rid = Some r2" "r_status r2 = Cancelled"
    using frozen_columns_sel(5) [of r2 r] r(2) readRun_in [OF r(1)] by simp_all
  moreover obtain r' where "readRun (kdb k') rid = Some r'" "r_status r' = Running"
    using consume_cases [OF reachable_ok [OF reachable_run [OF r1 assms(3)]] c] pair_reads(1) by metis
  ultimately show False
    by simp
qed

theorem cancelled_is_never_granted_witness:
  "(\<nexists>g. fst (consumeActionGrant id run2 1650 (kdb sk11)) = Inr (Inr g)) \<and>
   fst (cancelRun (Some opts1) sess run2 1600 sk7) = Inr (Cancelled, last (runs (kdb sk11)))"
proof -
  have c: "cancelRun (Some opts1) sess run2 1600 sk7 = (Inr (Cancelled, last (runs (kdb sk11))), sk11)"
    by (rule cancelled_action)
  then show ?thesis
    using cancelled_is_never_granted [OF reachable_sk7 c rtranclp.rtrancl_refl] by simp
qed

theorem marker_is_a_hard_stop_witness:
  "cancelRun (Some opts1) (r_session (last (runs (kdb sk8)))) run2 1650 sk8 = (Inl (Action_not_cancellable run2), sk8)"
proof -
  obtain g where g: "consumeActionGrant id run2 1600 (kdb sk7) = (Inr (Inr g), kdb sk8)"
    using granted_once by blast
  have f: "r_id (last (runs (kdb sk8))) = run2" "\<not> isTerminalStatus (r_status (last (runs (kdb sk8))))"
    "isUuidV4 run2" "isUuidV4 (r_session (last (runs (kdb sk8))))" "unix_ms_ok 1650"
    by code_simp+
  have "readRun (kdb sk8) run2 = Some (last (runs (kdb sk8)))"
    using readRun_of [OF reachable_wf [OF reachable_sk8] last_run(4)] f(1) by simp
  then show ?thesis
    using marker_is_a_hard_stop [OF reachable_sk7 g, of sk8 "last (runs (kdb sk8))" 1650] f by (simp add: sk8_same)
qed

text \<open>
  C15. The result of a recorded preflight block names an event sequence that does not exist: one past the
  last event of the run's journal. (The other terminal boundaries report the last event.)
\<close>

lemma journal_length:
  assumes "wf_db db" "r \<in> set (runs db)"
  shows "length (runEvents db (r_id r)) = r_eventSeq r"
proof -
  have "run_journal_ok (events db) r"
    using assms by (simp add: wf_db_def journal_ok_def list_all_iff)
  then have "length (map ev_seq (runEvents db (r_id r))) = length [1..<Suc (r_eventSeq r)]"
    by (simp add: run_journal_ok_def Let_def runEvents_def del: upt_Suc)
  then show ?thesis by (simp del: upt_Suc)
qed

theorem blocked_reports_past_the_end:
  assumes "reachable H opts k" "recordActionPreflightBlocked rid rv now (kdb k) = (Inr (Inr (eid, n)), db1)"
  shows "n = length (runEvents db1 rid) + 1"
  using reachable_ok [OF assms(1)] assms(2)
proof (cases rule: blocked_cases)
  case skipped
  then show ?thesis by simp
next
  case (recorded r x p g snap ss)
  have w: "wf_db db1"
    using recorded(6) by (rule kept_wf)
  have "blocked_row p now r \<in> set (runs db1)"
    using recorded(5) pair_distinct(5) [OF recorded(1)]
    by (force simp: blocked_db_def acted_def put_row_def upd_where_def blocked_row_def)
  then have "length (runEvents db1 rid) = r_eventSeq r + 3"
    using journal_length [OF w] recorded(2) by (fastforce simp: blocked_row_def)
  then show ?thesis
    using recorded(4) by simp
qed

theorem blocked_reports_past_the_end_witness:
  "\<exists>eid n db1. recordActionPreflightBlocked run2 (js ''rev2'') 1600 (kdb sk7) = (Inr (Inr (eid, n)), db1) \<and>
     n = length (runEvents db1 run2) + 1"
proof -
  have "case fst (recordActionPreflightBlocked run2 (js ''rev2'') 1600 (kdb sk7)) of Inr (Inr t) \<Rightarrow> True | _ \<Rightarrow> False"
    by code_simp
  then obtain eid n db1 where b: "recordActionPreflightBlocked run2 (js ''rev2'') 1600 (kdb sk7) = (Inr (Inr (eid, n)), db1)"
    by (cases "recordActionPreflightBlocked run2 (js ''rev2'') 1600 (kdb sk7)") (auto split: sum.splits)
  show ?thesis
    using blocked_reports_past_the_end [OF reachable_sk7 b] b by blast
qed

text \<open>
  C8. Every execution of an external write rests on exactly one approved proposal and one grant for it, of
  the same session, whose tool, proposal digest and input digest are those of the proposal; the grant is
  consumed exactly when the external-call marker is set. No proposal has two executions.
\<close>

theorem execution_rests_on_approval:
  assumes "reachable H opts k" "x \<in> set (executions (kdb k))"
  shows "(\<exists>p g. readProposal (kdb k) (x_proposal x) = Some p \<and> p_status p = Approved \<and> p_session p = x_sessionId x \<and>
      readGrant (kdb k) (x_id x) = Some g \<and> gr_proposal g = p_id p \<and> gr_proposalHash g = p_hash p \<and>
      gr_tool g = p_tool p \<and> gr_inputHash g = input_hash H (p_input p) \<and>
      (gr_consumedAt g = None \<longleftrightarrow> x_callStartedAt x = None)) \<and>
    filter (\<lambda>y. x_proposal y = x_proposal x) (executions (kdb k)) = [x]"
proof -
  have w: "wf_db (kdb k)" and a: "act_ok H (kdb k)"
    using reachable_wf reachable_act assms(1) by blast+
  obtain r where r: "r \<in> set (runs (kdb k))" "r_id r = x_actionRun x" "is_m5 r"
    using a assms(2) by (auto simp: act_ok_def list_all_iff paired_def list_ex_iff)
  obtain x' p g where pr: "pair H (kdb k) r x' p g"
    using pair_exists [OF w a r(1,3)] .
  have "x' = x"
    using pr assms(2) r(2) a distinct_key_eq [of x_actionRun "executions (kdb k)" x' x]
    by (simp add: pair_def act_ok_def)
  moreover have "filter (\<lambda>y. x_proposal y = x_proposal x) (executions (kdb k)) = [x]"
    using a assms(2) by (intro filter_key_single) (simp_all add: act_ok_def)
  ultimately show ?thesis
    using pair_reads(3,4) [OF pr] pr by (auto simp: pair_def marked_def)
qed

theorem execution_rests_on_approval_witness:
  "executions (kdb sk8) \<noteq> [] \<and> filter (\<lambda>y. x_proposal y = x_proposal (hd (executions (kdb sk8)))) (executions (kdb sk8)) =
     [hd (executions (kdb sk8))]"
proof
  show "executions (kdb sk8) \<noteq> []"
    by code_simp
  then show "filter (\<lambda>y. x_proposal y = x_proposal (hd (executions (kdb sk8)))) (executions (kdb sk8)) = [hd (executions (kdb sk8))]"
    using execution_rests_on_approval [OF reachable_sk8 hd_in_set] by blast
qed

subsection \<open>Recovery\<close>

text \<open>
  C5. Recovery at start-up succeeds from every reachable state, as long as the clock has not gone back
  behind an execution, and ends what was left in flight: afterwards every run is queued or ended, and the runs
  that were neither running nor cancelling are as before.
\<close>

theorem recovery_settles:
  assumes "reachable H opts k" "unix_ms_ok now" "clock_ok now (kdb k)"
  shows "\<exists>counts k'. recover opts now k = (Inr counts, k') \<and>
    list_all (\<lambda>r. r_status r = Queued \<or> isTerminalStatus (r_status r)) (runs (kdb k')) \<and>
    set (filter (\<lambda>r. r_status r \<noteq> Running \<and> r_status r \<noteq> Cancel_requested) (runs (kdb k))) \<subseteq> set (runs (kdb k'))"
proof -
  obtain out k' where s: "sweepTerminals opts Restart_recovery now k = (out, k')"
    by fastforce
  then obtain counts where c: "out = Inr counts" "calmed (kdb k) (kdb k')
      {r \<in> set (runs (kdb k)). r_status r = Running \<or> r_status r = Cancel_requested}"
    using sweep_all [OF reachable_ok [OF assms(1)] s] assms(3) by blast
  have "r_status r = Queued \<or> isTerminalStatus (r_status r)" if "r \<in> set (runs (kdb k'))" for r
  proof (cases "isTerminalStatus (r_status r)")
    case False
    then have "r_status r \<noteq> Running \<and> r_status r \<noteq> Cancel_requested"
      using c(2) that unfolding calmed_def by blast
    then show ?thesis using False by (cases "r_status r") simp_all
  qed simp
  moreover have "set (filter (\<lambda>r. r_status r \<noteq> Running \<and> r_status r \<noteq> Cancel_requested) (runs (kdb k))) \<subseteq> set (runs (kdb k'))"
    using c(2) unfolding calmed_def by fastforce
  ultimately show ?thesis
    using s c(1) assms(2) by (auto simp: recover_def list_all_iff)
qed

theorem recovery_settles_witness:
  "map r_status (runs (kdb sk8)) = [Completed, Running] \<and>
   (\<exists>counts k'. recover (Some opts1) 2000 sk8 = (Inr counts, k') \<and>
      list_all (\<lambda>r. r_status r = Queued \<or> isTerminalStatus (r_status r)) (runs (kdb k')))"
proof
  show "map r_status (runs (kdb sk8)) = [Completed, Running]"
    by code_simp
  have "unix_ms_ok 2000" "clock_ok 2000 (kdb sk8)"
    by code_simp+
  then show "\<exists>counts k'. recover (Some opts1) 2000 sk8 = (Inr counts, k') \<and>
      list_all (\<lambda>r. r_status r = Queued \<or> isTerminalStatus (r_status r)) (runs (kdb k'))"
    using recovery_settles [OF reachable_sk8] by blast
qed

subsection \<open>Conversations\<close>

text \<open>
  C14. A turn is immutable: its position, its input and its frozen context stay as they were when it was
  posted; only the number of its next attempt grows.
\<close>

theorem turn_is_immutable:
  assumes "reachable H opts k" "kernel_run H opts k k'" "readTurn (kdb k) tid = Some t"
  shows "\<exists>n \<ge> t_nextRunAttempt t. readTurn (kdb k') tid = Some (t\<lparr>t_nextRunAttempt := n\<rparr>)"
proof -
  have t: "t \<in> set (turns (kdb k))" "t_id t = tid"
    using readTurn_in [OF assms(3)] by simp_all
  have "kept_rows turn_step (turns (kdb k)) (turns (kdb k'))"
    using run_remembers [OF assms(2)] by (simp add: remembers_def)
  then obtain t' where t': "t' \<in> set (turns (kdb k'))" "turn_step t t'"
    using kept_rowsD [OF _ t(1)] by blast
  have e: "t' = t\<lparr>t_nextRunAttempt := t_nextRunAttempt t'\<rparr>" "t_nextRunAttempt t \<le> t_nextRunAttempt t'"
    using t'(2) by (cases t; cases t'; simp add: turn_step_def)+
  have "t_id t' = tid"
    using t(2) t'(2) by (cases t; cases t'; simp add: turn_step_def)
  then have "readTurn (kdb k') tid = Some t'"
    using find_key_distinct [OF turns_distinct [OF reachable_wf [OF reachable_run [OF assms(1,2)]]] t'(1)]
    by (simp add: readTurn_def)
  then show ?thesis
    using e by metis
qed

theorem turn_is_immutable_witness:
  "readTurn (kdb sk3) turn1 = Some turn1_row \<and> (\<exists>n \<ge> 2. readTurn (kdb sk5) turn1 = Some (turn1_row\<lparr>t_nextRunAttempt := n\<rparr>))"
proof
  show t: "readTurn (kdb sk3) turn1 = Some turn1_row"
    by code_simp
  show "\<exists>n \<ge> 2. readTurn (kdb sk5) turn1 = Some (turn1_row\<lparr>t_nextRunAttempt := n\<rparr>)"
    using turn_is_immutable [OF reachable_sk3 runs_along(5) t] by (simp add: turn1_row_def)
qed

subsection \<open>Progress\<close>

lemma complete_tx_running:
  assumes "wf_db db" "readRun db rid = Some row" "r_status row = Running" "\<not> is_m5 row" "run_result_ok result"
  obtains db' where "complete_tx opts None rid result now pid db =
      Inr ((True, next_seq (completed_with result now row), False), db')"
    "readRun db' rid = Some (next_seq (completed_with result now row))"
    "r_selectOnSuccess row \<Longrightarrow> \<exists>sel \<in> set (selections db'). sel_turn sel = r_turn row \<and> sel_run sel = rid"
proof -
  let ?row = "next_seq (completed_with result now row)"
  let ?D = "after_db (completed_with result now row) (Run_completed result) now db"
  have r: "row \<in> set (runs db)" "rid = r_id row"
    using readRun_in [OF assms(2)] by auto
  note l = status_row(4) [OF assms(1) r(1) assms(3,5)]
  note s = legal_step [where f = "completed_with result now" and pl = "Run_completed result" and row = row and
      db = db and s = Running, OF assms(1) r(1) l assms(3)]
  have w: "wf_db ?D"
    by (rule kept_wf [OF kept_after [OF assms(1) s(3)]])
  have m: "?row \<in> set (runs ?D)"
    unfolding after_db_def using r(1) by (force simp: put_row_def upd_where_def)
  obtain ss where ss: "select_run row now ?D = Inr (?D\<lparr>selections := ss\<rparr>)"
    by (rule select_run_ok [OF w m, of row]) (simp_all add: completed_with_def)
  have rd: "reread rid (?D\<lparr>selections := ss\<rparr>) = Inr ?row" "readRun (?D\<lparr>selections := ss\<rparr>) rid = Some ?row"
    using wf_parse [OF w m] readRun_of [OF w m] r(2) by (simp_all add: reread_def readRun_def)
  have c: "complete_tx opts None rid result now pid db = Inr ((True, ?row, False), ?D\<lparr>selections := ss\<rparr>)"
    using assms(2-4) s(1,2) ss rd unfolding complete_tx_def row_update_folds r(2)
    by (cases opts) (simp_all add: one_row_def)
  have "\<exists>sel \<in> set ss. sel_turn sel = r_turn row \<and> sel_run sel = rid" if "r_selectOnSuccess row"
  proof -
    let ?s = "\<lparr>sel_turn = r_turn row, sel_run = rid, sel_at = now\<rparr>"
    have "ss = put_row sel_turn ?s (selections ?D) \<and> r_turn row \<in> set (map sel_turn (selections ?D)) \<or>
        ss = selections ?D @ [?s]"
      using that ss r(2) by (auto simp: select_run_def upsert_selection_def split: if_splits dest!: arg_cong [where f = selections])
    then have "?s \<in> set ss"
      by (auto simp: put_row_def upd_where_def image_iff)
    then show ?thesis by (intro bexI [of _ ?s]) simp_all
  qed
  then show thesis
    using that [OF c rd(2)] by simp
qed

text \<open>
  C9. A queued run of the conversation can always be run to its end: picking it up succeeds, and so does
  completing it with any valid result, unless its completion has a staged proposal to commit as well.
  The result is stored, and selected for the turn when the run was posted to be.
\<close>

theorem queued_run_can_complete:
  assumes "reachable H opts k" "readRun (kdb k) rid = Some r" "r_status r = Queued" "\<not> is_m5 r"
    and "isUuidV4 rid" "unix_ms_ok now" "unix_ms_ok now'" "run_result_ok result" "map_of (staged k) rid = None"
  shows "\<exists>db1 r1 k2 r2. startRun rid now (kdb k) = (Inr (True, r1), db1) \<and> r_status r1 = Running \<and>
    completeRun opts rid result now' clock pid (k\<lparr>kdb := db1\<rparr>) = (Inr (True, r2), k2) \<and>
    r_status r2 = Completed \<and> r_result r2 = Some result \<and> readRun (kdb k2) rid = Some r2 \<and>
    (r_selectOnSuccess r \<longrightarrow> (\<exists>s \<in> set (selections (kdb k2)). sel_turn s = r_turn r \<and> sel_run s = rid))"
proof -
  let ?r1 = "next_seq (started now r)"
  let ?db1 = "after_db (started now r) (Run_started (int (r_attempt r))) now (kdb k)"
  note w = reachable_wf [OF assms(1)]
  note st = start_tx_queued [OF w assms(2,3), of now]
  have r: "r \<in> set (runs (kdb k))" "r_id r = rid"
    using readRun_in [OF assms(2)] by auto
  have s: "startRun rid now (kdb k) = (Inr (True, ?r1), ?db1)"
    using assms(2,4-6) st(1) by (simp add: startRun_def withImmediate_def)
  have w1: "wf_db ?db1"
    by (rule kept_wf [OF st(2)])
  have "?r1 \<in> set (runs ?db1)"
    unfolding after_db_def using r by (force simp: put_row_def upd_where_def)
  then have rd: "readRun ?db1 rid = Some ?r1"
    using readRun_of [OF w1] r(2) by fastforce
  have m: "\<not> is_m5 ?r1" "r_status ?r1 = Running" "r_turn ?r1 = r_turn r" "r_selectOnSuccess ?r1 = r_selectOnSuccess r"
    using assms(4) by (simp_all add: is_m5_def started_def)
  obtain db2 where c: "complete_tx opts None rid result now' pid ?db1 =
      Inr ((True, next_seq (completed_with result now' ?r1), False), db2)"
    "readRun db2 rid = Some (next_seq (completed_with result now' ?r1))"
    "r_selectOnSuccess ?r1 \<Longrightarrow> \<exists>sel \<in> set (selections db2). sel_turn sel = r_turn ?r1 \<and> sel_run sel = rid"
    using complete_tx_running [OF w1 rd m(2,1) assms(8), of opts now' pid] by blast
  have "staged_for_completion opts rid now' clock (k\<lparr>kdb := ?db1\<rparr>) = (None, staged k)"
    using rd m(1,2) assms(9) by (auto simp: staged_for_completion_def getStaged_def split: option.splits)
  then have f: "completeRun opts rid result now' clock pid (k\<lparr>kdb := ?db1\<rparr>) =
      (Inr (True, next_seq (completed_with result now' ?r1)), k\<lparr>kdb := db2\<rparr>)"
    using c(1) assms(5,7,8) by (simp add: completeRun_def withImmediate_def)
  show ?thesis
    by (rule exI [of _ ?db1], rule exI [of _ ?r1], rule exI [of _ "k\<lparr>kdb := db2\<rparr>"],
        rule exI [of _ "next_seq (completed_with result now' ?r1)"])
      (use s m c f in \<open>auto simp: completed_with_def\<close>)
qed

theorem queued_run_can_complete_witness:
  "r_status (hd (runs (kdb sk2))) = Queued \<and>
   (\<exists>db1 r1 k2 r2. startRun run1 1100 (kdb sk2) = (Inr (True, r1), db1) \<and>
      completeRun (Some opts1) run1 (Result_v1 (js ''done'')) 1300 1300 prop1 (sk2\<lparr>kdb := db1\<rparr>) = (Inr (True, r2), k2) \<and>
      r_status r2 = Completed)"
proof
  show q: "r_status (hd (runs (kdb sk2))) = Queued"
    by code_simp
  have f: "runs (kdb sk2) \<noteq> []" "r_id (hd (runs (kdb sk2))) = run1" "\<not> is_m5 (hd (runs (kdb sk2)))" "isUuidV4 run1"
    "unix_ms_ok 1100" "unix_ms_ok 1300" "run_result_ok (Result_v1 (js ''done''))" "map_of (staged sk2) run1 = None"
    by code_simp+
  have "readRun (kdb sk2) run1 = Some (hd (runs (kdb sk2)))"
    using readRun_of [OF reachable_wf [OF reachable_sk2] hd_in_set [OF f(1)]] f(2) by simp
  then show "\<exists>db1 r1 k2 r2. startRun run1 1100 (kdb sk2) = (Inr (True, r1), db1) \<and>
      completeRun (Some opts1) run1 (Result_v1 (js ''done'')) 1300 1300 prop1 (sk2\<lparr>kdb := db1\<rparr>) = (Inr (True, r2), k2) \<and>
      r_status r2 = Completed"
    using queued_run_can_complete [OF reachable_sk2 _ q f(3-8), of 1300] by blast
qed

end
