(* ===== verification/Work_Store.thy ===== *)
theory Work_Store
  imports Store Instants Json_Parse
begin

text \<open>
  The store of autonomous work (packages/kernel migrations 0011, 0019 and 0034): purposes, tasks, delegation
  handoffs and their append-only histories, with one definition per statement. The tables of the sessions
  and turns are those of the kernel and only read. A column that holds a JSON array of texts or of
  closed words is the list itself, and the stored answers to idempotent requests of these services are kept
  apart from those of the kernel, whose scopes are other texts.
\<close>

subsection \<open>Rows\<close>

datatype purpose_kind =
    Pk_goal | Pk_preference | Pk_constraint | Pk_permission | Pk_wish | Pk_temporary_state

datatype provenance = By_user | By_self | By_external

datatype purpose_status = Pu_active | Pu_superseded | Pu_revoked | Pu_achieved

record purpose_row =
  pu_id :: jstr
  pu_session :: jstr
  pu_scope :: jstr
  pu_kind :: purpose_kind
  pu_explicit :: bool
  pu_source :: provenance
  pu_sourceTurn :: "jstr option"
  pu_confirmedFrom :: "jstr option"
  pu_confirmedAt :: "int option"
  pu_statement :: jstr
  pu_interpretation :: "jstr option"
  pu_status :: purpose_status
  pu_version :: int
  pu_supersededBy :: "jstr option"
  pu_validFrom :: "jstr option"
  pu_validUntil :: "jstr option"
  pu_createdAt :: int
  pu_updatedAt :: int

datatype purpose_change =
    Purpose_created | Purpose_corrected | Purpose_superseded | Purpose_revoked | Purpose_achieved

record purpose_event =
  pe_id :: jstr
  pe_purpose :: jstr
  pe_session :: jstr
  pe_seq :: nat
  pe_event :: purpose_change
  pe_from :: "purpose_status option"
  pe_to :: purpose_status
  pe_statement :: jstr
  pe_createdAt :: int

datatype task_kind = Tk_chat | Tk_wish | Tk_problem | Tk_task

datatype task_status = Ts_open | Ts_in_progress | Ts_held | Ts_completed | Ts_cancelled

record task_row =
  tk_id :: jstr
  tk_session :: jstr
  tk_scope :: jstr
  tk_title :: jstr
  tk_body :: "jstr option"
  tk_kind :: task_kind
  tk_speaker :: provenance
  tk_deadline :: "jstr option"
  tk_parent :: "jstr option"
  tk_status :: task_status
  tk_version :: int
  tk_holdReason :: "jstr option"
  tk_reconsider :: "jstr option"
  tk_createdAt :: int
  tk_updatedAt :: int

datatype task_change =
    Task_created | Task_started | Task_held | Task_resumed | Task_completed | Task_cancelled | Task_parent_held

record task_event =
  te_id :: jstr
  te_task :: jstr
  te_session :: jstr
  te_seq :: nat
  te_event :: task_change
  te_from :: "task_status option"
  te_to :: task_status
  te_note :: "jstr option"
  te_createdAt :: int

datatype handoff_status = Ho_prepared | Ho_dispatched | Ho_reported | Ho_verified | Ho_failed | Ho_cancelled

datatype op_scope = Investigate | Implement

datatype boundary = External_publication | Shared_branch | Payment | Deletion | Secret | Access_change

datatype retry_cause = Transient_infra | Worker_error | Criteria_unmet | Environment_cause

datatype environment = Sandbox | Production

record verify_result =
  vr_index :: int
  vr_pass :: bool
  vr_evidence :: jstr

record handoff_row =
  ho_id :: jstr
  ho_session :: jstr
  ho_task :: jstr
  ho_taskVersion :: int
  ho_parent :: "jstr option"
  ho_parentVersion :: "int option"
  ho_target :: jstr
  ho_criteria :: "jstr list"
  ho_opScope :: op_scope
  ho_budget :: "jstr option"
  ho_boundaries :: "boundary list"
  ho_status :: handoff_status
  ho_version :: int
  ho_notice :: bool
  ho_attempt :: nat
  ho_externalRef :: "jstr option"
  ho_environment :: "environment option"
  ho_summary :: "jstr option"
  ho_results :: "verify_result list option"
  ho_supersedes :: "jstr option"
  ho_supersededBy :: "jstr option"
  ho_createdAt :: int
  ho_updatedAt :: int

record attempt_row =
  at_id :: jstr
  at_handoff :: jstr
  at_session :: jstr
  at_no :: nat
  at_cause :: retry_cause
  at_createdAt :: int

datatype handoff_change =
    He_prepared | He_dispatched | He_reported | He_verified | He_failed | He_cancelled | He_abnormal_exit
  | He_attempt_recorded | He_superseded | He_reaffirmed | He_flagged | He_cleared

record handoff_event =
  he_id :: jstr
  he_handoff :: jstr
  he_session :: jstr
  he_seq :: nat
  he_event :: handoff_change
  he_from :: "handoff_status option"
  he_to :: handoff_status
  he_note :: "jstr option"
  he_createdAt :: int

datatype reply =
    Purpose_reply purpose_row
  | Correction_reply purpose_row purpose_row
  | Task_reply task_row
  | Handoff_reply handoff_row

record reply_row =
  rp_scope :: jstr
  rp_key :: jstr
  rp_hash :: jstr
  rp_status :: int
  rp_body :: reply
  rp_createdAt :: int

record work =
  kernel_db :: db
  purposes :: "purpose_row list"
  purposeEvents :: "purpose_event list"
  tasks :: "task_row list"
  taskEvents :: "task_event list"
  handoffs :: "handoff_row list"
  attempts :: "attempt_row list"
  handoffEvents :: "handoff_event list"
  replies :: "reply_row list"

type_synonym 'a wtx = "work \<Rightarrow> kerr + ('a \<times> work)"

subsection \<open>Constraints\<close>

lemma pred_option_code [code]: "pred_option p None \<longleftrightarrow> True" "pred_option p (Some x) \<longleftrightarrow> p x"
  by simp_all

text \<open>\<open>length(x)\<close> of SQL counts code points up to the first NUL.\<close>

definition sql_length :: "jstr \<Rightarrow> nat" where
  "sql_length t = countCodePoints (takeWhile (\<lambda>u. u \<noteq> 0) t)"

definition purpose_check :: "purpose_row \<Rightarrow> bool" where
  "purpose_check p \<longleftrightarrow>
     1 \<le> sql_length (pu_scope p) \<and> sql_length (pu_scope p) \<le> 128 \<and> 1 \<le> sql_length (pu_statement p) \<and>
     pred_option (\<lambda>t. 1 \<le> sql_length t) (pu_interpretation p) \<and> 1 \<le> pu_version p"

definition task_check :: "task_row \<Rightarrow> bool" where
  "task_check t \<longleftrightarrow>
     1 \<le> sql_length (tk_scope t) \<and> sql_length (tk_scope t) \<le> 128 \<and>
     1 \<le> sql_length (tk_title t) \<and> sql_length (tk_title t) \<le> 256 \<and>
     pred_option (\<lambda>b. 1 \<le> sql_length b) (tk_body t) \<and> 1 \<le> tk_version t \<and>
     (tk_status t = Ts_held \<longleftrightarrow> tk_holdReason t \<noteq> None) \<and> (tk_status t = Ts_held \<longleftrightarrow> tk_reconsider t \<noteq> None)"

definition handoff_check :: "handoff_row \<Rightarrow> bool" where
  "handoff_check h \<longleftrightarrow>
     1 \<le> sql_length (ho_task h) \<and> 1 \<le> ho_taskVersion h \<and> pred_option (\<lambda>v. 1 \<le> v) (ho_parentVersion h) \<and>
     1 \<le> sql_length (ho_target h) \<and> pred_option (\<lambda>t. 1 \<le> sql_length t) (ho_budget h) \<and> 1 \<le> ho_version h \<and>
     pred_option (\<lambda>t. 1 \<le> sql_length t) (ho_externalRef h) \<and>
     pred_option (\<lambda>t. 1 \<le> sql_length t) (ho_summary h) \<and>
     (ho_parent h = None \<longleftrightarrow> ho_parentVersion h = None)"

subsection \<open>Reads\<close>

definition readPurpose :: "work \<Rightarrow> jstr \<Rightarrow> purpose_row option" where
  "readPurpose w i = find (\<lambda>p. pu_id p = i) (purposes w)"

definition readTask :: "work \<Rightarrow> jstr \<Rightarrow> task_row option" where
  "readTask w i = find (\<lambda>t. tk_id t = i) (tasks w)"

definition readHandoff :: "work \<Rightarrow> jstr \<Rightarrow> handoff_row option" where
  "readHandoff w i = find (\<lambda>h. ho_id h = i) (handoffs w)"

definition handoffJournal :: "work \<Rightarrow> jstr \<Rightarrow> handoff_event list" where
  "handoffJournal w i = filter (\<lambda>e. he_handoff e = i) (handoffEvents w)"

definition purposeJournal :: "work \<Rightarrow> jstr \<Rightarrow> purpose_event list" where
  "purposeJournal w i = filter (\<lambda>e. pe_purpose e = i) (purposeEvents w)"

definition taskJournal :: "work \<Rightarrow> jstr \<Rightarrow> task_event list" where
  "taskJournal w i = filter (\<lambda>e. te_task e = i) (taskEvents w)"

text \<open>\<open>COALESCE(MAX(seq), 0) + 1\<close>\<close>

definition next_of :: "nat list \<Rightarrow> nat" where
  "next_of seqs = foldr max seqs 0 + 1"

definition requireSession :: "jstr \<Rightarrow> work \<Rightarrow> kerr + unit" where
  "requireSession s w =
     (if \<not> isUuidV4 s then Inl Validation
      else if readSession (kernel_db w) s = None then Inl NotFound else Inr ())"

definition requireOwnedTurnInSession :: "jstr \<Rightarrow> jstr \<Rightarrow> work \<Rightarrow> kerr + unit" where
  "requireOwnedTurnInSession s i w =
     (case readTurn (kernel_db w) i of
        None \<Rightarrow> Inl NotFound
      | Some t \<Rightarrow> if t_session t \<noteq> s then Inl NotFound else Inr ())"

definition assertOwnedPurpose :: "jstr \<Rightarrow> jstr \<Rightarrow> work \<Rightarrow> kerr + purpose_row" where
  "assertOwnedPurpose s i w =
     (if \<not> isUuidV4 s \<or> \<not> isUuidV4 i then Inl Validation
      else case readPurpose w i of
        None \<Rightarrow> Inl NotFound
      | Some p \<Rightarrow> if pu_session p \<noteq> s then Inl NotFound else Inr p)"

definition assertOwnedTask :: "jstr \<Rightarrow> jstr \<Rightarrow> work \<Rightarrow> kerr + task_row" where
  "assertOwnedTask s i w =
     (if \<not> isUuidV4 s \<or> \<not> isUuidV4 i then Inl Validation
      else case readTask w i of
        None \<Rightarrow> Inl NotFound
      | Some t \<Rightarrow> if tk_session t \<noteq> s then Inl NotFound else Inr t)"

definition assertOwnedHandoff :: "jstr \<Rightarrow> jstr \<Rightarrow> work \<Rightarrow> kerr + handoff_row" where
  "assertOwnedHandoff s i w =
     (if \<not> isUuidV4 s \<or> \<not> isUuidV4 i then Inl Validation
      else case readHandoff w i of
        None \<Rightarrow> Inl NotFound
      | Some h \<Rightarrow> if ho_session h \<noteq> s then Inl NotFound else Inr h)"

subsection \<open>Statements\<close>

definition insert_purpose :: "purpose_row \<Rightarrow> work \<Rightarrow> kerr + work" where
  "insert_purpose p w =
     (if \<not> purpose_check p then Inl Sqlite_check
      else if readPurpose w (pu_id p) \<noteq> None then Inl Sqlite_primary_key
      else if readSession (kernel_db w) (pu_session p) = None then Inl Sqlite_foreign_key
      else Inr (w\<lparr>purposes := purposes w @ [p]\<rparr>))"

definition update_purposes :: "(purpose_row \<Rightarrow> bool) \<Rightarrow> (purpose_row \<Rightarrow> purpose_row) \<Rightarrow> nat wtx" where
  "update_purposes q f w =
     (if list_ex (\<lambda>p. q p \<and> \<not> purpose_check (f p)) (purposes w) then Inl Sqlite_check
      else Inr (count_where q (purposes w), w\<lparr>purposes := upd_where q f (purposes w)\<rparr>))"

definition insert_task :: "task_row \<Rightarrow> work \<Rightarrow> kerr + work" where
  "insert_task t w =
     (if \<not> task_check t then Inl Sqlite_check
      else if readTask w (tk_id t) \<noteq> None then Inl Sqlite_primary_key
      else if readSession (kernel_db w) (tk_session t) = None \<or>
              (case tk_parent t of None \<Rightarrow> False
               | Some i \<Rightarrow> (case readPurpose w i of None \<Rightarrow> True | Some p \<Rightarrow> pu_session p \<noteq> tk_session t))
        then Inl Sqlite_foreign_key
      else Inr (w\<lparr>tasks := tasks w @ [t]\<rparr>))"

definition update_tasks :: "(task_row \<Rightarrow> bool) \<Rightarrow> (task_row \<Rightarrow> task_row) \<Rightarrow> nat wtx" where
  "update_tasks q f w =
     (if list_ex (\<lambda>t. q t \<and> \<not> task_check (f t)) (tasks w) then Inl Sqlite_check
      else Inr (count_where q (tasks w), w\<lparr>tasks := upd_where q f (tasks w)\<rparr>))"

definition insert_handoff :: "handoff_row \<Rightarrow> work \<Rightarrow> kerr + work" where
  "insert_handoff h w =
     (if \<not> handoff_check h then Inl Sqlite_check
      else if readHandoff w (ho_id h) \<noteq> None then Inl Sqlite_primary_key
      else (case readTask w (ho_task h) of
              None \<Rightarrow> Inl Sqlite_foreign_key
            | Some t \<Rightarrow> if tk_session t \<noteq> ho_session h then Inl Sqlite_foreign_key
                else Inr (w\<lparr>handoffs := handoffs w @ [h]\<rparr>)))"

definition update_handoffs :: "(handoff_row \<Rightarrow> bool) \<Rightarrow> (handoff_row \<Rightarrow> handoff_row) \<Rightarrow> nat wtx" where
  "update_handoffs q f w =
     (if list_ex (\<lambda>h. q h \<and> \<not> handoff_check (f h)) (handoffs w) then Inl Sqlite_check
      else Inr (count_where q (handoffs w), w\<lparr>handoffs := upd_where q f (handoffs w)\<rparr>))"

definition insert_attempt :: "attempt_row \<Rightarrow> work \<Rightarrow> kerr + work" where
  "insert_attempt a w =
     (if at_no a < 1 then Inl Sqlite_check
      else if at_id a \<in> set (map at_id (attempts w)) then Inl Sqlite_primary_key
      else if (at_handoff a, at_no a) \<in> set (map (\<lambda>a. (at_handoff a, at_no a)) (attempts w)) then Inl Sqlite_unique
      else if readHandoff w (at_handoff a) = None then Inl Sqlite_foreign_key
      else Inr (w\<lparr>attempts := attempts w @ [a]\<rparr>))"

text \<open>\<open>appendPurposeEventInTx\<close>, \<open>appendTaskEventInTx\<close>, \<open>appendHandoffEventInTx\<close>\<close>

definition appendPurposeEventInTx ::
  "jstr \<Rightarrow> jstr \<Rightarrow> jstr \<Rightarrow> purpose_change \<Rightarrow> purpose_status option \<Rightarrow> purpose_status \<Rightarrow> jstr \<Rightarrow> int \<Rightarrow> work \<Rightarrow> kerr + work" where
  "appendPurposeEventInTx freshId i s event from to statement now w =
     (if sql_length statement < 1 then Inl Sqlite_check
      else if freshId \<in> set (map pe_id (purposeEvents w)) then Inl Sqlite_primary_key
      else if readPurpose w i = None then Inl Sqlite_foreign_key
      else Inr (w\<lparr>purposeEvents := purposeEvents w @
        [\<lparr>pe_id = freshId, pe_purpose = i, pe_session = s, pe_seq = next_of (map pe_seq (purposeJournal w i)),
          pe_event = event, pe_from = from, pe_to = to, pe_statement = statement, pe_createdAt = now\<rparr>]\<rparr>))"

definition appendTaskEventInTx ::
  "jstr \<Rightarrow> jstr \<Rightarrow> jstr \<Rightarrow> task_change \<Rightarrow> task_status option \<Rightarrow> task_status \<Rightarrow> jstr option \<Rightarrow> int \<Rightarrow> work \<Rightarrow> kerr + work" where
  "appendTaskEventInTx freshId i s event from to note now w =
     (if freshId \<in> set (map te_id (taskEvents w)) then Inl Sqlite_primary_key
      else if readTask w i = None then Inl Sqlite_foreign_key
      else Inr (w\<lparr>taskEvents := taskEvents w @
        [\<lparr>te_id = freshId, te_task = i, te_session = s, te_seq = next_of (map te_seq (taskJournal w i)),
          te_event = event, te_from = from, te_to = to, te_note = note, te_createdAt = now\<rparr>]\<rparr>))"

definition appendHandoffEventInTx ::
  "jstr \<Rightarrow> jstr \<Rightarrow> jstr \<Rightarrow> handoff_change \<Rightarrow> handoff_status option \<Rightarrow> handoff_status \<Rightarrow> jstr option \<Rightarrow> int \<Rightarrow> work \<Rightarrow>
     kerr + work" where
  "appendHandoffEventInTx freshId i s event from to note now w =
     (if freshId \<in> set (map he_id (handoffEvents w)) then Inl Sqlite_primary_key
      else if readHandoff w i = None then Inl Sqlite_foreign_key
      else Inr (w\<lparr>handoffEvents := handoffEvents w @
        [\<lparr>he_id = freshId, he_handoff = i, he_session = s, he_seq = next_of (map he_seq (handoffJournal w i)),
          he_event = event, he_from = from, he_to = to, he_note = note, he_createdAt = now\<rparr>]\<rparr>))"

subsection \<open>Stored answers\<close>

definition storedReply :: "work \<Rightarrow> jstr \<Rightarrow> jstr \<Rightarrow> reply_row option" where
  "storedReply w scope key = find (\<lambda>r. (rp_scope r, rp_key r) = (scope, key)) (replies w)"

definition storeReply :: "jstr \<Rightarrow> jstr \<Rightarrow> jstr \<Rightarrow> int \<Rightarrow> reply \<Rightarrow> int \<Rightarrow> work \<Rightarrow> kerr + work" where
  "storeReply scope key hash status body now w =
     (if storedReply w scope key \<noteq> None then Inl Sqlite_primary_key
      else Inr (w\<lparr>replies := replies w @
        [\<lparr>rp_scope = scope, rp_key = key, rp_hash = hash, rp_status = status, rp_body = body,
          rp_createdAt = now\<rparr>]\<rparr>))"

text \<open>
  The answer to a request whose key is known already: \<open>None\<close> when it is not. \<open>parse\<close> is the schema of the
  stored body.
\<close>

definition replay ::
  "jstr \<Rightarrow> jstr \<Rightarrow> jstr \<Rightarrow> (reply \<Rightarrow> 'v option) \<Rightarrow> work \<Rightarrow> (kerr + (int \<times> 'v \<times> bool)) option" where
  "replay scope key hash parse w =
     (case storedReply w scope key of
        None \<Rightarrow> None
      | Some r \<Rightarrow> Some
          (if rp_hash r \<noteq> hash then Inl (Idempotency_conflict scope)
           else case parse (rp_body r) of None \<Rightarrow> Inl Validation | Some v \<Rightarrow> Inr (rp_status r, v, True)))"

text \<open>A number of a request, as \<open>JSON.stringify\<close> writes it (below 10 to the 21st).\<close>

definition jint :: "int \<Rightarrow> json" where
  "jint i = JNum (if i < 0 then 45 # dec (nat (- i)) else dec (nat i))"

definition jopt :: "jstr option \<Rightarrow> json" where
  "jopt v = (case v of None \<Rightarrow> JNull | Some t \<Rightarrow> JStr t)"

subsection \<open>Schemas\<close>

definition bounded_text :: "nat \<Rightarrow> jstr \<Rightarrow> bool" where
  "bounded_text n t \<longleftrightarrow> t \<noteq> [] \<and> countCodePoints t \<le> n"

definition version_ok :: "int \<Rightarrow> bool" where
  "version_ok v \<longleftrightarrow> 1 \<le> v \<and> v \<le> MAX_SAFE_INTEGER"

definition purpose_view_ok :: "purpose_row \<Rightarrow> bool" where
  "purpose_view_ok p \<longleftrightarrow>
     uuid_ok (pu_id p) \<and> uuid_ok (pu_session p) \<and> pu_scope p \<noteq> [] \<and> length (pu_scope p) \<le> 128 \<and>
     bounded_text 2000 (pu_statement p) \<and> pred_option uuid_ok (pu_sourceTurn p) \<and>
     pred_option unix_ms_ok (pu_confirmedAt p) \<and> pred_option (bounded_text 2000) (pu_interpretation p) \<and>
     version_ok (pu_version p) \<and> pred_option uuid_ok (pu_supersededBy p) \<and>
     pred_option (\<lambda>t. t \<noteq> [] \<and> length t \<le> 128) (pu_validFrom p) \<and>
     pred_option (\<lambda>t. t \<noteq> [] \<and> length t \<le> 128) (pu_validUntil p) \<and>
     unix_ms_ok (pu_createdAt p) \<and> unix_ms_ok (pu_updatedAt p)"

definition task_view_ok :: "task_row \<Rightarrow> bool" where
  "task_view_ok t \<longleftrightarrow>
     uuid_ok (tk_id t) \<and> uuid_ok (tk_session t) \<and> tk_scope t \<noteq> [] \<and> length (tk_scope t) \<le> 128 \<and>
     tk_title t \<noteq> [] \<and> length (tk_title t) \<le> 256 \<and> pred_option uuid_ok (tk_parent t) \<and> version_ok (tk_version t) \<and>
     unix_ms_ok (tk_createdAt t) \<and> unix_ms_ok (tk_updatedAt t)"

definition verify_result_ok :: "verify_result \<Rightarrow> bool" where
  "verify_result_ok r \<longleftrightarrow> 0 \<le> vr_index r \<and> vr_index r \<le> MAX_SAFE_INTEGER \<and> bounded_text 2000 (vr_evidence r)"

definition handoff_view_ok :: "handoff_row \<Rightarrow> bool" where
  "handoff_view_ok h \<longleftrightarrow>
     uuid_ok (ho_id h) \<and> uuid_ok (ho_session h) \<and> uuid_ok (ho_task h) \<and> version_ok (ho_taskVersion h) \<and>
     pred_option uuid_ok (ho_parent h) \<and> pred_option version_ok (ho_parentVersion h) \<and>
     bounded_text 2000 (ho_target h) \<and> 1 \<le> length (ho_criteria h) \<and> length (ho_criteria h) \<le> 20 \<and>
     list_all (bounded_text 2000) (ho_criteria h) \<and> pred_option (bounded_text 500) (ho_budget h) \<and>
     length (ho_boundaries h) \<le> 6 \<and> version_ok (ho_version h) \<and> int (ho_attempt h) \<le> MAX_SAFE_INTEGER \<and>
     pred_option (bounded_text 500) (ho_externalRef h) \<and> pred_option (bounded_text 2000) (ho_summary h) \<and>
     pred_option (list_all verify_result_ok) (ho_results h) \<and> pred_option uuid_ok (ho_supersedes h) \<and>
     pred_option uuid_ok (ho_supersededBy h) \<and> unix_ms_ok (ho_createdAt h) \<and> unix_ms_ok (ho_updatedAt h)"

definition toPurposeView :: "purpose_row \<Rightarrow> kerr + purpose_row" where
  "toPurposeView p = (if purpose_view_ok p then Inr p else Inl Validation)"

definition toTaskView :: "task_row \<Rightarrow> kerr + task_row" where
  "toTaskView t = (if task_view_ok t then Inr t else Inl Validation)"

definition toHandoffView :: "handoff_row \<Rightarrow> kerr + handoff_row" where
  "toHandoffView h = (if handoff_view_ok h then Inr h else Inl Validation)"

definition purpose_body :: "reply \<Rightarrow> purpose_row option" where
  "purpose_body b = (case b of Purpose_reply p \<Rightarrow> if purpose_view_ok p then Some p else None | _ \<Rightarrow> None)"

definition correction_body :: "reply \<Rightarrow> (purpose_row \<times> purpose_row) option" where
  "correction_body b =
     (case b of Correction_reply p q \<Rightarrow> if purpose_view_ok p \<and> purpose_view_ok q then Some (p, q) else None | _ \<Rightarrow> None)"

definition task_body :: "reply \<Rightarrow> task_row option" where
  "task_body b = (case b of Task_reply t \<Rightarrow> if task_view_ok t then Some t else None | _ \<Rightarrow> None)"

definition handoff_body :: "reply \<Rightarrow> handoff_row option" where
  "handoff_body b = (case b of Handoff_reply h \<Rightarrow> if handoff_view_ok h then Some h else None | _ \<Rightarrow> None)"

end
