(* ===== verification/Handoffs.thy ===== *)
theory Handoffs
  imports Work_Store
begin

text \<open>
  Delegation handoffs (packages/kernel/src/handoff.ts): records that a human freezes for a task, dispatches by hand,
  and closes with the verified outcome. Every mutation goes through \<open>mutateHandoff\<close>: the stored answer of a known key,
  ownership, the expected version, the operation, and the answer to be stored, in one transaction. The identifiers that
  an operation generates are \<open>fresh\<close>, by the order in which it generates them.
\<close>

subsection \<open>Words and requests\<close>

fun op_scope_text :: "op_scope \<Rightarrow> jstr" where
  "op_scope_text Investigate = js ''investigate''"
| "op_scope_text Implement = js ''implement''"

fun boundary_text :: "boundary \<Rightarrow> jstr" where
  "boundary_text External_publication = js ''external_publication''"
| "boundary_text Shared_branch = js ''shared_branch''"
| "boundary_text Payment = js ''payment''"
| "boundary_text Deletion = js ''deletion''"
| "boundary_text Secret = js ''secret''"
| "boundary_text Access_change = js ''access_change''"

fun cause_text :: "retry_cause \<Rightarrow> jstr" where
  "cause_text Transient_infra = js ''transient_infra''"
| "cause_text Worker_error = js ''worker_error''"
| "cause_text Criteria_unmet = js ''criteria_unmet''"
| "cause_text Environment_cause = js ''environment''"

fun environment_text :: "environment \<Rightarrow> jstr" where
  "environment_text Sandbox = js ''sandbox''"
| "environment_text Production = js ''production''"

definition result_json :: "verify_result \<Rightarrow> json" where
  "result_json r =
     JObj [(js ''index'', jint (vr_index r)), (js ''pass'', JBool (vr_pass r)), (js ''evidence'', JStr (vr_evidence r))]"

record handoff_input =
  hi_task :: jstr
  hi_target :: jstr
  hi_criteria :: "jstr list"
  hi_opScope :: op_scope
  hi_budget :: "jstr option"
  hi_boundaries :: "boundary list"
  hi_supersedes :: "jstr option"

definition handoff_payload :: "jstr \<Rightarrow> handoff_input \<Rightarrow> json" where
  "handoff_payload session i =
     JObj [(js ''sessionId'', JStr session), (js ''taskId'', JStr (hi_task i)), (js ''target'', JStr (hi_target i)),
       (js ''acceptanceCriteria'', JArr (map JStr (hi_criteria i))), (js ''opScope'', JStr (op_scope_text (hi_opScope i))),
       (js ''budgetLabel'', jopt (hi_budget i)),
       (js ''boundaries'', JArr (map (\<lambda>b. JStr (boundary_text b)) (hi_boundaries i))),
       (js ''supersedesHandoffId'', jopt (hi_supersedes i))]"

subsection \<open>Creation\<close>

text \<open>The task and its parent as the new record freezes them: the parent's version, and whether it is not active.\<close>

definition frozen_parent :: "jstr \<Rightarrow> task_row \<Rightarrow> work \<Rightarrow> kerr + (int option \<times> bool)" where
  "frozen_parent session t w =
     (case tk_parent t of
        None \<Rightarrow> Inr (None, False)
      | Some i \<Rightarrow>
          (case readPurpose w i of
             None \<Rightarrow> Inl Handoff_state_conflict
           | Some p \<Rightarrow> if pu_session p \<noteq> session then Inl Handoff_state_conflict
               else Inr (Some (pu_version p), pu_status p \<noteq> Pu_active)))"

definition superseded_target :: "jstr \<Rightarrow> handoff_input \<Rightarrow> work \<Rightarrow> kerr + handoff_row option" where
  "superseded_target session i w =
     (case hi_supersedes i of
        None \<Rightarrow> Inr None
      | Some s \<Rightarrow>
          rbind (assertOwnedHandoff session s w) (\<lambda>old.
            if ho_task old \<noteq> hi_task i then Inl Handoff_state_conflict
            else if ho_supersededBy old \<noteq> None then Inl Handoff_state_conflict
            else Inr (Some old)))"

definition prepared_row :: "jstr \<Rightarrow> jstr \<Rightarrow> handoff_input \<Rightarrow> task_row \<Rightarrow> int option \<Rightarrow> bool \<Rightarrow> int \<Rightarrow> handoff_row" where
  "prepared_row i session input t parentVersion inactive now =
     \<lparr>ho_id = i, ho_session = session, ho_task = hi_task input, ho_taskVersion = tk_version t, ho_parent = tk_parent t,
      ho_parentVersion = parentVersion, ho_target = hi_target input, ho_criteria = hi_criteria input,
      ho_opScope = hi_opScope input, ho_budget = hi_budget input, ho_boundaries = hi_boundaries input,
      ho_status = Ho_prepared, ho_version = 1, ho_notice = inactive, ho_attempt = 0, ho_externalRef = None,
      ho_environment = None, ho_summary = None, ho_results = None, ho_supersedes = hi_supersedes input,
      ho_supersededBy = None, ho_createdAt = now, ho_updatedAt = now\<rparr>"

text \<open>The forward link of the superseded record, and its event.\<close>

definition link_forward :: "jstr \<Rightarrow> jstr \<Rightarrow> jstr \<Rightarrow> handoff_row \<Rightarrow> int \<Rightarrow> work \<Rightarrow> kerr + work" where
  "link_forward freshId session i old now w =
     rbind (update_handoffs (\<lambda>h. ho_id h = ho_id old \<and> ho_supersededBy h = None)
        (\<lambda>h. h\<lparr>ho_supersededBy := Some i, ho_version := ho_version h + 1, ho_updatedAt := now\<rparr>) w) (\<lambda>(changes, w1).
       if changes \<noteq> 1 then Inl Handoff_state_conflict
       else appendHandoffEventInTx freshId (ho_id old) session He_superseded (Some (ho_status old)) (ho_status old)
         (Some (stringify (JObj [(js ''by'', JStr i), (js ''frozenCriteria'', JArr (map JStr (ho_criteria old)))]))) now w1)"

definition link_supersedes :: "jstr \<Rightarrow> jstr \<Rightarrow> jstr \<Rightarrow> handoff_row option \<Rightarrow> int \<Rightarrow> work \<Rightarrow> kerr + work" where
  "link_supersedes freshId session i supersedes now w =
     (case supersedes of None \<Rightarrow> Inr w | Some old \<Rightarrow> link_forward freshId session i old now w)"

text \<open>A record whose parent is not active starts with the notice, and its event.\<close>

definition flag_new :: "bool \<Rightarrow> jstr \<Rightarrow> jstr \<Rightarrow> jstr \<Rightarrow> int \<Rightarrow> work \<Rightarrow> kerr + work" where
  "flag_new inactive freshId i session now w =
     (if inactive
      then appendHandoffEventInTx freshId i session He_flagged (Some Ho_prepared) Ho_prepared
        (Some (js ''parent purpose non-active at creation: reaffirm before dispatch'')) now w
      else Inr w)"

definition create_tx :: "jstr \<Rightarrow> handoff_input \<Rightarrow> int \<Rightarrow> (nat \<Rightarrow> jstr) \<Rightarrow> handoff_row wtx" where
  "create_tx session input now fresh w =
     rbind (requireSession session w) (\<lambda>_.
       if \<not> isUuidV4 (hi_task input) then Inl Validation
       else case readTask w (hi_task input) of
         None \<Rightarrow> Inl NotFound
       | Some t \<Rightarrow>
           if tk_session t \<noteq> session then Inl NotFound
           else if tk_status t = Ts_completed \<or> tk_status t = Ts_cancelled then Inl Handoff_state_conflict
           else rbind (frozen_parent session t w) (\<lambda>(parentVersion, inactive).
             rbind (superseded_target session input w) (\<lambda>supersedes.
             rbind (insert_handoff (prepared_row (fresh 0) session input t parentVersion inactive now) w) (\<lambda>w1.
             rbind (appendHandoffEventInTx (fresh 1) (fresh 0) session He_prepared None Ho_prepared (hi_supersedes input)
                now w1) (\<lambda>w2.
             rbind (flag_new inactive (fresh 2) (fresh 0) session now w2) (\<lambda>w3.
             rbind (link_supersedes (fresh 3) session (fresh 0) supersedes now w3) (\<lambda>w4.
               case readHandoff w4 (fresh 0) of
                 None \<Rightarrow> Inl NotFound
               | Some row \<Rightarrow> rbind (toHandoffView row) (\<lambda>view. Inr (view, w4)))))))))"

definition handoff_create_scope :: "jstr \<Rightarrow> jstr" where
  "handoff_create_scope session = js ''session:'' @ session @ js '':handoff''"

text \<open>The transaction of a request whose hash is known.\<close>

definition create_handoff_transaction ::
  "jstr \<Rightarrow> handoff_input \<Rightarrow> jstr \<Rightarrow> int \<Rightarrow> jstr \<Rightarrow> (nat \<Rightarrow> jstr) \<Rightarrow> work \<Rightarrow>
     (kerr + int \<times> handoff_row \<times> bool) \<times> work" where
  "create_handoff_transaction session input key now hash fresh w =
     withImmediate (\<lambda>w.
       let k = lower_ascii key; scope = handoff_create_scope session in
       case replay scope k hash handoff_body w of
         Some out \<Rightarrow> rbind out (\<lambda>out. Inr (out, w))
       | None \<Rightarrow>
           rbind (create_tx session input now fresh w) (\<lambda>(body, w1).
           rbind (storeReply scope k hash 201 (Handoff_reply body) now w1) (\<lambda>w2.
             Inr ((201, body, False), w2)))) w"

definition createHandoff ::
  "(jstr \<Rightarrow> jstr) \<Rightarrow> jstr \<Rightarrow> handoff_input \<Rightarrow> jstr \<Rightarrow> int \<Rightarrow> (nat \<Rightarrow> jstr) \<Rightarrow> work \<Rightarrow>
     (kerr + int \<times> handoff_row \<times> bool) \<times> work" where
  "createHandoff H session input key now fresh w =
     (if \<not> isUuidV4 session \<or> \<not> isUuidV4 key \<or> \<not> unix_ms_ok now then (Inl Validation, w)
      else case requestHash H (js ''handoff_create'') 1 (handoff_payload session input) of
        None \<Rightarrow> (Inl Type_error, w)
      | Some hash \<Rightarrow> create_handoff_transaction session input key now hash fresh w)"

subsection \<open>Reads\<close>

definition getHandoff :: "jstr \<Rightarrow> jstr \<Rightarrow> work \<Rightarrow> kerr + handoff_row" where
  "getHandoff session i w = rbind (assertOwnedHandoff session i w) toHandoffView"

text \<open>
  \<open>listHandoffs\<close>: rows are never deleted, so the place of a row in the table is its rowid. \<open>bound\<close> is the
  rowid in the decoded cursor.
\<close>

definition numbered :: "'r list \<Rightarrow> (nat \<times> 'r) list" where
  "numbered rows = zip [1..<length rows + 1] rows"

fun views :: "(nat \<times> handoff_row) list \<Rightarrow> kerr + handoff_row list" where
  "views [] = Inr []"
| "views ((_, h) # page) = rbind (toHandoffView h) (\<lambda>v. rbind (views page) (\<lambda>vs. Inr (v # vs)))"

definition listHandoffs ::
  "jstr \<Rightarrow> int option \<Rightarrow> handoff_status option \<Rightarrow> nat option \<Rightarrow> work \<Rightarrow>
     kerr + handoff_row list \<times> nat option \<times> bool" where
  "listHandoffs session limit status bound w =
     rbind (requireSession session w) (\<lambda>_.
       let capped = nat (min (max (case limit of None \<Rightarrow> 50 | Some n \<Rightarrow> n) 1) 100);
           rows = take (capped + 1) (filter
             (\<lambda>(rid, h). ho_session h = session \<and> (case status of None \<Rightarrow> True | Some s \<Rightarrow> ho_status h = s) \<and>
               (case bound of None \<Rightarrow> True | Some b \<Rightarrow> rid < b)) (rev (numbered (handoffs w))));
           hasMore = capped < length rows;
           page = take capped rows in
       rbind (views page) (\<lambda>items. Inr (items, if hasMore \<and> page \<noteq> [] then Some (fst (last page)) else None, hasMore)))"

definition countActiveHandoffs :: "jstr \<Rightarrow> work \<Rightarrow> kerr + nat" where
  "countActiveHandoffs session w =
     (if \<not> isUuidV4 session then Inl Validation
      else Inr (count_where (\<lambda>h. ho_session h = session \<and> (ho_status h = Ho_dispatched \<or> ho_status h = Ho_reported))
        (handoffs w)))"

text \<open>The newest 500, oldest first.\<close>

definition window :: "'r list \<Rightarrow> 'r list" where
  "window rows = drop (length rows - 500) rows"

definition listHandoffEvents :: "jstr \<Rightarrow> jstr \<Rightarrow> work \<Rightarrow> kerr + handoff_event list" where
  "listHandoffEvents session i w =
     rbind (assertOwnedHandoff session i w) (\<lambda>h. Inr (window (sort_key he_seq (handoffJournal w (ho_id h)))))"

definition listHandoffAttempts :: "jstr \<Rightarrow> jstr \<Rightarrow> work \<Rightarrow> kerr + attempt_row list" where
  "listHandoffAttempts session i w =
     rbind (assertOwnedHandoff session i w) (\<lambda>h.
       Inr (window (sort_key at_no (filter (\<lambda>a. at_handoff a = ho_id h) (attempts w)))))"

subsection \<open>Mutations\<close>

definition casHandoff :: "handoff_row \<Rightarrow> int \<Rightarrow> kerr + unit" where
  "casHandoff row expected =
     (if expected < 1 then Inl Validation
      else if ho_version row \<noteq> expected then Inl (Handoff_version_conflict expected (ho_version row))
      else Inr ())"

definition handoff_scope :: "jstr \<Rightarrow> string \<Rightarrow> jstr" where
  "handoff_scope i option = js ''handoff:'' @ i @ 58 # js option"

definition handoff_transaction ::
  "string \<Rightarrow> jstr \<Rightarrow> jstr \<Rightarrow> int \<Rightarrow> jstr \<Rightarrow> int \<Rightarrow> jstr \<Rightarrow> (handoff_row \<Rightarrow> handoff_row wtx) \<Rightarrow>
     work \<Rightarrow> (kerr + int \<times> handoff_row \<times> bool) \<times> work" where
  "handoff_transaction option session i expected key now hash apply w =
     withImmediate (\<lambda>w.
       let k = lower_ascii key; scope = handoff_scope i option in
       case replay scope k hash handoff_body w of
         Some out \<Rightarrow> rbind out (\<lambda>out. Inr (out, w))
       | None \<Rightarrow>
           rbind (assertOwnedHandoff session i w) (\<lambda>row.
           rbind (casHandoff row expected) (\<lambda>_.
           rbind (apply row w) (\<lambda>(body, w1).
           rbind (storeReply scope k hash 200 (Handoff_reply body) now w1) (\<lambda>w2.
             Inr ((200, body, False), w2)))))) w"

definition mutateHandoff ::
  "(jstr \<Rightarrow> jstr) \<Rightarrow> string \<Rightarrow> string \<Rightarrow> jstr \<Rightarrow> jstr \<Rightarrow> int \<Rightarrow> jstr \<Rightarrow> int \<Rightarrow> (jstr \<times> json) list \<Rightarrow>
     (handoff_row \<Rightarrow> handoff_row wtx) \<Rightarrow> work \<Rightarrow> (kerr + int \<times> handoff_row \<times> bool) \<times> work" where
  "mutateHandoff H option operation session i expected key now hashInput apply w =
     (if \<not> isUuidV4 session \<or> \<not> isUuidV4 key \<or> \<not> unix_ms_ok now \<or> \<not> isUuidV4 i then (Inl Validation, w)
      else case requestHash H (js operation) 1
          (JObj ([(js ''sessionId'', JStr session), (js ''handoffId'', JStr i)] @ hashInput)) of
        None \<Rightarrow> (Inl Type_error, w)
      | Some hash \<Rightarrow> handoff_transaction option session i expected key now hash apply w)"

text \<open>An update of the row at the version that was read, the event, and the row as it is then.\<close>

definition at_version :: "handoff_row \<Rightarrow> handoff_row \<Rightarrow> bool" where
  "at_version row h \<longleftrightarrow> ho_id h = ho_id row \<and> ho_version h = ho_version row"

definition current_version :: "handoff_row \<Rightarrow> work \<Rightarrow> int" where
  "current_version row w = (case readHandoff w (ho_id row) of Some h \<Rightarrow> ho_version h | None \<Rightarrow> ho_version row)"

definition move_row :: "handoff_row \<Rightarrow> (handoff_row \<Rightarrow> handoff_row) \<Rightarrow> work \<Rightarrow> kerr + work" where
  "move_row row f w =
     rbind (update_handoffs (at_version row) f w) (\<lambda>(changes, w1).
       if changes \<noteq> 1 then Inl (Handoff_version_conflict (ho_version row) (current_version row w1)) else Inr w1)"

definition reread_view :: "handoff_row \<Rightarrow> handoff_row wtx" where
  "reread_view row w =
     (case readHandoff w (ho_id row) of
        None \<Rightarrow> Inl NotFound
      | Some next \<Rightarrow> rbind (toHandoffView next) (\<lambda>view. Inr (view, w)))"

definition coalesce :: "'a option \<Rightarrow> 'a option \<Rightarrow> 'a option" where
  "coalesce a b = (case a of None \<Rightarrow> b | Some x \<Rightarrow> Some x)"

definition setHandoffStatusInTx ::
  "handoff_row \<Rightarrow> handoff_status \<Rightarrow> handoff_change \<Rightarrow> jstr option \<Rightarrow> int \<Rightarrow> jstr option \<Rightarrow> environment option \<Rightarrow>
     jstr option \<Rightarrow> jstr \<Rightarrow> work \<Rightarrow> kerr + work" where
  "setHandoffStatusInTx row to event note now externalRef env summary freshId w =
     rbind (move_row row (\<lambda>h. h\<lparr>ho_status := to, ho_version := ho_version h + 1, ho_updatedAt := now,
         ho_externalRef := coalesce externalRef (ho_externalRef h), ho_environment := coalesce env (ho_environment h),
         ho_summary := coalesce summary (ho_summary h)\<rparr>) w) (\<lambda>w1.
       appendHandoffEventInTx freshId (ho_id row) (ho_session row) event (Some (ho_status row)) to note now w1)"

definition open_status :: "handoff_status \<Rightarrow> bool" where
  "open_status s \<longleftrightarrow> s = Ho_prepared \<or> s = Ho_dispatched \<or> s = Ho_reported"

definition expected_member :: "int \<Rightarrow> jstr \<times> json" where
  "expected_member v = (js ''expectedVersion'', jint v)"

definition dispatch_tx :: "jstr option \<Rightarrow> int \<Rightarrow> jstr \<Rightarrow> handoff_row \<Rightarrow> handoff_row wtx" where
  "dispatch_tx externalRef now freshId row w =
     (if ho_supersededBy row \<noteq> None then Inl Handoff_state_conflict
      else if ho_notice row then Inl Handoff_state_conflict
      else if ho_status row \<noteq> Ho_prepared then Inl Handoff_state_conflict
      else case readTask w (ho_task row) of
        None \<Rightarrow> Inl Handoff_state_conflict
      | Some t \<Rightarrow>
          if tk_session t \<noteq> ho_session row \<or> tk_status t = Ts_completed \<or> tk_status t = Ts_cancelled
          then Inl Handoff_state_conflict
          else if tk_version t \<noteq> ho_taskVersion row \<or> tk_parent t \<noteq> ho_parent row then Inl Handoff_state_conflict
          else rbind (setHandoffStatusInTx row Ho_dispatched He_dispatched externalRef now externalRef None None freshId w)
            (reread_view row))"

definition dispatchHandoff ::
  "(jstr \<Rightarrow> jstr) \<Rightarrow> jstr \<Rightarrow> jstr \<Rightarrow> int \<Rightarrow> jstr option \<Rightarrow> jstr \<Rightarrow> int \<Rightarrow> jstr \<Rightarrow> work \<Rightarrow>
     (kerr + int \<times> handoff_row \<times> bool) \<times> work" where
  "dispatchHandoff H session i expected externalRef key now freshId w =
     mutateHandoff H ''dispatchHandoff'' ''handoff_dispatch'' session i expected key now
       [expected_member expected, (js ''externalRef'', jopt externalRef)] (dispatch_tx externalRef now freshId) w"

definition report_note :: "environment \<Rightarrow> jstr" where
  "report_note env = js ''environment='' @ environment_text env @
     js '' (unverified claim; sandbox success never means production)''"

definition report_tx :: "environment \<Rightarrow> jstr \<Rightarrow> int \<Rightarrow> jstr \<Rightarrow> handoff_row \<Rightarrow> handoff_row wtx" where
  "report_tx env summary now freshId row w =
     (if ho_supersededBy row \<noteq> None then Inl Handoff_state_conflict
      else if ho_status row \<noteq> Ho_dispatched then Inl Handoff_state_conflict
      else rbind (move_row row (\<lambda>h. h\<lparr>ho_status := Ho_reported, ho_version := ho_version h + 1, ho_updatedAt := now,
             ho_environment := Some env, ho_summary := Some summary\<rparr>) w) (\<lambda>w1.
           rbind (appendHandoffEventInTx freshId (ho_id row) (ho_session row) He_reported (Some (ho_status row)) Ho_reported
             (Some (report_note env)) now w1) (reread_view row)))"

definition reportHandoff ::
  "(jstr \<Rightarrow> jstr) \<Rightarrow> jstr \<Rightarrow> jstr \<Rightarrow> int \<Rightarrow> environment \<Rightarrow> jstr \<Rightarrow> jstr \<Rightarrow> int \<Rightarrow> jstr \<Rightarrow> work \<Rightarrow>
     (kerr + int \<times> handoff_row \<times> bool) \<times> work" where
  "reportHandoff H session i expected env summary key now freshId w =
     mutateHandoff H ''reportHandoff'' ''handoff_report'' session i expected key now
       [expected_member expected, (js ''environment'', JStr (environment_text env)), (js ''summary'', JStr summary)]
       (report_tx env summary now freshId) w"

text \<open>The loop over the results: every index in range and once, every one passed and with evidence.\<close>

fun check_results :: "nat \<Rightarrow> int list \<Rightarrow> verify_result list \<Rightarrow> kerr + unit" where
  "check_results n seen [] = Inr ()"
| "check_results n seen (r # rs) =
     (if vr_index r < 0 \<or> vr_index r \<ge> int n then Inl Handoff_state_conflict
      else if vr_index r \<in> set seen then Inl Handoff_state_conflict
      else if \<not> vr_pass r then Inl Handoff_state_conflict
      else if vr_evidence r = [] then Inl Handoff_state_conflict
      else check_results n (vr_index r # seen) rs)"

definition verify_note :: "nat \<Rightarrow> jstr" where
  "verify_note n = js ''all '' @ dec n @ js '' frozen criteria passed; task NOT auto-completed; production NOT set''"

definition verify_tx :: "verify_result list \<Rightarrow> int \<Rightarrow> jstr \<Rightarrow> handoff_row \<Rightarrow> handoff_row wtx" where
  "verify_tx results now freshId row w =
     (if ho_supersededBy row \<noteq> None then Inl Handoff_state_conflict
      else if ho_status row \<noteq> Ho_reported then Inl Handoff_state_conflict
      else if length results \<noteq> length (ho_criteria row) then Inl Handoff_state_conflict
      else rbind (check_results (length (ho_criteria row)) [] results) (\<lambda>_.
           rbind (move_row row (\<lambda>h. h\<lparr>ho_status := Ho_verified, ho_version := ho_version h + 1, ho_updatedAt := now,
             ho_results := Some results\<rparr>) w) (\<lambda>w1.
           rbind (appendHandoffEventInTx freshId (ho_id row) (ho_session row) He_verified (Some (ho_status row)) Ho_verified
             (Some (verify_note (length (ho_criteria row)))) now w1) (reread_view row))))"

definition verifyHandoff ::
  "(jstr \<Rightarrow> jstr) \<Rightarrow> jstr \<Rightarrow> jstr \<Rightarrow> int \<Rightarrow> verify_result list \<Rightarrow> jstr \<Rightarrow> int \<Rightarrow> jstr \<Rightarrow> work \<Rightarrow>
     (kerr + int \<times> handoff_row \<times> bool) \<times> work" where
  "verifyHandoff H session i expected results key now freshId w =
     mutateHandoff H ''verifyHandoff'' ''handoff_verify'' session i expected key now
       [expected_member expected, (js ''results'', JArr (map result_json results))] (verify_tx results now freshId) w"

definition fail_handoff_tx :: "int \<Rightarrow> jstr \<Rightarrow> handoff_row \<Rightarrow> handoff_row wtx" where
  "fail_handoff_tx now freshId row w =
     (if ho_supersededBy row \<noteq> None then Inl Handoff_state_conflict
      else if \<not> open_status (ho_status row) then Inl Handoff_state_conflict
      else rbind (setHandoffStatusInTx row Ho_failed He_failed None now None None None freshId w) (reread_view row))"

definition failHandoff ::
  "(jstr \<Rightarrow> jstr) \<Rightarrow> jstr \<Rightarrow> jstr \<Rightarrow> int \<Rightarrow> jstr \<Rightarrow> int \<Rightarrow> jstr \<Rightarrow> work \<Rightarrow> (kerr + int \<times> handoff_row \<times> bool) \<times> work" where
  "failHandoff H session i expected key now freshId w =
     mutateHandoff H ''failHandoff'' ''handoff_fail'' session i expected key now
       [expected_member expected] (fail_handoff_tx now freshId) w"

definition cancel_handoff_tx :: "int \<Rightarrow> jstr \<Rightarrow> handoff_row \<Rightarrow> handoff_row wtx" where
  "cancel_handoff_tx now freshId row w =
     (if \<not> open_status (ho_status row) then Inl Handoff_state_conflict
      else rbind (setHandoffStatusInTx row Ho_cancelled He_cancelled None now None None None freshId w) (reread_view row))"

definition cancelHandoff ::
  "(jstr \<Rightarrow> jstr) \<Rightarrow> jstr \<Rightarrow> jstr \<Rightarrow> int \<Rightarrow> jstr \<Rightarrow> int \<Rightarrow> jstr \<Rightarrow> work \<Rightarrow> (kerr + int \<times> handoff_row \<times> bool) \<times> work" where
  "cancelHandoff H session i expected key now freshId w =
     mutateHandoff H ''cancelHandoff'' ''handoff_cancel'' session i expected key now
       [expected_member expected] (cancel_handoff_tx now freshId) w"

definition abnormal_exit_tx :: "int \<Rightarrow> jstr \<Rightarrow> handoff_row \<Rightarrow> handoff_row wtx" where
  "abnormal_exit_tx now freshId row w =
     (if ho_supersededBy row \<noteq> None then Inl Handoff_state_conflict
      else if \<not> open_status (ho_status row) then Inl Handoff_state_conflict
      else rbind (setHandoffStatusInTx row (ho_status row) He_abnormal_exit
             (Some (js ''worker exited abnormally; outcome unverified'')) now None None None freshId w) (reread_view row))"

definition abnormalExitHandoff ::
  "(jstr \<Rightarrow> jstr) \<Rightarrow> jstr \<Rightarrow> jstr \<Rightarrow> int \<Rightarrow> jstr \<Rightarrow> int \<Rightarrow> jstr \<Rightarrow> work \<Rightarrow> (kerr + int \<times> handoff_row \<times> bool) \<times> work" where
  "abnormalExitHandoff H session i expected key now freshId w =
     mutateHandoff H ''abnormalExitHandoff'' ''handoff_abnormal_exit'' session i expected key now
       [expected_member expected] (abnormal_exit_tx now freshId) w"

definition attempt_note :: "nat \<Rightarrow> retry_cause \<Rightarrow> handoff_status \<Rightarrow> jstr" where
  "attempt_note n cause status = js ''attempt '' @ dec n @ js '' cause='' @ cause_text cause @
     (if status = Ho_failed then js '' (retry returns to prepared for a new dispatch)'' else []) @
     js '' (explicit human retry, never automatic)''"

definition attempt_tx :: "retry_cause \<Rightarrow> int \<Rightarrow> (nat \<Rightarrow> jstr) \<Rightarrow> handoff_row \<Rightarrow> handoff_row wtx" where
  "attempt_tx cause now fresh row w =
     (if ho_status row = Ho_verified \<or> ho_status row = Ho_cancelled then Inl Handoff_state_conflict
      else if ho_supersededBy row \<noteq> None then Inl Handoff_state_conflict
      else if ho_notice row then Inl Handoff_state_conflict
      else
        let to = (if ho_status row = Ho_failed then Ho_prepared else ho_status row);
            n = ho_attempt row + 1 in
        rbind (insert_attempt \<lparr>at_id = fresh 0, at_handoff = ho_id row, at_session = ho_session row, at_no = n,
            at_cause = cause, at_createdAt = now\<rparr> w) (\<lambda>w1.
        rbind (move_row row (\<lambda>h. h\<lparr>ho_attempt := n, ho_status := to, ho_version := ho_version h + 1,
            ho_updatedAt := now\<rparr>) w1) (\<lambda>w2.
        rbind (appendHandoffEventInTx (fresh 1) (ho_id row) (ho_session row) He_attempt_recorded (Some (ho_status row)) to
          (Some (attempt_note n cause (ho_status row))) now w2) (reread_view row))))"

definition recordHandoffAttempt ::
  "(jstr \<Rightarrow> jstr) \<Rightarrow> jstr \<Rightarrow> jstr \<Rightarrow> int \<Rightarrow> retry_cause \<Rightarrow> jstr \<Rightarrow> int \<Rightarrow> (nat \<Rightarrow> jstr) \<Rightarrow> work \<Rightarrow>
     (kerr + int \<times> handoff_row \<times> bool) \<times> work" where
  "recordHandoffAttempt H session i expected cause key now fresh w =
     mutateHandoff H ''recordHandoffAttempt'' ''handoff_record_attempt'' session i expected key now
       [expected_member expected, (js ''cause'', JStr (cause_text cause))] (attempt_tx cause now fresh) w"

text \<open>\<open>parentVersionForReaffirm\<close>, and the binding of the task as it is.\<close>

definition parentVersionForReaffirm :: "jstr \<Rightarrow> jstr option \<Rightarrow> work \<Rightarrow> int option" where
  "parentVersionForReaffirm session parent w =
     (case parent of
        None \<Rightarrow> None
      | Some i \<Rightarrow>
          (case readPurpose w i of None \<Rightarrow> None | Some p \<Rightarrow> if pu_session p = session then Some (pu_version p) else None))"

definition bound_task :: "handoff_row \<Rightarrow> work \<Rightarrow> task_row option" where
  "bound_task row w =
     (case readTask w (ho_task row) of None \<Rightarrow> None | Some t \<Rightarrow> if tk_session t = ho_session row then Some t else None)"

definition stale_binding :: "handoff_row \<Rightarrow> work \<Rightarrow> bool" where
  "stale_binding row w =
     (case bound_task row w of
        None \<Rightarrow> False
      | Some t \<Rightarrow> tk_version t \<noteq> ho_taskVersion row \<or> tk_parent t \<noteq> ho_parent row)"

definition reaffirm_tx :: "jstr \<Rightarrow> int \<Rightarrow> (nat \<Rightarrow> jstr) \<Rightarrow> handoff_row \<Rightarrow> handoff_row wtx" where
  "reaffirm_tx session now fresh row w =
     (if \<not> ho_notice row \<and> \<not> stale_binding row w then Inl Handoff_state_conflict
      else
        let taskVersion = (case bound_task row w of Some t \<Rightarrow> tk_version t | None \<Rightarrow> ho_taskVersion row);
            parent = (case bound_task row w of Some t \<Rightarrow> tk_parent t | None \<Rightarrow> None) in
        rbind (move_row row (\<lambda>h. h\<lparr>ho_notice := False, ho_version := ho_version h + 1, ho_updatedAt := now,
            ho_taskVersion := taskVersion, ho_parent := parent,
            ho_parentVersion := parentVersionForReaffirm session parent w\<rparr>) w) (\<lambda>w1.
        rbind (appendHandoffEventInTx (fresh 0) (ho_id row) (ho_session row) He_reaffirmed (Some (ho_status row))
          (ho_status row) (Some (js ''human reaffirmed after parent change'')) now w1) (\<lambda>w2.
        case readHandoff w2 (ho_id row) of
          None \<Rightarrow> Inl NotFound
        | Some cleared \<Rightarrow>
            rbind (appendHandoffEventInTx (fresh 1) (ho_id cleared) (ho_session cleared) He_cleared
              (Some (ho_status cleared)) (ho_status cleared)
              (Some (js ''reevaluation notice cleared by explicit human reaffirm'')) now w2) (reread_view row))))"

definition reaffirmHandoff ::
  "(jstr \<Rightarrow> jstr) \<Rightarrow> jstr \<Rightarrow> jstr \<Rightarrow> int \<Rightarrow> jstr \<Rightarrow> int \<Rightarrow> (nat \<Rightarrow> jstr) \<Rightarrow> work \<Rightarrow>
     (kerr + int \<times> handoff_row \<times> bool) \<times> work" where
  "reaffirmHandoff H session i expected key now fresh w =
     mutateHandoff H ''reaffirmHandoff'' ''handoff_reaffirm'' session i expected key now
       [expected_member expected] (reaffirm_tx session now fresh) w"

subsection \<open>The notice\<close>

definition live_status :: "handoff_status \<Rightarrow> bool" where
  "live_status s \<longleftrightarrow> open_status s \<or> s = Ho_failed"

text \<open>One row of the loop: skipped when it was changed meanwhile.\<close>

definition flag_one :: "jstr \<Rightarrow> jstr \<Rightarrow> jstr \<Rightarrow> int \<Rightarrow> handoff_row \<Rightarrow> work \<Rightarrow> kerr + work" where
  "flag_one freshId session reason now row w =
     rbind (update_handoffs (\<lambda>h. at_version row h \<and> \<not> ho_notice h)
        (\<lambda>h. h\<lparr>ho_notice := True, ho_version := ho_version h + 1, ho_updatedAt := now\<rparr>) w) (\<lambda>(changes, w1).
       if changes \<noteq> 1 then Inr w1
       else appendHandoffEventInTx freshId (ho_id row) session He_flagged (Some (ho_status row)) (ho_status row)
         (Some reason) now w1)"

fun flag_rows :: "(nat \<Rightarrow> jstr) \<Rightarrow> nat \<Rightarrow> jstr \<Rightarrow> jstr \<Rightarrow> int \<Rightarrow> handoff_row list \<Rightarrow> work \<Rightarrow> kerr + work" where
  "flag_rows fresh k session reason now [] w = Inr w"
| "flag_rows fresh k session reason now (row # rows) w =
     rbind (flag_one (fresh k) session reason now row w) (flag_rows fresh (k + 1) session reason now rows)"

definition bound_to_parent :: "jstr \<Rightarrow> jstr \<Rightarrow> work \<Rightarrow> handoff_row \<Rightarrow> bool" where
  "bound_to_parent session parent w h \<longleftrightarrow>
     ho_session h = session \<and>
     (ho_parent h = Some parent \<or> (case bound_task h w of None \<Rightarrow> False | Some t \<Rightarrow> tk_parent t = Some parent)) \<and>
     live_status (ho_status h) \<and> \<not> ho_notice h"

definition flagHandoffReevaluationInTx :: "jstr \<Rightarrow> jstr \<Rightarrow> jstr \<Rightarrow> int \<Rightarrow> (nat \<Rightarrow> jstr) \<Rightarrow> work \<Rightarrow> kerr + work" where
  "flagHandoffReevaluationInTx session parent reason now fresh w =
     flag_rows fresh 0 session reason now (filter (bound_to_parent session parent w) (handoffs w)) w"

definition flagHandoffTaskReparentInTx :: "jstr \<Rightarrow> jstr \<Rightarrow> jstr \<Rightarrow> int \<Rightarrow> (nat \<Rightarrow> jstr) \<Rightarrow> work \<Rightarrow> kerr + work" where
  "flagHandoffTaskReparentInTx session task reason now fresh w =
     (case readTask w task of
        None \<Rightarrow> Inr w
      | Some t \<Rightarrow>
          if tk_session t \<noteq> session then Inr w
          else flag_rows fresh 0 session reason now
            (filter (\<lambda>h. \<not> (ho_taskVersion h = tk_version t \<and> ho_parent h = tk_parent t))
              (filter (\<lambda>h. ho_session h = session \<and> ho_task h = task \<and> live_status (ho_status h) \<and> \<not> ho_notice h)
                (handoffs w))) w)"

end
