(* ===== verification/Autonomy.thy ===== *)
theory Autonomy
  imports Handoffs
begin

text \<open>
  Purposes and tasks (packages/kernel/src/autonomy.ts): their creation, the correction, revocation, achievement and
  confirmation of a purpose, the life of a task, and the holds and notices that a purpose leaves behind when it
  stops being active. In the same transaction the code also writes tables of other services: the shadow queue, the
  invalidation of trials, constraint rules and the notices of learning hypotheses. Nothing here reads those; \<open>bridge\<close>
  is the error with which one of those writes aborts the transaction, if any.
\<close>

subsection \<open>Applicability\<close>

text \<open>The stored bounds are strict instants, which \<open>Date.parse\<close> reads as the strict parser does.\<close>

definition isPurposeApplicableAt :: "jstr option \<Rightarrow> jstr option \<Rightarrow> int \<Rightarrow> bool" where
  "isPurposeApplicableAt from until now \<longleftrightarrow>
     (case Option.bind from parseStrictCalendarInstantMs of None \<Rightarrow> True | Some f \<Rightarrow> f \<le> now) \<and>
     (case Option.bind until parseStrictCalendarInstantMs of None \<Rightarrow> True | Some u \<Rightarrow> now < u)"

definition requireApplicabilityWindow :: "jstr option \<Rightarrow> jstr option \<Rightarrow> kerr + unit" where
  "requireApplicabilityWindow from until =
     (if \<not> pred_option isStrictCalendarInstant from \<or> \<not> pred_option isStrictCalendarInstant until then Inl Validation
      else case (Option.bind from parseStrictCalendarInstantMs, Option.bind until parseStrictCalendarInstantMs) of
        (Some f, Some u) \<Rightarrow> if u \<le> f then Inl Validation else Inr ()
      | _ \<Rightarrow> Inr ())"

definition pass :: "kerr option \<Rightarrow> kerr + unit" where
  "pass bridge = (case bridge of None \<Rightarrow> Inr () | Some e \<Rightarrow> Inl e)"

subsection \<open>Purposes\<close>

fun purpose_kind_text :: "purpose_kind \<Rightarrow> jstr" where
  "purpose_kind_text Pk_goal = js ''goal''"
| "purpose_kind_text Pk_preference = js ''preference''"
| "purpose_kind_text Pk_constraint = js ''constraint''"
| "purpose_kind_text Pk_permission = js ''permission''"
| "purpose_kind_text Pk_wish = js ''wish''"
| "purpose_kind_text Pk_temporary_state = js ''temporary_state''"

fun provenance_text :: "provenance \<Rightarrow> jstr" where
  "provenance_text By_user = js ''user''"
| "provenance_text By_self = js ''self''"
| "provenance_text By_external = js ''external''"

record purpose_input =
  pi_scope :: jstr
  pi_statement :: jstr
  pi_kind :: purpose_kind
  pi_explicit :: bool
  pi_source :: provenance
  pi_sourceTurn :: "jstr option"
  pi_interpretation :: "jstr option"

definition purpose_members :: "purpose_input \<Rightarrow> (jstr \<times> json) list" where
  "purpose_members i =
     [(js ''scope'', JStr (pi_scope i)), (js ''statement'', JStr (pi_statement i)),
      (js ''kind'', JStr (purpose_kind_text (pi_kind i))), (js ''explicit'', JBool (pi_explicit i)),
      (js ''sourceKind'', JStr (provenance_text (pi_source i))), (js ''sourceTurnId'', jopt (pi_sourceTurn i)),
      (js ''interpretation'', jopt (pi_interpretation i))]"

definition active_row :: "jstr \<Rightarrow> jstr \<Rightarrow> purpose_input \<Rightarrow> jstr option \<Rightarrow> jstr option \<Rightarrow> int \<Rightarrow> purpose_row" where
  "active_row i session input from until now =
     \<lparr>pu_id = i, pu_session = session, pu_scope = pi_scope input, pu_kind = pi_kind input,
      pu_explicit = pi_explicit input, pu_source = pi_source input, pu_sourceTurn = pi_sourceTurn input,
      pu_confirmedFrom = None, pu_confirmedAt = None, pu_statement = pi_statement input,
      pu_interpretation = pi_interpretation input, pu_status = Pu_active, pu_version = 1, pu_supersededBy = None,
      pu_validFrom = from, pu_validUntil = until, pu_createdAt = now, pu_updatedAt = now\<rparr>"

definition source_turn_ok :: "jstr \<Rightarrow> jstr option \<Rightarrow> work \<Rightarrow> kerr + unit" where
  "source_turn_ok session turn w =
     (case turn of
        None \<Rightarrow> Inr ()
      | Some t \<Rightarrow> if \<not> isUuidV4 t then Inl Validation else requireOwnedTurnInSession session t w)"

definition reread_purpose :: "jstr \<Rightarrow> work \<Rightarrow> kerr + purpose_row" where
  "reread_purpose i w = (case readPurpose w i of None \<Rightarrow> Inl NotFound | Some p \<Rightarrow> toPurposeView p)"

definition purpose_create_scope :: "jstr \<Rightarrow> jstr" where
  "purpose_create_scope session = js ''session:'' @ session @ js '':purpose''"

text \<open>\<open>rule\<close> is the member \<open>constraintRule\<close> of the request, when it is present.\<close>

text \<open>The transaction of a request whose hash is known.\<close>

definition create_purpose_transaction ::
  "jstr \<Rightarrow> purpose_input \<Rightarrow> jstr option \<Rightarrow> jstr option \<Rightarrow> jstr \<Rightarrow> int \<Rightarrow> kerr option \<Rightarrow> jstr \<Rightarrow>
     (nat \<Rightarrow> jstr) \<Rightarrow> work \<Rightarrow> (kerr + int \<times> purpose_row \<times> bool) \<times> work" where
  "create_purpose_transaction session input from until key now bridge hash fresh w =
     withImmediate (\<lambda>w.
       let k = lower_ascii key; scope = purpose_create_scope session in
       rbind (requireSession session w) (\<lambda>_.
       case replay scope k hash purpose_body w of
         Some out \<Rightarrow> rbind out (\<lambda>out. Inr (out, w))
       | None \<Rightarrow>
           rbind (source_turn_ok session (pi_sourceTurn input) w) (\<lambda>_.
           rbind (requireApplicabilityWindow from until) (\<lambda>_.
           rbind (insert_purpose (active_row (fresh 0) session input from until now) w) (\<lambda>w1.
           rbind (appendPurposeEventInTx (fresh 1) (fresh 0) session Purpose_created None Pu_active
             (pi_statement input) now w1) (\<lambda>w2.
           rbind (pass bridge) (\<lambda>_.
           rbind (reread_purpose (fresh 0) w2) (\<lambda>body.
           rbind (storeReply scope k hash 201 (Purpose_reply body) now w2) (\<lambda>w3.
             Inr ((201, body, False), w3)))))))))) w"

definition createPurpose ::
  "(jstr \<Rightarrow> jstr) \<Rightarrow> jstr \<Rightarrow> purpose_input \<Rightarrow> jstr option \<Rightarrow> jstr option \<Rightarrow> json option \<Rightarrow> jstr \<Rightarrow> int \<Rightarrow> kerr option \<Rightarrow>
     (nat \<Rightarrow> jstr) \<Rightarrow> work \<Rightarrow> (kerr + int \<times> purpose_row \<times> bool) \<times> work" where
  "createPurpose H session input from until rule key now bridge fresh w =
     (if \<not> isUuidV4 session \<or> \<not> isUuidV4 key \<or> \<not> unix_ms_ok now then (Inl Validation, w)
      else case requestHash H (js ''autonomy_create_purpose'') 1
          (JObj ([(js ''sessionId'', JStr session)] @ purpose_members input @
            [(js ''validFrom'', jopt from), (js ''validUntil'', jopt until)] @
            (case rule of None \<Rightarrow> [] | Some r \<Rightarrow> [(js ''constraintRule'', r)]))) of
        None \<Rightarrow> (Inl Type_error, w)
      | Some hash \<Rightarrow> create_purpose_transaction session input from until key now bridge hash fresh w)"

subsection \<open>The tasks of a purpose that is no longer active\<close>

text \<open>One dependent of the loop of \<open>holdDependentsForNonActiveParent\<close>.\<close>

definition hold_one :: "jstr \<Rightarrow> jstr \<Rightarrow> jstr \<Rightarrow> int \<Rightarrow> task_row \<Rightarrow> work \<Rightarrow> kerr + work" where
  "hold_one freshId session reason now t w =
     (if tk_session t \<noteq> session then Inr w
      else if tk_status t = Ts_held
      then appendTaskEventInTx freshId (tk_id t) session Task_parent_held (Some Ts_held) Ts_held (Some reason) now w
      else rbind (update_tasks
             (\<lambda>x. tk_id x = tk_id t \<and> tk_status x = tk_status t \<and> tk_version x = tk_version t)
             (\<lambda>x. x\<lparr>tk_status := Ts_held, tk_version := tk_version t + 1, tk_updatedAt := now,
                tk_holdReason := Some reason, tk_reconsider := Some (js ''explicit_new_parent'')\<rparr>) w) (\<lambda>(changes, w1).
           if changes \<noteq> 1 then Inl (Autonomy_version_conflict (tk_version t) (tk_version t))
           else appendTaskEventInTx freshId (tk_id t) session Task_parent_held (Some (tk_status t)) Ts_held (Some reason)
             now w1))"

fun hold_rows :: "(nat \<Rightarrow> jstr) \<Rightarrow> nat \<Rightarrow> jstr \<Rightarrow> jstr \<Rightarrow> int \<Rightarrow> task_row list \<Rightarrow> work \<Rightarrow> kerr + work" where
  "hold_rows fresh k session reason now [] w = Inr w"
| "hold_rows fresh k session reason now (t # ts) w =
     rbind (hold_one (fresh k) session reason now t w) (hold_rows fresh (k + 1) session reason now ts)"

definition unfinished :: "task_status \<Rightarrow> bool" where
  "unfinished s \<longleftrightarrow> s = Ts_open \<or> s = Ts_in_progress \<or> s = Ts_held"

definition holdDependentsForNonActiveParent ::
  "jstr \<Rightarrow> jstr \<Rightarrow> jstr \<Rightarrow> int \<Rightarrow> (nat \<Rightarrow> jstr) \<Rightarrow> work \<Rightarrow> kerr + work" where
  "holdDependentsForNonActiveParent i session reason now fresh w =
     hold_rows fresh 0 session reason now
       (filter (\<lambda>t. tk_parent t = Some i \<and> unfinished (tk_status t)) (tasks w)) w"

subsection \<open>Correction, revocation, achievement, confirmation\<close>

text \<open>
  A bound of a correction is absent (the old one stays), null (no bound) or a text. The identifiers are
  \<open>fresh\<close> for the new record and the two events, \<open>freshHold\<close> for the held tasks and \<open>freshFlag\<close> for the notices.
\<close>

definition corrected_bound :: "jstr option option \<Rightarrow> jstr option \<Rightarrow> jstr option" where
  "corrected_bound bound old = (case bound of None \<Rightarrow> old | Some b \<Rightarrow> b)"

definition present_members :: "string \<Rightarrow> string \<Rightarrow> jstr option option \<Rightarrow> (jstr \<times> json) list" where
  "present_members flag name bound =
     [(js flag, JBool (bound \<noteq> None)), (js name, (case bound of None \<Rightarrow> JNull | Some b \<Rightarrow> jopt b))]"

definition correct_tx ::
  "jstr \<Rightarrow> purpose_input \<Rightarrow> jstr option option \<Rightarrow> jstr option option \<Rightarrow> int \<Rightarrow> int \<Rightarrow> kerr option \<Rightarrow> (nat \<Rightarrow> jstr) \<Rightarrow>
     (nat \<Rightarrow> jstr) \<Rightarrow> (nat \<Rightarrow> jstr) \<Rightarrow> purpose_row \<Rightarrow> (purpose_row \<times> purpose_row) wtx" where
  "correct_tx session input from until expected now bridge fresh freshHold freshFlag old w =
     (if pu_status old \<noteq> Pu_active then Inl Autonomy_state_conflict
      else if pu_version old \<noteq> expected then Inl (Autonomy_version_conflict expected (pu_version old))
      else rbind (source_turn_ok session (pi_sourceTurn input) w) (\<lambda>_.
        let nextFrom = corrected_bound from (pu_validFrom old); nextUntil = corrected_bound until (pu_validUntil old) in
        rbind (requireApplicabilityWindow nextFrom nextUntil) (\<lambda>_.
        rbind (insert_purpose (active_row (fresh 0) session input nextFrom nextUntil now) w) (\<lambda>w1.
        rbind (appendPurposeEventInTx (fresh 1) (fresh 0) session Purpose_corrected None Pu_active
          (pi_statement input) now w1) (\<lambda>w2.
        rbind (update_purposes (\<lambda>p. pu_id p = pu_id old \<and> pu_status p = Pu_active \<and> pu_version p = pu_version old)
          (\<lambda>p. p\<lparr>pu_status := Pu_superseded, pu_version := pu_version old + 1, pu_updatedAt := now,
             pu_supersededBy := Some (fresh 0)\<rparr>) w2) (\<lambda>(changes, w3).
        if changes \<noteq> 1 then Inl (Autonomy_version_conflict expected (pu_version old))
        else rbind (appendPurposeEventInTx (fresh 2) (pu_id old) session Purpose_superseded (Some Pu_active) Pu_superseded
               (pu_statement old) now w3) (\<lambda>w4.
             rbind (holdDependentsForNonActiveParent (pu_id old) session (js ''purpose_superseded'') now freshHold w4) (\<lambda>w5.
             rbind (pass bridge) (\<lambda>_.
             rbind (flagHandoffReevaluationInTx session (pu_id old) (js ''purpose_superseded'') now freshFlag w5) (\<lambda>w6.
             rbind (reread_purpose (pu_id old) w6) (\<lambda>was.
             rbind (reread_purpose (fresh 0) w6) (\<lambda>current. Inr ((was, current), w6)))))))))))))"

definition purpose_scope :: "jstr \<Rightarrow> string \<Rightarrow> jstr" where
  "purpose_scope i operation = js ''purpose:'' @ i @ 58 # js operation"

definition correct_transaction ::
  "jstr \<Rightarrow> jstr \<Rightarrow> int \<Rightarrow> purpose_input \<Rightarrow> jstr option option \<Rightarrow> jstr option option \<Rightarrow> jstr \<Rightarrow> int \<Rightarrow>
     kerr option \<Rightarrow> jstr \<Rightarrow> (nat \<Rightarrow> jstr) \<Rightarrow> (nat \<Rightarrow> jstr) \<Rightarrow> (nat \<Rightarrow> jstr) \<Rightarrow> work \<Rightarrow>
     (kerr + int \<times> (purpose_row \<times> purpose_row) \<times> bool) \<times> work" where
  "correct_transaction session i expected input from until key now bridge hash fresh freshHold freshFlag w =
     withImmediate (\<lambda>w.
       let k = lower_ascii key; scope = purpose_scope i ''correct'' in
       rbind (assertOwnedPurpose session i w) (\<lambda>old.
       case replay scope k hash correction_body w of
         Some out \<Rightarrow> rbind out (\<lambda>out. Inr (out, w))
       | None \<Rightarrow>
           rbind (correct_tx session input from until expected now bridge fresh freshHold freshFlag old w)
             (\<lambda>((was, current), w1).
           rbind (storeReply scope k hash 201 (Correction_reply was current) now w1) (\<lambda>w2.
             Inr ((201, (was, current), False), w2))))) w"

definition correctPurpose ::
  "(jstr \<Rightarrow> jstr) \<Rightarrow> jstr \<Rightarrow> jstr \<Rightarrow> int \<Rightarrow> purpose_input \<Rightarrow> jstr option option \<Rightarrow> jstr option option \<Rightarrow> json option \<Rightarrow>
     jstr \<Rightarrow> int \<Rightarrow> kerr option \<Rightarrow> (nat \<Rightarrow> jstr) \<Rightarrow> (nat \<Rightarrow> jstr) \<Rightarrow> (nat \<Rightarrow> jstr) \<Rightarrow> work \<Rightarrow>
     (kerr + int \<times> (purpose_row \<times> purpose_row) \<times> bool) \<times> work" where
  "correctPurpose H session i expected input from until rule key now bridge fresh freshHold freshFlag w =
     (if \<not> isUuidV4 session \<or> \<not> isUuidV4 key \<or> \<not> unix_ms_ok now \<or> \<not> isUuidV4 i then (Inl Validation, w)
      else case requestHash H (js ''autonomy_correct_purpose'') 2
          (JObj ([(js ''sessionId'', JStr session), (js ''purposeId'', JStr i), expected_member expected] @
            purpose_members input @ present_members ''validFromPresent'' ''validFrom'' from @
            present_members ''validUntilPresent'' ''validUntil'' until @
            [(js ''rulePresent'', JBool (rule \<noteq> None)),
             (js ''constraintRule'', (case rule of None \<Rightarrow> JNull | Some r \<Rightarrow> r))])) of
        None \<Rightarrow> (Inl Type_error, w)
      | Some hash \<Rightarrow> correct_transaction session i expected input from until key now bridge hash fresh freshHold freshFlag w)"

text \<open>\<open>transitionPurpose\<close>, by the end that it makes: \<open>True\<close> revokes, \<open>False\<close> achieves.\<close>

definition end_status :: "bool \<Rightarrow> purpose_status" where
  "end_status revoke = (if revoke then Pu_revoked else Pu_achieved)"

definition end_reason :: "bool \<Rightarrow> jstr" where
  "end_reason revoke = (if revoke then js ''purpose_revoked'' else js ''purpose_achieved'')"

definition end_purpose_tx ::
  "bool \<Rightarrow> jstr \<Rightarrow> int \<Rightarrow> int \<Rightarrow> kerr option \<Rightarrow> jstr \<Rightarrow> (nat \<Rightarrow> jstr) \<Rightarrow> (nat \<Rightarrow> jstr) \<Rightarrow> purpose_row \<Rightarrow> purpose_row wtx" where
  "end_purpose_tx revoke session expected now bridge freshId freshHold freshFlag row w =
     (if pu_version row \<noteq> expected then Inl (Autonomy_version_conflict expected (pu_version row))
      else if pu_status row \<noteq> Pu_active then Inl Autonomy_state_conflict
      else rbind (update_purposes (\<lambda>p. pu_id p = pu_id row \<and> pu_status p = Pu_active \<and> pu_version p = pu_version row)
             (\<lambda>p. p\<lparr>pu_status := end_status revoke, pu_version := pu_version row + 1, pu_updatedAt := now\<rparr>) w)
             (\<lambda>(changes, w1).
           if changes \<noteq> 1 then Inl (Autonomy_version_conflict expected (pu_version row))
           else rbind (appendPurposeEventInTx freshId (pu_id row) session
                  (if revoke then Purpose_revoked else Purpose_achieved) (Some Pu_active) (end_status revoke)
                  (pu_statement row) now w1) (\<lambda>w2.
                rbind (holdDependentsForNonActiveParent (pu_id row) session (end_reason revoke) now freshHold w2) (\<lambda>w3.
                rbind (pass bridge) (\<lambda>_.
                rbind (flagHandoffReevaluationInTx session (pu_id row) (end_reason revoke) now freshFlag w3) (\<lambda>w4.
                rbind (reread_purpose (pu_id row) w4) (\<lambda>body. Inr (body, w4))))))))"

definition end_transaction ::
  "bool \<Rightarrow> jstr \<Rightarrow> jstr \<Rightarrow> int \<Rightarrow> jstr \<Rightarrow> int \<Rightarrow> kerr option \<Rightarrow> jstr \<Rightarrow> jstr \<Rightarrow> (nat \<Rightarrow> jstr) \<Rightarrow>
     (nat \<Rightarrow> jstr) \<Rightarrow> work \<Rightarrow> (kerr + int \<times> purpose_row \<times> bool) \<times> work" where
  "end_transaction revoke session i expected key now bridge hash freshId freshHold freshFlag w =
     withImmediate (\<lambda>w.
       let k = lower_ascii key; scope = purpose_scope i (if revoke then ''revoke'' else ''achieve'') in
       rbind (assertOwnedPurpose session i w) (\<lambda>row.
       case replay scope k hash purpose_body w of
         Some out \<Rightarrow> rbind out (\<lambda>out. Inr (out, w))
       | None \<Rightarrow>
           rbind (end_purpose_tx revoke session expected now bridge freshId freshHold freshFlag row w) (\<lambda>(body, w1).
           rbind (storeReply scope k hash 200 (Purpose_reply body) now w1) (\<lambda>w2.
             Inr ((200, body, False), w2))))) w"

definition transitionPurpose ::
  "(jstr \<Rightarrow> jstr) \<Rightarrow> bool \<Rightarrow> jstr \<Rightarrow> jstr \<Rightarrow> int \<Rightarrow> jstr \<Rightarrow> int \<Rightarrow> kerr option \<Rightarrow> jstr \<Rightarrow> (nat \<Rightarrow> jstr) \<Rightarrow> (nat \<Rightarrow> jstr) \<Rightarrow>
     work \<Rightarrow> (kerr + int \<times> purpose_row \<times> bool) \<times> work" where
  "transitionPurpose H revoke session i expected key now bridge freshId freshHold freshFlag w =
     (if \<not> isUuidV4 session \<or> \<not> isUuidV4 i \<or> \<not> isUuidV4 key \<or> \<not> unix_ms_ok now then (Inl Validation, w)
      else case requestHash H (if revoke then js ''autonomy_revoke_purpose'' else js ''autonomy_achieve_purpose'') 1
          (JObj [(js ''sessionId'', JStr session), (js ''purposeId'', JStr i), expected_member expected]) of
        None \<Rightarrow> (Inl Type_error, w)
      | Some hash \<Rightarrow> end_transaction revoke session i expected key now bridge hash freshId freshHold freshFlag w)"

definition revokePurpose ::
  "(jstr \<Rightarrow> jstr) \<Rightarrow> jstr \<Rightarrow> jstr \<Rightarrow> int \<Rightarrow> jstr \<Rightarrow> int \<Rightarrow> kerr option \<Rightarrow> jstr \<Rightarrow> (nat \<Rightarrow> jstr) \<Rightarrow> (nat \<Rightarrow> jstr) \<Rightarrow>
     work \<Rightarrow> (kerr + int \<times> purpose_row \<times> bool) \<times> work" where
  "revokePurpose H = transitionPurpose H True"

definition achievePurpose ::
  "(jstr \<Rightarrow> jstr) \<Rightarrow> jstr \<Rightarrow> jstr \<Rightarrow> int \<Rightarrow> jstr \<Rightarrow> int \<Rightarrow> kerr option \<Rightarrow> jstr \<Rightarrow> (nat \<Rightarrow> jstr) \<Rightarrow> (nat \<Rightarrow> jstr) \<Rightarrow>
     work \<Rightarrow> (kerr + int \<times> purpose_row \<times> bool) \<times> work" where
  "achievePurpose H = transitionPurpose H False"

definition confirm_tx :: "jstr \<Rightarrow> int \<Rightarrow> int \<Rightarrow> kerr option \<Rightarrow> jstr \<Rightarrow> purpose_row \<Rightarrow> purpose_row wtx" where
  "confirm_tx session expected now bridge freshId row w =
     (if pu_version row \<noteq> expected then Inl (Autonomy_version_conflict expected (pu_version row))
      else if pu_status row \<noteq> Pu_active then Inl Autonomy_state_conflict
      else rbind
        (if pu_explicit row then (if pu_source row \<noteq> By_user then Inl Purpose_not_confirmable else Inr w)
         else rbind (update_purposes
                (\<lambda>p. pu_id p = pu_id row \<and> pu_status p = Pu_active \<and> \<not> pu_explicit p \<and> pu_version p = pu_version row)
                (\<lambda>p. p\<lparr>pu_explicit := True, pu_source := By_user, pu_confirmedFrom := Some (js ''conversation_proposal''),
                   pu_confirmedAt := Some now, pu_version := pu_version row + 1, pu_updatedAt := now\<rparr>) w) (\<lambda>(changes, w1).
              if changes \<noteq> 1 then Inl (Autonomy_version_conflict expected (pu_version row))
              else rbind (appendPurposeEventInTx freshId (pu_id row) session Purpose_corrected (Some Pu_active) Pu_active
                     (pu_statement row) now w1) (\<lambda>w2. rbind (pass bridge) (\<lambda>_. Inr w2)))) (\<lambda>w3.
        rbind (reread_purpose (pu_id row) w3) (\<lambda>body. Inr (body, w3))))"

definition confirm_transaction ::
  "jstr \<Rightarrow> jstr \<Rightarrow> int \<Rightarrow> jstr \<Rightarrow> int \<Rightarrow> kerr option \<Rightarrow> jstr \<Rightarrow> jstr \<Rightarrow> work \<Rightarrow>
     (kerr + int \<times> purpose_row \<times> bool) \<times> work" where
  "confirm_transaction session i expected key now bridge hash freshId w =
     withImmediate (\<lambda>w.
       let k = lower_ascii key; scope = purpose_scope i ''confirm'' in
       rbind (assertOwnedPurpose session i w) (\<lambda>row.
       if pu_kind row \<noteq> Pk_goal then Inl Purpose_not_goal
       else case replay scope k hash purpose_body w of
         Some out \<Rightarrow> rbind out (\<lambda>out. Inr (out, w))
       | None \<Rightarrow>
           rbind (confirm_tx session expected now bridge freshId row w) (\<lambda>(body, w1).
           rbind (storeReply scope k hash 200 (Purpose_reply body) now w1) (\<lambda>w2.
             Inr ((200, body, False), w2))))) w"

definition confirmPurpose ::
  "(jstr \<Rightarrow> jstr) \<Rightarrow> jstr \<Rightarrow> jstr \<Rightarrow> int \<Rightarrow> jstr \<Rightarrow> int \<Rightarrow> kerr option \<Rightarrow> jstr \<Rightarrow> work \<Rightarrow>
     (kerr + int \<times> purpose_row \<times> bool) \<times> work" where
  "confirmPurpose H session i expected key now bridge freshId w =
     (if \<not> isUuidV4 session \<or> \<not> isUuidV4 i \<or> \<not> isUuidV4 key \<or> \<not> unix_ms_ok now then (Inl Validation, w)
      else case requestHash H (js ''autonomy_confirm_purpose'') 1
          (JObj [(js ''sessionId'', JStr session), (js ''purposeId'', JStr i), expected_member expected]) of
        None \<Rightarrow> (Inl Type_error, w)
      | Some hash \<Rightarrow> confirm_transaction session i expected key now bridge hash freshId w)"

subsection \<open>Tasks\<close>

fun task_kind_text :: "task_kind \<Rightarrow> jstr" where
  "task_kind_text Tk_chat = js ''chat''"
| "task_kind_text Tk_wish = js ''wish''"
| "task_kind_text Tk_problem = js ''problem''"
| "task_kind_text Tk_task = js ''task''"

record task_input =
  ti_scope :: jstr
  ti_title :: jstr
  ti_body :: "jstr option"
  ti_kind :: task_kind
  ti_speaker :: provenance
  ti_deadline :: "jstr option"
  ti_parent :: "jstr option"

definition task_payload :: "jstr \<Rightarrow> task_input \<Rightarrow> json" where
  "task_payload session i =
     JObj [(js ''sessionId'', JStr session), (js ''scope'', JStr (ti_scope i)), (js ''title'', JStr (ti_title i)),
       (js ''body'', jopt (ti_body i)), (js ''kind'', JStr (task_kind_text (ti_kind i))),
       (js ''speaker'', JStr (provenance_text (ti_speaker i))), (js ''deadline'', jopt (ti_deadline i)),
       (js ''parentPurposeId'', jopt (ti_parent i))]"

definition open_task :: "jstr \<Rightarrow> jstr \<Rightarrow> task_input \<Rightarrow> int \<Rightarrow> task_row" where
  "open_task i session input now =
     \<lparr>tk_id = i, tk_session = session, tk_scope = ti_scope input, tk_title = ti_title input, tk_body = ti_body input,
      tk_kind = ti_kind input, tk_speaker = ti_speaker input, tk_deadline = ti_deadline input,
      tk_parent = ti_parent input, tk_status = Ts_open, tk_version = 1, tk_holdReason = None, tk_reconsider = None,
      tk_createdAt = now, tk_updatedAt = now\<rparr>"

definition reread_task :: "jstr \<Rightarrow> work \<Rightarrow> kerr + task_row" where
  "reread_task i w = (case readTask w i of None \<Rightarrow> Inl NotFound | Some t \<Rightarrow> toTaskView t)"

definition task_parent_ok :: "jstr \<Rightarrow> task_input \<Rightarrow> work \<Rightarrow> kerr + unit" where
  "task_parent_ok session input w =
     (case ti_parent input of
        Some i \<Rightarrow> rbind (assertOwnedPurpose session i w) (\<lambda>p. if pu_scope p \<noteq> ti_scope input then Inl Validation else Inr ())
      | None \<Rightarrow> if ti_speaker input = By_self then Inl Validation else Inr ())"

definition create_task_tx :: "jstr \<Rightarrow> task_input \<Rightarrow> int \<Rightarrow> kerr option \<Rightarrow> (nat \<Rightarrow> jstr) \<Rightarrow> task_row wtx" where
  "create_task_tx session input now bridge fresh w =
     (if \<not> pred_option isStrictCalendarInstant (ti_deadline input) then Inl Validation
      else rbind (task_parent_ok session input w) (\<lambda>_.
           rbind (insert_task (open_task (fresh 0) session input now) w) (\<lambda>w1.
           rbind (appendTaskEventInTx (fresh 1) (fresh 0) session Task_created None Ts_open None now w1) (\<lambda>w2.
           rbind (pass bridge) (\<lambda>_.
           rbind (reread_task (fresh 0) w2) (\<lambda>body. Inr (body, w2)))))))"

definition task_create_scope :: "jstr \<Rightarrow> jstr" where
  "task_create_scope session = js ''session:'' @ session @ js '':task''"

definition create_task_transaction ::
  "jstr \<Rightarrow> task_input \<Rightarrow> jstr \<Rightarrow> int \<Rightarrow> kerr option \<Rightarrow> jstr \<Rightarrow> (nat \<Rightarrow> jstr) \<Rightarrow> work \<Rightarrow>
     (kerr + int \<times> task_row \<times> bool) \<times> work" where
  "create_task_transaction session input key now bridge hash fresh w =
     withImmediate (\<lambda>w.
       let k = lower_ascii key; scope = task_create_scope session in
       rbind (requireSession session w) (\<lambda>_.
       case replay scope k hash task_body w of
         Some out \<Rightarrow> rbind out (\<lambda>out. Inr (out, w))
       | None \<Rightarrow>
           rbind (create_task_tx session input now bridge fresh w) (\<lambda>(body, w1).
           rbind (storeReply scope k hash 201 (Task_reply body) now w1) (\<lambda>w2.
             Inr ((201, body, False), w2))))) w"

definition createTask ::
  "(jstr \<Rightarrow> jstr) \<Rightarrow> jstr \<Rightarrow> task_input \<Rightarrow> jstr \<Rightarrow> int \<Rightarrow> kerr option \<Rightarrow> (nat \<Rightarrow> jstr) \<Rightarrow> work \<Rightarrow>
     (kerr + int \<times> task_row \<times> bool) \<times> work" where
  "createTask H session input key now bridge fresh w =
     (if \<not> isUuidV4 session \<or> \<not> isUuidV4 key \<or> \<not> unix_ms_ok now then (Inl Validation, w)
      else case requestHash H (js ''autonomy_create_task'') 1 (task_payload session input) of
        None \<Rightarrow> (Inl Type_error, w)
      | Some hash \<Rightarrow> create_task_transaction session input key now bridge hash fresh w)"

text \<open>The wrapper that the transitions of a task repeat: ownership, the stored answer, the version, the operation.\<close>

definition task_scope :: "jstr \<Rightarrow> string \<Rightarrow> jstr" where
  "task_scope i operation = js ''task:'' @ i @ 58 # js operation"

definition task_transaction ::
  "string \<Rightarrow> jstr \<Rightarrow> jstr \<Rightarrow> int \<Rightarrow> jstr \<Rightarrow> int \<Rightarrow> jstr \<Rightarrow> (task_row \<Rightarrow> task_row wtx) \<Rightarrow>
     work \<Rightarrow> (kerr + int \<times> task_row \<times> bool) \<times> work" where
  "task_transaction operation session i expected key now hash apply w =
     withImmediate (\<lambda>w.
       let k = lower_ascii key; scope = task_scope i operation in
       rbind (assertOwnedTask session i w) (\<lambda>row.
       case replay scope k hash task_body w of
         Some out \<Rightarrow> rbind out (\<lambda>out. Inr (out, w))
       | None \<Rightarrow>
           if tk_version row \<noteq> expected then Inl (Autonomy_version_conflict expected (tk_version row))
           else rbind (apply row w) (\<lambda>(body, w1).
                rbind (storeReply scope k hash 200 (Task_reply body) now w1) (\<lambda>w2.
                  Inr ((200, body, False), w2))))) w"

definition mutate_task ::
  "(jstr \<Rightarrow> jstr) \<Rightarrow> string \<Rightarrow> string \<Rightarrow> jstr \<Rightarrow> jstr \<Rightarrow> int \<Rightarrow> jstr \<Rightarrow> int \<Rightarrow> (jstr \<times> json) list \<Rightarrow> (task_row \<Rightarrow> task_row wtx) \<Rightarrow>
     work \<Rightarrow> (kerr + int \<times> task_row \<times> bool) \<times> work" where
  "mutate_task H operation name session i expected key now hashInput apply w =
     (if \<not> isUuidV4 session \<or> \<not> isUuidV4 i \<or> \<not> isUuidV4 key \<or> \<not> unix_ms_ok now then (Inl Validation, w)
      else case requestHash H (js name) 1
          (JObj ([(js ''sessionId'', JStr session), (js ''taskId'', JStr i), expected_member expected] @ hashInput)) of
        None \<Rightarrow> (Inl Type_error, w)
      | Some hash \<Rightarrow> task_transaction operation session i expected key now hash apply w)"

definition requireApplicableParentForWork :: "jstr \<Rightarrow> jstr \<Rightarrow> jstr \<Rightarrow> int \<Rightarrow> work \<Rightarrow> kerr + unit" where
  "requireApplicableParentForWork session scope i now w =
     (case readPurpose w i of
        None \<Rightarrow> Inl NotFound
      | Some p \<Rightarrow>
          if pu_session p \<noteq> session \<or> pu_scope p \<noteq> scope then Inl NotFound
          else if pu_status p \<noteq> Pu_active then Inl Autonomy_state_conflict
          else if \<not> isPurposeApplicableAt (pu_validFrom p) (pu_validUntil p) now then Inl Autonomy_state_conflict
          else Inr ())"

text \<open>The update of the row at the status and version that were read, its event, and the row as it is then.\<close>

definition move_task ::
  "task_row \<Rightarrow> (task_row \<Rightarrow> task_row) \<Rightarrow> int \<Rightarrow> task_change \<Rightarrow> task_status \<Rightarrow> jstr option \<Rightarrow> int \<Rightarrow> jstr \<Rightarrow> work \<Rightarrow> kerr + work" where
  "move_task row f expected event to note now freshId w =
     rbind (update_tasks (\<lambda>t. tk_id t = tk_id row \<and> tk_status t = tk_status row \<and> tk_version t = tk_version row) f w)
       (\<lambda>(changes, w1).
          if changes \<noteq> 1 then Inl (Autonomy_version_conflict expected (tk_version row))
          else appendTaskEventInTx freshId (tk_id row) (tk_session row) event (Some (tk_status row)) to note now w1)"

definition finish_task :: "kerr option \<Rightarrow> task_row \<Rightarrow> task_row wtx" where
  "finish_task bridge row w = rbind (pass bridge) (\<lambda>_. rbind (reread_task (tk_id row) w) (\<lambda>body. Inr (body, w)))"

datatype task_move = Move_start | Move_complete | Move_cancel

fun move_name :: "task_move \<Rightarrow> string" where
  "move_name Move_start = ''start''"
| "move_name Move_complete = ''complete''"
| "move_name Move_cancel = ''cancel''"

fun move_operation :: "task_move \<Rightarrow> string" where
  "move_operation Move_start = ''autonomy_start_task''"
| "move_operation Move_complete = ''autonomy_complete_task''"
| "move_operation Move_cancel = ''autonomy_cancel_task''"

fun move_to :: "task_move \<Rightarrow> task_status" where
  "move_to Move_start = Ts_in_progress"
| "move_to Move_complete = Ts_completed"
| "move_to Move_cancel = Ts_cancelled"

fun move_event :: "task_move \<Rightarrow> task_change" where
  "move_event Move_start = Task_started"
| "move_event Move_complete = Task_completed"
| "move_event Move_cancel = Task_cancelled"

definition move_guard :: "task_move \<Rightarrow> int \<Rightarrow> task_row \<Rightarrow> work \<Rightarrow> kerr + unit" where
  "move_guard operation now row w =
     (if operation = Move_start
      then if tk_status row \<noteq> Ts_open then Inl Autonomy_state_conflict
        else (case tk_parent row of
                None \<Rightarrow> Inr ()
              | Some i \<Rightarrow> requireApplicableParentForWork (tk_session row) (tk_scope row) i now w)
      else if \<not> unfinished (tk_status row) then Inl Autonomy_state_conflict else Inr ())"

definition move_tx :: "task_move \<Rightarrow> int \<Rightarrow> int \<Rightarrow> kerr option \<Rightarrow> jstr \<Rightarrow> task_row \<Rightarrow> task_row wtx" where
  "move_tx operation expected now bridge freshId row w =
     rbind (move_guard operation now row w) (\<lambda>_.
     rbind (move_task row (\<lambda>t. t\<lparr>tk_status := move_to operation, tk_version := tk_version row + 1, tk_updatedAt := now,
         tk_holdReason := None, tk_reconsider := None\<rparr>) expected (move_event operation) (move_to operation) None now freshId w)
       (finish_task bridge row))"

definition transitionTask ::
  "(jstr \<Rightarrow> jstr) \<Rightarrow> task_move \<Rightarrow> jstr \<Rightarrow> jstr \<Rightarrow> int \<Rightarrow> jstr \<Rightarrow> int \<Rightarrow> kerr option \<Rightarrow> jstr \<Rightarrow> work \<Rightarrow>
     (kerr + int \<times> task_row \<times> bool) \<times> work" where
  "transitionTask H operation session i expected key now bridge freshId w =
     mutate_task H (move_name operation) (move_operation operation) session i expected key now []
       (move_tx operation expected now bridge freshId) w"

definition hold_tx :: "jstr \<Rightarrow> jstr \<Rightarrow> int \<Rightarrow> int \<Rightarrow> kerr option \<Rightarrow> jstr \<Rightarrow> task_row \<Rightarrow> task_row wtx" where
  "hold_tx reason trigger expected now bridge freshId row w =
     (if tk_status row \<noteq> Ts_open \<and> tk_status row \<noteq> Ts_in_progress then Inl Autonomy_state_conflict
      else rbind (move_task row (\<lambda>t. t\<lparr>tk_status := Ts_held, tk_version := tk_version row + 1, tk_updatedAt := now,
             tk_holdReason := Some reason, tk_reconsider := Some trigger\<rparr>) expected Task_held Ts_held (Some reason) now
             freshId w) (finish_task bridge row))"

definition holdTask ::
  "(jstr \<Rightarrow> jstr) \<Rightarrow> jstr \<Rightarrow> jstr \<Rightarrow> int \<Rightarrow> jstr \<Rightarrow> jstr \<Rightarrow> jstr \<Rightarrow> int \<Rightarrow> kerr option \<Rightarrow> jstr \<Rightarrow> work \<Rightarrow>
     (kerr + int \<times> task_row \<times> bool) \<times> work" where
  "holdTask H session i expected reason trigger key now bridge freshId w =
     mutate_task H ''hold'' ''autonomy_hold_task'' session i expected key now
       [(js ''reason'', JStr reason), (js ''reconsiderTrigger'', JStr trigger)]
       (hold_tx reason trigger expected now bridge freshId) w"

datatype evidence_kind =
    Parent_changed | Dependency_completed | User_confirmed | Correction_applied | External_input

fun evidence_text :: "evidence_kind \<Rightarrow> jstr" where
  "evidence_text Parent_changed = js ''parent_changed''"
| "evidence_text Dependency_completed = js ''dependency_completed''"
| "evidence_text User_confirmed = js ''user_confirmed''"
| "evidence_text Correction_applied = js ''correction_applied''"
| "evidence_text External_input = js ''external_input''"

text \<open>The checks of an explicit new parent, and the parent with which a task resumes.\<close>

definition replacement_parent :: "jstr \<Rightarrow> jstr \<Rightarrow> jstr \<Rightarrow> int \<Rightarrow> work \<Rightarrow> kerr + jstr" where
  "replacement_parent session scope i now w =
     rbind (assertOwnedPurpose session i w) (\<lambda>p.
       if pu_status p \<noteq> Pu_active then Inl Autonomy_state_conflict
       else if pu_scope p \<noteq> scope then Inl Validation
       else if \<not> isPurposeApplicableAt (pu_validFrom p) (pu_validUntil p) now then Inl Autonomy_state_conflict
       else Inr (pu_id p))"

definition parent_usable :: "jstr \<Rightarrow> jstr \<Rightarrow> int \<Rightarrow> work \<Rightarrow> bool" where
  "parent_usable session i now w =
     (case readPurpose w i of
        None \<Rightarrow> False
      | Some p \<Rightarrow> pu_session p = session \<and> pu_status p = Pu_active \<and>
          isPurposeApplicableAt (pu_validFrom p) (pu_validUntil p) now)"

definition next_parent :: "jstr option \<Rightarrow> int \<Rightarrow> task_row \<Rightarrow> work \<Rightarrow> kerr + jstr option" where
  "next_parent newParent now row w =
     (case newParent of
        Some i \<Rightarrow> rbind (replacement_parent (tk_session row) (tk_scope row) i now w) (\<lambda>p. Inr (Some p))
      | None \<Rightarrow>
          (case tk_parent row of
             None \<Rightarrow> Inr None
           | Some i \<Rightarrow> if parent_usable (tk_session row) i now w then Inr (Some i) else Inl Autonomy_state_conflict))"

definition resume_note :: "evidence_kind \<Rightarrow> jstr \<Rightarrow> jstr" where
  "resume_note kind text = evidence_text kind @ js '': '' @ text"

definition resume_tx ::
  "evidence_kind \<Rightarrow> jstr \<Rightarrow> jstr option \<Rightarrow> int \<Rightarrow> int \<Rightarrow> kerr option \<Rightarrow> jstr \<Rightarrow> (nat \<Rightarrow> jstr) \<Rightarrow> task_row \<Rightarrow> task_row wtx" where
  "resume_tx kind text newParent expected now bridge freshId freshFlag row w =
     (if tk_status row \<noteq> Ts_held then Inl Autonomy_state_conflict
      else rbind (next_parent newParent now row w) (\<lambda>nextParent.
           rbind (case nextParent of
                None \<Rightarrow> Inr ()
              | Some i \<Rightarrow> requireApplicableParentForWork (tk_session row) (tk_scope row) i now w) (\<lambda>_.
           rbind (move_task row (\<lambda>t. t\<lparr>tk_status := Ts_in_progress, tk_version := tk_version row + 1, tk_updatedAt := now,
               tk_parent := nextParent, tk_holdReason := None, tk_reconsider := None\<rparr>) expected Task_resumed
             Ts_in_progress (Some (resume_note kind text)) now freshId w) (\<lambda>w1.
           rbind (if nextParent \<noteq> tk_parent row
              then flagHandoffTaskReparentInTx (tk_session row) (tk_id row) (js ''task_reparented_on_resume'') now freshFlag w1
              else Inr w1) (finish_task bridge row)))))"

definition resumeTask ::
  "(jstr \<Rightarrow> jstr) \<Rightarrow> jstr \<Rightarrow> jstr \<Rightarrow> int \<Rightarrow> evidence_kind \<Rightarrow> jstr \<Rightarrow> jstr option \<Rightarrow> jstr \<Rightarrow> int \<Rightarrow> kerr option \<Rightarrow> jstr \<Rightarrow>
     (nat \<Rightarrow> jstr) \<Rightarrow> work \<Rightarrow> (kerr + int \<times> task_row \<times> bool) \<times> work" where
  "resumeTask H session i expected kind text newParent key now bridge freshId freshFlag w =
     mutate_task H ''resume'' ''autonomy_resume_task'' session i expected key now
       [(js ''evidenceKind'', JStr (evidence_text kind)), (js ''evidence'', JStr text),
        (js ''newParentPurposeId'', jopt newParent)]
       (resume_tx kind text newParent expected now bridge freshId freshFlag) w"

end
