(* ===== verification/Handoff_Inv.thy ===== *)
theory Handoff_Inv
  imports Autonomy "HOL-Library.Multiset" "HOL-Library.Sublist"
begin

text \<open>
  The specification of a handoff is a small machine over its events: a status, a notice, a number of attempts and whether
  a successor exists. The invariant says that the numbered journal of every row is a run of that machine which ends in
  what the row stores, that a verified row has passed all its criteria, and that its attempts are numbered.
\<close>

subsection \<open>The machine\<close>

record handoff_spec =
  hs_status :: handoff_status
  hs_notice :: bool
  hs_attempts :: nat
  hs_superseded :: bool

definition spec_start :: handoff_spec where
  "spec_start = \<lparr>hs_status = Ho_prepared, hs_notice = False, hs_attempts = 0, hs_superseded = False\<rparr>"

text \<open>What an event does to the state; \<open>None\<close> where the event must not happen.\<close>

fun spec_event :: "handoff_change \<Rightarrow> handoff_spec \<Rightarrow> handoff_spec option" where
  "spec_event He_prepared s = None"
| "spec_event He_dispatched s =
     (if hs_status s = Ho_prepared \<and> \<not> hs_notice s \<and> \<not> hs_superseded s then Some (s\<lparr>hs_status := Ho_dispatched\<rparr>) else None)"
| "spec_event He_reported s =
     (if hs_status s = Ho_dispatched \<and> \<not> hs_superseded s then Some (s\<lparr>hs_status := Ho_reported\<rparr>) else None)"
| "spec_event He_verified s =
     (if hs_status s = Ho_reported \<and> \<not> hs_superseded s then Some (s\<lparr>hs_status := Ho_verified\<rparr>) else None)"
| "spec_event He_failed s =
     (if open_status (hs_status s) \<and> \<not> hs_superseded s then Some (s\<lparr>hs_status := Ho_failed\<rparr>) else None)"
| "spec_event He_cancelled s =
     (if open_status (hs_status s) then Some (s\<lparr>hs_status := Ho_cancelled\<rparr>) else None)"
| "spec_event He_abnormal_exit s = (if open_status (hs_status s) \<and> \<not> hs_superseded s then Some s else None)"
| "spec_event He_attempt_recorded s =
     (if live_status (hs_status s) \<and> \<not> hs_notice s \<and> \<not> hs_superseded s
      then Some (s\<lparr>hs_status := (if hs_status s = Ho_failed then Ho_prepared else hs_status s),
        hs_attempts := hs_attempts s + 1\<rparr>) else None)"
| "spec_event He_superseded s = (if hs_superseded s then None else Some (s\<lparr>hs_superseded := True\<rparr>))"
| "spec_event He_reaffirmed s = Some s"
| "spec_event He_flagged s = (if live_status (hs_status s) \<and> \<not> hs_notice s then Some (s\<lparr>hs_notice := True\<rparr>) else None)"
| "spec_event He_cleared s = Some (s\<lparr>hs_notice := False\<rparr>)"

definition spec_follow :: "handoff_spec option \<Rightarrow> handoff_event \<Rightarrow> handoff_spec option" where
  "spec_follow s e =
     (case s of
        None \<Rightarrow> None
      | Some s \<Rightarrow>
          (case spec_event (he_event e) s of
             None \<Rightarrow> None
           | Some t \<Rightarrow> if he_from e = Some (hs_status s) \<and> he_to e = hs_status t then Some t else None))"

definition handoff_replay :: "handoff_event list \<Rightarrow> handoff_spec option" where
  "handoff_replay es =
     (case es of
        [] \<Rightarrow> None
      | e # es \<Rightarrow>
          if he_event e = He_prepared \<and> he_from e = None \<and> he_to e = Ho_prepared
          then foldl spec_follow (Some spec_start) es else None)"

lemma replay_append: "handoff_replay es = Some s \<Longrightarrow> handoff_replay (es @ es') = foldl spec_follow (Some s) es'"
  by (cases es) (auto simp: handoff_replay_def split: if_splits)

lemma follow_None [simp]: "foldl spec_follow None es = None"
  by (induction es) (simp_all add: spec_follow_def)

text \<open>What a row stores of the machine's state.\<close>

definition handoff_abs :: "handoff_row \<Rightarrow> handoff_spec" where
  "handoff_abs h = \<lparr>hs_status = ho_status h, hs_notice = ho_notice h, hs_attempts = ho_attempt h,
     hs_superseded = (ho_supersededBy h \<noteq> None)\<rparr>"

lemma handoff_abs_sel [simp]:
  "hs_status (handoff_abs h) = ho_status h" "hs_notice (handoff_abs h) = ho_notice h"
  "hs_attempts (handoff_abs h) = ho_attempt h" "hs_superseded (handoff_abs h) \<longleftrightarrow> ho_supersededBy h \<noteq> None"
  by (simp_all add: handoff_abs_def)

subsection \<open>The invariant of a row\<close>

text \<open>The results prove the criteria: each of them exactly once, all passed, all with evidence.\<close>

definition proves_all :: "nat \<Rightarrow> verify_result list \<Rightarrow> bool" where
  "proves_all n results \<longleftrightarrow>
     mset (map vr_index results) = mset (map int [0..<n]) \<and> (\<forall>r \<in> set results. vr_pass r \<and> vr_evidence r \<noteq> [])"

definition reported_ok :: "handoff_row \<Rightarrow> bool" where
  "reported_ok h \<longleftrightarrow>
     (ho_status h \<in> {Ho_reported, Ho_verified} \<longrightarrow> ho_environment h \<noteq> None \<and> ho_summary h \<noteq> None) \<and>
     (ho_status h = Ho_verified \<longrightarrow> (\<exists>rs. ho_results h = Some rs \<and> proves_all (length (ho_criteria h)) rs))"

definition fields_ok :: "handoff_row \<Rightarrow> bool" where
  "fields_ok h \<longleftrightarrow> handoff_view_ok (h\<lparr>ho_version := 1\<rparr>) \<and> 1 \<le> ho_version h"

lemma fields_view: "fields_ok h \<Longrightarrow> ho_version h \<le> MAX_SAFE_INTEGER \<Longrightarrow> handoff_view_ok h"
  by (simp add: fields_ok_def handoff_view_ok_def version_ok_def)

lemma view_fields: "handoff_view_ok h \<Longrightarrow> fields_ok h"
  by (simp add: fields_ok_def handoff_view_ok_def version_ok_def MAX_SAFE_INTEGER_def)

definition journal_good :: "work \<Rightarrow> handoff_row \<Rightarrow> bool" where
  "journal_good w h \<longleftrightarrow>
     map he_seq (handoffJournal w (ho_id h)) = [1..<length (handoffJournal w (ho_id h)) + 1] \<and>
     handoff_replay (handoffJournal w (ho_id h)) = Some (handoff_abs h)"

definition attemptNumbers :: "work \<Rightarrow> jstr \<Rightarrow> nat list" where
  "attemptNumbers w i = map at_no (filter (\<lambda>a. at_handoff a = i) (attempts w))"

definition row_good :: "work \<Rightarrow> handoff_row \<Rightarrow> bool" where
  "row_good w h \<longleftrightarrow>
     journal_good w h \<and> attemptNumbers w (ho_id h) = [1..<ho_attempt h + 1] \<and> reported_ok h \<and> fields_ok h"

text \<open>Nothing is recorded of a handoff that does not exist.\<close>

definition rows_ok :: "work \<Rightarrow> bool" where
  "rows_ok w \<longleftrightarrow>
     distinct (map ho_id (handoffs w)) \<and> (\<forall>h \<in> set (handoffs w). row_good w h) \<and>
     he_handoff ` set (handoffEvents w) \<subseteq> ho_id ` set (handoffs w) \<and>
     at_handoff ` set (attempts w) \<subseteq> ho_id ` set (handoffs w)"

lemma next_of_upt: "next_of [1..<n + 1] = n + 1"
proof -
  have "foldr max [1..<k + 1] 0 = k" for k :: nat
  proof (induction k)
    case 0
    then show ?case by simp
  next
    case (Suc k)
    have "foldr max [1..<Suc k + 1] 0 = foldr max [1..<k + 1] (Suc k)"
      by simp
    moreover have "foldr max xs (Suc k) = max (foldr max xs 0) (Suc k)" for xs
      by (induction xs) auto
    ultimately show ?case
      using Suc.IH by simp
  qed
  then show ?thesis
    by (simp add: next_of_def)
qed

subsection \<open>Reading the tables\<close>

lemma readHandoff_Some: "readHandoff w i = Some h \<Longrightarrow> h \<in> set (handoffs w) \<and> ho_id h = i"
  unfolding readHandoff_def by (rule find_key_Some)

lemma readHandoff_None: "readHandoff w i = None \<longleftrightarrow> i \<notin> ho_id ` set (handoffs w)"
  unfolding readHandoff_def by (rule find_key_None)

lemma assertOwnedHandoff_Inr:
  "assertOwnedHandoff s i w = Inr h \<Longrightarrow> h \<in> set (handoffs w) \<and> ho_id h = i \<and> ho_session h = s \<and> isUuidV4 i"
  by (auto simp: assertOwnedHandoff_def split: if_splits option.splits dest: readHandoff_Some)

lemma readTask_Some: "readTask w i = Some t \<Longrightarrow> t \<in> set (tasks w) \<and> tk_id t = i"
  unfolding readTask_def by (rule find_key_Some)

lemma readTask_None: "readTask w i = None \<longleftrightarrow> i \<notin> tk_id ` set (tasks w)"
  unfolding readTask_def by (rule find_key_None)

lemma readPurpose_Some: "readPurpose w i = Some p \<Longrightarrow> p \<in> set (purposes w) \<and> pu_id p = i"
  unfolding readPurpose_def by (rule find_key_Some)

lemma readPurpose_None: "readPurpose w i = None \<longleftrightarrow> i \<notin> pu_id ` set (purposes w)"
  unfolding readPurpose_def by (rule find_key_None)

lemma assertOwnedTask_Inr: "assertOwnedTask s i w = Inr t \<Longrightarrow> t \<in> set (tasks w) \<and> tk_id t = i \<and> tk_session t = s"
  by (auto simp: assertOwnedTask_def split: if_splits option.splits dest: readTask_Some)

lemma assertOwnedPurpose_Inr:
  "assertOwnedPurpose s i w = Inr p \<Longrightarrow> p \<in> set (purposes w) \<and> pu_id p = i \<and> pu_session p = s"
  by (auto simp: assertOwnedPurpose_def split: if_splits option.splits dest: readPurpose_Some)

lemma append_event_Inr:
  "appendHandoffEventInTx f i s event from to note now w = Inr w' \<Longrightarrow>
     w' = w\<lparr>handoffEvents := handoffEvents w @
       [\<lparr>he_id = f, he_handoff = i, he_session = s, he_seq = next_of (map he_seq (handoffJournal w i)), he_event = event,
         he_from = from, he_to = to, he_note = note, he_createdAt = now\<rparr>]\<rparr> \<and> readHandoff w i \<noteq> None"
  by (auto simp: appendHandoffEventInTx_def split: if_splits)

lemma insert_attempt_Inr: "insert_attempt a w = Inr w' \<Longrightarrow> w' = w\<lparr>attempts := attempts w @ [a]\<rparr>"
  by (auto simp: insert_attempt_def split: if_splits)

lemma insert_handoff_Inr:
  "insert_handoff h w = Inr w' \<Longrightarrow> w' = w\<lparr>handoffs := handoffs w @ [h]\<rparr> \<and> ho_id h \<notin> ho_id ` set (handoffs w)"
  by (auto simp: insert_handoff_def readHandoff_None split: if_splits option.splits)

text \<open>What a request is made of, once its hash is known.\<close>

lemmas request_defs =
  create_purpose_transaction_def correct_transaction_def end_transaction_def confirm_transaction_def
  create_task_transaction_def task_transaction_def create_handoff_transaction_def handoff_transaction_def
  withImmediate_def Let_def

text \<open>The update of one row at the version that was read.\<close>

lemma update_handoffs_row:
  assumes "distinct (map ho_id (handoffs w))" "row \<in> set (handoffs w)" "\<And>h. q h \<longleftrightarrow> ho_id h = ho_id row \<and> g h" "g row"
    and "ho_id (f row) = ho_id row"
  shows "update_handoffs q f w =
    (if handoff_check (f row) then Inr (1, w\<lparr>handoffs := put_row ho_id (f row) (handoffs w)\<rparr>) else Inl Sqlite_check)"
proof -
  have "list_ex (\<lambda>h. q h \<and> \<not> handoff_check (f h)) (handoffs w) \<longleftrightarrow> \<not> handoff_check (f row)"
    using assms by (auto simp: list_ex_iff dest: distinct_key_eq)
  then show ?thesis
    using count_where_key [of ho_id "handoffs w" row q g] upd_where_key [of ho_id "handoffs w" row q g f] assms
    by (simp add: update_handoffs_def)
qed

lemma move_row_Inr:
  assumes "distinct (map ho_id (handoffs w))" "row \<in> set (handoffs w)" "ho_id (f row) = ho_id row"
    and "move_row row f w = Inr w'"
  shows "w' = w\<lparr>handoffs := put_row ho_id (f row) (handoffs w)\<rparr> \<and> handoff_check (f row)"
  using assms(4) update_handoffs_row [OF assms(1,2), of "at_version row" "\<lambda>h. ho_version h = ho_version row" f] assms(3)
  by (auto simp: move_row_def at_version_def rbind_eq_Inr split: if_splits)

lemma reread_view_Inr:
  "reread_view row w = Inr (v, w') \<Longrightarrow> w' = w \<and> v \<in> set (handoffs w) \<and> ho_id v = ho_id row \<and> handoff_view_ok v"
  by (auto simp: reread_view_def toHandoffView_def rbind_eq_Inr split: option.splits if_splits dest: readHandoff_Some)

lemma journal_sel [simp]:
  "handoffJournal (w\<lparr>handoffs := hs\<rparr>) i = handoffJournal w i" "handoffJournal (w\<lparr>attempts := as\<rparr>) i = handoffJournal w i"
  "handoffJournal (w\<lparr>replies := rs\<rparr>) i = handoffJournal w i" "handoffJournal (w\<lparr>tasks := ts\<rparr>) i = handoffJournal w i"
  "handoffJournal (w\<lparr>purposes := ps\<rparr>) i = handoffJournal w i" "handoffJournal (w\<lparr>kernel_db := db\<rparr>) i = handoffJournal w i"
  "handoffJournal (w\<lparr>taskEvents := tes\<rparr>) i = handoffJournal w i"
  "handoffJournal (w\<lparr>purposeEvents := pes\<rparr>) i = handoffJournal w i"
  "handoffJournal (w\<lparr>handoffEvents := es @ es'\<rparr>) i = filter (\<lambda>e. he_handoff e = i) es @ filter (\<lambda>e. he_handoff e = i) es'"
  by (simp_all add: handoffJournal_def)

subsection \<open>One row moves\<close>

definition same_frozen :: "handoff_row \<Rightarrow> handoff_row \<Rightarrow> bool" where
  "same_frozen h h' \<longleftrightarrow>
     ho_id h' = ho_id h \<and> ho_session h' = ho_session h \<and> ho_task h' = ho_task h \<and> ho_target h' = ho_target h \<and>
     ho_criteria h' = ho_criteria h \<and> ho_opScope h' = ho_opScope h \<and> ho_budget h' = ho_budget h \<and>
     ho_boundaries h' = ho_boundaries h \<and> ho_supersedes h' = ho_supersedes h \<and> ho_createdAt h' = ho_createdAt h"

lemma same_frozen_refl [simp]: "same_frozen h h"
  by (simp add: same_frozen_def)

lemma same_frozen_trans: "same_frozen a b \<Longrightarrow> same_frozen b c \<Longrightarrow> same_frozen a c"
  by (simp add: same_frozen_def)

text \<open>
  The row \<open>h\<close> becomes \<open>h'\<close>, with the events \<open>es\<close> and the attempts \<open>as\<close>; nothing else of the handoffs changes.
\<close>

definition row_moved :: "handoff_row \<Rightarrow> handoff_row \<Rightarrow> handoff_event list \<Rightarrow> attempt_row list \<Rightarrow> work \<Rightarrow> work \<Rightarrow> bool" where
  "row_moved h h' es as w w' \<longleftrightarrow>
     h \<in> set (handoffs w) \<and> handoffs w' = put_row ho_id h' (handoffs w) \<and> handoffEvents w' = handoffEvents w @ es \<and>
     attempts w' = attempts w @ as \<and> same_frozen h h' \<and> ho_version h < ho_version h' \<and> es \<noteq> [] \<and>
     (\<forall>e \<in> set es. he_handoff e = ho_id h) \<and> (\<forall>a \<in> set as. at_handoff a = ho_id h) \<and>
     map he_seq es = map (\<lambda>k. length (handoffJournal w (ho_id h)) + 1 + k) [0..<length es] \<and>
     foldl spec_follow (Some (handoff_abs h)) es = Some (handoff_abs h') \<and>
     map at_no as = [ho_attempt h + 1..<ho_attempt h' + 1] \<and> ho_attempt h \<le> ho_attempt h' \<and>
     (reported_ok h \<longrightarrow> reported_ok h') \<and> (fields_ok h \<longrightarrow> fields_ok h') \<and>
     (ho_status h = Ho_verified \<longrightarrow> ho_results h' = ho_results h \<and> ho_environment h' = ho_environment h \<and>
        ho_summary h' = ho_summary h) \<and>
     (ho_supersededBy h \<noteq> None \<longrightarrow> ho_supersededBy h' = ho_supersededBy h)"

lemma row_good_cong:
  assumes "row_good w h" "handoffJournal w' (ho_id h) = handoffJournal w (ho_id h)"
    "attemptNumbers w' (ho_id h) = attemptNumbers w (ho_id h)"
  shows "row_good w' h"
  using assms by (simp add: row_good_def journal_good_def)

lemma map_upt_shift: "map (\<lambda>k. n + 1 + k) [0..<m] = [n + 1..<n + 1 + m]"
  by (induction m) auto

lemma row_moved_ok:
  assumes ok: "rows_ok w" and moved: "row_moved h h' es as w w'"
  shows "rows_ok w'"
proof -
  have mem: "h \<in> set (handoffs w)" and hs: "handoffs w' = put_row ho_id h' (handoffs w)"
    and ev: "handoffEvents w' = handoffEvents w @ es" and att: "attempts w' = attempts w @ as"
    and frozen: "same_frozen h h'" and mine: "\<forall>e \<in> set es. he_handoff e = ho_id h" "\<forall>a \<in> set as. at_handoff a = ho_id h"
    using moved by (auto simp: row_moved_def)
  have ids: "distinct (map ho_id (handoffs w))" and good: "\<forall>x \<in> set (handoffs w). row_good w x"
    and sub: "he_handoff ` set (handoffEvents w) \<subseteq> ho_id ` set (handoffs w)"
      "at_handoff ` set (attempts w) \<subseteq> ho_id ` set (handoffs w)"
    using ok by (auto simp: rows_ok_def)
  have id: "ho_id h' = ho_id h"
    using frozen by (simp add: same_frozen_def)
  have keys: "ho_id ` set (handoffs w') = ho_id ` set (handoffs w)"
    unfolding hs by (metis map_key_put_row set_map)
  have journal: "handoffJournal w' i = handoffJournal w i @ (if i = ho_id h then es else [])" for i
    using mine(1) by (auto simp: handoffJournal_def ev filter_empty_conv intro: filter_True)
  have numbers: "attemptNumbers w' i = attemptNumbers w i @ (if i = ho_id h then map at_no as else [])" for i
    using mine(2) by (auto simp: attemptNumbers_def att filter_empty_conv)
  have "row_good w' h'"
  proof -
    have old: "row_good w h"
      using good mem by blast
    have es: "map he_seq es = [length (handoffJournal w (ho_id h)) + 1..<length (handoffJournal w (ho_id h)) + 1 + length es]"
      using moved by (simp only: row_moved_def map_upt_shift)
    have "map he_seq (handoffJournal w' (ho_id h)) = [1..<length (handoffJournal w' (ho_id h)) + 1]"
    proof -
      have "map he_seq (handoffJournal w' (ho_id h)) = [1..<length (handoffJournal w (ho_id h)) + 1] @
          [length (handoffJournal w (ho_id h)) + 1..<length (handoffJournal w (ho_id h)) + 1 + length es]"
        using old es unfolding row_good_def journal_good_def journal map_append by simp
      also have "\<dots> = [1..<length (handoffJournal w (ho_id h)) + 1 + length es]"
        by (rule upt_add_eq_append [symmetric]) simp
      finally show ?thesis
        by (simp add: journal add.assoc add.commute [of 1])
    qed
    moreover have "handoff_replay (handoffJournal w' (ho_id h)) = Some (handoff_abs h')"
      using old moved replay_append [of "handoffJournal w (ho_id h)" "handoff_abs h" es]
      by (simp add: row_good_def journal_good_def journal row_moved_def)
    moreover have "attemptNumbers w' (ho_id h) = [1..<ho_attempt h' + 1]"
    proof -
      have join: "[1..<ho_attempt h + 1 + (ho_attempt h' - ho_attempt h)] =
          [1..<ho_attempt h + 1] @ [ho_attempt h + 1..<ho_attempt h + 1 + (ho_attempt h' - ho_attempt h)]"
        by (rule upt_add_eq_append) simp
      have "attemptNumbers w' (ho_id h) = [1..<ho_attempt h + 1] @ [ho_attempt h + 1..<ho_attempt h' + 1]"
        using old moved unfolding row_good_def row_moved_def numbers by simp
      also have "\<dots> = [1..<ho_attempt h + 1 + (ho_attempt h' - ho_attempt h)]"
        unfolding join using moved by (simp add: row_moved_def)
      finally show ?thesis
        using moved by (simp add: row_moved_def)
    qed
    ultimately show ?thesis
      using old moved by (simp add: row_good_def journal_good_def row_moved_def id)
  qed
  moreover have "row_good w' x" if "x \<in> set (handoffs w)" "ho_id x \<noteq> ho_id h" for x
    using good that journal numbers by (auto intro!: row_good_cong [of w x w'])
  ultimately have "\<forall>x \<in> set (handoffs w'). row_good w' x"
    using set_put_row [OF ids mem id] ids mem unfolding hs by (auto dest: distinct_key_eq)
  moreover have "he_handoff ` set (handoffEvents w') \<subseteq> ho_id ` set (handoffs w')"
    "at_handoff ` set (attempts w') \<subseteq> ho_id ` set (handoffs w')"
    unfolding keys ev att using sub mine mem by auto
  ultimately show ?thesis
    using ids by (simp add: rows_ok_def hs)
qed

end
