(* ===== verification/Handoff_Steps.thy ===== *)
theory Handoff_Steps
  imports Handoff_Inv
begin

text \<open>
  Every operation on a handoff is one move of its row by the machine's events, and leaves all other tables as they are.
\<close>

subsection \<open>An operation on one row\<close>

definition elsewhere_same :: "work \<Rightarrow> work \<Rightarrow> bool" where
  "elsewhere_same w w' \<longleftrightarrow>
     kernel_db w' = kernel_db w \<and> purposes w' = purposes w \<and> purposeEvents w' = purposeEvents w \<and>
     tasks w' = tasks w \<and> taskEvents w' = taskEvents w"

lemma elsewhere_refl [simp]: "elsewhere_same w w"
  by (simp add: elsewhere_same_def)

definition op_moved :: "handoff_row \<Rightarrow> handoff_row \<Rightarrow> handoff_event list \<Rightarrow> work \<Rightarrow> work \<Rightarrow> bool" where
  "op_moved row h' es w w' \<longleftrightarrow>
     (\<exists>as. row_moved row h' es as w w') \<and> elsewhere_same w w' \<and> replies w' = replies w \<and>
     ho_supersededBy h' = ho_supersededBy row \<and> handoff_view_ok h'"

definition event_of :: "handoff_row \<Rightarrow> jstr \<Rightarrow> handoff_change \<Rightarrow> handoff_status \<Rightarrow> jstr option \<Rightarrow> int \<Rightarrow> nat \<Rightarrow> handoff_event" where
  "event_of row f event to note now k =
     \<lparr>he_id = f, he_handoff = ho_id row, he_session = ho_session row, he_seq = k, he_event = event,
      he_from = Some (ho_status row), he_to = to, he_note = note, he_createdAt = now\<rparr>"

lemma event_of_sel [simp]:
  "he_handoff (event_of row f event to note now k) = ho_id row" "he_event (event_of row f event to note now k) = event"
  "he_from (event_of row f event to note now k) = Some (ho_status row)" "he_to (event_of row f event to note now k) = to"
  "he_seq (event_of row f event to note now k) = k"
  by (simp_all add: event_of_def)

lemma journal_next:
  assumes "rows_ok w" "row \<in> set (handoffs w)"
  shows "next_of (map he_seq (handoffJournal w (ho_id row))) = length (handoffJournal w (ho_id row)) + 1"
proof -
  have "map he_seq (handoffJournal w (ho_id row)) = [1..<length (handoffJournal w (ho_id row)) + 1]"
    using assms by (auto simp: rows_ok_def row_good_def journal_good_def)
  then show ?thesis
    using next_of_upt by metis
qed

text \<open>The fields that a lifecycle operation may set keep what was frozen; \<open>g\<close> is such an update.\<close>

definition moves_by :: "handoff_row \<Rightarrow> (handoff_row \<Rightarrow> handoff_row) \<Rightarrow> bool" where
  "moves_by row f \<longleftrightarrow>
     same_frozen row (f row) \<and> ho_version (f row) = ho_version row + 1 \<and>
     ho_supersededBy (f row) = ho_supersededBy row \<and> (reported_ok row \<longrightarrow> reported_ok (f row)) \<and>
     (ho_status row = Ho_verified \<longrightarrow> ho_results (f row) = ho_results row \<and> ho_environment (f row) = ho_environment row \<and>
        ho_summary (f row) = ho_summary row)"

lemma moves_by_id: "moves_by row f \<Longrightarrow> ho_id (f row) = ho_id row"
  by (simp add: moves_by_def same_frozen_def)

lemma op_movedI:
  assumes ok: "rows_ok w" and row: "row \<in> set (handoffs w)" and mv: "moves_by row f"
    and shape: "u = w\<lparr>handoffs := put_row ho_id (f row) (handoffs w), attempts := attempts w @ as,
      handoffEvents := handoffEvents w @ es\<rparr>"
    and es: "es \<noteq> []" "\<forall>e \<in> set es. he_handoff e = ho_id row" "\<forall>a \<in> set as. at_handoff a = ho_id row"
      "map he_seq es = map (\<lambda>k. length (handoffJournal w (ho_id row)) + 1 + k) [0..<length es]"
      "foldl spec_follow (Some (handoff_abs row)) es = Some (handoff_abs (f row))"
    and att: "map at_no as = [ho_attempt row + 1..<ho_attempt (f row) + 1]" "ho_attempt row \<le> ho_attempt (f row)"
    and re: "reread_view row u = Inr (body, w')"
  shows "w' = u \<and> body = f row \<and> op_moved row body es w w'"
proof -
  have ids: "distinct (map ho_id (handoffs w))"
    using ok by (simp add: rows_ok_def)
  have view: "w' = u" "body \<in> set (handoffs u)" "ho_id body = ho_id row" "handoff_view_ok body"
    using reread_view_Inr [OF re] by auto
  have "body \<in> insert (f row) (set (handoffs w) - {row})"
    using view(2) set_put_row [OF ids row moves_by_id [OF mv]] by (simp add: shape)
  then have "body = f row"
    using view(3) row ids by (auto dest: distinct_key_eq)
  moreover from this have "fields_ok (f row)"
    using view(4) view_fields by simp
  ultimately show ?thesis
    using view mv row es att
    by (auto simp: op_moved_def row_moved_def elsewhere_same_def shape moves_by_def intro!: exI [of _ as])
qed

lemma one_event:
  assumes ok: "rows_ok w" and row: "row \<in> set (handoffs w)" and mv: "moves_by row f" and att: "ho_attempt (f row) = ho_attempt row"
    and spec: "spec_event event (handoff_abs row) = Some (handoff_abs (f row))" "to = ho_status (f row)"
    and move: "move_row row f w = Inr w1"
    and app: "appendHandoffEventInTx i (ho_id row) (ho_session row) event (Some (ho_status row)) to note now w1 = Inr w2"
    and re: "reread_view row w2 = Inr (body, w')"
  shows "body = f row \<and> (\<exists>e. he_event e = event \<and> op_moved row body [e] w w')"
proof -
  have ids: "distinct (map ho_id (handoffs w))"
    using ok by (simp add: rows_ok_def)
  have w1: "w1 = w\<lparr>handoffs := put_row ho_id (f row) (handoffs w)\<rparr>"
    using move_row_Inr [OF ids row moves_by_id [OF mv] move] by simp
  have w2: "w2 = w1\<lparr>handoffEvents := handoffEvents w1 @
      [event_of row i event to note now (length (handoffJournal w (ho_id row)) + 1)]\<rparr>"
    using append_event_Inr [OF app] journal_next [OF ok row] by (simp add: w1 event_of_def)
  have "w' = w2 \<and> body = f row \<and>
      op_moved row body [event_of row i event to note now (length (handoffJournal w (ho_id row)) + 1)] w w'"
    by (rule op_movedI [OF ok row mv, where as = "[]" and u = w2]) (use spec att re in \<open>simp_all add: w1 w2 spec_follow_def\<close>)
  then show ?thesis
    by (auto intro: exI [of _ "event_of row i event to note now (length (handoffJournal w (ho_id row)) + 1)"])
qed

subsection \<open>The lifecycle\<close>

lemma set_status_Inr:
  "setHandoffStatusInTx row to event note now ext env summary i w = Inr w2 \<longleftrightarrow>
     (\<exists>w1. move_row row (\<lambda>h. h\<lparr>ho_status := to, ho_version := ho_version h + 1, ho_updatedAt := now,
         ho_externalRef := coalesce ext (ho_externalRef h), ho_environment := coalesce env (ho_environment h),
         ho_summary := coalesce summary (ho_summary h)\<rparr>) w = Inr w1 \<and>
       appendHandoffEventInTx i (ho_id row) (ho_session row) event (Some (ho_status row)) to note now w1 = Inr w2)"
  by (simp add: setHandoffStatusInTx_def rbind_eq_Inr)

lemma dispatch_moved:
  assumes "rows_ok w" "row \<in> set (handoffs w)" "dispatch_tx ext now i row w = Inr (body, w')"
  shows "\<exists>e. he_event e = He_dispatched \<and> op_moved row body [e] w w' \<and> ho_status body = Ho_dispatched \<and>
    \<not> ho_notice row \<and> ho_supersededBy row = None \<and> ho_status row = Ho_prepared \<and>
    (\<exists>t. readTask w (ho_task row) = Some t \<and> tk_session t = ho_session row \<and> tk_status t \<noteq> Ts_completed \<and>
       tk_status t \<noteq> Ts_cancelled \<and> tk_version t = ho_taskVersion row \<and> tk_parent t = ho_parent row)"
proof -
  obtain t w1 w2 where guard: "ho_supersededBy row = None" "\<not> ho_notice row" "ho_status row = Ho_prepared"
      "readTask w (ho_task row) = Some t" "tk_session t = ho_session row" "tk_status t \<noteq> Ts_completed"
      "tk_status t \<noteq> Ts_cancelled" "tk_version t = ho_taskVersion row" "tk_parent t = ho_parent row"
    and steps: "move_row row (\<lambda>h. h\<lparr>ho_status := Ho_dispatched, ho_version := ho_version h + 1, ho_updatedAt := now,
         ho_externalRef := coalesce ext (ho_externalRef h), ho_environment := coalesce None (ho_environment h),
         ho_summary := coalesce None (ho_summary h)\<rparr>) w = Inr w1"
      "appendHandoffEventInTx i (ho_id row) (ho_session row) He_dispatched (Some (ho_status row)) Ho_dispatched ext now w1
         = Inr w2" "reread_view row w2 = Inr (body, w')"
    using assms(3) by (auto simp: dispatch_tx_def rbind_eq_Inr set_status_Inr split: if_splits option.splits)
  have mv: "moves_by row (\<lambda>h. h\<lparr>ho_status := Ho_dispatched, ho_version := ho_version h + 1, ho_updatedAt := now,
         ho_externalRef := coalesce ext (ho_externalRef h), ho_environment := coalesce None (ho_environment h),
         ho_summary := coalesce None (ho_summary h)\<rparr>)"
    using guard by (auto simp: moves_by_def same_frozen_def reported_ok_def coalesce_def)
  from one_event [OF assms(1,2) mv _ _ _ steps] guard show ?thesis
    by (auto simp: handoff_abs_def)
qed

lemma report_moved:
  assumes "rows_ok w" "row \<in> set (handoffs w)" "report_tx env summary now i row w = Inr (body, w')"
  shows "\<exists>e. he_event e = He_reported \<and> op_moved row body [e] w w'"
proof -
  let ?f = "\<lambda>h. h\<lparr>ho_status := Ho_reported, ho_version := ho_version h + 1, ho_updatedAt := now,
             ho_environment := Some env, ho_summary := Some summary\<rparr>"
  obtain w1 w2 where guard: "ho_supersededBy row = None" "ho_status row = Ho_dispatched"
    and steps: "move_row row ?f w = Inr w1"
      "appendHandoffEventInTx i (ho_id row) (ho_session row) He_reported (Some (ho_status row)) Ho_reported
         (Some (report_note env)) now w1 = Inr w2" "reread_view row w2 = Inr (body, w')"
    using assms(3) by (auto simp: report_tx_def rbind_eq_Inr split: if_splits)
  have mv: "moves_by row ?f"
    using guard by (auto simp: moves_by_def same_frozen_def reported_ok_def)
  from one_event [OF assms(1,2) mv _ _ _ steps] guard show ?thesis
    by (auto simp: handoff_abs_def)
qed

lemma check_results_indexes:
  "check_results n seen rs = Inr () \<Longrightarrow> distinct (map vr_index rs) \<and> set (map vr_index rs) \<inter> set seen = {} \<and>
     set (map vr_index rs) \<subseteq> {0..<int n} \<and> (\<forall>r \<in> set rs. vr_pass r \<and> vr_evidence r \<noteq> [])"
proof (induction n seen rs rule: check_results.induct)
  case (1 n seen)
  then show ?case by simp
next
  case (2 n seen r rs)
  then show ?case
    by (auto split: if_splits)
qed

lemma check_results_proves:
  assumes "check_results n [] rs = Inr ()" "length rs = n"
  shows "proves_all n rs"
proof -
  have facts: "distinct (map vr_index rs)" "set (map vr_index rs) \<subseteq> {0..<int n}" "\<forall>r \<in> set rs. vr_pass r \<and> vr_evidence r \<noteq> []"
    using check_results_indexes [OF assms(1)] by auto
  have "card (set (map vr_index rs)) = n"
    using distinct_card [OF facts(1)] assms(2) by simp
  then have "set (map vr_index rs) = {0..<int n}"
    using facts(2) by (intro card_subset_eq) auto
  also have "\<dots> = set (map int [0..<n])"
    by (simp add: image_int_atLeastLessThan)
  finally have "mset (map vr_index rs) = mset (map int [0..<n])"
    using facts(1) by (subst set_eq_iff_mset_eq_distinct [symmetric]) (auto simp: distinct_map)
  with facts(3) show ?thesis
    by (simp add: proves_all_def)
qed

lemma verify_moved:
  assumes "rows_ok w" "row \<in> set (handoffs w)" "verify_tx results now i row w = Inr (body, w')"
  shows "\<exists>e. he_event e = He_verified \<and> op_moved row body [e] w w'"
proof -
  let ?f = "\<lambda>h. h\<lparr>ho_status := Ho_verified, ho_version := ho_version h + 1, ho_updatedAt := now, ho_results := Some results\<rparr>"
  obtain w1 w2 where guard: "ho_supersededBy row = None" "ho_status row = Ho_reported"
      "length results = length (ho_criteria row)" "check_results (length (ho_criteria row)) [] results = Inr ()"
    and steps: "move_row row ?f w = Inr w1"
      "appendHandoffEventInTx i (ho_id row) (ho_session row) He_verified (Some (ho_status row)) Ho_verified
         (Some (verify_note (length (ho_criteria row)))) now w1 = Inr w2" "reread_view row w2 = Inr (body, w')"
    using assms(3) by (auto simp: verify_tx_def rbind_eq_Inr split: if_splits)
  have "proves_all (length (ho_criteria row)) results"
    using check_results_proves guard by simp
  then have mv: "moves_by row ?f"
    using guard by (auto simp: moves_by_def same_frozen_def reported_ok_def)
  from one_event [OF assms(1,2) mv _ _ _ steps] guard show ?thesis
    by (auto simp: handoff_abs_def)
qed

lemma plain_status_moved:
  assumes "rows_ok w" "row \<in> set (handoffs w)" "ho_status row \<noteq> Ho_verified" "to \<notin> {Ho_reported, Ho_verified} \<or> to = ho_status row"
    and "spec_event event (handoff_abs row) = Some ((handoff_abs row)\<lparr>hs_status := to\<rparr>)"
    and "setHandoffStatusInTx row to event note now None None None i w = Inr w2" "reread_view row w2 = Inr (body, w')"
  shows "\<exists>e. he_event e = event \<and> op_moved row body [e] w w'"
proof -
  let ?f = "\<lambda>h. h\<lparr>ho_status := to, ho_version := ho_version h + 1, ho_updatedAt := now,
         ho_externalRef := coalesce None (ho_externalRef h), ho_environment := coalesce None (ho_environment h),
         ho_summary := coalesce None (ho_summary h)\<rparr>"
  obtain w1 where steps: "move_row row ?f w = Inr w1"
      "appendHandoffEventInTx i (ho_id row) (ho_session row) event (Some (ho_status row)) to note now w1 = Inr w2"
    using assms(6) by (auto simp: set_status_Inr)
  have mv: "moves_by row ?f"
    using assms(3,4) by (auto simp: moves_by_def same_frozen_def reported_ok_def coalesce_def)
  from one_event [OF assms(1,2) mv _ _ _ steps assms(7)] assms(5) show ?thesis
    by (auto simp: handoff_abs_def)
qed

lemma fail_moved:
  assumes "rows_ok w" "row \<in> set (handoffs w)" "fail_handoff_tx now i row w = Inr (body, w')"
  shows "\<exists>e. he_event e = He_failed \<and> op_moved row body [e] w w'"
  using assms(3) plain_status_moved [OF assms(1,2), of Ho_failed He_failed None now i]
  by (auto simp: fail_handoff_tx_def rbind_eq_Inr open_status_def handoff_abs_def split: if_splits)

lemma cancel_moved:
  assumes "rows_ok w" "row \<in> set (handoffs w)" "cancel_handoff_tx now i row w = Inr (body, w')"
  shows "\<exists>e. he_event e = He_cancelled \<and> op_moved row body [e] w w'"
  using assms(3) plain_status_moved [OF assms(1,2), of Ho_cancelled He_cancelled None now i]
  by (auto simp: cancel_handoff_tx_def rbind_eq_Inr open_status_def handoff_abs_def split: if_splits)

lemma abnormal_moved:
  assumes "rows_ok w" "row \<in> set (handoffs w)" "abnormal_exit_tx now i row w = Inr (body, w')"
  shows "\<exists>e. he_event e = He_abnormal_exit \<and> op_moved row body [e] w w'"
  using assms(3) plain_status_moved [OF assms(1,2), of "ho_status row" He_abnormal_exit _ now i]
  by (auto simp: abnormal_exit_tx_def rbind_eq_Inr open_status_def handoff_abs_def split: if_splits)

subsection \<open>Attempts and the reaffirmation\<close>

lemma attempt_moved:
  assumes ok: "rows_ok w" and row: "row \<in> set (handoffs w)" and tx: "attempt_tx cause now fresh row w = Inr (body, w')"
  shows "\<exists>e. he_event e = He_attempt_recorded \<and> op_moved row body [e] w w'"
proof -
  let ?to = "if ho_status row = Ho_failed then Ho_prepared else ho_status row"
  let ?n = "ho_attempt row + 1"
  let ?f = "\<lambda>h. h\<lparr>ho_attempt := ?n, ho_status := ?to, ho_version := ho_version h + 1, ho_updatedAt := now\<rparr>"
  let ?a = "\<lparr>at_id = fresh 0, at_handoff = ho_id row, at_session = ho_session row, at_no = ?n, at_cause = cause,
    at_createdAt = now\<rparr>"
  obtain w1 w2 w3 where guard: "ho_status row \<noteq> Ho_verified" "ho_status row \<noteq> Ho_cancelled" "ho_supersededBy row = None"
      "\<not> ho_notice row"
    and steps: "insert_attempt ?a w = Inr w1" "move_row row ?f w1 = Inr w2"
      "appendHandoffEventInTx (fresh 1) (ho_id row) (ho_session row) He_attempt_recorded (Some (ho_status row)) ?to
         (Some (attempt_note ?n cause (ho_status row))) now w2 = Inr w3" "reread_view row w3 = Inr (body, w')"
    using tx by (auto simp: attempt_tx_def rbind_eq_Inr Let_def split: if_splits)
  have mv: "moves_by row ?f"
    using guard by (auto simp: moves_by_def same_frozen_def reported_ok_def)
  have w1: "w1 = w\<lparr>attempts := attempts w @ [?a]\<rparr>"
    using insert_attempt_Inr [OF steps(1)] .
  have ids: "distinct (map ho_id (handoffs w1))" "row \<in> set (handoffs w1)"
    using ok row by (simp_all add: rows_ok_def w1)
  have w2: "w2 = w1\<lparr>handoffs := put_row ho_id (?f row) (handoffs w)\<rparr>"
    using move_row_Inr [OF ids moves_by_id [OF mv] steps(2)] by (simp add: w1)
  let ?e = "event_of row (fresh 1) He_attempt_recorded ?to (Some (attempt_note ?n cause (ho_status row))) now
    (length (handoffJournal w (ho_id row)) + 1)"
  have w3: "w3 = w2\<lparr>handoffEvents := handoffEvents w @ [?e]\<rparr>"
    using append_event_Inr [OF steps(3)] journal_next [OF ok row] by (simp add: w2 w1 event_of_def)
  have "live_status (ho_status row)"
    using guard by (cases "ho_status row") (simp_all add: live_status_def open_status_def)
  then have "w' = w3 \<and> body = ?f row \<and> op_moved row body [?e] w w'"
    by (intro op_movedI [OF ok row mv, where as = "[?a]" and u = w3])
      (use guard steps(4) in \<open>auto simp: w3 w2 w1 spec_follow_def handoff_abs_def\<close>)
  then show ?thesis
    by (auto intro: exI [of _ ?e])
qed

lemma reaffirm_moved:
  assumes ok: "rows_ok w" and row: "row \<in> set (handoffs w)" and tx: "reaffirm_tx session now fresh row w = Inr (body, w')"
  shows "\<exists>e e'. he_event e = He_reaffirmed \<and> he_event e' = He_cleared \<and> op_moved row body [e, e'] w w'"
proof -
  let ?f = "\<lambda>h. h\<lparr>ho_notice := False, ho_version := ho_version h + 1, ho_updatedAt := now,
    ho_taskVersion := (case bound_task row w of Some t \<Rightarrow> tk_version t | None \<Rightarrow> ho_taskVersion row),
    ho_parent := (case bound_task row w of Some t \<Rightarrow> tk_parent t | None \<Rightarrow> None),
    ho_parentVersion := parentVersionForReaffirm session
      (case bound_task row w of Some t \<Rightarrow> tk_parent t | None \<Rightarrow> None) w\<rparr>"
  let ?n1 = "Some (js ''human reaffirmed after parent change'')"
  let ?n2 = "Some (js ''reevaluation notice cleared by explicit human reaffirm'')"
  obtain w1 w2 c w3 where steps: "move_row row ?f w = Inr w1"
      "appendHandoffEventInTx (fresh 0) (ho_id row) (ho_session row) He_reaffirmed (Some (ho_status row)) (ho_status row)
         ?n1 now w1 = Inr w2" "readHandoff w2 (ho_id row) = Some c"
      "appendHandoffEventInTx (fresh 1) (ho_id c) (ho_session c) He_cleared (Some (ho_status c)) (ho_status c) ?n2 now w2 = Inr w3"
      "reread_view row w3 = Inr (body, w')"
    using tx by (auto simp: reaffirm_tx_def rbind_eq_Inr Let_def split: if_splits option.splits)
  have mv: "moves_by row ?f"
    by (auto simp: moves_by_def same_frozen_def reported_ok_def)
  have ids: "distinct (map ho_id (handoffs w))"
    using ok by (simp add: rows_ok_def)
  let ?k = "length (handoffJournal w (ho_id row)) + 1"
  let ?e = "event_of row (fresh 0) He_reaffirmed (ho_status row) ?n1 now ?k"
  let ?e' = "event_of row (fresh 1) He_cleared (ho_status row) ?n2 now (?k + 1)"
  have w1: "w1 = w\<lparr>handoffs := put_row ho_id (?f row) (handoffs w)\<rparr>"
    using move_row_Inr [OF ids row moves_by_id [OF mv] steps(1)] by simp
  have w2: "w2 = w1\<lparr>handoffEvents := handoffEvents w @ [?e]\<rparr>"
    using append_event_Inr [OF steps(2)] journal_next [OF ok row] by (simp add: w1 event_of_def)
  have "c = ?f row"
    using steps(3) row unfolding readHandoff_def w2 w1 by (auto simp: find_put_row split: if_splits)
  then have c: "ho_id c = ho_id row" "ho_session c = ho_session row" "ho_status c = ho_status row"
    by simp_all
  have "map he_seq (handoffJournal w (ho_id row)) = [1..<?k]"
    using ok row by (auto simp: rows_ok_def row_good_def journal_good_def)
  then have "map he_seq (handoffJournal w2 (ho_id row)) = [1..<?k + 1]"
    by (simp add: w2 w1 flip: handoffJournal_def)
  then have seq: "next_of (map he_seq (handoffJournal w2 (ho_id row))) = ?k + 1"
    using next_of_upt by metis
  have w3: "w3 = w2\<lparr>handoffEvents := handoffEvents w @ [?e, ?e']\<rparr>"
    using append_event_Inr [OF steps(4)] unfolding c seq by (simp add: w2 event_of_def)
  have "w' = w3 \<and> body = ?f row \<and> op_moved row body [?e, ?e'] w w'"
    by (intro op_movedI [OF ok row mv, where as = "[]" and u = w3])
      (use steps(5) in \<open>auto simp: w3 w2 w1 spec_follow_def handoff_abs_def\<close>)
  then have "op_moved row body [?e, ?e'] w w'"
    by (elim conjE)
  then show ?thesis
    by - (rule exI [of _ ?e], rule exI [of _ ?e'], simp)
qed

subsection \<open>What is never rewritten\<close>

definition handoff_later :: "handoff_row \<Rightarrow> handoff_row \<Rightarrow> bool" where
  "handoff_later h h' \<longleftrightarrow>
     same_frozen h h' \<and> ho_version h \<le> ho_version h' \<and> (ho_version h' = ho_version h \<longrightarrow> h' = h) \<and>
     ho_attempt h \<le> ho_attempt h' \<and> (ho_status h \<in> {Ho_verified, Ho_cancelled} \<longrightarrow> ho_status h' = ho_status h) \<and>
     (ho_status h = Ho_verified \<longrightarrow> ho_results h' = ho_results h \<and> ho_environment h' = ho_environment h \<and>
        ho_summary h' = ho_summary h) \<and>
     (ho_supersededBy h \<noteq> None \<longrightarrow> ho_supersededBy h' = ho_supersededBy h)"

lemma handoff_later_refl [simp]: "handoff_later h h"
  by (simp add: handoff_later_def)

lemma handoff_later_trans: "handoff_later a b \<Longrightarrow> handoff_later b c \<Longrightarrow> handoff_later a c"
  unfolding handoff_later_def by (auto intro: same_frozen_trans)

lemma spec_terminal:
  "spec_event e s = Some t \<Longrightarrow> hs_status s \<in> {Ho_verified, Ho_cancelled} \<Longrightarrow> hs_status t = hs_status s"
  by (cases e) (auto simp: open_status_def live_status_def split: if_splits)

lemma follow_terminal_status:
  "foldl spec_follow (Some s) es = Some t \<Longrightarrow> hs_status s \<in> {Ho_verified, Ho_cancelled} \<Longrightarrow> hs_status t = hs_status s"
proof (induction es arbitrary: s)
  case Nil
  then show ?case by simp
next
  case (Cons e es)
  then obtain u where "spec_follow (Some s) e = Some u"
    by (cases "spec_follow (Some s) e") auto
  then have "spec_event (he_event e) s = Some u"
    by (auto simp: spec_follow_def split: option.splits if_splits)
  then have "hs_status u = hs_status s"
    using Cons.prems(2) by (rule spec_terminal)
  then show ?case
    using Cons.IH [of u] Cons.prems \<open>spec_follow (Some s) e = Some u\<close> by simp
qed

lemma row_moved_later: "row_moved h h' es as w w' \<Longrightarrow> handoff_later h h'"
  using follow_terminal_status [of "handoff_abs h" es "handoff_abs h'"] by (auto simp: row_moved_def handoff_later_def)

definition handoffs_later :: "work \<Rightarrow> work \<Rightarrow> bool" where
  "handoffs_later w w' \<longleftrightarrow>
     rows_later handoff_later (handoffs w) (handoffs w') \<and> prefix (handoffEvents w) (handoffEvents w') \<and>
     prefix (attempts w) (attempts w')"

lemma handoffs_later_refl [simp]: "handoffs_later w w"
  by (simp add: handoffs_later_def rows_later_refl)

lemma handoffs_later_trans: "handoffs_later a b \<Longrightarrow> handoffs_later b c \<Longrightarrow> handoffs_later a c"
  unfolding handoffs_later_def
  by (auto intro: rows_later_trans [of handoff_later, OF handoff_later_trans] prefix_order.trans)

lemma handoffs_later_same:
  "handoffs w' = handoffs w \<Longrightarrow> handoffEvents w' = handoffEvents w \<Longrightarrow> attempts w' = attempts w \<Longrightarrow> handoffs_later w w'"
  by (simp add: handoffs_later_def rows_later_refl)

lemma moved_later:
  assumes "rows_ok w" "row_moved h h' es as w w'"
  shows "handoffs_later w w'"
proof -
  have "rows_later handoff_later (handoffs w) (put_row ho_id h' (handoffs w))"
    using assms row_moved_later [OF assms(2)]
    by (intro rows_later_put) (auto simp: rows_ok_def row_moved_def same_frozen_def)
  then show ?thesis
    using assms(2) by (simp add: handoffs_later_def row_moved_def)
qed

lemma handoffs_later_row: "handoffs_later w w' \<Longrightarrow> h \<in> set (handoffs w) \<Longrightarrow> \<exists>h' \<in> set (handoffs w'). handoff_later h h'"
  unfolding handoffs_later_def by (blast dest: rows_later_row)

subsection \<open>The links between handoffs\<close>

text \<open>
  A successor and what it superseded name each other, and belong to the same task and session.
\<close>

definition links_ok :: "handoff_row list \<Rightarrow> bool" where
  "links_ok hs \<longleftrightarrow>
     (\<forall>h \<in> set hs. \<forall>x. ho_supersedes h = Some x \<longrightarrow>
        (\<exists>g \<in> set hs. ho_id g = x \<and> ho_supersededBy g = Some (ho_id h) \<and> ho_task g = ho_task h \<and> ho_session g = ho_session h)) \<and>
     (\<forall>g \<in> set hs. \<forall>y. ho_supersededBy g = Some y \<longrightarrow> (\<exists>h \<in> set hs. ho_id h = y \<and> ho_supersedes h = Some (ho_id g)))"

definition link_of :: "handoff_row \<Rightarrow> jstr \<times> jstr \<times> jstr \<times> jstr option \<times> jstr option" where
  "link_of h = (ho_id h, ho_task h, ho_session h, ho_supersedes h, ho_supersededBy h)"

lemma links_cong:
  assumes "set (map link_of hs') = set (map link_of hs)" "links_ok hs"
  shows "links_ok hs'"
proof -
  have behind: "\<exists>g \<in> set hs. link_of g = link_of h" if "h \<in> set hs'" for h
    using assms(1) that by (metis (no_types, lifting) imageE imageI set_map)
  have ahead: "\<exists>g \<in> set hs'. link_of g = link_of h" if "h \<in> set hs" for h
    using assms(1) that by (metis (no_types, lifting) imageE imageI set_map)
  show ?thesis
    unfolding links_ok_def
  proof (intro conjI ballI allI impI)
    fix h x
    assume h: "h \<in> set hs'" "ho_supersedes h = Some x"
    obtain h1 where h1: "h1 \<in> set hs" "link_of h1 = link_of h"
      using behind [OF h(1)] by blast
    then obtain g1 where g1: "g1 \<in> set hs" "ho_id g1 = x" "ho_supersededBy g1 = Some (ho_id h1)" "ho_task g1 = ho_task h1"
        "ho_session g1 = ho_session h1"
      using assms(2) h(2) unfolding links_ok_def link_of_def by (metis prod.inject)
    obtain g where "g \<in> set hs'" "link_of g = link_of g1"
      using ahead [OF g1(1)] by blast
    then show "\<exists>g \<in> set hs'. ho_id g = x \<and> ho_supersededBy g = Some (ho_id h) \<and> ho_task g = ho_task h \<and> ho_session g = ho_session h"
      using g1 h1(2) by (intro bexI [of _ g]) (auto simp: link_of_def)
  next
    fix g y
    assume g: "g \<in> set hs'" "ho_supersededBy g = Some y"
    obtain g1 where g1: "g1 \<in> set hs" "link_of g1 = link_of g"
      using behind [OF g(1)] by blast
    then obtain h1 where h1: "h1 \<in> set hs" "ho_id h1 = y" "ho_supersedes h1 = Some (ho_id g1)"
      using assms(2) g(2) unfolding links_ok_def link_of_def by (metis prod.inject)
    obtain h where "h \<in> set hs'" "link_of h = link_of h1"
      using ahead [OF h1(1)] by blast
    then show "\<exists>h \<in> set hs'. ho_id h = y \<and> ho_supersedes h = Some (ho_id g)"
      using h1 g1(2) by (intro bexI [of _ h]) (auto simp: link_of_def)
  qed
qed

lemma links_put:
  assumes "distinct (map ho_id hs)" "h \<in> set hs" "link_of h' = link_of h" "links_ok hs"
  shows "links_ok (put_row ho_id h' hs)"
proof -
  have "map link_of (put_row ho_id h' hs) = map link_of hs"
    using assms(1-3) by (auto simp: put_row_def upd_where_def link_of_def dest: distinct_key_eq)
  then show ?thesis
    using links_cong assms(4) by metis
qed

definition handoffs_ok :: "work \<Rightarrow> bool" where
  "handoffs_ok w \<longleftrightarrow> rows_ok w \<and> links_ok (handoffs w)"

definition handoffs_step :: "work \<Rightarrow> work \<Rightarrow> bool" where
  "handoffs_step w w' \<longleftrightarrow>
     handoffs_ok w' \<and> handoffs_later w w' \<and> elsewhere_same w w' \<and> prefix (replies w) (replies w')"

lemma handoffs_step_refl: "handoffs_ok w \<Longrightarrow> handoffs_step w w"
  by (simp add: handoffs_step_def)

lemma handoffs_step_trans: "handoffs_step a b \<Longrightarrow> handoffs_step b c \<Longrightarrow> handoffs_step a c"
  unfolding handoffs_step_def by (auto intro: handoffs_later_trans prefix_order.trans simp: elsewhere_same_def)

lemma moved_step:
  assumes "handoffs_ok w" "row_moved h h' es as w w'" "elsewhere_same w w'" "ho_supersededBy h' = ho_supersededBy h"
    "replies w' = replies w"
  shows "handoffs_step w w'"
proof -
  have "link_of h' = link_of h" "h \<in> set (handoffs w)" "handoffs w' = put_row ho_id h' (handoffs w)"
    using assms(2,4) by (simp_all add: link_of_def row_moved_def same_frozen_def)
  then have "links_ok (handoffs w')"
    using assms(1) by (auto simp: handoffs_ok_def rows_ok_def intro: links_put)
  then show ?thesis
    using assms row_moved_ok moved_later by (auto simp: handoffs_step_def handoffs_ok_def)
qed

lemma rows_ok_replies: "rows_ok w \<Longrightarrow> rows_ok (w\<lparr>replies := rs\<rparr>)"
  by (simp add: rows_ok_def row_good_def journal_good_def attemptNumbers_def)

lemma handoffs_step_replies: "handoffs_step w w' \<Longrightarrow> handoffs_step w (w'\<lparr>replies := replies w' @ rs\<rparr>)"
  by (simp add: handoffs_step_def handoffs_ok_def rows_ok_replies handoffs_later_def elsewhere_same_def)

lemma op_moved_step: "handoffs_ok w \<Longrightarrow> op_moved row h' es w w' \<Longrightarrow> handoffs_step w w'"
  unfolding op_moved_def by (auto intro: moved_step)

lemma storeReply_Inr: "storeReply scope key hash status body now w = Inr w' \<Longrightarrow> \<exists>rs. w' = w\<lparr>replies := replies w @ rs\<rparr>"
  by (auto simp: storeReply_def split: if_splits)

subsection \<open>A mutation\<close>

text \<open>What a mutation can do: answer again, refuse, or move the row that the caller expects.\<close>

lemma mutateHandoff_cases:
  assumes "mutateHandoff H option operation session i expected key now hashInput apply w = (out, w')"
  shows "w' = w \<and> (\<forall>status body. out \<noteq> Inr (status, body, False)) \<or>
    (\<exists>row body w1 rs. row \<in> set (handoffs w) \<and> ho_id row = i \<and> ho_session row = session \<and> ho_version row = expected \<and>
       apply row w = Inr (body, w1) \<and> w' = w1\<lparr>replies := replies w1 @ rs\<rparr> \<and> out = Inr (200, body, False))"
proof (cases out)
  case (Inl e)
  then show ?thesis
    using assms by (auto simp: mutateHandoff_def request_defs split: if_splits option.splits sum.splits prod.splits)
next
  case (Inr r)
  obtain status body found where r: "r = (status, body, found)"
    by (cases r)
  show ?thesis
  proof (cases "w' = w \<and> found")
    case True
    then show ?thesis
      using Inr r by simp
  next
    case False
    then show ?thesis
      using assms Inr r
      by (auto simp: mutateHandoff_def request_defs rbind_eq_Inr replay_def casHandoff_def
          split: if_splits option.splits sum.splits prod.splits dest!: assertOwnedHandoff_Inr storeReply_Inr)
  qed
qed

end
