(* ===== verification/Handoff_Notice.thy ===== *)
theory Handoff_Notice
  imports Handoff_Steps
begin

text \<open>The notices that a change of the parent leaves, and the creation of a record.\<close>

subsection \<open>Flagging rows\<close>

definition flagged :: "int \<Rightarrow> handoff_row \<Rightarrow> handoff_row" where
  "flagged now h = h\<lparr>ho_notice := True, ho_version := ho_version h + 1, ho_updatedAt := now\<rparr>"

lemma flagged_sel [simp]:
  "ho_id (flagged now h) = ho_id h" "ho_session (flagged now h) = ho_session h" "ho_task (flagged now h) = ho_task h"
  "ho_parent (flagged now h) = ho_parent h" "ho_status (flagged now h) = ho_status h" "ho_notice (flagged now h)"
  "ho_supersededBy (flagged now h) = ho_supersededBy h" "ho_taskVersion (flagged now h) = ho_taskVersion h"
  "same_frozen h (flagged now h)" "ho_version (flagged now h) = ho_version h + 1"
  by (simp_all add: flagged_def same_frozen_def)

lemma flagged_fields: "fields_ok h \<Longrightarrow> unix_ms_ok now \<Longrightarrow> fields_ok (flagged now h)"
  by (simp add: fields_ok_def flagged_def handoff_view_ok_def)

lemma flag_one_moved:
  assumes ok: "rows_ok w" and row: "row \<in> set (handoffs w)" and live: "live_status (ho_status row)" "\<not> ho_notice row"
    and now: "unix_ms_ok now" and flag: "flag_one i session reason now row w = Inr w'"
  shows "\<exists>e. he_event e = He_flagged \<and> row_moved row (flagged now row) [e] [] w w' \<and> elsewhere_same w w' \<and> replies w' = replies w"
proof -
  have ids: "distinct (map ho_id (handoffs w))"
    using ok by (simp add: rows_ok_def)
  have upd: "update_handoffs (\<lambda>h. at_version row h \<and> \<not> ho_notice h)
        (\<lambda>h. h\<lparr>ho_notice := True, ho_version := ho_version h + 1, ho_updatedAt := now\<rparr>) w =
      (if handoff_check (flagged now row) then Inr (1, w\<lparr>handoffs := put_row ho_id (flagged now row) (handoffs w)\<rparr>)
       else Inl Sqlite_check)"
    using update_handoffs_row [OF ids row, of _ "\<lambda>h. ho_version h = ho_version row \<and> \<not> ho_notice h"
        "\<lambda>h. h\<lparr>ho_notice := True, ho_version := ho_version h + 1, ho_updatedAt := now\<rparr>"] live(2)
    by (simp add: at_version_def flagged_def)
  obtain w1 where w1: "w1 = w\<lparr>handoffs := put_row ho_id (flagged now row) (handoffs w)\<rparr>"
    and app: "appendHandoffEventInTx i (ho_id row) session He_flagged (Some (ho_status row)) (ho_status row) (Some reason)
      now w1 = Inr w'"
    using flag unfolding flag_one_def upd by (auto split: if_splits)
  let ?e = "\<lparr>he_id = i, he_handoff = ho_id row, he_session = session,
    he_seq = length (handoffJournal w (ho_id row)) + 1, he_event = He_flagged, he_from = Some (ho_status row),
    he_to = ho_status row, he_note = Some reason, he_createdAt = now\<rparr>"
  have w': "w' = w1\<lparr>handoffEvents := handoffEvents w @ [?e]\<rparr>"
    using append_event_Inr [OF app] journal_next [OF ok row] by (simp add: w1)
  have "foldl spec_follow (Some (handoff_abs row)) [?e] = Some (handoff_abs (flagged now row))"
    using live by (simp add: spec_follow_def handoff_abs_def flagged_def)
  moreover have "reported_ok row \<longrightarrow> reported_ok (flagged now row)"
    by (simp add: reported_ok_def flagged_def)
  ultimately have "row_moved row (flagged now row) [?e] [] w w'"
    using row now flagged_fields [of row now] unfolding row_moved_def w' w1 by (simp add: flagged_def same_frozen_def)
  then show ?thesis
    by (intro exI [of _ ?e]) (simp add: w' w1 elsewhere_same_def)
qed

lemma flag_rows_shape:
  assumes "handoffs_ok w" "set rows \<subseteq> set (handoffs w)" "distinct (map ho_id rows)"
    "\<forall>h \<in> set rows. live_status (ho_status h) \<and> \<not> ho_notice h" "unix_ms_ok now"
    "flag_rows fresh k session reason now rows w = Inr w'"
  shows "handoffs_step w w' \<and> replies w' = replies w \<and>
    handoffs w' = map (\<lambda>h. if h \<in> set rows then flagged now h else h) (handoffs w) \<and>
    (\<exists>es. handoffEvents w' = handoffEvents w @ es \<and> (\<forall>e \<in> set es. he_event e = He_flagged))"
  using assms
proof (induction rows arbitrary: k w)
  case Nil
  then show ?case by (simp add: handoffs_step_refl)
next
  case (Cons row rows)
  obtain w1 where one: "flag_one (fresh k) session reason now row w = Inr w1"
    and rest: "flag_rows fresh (k + 1) session reason now rows w1 = Inr w'"
    using Cons.prems(6) by (auto simp: rbind_eq_Inr)
  have ids: "distinct (map ho_id (handoffs w))" and ok: "rows_ok w"
    using Cons.prems(1) by (simp_all add: handoffs_ok_def rows_ok_def)
  have row: "row \<in> set (handoffs w)"
    using Cons.prems(2) by simp
  obtain e where e: "he_event e = He_flagged" "row_moved row (flagged now row) [e] [] w w1" "elsewhere_same w w1"
      "replies w1 = replies w"
    using flag_one_moved [OF ok row _ _ Cons.prems(5) one] Cons.prems(4) by auto
  have step: "handoffs_step w w1"
    using moved_step [OF Cons.prems(1) e(2,3) _ e(4)] by simp
  have hs: "handoffs w1 = map (\<lambda>h. if h = row then flagged now h else h) (handoffs w)"
    using e(2) ids row by (auto simp: row_moved_def put_row_def upd_where_def dest: distinct_key_eq)
  have apart: "row \<notin> set rows" "flagged now row \<notin> set rows"
    using Cons.prems(3) image_eqI [of "ho_id row" ho_id "flagged now row" "set rows"] by auto
  have "set rows \<subseteq> set (handoffs w1)"
    using Cons.prems(2) apart by (auto simp: hs)
  then have IH: "handoffs_step w1 w' \<and> replies w' = replies w1 \<and>
      handoffs w' = map (\<lambda>h. if h \<in> set rows then flagged now h else h) (handoffs w1) \<and>
      (\<exists>es. handoffEvents w' = handoffEvents w1 @ es \<and> (\<forall>e \<in> set es. he_event e = He_flagged))"
    using Cons.IH [OF _ _ _ _ Cons.prems(5) rest] step Cons.prems(3,4) by (simp add: handoffs_step_def)
  have "handoffs w' = map (\<lambda>h. if h \<in> set (row # rows) then flagged now h else h) (handoffs w)"
    using IH apart by (auto simp: hs)
  moreover have "\<exists>es. handoffEvents w' = handoffEvents w @ es \<and> (\<forall>e \<in> set es. he_event e = He_flagged)"
    using IH e(1,2) by (auto simp: row_moved_def)
  ultimately show ?case
    using IH e(4) handoffs_step_trans [OF step] by simp
qed

lemma distinct_ids_filter: "distinct (map ho_id hs) \<Longrightarrow> distinct (map ho_id (filter P hs))"
  by (simp add: distinct_map inj_on_def)

text \<open>After the notices of a parent, no live row of the session that is bound to it is without one.\<close>

lemma bound_task_same: "tasks w' = tasks w \<Longrightarrow> ho_task h' = ho_task h \<Longrightarrow> ho_session h' = ho_session h \<Longrightarrow>
    bound_task h' w' = bound_task h w"
  by (simp add: bound_task_def readTask_def cong: option.case_cong)

lemma reevaluation_flags:
  assumes ok: "handoffs_ok w" and now: "unix_ms_ok now" and run: "flagHandoffReevaluationInTx session parent reason now fresh w = Inr w'"
  shows "handoffs_step w w' \<and> replies w' = replies w \<and> (\<forall>h \<in> set (handoffs w'). \<not> bound_to_parent session parent w' h) \<and>
    (\<exists>es. handoffEvents w' = handoffEvents w @ es \<and> (\<forall>e \<in> set es. he_event e = He_flagged))"
proof -
  let ?rows = "filter (bound_to_parent session parent w) (handoffs w)"
  have rows: "distinct (map ho_id ?rows)" "set ?rows \<subseteq> set (handoffs w)"
      "\<forall>h \<in> set ?rows. live_status (ho_status h) \<and> \<not> ho_notice h"
    using ok by (auto simp: handoffs_ok_def rows_ok_def bound_to_parent_def intro!: distinct_ids_filter)
  have shape: "handoffs_step w w' \<and> replies w' = replies w \<and>
      handoffs w' = map (\<lambda>h. if h \<in> set ?rows then flagged now h else h) (handoffs w) \<and>
      (\<exists>es. handoffEvents w' = handoffEvents w @ es \<and> (\<forall>e \<in> set es. he_event e = He_flagged))"
    by (rule flag_rows_shape [OF ok rows(2,1,3) now run [unfolded flagHandoffReevaluationInTx_def]])
  have tasks: "tasks w' = tasks w"
    using shape by (simp add: handoffs_step_def elsewhere_same_def)
  have "\<not> bound_to_parent session parent w' h" if mem: "h \<in> set (handoffs w')" for h
  proof -
    obtain g where g: "g \<in> set (handoffs w)" "h = (if g \<in> set ?rows then flagged now g else g)"
      using mem shape by auto
    show ?thesis
    proof (cases "g \<in> set ?rows")
      case True
      then show ?thesis
        using g by (simp add: bound_to_parent_def)
    next
      case False
      then show ?thesis
        using g bound_task_same [OF tasks, of h h] by (auto simp: bound_to_parent_def)
    qed
  qed
  with shape show ?thesis by blast
qed

lemma reparent_flags:
  assumes ok: "handoffs_ok w" and now: "unix_ms_ok now" and run: "flagHandoffTaskReparentInTx session task reason now fresh w = Inr w'"
  shows "handoffs_step w w' \<and> replies w' = replies w"
proof -
  have ids: "distinct (map ho_id (filter P (filter Q (handoffs w))))" for P Q
    using ok by (intro distinct_ids_filter) (simp add: handoffs_ok_def rows_ok_def)
  show ?thesis
  proof (cases "(case readTask w task of None \<Rightarrow> None | Some t \<Rightarrow> if tk_session t = session then Some t else None) = None")
    case True
    then show ?thesis
      using run handoffs_step_refl [OF ok] by (auto simp: flagHandoffTaskReparentInTx_def split: option.splits if_splits)
  next
    case False
    then obtain t where t: "readTask w task = Some t" "tk_session t = session"
      by (auto split: option.splits if_splits)
    let ?rows = "filter (\<lambda>h. \<not> (ho_taskVersion h = tk_version t \<and> ho_parent h = tk_parent t))
      (filter (\<lambda>h. ho_session h = session \<and> ho_task h = task \<and> live_status (ho_status h) \<and> \<not> ho_notice h) (handoffs w))"
    have rows: "flag_rows fresh 0 session reason now ?rows w = Inr w'"
      using run unfolding flagHandoffTaskReparentInTx_def t option.case by (simp only: t if_False simp_thms)
    have facts: "set ?rows \<subseteq> set (handoffs w)" "\<forall>h \<in> set ?rows. live_status (ho_status h) \<and> \<not> ho_notice h"
      by auto
    show ?thesis
      using flag_rows_shape [OF ok facts(1) ids facts(2) now rows] by (elim conjE) (intro conjI)
  qed
qed

subsection \<open>Creation\<close>

text \<open>A row that is new, with its first events.\<close>

lemma new_row_ok:
  assumes ok: "rows_ok w" and new: "ho_id h \<notin> ho_id ` set (handoffs w)"
    and es: "\<forall>e \<in> set es. he_handoff e = ho_id h" "map he_seq es = [1..<length es + 1]" "handoff_replay es = Some (handoff_abs h)"
    and row: "ho_attempt h = 0" "reported_ok h" "fields_ok h"
    and hs: "handoffs w' = handoffs w @ [h]" "handoffEvents w' = handoffEvents w @ es" "attempts w' = attempts w"
  shows "rows_ok w'"
proof -
  have sub: "he_handoff ` set (handoffEvents w) \<subseteq> ho_id ` set (handoffs w)" "at_handoff ` set (attempts w) \<subseteq> ho_id ` set (handoffs w)"
    and good: "\<forall>x \<in> set (handoffs w). row_good w x" and ids: "distinct (map ho_id (handoffs w))"
    using ok by (auto simp: rows_ok_def)
  have "\<forall>e \<in> set (handoffEvents w). he_handoff e \<noteq> ho_id h" "\<forall>a \<in> set (attempts w). at_handoff a \<noteq> ho_id h"
    using sub new by (metis image_subset_iff)+
  then have none: "handoffJournal w (ho_id h) = []" "attemptNumbers w (ho_id h) = []"
    by (simp_all add: handoffJournal_def attemptNumbers_def filter_empty_conv)
  have journal: "handoffJournal w' i = handoffJournal w i @ (if i = ho_id h then es else [])" for i
    using es(1) by (auto simp: handoffJournal_def hs filter_empty_conv intro: filter_True)
  have numbers: "attemptNumbers w' i = attemptNumbers w i" for i
    by (simp add: attemptNumbers_def hs)
  have "row_good w' h"
    using es row by (simp add: row_good_def journal_good_def journal numbers none)
  moreover have "row_good w' x" if "x \<in> set (handoffs w)" for x
  proof (rule row_good_cong)
    show "row_good w x"
      using good that by blast
    show "handoffJournal w' (ho_id x) = handoffJournal w (ho_id x)"
      using new imageI [OF that, of ho_id] by (cases "ho_id x = ho_id h") (simp_all add: journal)
  qed (rule numbers)
  moreover have "he_handoff ` set (handoffEvents w') \<subseteq> ho_id ` set (handoffs w')" "at_handoff ` set (attempts w') \<subseteq> ho_id ` set (handoffs w')"
    using sub es(1) by (auto simp: hs)
  ultimately show ?thesis
    using ids new by (auto simp: rows_ok_def hs)
qed

lemma link_forward_Inr:
  assumes ok: "rows_ok w" and old: "old \<in> set (handoffs w)" and none: "ho_supersededBy old = None"
    and link: "link_forward f session i old now w = Inr w'"
  shows "\<exists>e. he_event e = He_superseded \<and> he_handoff e = ho_id old \<and>
    he_seq e = length (handoffJournal w (ho_id old)) + 1 \<and> he_from e = Some (ho_status old) \<and> he_to e = ho_status old \<and>
    w' = w\<lparr>handoffs := put_row ho_id (old\<lparr>ho_supersededBy := Some i, ho_version := ho_version old + 1, ho_updatedAt := now\<rparr>)
      (handoffs w), handoffEvents := handoffEvents w @ [e]\<rparr>"
proof -
  let ?f = "\<lambda>h. h\<lparr>ho_supersededBy := Some i, ho_version := ho_version h + 1, ho_updatedAt := now\<rparr>"
  have ids: "distinct (map ho_id (handoffs w))"
    using ok by (simp add: rows_ok_def)
  have upd: "update_handoffs (\<lambda>h. ho_id h = ho_id old \<and> ho_supersededBy h = None) ?f w =
      (if handoff_check (?f old) then Inr (1, w\<lparr>handoffs := put_row ho_id (?f old) (handoffs w)\<rparr>) else Inl Sqlite_check)"
    by (rule update_handoffs_row [OF ids old, where g = "\<lambda>h. ho_supersededBy h = None"]) (simp_all add: none)
  from link obtain nt where app: "appendHandoffEventInTx f (ho_id old) session He_superseded (Some (ho_status old)) (ho_status old) nt now
      (w\<lparr>handoffs := put_row ho_id (?f old) (handoffs w)\<rparr>) = Inr w'"
    unfolding link_forward_def upd by (auto split: if_splits)
  let ?e = "\<lparr>he_id = f, he_handoff = ho_id old, he_session = session, he_seq = length (handoffJournal w (ho_id old)) + 1,
    he_event = He_superseded, he_from = Some (ho_status old), he_to = ho_status old, he_note = nt, he_createdAt = now\<rparr>"
  have "w' = w\<lparr>handoffs := put_row ho_id (?f old) (handoffs w), handoffEvents := handoffEvents w @ [?e]\<rparr>"
    using append_event_Inr [OF app] journal_next [OF ok old] by simp
  then show ?thesis
    by (intro exI [of _ ?e]) simp
qed

lemma links_new:
  assumes "links_ok hs" "ho_supersedes h = None" "ho_supersededBy h = None"
  shows "links_ok (hs @ [h])"
  unfolding links_ok_def
proof (intro conjI ballI allI impI)
  fix g x
  assume g: "g \<in> set (hs @ [h])" "ho_supersedes g = Some x"
  then have "g \<in> set hs"
    using assms(2) by auto
  then have "\<exists>k \<in> set hs. ho_id k = x \<and> ho_supersededBy k = Some (ho_id g) \<and> ho_task k = ho_task g \<and> ho_session k = ho_session g"
    using assms(1) g(2) unfolding links_ok_def by simp
  then show "\<exists>k \<in> set (hs @ [h]). ho_id k = x \<and> ho_supersededBy k = Some (ho_id g) \<and> ho_task k = ho_task g \<and>
      ho_session k = ho_session g"
    by auto
next
  fix g y
  assume g: "g \<in> set (hs @ [h])" "ho_supersededBy g = Some y"
  then have "g \<in> set hs"
    using assms(3) by auto
  then have "\<exists>k \<in> set hs. ho_id k = y \<and> ho_supersedes k = Some (ho_id g)"
    using assms(1) g(2) unfolding links_ok_def by simp
  then show "\<exists>k \<in> set (hs @ [h]). ho_id k = y \<and> ho_supersedes k = Some (ho_id g)"
    by auto
qed

lemma links_successor:
  assumes ids: "distinct (map ho_id (hs @ [h]))" and links: "links_ok hs" and old: "old \<in> set hs" "ho_supersededBy old = None"
    and new: "ho_supersedes h = Some (ho_id old)" "ho_supersededBy h = None" "ho_task old = ho_task h" "ho_session old = ho_session h"
    and old': "link_of old' = (ho_id old, ho_task old, ho_session old, ho_supersedes old, Some (ho_id h))"
  shows "links_ok (put_row ho_id old' (hs @ [h]))"
proof -
  have keys: "ho_id old' = ho_id old" "ho_task old' = ho_task old" "ho_session old' = ho_session old"
      "ho_supersedes old' = ho_supersedes old" "ho_supersededBy old' = Some (ho_id h)"
    using old' by (simp_all add: link_of_def)
  have rows: "set (put_row ho_id old' (hs @ [h])) = insert old' (insert h (set hs) - {old})"
    using set_put_row [OF ids _ keys(1)] old(1) by simp
  have fresh: "ho_id h \<notin> ho_id ` set hs"
    using ids by simp
  have apart: "h \<noteq> old"
    using fresh old(1) by (metis imageI)
  have mem: "x \<in> set (put_row ho_id old' (hs @ [h])) \<longleftrightarrow> x = old' \<or> x = h \<or> x \<in> set hs \<and> x \<noteq> old" for x
    unfolding rows using apart by blast
  have here: "old' \<in> set (put_row ho_id old' (hs @ [h]))" "h \<in> set (put_row ho_id old' (hs @ [h]))"
    by (simp_all add: mem)
  have behind: "\<exists>g \<in> set (put_row ho_id old' (hs @ [h])). ho_id g = y \<and> ho_supersededBy g = Some (ho_id z) \<and>
      ho_task g = ho_task z \<and> ho_session g = ho_session z"
    if z: "z \<in> set hs" "ho_supersedes z = Some y" for y z
  proof -
    obtain g where g: "g \<in> set hs" "ho_id g = y \<and> ho_supersededBy g = Some (ho_id z) \<and> ho_task g = ho_task z \<and>
        ho_session g = ho_session z"
      using links z unfolding links_ok_def by blast
    have "g \<noteq> old"
      using g(2) old(2) by (metis option.distinct(1))
    then have "g \<in> set (put_row ho_id old' (hs @ [h]))"
      using g(1) by (simp add: mem)
    then show ?thesis
      using g(2) by (rule bexI [rotated])
  qed
  show ?thesis
    unfolding links_ok_def
  proof (intro conjI ballI allI impI)
    fix x y
    assume x: "x \<in> set (put_row ho_id old' (hs @ [h]))" "ho_supersedes x = Some y"
    consider "x = h" | "x = old'" | "x \<in> set hs"
      using x(1) unfolding mem by blast
    then show "\<exists>g \<in> set (put_row ho_id old' (hs @ [h])). ho_id g = y \<and> ho_supersededBy g = Some (ho_id x) \<and>
        ho_task g = ho_task x \<and> ho_session g = ho_session x"
    proof cases
      case 1
      have "y = ho_id old"
        using x(2) new(1) 1 by simp
      then show ?thesis
        using new(3,4) keys 1 by (intro bexI [OF _ here(1)]) simp
    next
      case 2
      have "ho_supersedes old = Some y"
        using x(2) keys(4) 2 by simp
      from behind [OF old(1) this] show ?thesis
        unfolding 2 keys(1-3) .
    next
      case 3
      then show ?thesis
        using x(2) by (rule behind)
    qed
  next
    fix g y
    assume g: "g \<in> set (put_row ho_id old' (hs @ [h]))" "ho_supersededBy g = Some y"
    have "g \<noteq> h"
      using g(2) new(2) by (metis option.distinct(1))
    then consider "g = old'" | "g \<in> set hs" "g \<noteq> old"
      using g(1) unfolding mem by blast
    then show "\<exists>x \<in> set (put_row ho_id old' (hs @ [h])). ho_id x = y \<and> ho_supersedes x = Some (ho_id g)"
    proof cases
      case 1
      have "y = ho_id h"
        using g(2) keys(5) 1 by simp
      then show ?thesis
        using new(1) keys(1) 1 by (intro bexI [OF _ here(2)]) simp
    next
      case 2
      obtain x where x: "x \<in> set hs" "ho_id x = y" "ho_supersedes x = Some (ho_id g)"
        using links g(2) 2(1) unfolding links_ok_def by blast
      show ?thesis
      proof (cases "x = old")
        case True
        then show ?thesis
          using x(2,3) keys(1,4) by (intro bexI [OF _ here(1)]) simp
      next
        case False
        then have "x \<in> set (put_row ho_id old' (hs @ [h]))"
          using x(1) by (simp add: mem)
        then show ?thesis
          using x(2,3) by (intro bexI [of _ x]) simp_all
      qed
    qed
  qed
qed

lemma last_row: "x \<in> set (rows @ [y]) \<Longrightarrow> key x = key y \<Longrightarrow> key y \<notin> key ` set rows \<Longrightarrow> x = y"
  by (auto simp: image_iff)

lemma prepared_sel [simp]:
  "ho_id (prepared_row i session input t pv inactive now) = i" "ho_status (prepared_row i session input t pv inactive now) = Ho_prepared"
  "ho_attempt (prepared_row i session input t pv inactive now) = 0" "ho_notice (prepared_row i session input t pv inactive now) = inactive"
  "ho_supersedes (prepared_row i session input t pv inactive now) = hi_supersedes input"
  "ho_supersededBy (prepared_row i session input t pv inactive now) = None"
  "ho_task (prepared_row i session input t pv inactive now) = hi_task input"
  "ho_session (prepared_row i session input t pv inactive now) = session"
  "handoff_abs (prepared_row i session input t pv inactive now) = spec_start\<lparr>hs_notice := inactive\<rparr>"
  "reported_ok (prepared_row i session input t pv inactive now)"
  by (simp_all add: prepared_row_def handoff_abs_def spec_start_def reported_ok_def)

lemma create_tx_step:
  assumes ok: "handoffs_ok w" and now: "unix_ms_ok now" and tx: "create_tx session input now fresh w = Inr (body, w')"
  shows "handoffs_step w w' \<and> replies w' = replies w \<and> body \<in> set (handoffs w')"
proof -
  obtain t pv inactive sup w1 w2 w3 where
    sup: "superseded_target session input w = Inr sup" and
    ins: "insert_handoff (prepared_row (fresh 0) session input t pv inactive now) w = Inr w1" and
    prep: "appendHandoffEventInTx (fresh 1) (fresh 0) session He_prepared None Ho_prepared (hi_supersedes input) now w1 = Inr w2" and
    flag: "flag_new inactive (fresh 2) (fresh 0) session now w2 = Inr w3" and
    link: "link_supersedes (fresh 3) session (fresh 0) sup now w3 = Inr w'" and
    view: "readHandoff w' (fresh 0) = Some body" "handoff_view_ok body"
    using tx by (auto simp: create_tx_def rbind_eq_Inr toHandoffView_def split: if_splits option.splits prod.splits)
  let ?h = "prepared_row (fresh 0) session input t pv inactive now"
  have rows: "rows_ok w" and ids: "distinct (map ho_id (handoffs w))" and links: "links_ok (handoffs w)"
    using ok by (simp_all add: handoffs_ok_def rows_ok_def)
  have w1: "w1 = w\<lparr>handoffs := handoffs w @ [?h]\<rparr>" and new: "fresh 0 \<notin> ho_id ` set (handoffs w)"
    using insert_handoff_Inr [OF ins] by simp_all
  have events: "he_handoff ` set (handoffEvents w) \<subseteq> ho_id ` set (handoffs w)"
    using rows by (simp add: rows_ok_def)
  have "\<forall>e \<in> set (handoffEvents w). he_handoff e \<noteq> fresh 0"
    using events new by (metis image_subset_iff)
  then have none: "handoffJournal w (fresh 0) = []"
    by (simp add: handoffJournal_def filter_empty_conv)
  let ?e1 = "\<lparr>he_id = fresh 1, he_handoff = fresh 0, he_session = session, he_seq = 1, he_event = He_prepared, he_from = None,
    he_to = Ho_prepared, he_note = hi_supersedes input, he_createdAt = now\<rparr>"
  have w2: "w2 = w1\<lparr>handoffEvents := handoffEvents w @ [?e1]\<rparr>"
    using append_event_Inr [OF prep] by (simp add: w1 none next_of_def)
  let ?e2 = "\<lparr>he_id = fresh 2, he_handoff = fresh 0, he_session = session, he_seq = 2, he_event = He_flagged,
    he_from = Some Ho_prepared, he_to = Ho_prepared,
    he_note = Some (js ''parent purpose non-active at creation: reaffirm before dispatch''), he_createdAt = now\<rparr>"
  let ?es = "?e1 # (if inactive then [?e2] else [])"
  have w3: "w3 = w\<lparr>handoffs := handoffs w @ [?h], handoffEvents := handoffEvents w @ ?es\<rparr>"
  proof (cases inactive)
    case True
    have next2: "next_of (map he_seq (handoffJournal w2 (fresh 0))) = 2"
      using none by (simp add: w2 w1 next_of_def flip: handoffJournal_def)
    have flag': "appendHandoffEventInTx (fresh 2) (fresh 0) session He_flagged (Some Ho_prepared) Ho_prepared
        (Some (js ''parent purpose non-active at creation: reaffirm before dispatch'')) now w2 = Inr w3"
      using flag True by (simp only: flag_new_def if_True)
    have "w3 = w2\<lparr>handoffEvents := handoffEvents w2 @ [?e2]\<rparr>"
      using append_event_Inr [OF flag'] unfolding next2 by (rule conjunct1)
    then show ?thesis
      using True by (simp add: w2 w1)
  next
    case False
    then show ?thesis
      using flag by (simp add: flag_new_def w2 w1)
  qed
  have es: "\<forall>e \<in> set ?es. he_handoff e = ho_id ?h" "map he_seq ?es = [1..<length ?es + 1]"
    "handoff_replay ?es = Some (handoff_abs ?h)"
    by (auto simp: handoff_replay_def spec_follow_def spec_start_def live_status_def open_status_def upt_rec)
  have good: "rows_ok w3" if "fields_ok ?h"
    using new_row_ok [OF rows _ es, of w3] that new by (simp add: w3)
  have later: "handoffs_later w w3" and same: "elsewhere_same w w3" "replies w3 = replies w"
    by (simp_all add: handoffs_later_def w3 rows_later_append elsewhere_same_def)
  show ?thesis
  proof (cases sup)
    case None
    then have w': "w' = w3"
      using link by (simp add: link_supersedes_def)
    have "body \<in> set (handoffs w @ [?h])" "ho_id body = fresh 0"
      using readHandoff_Some [OF view(1)] by (simp_all add: w' w3)
    then have "body = ?h"
      using new last_row [of body "handoffs w" ?h ho_id] by simp
    then have "fields_ok ?h"
      using view(2) view_fields by simp
    moreover have "hi_supersedes input = None"
      using sup None by (auto simp: superseded_target_def rbind_eq_Inr split: option.splits if_splits)
    ultimately show ?thesis
      using good later same links_new [OF links, of ?h] \<open>body = ?h\<close> by (simp add: w' handoffs_step_def handoffs_ok_def w3)
  next
    case (Some old)
    have old: "hi_supersedes input = Some (ho_id old)" "old \<in> set (handoffs w)" "ho_session old = session"
        "ho_task old = hi_task input" "ho_supersededBy old = None"
      using sup Some by (auto simp: superseded_target_def rbind_eq_Inr split: option.splits if_splits dest!: assertOwnedHandoff_Inr)
    let ?old' = "old\<lparr>ho_supersededBy := Some (fresh 0), ho_version := ho_version old + 1, ho_updatedAt := now\<rparr>"
    have apart: "ho_id old \<noteq> fresh 0"
      using new imageI [OF old(2), of ho_id] by auto
    have link': "link_forward (fresh 3) session (fresh 0) old now w3 = Inr w'"
      using link Some by (simp add: link_supersedes_def)
    have ids3: "distinct (map ho_id (handoffs w @ [?h]))"
      using ids new by simp
    have hs': "handoffs w' = put_row ho_id ?old' (handoffs w @ [?h])"
    proof -
      have "update_handoffs (\<lambda>h. ho_id h = ho_id old \<and> ho_supersededBy h = None)
          (\<lambda>h. h\<lparr>ho_supersededBy := Some (fresh 0), ho_version := ho_version h + 1, ho_updatedAt := now\<rparr>) w3 =
        (if handoff_check ?old' then Inr (1, w3\<lparr>handoffs := put_row ho_id ?old' (handoffs w3)\<rparr>) else Inl Sqlite_check)"
        by (rule update_handoffs_row [where g = "\<lambda>h. ho_supersededBy h = None"])
          (use ids3 old in \<open>simp_all add: w3\<close>)
      then show ?thesis
        using link' unfolding link_forward_def by (auto simp: w3 split: if_splits dest!: append_event_Inr)
    qed
    have again: "body \<in> set (put_row ho_id ?old' (handoffs w @ [?h]))" "ho_id body = fresh 0"
      using readHandoff_Some [OF view(1)] by (simp_all add: hs')
    have "ho_id ?old' = ho_id old"
      by simp
    then have "body \<noteq> ?old'"
      using apart again(2) by metis
    then have "body \<in> set (handoffs w @ [?h])"
      using again(1) set_put_row_subset by fastforce
    then have "body = ?h"
      using new again(2) last_row [of body "handoffs w" ?h ho_id] by simp
    then have fields: "fields_ok ?h" "uuid_ok (fresh 0)"
      using view(2) view_fields by (auto simp: handoff_view_ok_def)
    have rows3: "rows_ok w3"
      using good fields(1) .
    have mem: "old \<in> set (handoffs w3)"
      using old(2) by (simp add: w3)
    obtain e where e: "he_event e = He_superseded" "he_handoff e = ho_id old"
        "he_seq e = length (handoffJournal w3 (ho_id old)) + 1" "he_from e = Some (ho_status old)" "he_to e = ho_status old"
      and w': "w' = w3\<lparr>handoffs := put_row ho_id ?old' (handoffs w3), handoffEvents := handoffEvents w3 @ [e]\<rparr>"
      using link_forward_Inr [OF rows3 mem old(5) link'] by auto
    have "row_moved old ?old' [e] [] w3 w'"
      using mem e fields(2) now old(5) unfolding row_moved_def w'
      by (auto simp: same_frozen_def spec_follow_def handoff_abs_def reported_ok_def fields_ok_def handoff_view_ok_def)
    then have "rows_ok w'" "handoffs_later w3 w'"
      using row_moved_ok [OF rows3] moved_later [OF rows3] by auto
    moreover have "links_ok (handoffs w')"
      unfolding hs' by (rule links_successor [OF ids3 links old(2,5)]) (simp_all add: old link_of_def)
    moreover have "elsewhere_same w w'" "replies w' = replies w"
      using same by (simp_all add: w' elsewhere_same_def)
    ultimately show ?thesis
      using handoffs_later_trans [OF later] readHandoff_Some [OF view(1)] by (auto simp: handoffs_step_def handoffs_ok_def)
  qed
qed

lemma createHandoff_step:
  assumes "handoffs_ok w" "createHandoff H session input key now fresh w = (out, w')"
  shows "handoffs_step w w'"
proof (cases "w' = w")
  case True
  then show ?thesis
    using handoffs_step_refl [OF assms(1)] by simp
next
  case False
  then obtain body w1 rs where tx: "create_tx session input now fresh w = Inr (body, w1)" "unix_ms_ok now"
      "w' = w1\<lparr>replies := replies w1 @ rs\<rparr>"
    using assms(2) by (auto simp: createHandoff_def request_defs rbind_eq_Inr
        split: if_splits option.splits sum.splits prod.splits dest!: storeReply_Inr)
  then show ?thesis
    using create_tx_step [OF assms(1) tx(2,1)] handoffs_step_replies [of w w1 rs] by simp
qed

end
