(* ===== verification/Autonomy_Steps.thy ===== *)
theory Autonomy_Steps
  imports Handoff_Notice
begin

text \<open>
  What purposes and tasks keep. A task belongs to a purpose of its session and scope, and is not in progress when that
  purpose is no longer active: a purpose ends together with the holds of its tasks and the notices of its handoffs.
\<close>

subsection \<open>The invariant\<close>

text \<open>The tasks of the purposes in \<open>X\<close> are exempt: those that an unfinished transaction is about to hold.\<close>

definition task_bound :: "jstr set \<Rightarrow> purpose_row list \<Rightarrow> task_row \<Rightarrow> bool" where
  "task_bound X ps t \<longleftrightarrow>
     (case tk_parent t of
        None \<Rightarrow> True
      | Some i \<Rightarrow> \<exists>p \<in> set ps. pu_id p = i \<and> pu_session p = tk_session t \<and> pu_scope p = tk_scope t \<and>
          (tk_status t = Ts_in_progress \<longrightarrow> pu_status p = Pu_active \<or> i \<in> X))"

definition plans_but :: "jstr set \<Rightarrow> work \<Rightarrow> bool" where
  "plans_but X w \<longleftrightarrow>
     distinct (map pu_id (purposes w)) \<and> distinct (map tk_id (tasks w)) \<and>
     (\<forall>t \<in> set (tasks w). task_check t \<and> task_bound X (purposes w) t)"

lemma plans_but_same: "purposes w' = purposes w \<Longrightarrow> tasks w' = tasks w \<Longrightarrow> plans_but X w' = plans_but X w"
  by (simp add: plans_but_def)

definition work_ok :: "work \<Rightarrow> bool" where
  "work_ok w \<longleftrightarrow> handoffs_ok w \<and> plans_but {} w"

lemma handoffs_ok_same:
  assumes "handoffs w' = handoffs w" "handoffEvents w' = handoffEvents w" "attempts w' = attempts w"
  shows "handoffs_ok w' = handoffs_ok w"
  using assms by (simp add: handoffs_ok_def rows_ok_def row_good_def journal_good_def attemptNumbers_def handoffJournal_def)

subsection \<open>What is never rewritten\<close>

definition purpose_later :: "purpose_row \<Rightarrow> purpose_row \<Rightarrow> bool" where
  "purpose_later p p' \<longleftrightarrow>
     pu_id p' = pu_id p \<and> pu_session p' = pu_session p \<and> pu_scope p' = pu_scope p \<and> pu_kind p' = pu_kind p \<and>
     pu_statement p' = pu_statement p \<and> pu_createdAt p' = pu_createdAt p \<and> pu_version p \<le> pu_version p' \<and>
     (pu_status p \<noteq> Pu_active \<longrightarrow> p' = p)"

definition task_later :: "task_row \<Rightarrow> task_row \<Rightarrow> bool" where
  "task_later t t' \<longleftrightarrow>
     tk_id t' = tk_id t \<and> tk_session t' = tk_session t \<and> tk_scope t' = tk_scope t \<and> tk_title t' = tk_title t \<and>
     tk_body t' = tk_body t \<and> tk_kind t' = tk_kind t \<and> tk_speaker t' = tk_speaker t \<and> tk_deadline t' = tk_deadline t \<and>
     tk_createdAt t' = tk_createdAt t \<and> tk_version t \<le> tk_version t' \<and> (tk_version t' = tk_version t \<longrightarrow> t' = t) \<and>
     (\<not> unfinished (tk_status t) \<longrightarrow> t' = t)"

lemma purpose_later_refl [simp]: "purpose_later p p"
  by (simp add: purpose_later_def)

lemma purpose_later_trans: "purpose_later a b \<Longrightarrow> purpose_later b c \<Longrightarrow> purpose_later a c"
  unfolding purpose_later_def by (metis order_trans)

lemma task_later_refl [simp]: "task_later t t"
  by (simp add: task_later_def)

lemma task_later_trans:
  assumes "task_later a b" "task_later b c"
  shows "task_later a c"
proof -
  have "c = a" if "tk_version c = tk_version a"
    using assms that unfolding task_later_def by (metis order_antisym)
  moreover have "c = a" if "\<not> unfinished (tk_status a)"
    using assms that unfolding task_later_def by metis
  ultimately show ?thesis
    using assms unfolding task_later_def by (metis order_trans)
qed

definition plans_later :: "work \<Rightarrow> work \<Rightarrow> bool" where
  "plans_later w w' \<longleftrightarrow>
     rows_later purpose_later (purposes w) (purposes w') \<and> rows_later task_later (tasks w) (tasks w') \<and>
     prefix (purposeEvents w) (purposeEvents w') \<and> prefix (taskEvents w) (taskEvents w')"

lemma plans_later_refl [simp]: "plans_later w w"
  by (simp add: plans_later_def rows_later_refl)

lemma plans_later_trans: "plans_later a b \<Longrightarrow> plans_later b c \<Longrightarrow> plans_later a c"
  unfolding plans_later_def
  by (auto intro: rows_later_trans [OF purpose_later_trans] rows_later_trans [OF task_later_trans] prefix_order.trans)

definition work_later :: "work \<Rightarrow> work \<Rightarrow> bool" where
  "work_later w w' \<longleftrightarrow> handoffs_later w w' \<and> plans_later w w' \<and> prefix (replies w) (replies w')"

lemma work_later_refl [simp]: "work_later w w"
  by (simp add: work_later_def)

lemma work_later_trans: "work_later a b \<Longrightarrow> work_later b c \<Longrightarrow> work_later a c"
  unfolding work_later_def by (auto intro: handoffs_later_trans plans_later_trans prefix_order.trans)

definition work_move :: "work \<Rightarrow> work \<Rightarrow> bool" where
  "work_move w w' \<longleftrightarrow> work_ok w' \<and> work_later w w'"

lemma work_move_refl: "work_ok w \<Longrightarrow> work_move w w"
  by (simp add: work_move_def)

lemma work_move_trans: "work_move a b \<Longrightarrow> work_move b c \<Longrightarrow> work_move a c"
  unfolding work_move_def by (auto intro: work_later_trans)

lemma work_move_replies: "work_move w w' \<Longrightarrow> work_move w (w'\<lparr>replies := replies w' @ rs\<rparr>)"
  unfolding work_move_def work_ok_def work_later_def
  using handoffs_ok_same [of "w'\<lparr>replies := replies w' @ rs\<rparr>" w'] plans_but_same [of "w'\<lparr>replies := replies w' @ rs\<rparr>" w' "{}"]
  by (simp add: handoffs_later_def plans_later_def)

text \<open>A step of the handoffs alone, and a step that leaves the handoffs.\<close>

lemma handoffs_step_plans: "handoffs_step w w' \<Longrightarrow> plans_but X w' = plans_but X w \<and> plans_later w w'"
  unfolding handoffs_step_def elsewhere_same_def by (simp add: plans_but_def plans_later_def rows_later_refl)

lemma handoffs_step_move: "work_ok w \<Longrightarrow> handoffs_step w w' \<Longrightarrow> work_move w w'"
  using handoffs_step_plans [of w w' "{}"] by (simp add: work_move_def work_ok_def work_later_def handoffs_step_def)

definition handoffs_same :: "work \<Rightarrow> work \<Rightarrow> bool" where
  "handoffs_same w w' \<longleftrightarrow>
     handoffs w' = handoffs w \<and> handoffEvents w' = handoffEvents w \<and> attempts w' = attempts w \<and> replies w' = replies w"

lemma plans_move:
  assumes "work_ok w" "handoffs_same w w'" "plans_but {} w'" "plans_later w w'"
  shows "work_move w w'"
  using assms handoffs_ok_same [of w' w] handoffs_later_same [of w' w]
  by (simp add: work_move_def work_ok_def work_later_def handoffs_same_def)

subsection \<open>Updates of one row\<close>

lemma update_tasks_row:
  assumes "distinct (map tk_id (tasks w))" "t \<in> set (tasks w)" "\<And>x. q x \<longleftrightarrow> tk_id x = tk_id t \<and> g x" "g t"
    and "tk_id (f t) = tk_id t"
  shows "update_tasks q f w =
    (if task_check (f t) then Inr (1, w\<lparr>tasks := put_row tk_id (f t) (tasks w)\<rparr>) else Inl Sqlite_check)"
proof -
  have "list_ex (\<lambda>x. q x \<and> \<not> task_check (f x)) (tasks w) \<longleftrightarrow> \<not> task_check (f t)"
    using assms by (auto simp: list_ex_iff dest: distinct_key_eq)
  then show ?thesis
    using count_where_key [of tk_id "tasks w" t q g] upd_where_key [of tk_id "tasks w" t q g f] assms
    by (simp add: update_tasks_def)
qed

lemma update_purposes_row:
  assumes "distinct (map pu_id (purposes w))" "p \<in> set (purposes w)" "\<And>x. q x \<longleftrightarrow> pu_id x = pu_id p \<and> g x" "g p"
    and "pu_id (f p) = pu_id p"
  shows "update_purposes q f w =
    (if purpose_check (f p) then Inr (1, w\<lparr>purposes := put_row pu_id (f p) (purposes w)\<rparr>) else Inl Sqlite_check)"
proof -
  have "list_ex (\<lambda>x. q x \<and> \<not> purpose_check (f x)) (purposes w) \<longleftrightarrow> \<not> purpose_check (f p)"
    using assms by (auto simp: list_ex_iff dest: distinct_key_eq)
  then show ?thesis
    using count_where_key [of pu_id "purposes w" p q g] upd_where_key [of pu_id "purposes w" p q g f] assms
    by (simp add: update_purposes_def)
qed

lemma purpose_event_Inr:
  "appendPurposeEventInTx f i s event from to st now w = Inr w' \<Longrightarrow> \<exists>e. w' = w\<lparr>purposeEvents := purposeEvents w @ [e]\<rparr>"
  by (auto simp: appendPurposeEventInTx_def split: if_splits)

lemma task_event_Inr:
  "appendTaskEventInTx f i s event from to nt now w = Inr w' \<Longrightarrow> \<exists>e. w' = w\<lparr>taskEvents := taskEvents w @ [e]\<rparr>"
  by (auto simp: appendTaskEventInTx_def split: if_splits)

lemma insert_purpose_Inr:
  "insert_purpose p w = Inr w' \<Longrightarrow> w' = w\<lparr>purposes := purposes w @ [p]\<rparr> \<and> pu_id p \<notin> pu_id ` set (purposes w)"
  by (auto simp: insert_purpose_def readPurpose_None split: if_splits)

lemma insert_task_Inr:
  "insert_task t w = Inr w' \<Longrightarrow> w' = w\<lparr>tasks := tasks w @ [t]\<rparr> \<and> tk_id t \<notin> tk_id ` set (tasks w) \<and> task_check t"
  by (auto simp: insert_task_def readTask_None split: if_splits)

text \<open>A task moves: its parent may change to a purpose that it may belong to.\<close>

lemma put_task_plans:
  assumes plans: "plans_but X w" and t: "t \<in> set (tasks w)" and t': "tk_id t' = tk_id t" "task_check t'" "task_bound X (purposes w) t'"
    and w': "tasks w' = put_row tk_id t' (tasks w)" "purposes w' = purposes w"
  shows "plans_but X w'"
proof -
  have ids: "distinct (map tk_id (tasks w))"
    using plans by (simp add: plans_but_def)
  have "set (tasks w') = insert t' (set (tasks w) - {t})"
    using set_put_row [OF ids t t'(1)] w'(1) by simp
  then show ?thesis
    using plans t' w' by (auto simp: plans_but_def)
qed

lemma put_task_later:
  assumes "distinct (map tk_id (tasks w))" "t \<in> set (tasks w)" "task_later t t'"
    and "tasks w' = put_row tk_id t' (tasks w)" "purposes w' = purposes w" "purposeEvents w' = purposeEvents w"
    "prefix (taskEvents w) (taskEvents w')"
  shows "plans_later w w'"
proof -
  have "tk_id t' = tk_id t"
    using assms(3) by (simp add: task_later_def)
  then have "rows_later task_later (tasks w) (tasks w')"
    unfolding assms(4) using rows_later_put [OF assms(1,2) _ task_later_refl assms(3)] by simp
  then show ?thesis
    using assms(5-7) by (simp add: plans_later_def rows_later_refl)
qed


subsection \<open>The operations on a task\<close>

lemma move_task_move:
  assumes ok: "work_ok w" and row: "row \<in> set (tasks w)" and later: "task_later row (f row)"
    and bound: "task_bound {} (purposes w) (f row)" and move: "move_task row f expected event to nt now i w = Inr w'"
  shows "work_move w w' \<and> handoffs_same w w' \<and> tasks w' = put_row tk_id (f row) (tasks w) \<and> purposes w' = purposes w"
proof -
  have plans: "plans_but {} w" and ids: "distinct (map tk_id (tasks w))"
    using ok by (simp_all add: work_ok_def plans_but_def)
  have id: "tk_id (f row) = tk_id row"
    using later by (simp add: task_later_def)
  have upd: "update_tasks (\<lambda>t. tk_id t = tk_id row \<and> tk_status t = tk_status row \<and> tk_version t = tk_version row) f w =
      (if task_check (f row) then Inr (1, w\<lparr>tasks := put_row tk_id (f row) (tasks w)\<rparr>) else Inl Sqlite_check)"
    by (rule update_tasks_row [OF ids row, where g = "\<lambda>t. tk_status t = tk_status row \<and> tk_version t = tk_version row"])
      (simp_all add: id)
  obtain e where check: "task_check (f row)"
    and w': "w' = w\<lparr>tasks := put_row tk_id (f row) (tasks w), taskEvents := taskEvents w @ [e]\<rparr>"
    using move unfolding move_task_def upd by (auto split: if_splits dest!: task_event_Inr)
  have "plans_but {} w'"
    by (rule put_task_plans [OF plans row id check bound]) (simp_all add: w')
  moreover have "plans_later w w'"
    by (rule put_task_later [OF ids row later]) (simp_all add: w')
  moreover have "handoffs_same w w'"
    by (simp add: handoffs_same_def w')
  ultimately show ?thesis
    using plans_move [OF ok] by (simp add: w')
qed

lemma finish_task_Inr: "finish_task bridge row w = Inr (body, w') \<Longrightarrow> w' = w \<and> readTask w (tk_id row) = Some body"
  by (auto simp: finish_task_def reread_task_def toTaskView_def rbind_eq_Inr split: option.splits if_splits)

lemma task_row_bound:
  assumes "work_ok w" "row \<in> set (tasks w)" "tk_parent t = tk_parent row" "tk_session t = tk_session row" "tk_scope t = tk_scope row"
    "tk_status t \<noteq> Ts_in_progress"
  shows "task_bound {} (purposes w) t"
proof -
  have "task_bound {} (purposes w) row"
    using assms(1,2) by (simp add: work_ok_def plans_but_def)
  then show ?thesis
    using assms(3-6) by (auto simp: task_bound_def split: option.splits)
qed

lemma parent_for_work:
  assumes "requireApplicableParentForWork s sc i now w = Inr u" "tk_parent t = Some i" "tk_session t = s" "tk_scope t = sc"
  shows "task_bound X (purposes w) t"
  using assms by (auto simp: requireApplicableParentForWork_def task_bound_def split: option.splits if_splits dest!: readPurpose_Some)

lemma move_tx_step:
  assumes ok: "work_ok w" and row: "row \<in> set (tasks w)" and tx: "move_tx operation expected now bridge i row w = Inr (body, w')"
  shows "work_move w w' \<and> replies w' = replies w"
proof -
  let ?f = "\<lambda>t. t\<lparr>tk_status := move_to operation, tk_version := tk_version row + 1, tk_updatedAt := now,
         tk_holdReason := None, tk_reconsider := None\<rparr>"
  obtain w1 where guard: "move_guard operation now row w = Inr ()"
    and move: "move_task row ?f expected (move_event operation) (move_to operation) None now i w = Inr w1"
    and fin: "finish_task bridge row w1 = Inr (body, w')"
    using tx by (auto simp: move_tx_def rbind_eq_Inr)
  have "unfinished (tk_status row)"
    using guard by (auto simp: move_guard_def unfinished_def split: if_splits)
  then have later: "task_later row (?f row)"
    by (simp add: task_later_def)
  have bound: "task_bound {} (purposes w) (?f row)"
  proof (cases "operation = Move_start")
    case True
    then show ?thesis
      using guard parent_for_work [of "tk_session row" "tk_scope row" _ now w "()" "?f row"]
      by (cases "tk_parent row") (auto simp: move_guard_def task_bound_def split: if_splits)
  next
    case False
    then show ?thesis
      by (intro task_row_bound [OF ok row]) (cases operation; simp)+
  qed
  show ?thesis
    using move_task_move [OF ok row later bound move] finish_task_Inr [OF fin] by (simp add: handoffs_same_def)
qed

lemma hold_tx_step:
  assumes ok: "work_ok w" and row: "row \<in> set (tasks w)" and tx: "hold_tx reason trigger expected now bridge i row w = Inr (body, w')"
  shows "work_move w w' \<and> replies w' = replies w"
proof -
  let ?f = "\<lambda>t. t\<lparr>tk_status := Ts_held, tk_version := tk_version row + 1, tk_updatedAt := now,
             tk_holdReason := Some reason, tk_reconsider := Some trigger\<rparr>"
  obtain w1 where guard: "unfinished (tk_status row)"
    and move: "move_task row ?f expected Task_held Ts_held (Some reason) now i w = Inr w1"
    and fin: "finish_task bridge row w1 = Inr (body, w')"
    using tx by (auto simp: hold_tx_def unfinished_def rbind_eq_Inr split: if_splits)
  have later: "task_later row (?f row)"
    using guard by (simp add: task_later_def)
  have bound: "task_bound {} (purposes w) (?f row)"
    by (rule task_row_bound [OF ok row]) simp_all
  show ?thesis
    using move_task_move [OF ok row later bound move] finish_task_Inr [OF fin] by (simp add: handoffs_same_def)
qed

lemma resume_tx_step:
  assumes ok: "work_ok w" and now: "unix_ms_ok now" and row: "row \<in> set (tasks w)"
    and tx: "resume_tx kind words newParent expected now bridge i fresh row w = Inr (body, w')"
  shows "work_move w w' \<and> replies w' = replies w"
proof -
  have held: "tk_status row = Ts_held"
    using tx by (rule contrapos_pp) (simp add: resume_tx_def)
  obtain parent w1 w2 where
    usable: "(case parent of None \<Rightarrow> Inr () | Some i \<Rightarrow> requireApplicableParentForWork (tk_session row) (tk_scope row) i now w) = Inr ()"
    and move: "move_task row (\<lambda>t. t\<lparr>tk_status := Ts_in_progress, tk_version := tk_version row + 1, tk_updatedAt := now,
               tk_parent := parent, tk_holdReason := None, tk_reconsider := None\<rparr>) expected Task_resumed
             Ts_in_progress (Some (resume_note kind words)) now i w = Inr w1"
    and flag: "(if parent \<noteq> tk_parent row
       then flagHandoffTaskReparentInTx (tk_session row) (tk_id row) (js ''task_reparented_on_resume'') now fresh w1
       else Inr w1) = Inr w2"
    and fin: "finish_task bridge row w2 = Inr (body, w')"
    using tx held by (auto simp: resume_tx_def rbind_eq_Inr)
  let ?f = "\<lambda>t. t\<lparr>tk_status := Ts_in_progress, tk_version := tk_version row + 1, tk_updatedAt := now,
               tk_parent := parent, tk_holdReason := None, tk_reconsider := None\<rparr>"
  have later: "task_later row (?f row)"
    using held by (simp add: task_later_def unfinished_def)
  have bound: "task_bound {} (purposes w) (?f row)"
  proof (cases parent)
    case None
    then show ?thesis by (simp add: task_bound_def)
  next
    case (Some p)
    then show ?thesis
      using usable by (intro parent_for_work [of "tk_session row" "tk_scope row" p now w "()"]) simp_all
  qed
  have moved: "work_move w w1" "replies w1 = replies w"
    using move_task_move [OF ok row later bound move] by (simp_all add: handoffs_same_def)
  then have ok1: "work_ok w1" "handoffs_ok w1"
    by (simp_all add: work_move_def work_ok_def)
  have "handoffs_step w1 w2 \<and> replies w2 = replies w1"
  proof (cases "parent = tk_parent row")
    case True
    then show ?thesis
      using flag handoffs_step_refl [OF ok1(2)] by simp
  next
    case False
    then have "flagHandoffTaskReparentInTx (tk_session row) (tk_id row) (js ''task_reparented_on_resume'') now fresh w1 = Inr w2"
      using flag by simp
    then show ?thesis
      by (rule reparent_flags [OF ok1(2) now])
  qed
  then show ?thesis
    using work_move_trans [OF moved(1) handoffs_step_move [OF ok1(1)]] moved(2) finish_task_Inr [OF fin] by simp
qed

lemma create_task_tx_step:
  assumes ok: "work_ok w" and tx: "create_task_tx session input now bridge fresh w = Inr (body, w')"
  shows "work_move w w' \<and> replies w' = replies w"
proof -
  let ?t = "open_task (fresh 0) session input now"
  obtain w1 where parent: "task_parent_ok session input w = Inr ()"
    and ins: "insert_task ?t w = Inr w1"
    and app: "appendTaskEventInTx (fresh 1) (fresh 0) session Task_created None Ts_open None now w1 = Inr w'"
    using tx by (auto simp: create_task_tx_def rbind_eq_Inr split: if_splits)
  have w1: "w1 = w\<lparr>tasks := tasks w @ [?t]\<rparr>" "tk_id ?t \<notin> tk_id ` set (tasks w)" "task_check ?t"
    using insert_task_Inr [OF ins] by simp_all
  obtain e where w': "w' = w1\<lparr>taskEvents := taskEvents w @ [e]\<rparr>"
    using task_event_Inr [OF app] w1(1) by auto
  have "task_bound {} (purposes w) ?t"
    using parent by (auto simp: task_parent_ok_def task_bound_def open_task_def rbind_eq_Inr
        split: option.splits if_splits dest!: assertOwnedPurpose_Inr)
  then have "plans_but {} w'"
    using ok w1(2,3) by (auto simp: work_ok_def plans_but_def w' w1(1))
  moreover have "plans_later w w'" "handoffs_same w w'"
    by (simp_all add: w' w1(1) plans_later_def rows_later_refl rows_later_append handoffs_same_def)
  ultimately show ?thesis
    using plans_move [OF ok] by (simp add: handoffs_same_def)
qed

text \<open>What a request on a task can do.\<close>

lemma mutate_task_cases:
  assumes "mutate_task H operation name session i expected key now hashInput apply w = (out, w')"
  shows "w' = w \<or> (\<exists>row body w1 rs. row \<in> set (tasks w) \<and> tk_id row = i \<and> tk_session row = session \<and>
    tk_version row = expected \<and> unix_ms_ok now \<and> apply row w = Inr (body, w1) \<and> w' = w1\<lparr>replies := replies w1 @ rs\<rparr>)"
proof (cases "w' = w")
  case False
  then show ?thesis
    using assms by (auto simp: mutate_task_def request_defs rbind_eq_Inr
        split: if_splits option.splits sum.splits prod.splits dest!: assertOwnedTask_Inr storeReply_Inr)
qed simp

lemma mutate_task_step:
  assumes "work_ok w" "mutate_task H operation name session i expected key now hashInput apply w = (out, w')"
    and "\<And>row body w1. row \<in> set (tasks w) \<Longrightarrow> unix_ms_ok now \<Longrightarrow> apply row w = Inr (body, w1) \<Longrightarrow> work_move w w1"
  shows "work_move w w'"
  using mutate_task_cases [OF assms(2)] assms(3) work_move_refl [OF assms(1)] by (auto intro: work_move_replies)

lemma createTask_step:
  assumes "work_ok w" "createTask H session input key now bridge fresh w = (out, w')"
  shows "work_move w w'"
proof (cases "w' = w")
  case True
  then show ?thesis
    using work_move_refl [OF assms(1)] by simp
next
  case False
  then obtain body w1 rs where tx: "create_task_tx session input now bridge fresh w = Inr (body, w1)"
      "w' = w1\<lparr>replies := replies w1 @ rs\<rparr>"
    using assms(2) by (auto simp: createTask_def request_defs rbind_eq_Inr
        split: if_splits option.splits sum.splits prod.splits dest!: storeReply_Inr)
  then show ?thesis
    using create_task_tx_step [OF assms(1) tx(1)] work_move_replies by blast
qed

lemma transitionTask_step:
  assumes ok: "work_ok w" and run: "transitionTask H m s i v key now bridge f w = (out, w')"
  shows "work_move w w'"
  by (rule mutate_task_step [OF ok run [unfolded transitionTask_def]]) (blast dest: move_tx_step [OF ok])

lemma holdTask_step:
  assumes ok: "work_ok w" and run: "holdTask H s i v reason trigger key now bridge f w = (out, w')"
  shows "work_move w w'"
  by (rule mutate_task_step [OF ok run [unfolded holdTask_def]]) (blast dest: hold_tx_step [OF ok])

lemma resumeTask_step:
  assumes ok: "work_ok w" and run: "resumeTask H s i v kind words p key now bridge f ff w = (out, w')"
  shows "work_move w w'"
  by (rule mutate_task_step [OF ok run [unfolded resumeTask_def]]) (blast dest: resume_tx_step [OF ok])

end
