(* ===== verification/Purpose_Steps.thy ===== *)
theory Purpose_Steps
  imports Autonomy_Steps
begin

text \<open>
  The operations on a purpose. One that ends holds the tasks that were in progress under it and leaves a notice on the
  live handoffs that are bound to it, in the same transaction.
\<close>

subsection \<open>Holding the tasks\<close>

definition held_task :: "jstr \<Rightarrow> int \<Rightarrow> task_row \<Rightarrow> task_row" where
  "held_task reason now t = t\<lparr>tk_status := Ts_held, tk_version := tk_version t + 1, tk_updatedAt := now,
     tk_holdReason := Some reason, tk_reconsider := Some (js ''explicit_new_parent'')\<rparr>"

lemma held_task_sel [simp]:
  "tk_id (held_task reason now t) = tk_id t" "tk_parent (held_task reason now t) = tk_parent t"
  "tk_session (held_task reason now t) = tk_session t" "tk_status (held_task reason now t) = Ts_held"
  "tk_scope (held_task reason now t) = tk_scope t"
  by (simp_all add: held_task_def)

lemma held_task_later: "unfinished (tk_status t) \<Longrightarrow> task_later t (held_task reason now t)"
  by (simp add: task_later_def held_task_def)

definition to_hold :: "jstr \<Rightarrow> task_row \<Rightarrow> bool" where
  "to_hold session t \<longleftrightarrow> tk_session t = session \<and> tk_status t \<noteq> Ts_held"

text \<open>A table of tasks where those that satisfy \<open>P\<close> are held, and what the other tables do meanwhile.\<close>

definition holds_done :: "(task_row \<Rightarrow> bool) \<Rightarrow> jstr \<Rightarrow> int \<Rightarrow> work \<Rightarrow> work \<Rightarrow> bool" where
  "holds_done P reason now w w' \<longleftrightarrow>
     tasks w' = map (\<lambda>t. if P t then held_task reason now t else t) (tasks w) \<and> purposes w' = purposes w \<and>
     (\<forall>X. plans_but X w \<longrightarrow> plans_but X w') \<and> plans_later w w' \<and> handoffs_same w w'"

lemma holds_none: "(\<And>t. t \<in> set (tasks w) \<Longrightarrow> \<not> P t) \<Longrightarrow> holds_done P reason now w w"
  by (auto simp: holds_done_def handoffs_same_def intro!: map_idI [symmetric])

lemma holds_ids: "holds_done P reason now w w' \<Longrightarrow> map tk_id (tasks w') = map tk_id (tasks w)"
  by (auto simp: holds_done_def)

lemma hold_one_done:
  assumes ids: "distinct (map tk_id (tasks w))" and t: "t \<in> set (tasks w)" "unfinished (tk_status t)"
    and hold: "hold_one f session reason now t w = Inr w'"
  shows "holds_done (\<lambda>x. x = t \<and> to_hold session t) reason now w w'"
proof (cases "to_hold session t")
  case False
  then have "w' = w \<or> (\<exists>e. w' = w\<lparr>taskEvents := taskEvents w @ [e]\<rparr>)"
    using hold task_event_Inr by (auto simp: hold_one_def to_hold_def split: if_splits)
  then show ?thesis
    using False by (auto simp: holds_done_def handoffs_same_def plans_later_def rows_later_refl plans_but_def)
next
  case True
  let ?f = "\<lambda>x. x\<lparr>tk_status := Ts_held, tk_version := tk_version t + 1, tk_updatedAt := now,
                tk_holdReason := Some reason, tk_reconsider := Some (js ''explicit_new_parent'')\<rparr>"
  have f: "?f t = held_task reason now t"
    by (simp add: held_task_def)
  have upd: "update_tasks (\<lambda>x. tk_id x = tk_id t \<and> tk_status x = tk_status t \<and> tk_version x = tk_version t) ?f w =
      (if task_check (?f t) then Inr (1, w\<lparr>tasks := put_row tk_id (?f t) (tasks w)\<rparr>) else Inl Sqlite_check)"
    by (rule update_tasks_row [OF ids t(1), where g = "\<lambda>x. tk_status x = tk_status t \<and> tk_version x = tk_version t"]) simp_all
  obtain e where check: "task_check (held_task reason now t)"
    and w': "w' = w\<lparr>tasks := put_row tk_id (held_task reason now t) (tasks w), taskEvents := taskEvents w @ [e]\<rparr>"
    using hold True unfolding hold_one_def upd f by (auto simp: to_hold_def split: if_splits dest!: task_event_Inr)
  have "put_row tk_id (held_task reason now t) (tasks w) =
      map (\<lambda>x. if x = t \<and> to_hold session t then held_task reason now x else x) (tasks w)"
    using True ids t(1) by (auto simp: put_row_def upd_where_def dest: distinct_key_eq)
  moreover have "plans_but X w'" if "plans_but X w" for X
  proof (rule put_task_plans [OF that t(1) _ check])
    show "task_bound X (purposes w) (held_task reason now t)"
      using that t(1) by (auto simp: plans_but_def task_bound_def split: option.splits)
  qed (simp_all add: w')
  moreover have "plans_later w w'"
    by (rule put_task_later [OF ids t(1) held_task_later [OF t(2)]]) (simp_all add: w')
  ultimately show ?thesis
    by (simp add: holds_done_def w' handoffs_same_def)
qed

lemma hold_rows_done:
  assumes "distinct (map tk_id (tasks w))" "set ts \<subseteq> set (tasks w)" "distinct (map tk_id ts)" "\<forall>t \<in> set ts. unfinished (tk_status t)"
    and "hold_rows fresh k session reason now ts w = Inr w'"
  shows "holds_done (\<lambda>x. x \<in> set ts \<and> to_hold session x) reason now w w'"
  using assms
proof (induction ts arbitrary: k w)
  case Nil
  then show ?case by (simp add: holds_none)
next
  case (Cons t ts)
  obtain w1 where one: "hold_one (fresh k) session reason now t w = Inr w1"
    and rest: "hold_rows fresh (k + 1) session reason now ts w1 = Inr w'"
    using Cons.prems(5) by (auto simp: rbind_eq_Inr)
  have first: "holds_done (\<lambda>x. x = t \<and> to_hold session t) reason now w w1"
    using hold_one_done [OF Cons.prems(1) _ _ one] Cons.prems(2,4) by simp
  have ids: "distinct (map tk_id (tasks w1))"
    using holds_ids [OF first] Cons.prems(1) by simp
  have other: "t \<notin> set ts" "held_task reason now t \<notin> set ts"
    using Cons.prems(3) image_eqI [of "tk_id t" tk_id "held_task reason now t" "set ts"] by auto
  have "set ts \<subseteq> set (tasks w1)"
    using first Cons.prems(2) other by (auto simp: holds_done_def)
  then have IH: "holds_done (\<lambda>x. x \<in> set ts \<and> to_hold session x) reason now w1 w'"
    using Cons.IH [OF ids _ _ _ rest] Cons.prems(3,4) by simp
  have "tasks w' = map (\<lambda>x. if x \<in> set (t # ts) \<and> to_hold session x then held_task reason now x else x) (tasks w)"
    using first IH other by (auto simp: holds_done_def)
  then show ?case
    using first IH plans_later_trans unfolding holds_done_def handoffs_same_def by (elim conjE) (intro conjI; fastforce)
qed

text \<open>A task that works on a purpose: it is open or in progress.\<close>

definition working :: "jstr \<Rightarrow> task_row \<Rightarrow> bool" where
  "working i t \<longleftrightarrow> tk_parent t = Some i \<and> (tk_status t = Ts_open \<or> tk_status t = Ts_in_progress)"

lemma dependents_held:
  assumes plans: "plans_but {i} w" and mine: "\<And>p. p \<in> set (purposes w) \<Longrightarrow> pu_id p = i \<Longrightarrow> pu_session p = session"
    and hold: "holdDependentsForNonActiveParent i session reason now fresh w = Inr w'"
  shows "plans_but {} w' \<and> plans_later w w' \<and> handoffs_same w w' \<and> purposes w' = purposes w \<and>
    (\<forall>t \<in> set (tasks w'). \<not> working i t)"
proof -
  let ?ts = "filter (\<lambda>t. tk_parent t = Some i \<and> unfinished (tk_status t)) (tasks w)"
  have ids: "distinct (map tk_id (tasks w))"
    using plans by (simp add: plans_but_def)
  have some: "set ?ts \<subseteq> set (tasks w)" "\<forall>t \<in> set ?ts. unfinished (tk_status t)"
    by auto
  have held: "holds_done (\<lambda>x. x \<in> set ?ts \<and> to_hold session x) reason now w w'"
    by (rule hold_rows_done [OF ids some(1) distinct_map_filter [OF ids] some(2) hold [unfolded holdDependentsForNonActiveParent_def]])
  have rest: "tasks w' = map (\<lambda>x. if x \<in> set ?ts \<and> to_hold session x then held_task reason now x else x) (tasks w)"
      "purposes w' = purposes w" "plans_but {i} w'" "plans_later w w'" "handoffs_same w w'"
    using held plans unfolding holds_done_def by blast+
  have idle: "\<not> working i t" if t: "t \<in> set (tasks w')" for t
  proof -
    obtain x where x: "x \<in> set (tasks w)" "t = (if x \<in> set ?ts \<and> to_hold session x then held_task reason now x else x)"
      using t unfolding rest(1) by auto
    have bound: "task_bound {i} (purposes w) x"
      using plans x(1) by (simp add: plans_but_def)
    have "tk_session x = session" if "tk_parent x = Some i"
      using bound that mine by (auto simp: task_bound_def)
    show ?thesis
    proof (cases "x \<in> set ?ts \<and> to_hold session x")
      case True
      then show ?thesis
        using x(2) by (simp add: working_def)
    next
      case False
      have "\<not> working i x"
      proof
        assume work: "working i x"
        then have "x \<in> set ?ts" "to_hold session x"
          using \<open>tk_parent x = Some i \<Longrightarrow> tk_session x = session\<close> x(1)
          by (auto simp: working_def to_hold_def unfinished_def)
        then show False
          using False by blast
      qed
      moreover have "t = x"
        using x(2) by (simp only: False if_False)
      ultimately show ?thesis
        by simp
    qed
  qed
  have "task_bound {} (purposes w') t" if t: "t \<in> set (tasks w')" for t
  proof -
    have "task_bound {i} (purposes w') t"
      using rest(3) t by (simp add: plans_but_def)
    then show ?thesis
      using idle [OF t] by (auto simp: task_bound_def working_def split: option.splits)
  qed
  then have "plans_but {} w'"
    using rest(3) by (simp add: plans_but_def)
  then show ?thesis
    using rest(2,4,5) idle by blast
qed

subsection \<open>Ending a purpose\<close>

lemma put_purpose_plans:
  assumes plans: "plans_but {} w" and p: "p \<in> set (purposes w)" and p': "purpose_later p p'"
    and w': "purposes w' = put_row pu_id p' (purposes w)" "tasks w' = tasks w"
  shows "plans_but (if pu_status p' = pu_status p then {} else {pu_id p}) w'"
proof -
  let ?X = "if pu_status p' = pu_status p then {} else {pu_id p}"
  have ids: "distinct (map pu_id (purposes w))" and same: "pu_id p' = pu_id p" "pu_session p' = pu_session p" "pu_scope p' = pu_scope p"
    using plans p' by (simp_all add: plans_but_def purpose_later_def)
  have rows: "set (purposes w') = insert p' (set (purposes w) - {p})"
    unfolding w' using set_put_row [OF ids p same(1)] .
  have "task_bound ?X (purposes w') t" if "t \<in> set (tasks w)" for t
  proof (cases "tk_parent t")
    case None
    then show ?thesis by (simp add: task_bound_def)
  next
    case (Some i)
    have "task_bound {} (purposes w) t"
      using plans that by (simp add: plans_but_def)
    then obtain q where q: "q \<in> set (purposes w)" "pu_id q = i" "pu_session q = tk_session t" "pu_scope q = tk_scope t"
        "tk_status t = Ts_in_progress \<longrightarrow> pu_status q = Pu_active"
      using Some by (auto simp: task_bound_def)
    show ?thesis
    proof (cases "q = p")
      case True
      then show ?thesis
        using q same Some by (auto simp: task_bound_def rows)
    next
      case False
      then have "q \<in> set (purposes w')"
        using q(1) rows by simp
      then show ?thesis
        using q Some by (auto simp: task_bound_def)
    qed
  qed
  then show ?thesis
    using plans ids by (simp add: plans_but_def w')
qed

lemma put_purpose_later:
  assumes "distinct (map pu_id (purposes w))" "p \<in> set (purposes w)" "purpose_later p p'"
    and "purposes w' = put_row pu_id p' (purposes w)" "tasks w' = tasks w" "taskEvents w' = taskEvents w"
    "prefix (purposeEvents w) (purposeEvents w')"
  shows "plans_later w w'"
proof -
  have "pu_id p' = pu_id p"
    using assms(3) by (simp add: purpose_later_def)
  then have "rows_later purpose_later (purposes w) (purposes w')"
    unfolding assms(4) using rows_later_put [OF assms(1,2) _ purpose_later_refl assms(3)] by simp
  then show ?thesis
    using assms(5-7) by (simp add: plans_later_def rows_later_refl)
qed

text \<open>What an end leaves: nothing works on the purpose, and no live handoff is bound to it without a notice.\<close>

definition quiet :: "jstr \<Rightarrow> jstr \<Rightarrow> work \<Rightarrow> bool" where
  "quiet session i w \<longleftrightarrow>
     (\<forall>t \<in> set (tasks w). \<not> working i t) \<and> (\<forall>h \<in> set (handoffs w). \<not> bound_to_parent session i w h)"

lemma quiet_replies [simp]: "quiet session i (w\<lparr>replies := rs\<rparr>) = quiet session i w"
  by (simp add: quiet_def bound_to_parent_def bound_task_def readTask_def cong: option.case_cong)

lemma purpose_ends:
  assumes ok: "work_ok w" and row: "row \<in> set (purposes w)" "pu_session row = session" "pu_status row = Pu_active"
    and f: "purpose_later row (f row)" "pu_status (f row) \<noteq> Pu_active"
    and upd: "update_purposes (\<lambda>p. pu_id p = pu_id row \<and> pu_status p = Pu_active \<and> pu_version p = pu_version row) f w = Inr (n, w1)"
    and app: "appendPurposeEventInTx i (pu_id row) session event from to st now w1 = Inr w2"
    and hold: "holdDependentsForNonActiveParent (pu_id row) session reason now freshHold w2 = Inr w3"
    and flag: "flagHandoffReevaluationInTx session (pu_id row) reason now freshFlag w3 = Inr w4" and now: "unix_ms_ok now"
  shows "work_move w w4 \<and> replies w4 = replies w \<and> purposes w4 = put_row pu_id (f row) (purposes w) \<and> quiet session (pu_id row) w4"
proof -
  have plans: "plans_but {} w" and ids: "distinct (map pu_id (purposes w))"
    using ok by (simp_all add: work_ok_def plans_but_def)
  have id: "pu_id (f row) = pu_id row" "pu_session (f row) = pu_session row"
    using f(1) by (simp_all add: purpose_later_def)
  have w1: "w1 = w\<lparr>purposes := put_row pu_id (f row) (purposes w)\<rparr>"
    using upd row(3) update_purposes_row [OF ids row(1), where g = "\<lambda>p. pu_status p = Pu_active \<and> pu_version p = pu_version row"
        and f = f and q = "\<lambda>p. pu_id p = pu_id row \<and> pu_status p = Pu_active \<and> pu_version p = pu_version row"] id(1)
    by (auto split: if_splits)
  obtain e where w2: "w2 = w1\<lparr>purposeEvents := purposeEvents w @ [e]\<rparr>"
    using purpose_event_Inr [OF app] w1 by auto
  have plans2: "plans_but {pu_id row} w2"
    using put_purpose_plans [OF plans row(1) f(1), of w2] f(2) row(3) by (simp add: w2 w1)
  have later2: "plans_later w w2" and same2: "handoffs_same w w2"
    by (rule put_purpose_later [OF ids row(1) f(1)]) (simp_all add: w2 w1 handoffs_same_def)
  have mine: "pu_session p = session" if "p \<in> set (purposes w2)" "pu_id p = pu_id row" for p
    using that set_put_row [OF ids row(1) id(1)] row(1,2) id ids by (auto simp: w2 w1 dest: distinct_key_eq)
  have held: "plans_but {} w3" "plans_later w2 w3" "handoffs_same w2 w3" "purposes w3 = purposes w2"
      "\<forall>t \<in> set (tasks w3). \<not> working (pu_id row) t"
    using dependents_held [OF plans2 mine hold] by blast+
  have "handoffs_same w w3"
    using same2 held(3) by (simp add: handoffs_same_def)
  then have move3: "work_move w w3" "replies w3 = replies w"
    using plans_move [OF ok _ held(1)] plans_later_trans [OF later2 held(2)] by (auto simp: handoffs_same_def)
  then have ok3: "work_ok w3" "handoffs_ok w3"
    by (simp_all add: work_move_def work_ok_def)
  have flags: "handoffs_step w3 w4" "replies w4 = replies w3" "\<forall>h \<in> set (handoffs w4). \<not> bound_to_parent session (pu_id row) w4 h"
    using reevaluation_flags [OF ok3(2) now flag] by blast+
  have "tasks w4 = tasks w3" "purposes w4 = purposes w3"
    using flags(1) by (simp_all add: handoffs_step_def elsewhere_same_def)
  then show ?thesis
    using work_move_trans [OF move3(1) handoffs_step_move [OF ok3(1) flags(1)]] flags held(4,5) move3(2)
    by (simp add: quiet_def w2 w1)
qed


subsection \<open>The operations on a purpose\<close>

lemma active_row_sel [simp]:
  "pu_id (active_row i session input from until now) = i" "pu_status (active_row i session input from until now) = Pu_active"
  "pu_session (active_row i session input from until now) = session"
  by (simp_all add: active_row_def)

text \<open>A new purpose, with its first event.\<close>

lemma new_purpose_move:
  assumes ok: "work_ok w" and ins: "insert_purpose p w = Inr w1"
    and app: "appendPurposeEventInTx i j session event from to st now w1 = Inr w2"
  shows "work_move w w2 \<and> replies w2 = replies w \<and> purposes w2 = purposes w @ [p] \<and> tasks w2 = tasks w"
proof -
  have w1: "w1 = w\<lparr>purposes := purposes w @ [p]\<rparr>" "pu_id p \<notin> pu_id ` set (purposes w)"
    using insert_purpose_Inr [OF ins] by simp_all
  obtain e where w2: "w2 = w1\<lparr>purposeEvents := purposeEvents w @ [e]\<rparr>"
    using purpose_event_Inr [OF app] w1(1) by auto
  have "task_bound {} (purposes w @ [p]) t" if "task_bound {} (purposes w) t" for t
    using that by (auto simp: task_bound_def split: option.splits)
  then have "plans_but {} w2"
    using ok w1(2) by (auto simp: work_ok_def plans_but_def w2 w1(1))
  moreover have "plans_later w w2" "handoffs_same w w2"
    by (simp_all add: w2 w1(1) plans_later_def rows_later_refl rows_later_append handoffs_same_def)
  ultimately show ?thesis
    using plans_move [OF ok] by (simp add: handoffs_same_def w2 w1(1))
qed

lemma createPurpose_step:
  assumes "work_ok w" "createPurpose H session input from until rule key now bridge fresh w = (out, w')"
  shows "work_move w w'"
proof (cases "w' = w")
  case True
  then show ?thesis
    using work_move_refl [OF assms(1)] by simp
next
  case False
  then obtain w1 w2 rs where tx: "insert_purpose (active_row (fresh 0) session input from until now) w = Inr w1"
      "appendPurposeEventInTx (fresh 1) (fresh 0) session Purpose_created None Pu_active (pi_statement input) now w1 = Inr w2"
      "w' = w2\<lparr>replies := replies w2 @ rs\<rparr>"
    using assms(2) by (auto simp: createPurpose_def request_defs rbind_eq_Inr
        split: if_splits option.splits sum.splits prod.splits dest!: storeReply_Inr)
  then show ?thesis
    using new_purpose_move [OF assms(1) tx(1,2)] work_move_replies by blast
qed

lemma reread_purpose_Inr: "reread_purpose i w = Inr p \<Longrightarrow> readPurpose w i = Some p"
  by (auto simp: reread_purpose_def toPurposeView_def split: option.splits if_splits)

lemma end_purpose_tx_step:
  assumes ok: "work_ok w" and now: "unix_ms_ok now" and row: "row \<in> set (purposes w)" "pu_session row = session"
    and tx: "end_purpose_tx revoke session expected now bridge i freshHold freshFlag row w = Inr (body, w')"
  shows "work_move w w' \<and> replies w' = replies w \<and> quiet session (pu_id row) w' \<and> pu_version row = expected \<and>
    pu_status row = Pu_active \<and> pu_id body = pu_id row \<and> pu_status body = end_status revoke"
proof -
  let ?f = "\<lambda>p. p\<lparr>pu_status := end_status revoke, pu_version := pu_version row + 1, pu_updatedAt := now\<rparr>"
  obtain n w1 w2 w3 where guard: "pu_version row = expected" "pu_status row = Pu_active"
    and upd: "update_purposes (\<lambda>p. pu_id p = pu_id row \<and> pu_status p = Pu_active \<and> pu_version p = pu_version row) ?f w = Inr (n, w1)"
    and app: "appendPurposeEventInTx i (pu_id row) session (if revoke then Purpose_revoked else Purpose_achieved)
       (Some Pu_active) (end_status revoke) (pu_statement row) now w1 = Inr w2"
    and hold: "holdDependentsForNonActiveParent (pu_id row) session (end_reason revoke) now freshHold w2 = Inr w3"
    and flag: "flagHandoffReevaluationInTx session (pu_id row) (end_reason revoke) now freshFlag w3 = Inr w'"
    and body: "reread_purpose (pu_id row) w' = Inr body"
    using tx by (auto simp: end_purpose_tx_def rbind_eq_Inr split: if_splits)
  have f: "purpose_later row (?f row)" "pu_status (?f row) \<noteq> Pu_active"
    using guard by (simp_all add: purpose_later_def end_status_def)
  have ends: "work_move w w'" "replies w' = replies w" "purposes w' = put_row pu_id (?f row) (purposes w)" "quiet session (pu_id row) w'"
    using purpose_ends [OF ok row guard(2) f upd app hold flag now] by blast+
  have "readPurpose w' (pu_id row) = Some (?f row)"
    unfolding readPurpose_def ends(3) find_put_row using row(1) by simp
  then have "body = ?f row"
    using reread_purpose_Inr [OF body] by simp
  then show ?thesis
    using ends guard by simp
qed

text \<open>A request that ends a purpose: answered again, refused, or done.\<close>

lemma transitionPurpose_cases:
  assumes "transitionPurpose H revoke session i expected key now bridge f freshHold freshFlag w = (out, w')"
  shows "(w' = w \<and> (\<forall>status body. out \<noteq> Inr (status, body, False))) \<or>
    (\<exists>row body w1 rs. row \<in> set (purposes w) \<and> pu_id row = i \<and> pu_session row = session \<and> unix_ms_ok now \<and>
       end_purpose_tx revoke session expected now bridge f freshHold freshFlag row w = Inr (body, w1) \<and>
       w' = w1\<lparr>replies := replies w1 @ rs\<rparr> \<and> out = Inr (200, body, False))"
proof (cases out)
  case (Inl e)
  then show ?thesis
    using assms by (auto simp: transitionPurpose_def request_defs split: if_splits option.splits sum.splits prod.splits)
next
  case (Inr r)
  obtain status body found where r: "r = (status, body, found)"
    by (cases r)
  show ?thesis
  proof (cases "w' = w \<and> found")
    case True
    then show ?thesis
      using Inr r by simp
  next
    case False
    then show ?thesis
      using assms Inr r
      by (auto simp: transitionPurpose_def request_defs rbind_eq_Inr replay_def
          split: if_splits option.splits sum.splits prod.splits dest!: assertOwnedPurpose_Inr storeReply_Inr)
  qed
qed

lemma transitionPurpose_step:
  assumes "work_ok w" "transitionPurpose H revoke session i expected key now bridge f freshHold freshFlag w = (out, w')"
  shows "work_move w w'"
  using transitionPurpose_cases [OF assms(2)] work_move_refl [OF assms(1)] end_purpose_tx_step [OF assms(1)] work_move_replies
  by blast

lemma correct_tx_step:
  assumes ok: "work_ok w" and now: "unix_ms_ok now" and row: "old \<in> set (purposes w)" "pu_session old = session"
    and tx: "correct_tx session input from until expected now bridge fresh freshHold freshFlag old w = Inr (body, w')"
  shows "work_move w w' \<and> replies w' = replies w \<and> quiet session (pu_id old) w'"
proof -
  let ?f = "\<lambda>p. p\<lparr>pu_status := Pu_superseded, pu_version := pu_version old + 1, pu_updatedAt := now,
             pu_supersededBy := Some (fresh 0)\<rparr>"
  obtain p w1 w2 n w3 w4 w5 where guard: "pu_status old = Pu_active"
    and new: "insert_purpose p w = Inr w1"
      "appendPurposeEventInTx (fresh 1) (fresh 0) session Purpose_corrected None Pu_active (pi_statement input) now w1 = Inr w2"
    and upd: "update_purposes (\<lambda>p. pu_id p = pu_id old \<and> pu_status p = Pu_active \<and> pu_version p = pu_version old) ?f w2 = Inr (n, w3)"
    and app: "appendPurposeEventInTx (fresh 2) (pu_id old) session Purpose_superseded (Some Pu_active) Pu_superseded
       (pu_statement old) now w3 = Inr w4"
    and hold: "holdDependentsForNonActiveParent (pu_id old) session (js ''purpose_superseded'') now freshHold w4 = Inr w5"
    and flag: "flagHandoffReevaluationInTx session (pu_id old) (js ''purpose_superseded'') now freshFlag w5 = Inr w'"
    using tx by (auto simp: correct_tx_def Let_def rbind_eq_Inr split: if_splits)
  have first: "work_move w w2" "replies w2 = replies w" "purposes w2 = purposes w @ [p]"
    using new_purpose_move [OF ok new] by blast+
  have ok2: "work_ok w2" and old: "old \<in> set (purposes w2)"
    using first row(1) by (simp_all add: work_move_def)
  have f: "purpose_later old (?f old)" "pu_status (?f old) \<noteq> Pu_active"
    using guard by (simp_all add: purpose_later_def)
  have "work_move w2 w'" "replies w' = replies w2" "quiet session (pu_id old) w'"
    using purpose_ends [OF ok2 old row(2) guard f upd app hold flag now] by blast+
  then show ?thesis
    using work_move_trans [OF first(1)] first(2) by simp
qed

lemma correctPurpose_step:
  assumes "work_ok w" "correctPurpose H session i expected input from until rule key now bridge fresh freshHold freshFlag w = (out, w')"
  shows "work_move w w'"
proof (cases "w' = w")
  case True
  then show ?thesis
    using work_move_refl [OF assms(1)] by simp
next
  case False
  then obtain old body w1 rs where tx: "old \<in> set (purposes w)" "pu_session old = session" "unix_ms_ok now"
      "correct_tx session input from until expected now bridge fresh freshHold freshFlag old w = Inr (body, w1)"
      "w' = w1\<lparr>replies := replies w1 @ rs\<rparr>"
    using assms(2) by (auto simp: correctPurpose_def request_defs rbind_eq_Inr
        split: if_splits option.splits sum.splits prod.splits dest!: assertOwnedPurpose_Inr storeReply_Inr)
  then show ?thesis
    using correct_tx_step [OF assms(1) tx(3,1,2,4)] work_move_replies by blast
qed

lemma confirm_tx_step:
  assumes ok: "work_ok w" and row: "row \<in> set (purposes w)"
    and tx: "confirm_tx session expected now bridge i row w = Inr (body, w')"
  shows "work_move w w' \<and> replies w' = replies w"
proof (cases "pu_explicit row")
  case True
  then have "w' = w"
    using tx by (auto simp: confirm_tx_def rbind_eq_Inr split: if_splits)
  then show ?thesis
    using work_move_refl [OF ok] by simp
next
  case False
  let ?f = "\<lambda>p. p\<lparr>pu_explicit := True, pu_source := By_user, pu_confirmedFrom := Some (js ''conversation_proposal''),
                   pu_confirmedAt := Some now, pu_version := pu_version row + 1, pu_updatedAt := now\<rparr>"
  let ?g = "\<lambda>p. pu_status p = Pu_active \<and> \<not> pu_explicit p \<and> pu_version p = pu_version row"
  have plans: "plans_but {} w" and ids: "distinct (map pu_id (purposes w))"
    using ok by (simp_all add: work_ok_def plans_but_def)
  obtain n w1 where guard: "pu_status row = Pu_active"
    and upd: "update_purposes (\<lambda>p. pu_id p = pu_id row \<and> ?g p) ?f w = Inr (n, w1)"
    and app: "appendPurposeEventInTx i (pu_id row) session Purpose_corrected (Some Pu_active) Pu_active (pu_statement row) now w1 = Inr w'"
    using tx False by (auto simp: confirm_tx_def rbind_eq_Inr split: if_splits)
  have w1: "w1 = w\<lparr>purposes := put_row pu_id (?f row) (purposes w)\<rparr>"
    using upd guard False update_purposes_row [OF ids row, where g = ?g and f = ?f and q = "\<lambda>p. pu_id p = pu_id row \<and> ?g p"]
    by (auto split: if_splits)
  obtain e where w': "w' = w1\<lparr>purposeEvents := purposeEvents w @ [e]\<rparr>"
    using purpose_event_Inr [OF app] w1 by auto
  have later: "purpose_later row (?f row)"
    using guard by (simp add: purpose_later_def)
  have "plans_but {} w'"
    using put_purpose_plans [OF plans row later, of w'] by (simp add: w' w1)
  moreover have "plans_later w w'"
    by (rule put_purpose_later [OF ids row later]) (simp_all add: w' w1)
  moreover have "handoffs_same w w'"
    by (simp add: handoffs_same_def w' w1)
  ultimately show ?thesis
    using plans_move [OF ok] by (simp add: handoffs_same_def)
qed

lemma confirmPurpose_step:
  assumes "work_ok w" "confirmPurpose H session i expected key now bridge f w = (out, w')"
  shows "work_move w w'"
proof (cases "w' = w")
  case True
  then show ?thesis
    using work_move_refl [OF assms(1)] by simp
next
  case False
  then obtain row body w1 rs where tx: "row \<in> set (purposes w)" "confirm_tx session expected now bridge f row w = Inr (body, w1)"
      "w' = w1\<lparr>replies := replies w1 @ rs\<rparr>"
    using assms(2) by (auto simp: confirmPurpose_def request_defs rbind_eq_Inr
        split: if_splits option.splits sum.splits prod.splits dest!: assertOwnedPurpose_Inr storeReply_Inr)
  then show ?thesis
    using confirm_tx_step [OF assms(1) tx(1,2)] work_move_replies by blast
qed

end
