(* ===== verification/Work_System.thy ===== *)
theory Work_System
  imports Purpose_Steps Transition
begin

text \<open>
  Purposes, tasks and handoffs as one transition system: every request of the two services, in any order and with any
  arguments, and any change of the kernel's own tables.
\<close>

subsection \<open>The requests on a handoff\<close>

text \<open>Any request that changes the handoff \<open>i\<close> of a session, at the version \<open>v\<close> that its client expects.\<close>

inductive handoff_request ::
  "(jstr \<Rightarrow> jstr) \<Rightarrow> jstr \<Rightarrow> jstr \<Rightarrow> int \<Rightarrow> work \<Rightarrow> kerr + int \<times> handoff_row \<times> bool \<Rightarrow> work \<Rightarrow> bool" for H :: "jstr \<Rightarrow> jstr" where
  dispatch: "dispatchHandoff H s i v ext key now f w = (out, w') \<Longrightarrow> handoff_request H s i v w out w'"
| report: "reportHandoff H s i v env summary key now f w = (out, w') \<Longrightarrow> handoff_request H s i v w out w'"
| verify: "verifyHandoff H s i v results key now f w = (out, w') \<Longrightarrow> handoff_request H s i v w out w'"
| fail: "failHandoff H s i v key now f w = (out, w') \<Longrightarrow> handoff_request H s i v w out w'"
| cancel: "cancelHandoff H s i v key now f w = (out, w') \<Longrightarrow> handoff_request H s i v w out w'"
| abnormal_exit: "abnormalExitHandoff H s i v key now f w = (out, w') \<Longrightarrow> handoff_request H s i v w out w'"
| attempt: "recordHandoffAttempt H s i v cause key now fresh w = (out, w') \<Longrightarrow> handoff_request H s i v w out w'"
| reaffirm: "reaffirmHandoff H s i v key now fresh w = (out, w') \<Longrightarrow> handoff_request H s i v w out w'"

definition not_new :: "kerr + int \<times> 'v \<times> bool \<Rightarrow> bool" where
  "not_new out \<longleftrightarrow> (case out of Inl _ \<Rightarrow> True | Inr (_, _, stored) \<Rightarrow> stored)"

lemma not_new_iff: "not_new out \<longleftrightarrow> (\<forall>status body. out \<noteq> Inr (status, body, False))"
  by (auto simp: not_new_def split: sum.splits)

text \<open>Such a request answers again, refuses, or moves the row that its client expects.\<close>

definition request_done ::
  "jstr \<Rightarrow> jstr \<Rightarrow> int \<Rightarrow> work \<Rightarrow> kerr + int \<times> handoff_row \<times> bool \<Rightarrow> work \<Rightarrow> bool" where
  "request_done s i v w out w' \<longleftrightarrow>
     w' = w \<and> not_new out \<or>
     (\<exists>row body w1 rs es. row \<in> set (handoffs w) \<and> ho_id row = i \<and> ho_session row = s \<and> ho_version row = v \<and>
        op_moved row body es w w1 \<and> w' = w1\<lparr>replies := replies w1 @ rs\<rparr> \<and> out = Inr (200, body, False))"

lemma mutateHandoff_done:
  assumes "mutateHandoff H option operation s i v key now hashInput apply w = (out, w')"
    and "\<And>row body w1. row \<in> set (handoffs w) \<Longrightarrow> apply row w = Inr (body, w1) \<Longrightarrow> \<exists>es. op_moved row body es w w1"
  shows "request_done s i v w out w'"
  using mutateHandoff_cases [OF assms(1)] assms(2) unfolding request_done_def not_new_iff by blast

lemma moved_operations:
  assumes "rows_ok w" "row \<in> set (handoffs w)"
  shows "dispatch_tx ext now f row w = Inr (body, w1) \<Longrightarrow> \<exists>es. op_moved row body es w w1"
    and "report_tx env summary now f row w = Inr (body, w1) \<Longrightarrow> \<exists>es. op_moved row body es w w1"
    and "verify_tx results now f row w = Inr (body, w1) \<Longrightarrow> \<exists>es. op_moved row body es w w1"
    and "fail_handoff_tx now f row w = Inr (body, w1) \<Longrightarrow> \<exists>es. op_moved row body es w w1"
    and "cancel_handoff_tx now f row w = Inr (body, w1) \<Longrightarrow> \<exists>es. op_moved row body es w w1"
    and "abnormal_exit_tx now f row w = Inr (body, w1) \<Longrightarrow> \<exists>es. op_moved row body es w w1"
    and "attempt_tx cause now fresh row w = Inr (body, w1) \<Longrightarrow> \<exists>es. op_moved row body es w w1"
    and "reaffirm_tx s now fresh row w = Inr (body, w1) \<Longrightarrow> \<exists>es. op_moved row body es w w1"
  by (blast dest: dispatch_moved [OF assms] report_moved [OF assms] verify_moved [OF assms] fail_moved [OF assms]
      cancel_moved [OF assms] abnormal_moved [OF assms] attempt_moved [OF assms] reaffirm_moved [OF assms])+

lemma handoff_request_done:
  assumes ok: "rows_ok w" and req: "handoff_request H s i v w out w'"
  shows "request_done s i v w out w'"
  using req ok
  by (cases rule: handoff_request.cases)
    (unfold dispatchHandoff_def reportHandoff_def verifyHandoff_def failHandoff_def cancelHandoff_def abnormalExitHandoff_def
      recordHandoffAttempt_def reaffirmHandoff_def, (erule mutateHandoff_done, erule (2) moved_operations)+)

lemma handoff_request_step:
  assumes ok: "handoffs_ok w" and req: "handoff_request H s i v w out w'"
  shows "handoffs_step w w'"
proof -
  have "request_done s i v w out w'"
    using handoff_request_done ok req by (simp add: handoffs_ok_def)
  then show ?thesis
    using handoffs_step_refl [OF ok] op_moved_step [OF ok] handoffs_step_replies unfolding request_done_def by blast
qed

lemmas plan_request_steps =
  createPurpose_step correctPurpose_step transitionPurpose_step confirmPurpose_step createTask_step transitionTask_step
  holdTask_step resumeTask_step

subsection \<open>The system\<close>

definition work_start :: "work \<Rightarrow> bool" where
  "work_start w \<longleftrightarrow>
     purposes w = [] \<and> purposeEvents w = [] \<and> tasks w = [] \<and> taskEvents w = [] \<and> handoffs w = [] \<and> attempts w = [] \<and>
     handoffEvents w = [] \<and> replies w = []"

inductive work_step :: "(jstr \<Rightarrow> jstr) \<Rightarrow> work \<Rightarrow> work \<Rightarrow> bool" for H :: "jstr \<Rightarrow> jstr" where
  kernel: "work_step H w (w\<lparr>kernel_db := db\<rparr>)"
| create_purpose: "createPurpose H s input from' until' rule key now bridge fresh w = (po, w') \<Longrightarrow> work_step H w w'"
| correct_purpose: "correctPurpose H s i v input from' until' rule key now bridge fresh fh ff w = (co, w') \<Longrightarrow> work_step H w w'"
| end_purpose: "transitionPurpose H revoke s i v key now bridge f fh ff w = (po, w') \<Longrightarrow> work_step H w w'"
| confirm_purpose: "confirmPurpose H s i v key now bridge f w = (po, w') \<Longrightarrow> work_step H w w'"
| create_task: "createTask H s tin key now bridge fresh w = (to', w') \<Longrightarrow> work_step H w w'"
| move_task: "transitionTask H m s i v key now bridge f w = (to', w') \<Longrightarrow> work_step H w w'"
| hold_task: "holdTask H s i v reason trigger key now bridge f w = (to', w') \<Longrightarrow> work_step H w w'"
| resume_task: "resumeTask H s i v kind words p key now bridge f ff w = (to', w') \<Longrightarrow> work_step H w w'"
| create_handoff: "createHandoff H s hin key now fresh w = (ho, w') \<Longrightarrow> work_step H w w'"
| handoff: "handoff_request H s i v w ho w' \<Longrightarrow> work_step H w w'"

abbreviation work_run :: "(jstr \<Rightarrow> jstr) \<Rightarrow> work \<Rightarrow> work \<Rightarrow> bool" where
  "work_run H \<equiv> (work_step H)\<^sup>*\<^sup>*"

lemma kernel_move: "work_ok w \<Longrightarrow> work_move w (w\<lparr>kernel_db := db\<rparr>)"
  using plans_but_same [of "w\<lparr>kernel_db := db\<rparr>" w "{}"]
  by (intro plans_move) (simp_all add: handoffs_same_def work_ok_def plans_later_def rows_later_refl)

lemma handoff_request_move: "work_ok w \<Longrightarrow> (handoffs_ok w \<Longrightarrow> handoffs_step w w') \<Longrightarrow> work_move w w'"
  using handoffs_step_move by (simp add: work_ok_def)

lemma work_step_move: "work_step H w w' \<Longrightarrow> work_ok w \<Longrightarrow> work_move w w'"
  by (induction rule: work_step.induct)
    (erule kernel_move | erule plan_request_steps, assumption
     | rule handoff_request_move, assumption, erule createHandoff_step handoff_request_step, assumption)+

lemma work_start_ok: "work_start w \<Longrightarrow> work_ok w"
  by (simp add: work_start_def work_ok_def plans_but_def handoffs_ok_def rows_ok_def links_ok_def)

interpretation work_system: transition_system work_start "work_step H" work_ok work_later for H :: "jstr \<Rightarrow> jstr"
proof unfold_locales
  show "work_ok w" if "work_start w" for w
    using that by (rule work_start_ok)
  show "work_ok w'" "work_later w w'" if "work_ok w" "work_step H w w'" for w w'
    using work_step_move [OF that(2,1)] by (simp_all add: work_move_def)
  show "work_later w u" if "work_later w w'" "work_later w' u" for w w' u
    using that by (rule work_later_trans)
qed simp

end
