(* ===== verification/Work_Scenario.thy ===== *)
theory Work_Scenario
  imports Work_System "HOL-Library.Code_Target_Nat" "HOL-Library.Code_Target_Int"
begin

text \<open>
  A concrete history: a purpose with a task in progress, a handoff that is dispatched, reported and verified, its
  successor, the revocation of the purpose, and the reaffirmation and dispatch of the successor.
\<close>

definition wid :: "nat \<Rightarrow> jstr" where
  "wid n = [48, 48, 48, 48, 48, 48, 48 + n div 10, 48 + n mod 10, 45, 48, 48, 48, 48, 45, 52, 48, 48, 48, 45, 56, 48, 48, 48, 45, 48, 48, 48, 48, 48, 48, 48, 48, 48, 48, 48, 48]"

definition wids :: "nat \<Rightarrow> nat \<Rightarrow> jstr" where
  "wids n k = wid (n + k)"

text \<open>A digest that does not look at the request, so that its evaluation does not either.\<close>

definition hash0 :: jstr where
  "hash0 = js ''h''"

definition work_H :: "jstr \<Rightarrow> jstr" where
  "work_H t = hash0"

lemma work_hash [simp]: "requestHash work_H (js (c # operation)) (Suc 0) (JObj ms) = Some hash0"
  by (simp add: requestHash_def canonicalJson_def work_H_def js_Cons)

lemma wid_ok [simp]:
  "isUuidV4 (wid 9)" "isUuidV4 (wid 2)" "isUuidV4 (wid 3)" "isUuidV4 (wid 10)" "isUuidV4 (wid 20)" "isUuidV4 (wid 30)" "isUuidV4 (wid 40)"
  by code_simp+

lemma times_ok [simp]: "unix_ms_ok 100" "unix_ms_ok 110" "unix_ms_ok 120" "unix_ms_ok 130" "unix_ms_ok 140" "unix_ms_ok 150"
    "unix_ms_ok 160" "unix_ms_ok 170" "unix_ms_ok 180" "unix_ms_ok 190" "unix_ms_ok 200"
  by (simp_all add: unix_ms_ok_def MAX_SAFE_INTEGER_def)

definition work_kernel :: db where
  "work_kernel = \<lparr>sessions = [\<lparr>s_id = wid 9, s_createdAt = 0, s_lastActiveAt = 0, s_nextTurnPosition = 1\<rparr>], contexts = [],
     turns = [], runs = [], selections = [], events = [], idem = [], activity = [], proposals = [], executions = [],
     grants = [], receipts = [], targets = [], connectors = [], user_version = 40\<rparr>"

definition aim :: purpose_input where
  "aim = \<lparr>pi_scope = js ''work'', pi_statement = js ''ship it'', pi_kind = Pk_goal, pi_explicit = True, pi_source = By_user,
     pi_sourceTurn = None, pi_interpretation = None\<rparr>"

definition chore :: task_input where
  "chore = \<lparr>ti_scope = js ''work'', ti_title = js ''write docs'', ti_body = None, ti_kind = Tk_task, ti_speaker = By_user,
     ti_deadline = None, ti_parent = Some (wid 10)\<rparr>"

definition errand :: "jstr option \<Rightarrow> handoff_input" where
  "errand old = \<lparr>hi_task = wid 20, hi_target = js ''worker'', hi_criteria = [js ''builds'', js ''reads well''],
     hi_opScope = Implement, hi_budget = None, hi_boundaries = [Payment], hi_supersedes = old\<rparr>"

definition proof_of :: "int \<Rightarrow> verify_result" where
  "proof_of i = \<lparr>vr_index = i, vr_pass = True, vr_evidence = js ''log''\<rparr>"

definition wk0 :: work where
  "wk0 = \<lparr>kernel_db = work_kernel, purposes = [], purposeEvents = [], tasks = [], taskEvents = [], handoffs = [], attempts = [],
     handoffEvents = [], replies = []\<rparr>"

definition purposed :: "(kerr + int \<times> purpose_row \<times> bool) \<times> work" where
  "purposed = create_purpose_transaction (wid 9) aim None None (wid 2) 100 None hash0 (wids 10) wk0"

definition wk1 :: work where
  "wk1 = snd purposed"

definition wk2 :: work where
  "wk2 = snd (create_task_transaction (wid 9) chore (wid 2) 110 None hash0 (wids 20) wk1)"

definition wk3 :: work where
  "wk3 = snd (task_transaction ''start'' (wid 9) (wid 20) 1 (wid 2) 120 hash0 (move_tx Move_start 1 120 None (wid 22)) wk2)"

definition wk4 :: work where
  "wk4 = snd (create_handoff_transaction (wid 9) (errand None) (wid 2) 130 hash0 (wids 30) wk3)"

definition first_dispatch :: "(kerr + int \<times> handoff_row \<times> bool) \<times> work" where
  "first_dispatch = handoff_transaction ''dispatchHandoff'' (wid 9) (wid 30) 1 (wid 2) 140 hash0 (dispatch_tx None 140 (wid 34)) wk4"

definition wk5 :: work where
  "wk5 = snd first_dispatch"

definition wk6 :: work where
  "wk6 = snd (handoff_transaction ''reportHandoff'' (wid 9) (wid 30) 2 (wid 2) 150 hash0
     (report_tx Sandbox (js ''done'') 150 (wid 35)) wk5)"

definition wk7 :: work where
  "wk7 = snd (handoff_transaction ''verifyHandoff'' (wid 9) (wid 30) 3 (wid 2) 160 hash0
     (verify_tx [proof_of 0, proof_of 1] 160 (wid 36)) wk6)"

definition wk8 :: work where
  "wk8 = snd (create_handoff_transaction (wid 9) (errand (Some (wid 30))) (wid 3) 170 hash0 (wids 40) wk7)"

definition revocation :: "(kerr + int \<times> purpose_row \<times> bool) \<times> work" where
  "revocation = end_transaction True (wid 9) (wid 10) 1 (wid 2) 180 None hash0 (wid 50) (wids 51) (wids 60) wk8"

definition wk9 :: work where
  "wk9 = snd revocation"

definition wk10 :: work where
  "wk10 = snd (handoff_transaction ''reaffirmHandoff'' (wid 9) (wid 40) 2 (wid 2) 190 hash0 (reaffirm_tx (wid 9) 190 (wids 70)) wk9)"

definition second_dispatch :: "(kerr + int \<times> handoff_row \<times> bool) \<times> work" where
  "second_dispatch = handoff_transaction ''dispatchHandoff'' (wid 9) (wid 40) 3 (wid 3) 200 hash0 (dispatch_tx None 200 (wid 80)) wk10"

definition wk11 :: work where
  "wk11 = snd second_dispatch"


subsection \<open>The steps\<close>

lemmas request_simps =
  createPurpose_def createTask_def transitionTask_def mutate_task_def createHandoff_def mutateHandoff_def dispatchHandoff_def
  reportHandoff_def verifyHandoff_def reaffirmHandoff_def transitionPurpose_def task_payload_def handoff_payload_def

lemma outcome: "f = r \<Longrightarrow> w' = snd r \<Longrightarrow> f = (fst r, w')"
  by simp

lemma work_step1: "work_step work_H wk0 wk1"
  by (rule work_step.create_purpose [where s = "wid 9" and input = aim and from' = None and until' = None and rule = None
        and key = "wid 2" and now = 100 and bridge = None and fresh = "wids 10", OF outcome [OF _ wk1_def]])
    (simp add: request_simps purposed_def)

lemma work_step2: "work_step work_H wk1 wk2"
  by (rule work_step.create_task [where s = "wid 9" and tin = chore and key = "wid 2" and now = 110 and bridge = None
        and fresh = "wids 20", OF outcome [OF _ wk2_def]]) (simp add: request_simps)

lemma work_step3: "work_step work_H wk2 wk3"
  by (rule work_step.move_task [where m = Move_start and s = "wid 9" and i = "wid 20" and v = 1 and key = "wid 2" and now = 120
        and bridge = None and f = "wid 22", OF outcome [OF _ wk3_def]]) (simp add: request_simps)

lemma work_step4: "work_step work_H wk3 wk4"
  by (rule work_step.create_handoff [where s = "wid 9" and hin = "errand None" and key = "wid 2" and now = 130
        and fresh = "wids 30", OF outcome [OF _ wk4_def]]) (simp add: request_simps)

lemma first_dispatch_is: "dispatchHandoff work_H (wid 9) (wid 30) 1 None (wid 2) 140 (wid 34) wk4 = (fst first_dispatch, wk5)"
  by (rule outcome [OF _ wk5_def]) (simp add: request_simps first_dispatch_def)

lemma work_step5: "work_step work_H wk4 wk5"
  by (rule work_step.handoff [OF handoff_request.dispatch [OF first_dispatch_is]])

lemma work_step6: "work_step work_H wk5 wk6"
  by (rule work_step.handoff [OF handoff_request.report [where s = "wid 9" and i = "wid 30" and v = 2 and env = Sandbox
        and summary = "js ''done''" and key = "wid 2" and now = 150 and f = "wid 35", OF outcome [OF _ wk6_def]]])
    (simp add: request_simps)

lemma work_step7: "work_step work_H wk6 wk7"
  by (rule work_step.handoff [OF handoff_request.verify [where s = "wid 9" and i = "wid 30" and v = 3
        and results = "[proof_of 0, proof_of 1]" and key = "wid 2" and now = 160 and f = "wid 36", OF outcome [OF _ wk7_def]]])
    (simp add: request_simps)

lemma work_step8: "work_step work_H wk7 wk8"
  by (rule work_step.create_handoff [where s = "wid 9" and hin = "errand (Some (wid 30))" and key = "wid 3" and now = 170
        and fresh = "wids 40", OF outcome [OF _ wk8_def]]) (simp add: request_simps)

lemma revocation_is:
  "transitionPurpose work_H True (wid 9) (wid 10) 1 (wid 2) 180 None (wid 50) (wids 51) (wids 60) wk8 = (fst revocation, wk9)"
  by (rule outcome [OF _ wk9_def]) (simp add: request_simps revocation_def)

lemma work_step9: "work_step work_H wk8 wk9"
  by (rule work_step.end_purpose [OF revocation_is])

lemma work_step10: "work_step work_H wk9 wk10"
  by (rule work_step.handoff [OF handoff_request.reaffirm [where s = "wid 9" and i = "wid 40" and v = 2 and key = "wid 2"
        and now = 190 and fresh = "wids 70", OF outcome [OF _ wk10_def]]]) (simp add: request_simps)

lemma second_dispatch_is: "dispatchHandoff work_H (wid 9) (wid 40) 3 None (wid 3) 200 (wid 80) wk10 = (fst second_dispatch, wk11)"
  by (rule outcome [OF _ wk11_def]) (simp add: request_simps second_dispatch_def)

lemma wk_start: "work_start wk0"
  by (simp add: work_start_def wk0_def)

lemma three_steps: "R a b \<Longrightarrow> R b c \<Longrightarrow> R c d \<Longrightarrow> R\<^sup>*\<^sup>* a d"
  by (blast intro: rtranclp.rtrancl_into_rtrancl)

lemma wk_run3: "work_run work_H wk0 wk3"
  by (rule three_steps [where R = "work_step work_H", OF work_step1 work_step2 work_step3])

lemma wk_run4: "work_run work_H wk0 wk4"
  using wk_run3 work_step4 by (rule rtranclp.rtrancl_into_rtrancl)

lemma wk_run5_8: "work_run work_H wk5 wk8"
  by (rule three_steps [where R = "work_step work_H", OF work_step6 work_step7 work_step8])

lemma wk_run4_8: "work_run work_H wk4 wk8"
  using work_step5 wk_run5_8 by (rule converse_rtranclp_into_rtranclp)

lemma wk_run8: "work_run work_H wk0 wk8"
  using wk_run4 wk_run4_8 by (rule rtranclp_trans)

lemma wk_run9: "work_run work_H wk0 wk9"
  using wk_run8 work_step9 by (rule rtranclp.rtrancl_into_rtrancl)

text \<open>What the states hold.\<close>

lemma wk3_shape: "map (\<lambda>t. (tk_parent t, tk_status t)) (tasks wk3) = [(Some (wid 10), Ts_in_progress)]"
  by code_simp

lemma wk4_shape: "map ho_version (handoffs wk4) = [1]" "map ho_id (handoffs wk4) = [wid 30]" "map ho_session (handoffs wk4) = [wid 9]"
  by code_simp+

lemma wk5_shape: "case fst first_dispatch of Inl _ \<Rightarrow> False | Inr (_, _, stored) \<Rightarrow> \<not> stored"
  by code_simp

lemma wk8_shape: "map (\<lambda>h. (ho_id h, ho_status h, ho_supersedes h)) (handoffs wk8) =
    [(wid 30, Ho_verified, None), (wid 40, Ho_prepared, Some (wid 30))]"
  by code_simp

lemma wk9_shape: "map (\<lambda>h. (ho_id h, ho_notice h)) (handoffs wk9) = [(wid 30, False), (wid 40, True)]"
  by code_simp

lemma wk9_events: "length (handoffEvents wk9) = 7"
  by code_simp

lemma revoked: "case fst revocation of Inl _ \<Rightarrow> False | Inr (_, _, stored) \<Rightarrow> \<not> stored"
  by code_simp

lemma dispatched_again: "case fst second_dispatch of Inl _ \<Rightarrow> False | Inr (_, _, stored) \<Rightarrow> \<not> stored"
  by code_simp

lemma wk10_events: "map he_event (drop 7 (handoffEvents wk10)) = [He_reaffirmed, He_cleared]"
  by code_simp

end
