(* ===== verification/Work_Claims.thy ===== *)
theory Work_Claims
  imports Work_Scenario
begin

text \<open>The properties of handoffs, purposes and tasks, over the reachable states of their transition system.\<close>

subsection \<open>What the invariant says of a state\<close>

lemma reached_work: "work_start w0 \<Longrightarrow> work_run H w0 w \<Longrightarrow> work_ok w"
  by (rule work_system.reachable_inv)

lemma later_work: "work_ok w \<Longrightarrow> work_run H w w' \<Longrightarrow> work_later w w'"
  by (rule work_system.run_rel)

lemma kept_work: "work_ok w \<Longrightarrow> work_run H w w' \<Longrightarrow> work_ok w'"
  by (rule work_system.run_inv)

lemma reached_rows: "work_ok w \<Longrightarrow> rows_ok w"
  by (simp add: work_ok_def handoffs_ok_def)

lemma reached_row: "work_ok w \<Longrightarrow> h \<in> set (handoffs w) \<Longrightarrow> row_good w h"
  by (simp add: work_ok_def handoffs_ok_def rows_ok_def)

lemma same_handoff: "work_ok w \<Longrightarrow> g \<in> set (handoffs w) \<Longrightarrow> h \<in> set (handoffs w) \<Longrightarrow> ho_id g = ho_id h \<Longrightarrow> g = h"
  unfolding work_ok_def handoffs_ok_def rows_ok_def by (metis distinct_key_eq)

text \<open>The only row of a table whose keys are known.\<close>

lemma row_of_map: "map f xs = ys \<Longrightarrow> y \<in> set ys \<Longrightarrow> \<exists>x \<in> set xs. f x = y"
  by auto

subsection \<open>The journal\<close>

text \<open>C16. In every reachable state the journal of a handoff, numbered from one without a gap, is a run of the lifecycle
  machine that ends in exactly what the row stores: its status, its notice, its number of attempts and whether it is
  superseded. Its attempts are numbered from one to that number.\<close>

theorem handoff_journal_is_a_run:
  assumes "work_start w0" "work_run H w0 w" "h \<in> set (handoffs w)"
  shows "handoff_replay (handoffJournal w (ho_id h)) = Some (handoff_abs h) \<and>
    map he_seq (handoffJournal w (ho_id h)) = [1..<length (handoffJournal w (ho_id h)) + 1] \<and>
    map at_no (filter (\<lambda>a. at_handoff a = ho_id h) (attempts w)) = [1..<ho_attempt h + 1]"
  using reached_row [OF reached_work [OF assms(1,2)] assms(3)]
  by (simp add: row_good_def journal_good_def attemptNumbers_def)

theorem handoff_journal_is_a_run_witness:
  "\<exists>h. handoff_replay (handoffJournal wk8 (wid 30)) = Some (handoff_abs h) \<and> ho_status h = Ho_verified \<and>
    map he_seq (handoffJournal wk8 (wid 30)) = [1..<length (handoffJournal wk8 (wid 30)) + 1]"
proof -
  obtain h where "h \<in> set (handoffs wk8)" "ho_id h = wid 30" "ho_status h = Ho_verified"
    using row_of_map [OF wk8_shape, of "(wid 30, Ho_verified, None)"] by auto
  then show ?thesis
    using handoff_journal_is_a_run [OF wk_start wk_run8, of h] by auto
qed

subsection \<open>Verification\<close>

text \<open>The events that a status rests on.\<close>

fun milestones :: "handoff_status \<Rightarrow> handoff_change list" where
  "milestones Ho_dispatched = [He_dispatched]"
| "milestones Ho_reported = [He_dispatched, He_reported]"
| "milestones Ho_verified = [He_dispatched, He_reported, He_verified]"
| "milestones s = []"

lemma replay_snoc: "es \<noteq> [] \<Longrightarrow> handoff_replay (es @ [e]) = spec_follow (handoff_replay es) e"
  by (cases es) (simp_all add: handoff_replay_def spec_follow_def)

lemma event_milestones:
  assumes "spec_event e s = Some t" "subseq (milestones (hs_status s)) es"
  shows "subseq (milestones (hs_status t)) (es @ [e])"
proof (cases "hs_status t = hs_status s \<or> milestones (hs_status t) = []")
  case True
  then show ?thesis
    using assms(2) by (auto intro: list_emb_prefix)
next
  case False
  have grow: "subseq (xs @ [e]) (es @ [e])" if "subseq xs es" for xs
    using that by (simp add: list_emb_append_mono)
  have "milestones (hs_status t) = milestones (hs_status s) @ [e] \<or> milestones (hs_status t) = [] @ [e]"
    using False assms(1) by (cases e) (auto split: if_splits simp: open_status_def live_status_def)
  then show ?thesis
    using grow [OF assms(2)] grow [OF list_emb_Nil] by metis
qed

lemma replay_milestones: "handoff_replay es = Some s \<Longrightarrow> subseq (milestones (hs_status s)) (map he_event es)"
proof (induction es arbitrary: s rule: rev_induct)
  case Nil
  then show ?case by (simp add: handoff_replay_def)
next
  case (snoc e es)
  show ?case
  proof (cases "es = []")
    case True
    then show ?thesis
      using snoc.prems by (auto simp: handoff_replay_def spec_start_def split: if_splits)
  next
    case False
    then obtain s0 where s0: "handoff_replay es = Some s0" "spec_event (he_event e) s0 = Some s"
      using snoc.prems by (auto simp: replay_snoc spec_follow_def split: option.splits if_splits)
    show ?thesis
      using event_milestones [OF s0(2) snoc.IH [OF s0(1)]] by simp
  qed
qed

text \<open>C17. A handoff is only ever verified when every frozen acceptance criterion was answered exactly once, as passed and
  with evidence, after a report that names its environment; its journal shows the dispatch, the report and the
  verification in this order.\<close>

theorem verified_means_proved:
  assumes "work_start w0" "work_run H w0 w" "h \<in> set (handoffs w)" "ho_status h = Ho_verified"
  shows "(\<exists>rs. ho_results h = Some rs \<and> proves_all (length (ho_criteria h)) rs) \<and> ho_environment h \<noteq> None \<and> ho_summary h \<noteq> None \<and>
    subseq [He_dispatched, He_reported, He_verified] (map he_event (handoffJournal w (ho_id h)))"
proof -
  have good: "row_good w h"
    using reached_row [OF reached_work [OF assms(1,2)] assms(3)] .
  then have "subseq (milestones (ho_status h)) (map he_event (handoffJournal w (ho_id h)))"
    using replay_milestones [of "handoffJournal w (ho_id h)" "handoff_abs h"] by (simp add: row_good_def journal_good_def)
  then show ?thesis
    using good assms(4) by (simp add: row_good_def reported_ok_def)
qed

theorem verified_means_proved_witness:
  "\<exists>h \<in> set (handoffs wk8). ho_status h = Ho_verified \<and> (\<exists>rs. ho_results h = Some rs \<and> proves_all (length (ho_criteria h)) rs)"
proof -
  obtain h where "h \<in> set (handoffs wk8)" "ho_status h = Ho_verified"
    using row_of_map [OF wk8_shape, of "(wid 30, Ho_verified, None)"] by auto
  then show ?thesis
    using verified_means_proved [OF wk_start wk_run8, of h] by auto
qed

subsection \<open>What stays\<close>

text \<open>C21. A handoff is never deleted, and what was frozen at its creation never changes: task, session, target,
  criteria, scope, budget, boundaries and the record it supersedes. Its version only grows, and grows with every change. Verified
  and cancelled are final, and so are the results of a verification; a journal entry is never rewritten.\<close>

theorem handoff_is_frozen:
  assumes "work_start w0" "work_run H w0 w" "work_run H w w'" "h \<in> set (handoffs w)"
  shows "(\<exists>h' \<in> set (handoffs w'). handoff_later h h') \<and> prefix (handoffEvents w) (handoffEvents w')"
  using later_work [OF reached_work [OF assms(1,2)] assms(3)] handoffs_later_row [of w w' h] assms(4)
  by (simp add: work_later_def handoffs_later_def)

theorem handoff_is_frozen_witness:
  "\<exists>h \<in> set (handoffs wk4). \<exists>h' \<in> set (handoffs wk8). handoff_later h h' \<and> ho_version h = 1"
proof -
  obtain h where "h \<in> set (handoffs wk4)" "ho_version h = 1"
    using row_of_map [OF wk4_shape(1), of 1] by auto
  then show ?thesis
    using handoff_is_frozen [OF wk_start wk_run4 wk_run4_8, of h] by blast
qed

text \<open>C22. Supersession is mutual and never forks: a handoff that supersedes another one names a record of the same task
  and session that names it back, a superseded record names its successor, and no two handoffs supersede the same one.\<close>

theorem supersession_is_a_chain:
  assumes "work_start w0" "work_run H w0 w"
  shows "links_ok (handoffs w) \<and>
    (\<forall>g \<in> set (handoffs w). \<forall>h \<in> set (handoffs w). ho_supersedes g \<noteq> None \<and> ho_supersedes g = ho_supersedes h \<longrightarrow> g = h)"
proof (intro conjI ballI impI)
  have ok: "work_ok w"
    using reached_work [OF assms] .
  then show links: "links_ok (handoffs w)"
    by (simp add: work_ok_def handoffs_ok_def)
  fix g h
  assume rows: "g \<in> set (handoffs w)" "h \<in> set (handoffs w)" and same: "ho_supersedes g \<noteq> None \<and> ho_supersedes g = ho_supersedes h"
  then obtain x where x: "ho_supersedes g = Some x" "ho_supersedes h = Some x"
    by (metis option.exhaust)
  obtain k l where k: "k \<in> set (handoffs w)" "ho_id k = x" "ho_supersededBy k = Some (ho_id g)"
    and l: "l \<in> set (handoffs w)" "ho_id l = x" "ho_supersededBy l = Some (ho_id h)"
    using links rows x unfolding links_ok_def by blast
  have "k = l"
    using same_handoff [OF ok k(1) l(1)] k(2) l(2) by simp
  then show "g = h"
    using same_handoff [OF ok rows] k(3) l(3) by simp
qed

theorem supersession_is_a_chain_witness:
  "\<exists>g \<in> set (handoffs wk8). ho_id g = wid 30 \<and> ho_supersededBy g = Some (wid 40)"
proof -
  obtain h where "h \<in> set (handoffs wk8)" "ho_id h = wid 40" "ho_supersedes h = Some (wid 30)"
    using row_of_map [OF wk8_shape, of "(wid 40, Ho_prepared, Some (wid 30))"] by auto
  moreover have "links_ok (handoffs wk8)"
    using supersession_is_a_chain [OF wk_start wk_run8] by blast
  ultimately show ?thesis
    unfolding links_ok_def by metis
qed


subsection \<open>One change for each version\<close>

text \<open>C20. A version of a handoff is used up by the first request that succeeds with it. After it, and whatever else
  happened meanwhile, every other request for the same version, of any kind, is answered from the stored answers or refused,
  and changes nothing.\<close>

theorem version_is_used_once:
  assumes "work_start w0" "work_run H w0 w" "handoff_request H s i v w (Inr (status, body, False)) w1"
    and "work_run H w1 w2" "handoff_request H s' i v w2 out w3"
  shows "w3 = w2 \<and> not_new out"
proof -
  have ok: "work_ok w"
    using reached_work [OF assms(1,2)] .
  have "request_done s i v w (Inr (status, body, False)) w1"
    using handoff_request_done [OF reached_rows [OF ok] assms(3)] .
  then obtain row u rs es where row: "row \<in> set (handoffs w)" "ho_id row = i" "ho_version row = v"
    and moved: "op_moved row body es w u" "w1 = u\<lparr>replies := replies u @ rs\<rparr>"
    by (auto simp: request_done_def not_new_def)
  have "row_moved row body es as w u \<Longrightarrow> body \<in> set (handoffs w1) \<and> ho_id body = i \<and> v < ho_version body" for "as"
    using row set_put_row [of ho_id "handoffs w" row body] ok moved(2)
    by (auto simp: row_moved_def same_frozen_def work_ok_def handoffs_ok_def rows_ok_def)
  then have body: "body \<in> set (handoffs w1)" "ho_id body = i" "v < ho_version body"
    using moved(1) by (auto simp: op_moved_def)
  have ok1: "work_ok w1"
    using work_step_move [OF work_step.handoff [OF assms(3)] ok] by (simp add: work_move_def)
  obtain now where now: "now \<in> set (handoffs w2)" "handoff_later body now"
    using later_work [OF ok1 assms(4)] handoffs_later_row [of w1 w2 body] body(1) by (auto simp: work_later_def)
  then have apart: "ho_id now = i" "ho_version now \<noteq> v"
    using body by (auto simp: handoff_later_def same_frozen_def)
  have ok2: "work_ok w2"
    using kept_work [OF ok1 assms(4)] .
  have "ho_version g \<noteq> v" if "g \<in> set (handoffs w2)" "ho_id g = i" for g
    using same_handoff [OF ok2 now(1) that(1)] apart that(2) by simp
  then show ?thesis
    using handoff_request_done [OF reached_rows [OF ok2] assms(5)] unfolding request_done_def by blast
qed

theorem version_is_used_once_witness:
  "snd (reportHandoff work_H (wid 9) (wid 30) 1 Sandbox [] (wid 4) 900 [] wk8) = wk8"
proof -
  obtain status body where first: "fst first_dispatch = Inr (status, body, False)"
    using wk5_shape by (auto split: sum.splits prod.splits)
  have "handoff_request work_H (wid 9) (wid 30) 1 wk4 (Inr (status, body, False)) wk5"
    using handoff_request.dispatch [OF first_dispatch_is] unfolding first .
  from version_is_used_once [OF wk_start wk_run4 this wk_run5_8 handoff_request.report [OF prod.collapse [symmetric]]]
  show ?thesis
    by (rule conjunct1)
qed

subsection \<open>The end of a purpose\<close>

text \<open>C19. When a purpose is revoked or achieved, the same transaction leaves no task of it open or in progress, and no live
  handoff of the session that is bound to it, by its own frozen parent or through its task, without a reevaluation notice.\<close>

theorem ended_purpose_is_quiet:
  assumes "work_start w0" "work_run H w0 w"
    and "transitionPurpose H revoke s i v key now bridge f fh ff w = (Inr (status, body, False), w')"
  shows "pu_id body = i \<and> pu_status body = (if revoke then Pu_revoked else Pu_achieved) \<and>
    (\<forall>t \<in> set (tasks w'). tk_parent t = Some i \<longrightarrow> tk_status t \<in> {Ts_held, Ts_completed, Ts_cancelled}) \<and>
    (\<forall>h \<in> set (handoffs w'). ho_session h = s \<and> live_status (ho_status h) \<and>
       (ho_parent h = Some i \<or> (\<exists>t. bound_task h w' = Some t \<and> tk_parent t = Some i)) \<longrightarrow> ho_notice h)"
proof -
  obtain row w1 rs where row: "row \<in> set (purposes w)" "pu_id row = i" "pu_session row = s" "unix_ms_ok now"
    and tx: "end_purpose_tx revoke s v now bridge f fh ff row w = Inr (body, w1)" "w' = w1\<lparr>replies := replies w1 @ rs\<rparr>"
    using transitionPurpose_cases [OF assms(3)] by auto
  have step: "quiet s i w1" "pu_id body = i" "pu_status body = end_status revoke"
    using end_purpose_tx_step [OF reached_work [OF assms(1,2)] row(4,1,3) tx(1)] row(2) by auto
  then have calm: "quiet s i w'"
    by (simp add: tx(2))
  have "tk_status t \<in> {Ts_held, Ts_completed, Ts_cancelled}" if "t \<in> set (tasks w')" "tk_parent t = Some i" for t
    using calm that by (cases "tk_status t") (auto simp: quiet_def working_def)
  moreover have "ho_notice h" if "h \<in> set (handoffs w')" "ho_session h = s" "live_status (ho_status h)"
      "ho_parent h = Some i \<or> (\<exists>t. bound_task h w' = Some t \<and> tk_parent t = Some i)" for h
    using calm that by (auto simp: quiet_def bound_to_parent_def)
  ultimately show ?thesis
    using step(2,3) by (auto simp: end_status_def)
qed

theorem ended_purpose_is_quiet_witness:
  "\<exists>body. pu_id body = wid 10 \<and> pu_status body = Pu_revoked \<and> fst revocation = Inr (200, body, False)"
proof -
  obtain status body where done1: "fst revocation = Inr (status, body, False)"
    using revoked by (auto split: sum.splits prod.splits)
  have run: "transitionPurpose work_H True (wid 9) (wid 10) 1 (wid 2) 180 None (wid 50) (wids 51) (wids 60) wk8
      = (Inr (status, body, False), wk9)"
    using revocation_is unfolding done1 .
  have "status = 200"
    using transitionPurpose_cases [OF run] by auto
  moreover have "pu_id body = wid 10 \<and> pu_status body = Pu_revoked"
    using ended_purpose_is_quiet [OF wk_start wk_run8 run] by auto
  ultimately show ?thesis
    using done1 by blast
qed

lemma follow_notice:
  "foldl spec_follow (Some s) es = Some t \<Longrightarrow> hs_notice s \<Longrightarrow> \<not> hs_notice t \<Longrightarrow> \<exists>e \<in> set es. he_event e = He_cleared"
proof (induction es arbitrary: s)
  case Nil
  then show ?case by simp
next
  case (Cons e es)
  then obtain u where u: "spec_follow (Some s) e = Some u"
    by (cases "spec_follow (Some s) e") auto
  then have "hs_notice u \<or> he_event e = He_cleared"
    using Cons.prems(2) by (cases "he_event e") (auto simp: spec_follow_def split: option.splits if_splits)
  then show ?case
    using Cons u by auto
qed

text \<open>C18. A handoff with a reevaluation notice is never dispatched before a person reaffirmed it: between a state where it
  has the notice and a later dispatch of it, its journal has an entry that cleared the notice, which only
  \<open>reaffirmHandoff\<close> writes.\<close>

theorem notice_stops_dispatch:
  assumes "work_start w0" "work_run H w0 w" "work_run H w w2" "h \<in> set (handoffs w)" "ho_notice h"
    and "dispatchHandoff H s (ho_id h) v ext key now f w2 = (Inr (status, body, False), w3)"
  shows "\<exists>e \<in> set (drop (length (handoffEvents w)) (handoffEvents w2)). he_handoff e = ho_id h \<and> he_event e = He_cleared"
proof -
  have ok: "work_ok w" and ok2: "work_ok w2"
    using reached_work [OF assms(1,2)] kept_work [OF _ assms(3)] by simp_all
  have later: "handoffs_later w w2"
    using later_work [OF ok assms(3)] by (simp add: work_later_def)
  obtain row w1 where row: "row \<in> set (handoffs w2)" "ho_id row = ho_id h" "dispatch_tx ext now f row w2 = Inr (body, w1)"
    using mutateHandoff_cases [OF assms(6) [unfolded dispatchHandoff_def]] by auto
  have "\<not> ho_notice row"
    using dispatch_moved [OF reached_rows [OF ok2] row(1,3)] by blast
  obtain es where es: "handoffEvents w2 = handoffEvents w @ es"
    using later by (auto simp: handoffs_later_def prefix_def)
  let ?es = "filter (\<lambda>e. he_handoff e = ho_id h) es"
  have "handoff_replay (handoffJournal w2 (ho_id h)) = foldl spec_follow (Some (handoff_abs h)) ?es"
    using replay_append [of "handoffJournal w (ho_id h)" "handoff_abs h" ?es] reached_row [OF ok assms(4)]
    by (simp add: handoffJournal_def es row_good_def journal_good_def)
  moreover have "handoff_replay (handoffJournal w2 (ho_id h)) = Some (handoff_abs row)"
    using reached_row [OF ok2 row(1)] row(2) by (simp add: row_good_def journal_good_def)
  ultimately obtain e where "e \<in> set ?es" "he_event e = He_cleared"
    using follow_notice [of "handoff_abs h" ?es "handoff_abs row"] assms(5) \<open>\<not> ho_notice row\<close> by auto
  then show ?thesis
    by (auto simp: es)
qed

theorem notice_stops_dispatch_witness:
  "\<exists>e \<in> set (drop 7 (handoffEvents wk10)). he_handoff e = wid 40 \<and> he_event e = He_cleared"
proof -
  obtain h where h: "h \<in> set (handoffs wk9)" "ho_id h = wid 40" "ho_notice h"
    using row_of_map [OF wk9_shape, of "(wid 40, True)"] by auto
  obtain status body where sent: "fst second_dispatch = Inr (status, body, False)"
    using dispatched_again by (auto split: sum.splits prod.splits)
  have "dispatchHandoff work_H (wid 9) (ho_id h) 3 None (wid 3) 200 (wid 80) wk10 = (Inr (status, body, False), wk11)"
    using second_dispatch_is unfolding sent h(2) .
  from notice_stops_dispatch [OF wk_start wk_run9 r_into_rtranclp [where r = "work_step work_H", OF work_step10] h(1,3) this] show ?thesis
    unfolding wk9_events h(2) .
qed

subsection \<open>Tasks\<close>

text \<open>C23. In every reachable state a task that has a parent belongs to a purpose of its own session and scope, and while it
  is in progress that purpose is active (a standalone task has no purpose and no such condition); and every task, with a
  parent or without, is held exactly when it says why and what would make it worth reconsidering.\<close>

theorem work_has_an_active_purpose:
  assumes "work_start w0" "work_run H w0 w" "t \<in> set (tasks w)"
  shows "(\<forall>i. tk_parent t = Some i \<longrightarrow>
      (\<exists>p \<in> set (purposes w). pu_id p = i \<and> pu_session p = tk_session t \<and> pu_scope p = tk_scope t \<and>
         (tk_status t = Ts_in_progress \<longrightarrow> pu_status p = Pu_active))) \<and>
    (tk_status t = Ts_held \<longleftrightarrow> tk_holdReason t \<noteq> None) \<and> (tk_status t = Ts_held \<longleftrightarrow> tk_reconsider t \<noteq> None)"
proof -
  have "task_check t" "task_bound {} (purposes w) t"
    using reached_work [OF assms(1,2)] assms(3) by (simp_all add: work_ok_def plans_but_def)
  then show ?thesis
    by (auto simp: task_check_def task_bound_def)
qed

theorem work_has_an_active_purpose_witness:
  "\<exists>p \<in> set (purposes wk3). pu_id p = wid 10 \<and> pu_status p = Pu_active"
proof -
  obtain t where "t \<in> set (tasks wk3)" "tk_parent t = Some (wid 10)" "tk_status t = Ts_in_progress"
    using row_of_map [OF wk3_shape, of "(Some (wid 10), Ts_in_progress)"] by auto
  then show ?thesis
    using work_has_an_active_purpose [OF wk_start wk_run3, of t] by auto
qed

subsection \<open>Reading\<close>

text \<open>C24. Every stored handoff is a well-formed record that its owner can read: while its version is an exact number,
  \<open>getHandoff\<close> returns the row itself, which satisfies the response schema, and the histories list its journal in order.\<close>

theorem handoff_can_be_read:
  assumes "work_start w0" "work_run H w0 w" "h \<in> set (handoffs w)" "ho_version h \<le> MAX_SAFE_INTEGER"
  shows "getHandoff (ho_session h) (ho_id h) w = Inr h \<and> handoff_view_ok h \<and>
    listHandoffEvents (ho_session h) (ho_id h) w = Inr (window (handoffJournal w (ho_id h)))"
proof -
  have ok: "work_ok w"
    using reached_work [OF assms(1,2)] .
  then have good: "row_good w h"
    using reached_row assms(3) by blast
  then have view: "handoff_view_ok h"
    using fields_view assms(4) by (simp add: row_good_def)
  then have "isUuidV4 (ho_session h)" "isUuidV4 (ho_id h)"
    by (simp_all add: handoff_view_ok_def isUuidV4_def uuid_ok_def)
  moreover have "readHandoff w (ho_id h) = Some h"
    using ok assms(3) find_key_distinct unfolding readHandoff_def work_ok_def handoffs_ok_def rows_ok_def by fast
  ultimately have owned: "assertOwnedHandoff (ho_session h) (ho_id h) w = Inr h"
    by (simp add: assertOwnedHandoff_def)
  have "sorted (map he_seq (handoffJournal w (ho_id h)))"
    using good unfolding row_good_def journal_good_def by (metis sorted_upt)
  then have "sort_key he_seq (handoffJournal w (ho_id h)) = handoffJournal w (ho_id h)"
    by (rule sort_key_id_if_sorted)
  then show ?thesis
    using view owned by (simp add: getHandoff_def toHandoffView_def listHandoffEvents_def)
qed

theorem handoff_can_be_read_witness:
  "\<exists>h. getHandoff (wid 9) (wid 30) wk4 = Inr h \<and> handoff_view_ok h \<and> ho_version h = 1"
proof -
  obtain h where h: "handoffs wk4 = [h]"
    using arg_cong [OF wk4_shape(1), of length] by (cases "handoffs wk4") auto
  then have "ho_version h = 1" "ho_id h = wid 30" "ho_session h = wid 9"
    using wk4_shape by simp_all
  then show ?thesis
    using handoff_can_be_read [OF wk_start wk_run4, of h] by (auto simp: h MAX_SAFE_INTEGER_def)
qed

end
