(* ===== verification/Memory_Outbox.thy ===== *)
theory Memory_Outbox
  imports Store Json_Parse
begin

text \<open>
  The conversation-memory outbox (packages/kernel/src/repository.ts, migrations 0008 and 0009): the durable queue of
  writes to the external memory process, and the management operations whose status a client polls. A
  job is pending, acked or failed; an operation is bound to the job that decides it. The two
  tables are apart from the ones of the runs, so they are a store of their own.
\<close>

datatype job_kind =
    Event_append | Record_remember | Record_feedback | Maintain_distill | Record_correct | Record_retire
  | Record_reactivate

datatype job_status = Job_pending | Job_acked | Job_failed

record job_row =
  j_id :: jstr
  j_kind :: job_kind
  j_session :: jstr
  j_run :: jstr
  j_turn :: "jstr option"
  j_event :: "jstr option"
  j_scope :: jstr
  j_key :: jstr
  j_request :: jstr
  j_status :: job_status
  j_attempts :: nat
  j_dueAt :: int
  j_lastError :: "jstr option"
  j_createdAt :: int
  j_updatedAt :: int

record operation_row =
  o_id :: jstr
  o_kind :: job_kind
  o_session :: jstr
  o_run :: jstr
  o_search :: "jstr option"
  o_handle :: "jstr option"
  o_record :: jstr
  o_revision :: "int option"
  o_job :: jstr
  o_key :: jstr
  o_hash :: jstr
  o_status :: job_status
  o_createdAt :: int
  o_updatedAt :: int

record mdb =
  jobs :: "job_row list"
  operations :: "operation_row list"

type_synonym 'a mtx = "mdb \<Rightarrow> kerr + ('a \<times> mdb)"

subsection \<open>Argument checks\<close>

definition is_control :: "nat \<Rightarrow> bool" where
  "is_control c \<longleftrightarrow> c \<le> 0x1f \<or> (0x7f \<le> c \<and> c \<le> 0x9f)"

definition memory_token_ok :: "jstr \<Rightarrow> bool" where
  "memory_token_ok v \<longleftrightarrow> 1 \<le> length v \<and> length v \<le> 256 \<and> \<not> list_ex is_control (code_points v)"

definition memory_citation_ok :: "jstr \<Rightarrow> bool" where
  "memory_citation_ok v \<longleftrightarrow>
     (case v of
        m # d # r \<Rightarrow> m = 109 \<and> 49 \<le> d \<and> d \<le> 57 \<and> list_all digit r
      | _ \<Rightarrow> False)"

definition job_kinds :: "(jstr \<times> job_kind) list" where
  "job_kinds =
     [(js ''event.append'', Event_append), (js ''record.remember'', Record_remember),
      (js ''record.feedback'', Record_feedback), (js ''maintain.distill'', Maintain_distill),
      (js ''record.correct'', Record_correct), (js ''record.retire'', Record_retire),
      (js ''record.reactivate'', Record_reactivate)]"

definition requireMemoryKind :: "jstr \<Rightarrow> job_kind option" where
  "requireMemoryKind value = map_of job_kinds value"

definition management_kind :: "job_kind \<Rightarrow> bool" where
  "management_kind k \<longleftrightarrow> k = Record_correct \<or> k = Record_retire \<or> k = Record_reactivate"

definition requireMemoryOperationKind :: "jstr \<Rightarrow> job_kind option" where
  "requireMemoryOperationKind value =
     (case requireMemoryKind value of
        Some k \<Rightarrow> if management_kind k then Some k else None
      | None \<Rightarrow> None)"

definition memory_revision_ok :: "int \<Rightarrow> bool" where
  "memory_revision_ok r \<longleftrightarrow> 1 \<le> r \<and> r \<le> 1000000"

definition opt_ok :: "('a \<Rightarrow> bool) \<Rightarrow> 'a option \<Rightarrow> bool" where
  "opt_ok p v = (case v of None \<Rightarrow> True | Some x \<Rightarrow> p x)"

definition request_text_ok :: "jstr \<Rightarrow> bool" where
  "request_text_ok t \<longleftrightarrow> t \<noteq> [] \<and> json_parse t \<noteq> None"

definition request_hash_ok :: "jstr \<Rightarrow> bool" where
  "request_hash_ok h \<longleftrightarrow> 1 \<le> length h \<and> length h \<le> 512"

text \<open>\<open>/^[a-z][a-z0-9_]{0,63}$/\<close>\<close>

definition error_code_ok :: "jstr \<Rightarrow> bool" where
  "error_code_ok c \<longleftrightarrow>
     (case c of
        [] \<Rightarrow> False
      | u # r \<Rightarrow> 97 \<le> u \<and> u \<le> 122 \<and> length r \<le> 63 \<and>
          list_all (\<lambda>x. 97 \<le> x \<and> x \<le> 122 \<or> digit x \<or> x = 95) r)"

subsection \<open>Reads and statements\<close>

definition getMemoryJobRow :: "mdb \<Rightarrow> jstr \<Rightarrow> job_row option" where
  "getMemoryJobRow db i = find (\<lambda>j. j_id j = i) (jobs db)"

definition jobByKey :: "mdb \<Rightarrow> jstr \<Rightarrow> job_row option" where
  "jobByKey db k = find (\<lambda>j. j_key j = k) (jobs db)"

definition operationRow :: "mdb \<Rightarrow> jstr \<Rightarrow> operation_row option" where
  "operationRow db i = find (\<lambda>p. o_id p = i) (operations db)"

definition operationByKey :: "mdb \<Rightarrow> jstr \<Rightarrow> operation_row option" where
  "operationByKey db k = find (\<lambda>p. o_key p = k) (operations db)"

definition insert_job :: "job_row \<Rightarrow> mdb \<Rightarrow> kerr + mdb" where
  "insert_job j db =
     (if json_parse (j_request j) = None then Inl Sqlite_check
      else if getMemoryJobRow db (j_id j) \<noteq> None then Inl Sqlite_primary_key
      else if jobByKey db (j_key j) \<noteq> None then Inl Sqlite_unique
      else Inr (db\<lparr>jobs := jobs db @ [j]\<rparr>))"

definition insert_operation :: "operation_row \<Rightarrow> mdb \<Rightarrow> kerr + mdb" where
  "insert_operation p db =
     (if \<not> management_kind (o_kind p) \<or> \<not> opt_ok (\<lambda>r. 1 \<le> r) (o_revision p) then Inl Sqlite_check
      else if operationRow db (o_id p) \<noteq> None then Inl Sqlite_primary_key
      else if operationByKey db (o_key p) \<noteq> None then Inl Sqlite_unique
      else Inr (db\<lparr>operations := operations db @ [p]\<rparr>))"

definition update_jobs :: "(job_row \<Rightarrow> bool) \<Rightarrow> (job_row \<Rightarrow> job_row) \<Rightarrow> nat mtx" where
  "update_jobs p f db = Inr (count_where p (jobs db), db\<lparr>jobs := upd_where p f (jobs db)\<rparr>)"

definition update_operations :: "(operation_row \<Rightarrow> bool) \<Rightarrow> (operation_row \<Rightarrow> operation_row) \<Rightarrow> nat mtx" where
  "update_operations p f db =
     Inr (count_where p (operations db), db\<lparr>operations := upd_where p f (operations db)\<rparr>)"

definition pending_job ::
  "jstr \<Rightarrow> job_kind \<Rightarrow> jstr \<Rightarrow> jstr \<Rightarrow> jstr option \<Rightarrow> jstr option \<Rightarrow> jstr \<Rightarrow> jstr \<Rightarrow> jstr \<Rightarrow> int \<Rightarrow> job_row" where
  "pending_job i kind session run turn event scope key request now =
     \<lparr>j_id = i, j_kind = kind, j_session = session, j_run = run, j_turn = turn, j_event = event,
      j_scope = scope, j_key = key, j_request = request, j_status = Job_pending, j_attempts = 0,
      j_dueAt = now, j_lastError = None, j_createdAt = now, j_updatedAt = now\<rparr>"

subsection \<open>The queue\<close>

definition enqueueMemoryJob ::
  "jstr \<Rightarrow> jstr \<Rightarrow> jstr \<Rightarrow> jstr \<Rightarrow> jstr \<Rightarrow> jstr \<Rightarrow> jstr option \<Rightarrow> jstr option \<Rightarrow> int \<Rightarrow> jstr \<Rightarrow> mdb \<Rightarrow>
     (kerr + job_row \<times> bool) \<times> mdb" where
  "enqueueMemoryJob kind session run scope key request turn event now freshId db =
     (case requireMemoryKind kind of
        None \<Rightarrow> (Inl Validation, db)
      | Some validKind \<Rightarrow>
          if \<not> isUuidV4 session \<or> \<not> isUuidV4 run \<or> \<not> memory_token_ok scope \<or> \<not> isUuidV4 key \<or>
             \<not> request_text_ok request \<or> \<not> opt_ok isUuidV4 turn \<or> \<not> opt_ok memory_token_ok event \<or>
             \<not> unix_ms_ok now
          then (Inl Validation, db)
          else withImmediate (\<lambda>db.
            let k = lower_ascii key in
            case jobByKey db k of
              Some existing \<Rightarrow> Inr ((existing, True), db)
            | None \<Rightarrow>
                let row = pending_job freshId validKind session run turn event scope k request now in
                rbind (insert_job row db) (\<lambda>db1. Inr ((row, False), db1))) db)"

definition getMemoryJob :: "jstr \<Rightarrow> mdb \<Rightarrow> kerr + job_row option" where
  "getMemoryJob i db = (if \<not> isUuidV4 i then Inl Validation else Inr (getMemoryJobRow db i))"

definition due :: "int \<Rightarrow> job_row \<Rightarrow> bool" where
  "due at j \<longleftrightarrow> j_status j = Job_pending \<and> j_dueAt j \<le> at"

definition claimDueMemoryJobs :: "int \<Rightarrow> int \<Rightarrow> mdb \<Rightarrow> kerr + job_row list" where
  "claimDueMemoryJobs limit now db =
     (if limit < 1 \<or> limit > 100 then Inl Validation
      else if \<not> unix_ms_ok now then Inl Validation
      else Inr (take (nat limit) (sort_key (\<lambda>j. (j_dueAt j, j_id j)) (filter (due now) (jobs db)))))"

definition countPendingMemoryJobs :: "int \<Rightarrow> mdb \<Rightarrow> kerr + nat" where
  "countPendingMemoryJobs now db =
     (if \<not> unix_ms_ok now then Inl Validation else Inr (count_where (due now) (jobs db)))"

definition countOutstandingMemoryJobs :: "mdb \<Rightarrow> nat" where
  "countOutstandingMemoryJobs db = count_where (\<lambda>j. j_status j = Job_pending) (jobs db)"

definition pending_id :: "jstr \<Rightarrow> job_row \<Rightarrow> bool" where
  "pending_id i j \<longleftrightarrow> j_id j = i \<and> j_status j = Job_pending"

definition ack_update :: "int \<Rightarrow> job_row \<Rightarrow> job_row" where
  "ack_update now j = j\<lparr>j_status := Job_acked, j_updatedAt := now\<rparr>"

definition ackMemoryJob :: "jstr \<Rightarrow> int \<Rightarrow> mdb \<Rightarrow> (kerr + unit) \<times> mdb" where
  "ackMemoryJob i now db =
     (if \<not> unix_ms_ok now then (Inl Validation, db)
      else withImmediate (\<lambda>db.
        if \<not> isUuidV4 i then Inl Validation
        else rbind (update_jobs (pending_id i) (ack_update now) db) (\<lambda>(changes, db1).
          if changes \<noteq> 1 \<and> getMemoryJobRow db1 i = None then Inl NotFound
          else Inr ((), db1))) db)"

text \<open>The delay before a failed attempt is repeated: doubled each time up to 64 seconds, and capped at 60.\<close>

definition retry_delay :: "nat \<Rightarrow> int" where
  "retry_delay attempts = min (1000 * 2 ^ min attempts 6) 60000"

definition fail_update :: "nat \<Rightarrow> jstr \<Rightarrow> int \<Rightarrow> job_row \<Rightarrow> job_row" where
  "fail_update attempts code now j =
     j\<lparr>j_status := Job_failed, j_attempts := attempts, j_lastError := Some code, j_updatedAt := now\<rparr>"

definition rearm_update :: "nat \<Rightarrow> jstr \<Rightarrow> int \<Rightarrow> job_row \<Rightarrow> job_row" where
  "rearm_update attempts code now j =
     j\<lparr>j_attempts := attempts, j_dueAt := now + retry_delay attempts, j_lastError := Some code,
       j_updatedAt := now\<rparr>"

definition default_attempts :: "int option \<Rightarrow> int" where
  "default_attempts m = (case m of None \<Rightarrow> 8 | Some n \<Rightarrow> n)"

definition failMemoryJob ::
  "jstr \<Rightarrow> jstr \<Rightarrow> int option \<Rightarrow> int \<Rightarrow> mdb \<Rightarrow> (kerr + job_status) \<times> mdb" where
  "failMemoryJob i code attemptsOption now db =
     (let maxAttempts = default_attempts attemptsOption in
      if \<not> error_code_ok code \<or> maxAttempts < 1 \<or> \<not> unix_ms_ok now then (Inl Validation, db)
      else withImmediate (\<lambda>db.
        if \<not> isUuidV4 i then Inl Validation
        else case getMemoryJobRow db i of
          None \<Rightarrow> Inl NotFound
        | Some row \<Rightarrow>
            if j_status row \<noteq> Job_pending then Inr (j_status row, db)
            else let attempts = j_attempts row + 1 in
              if int attempts \<ge> maxAttempts
              then rbind (update_jobs (\<lambda>j. j_id j = i) (fail_update attempts code now) db)
                     (\<lambda>(_, db1). Inr (Job_failed, db1))
              else rbind (update_jobs (\<lambda>j. j_id j = i) (rearm_update attempts code now) db)
                     (\<lambda>(_, db1). Inr (Job_pending, db1))) db)"

subsection \<open>Management operations\<close>

definition pending_operation ::
  "jstr \<Rightarrow> job_kind \<Rightarrow> jstr \<Rightarrow> jstr \<Rightarrow> jstr option \<Rightarrow> jstr option \<Rightarrow> jstr \<Rightarrow> int option \<Rightarrow> jstr \<Rightarrow> jstr \<Rightarrow> jstr \<Rightarrow>
     int \<Rightarrow> operation_row" where
  "pending_operation i kind session run search handle record revision job key hash now =
     \<lparr>o_id = i, o_kind = kind, o_session = session, o_run = run, o_search = search, o_handle = handle,
      o_record = record, o_revision = revision, o_job = job, o_key = key, o_hash = hash,
      o_status = Job_pending, o_createdAt = now, o_updatedAt = now\<rparr>"

record operation_input =
  oi_kind :: jstr
  oi_session :: jstr
  oi_run :: jstr
  oi_search :: "jstr option"
  oi_handle :: "jstr option"
  oi_record :: jstr
  oi_revision :: "int option"
  oi_key :: jstr
  oi_hash :: jstr

definition operation_input_ok :: "operation_input \<Rightarrow> bool" where
  "operation_input_ok i \<longleftrightarrow>
     requireMemoryOperationKind (oi_kind i) \<noteq> None \<and> isUuidV4 (oi_session i) \<and> isUuidV4 (oi_run i) \<and>
     opt_ok memory_token_ok (oi_search i) \<and> opt_ok memory_citation_ok (oi_handle i) \<and>
     memory_token_ok (oi_record i) \<and> opt_ok memory_revision_ok (oi_revision i) \<and>
     isUuidV4 (oi_key i) \<and> request_hash_ok (oi_hash i)"

definition operation_of :: "operation_input \<Rightarrow> jstr \<Rightarrow> jstr \<Rightarrow> int \<Rightarrow> operation_row" where
  "operation_of i job fresh now =
     pending_operation fresh (the (requireMemoryOperationKind (oi_kind i))) (oi_session i) (oi_run i)
       (oi_search i) (oi_handle i) (oi_record i) (oi_revision i) job (lower_ascii (oi_key i)) (oi_hash i) now"

definition operation_scope :: "operation_row \<Rightarrow> jstr" where
  "operation_scope p = js ''memory-operation:'' @ o_id p"

definition job_scope :: "job_row \<Rightarrow> jstr" where
  "job_scope j = js ''memory-job:'' @ j_id j"

definition createMemoryOperation ::
  "operation_input \<Rightarrow> jstr \<Rightarrow> int \<Rightarrow> jstr \<Rightarrow> mdb \<Rightarrow> (kerr + operation_row \<times> bool) \<times> mdb" where
  "createMemoryOperation i job now freshId db =
     (if \<not> operation_input_ok i \<or> \<not> isUuidV4 job \<or> \<not> unix_ms_ok now then (Inl Validation, db)
      else withImmediate (\<lambda>db.
        case operationByKey db (lower_ascii (oi_key i)) of
          Some existing \<Rightarrow>
            if o_hash existing \<noteq> oi_hash i then Inl (Idempotency_conflict (operation_scope existing))
            else Inr ((existing, True), db)
        | None \<Rightarrow>
            let row = operation_of i job freshId now in
            rbind (insert_operation row db) (\<lambda>db1. Inr ((row, False), db1))) db)"

definition getMemoryOperation :: "jstr \<Rightarrow> mdb \<Rightarrow> kerr + operation_row option" where
  "getMemoryOperation i db = (if \<not> isUuidV4 i then Inl Validation else Inr (operationRow db i))"

definition getMemoryOperationByKey :: "jstr \<Rightarrow> mdb \<Rightarrow> kerr + operation_row option" where
  "getMemoryOperationByKey key db =
     (if \<not> isUuidV4 key then Inl Validation else Inr (operationByKey db (lower_ascii key)))"

definition set_status :: "job_status \<Rightarrow> int \<Rightarrow> operation_row \<Rightarrow> operation_row" where
  "set_status status now p = p\<lparr>o_status := status, o_updatedAt := now\<rparr>"

definition setMemoryOperationStatus :: "jstr \<Rightarrow> job_status \<Rightarrow> int \<Rightarrow> mdb \<Rightarrow> (kerr + unit) \<times> mdb" where
  "setMemoryOperationStatus i status now db =
     (if \<not> unix_ms_ok now then (Inl Validation, db)
      else withImmediate (\<lambda>db.
        if \<not> isUuidV4 i then Inl Validation
        else rbind (update_operations (\<lambda>p. o_id p = i) (set_status status now) db) (\<lambda>(changes, db1).
          if changes \<noteq> 1 then Inl NotFound else Inr ((), db1))) db)"

definition setMemoryOperationStatusByJob :: "jstr \<Rightarrow> job_status \<Rightarrow> int \<Rightarrow> mdb \<Rightarrow> (kerr + unit) \<times> mdb" where
  "setMemoryOperationStatusByJob job status now db =
     (if \<not> unix_ms_ok now \<or> \<not> isUuidV4 job then (Inl Validation, db)
      else withImmediate (\<lambda>db. rbind (update_operations (\<lambda>p. o_job p = job) (set_status status now) db)
        (\<lambda>(_, db1). Inr ((), db1))) db)"

definition rebind_update :: "jstr \<Rightarrow> int \<Rightarrow> operation_row \<Rightarrow> operation_row" where
  "rebind_update job now p = p\<lparr>o_job := job, o_updatedAt := now\<rparr>"

definition setMemoryOperationJob :: "jstr \<Rightarrow> jstr \<Rightarrow> int \<Rightarrow> mdb \<Rightarrow> (kerr + unit) \<times> mdb" where
  "setMemoryOperationJob i job now db =
     (if \<not> unix_ms_ok now then (Inl Validation, db)
      else withImmediate (\<lambda>db.
        if \<not> isUuidV4 job \<or> \<not> isUuidV4 i then Inl Validation
        else rbind (update_operations (\<lambda>p. o_id p = i) (rebind_update job now) db) (\<lambda>(changes, db1).
          if changes \<noteq> 1 then Inl NotFound else Inr ((), db1))) db)"

subsection \<open>Staging, follow-up, and the mirrored end of a job\<close>

record job_input =
  ji_kind :: jstr
  ji_session :: jstr
  ji_run :: jstr
  ji_scope :: jstr
  ji_key :: jstr
  ji_request :: jstr
  ji_turn :: "jstr option"

definition job_input_ok :: "job_input \<Rightarrow> bool" where
  "job_input_ok i \<longleftrightarrow>
     requireMemoryKind (ji_kind i) \<noteq> None \<and> isUuidV4 (ji_session i) \<and> isUuidV4 (ji_run i) \<and>
     memory_token_ok (ji_scope i) \<and> isUuidV4 (ji_key i) \<and> request_text_ok (ji_request i) \<and>
     opt_ok isUuidV4 (ji_turn i)"

definition job_of :: "job_input \<Rightarrow> jstr \<Rightarrow> int \<Rightarrow> job_row" where
  "job_of i fresh now =
     pending_job fresh (the (requireMemoryKind (ji_kind i))) (ji_session i) (ji_run i) (ji_turn i) None (ji_scope i)
       (lower_ascii (ji_key i)) (ji_request i) now"

text \<open>The job of a key: the one that is there, if its request is the same text, or a new one.\<close>

definition obtain_job :: "job_input \<Rightarrow> int \<Rightarrow> jstr \<Rightarrow> (job_row \<times> bool) mtx" where
  "obtain_job i now freshId db =
     (case jobByKey db (lower_ascii (ji_key i)) of
        Some existing \<Rightarrow>
          if j_request existing \<noteq> ji_request i then Inl (Idempotency_conflict (job_scope existing))
          else Inr ((existing, True), db)
      | None \<Rightarrow>
          rbind (insert_job (job_of i freshId now) db) (\<lambda>db1. Inr ((job_of i freshId now, False), db1)))"

definition stage_tx ::
  "job_input \<Rightarrow> operation_input \<Rightarrow> int \<Rightarrow> jstr \<times> jstr \<Rightarrow> (job_row \<times> operation_row \<times> bool) mtx" where
  "stage_tx ji oi now fresh db =
     (case operationByKey db (lower_ascii (oi_key oi)) of
        Some existing \<Rightarrow>
          if o_hash existing \<noteq> oi_hash oi then Inl (Idempotency_conflict (operation_scope existing))
          else (case getMemoryJobRow db (o_job existing) of
                  None \<Rightarrow> Inl Database_state_invalid
                | Some bound \<Rightarrow> Inr ((bound, existing, True), db))
      | None \<Rightarrow>
          rbind (obtain_job ji now (fst fresh) db) (\<lambda>((jobRow, found), db1).
            let row = operation_of oi (j_id jobRow) (snd fresh) now in
            rbind (insert_operation row db1) (\<lambda>db2. Inr ((jobRow, row, found), db2))))"

definition stageMemoryMutationAtomic ::
  "job_input \<Rightarrow> operation_input \<Rightarrow> int \<Rightarrow> jstr \<times> jstr \<Rightarrow> mdb \<Rightarrow>
     (kerr + job_row \<times> operation_row \<times> bool) \<times> mdb" where
  "stageMemoryMutationAtomic ji oi now fresh db =
     (if \<not> job_input_ok ji \<or> \<not> operation_input_ok oi \<or> \<not> unix_ms_ok now then (Inl Validation, db)
      else withImmediate (stage_tx ji oi now fresh) db)"

definition bind_tx :: "job_input \<Rightarrow> jstr \<Rightarrow> int \<Rightarrow> jstr \<Rightarrow> (jstr \<times> bool) mtx" where
  "bind_tx ji client now freshId db =
     rbind (obtain_job ji now freshId db) (\<lambda>((jobRow, found), db1).
       case operationByKey db1 client of
         None \<Rightarrow> Inl NotFound
       | Some operation \<Rightarrow>
           rbind (update_operations (\<lambda>p. o_id p = o_id operation) (rebind_update (j_id jobRow) now) db1)
             (\<lambda>(changes, db2). if changes \<noteq> 1 then Inl NotFound else Inr ((j_id jobRow, found), db2)))"

definition bindCorrectionFollowupAtomic ::
  "job_input \<Rightarrow> jstr \<Rightarrow> int \<Rightarrow> jstr \<Rightarrow> mdb \<Rightarrow> (kerr + jstr \<times> bool) \<times> mdb" where
  "bindCorrectionFollowupAtomic ji client now freshId db =
     (let correct = ji\<lparr>ji_kind := js ''record.correct''\<rparr> in
      if \<not> job_input_ok correct \<or> \<not> isUuidV4 client \<or> \<not> unix_ms_ok now then (Inl Validation, db)
      else withImmediate (bind_tx correct (lower_ascii client) now freshId) db)"

definition mirrored :: "jstr \<Rightarrow> operation_row \<Rightarrow> bool" where
  "mirrored i p \<longleftrightarrow> o_job p = i \<and> o_status p = Job_pending"

definition failMemoryJobWithOperationMirror ::
  "jstr \<Rightarrow> jstr \<Rightarrow> int option \<Rightarrow> int \<Rightarrow> mdb \<Rightarrow> (kerr + job_status) \<times> mdb" where
  "failMemoryJobWithOperationMirror i code attemptsOption now db =
     (let maxAttempts = default_attempts attemptsOption in
      if \<not> error_code_ok code \<or> maxAttempts < 1 \<or> \<not> unix_ms_ok now then (Inl Validation, db)
      else withImmediate (\<lambda>db.
        if \<not> isUuidV4 i then Inl Validation
        else case getMemoryJobRow db i of
          None \<Rightarrow> Inl NotFound
        | Some row \<Rightarrow>
            if j_status row \<noteq> Job_pending then Inr (j_status row, db)
            else let attempts = j_attempts row + 1 in
              if int attempts \<ge> maxAttempts
              then rbind (update_jobs (\<lambda>j. j_id j = i) (fail_update attempts code now) db) (\<lambda>(_, db1).
                   rbind (update_operations (mirrored i) (set_status Job_failed now) db1) (\<lambda>(_, db2).
                     Inr (Job_failed, db2)))
              else rbind (update_jobs (\<lambda>j. j_id j = i) (rearm_update attempts code now) db)
                     (\<lambda>(_, db1). Inr (Job_pending, db1))) db)"

definition ackMemoryJobWithOperationMirror :: "jstr \<Rightarrow> int \<Rightarrow> mdb \<Rightarrow> (kerr + unit) \<times> mdb" where
  "ackMemoryJobWithOperationMirror i now db =
     (if \<not> unix_ms_ok now then (Inl Validation, db)
      else withImmediate (\<lambda>db.
        if \<not> isUuidV4 i then Inl Validation
        else rbind (update_jobs (pending_id i) (ack_update now) db) (\<lambda>(changes, db1).
          if changes \<noteq> 1
          then if getMemoryJobRow db1 i = None then Inl NotFound else Inr ((), db1)
          else rbind (update_operations (mirrored i) (set_status Job_acked now) db1)
                 (\<lambda>(_, db2). Inr ((), db2)))) db)"

end
