(* ===== verification/Memory_Service.thy ===== *)
theory Memory_Service
  imports Memory_Outbox
begin

text \<open>
  The memory service's side of the outbox (apps/server/src/memory_service.ts): stable keys, the resolution of the
  record that a management request is about, the staging of a correction, retirement or
  reactivation, the execution of one job and the drain tick. What the external memory process
  answers, the clock, the generated ids and the gate of the background work are arguments. The digest is a
  parameter \<open>D\<close>, whose value is a text of 64 lower-case hex digits.
\<close>

subsection \<open>Stable keys\<close>

definition join_parts :: "jstr list \<Rightarrow> jstr" where
  "join_parts parts = (case parts of [] \<Rightarrow> [] | p # ps \<Rightarrow> p @ concat (map (\<lambda>x. 58 # x) ps))"

definition variant_unit :: "nat \<Rightarrow> nat" where
  "variant_unit u = [56, 57, 97, 98] ! (hex_value u mod 4)"

definition key_of_digest :: "jstr \<Rightarrow> jstr" where
  "key_of_digest digest =
     (let hex = (digest[12 := 52])[16 := variant_unit (digest ! 16)] in
      take 8 hex @ 45 # take 4 (drop 8 hex) @ 45 # take 4 (drop 12 hex) @ 45 # take 4 (drop 16 hex) @
      45 # take 12 (drop 20 hex))"

definition stableMemoryJobKey :: "(jstr \<Rightarrow> jstr) \<Rightarrow> jstr list \<Rightarrow> jstr" where
  "stableMemoryJobKey D parts = key_of_digest (D (js ''memory-job:'' @ join_parts parts))"

subsection \<open>The target of a management request\<close>

record search_item =
  si_handle :: jstr
  si_record :: jstr
  si_status :: jstr
  si_snippet :: jstr

record search_header =
  sh_session :: jstr
  sh_scope :: jstr

datatype target =
    Bound search_item
  | Needs_clarification "search_item list"
  | Target_not_found

definition resolveManagementTarget ::
  "jstr \<Rightarrow> jstr \<Rightarrow> jstr option \<Rightarrow> bool \<Rightarrow> search_header option \<Rightarrow> search_item list \<Rightarrow> target" where
  "resolveManagementTarget scope session handle trusted header items =
     (case header of
        None \<Rightarrow> Target_not_found
      | Some h \<Rightarrow>
          if sh_session h \<noteq> session then Target_not_found
          else if sh_scope h \<noteq> scope then Target_not_found
          else if items = [] then Target_not_found
          else if \<not> trusted \<and> length items > 1 then Needs_clarification items
          else (case handle of
                  Some name \<Rightarrow>
                    (case find (\<lambda>i. si_handle i = name) items of
                       None \<Rightarrow> Target_not_found
                     | Some i \<Rightarrow> Bound i)
                | None \<Rightarrow> (case items of [i] \<Rightarrow> Bound i | _ \<Rightarrow> Needs_clarification items)))"

definition requestHashForManagement :: "(jstr \<Rightarrow> jstr) \<Rightarrow> json \<Rightarrow> jstr" where
  "requestHashForManagement D parts = D (js ''memory-manage:'' @ stringify parts)"

datatype staging_identity =
    Identity jstr jstr
  | Identity_clarify "search_item list"
  | Identity_refused jstr

definition correction_body_ok :: "jstr \<Rightarrow> bool" where
  "correction_body_ok body \<longleftrightarrow> 1 \<le> countCodePoints body \<and> countCodePoints body \<le> 2000"

definition reason_code :: "job_kind \<Rightarrow> jstr option" where
  "reason_code k =
     (if k = Record_retire then Some (js ''NO_LONGER_USEFUL'')
      else if k = Record_reactivate then Some (js ''USER_REQUESTED'') else None)"

definition kind_text :: "job_kind \<Rightarrow> jstr" where
  "kind_text k =
     (case k of
        Event_append \<Rightarrow> js ''event.append'' | Record_remember \<Rightarrow> js ''record.remember''
      | Record_feedback \<Rightarrow> js ''record.feedback'' | Maintain_distill \<Rightarrow> js ''maintain.distill''
      | Record_correct \<Rightarrow> js ''record.correct'' | Record_retire \<Rightarrow> js ''record.retire''
      | Record_reactivate \<Rightarrow> js ''record.reactivate'')"

definition opt_member :: "string \<Rightarrow> jstr option \<Rightarrow> (jstr \<times> json) list" where
  "opt_member k v = (case v of None \<Rightarrow> [] | Some x \<Rightarrow> [(js k, JStr x)])"

definition resolveStagingIdentity ::
  "(jstr \<Rightarrow> jstr) \<Rightarrow> jstr \<Rightarrow> job_kind \<Rightarrow> jstr \<Rightarrow> jstr option \<Rightarrow> jstr option \<Rightarrow> bool \<Rightarrow> search_header option \<Rightarrow>
     search_item list \<Rightarrow> staging_identity" where
  "resolveStagingIdentity D scope kind session handle body trusted header items =
     (if kind = Record_correct \<and> \<not> (case body of None \<Rightarrow> False | Some b \<Rightarrow> correction_body_ok b)
      then Identity_refused (js ''validation_error'')
      else if kind \<noteq> Record_correct \<and> body \<noteq> None then Identity_refused (js ''validation_error'')
      else case resolveManagementTarget scope session handle trusted header items of
        Needs_clarification candidates \<Rightarrow> Identity_clarify candidates
      | Target_not_found \<Rightarrow> Identity_refused (js ''target_not_found'')
      | Bound i \<Rightarrow>
          Identity (si_record i) (requestHashForManagement D (JObj
            ([(js ''kind'', JStr (kind_text kind)), (js ''sessionId'', JStr session),
              (js ''scope'', JStr scope), (js ''recordId'', JStr (si_record i))] @
             opt_member ''body'' body @ opt_member ''reasonCode'' (reason_code kind)))))"

subsection \<open>Staging\<close>

text \<open>The first units of a text, by code points; a surrogate pair is one.\<close>

fun sliceCodePoints :: "jstr \<Rightarrow> nat \<Rightarrow> jstr" where
  "sliceCodePoints t 0 = []"
| "sliceCodePoints [] (Suc n) = []"
| "sliceCodePoints [u] (Suc n) = [u]"
| "sliceCodePoints (u # v # r) (Suc n) =
     (if is_high u \<and> is_low v then u # v # sliceCodePoints r n else u # sliceCodePoints (v # r) n)"

definition str_members :: "(string \<times> jstr) list \<Rightarrow> (jstr \<times> json) list" where
  "str_members kvs = map (\<lambda>(k, v). (js k, JStr v)) kvs"

record correction_request =
  cr_session :: jstr
  cr_run :: jstr
  cr_turn :: jstr
  cr_record :: jstr
  cr_body :: jstr
  cr_key :: jstr
  cr_scope :: jstr
  cr_observedAt :: jstr

definition source_event_id :: "jstr \<Rightarrow> jstr" where
  "source_event_id key = js ''evt-'' @ filter (\<lambda>u. u \<noteq> 45) key"

definition event_key :: "(jstr \<Rightarrow> jstr) \<Rightarrow> jstr \<Rightarrow> jstr" where
  "event_key D key = stableMemoryJobKey D [js ''correct-event'', key]"

definition correct_key :: "(jstr \<Rightarrow> jstr) \<Rightarrow> jstr \<Rightarrow> jstr" where
  "correct_key D key = stableMemoryJobKey D [js ''correct'', key]"

text \<open>The request of the source event of a correction, with the chain that its execution continues.\<close>

definition correction_event :: "(jstr \<Rightarrow> jstr) \<Rightarrow> correction_request \<Rightarrow> json" where
  "correction_event D r =
     (let provenance = JObj (str_members [(''source'', js ''companion:conversation''), (''observedAt'', cr_observedAt r)]);
          privacy = JObj (str_members [(''sensitivity'', js ''sensitive''), (''origin'', js ''conversation'')]) in
      JObj [(js ''op'', JStr (js ''event.append'')),
        (js ''params'', JObj
          (str_members [(''eventId'', source_event_id (cr_key r)), (''sessionId'', cr_session r),
             (''turnId'', cr_turn r), (''body'', sliceCodePoints (cr_body r) 4000)] @
           [(js ''provenance'', provenance), (js ''privacy'', privacy)] @
           str_members [(''scope'', cr_scope r), (''runId'', cr_run r), (''speaker'', js ''user'')])),
        (js ''chain'', JObj [(js ''correct'', JObj
          (str_members [(''recordId'', cr_record r), (''body'', cr_body r)] @
           [(js ''provenance'', provenance)] @
           str_members [(''sourceEventId'', source_event_id (cr_key r)),
             (''correctJobKey'', correct_key D (cr_key r)), (''clientKey'', cr_key r),
             (''sessionId'', cr_session r), (''runId'', cr_run r), (''turnId'', cr_turn r)]))])])"

text \<open>The request of a retirement or a reactivation.\<close>

definition status_request :: "job_kind \<Rightarrow> jstr \<Rightarrow> jstr \<Rightarrow> json" where
  "status_request kind record scope =
     JObj [(js ''op'', JStr (kind_text kind)),
       (js ''params'', JObj (str_members [(''id'', record), (''scope'', scope)] @
          opt_member ''reasonCode'' (reason_code kind)))]"

record stage_input =
  sg_kind :: job_kind
  sg_session :: jstr
  sg_run :: jstr
  sg_search :: jstr
  sg_handle :: "jstr option"
  sg_body :: "jstr option"
  sg_key :: jstr
  sg_trusted :: bool

datatype stage_outcome =
    Staged jstr job_status bool
  | Stage_clarify "search_item list"
  | Stage_refused jstr

text \<open>
  What the checks between the replay lookup and the atomic stage found: the record's live revision and status, the turn of
  the run, or the code of the refusal. \<open>None\<close> stands for a cancelled request.
\<close>

datatype live_check =
    Live_current int jstr jstr
  | Live_refused jstr
  | Live_cancelled

definition actionable :: "job_kind \<Rightarrow> jstr \<Rightarrow> bool" where
  "actionable kind status \<longleftrightarrow>
     (if kind = Record_correct then status = js ''active''
      else status = js ''active'' \<or> status = js ''retired'')"

definition staged_inputs ::
  "(jstr \<Rightarrow> jstr) \<Rightarrow> jstr \<Rightarrow> stage_input \<Rightarrow> jstr \<Rightarrow> jstr \<Rightarrow> jstr \<Rightarrow> jstr \<Rightarrow> int \<Rightarrow> jstr \<Rightarrow> job_input \<times> operation_input" where
  "staged_inputs D scope i key record hash turn revision observedAt =
     (let oi = \<lparr>oi_kind = kind_text (sg_kind i), oi_session = sg_session i, oi_run = sg_run i,
            oi_search = Some (sg_search i), oi_handle = sg_handle i, oi_record = record,
            oi_revision = Some revision, oi_key = key, oi_hash = hash\<rparr> in
      if sg_kind i = Record_correct
      then (\<lparr>ji_kind = js ''event.append'', ji_session = sg_session i, ji_run = sg_run i, ji_scope = scope,
             ji_key = event_key D key,
             ji_request = stringify (correction_event D \<lparr>cr_session = sg_session i, cr_run = sg_run i,
               cr_turn = turn, cr_record = record, cr_body = the (sg_body i), cr_key = key,
               cr_scope = scope, cr_observedAt = observedAt\<rparr>),
             ji_turn = Some turn\<rparr>, oi)
      else (\<lparr>ji_kind = kind_text (sg_kind i), ji_session = sg_session i, ji_run = sg_run i, ji_scope = scope,
             ji_key = stableMemoryJobKey D
               [if sg_kind i = Record_retire then js ''retire'' else js ''reactivate'', key],
             ji_request = stringify (status_request (sg_kind i) record scope), ji_turn = None\<rparr>, oi))"

definition stage_result ::
  "kerr + job_row \<times> operation_row \<times> bool \<Rightarrow> stage_outcome" where
  "stage_result out =
     (case out of
        Inr (_, operation, found) \<Rightarrow> Staged (o_id operation) (o_status operation) found
      | Inl (Idempotency_conflict _) \<Rightarrow> Stage_refused (js ''idempotency_conflict'')
      | Inl _ \<Rightarrow> Stage_refused (js ''service_unavailable''))"

text \<open>\<open>stageMemoryMutation\<close>; a cancelled request is \<open>None\<close>. \<open>uuid_like\<close> is its first check of the key.\<close>

definition uuid_like :: "jstr \<Rightarrow> bool" where
  "uuid_like v \<longleftrightarrow> matches (hexes 8 @ dash @ hexes 4 @ dash @ hexes 4 @ dash @ hexes 4 @ dash @ hexes 12) v"

definition stageMemoryMutation ::
  "(jstr \<Rightarrow> jstr) \<Rightarrow> jstr \<Rightarrow> stage_input \<Rightarrow> search_header option \<Rightarrow> search_item list \<Rightarrow> live_check \<Rightarrow> int \<Rightarrow> jstr \<Rightarrow>
     jstr \<times> jstr \<Rightarrow> mdb \<Rightarrow> stage_outcome option \<times> mdb" where
  "stageMemoryMutation D scope i header items live now observedAt fresh db =
     (if \<not> uuid_like (sg_key i) then (Some (Stage_refused (js ''validation_error'')), db)
      else let key = lower_ascii (sg_key i) in
        case resolveStagingIdentity D scope (sg_kind i) (sg_session i) (sg_handle i) (sg_body i) (sg_trusted i)
            header items of
          Identity_clarify candidates \<Rightarrow> (Some (Stage_clarify candidates), db)
        | Identity_refused code \<Rightarrow> (Some (Stage_refused code), db)
        | Identity record hash \<Rightarrow>
            (case getMemoryOperationByKey key db of
               Inl _ \<Rightarrow> (Some (Stage_refused (js ''service_unavailable'')), db)
             | Inr (Some existing) \<Rightarrow>
                 if o_hash existing \<noteq> hash \<or> o_session existing \<noteq> sg_session i \<or> o_kind existing \<noteq> sg_kind i \<or>
                    o_record existing \<noteq> record
                 then (Some (Stage_refused (js ''idempotency_conflict'')), db)
                 else (Some (Staged (o_id existing) (o_status existing) True), db)
             | Inr None \<Rightarrow>
                 (case live of
                    Live_cancelled \<Rightarrow> (None, db)
                  | Live_refused code \<Rightarrow> (Some (Stage_refused code), db)
                  | Live_current revision status turn \<Rightarrow>
                      if \<not> actionable (sg_kind i) status then (Some (Stage_refused (js ''state_conflict'')), db)
                      else let (ji, oi) = staged_inputs D scope i key record hash turn revision observedAt;
                               (out, db') = stageMemoryMutationAtomic ji oi now fresh db in
                        (Some (stage_result out), db'))))"

end
