(* ===== verification/Memory_Worker.thy ===== *)
theory Memory_Worker
  imports Memory_Service
begin

text \<open>
  The worker of the memory service (apps/server/src/memory_service.ts): what one executed job does to the outbox, whatever
  the external process answered, and the bounded drain tick over the due jobs. \<open>tags_of\<close> and \<open>quote_of\<close>
  stand for \<open>normalizeTopics\<close> and \<open>normalizeStoredEvidence\<close>, which rest on Unicode normal forms.
\<close>

subsection \<open>Follow-ups of a source event\<close>

record correction_chain =
  cc_record :: jstr
  cc_body :: jstr
  cc_provenance :: json
  cc_source :: jstr
  cc_correctKey :: jstr
  cc_client :: jstr
  cc_session :: jstr
  cc_run :: jstr
  cc_turn :: "jstr option"

text \<open>The fields of \<open>chain.correct\<close>, when they have the right types and the body its bounds.\<close>

definition correction_chain :: "json \<Rightarrow> correction_chain option" where
  "correction_chain chain =
     (let c = property chain ''correct'' in
      if \<not> is_object c then None
      else case (as_string (property c ''recordId''), as_string (property c ''body''), as_string (property c ''sourceEventId''),
          as_string (property c ''correctJobKey''), as_string (property c ''clientKey''),
          as_string (property c ''sessionId''), as_string (property c ''runId'')) of
        (Some record, Some body, Some source, Some correct, Some client, Some session, Some run) \<Rightarrow>
          if is_object (property c ''provenance'') \<and> correction_body_ok body
          then Some \<lparr>cc_record = record, cc_body = body, cc_provenance = property c ''provenance'',
                 cc_source = source, cc_correctKey = correct, cc_client = client, cc_session = session,
                 cc_run = run, cc_turn = as_string (property c ''turnId'')\<rparr>
          else None
      | _ \<Rightarrow> None)"

text \<open>The scope that the queued event was written for, or the configured one.\<close>

definition follow_scope :: "jstr \<Rightarrow> json \<Rightarrow> jstr" where
  "follow_scope scope request =
     (case as_string (property (property request ''params'') ''scope'') of
        Some s \<Rightarrow> if s \<noteq> [] then s else scope
      | None \<Rightarrow> scope)"

definition correct_request :: "jstr \<Rightarrow> correction_chain \<Rightarrow> json" where
  "correct_request scope c =
     JObj [(js ''op'', JStr (js ''record.correct'')),
       (js ''params'', JObj
          (str_members [(''recordId'', cc_record c), (''body'', cc_body c), (''kind'', js ''correction'')] @
           [(js ''provenance'', cc_provenance c),
            (js ''privacy'', JObj (str_members [(''sensitivity'', js ''sensitive''), (''origin'', js ''conversation'')]))] @
           str_members [(''scope'', scope)] @
           [(js ''sourceRefs'', JArr [JStr (cc_source c)])] @ str_members [(''runId'', cc_run c)]))]"

definition correct_job :: "jstr \<Rightarrow> correction_chain \<Rightarrow> job_input" where
  "correct_job scope c =
     \<lparr>ji_kind = js ''record.correct'', ji_session = cc_session c, ji_run = cc_run c, ji_scope = scope,
      ji_key = cc_correctKey c, ji_request = stringify (correct_request scope c), ji_turn = cc_turn c\<rparr>"

definition enqueueCorrectChainCorrection ::
  "jstr \<Rightarrow> json \<Rightarrow> int \<Rightarrow> jstr \<Rightarrow> mdb \<Rightarrow> (kerr + unit) \<times> mdb" where
  "enqueueCorrectChainCorrection scope request now freshId db =
     (case correction_chain (property request ''chain'') of
        None \<Rightarrow> (Inr (), db)
      | Some c \<Rightarrow>
          (case bindCorrectionFollowupAtomic (correct_job (follow_scope scope request) c) (cc_client c) now freshId db of
             (Inl e, db') \<Rightarrow> (Inl e, db')
           | (Inr _, db') \<Rightarrow> (Inr (), db')))"

text \<open>The extracted memories of a chain, and the job that each becomes.\<close>

record remember_item =
  ri_body :: jstr
  ri_kind :: jstr
  ri_sensitivity :: jstr
  ri_topics :: json
  ri_evidence :: json

definition remember_item :: "json \<Rightarrow> remember_item option" where
  "remember_item m =
     (case (as_string (property m ''body''), as_string (property m ''kind'')) of
        (Some body, Some kind) \<Rightarrow>
          if is_object m \<and> kind \<in> {js ''user_fact'', js ''model_inference'', js ''summary''} \<and>
             1 \<le> countCodePoints body \<and> countCodePoints body \<le> 2000
          then Some \<lparr>ri_body = body, ri_kind = kind,
                 ri_sensitivity = (if property m ''sensitivity'' = JStr (js ''normal'') then js ''normal'' else js ''sensitive''),
                 ri_topics = property m ''topics'', ri_evidence = property m ''evidence''\<rparr>
          else None
      | _ \<Rightarrow> None)"

definition remember_request ::
  "(json \<Rightarrow> jstr list) \<Rightarrow> (json \<Rightarrow> jstr option) \<Rightarrow> bool \<Rightarrow> json \<Rightarrow> jstr \<Rightarrow> jstr \<Rightarrow> jstr \<Rightarrow> jstr option \<Rightarrow>
     remember_item \<Rightarrow> json" where
  "remember_request tags_of quote_of send provenance scope run userEvent assistantEvent m =
     (let fact = ri_kind m = js ''user_fact'';
          quote = (if send \<and> fact then quote_of (ri_evidence m) else None);
          refs = (if fact then [userEvent]
                  else case assistantEvent of
                    None \<Rightarrow> [userEvent]
                  | Some a \<Rightarrow> if a = userEvent then [userEvent] else [userEvent, a]) in
      JObj [(js ''op'', JStr (js ''record.remember'')),
        (js ''params'', JObj
          (str_members [(''body'', ri_body m), (''kind'', ri_kind m)] @ [(js ''provenance'', provenance),
            (js ''privacy'', JObj (str_members [(''sensitivity'', ri_sensitivity m), (''origin'', js ''conversation'')]))] @
           str_members [(''scope'', scope)] @
           [(js ''tags'', JArr (map JStr (take 5 (tags_of (ri_topics m))))), (js ''links'', JArr []),
            (js ''sourceRefs'', JArr (map JStr refs))] @
           str_members [(''runId'', run)] @ opt_member ''evidence'' quote))])"

text \<open>One enqueue per accepted memory, numbered; a refused enqueue is ignored.\<close>

fun enqueue_memories ::
  "(jstr \<Rightarrow> jstr) \<Rightarrow> (remember_item \<Rightarrow> json) \<Rightarrow> jstr \<Rightarrow> jstr \<Rightarrow> jstr option \<Rightarrow> jstr \<Rightarrow> int \<Rightarrow> (nat \<Rightarrow> jstr) \<Rightarrow> nat \<Rightarrow>
     json list \<Rightarrow> mdb \<Rightarrow> mdb" where
  "enqueue_memories D request session run turn scope now fresh index [] db = db"
| "enqueue_memories D request session run turn scope now fresh index (m # ms) db =
     (case remember_item m of
        None \<Rightarrow> enqueue_memories D request session run turn scope now fresh index ms db
      | Some item \<Rightarrow>
          enqueue_memories D request session run turn scope now fresh (index + 1) ms
            (snd (enqueueMemoryJob (js ''record.remember'') session run scope
              (stableMemoryJobKey D [js ''remember'', run, dec index]) (stringify (request item)) turn None now
              (fresh index) db)))"

fun array_items :: "json \<Rightarrow> json list option" where
  "array_items (JArr xs) = Some xs"
| "array_items v = None"

definition non_empty :: "jstr option \<Rightarrow> jstr option" where
  "non_empty v = (case v of Some s \<Rightarrow> if s \<noteq> [] then Some s else None | None \<Rightarrow> None)"

definition enqueueRememberChainMemories ::
  "(jstr \<Rightarrow> jstr) \<Rightarrow> (json \<Rightarrow> jstr list) \<Rightarrow> (json \<Rightarrow> jstr option) \<Rightarrow> bool \<Rightarrow> jstr \<Rightarrow> json \<Rightarrow> int \<Rightarrow> (nat \<Rightarrow> jstr) \<Rightarrow>
     mdb \<Rightarrow> mdb" where
  "enqueueRememberChainMemories D tags_of quote_of send scope request now fresh db =
     (let chain = property request ''chain''; explicit = property chain ''sourceEventIds'' in
      case (as_string (property chain ''eventId''), as_string (property chain ''sessionId''),
          as_string (property chain ''runId''), array_items (property chain ''memories'')) of
        (Some eventId, Some session, Some run, Some memories) \<Rightarrow>
          if \<not> is_object (property chain ''provenance'') then db
          else
            let userEvent = (case non_empty (as_string (property explicit ''user'')) of Some u \<Rightarrow> u | None \<Rightarrow> eventId);
                assistantEvent = non_empty (as_string (property explicit ''assistant''));
                followed = follow_scope scope request in
            enqueue_memories D
              (remember_request tags_of quote_of send (property chain ''provenance'') followed run userEvent assistantEvent)
              session run (as_string (property chain ''turnId'')) followed now fresh 0 memories db
      | _ \<Rightarrow> db)"

definition enqueueManagementFollowUps ::
  "(jstr \<Rightarrow> jstr) \<Rightarrow> (json \<Rightarrow> jstr list) \<Rightarrow> (json \<Rightarrow> jstr option) \<Rightarrow> bool \<Rightarrow> jstr \<Rightarrow> json \<Rightarrow> int \<Rightarrow> (nat \<Rightarrow> jstr) \<Rightarrow> jstr \<Rightarrow>
     mdb \<Rightarrow> (kerr + unit) \<times> mdb" where
  "enqueueManagementFollowUps D tags_of quote_of send scope request now fresh freshId db =
     (if property request ''op'' \<noteq> JStr (js ''event.append'') then (Inr (), db)
      else if \<not> is_object (property request ''chain'') then (Inr (), db)
      else enqueueCorrectChainCorrection scope request now freshId
        (enqueueRememberChainMemories D tags_of quote_of send scope request now fresh db))"

subsection \<open>One job\<close>

text \<open>What became of the call: its answer, an abort, or a transport error with its code.\<close>

datatype cli_outcome =
    Cli_ok
  | Cli_rejected jstr
  | Cli_aborted
  | Cli_failed jstr

record job_env =
  e_outcome :: cli_outcome
  e_now :: int
  e_fresh :: "nat \<Rightarrow> jstr"
  e_freshCorrect :: jstr
  e_sendEvidence :: bool
  e_stopped :: bool
  e_leased :: bool

record worker =
  w_D :: "jstr \<Rightarrow> jstr"
  w_tags :: "json \<Rightarrow> jstr list"
  w_quote :: "json \<Rightarrow> jstr option"
  w_scope :: jstr
  w_gated :: bool

definition fail_job :: "jstr \<Rightarrow> string \<Rightarrow> int \<Rightarrow> int \<Rightarrow> mdb \<Rightarrow> mdb" where
  "fail_job i code maxAttempts now db =
     snd (failMemoryJobWithOperationMirror i (js code) (Some maxAttempts) now db)"

definition well_formed_request :: "json \<Rightarrow> bool" where
  "well_formed_request request \<longleftrightarrow> is_object request \<and> as_string (property request ''op'') \<noteq> None \<and>
     is_object (property request ''params'')"

definition transient_code :: "jstr \<Rightarrow> bool" where
  "transient_code code \<longleftrightarrow> code = js ''TIMEOUT'' \<or> code = js ''STORE_UNAVAILABLE''"

definition terminal_failure :: "jstr \<Rightarrow> bool" where
  "terminal_failure code \<longleftrightarrow> code = js ''cli_limit'' \<or> code = js ''cli_bad_request''"

text \<open>\<open>executeJob\<close>: whether the job reached a durable disposition in this tick, and the outbox after it.\<close>

definition executeJob :: "worker \<Rightarrow> job_row \<Rightarrow> job_env \<Rightarrow> mdb \<Rightarrow> bool \<times> mdb" where
  "executeJob w j e db =
     (case json_parse (j_request j) of
        None \<Rightarrow> (True, fail_job (j_id j) ''bad_request'' 1 (e_now e) db)
      | Some request \<Rightarrow>
          if \<not> well_formed_request request then (True, fail_job (j_id j) ''bad_request'' 1 (e_now e) db)
          else case getMemoryJob (j_id j) db of
            Inl _ \<Rightarrow> (False, db)
          | Inr None \<Rightarrow> (True, db)
          | Inr (Some row) \<Rightarrow>
              (case e_outcome e of
                 Cli_aborted \<Rightarrow> (False, fail_job (j_id j) ''cli_preempted'' 8 (e_now e) db)
               | Cli_failed code \<Rightarrow>
                   (terminal_failure code,
                    snd (failMemoryJobWithOperationMirror (j_id j) code
                      (Some (if terminal_failure code then 1 else 8)) (e_now e) db))
               | Cli_rejected code \<Rightarrow>
                   (\<not> transient_code code,
                    fail_job (j_id j) ''cli_rejected'' (if transient_code code then 8 else 1) (e_now e) db)
               | Cli_ok \<Rightarrow>
                   (case enqueueManagementFollowUps (w_D w) (w_tags w) (w_quote w) (e_sendEvidence e) (w_scope w)
                       request (e_now e) (e_fresh e) (e_freshCorrect e) db of
                      (Inl _, db1) \<Rightarrow> (False, db1)
                    | (Inr _, db1) \<Rightarrow>
                        (case ackMemoryJobWithOperationMirror (j_id j) (e_now e) db1 of
                           (Inl _, db2) \<Rightarrow> (False, db2)
                         | (Inr _, db2) \<Rightarrow> (True, db2)))))"

subsection \<open>The drain tick\<close>

definition MEMORY_DRAIN_BATCH :: nat where
  "MEMORY_DRAIN_BATCH = 5"

text \<open>
  One page of claimed jobs: the tick ends the page when it was stopped or has executed its batch; a distill job
  that gets no lease is skipped. The environment is indexed by the jobs considered so far.
\<close>

fun drain_page ::
  "worker \<Rightarrow> (nat \<Rightarrow> job_env) \<Rightarrow> job_row list \<Rightarrow> nat \<Rightarrow> nat \<Rightarrow> mdb \<Rightarrow> nat \<times> nat \<times> mdb" where
  "drain_page w env [] i executed db = (i, executed, db)"
| "drain_page w env (j # page) i executed db =
     (if e_stopped (env i) \<or> executed \<ge> MEMORY_DRAIN_BATCH then (i, executed, db)
      else if j_kind j = Maintain_distill \<and> w_gated w \<and> \<not> e_leased (env i)
      then drain_page w env page (i + 1) executed db
      else drain_page w env page (i + 1) (executed + 1) (snd (executeJob w j (env i) db)))"

text \<open>
  The loop of \<open>drainOnce\<close>. \<open>clock\<close> gives the time of a claim by the jobs executed so far, and \<open>halted\<close>
  says whether the tick was stopped there.
\<close>

lemma drain_page_executed: "executed \<le> fst (snd (drain_page w env page i executed db))"
  by (induction page arbitrary: i executed db) (auto simp: Let_def intro: Suc_leD)

lemma drain_page_grows: "(i', r) = drain_page w env page i executed db \<Longrightarrow> (executed', db') = r \<Longrightarrow> executed \<le> executed'"
  using drain_page_executed [of executed w env page i db] by (cases r) (metis fst_conv snd_conv)

function drain_loop ::
  "worker \<Rightarrow> (nat \<Rightarrow> job_env) \<Rightarrow> (nat \<Rightarrow> int) \<Rightarrow> (nat \<Rightarrow> bool) \<Rightarrow> nat \<Rightarrow> nat \<Rightarrow> mdb \<Rightarrow> nat \<times> mdb" where
  "drain_loop w env clock halted i executed db =
     (if executed \<ge> MEMORY_DRAIN_BATCH \<or> halted executed then (executed, db)
      else let requested = MEMORY_DRAIN_BATCH - executed in
        case claimDueMemoryJobs (int requested) (clock executed) db of
          Inl _ \<Rightarrow> (executed, db)
        | Inr page \<Rightarrow>
            if page = [] then (executed, db)
            else (case drain_page w env page i executed db of
                    (i', executed', db') \<Rightarrow>
                      if executed' = executed then (executed', db')
                      else if length page < requested then (executed', db')
                      else drain_loop w env clock halted i' executed' db'))"
  by pat_completeness auto
termination
  apply (relation "measure (\<lambda>(w, env, clock, halted, i, executed, db). MEMORY_DRAIN_BATCH - executed)")
   apply simp
  subgoal premises prems
    using prems(1,7) drain_page_grows [OF prems(5,6)] by (auto simp: not_le intro!: diff_less_mono2)
  done

definition drainOnce ::
  "worker \<Rightarrow> (nat \<Rightarrow> job_env) \<Rightarrow> (nat \<Rightarrow> int) \<Rightarrow> (nat \<Rightarrow> bool) \<Rightarrow> mdb \<Rightarrow> nat \<times> mdb" where
  "drainOnce w env clock halted db = drain_loop w env clock halted 0 0 db"

end
