(* ===== verification/Memory_Inv.thy ===== *)
theory Memory_Inv
  imports Memory_Worker
begin

text \<open>
  The invariant of the memory outbox under the service that fills and drains it: keys are unique, a pending job
  has attempts left, and the status of a management operation is the status of the job that
  decides it. A correction is decided by its \<open>record.correct\<close> job: while its operation is still bound to the source
  event, that event is not acknowledged. \<open>issued\<close> is the finite set of logical writes whose keys may
  appear, on which the digest has no collision.
\<close>

subsection \<open>Stable keys\<close>

definition digest_ok :: "(jstr \<Rightarrow> jstr) \<Rightarrow> bool" where
  "digest_ok D \<longleftrightarrow> (\<forall>t. sha256_hex_ok (D t))"

definition stable_key :: "(jstr \<Rightarrow> jstr) \<Rightarrow> jstr \<Rightarrow> jstr" where
  "stable_key D t = key_of_digest (D (js ''memory-job:'' @ t))"

definition separates :: "(jstr \<Rightarrow> jstr) \<Rightarrow> jstr set \<Rightarrow> bool" where
  "separates D issued \<longleftrightarrow> inj_on (stable_key D) issued"

lemma stableMemoryJobKey_stable: "stableMemoryJobKey D parts = stable_key D (join_parts parts)"
  by (simp add: stableMemoryJobKey_def stable_key_def)

text \<open>The logical write of a management operation, by its tag and the operation's key.\<close>

definition tagged :: "string \<Rightarrow> jstr \<Rightarrow> jstr" where
  "tagged tag k = js tag @ 58 # k"

lemma join_two [simp]: "join_parts [js tag, k] = tagged tag k"
  by (simp add: join_parts_def tagged_def)

definition status_tag :: "job_kind \<Rightarrow> string" where
  "status_tag kind = (if kind = Record_retire then ''retire'' else ''reactivate'')"

definition management_texts :: "jstr \<Rightarrow> jstr set" where
  "management_texts k = {tagged ''correct-event'' k, tagged ''correct'' k, tagged ''retire'' k, tagged ''reactivate'' k}"

definition management_text :: "jstr \<Rightarrow> bool" where
  "management_text t \<longleftrightarrow> takeWhile (\<lambda>u. u \<noteq> 58) t \<in> {js ''correct-event'', js ''correct'', js ''retire'', js ''reactivate''}"

lemma tag_head: "58 \<notin> set (js tag) \<Longrightarrow> takeWhile (\<lambda>u. u \<noteq> 58) (tagged tag k) = js tag"
  unfolding tagged_def by (subst takeWhile_append2) auto

lemma no_colon: "58 \<notin> set (js ''correct-event'')" "58 \<notin> set (js ''correct'')" "58 \<notin> set (js ''retire'')"
  "58 \<notin> set (js ''reactivate'')"
  by code_simp+

lemma tag_heads [simp]:
  "takeWhile (\<lambda>u. u \<noteq> 58) (tagged ''correct-event'' k) = js ''correct-event''"
  "takeWhile (\<lambda>u. u \<noteq> 58) (tagged ''correct'' k) = js ''correct''"
  "takeWhile (\<lambda>u. u \<noteq> 58) (tagged ''retire'' k) = js ''retire''"
  "takeWhile (\<lambda>u. u \<noteq> 58) (tagged ''reactivate'' k) = js ''reactivate''"
  by (rule tag_head no_colon)+

lemma tagged_inj [simp]: "tagged tag k = tagged tag k' \<longleftrightarrow> k = k'"
  by (simp add: tagged_def)

lemma tagged_ne [simp]:
  "tagged ''correct-event'' k \<noteq> tagged ''correct'' k'" "tagged ''correct-event'' k \<noteq> tagged ''retire'' k'"
  "tagged ''correct-event'' k \<noteq> tagged ''reactivate'' k'" "tagged ''correct'' k \<noteq> tagged ''correct-event'' k'"
  "tagged ''correct'' k \<noteq> tagged ''retire'' k'" "tagged ''correct'' k \<noteq> tagged ''reactivate'' k'"
  "tagged ''retire'' k \<noteq> tagged ''correct-event'' k'" "tagged ''retire'' k \<noteq> tagged ''correct'' k'"
  "tagged ''retire'' k \<noteq> tagged ''reactivate'' k'" "tagged ''reactivate'' k \<noteq> tagged ''correct-event'' k'"
  "tagged ''reactivate'' k \<noteq> tagged ''correct'' k'" "tagged ''reactivate'' k \<noteq> tagged ''retire'' k'"
  by (rule notI, drule arg_cong [where f = "takeWhile (\<lambda>u. u \<noteq> 58)"], simp)+

lemma management_tagged [simp]:
  "management_text (tagged ''correct-event'' k)" "management_text (tagged ''correct'' k)"
  "management_text (tagged ''retire'' k)" "management_text (tagged ''reactivate'' k)"
  by (simp_all add: management_text_def)

lemma event_key_stable: "event_key D k = stable_key D (tagged ''correct-event'' k)"
  by (simp add: event_key_def stableMemoryJobKey_stable)

lemma correct_key_stable: "correct_key D k = stable_key D (tagged ''correct'' k)"
  by (simp add: correct_key_def stableMemoryJobKey_stable)

lemma stable_eq: "separates D issued \<Longrightarrow> t \<in> issued \<Longrightarrow> t' \<in> issued \<Longrightarrow> stable_key D t = stable_key D t' \<longleftrightarrow> t = t'"
  by (auto simp: separates_def inj_on_eq_iff)

lemma lower_hex_digit: "(48 \<le> u \<and> u \<le> 57) \<or> (97 \<le> u \<and> u \<le> 102) \<Longrightarrow> lower_unit u = u"
  by (auto simp: lower_unit_def)

lemma variant_lower: "lower_unit (variant_unit u) = variant_unit u"
proof -
  have "hex_value u mod 4 \<in> {0, 1, 2, 3}"
    by auto
  then show ?thesis
    by (auto simp: variant_unit_def lower_unit_def)
qed

lemma stable_lower:
  assumes "digest_ok D"
  shows "lower_ascii (stable_key D t) = stable_key D t"
proof -
  let ?d = "D (js ''memory-job:'' @ t)"
  have "\<forall>u \<in> set ?d. lower_unit u = u"
    using assms lower_hex_digit by (auto simp: digest_ok_def sha256_hex_ok_def)
  moreover have "lower_unit 52 = 52"
    by (simp add: lower_unit_def)
  ultimately have "\<forall>u \<in> set ((?d[12 := 52])[16 := variant_unit (?d ! 16)]). lower_unit u = u"
    using variant_lower by (auto dest!: subsetD [OF set_update_subset_insert])
  then have "map lower_unit (take a (drop b ((?d[12 := 52])[16 := variant_unit (?d ! 16)]))) =
      take a (drop b ((?d[12 := 52])[16 := variant_unit (?d ! 16)]))" for a b
    by (intro map_idI) (auto dest!: in_set_takeD in_set_dropD)
  from this [of 8 0] this [of 4 8] this [of 4 12] this [of 4 16] this [of 12 20] show ?thesis
    by (simp add: stable_key_def key_of_digest_def lower_ascii_def Let_def) (simp add: lower_unit_def)
qed

subsection \<open>The invariant\<close>

text \<open>The correction that the execution of a job with this request continues.\<close>

definition request_chain :: "jstr \<Rightarrow> correction_chain option" where
  "request_chain t =
     (case json_parse t of
        None \<Rightarrow> None
      | Some request \<Rightarrow>
          if property request ''op'' = JStr (js ''event.append'') \<and> is_object (property request ''chain'')
          then correction_chain (property request ''chain'') else None)"

text \<open>The logical writes of the memories that its execution enqueues.\<close>

definition chain_texts :: "jstr \<Rightarrow> jstr set" where
  "chain_texts t =
     (case json_parse t of
        None \<Rightarrow> {}
      | Some request \<Rightarrow>
          if property request ''op'' = JStr (js ''event.append'') \<and> is_object (property request ''chain'')
          then (case (as_string (property (property request ''chain'') ''runId''),
                      array_items (property (property request ''chain'') ''memories'')) of
                  (Some run, Some memories) \<Rightarrow> (\<lambda>i. join_parts [js ''remember'', run, dec i]) ` {..<length memories}
                | _ \<Rightarrow> {})
          else {})"

definition plain_request :: "jstr \<Rightarrow> bool" where
  "plain_request t \<longleftrightarrow> request_chain t = None \<and> chain_texts t = {}"

text \<open>The job that settles a correction, as opposed to its source event.\<close>

definition corrects :: "(jstr \<Rightarrow> jstr) \<Rightarrow> operation_row \<Rightarrow> job_row \<Rightarrow> bool" where
  "corrects D p j \<longleftrightarrow> j_key j = correct_key D (o_key p) \<and> j_kind j = Record_correct"

definition decides :: "(jstr \<Rightarrow> jstr) \<Rightarrow> operation_row \<Rightarrow> job_row \<Rightarrow> bool" where
  "decides D p j \<longleftrightarrow> j_id j = o_job p \<and> o_status p = j_status j \<and>
     (if o_kind p = Record_correct
      then corrects D p j \<or>
        j_key j = event_key D (o_key p) \<and> j_kind j = Event_append \<and> j_status j \<noteq> Job_acked
      else j_key j = stable_key D (tagged (status_tag (o_kind p)) (o_key p)) \<and> j_kind j = o_kind p)"

definition operation_ok :: "(jstr \<Rightarrow> jstr) \<Rightarrow> jstr set \<Rightarrow> job_row set \<Rightarrow> operation_row \<Rightarrow> bool" where
  "operation_ok D issued J p \<longleftrightarrow> management_kind (o_kind p) \<and> management_texts (o_key p) \<subseteq> issued \<and> (\<exists>j \<in> J. decides D p j)"

definition owned :: "(jstr \<Rightarrow> jstr) \<Rightarrow> jstr set \<Rightarrow> operation_row set \<Rightarrow> job_row \<Rightarrow> bool" where
  "owned D issued P j \<longleftrightarrow>
     (\<forall>k t. management_texts k \<subseteq> issued \<longrightarrow> t \<in> management_texts k \<longrightarrow> j_key j = stable_key D t \<longrightarrow>
        (\<exists>p \<in> P. o_key p = k \<and> (t = tagged ''correct-event'' k \<and> o_kind p = Record_correct \<or> o_job p = j_id j)))"

definition job_ok :: "(jstr \<Rightarrow> jstr) \<Rightarrow> jstr set \<Rightarrow> operation_row set \<Rightarrow> job_row \<Rightarrow> bool" where
  "job_ok D issued P j \<longleftrightarrow>
     (\<exists>t \<in> issued. j_key j = stable_key D t) \<and>
     (j_status j = Job_pending \<longrightarrow> j_attempts j < 8) \<and>
     owned D issued P j \<and>
     chain_texts (j_request j) \<subseteq> issued \<and>
     (\<forall>c. request_chain (j_request j) = Some c \<longrightarrow> lower_ascii (cc_client c) = cc_client c \<and>
        management_texts (cc_client c) \<subseteq> issued \<and>
        j_key j = event_key D (cc_client c) \<and> cc_correctKey c = correct_key D (cc_client c)) \<and>
     (\<forall>k. management_texts k \<subseteq> issued \<longrightarrow> j_key j = event_key D k \<longrightarrow>
        (\<exists>c. request_chain (j_request j) = Some c \<and> cc_client c = k))"

definition memory_ok :: "(jstr \<Rightarrow> jstr) \<Rightarrow> jstr set \<Rightarrow> mdb \<Rightarrow> bool" where
  "memory_ok D issued db \<longleftrightarrow>
     distinct (map j_id (jobs db)) \<and> distinct (map j_key (jobs db)) \<and>
     distinct (map o_id (operations db)) \<and> distinct (map o_key (operations db)) \<and>
     (\<forall>j \<in> set (jobs db). job_ok D issued (set (operations db)) j) \<and>
     (\<forall>p \<in> set (operations db). operation_ok D issued (set (jobs db)) p)"

subsection \<open>Requests and the chains they carry\<close>

lemma writable_str_members [simp]: "list_all (\<lambda>kv. writable (snd kv)) (str_members kvs)"
  by (auto simp: str_members_def list_all_iff)

lemma keys_str_members [simp]: "map fst (str_members kvs) = map (\<lambda>kv. js (fst kv)) kvs"
  by (auto simp: str_members_def)

lemma str_members_Nil [simp]: "str_members [] = []"
  by (simp add: str_members_def)

lemma str_members_Cons [simp]: "str_members ((k, v) # kvs) = (js k, JStr v) # str_members kvs"
  by (simp add: str_members_def)

lemma opt_member_simps [simp]: "opt_member k None = []" "opt_member k (Some v) = [(js k, JStr v)]"
  by (simp_all add: opt_member_def)

lemma property_Cons: "property (JObj ((js k', v) # kvs)) k = (if k = k' then v else property (JObj kvs) k)"
  by auto

lemma property_Nil: "property (JObj []) k = JUndef"
  by simp

lemma request_chain_stringify:
  assumes "writable v"
  shows "request_chain (stringify v) =
    (if property v ''op'' = JStr (js ''event.append'') \<and> is_object (property v ''chain'')
     then correction_chain (ordered (property v ''chain'')) else None)"
  using assms by (simp add: request_chain_def parse_stringify property_ordered)

lemma plain_request_other:
  assumes "writable v" "property v ''op'' \<noteq> JStr (js ''event.append'')"
  shows "plain_request (stringify v)"
  using assms by (simp add: plain_request_def request_chain_def chain_texts_def parse_stringify property_ordered)

lemma writable_correction_event: "writable (correction_event D r)"
  by (simp add: correction_event_def Let_def)

lemma correction_event_op: "property (correction_event D r) ''op'' = JStr (js ''event.append'')"
  unfolding correction_event_def Let_def by (simp only: property_Cons) simp

lemma correction_event_chain:
  "property (correction_event D r) ''chain'' = JObj [(js ''correct'', JObj
     (str_members [(''recordId'', cr_record r), (''body'', cr_body r)] @
      [(js ''provenance'', JObj (str_members [(''source'', js ''companion:conversation''), (''observedAt'', cr_observedAt r)]))] @
      str_members [(''sourceEventId'', source_event_id (cr_key r)),
        (''correctJobKey'', correct_key D (cr_key r)), (''clientKey'', cr_key r),
        (''sessionId'', cr_session r), (''runId'', cr_run r), (''turnId'', cr_turn r)]))]"
  unfolding correction_event_def Let_def by (simp only: property_Cons) simp

lemma correction_event_request:
  assumes "correction_body_ok (cr_body r)"
  shows "\<exists>c. request_chain (stringify (correction_event D r)) = Some c \<and> cc_client c = cr_key r \<and>
    cc_correctKey c = correct_key D (cr_key r)"
proof -
  let ?chain = "property (correction_event D r) ''chain''"
  have w: "writable ?chain" "writable (property ?chain ''correct'')"
    unfolding correction_event_chain by (simp_all add: property_Cons)
  have p: "property (property ?chain ''correct'') k = property (JObj
     (str_members [(''recordId'', cr_record r), (''body'', cr_body r)] @
      [(js ''provenance'', JObj (str_members [(''source'', js ''companion:conversation''), (''observedAt'', cr_observedAt r)]))] @
      str_members [(''sourceEventId'', source_event_id (cr_key r)),
        (''correctJobKey'', correct_key D (cr_key r)), (''clientKey'', cr_key r),
        (''sessionId'', cr_session r), (''runId'', cr_run r), (''turnId'', cr_turn r)])) k" for k
    unfolding correction_event_chain by (simp only: property_Cons) simp
  have o: "property (ordered ?chain) ''correct'' = ordered (property ?chain ''correct'')"
    using w(1) by (rule property_ordered)
  have q: "property (ordered (property ?chain ''correct'')) k = ordered (property (property ?chain ''correct'') k)" for k
    using w(2) by (rule property_ordered)
  have ob: "is_object (property ?chain ''correct'')"
    unfolding correction_event_chain by (simp only: property_Cons) simp
  have "correction_chain (ordered ?chain) \<noteq> None"
    "\<And>c. correction_chain (ordered ?chain) = Some c \<Longrightarrow> cc_client c = cr_key r \<and> cc_correctKey c = correct_key D (cr_key r)"
    unfolding correction_chain_def Let_def o q p as_string_ordered is_object_ordered
    using assms ob by (simp_all add: property_Cons)
  then show ?thesis
    using writable_correction_event [of D r] correction_event_op [of D r]
    by (auto simp: request_chain_stringify correction_event_chain)
qed

lemma correction_event_texts: "chain_texts (stringify (correction_event D r)) = {}"
proof -
  let ?chain = "property (correction_event D r) ''chain''"
  have "writable ?chain" "property ?chain ''memories'' = JUndef"
    unfolding correction_event_chain by (simp_all add: property_Cons)
  then have "array_items (property (ordered ?chain) ''memories'') = None"
    by (simp add: property_ordered)
  then show ?thesis
    using writable_correction_event [of D r]
    by (simp add: chain_texts_def parse_stringify property_ordered split: option.splits)
qed

lemma status_request_plain:
  assumes "kind = Record_retire \<or> kind = Record_reactivate"
  shows "plain_request (stringify (status_request kind record scope))"
proof (rule plain_request_other)
  show "writable (status_request kind record scope)"
    using assms by (auto simp: status_request_def reason_code_def)
  show "property (status_request kind record scope) ''op'' \<noteq> JStr (js ''event.append'')"
    using assms by (auto simp: status_request_def kind_text_def)
qed

lemma correct_request_plain:
  assumes "writable (cc_provenance c)"
  shows "plain_request (stringify (correct_request scope c))"
proof (rule plain_request_other)
  show "writable (correct_request scope c)"
    using assms by (simp add: correct_request_def)
  show "property (correct_request scope c) ''op'' \<noteq> JStr (js ''event.append'')"
    by (simp add: correct_request_def)
qed

lemma remember_request_plain:
  assumes "writable provenance"
  shows "plain_request (stringify (remember_request tags quote send provenance scope run u a m))"
proof (rule plain_request_other)
  show "writable (remember_request tags quote send provenance scope run u a m)"
    using assms by (auto simp: remember_request_def Let_def opt_member_def list_all_iff split: option.splits)
  show "property (remember_request tags quote send provenance scope run u a m) ''op'' \<noteq> JStr (js ''event.append'')"
    by (simp add: remember_request_def Let_def)
qed

subsection \<open>Updates that keep the invariant\<close>

lemma owned_mono: "owned D issued P j \<Longrightarrow> (\<And>p. p \<in> P \<Longrightarrow> \<exists>q \<in> Q. o_key q = o_key p \<and> o_kind q = o_kind p \<and> o_job q = o_job p) \<Longrightarrow>
    j_id j' = j_id j \<Longrightarrow> j_key j' = j_key j \<Longrightarrow> owned D issued Q j'"
  unfolding owned_def by (smt (verit))

lemma job_ok_mono: "job_ok D issued P j \<Longrightarrow> P \<subseteq> Q \<Longrightarrow> job_ok D issued Q j"
  unfolding job_ok_def using owned_mono [of D issued P j Q j] by blast

lemma operation_ok_mono: "operation_ok D issued J p \<Longrightarrow> J \<subseteq> K \<Longrightarrow> operation_ok D issued K p"
  unfolding operation_ok_def by blast

lemma job_ok_insert: "job_ok D issued P j \<Longrightarrow> job_ok D issued (insert p P) j"
  by (rule job_ok_mono) auto

lemma operation_ok_insert: "operation_ok D issued J p \<Longrightarrow> operation_ok D issued (insert j J) p"
  by (rule operation_ok_mono) auto

lemma memory_ok_add_job:
  assumes "memory_ok D issued db" "j_id row \<notin> j_id ` set (jobs db)" "j_key row \<notin> j_key ` set (jobs db)"
    "job_ok D issued (set (operations db)) row"
  shows "memory_ok D issued (db\<lparr>jobs := jobs db @ [row]\<rparr>)"
  using assms unfolding memory_ok_def by (auto intro: operation_ok_insert)

lemma memory_ok_add_both:
  assumes "memory_ok D issued db" "j_id row \<notin> j_id ` set (jobs db)" "j_key row \<notin> j_key ` set (jobs db)"
    "o_id p \<notin> o_id ` set (operations db)" "o_key p \<notin> o_key ` set (operations db)"
    "job_ok D issued (insert p (set (operations db))) row" "operation_ok D issued (insert row (set (jobs db))) p"
  shows "memory_ok D issued (db\<lparr>jobs := jobs db @ [row], operations := operations db @ [p]\<rparr>)"
  using assms unfolding memory_ok_def by (auto intro: operation_ok_insert job_ok_insert)

lemma job_ok_cong:
  assumes "job_ok D issued P j" "owned D issued Q j'" "j_key j' = j_key j" "j_request j' = j_request j"
    "j_status j' = Job_pending \<longrightarrow> j_attempts j' < 8"
  shows "job_ok D issued Q j'"
  using assms unfolding job_ok_def by metis

lemma memory_ok_map:
  assumes ok: "memory_ok D issued db"
    and f: "\<And>j. j \<in> set (jobs db) \<Longrightarrow> j_id (f j) = j_id j \<and> j_key (f j) = j_key j \<and> j_request (f j) = j_request j \<and>
        (j_status (f j) = Job_pending \<longrightarrow> j_attempts (f j) < 8)"
    and g: "\<And>p. p \<in> set (operations db) \<Longrightarrow> o_id (g p) = o_id p \<and> o_key (g p) = o_key p \<and> o_kind (g p) = o_kind p \<and>
        o_job (g p) = o_job p"
    and fg: "\<And>p j. p \<in> set (operations db) \<Longrightarrow> j \<in> set (jobs db) \<Longrightarrow> decides D p j \<Longrightarrow> decides D (g p) (f j)"
  shows "memory_ok D issued (db\<lparr>jobs := map f (jobs db), operations := map g (operations db)\<rparr>)"
proof -
  have keys: "map j_id (map f (jobs db)) = map j_id (jobs db)" "map j_key (map f (jobs db)) = map j_key (jobs db)"
      "map o_id (map g (operations db)) = map o_id (operations db)"
      "map o_key (map g (operations db)) = map o_key (operations db)"
    using f g by simp_all
  have "job_ok D issued (g ` set (operations db)) (f j)" if j: "j \<in> set (jobs db)" for j
  proof (rule job_ok_cong)
    show "job_ok D issued (set (operations db)) j"
      using ok j by (simp add: memory_ok_def)
    then have "owned D issued (set (operations db)) j"
      by (simp add: job_ok_def)
    then show "owned D issued (g ` set (operations db)) (f j)"
      using f [OF j] g by (rule_tac owned_mono) auto
  qed (use f [OF j] in simp_all)
  moreover have "operation_ok D issued (f ` set (jobs db)) (g p)" if p: "p \<in> set (operations db)" for p
  proof -
    have "operation_ok D issued (set (jobs db)) p"
      using ok p by (simp add: memory_ok_def)
    then obtain j where j: "j \<in> set (jobs db)" "decides D p j" "management_kind (o_kind p)"
        "management_texts (o_key p) \<subseteq> issued"
      by (auto simp: operation_ok_def)
    then show ?thesis
      using g [OF p] fg [OF p j(1,2)] unfolding operation_ok_def by auto
  qed
  ultimately show ?thesis
    using ok unfolding memory_ok_def by (simp add: keys del: map_map)
qed

lemma decides_bound:
  assumes "memory_ok D issued db" "p \<in> set (operations db)" "j \<in> set (jobs db)" "o_job p = j_id j"
  shows "decides D p j"
proof -
  obtain i where "i \<in> set (jobs db)" "decides D p i"
    using assms by (auto simp: memory_ok_def operation_ok_def)
  moreover have "i = j"
    using calculation assms by (auto simp: memory_ok_def decides_def intro: distinct_key_eq [where key = j_id])
  ultimately show ?thesis by simp
qed

text \<open>One job row changes, and the pending operations bound to it take its new status.\<close>

lemma memory_ok_job:
  assumes ok: "memory_ok D issued db" and j: "j \<in> set (jobs db)" "j_status j = Job_pending"
    and same: "j_id j' = j_id j" "j_kind j' = j_kind j" "j_key j' = j_key j" "j_request j' = j_request j"
    and left: "j_status j' = Job_pending \<longrightarrow> j_attempts j' < 8"
    and bound: "\<And>p. p \<in> set (operations db) \<Longrightarrow> o_job p = j_id j \<Longrightarrow> o_kind p = Record_correct \<Longrightarrow>
        j_status j' = Job_acked \<Longrightarrow> corrects D p j"
  shows "memory_ok D issued (db\<lparr>jobs := put_row j_id j' (jobs db),
    operations := upd_where (mirrored (j_id j)) (set_status (j_status j') now) (operations db)\<rparr>)"
  unfolding put_row_def upd_where_def
proof (rule memory_ok_map [OF ok])
  fix p i
  assume p: "p \<in> set (operations db)" and i: "i \<in> set (jobs db)" and d: "decides D p i"
  show "decides D (if mirrored (j_id j) p then set_status (j_status j') now p else p) (if j_id i = j_id j' then j' else i)"
  proof (cases "j_id i = j_id j")
    case True
    then have "i = j"
      using ok i j by (auto simp: memory_ok_def intro: distinct_key_eq [where key = j_id])
    then have "mirrored (j_id j) p" "decides D p j"
      using d j by (auto simp: decides_def mirrored_def)
    then show ?thesis
      using True same bound [OF p] j(2) by (auto simp: decides_def corrects_def set_status_def)
  next
    case False
    then show ?thesis
      using d same by (auto simp: decides_def corrects_def mirrored_def)
  qed
next
  fix i
  assume "i \<in> set (jobs db)"
  then show "j_id (if j_id i = j_id j' then j' else i) = j_id i \<and> j_key (if j_id i = j_id j' then j' else i) = j_key i \<and>
      j_request (if j_id i = j_id j' then j' else i) = j_request i \<and>
      (j_status (if j_id i = j_id j' then j' else i) = Job_pending \<longrightarrow> j_attempts (if j_id i = j_id j' then j' else i) < 8)"
    using ok same left j distinct_key_eq [of j_id "jobs db" i j] by (auto simp: memory_ok_def job_ok_def)
qed (auto simp: set_status_def)

end
