(* ===== verification/Memory_Steps.thy ===== *)
theory Memory_Steps
  imports Memory_Inv
begin

text \<open>
  Each operation that the memory service performs on the outbox keeps its invariant, and leaves the jobs that it is not about
  as they are.
\<close>

subsection \<open>Reading by key\<close>

lemma jobByKey_Some: "jobByKey db k = Some j \<Longrightarrow> j \<in> set (jobs db) \<and> j_key j = k"
  unfolding jobByKey_def by (rule find_key_Some)

lemma jobByKey_None: "jobByKey db k = None \<longleftrightarrow> k \<notin> j_key ` set (jobs db)"
  unfolding jobByKey_def by (rule find_key_None)

lemma getMemoryJobRow_Some: "getMemoryJobRow db i = Some j \<Longrightarrow> j \<in> set (jobs db) \<and> j_id j = i"
  unfolding getMemoryJobRow_def by (rule find_key_Some)

lemma getMemoryJobRow_None: "getMemoryJobRow db i = None \<longleftrightarrow> i \<notin> j_id ` set (jobs db)"
  unfolding getMemoryJobRow_def by (rule find_key_None)

lemma operationByKey_Some: "operationByKey db k = Some p \<Longrightarrow> p \<in> set (operations db) \<and> o_key p = k"
  unfolding operationByKey_def by (rule find_key_Some)

lemma operationByKey_None: "operationByKey db k = None \<longleftrightarrow> k \<notin> o_key ` set (operations db)"
  unfolding operationByKey_def by (rule find_key_None)

lemma operationRow_None: "operationRow db i = None \<longleftrightarrow> i \<notin> o_id ` set (operations db)"
  unfolding operationRow_def by (rule find_key_None)

lemmas row_reads = jobByKey_None getMemoryJobRow_None operationByKey_None operationRow_None

lemma memory_okD:
  assumes "memory_ok D issued db"
  shows "distinct (map j_id (jobs db))" "distinct (map j_key (jobs db))" "distinct (map o_id (operations db))"
    "distinct (map o_key (operations db))"
    "j \<in> set (jobs db) \<Longrightarrow> job_ok D issued (set (operations db)) j"
    "p \<in> set (operations db) \<Longrightarrow> operation_ok D issued (set (jobs db)) p"
  using assms by (auto simp: memory_ok_def)

lemma memory_ok_tables:
  assumes "distinct (map j_id rows)" "distinct (map j_key rows)" "distinct (map o_id ps)" "distinct (map o_key ps)"
    "\<forall>j \<in> set rows. job_ok D issued (set ps) j" "\<forall>p \<in> set ps. operation_ok D issued (set rows) p"
  shows "memory_ok D issued (db\<lparr>jobs := rows, operations := ps\<rparr>)"
  using assms by (simp add: memory_ok_def)

lemma insert_job_Inr:
  "insert_job j db = Inr db' \<longleftrightarrow> json_parse (j_request j) \<noteq> None \<and> j_id j \<notin> j_id ` set (jobs db) \<and>
     j_key j \<notin> j_key ` set (jobs db) \<and> db' = db\<lparr>jobs := jobs db @ [j]\<rparr>"
  by (auto simp: insert_job_def row_reads)

lemma insert_operation_Inr:
  "insert_operation p db = Inr db' \<Longrightarrow> management_kind (o_kind p) \<and> o_id p \<notin> o_id ` set (operations db) \<and>
     o_key p \<notin> o_key ` set (operations db) \<and> db' = db\<lparr>operations := operations db @ [p]\<rparr>"
  by (auto simp: insert_operation_def row_reads split: if_splits)

lemma pending_job_sel [simp]:
  "j_id (pending_job i kind session run turn event scope key request now) = i"
  "j_key (pending_job i kind session run turn event scope key request now) = key"
  "j_request (pending_job i kind session run turn event scope key request now) = request"
  "j_status (pending_job i kind session run turn event scope key request now) = Job_pending"
  "j_attempts (pending_job i kind session run turn event scope key request now) = 0"
  "j_kind (pending_job i kind session run turn event scope key request now) = kind"
  by (simp_all add: pending_job_def)

subsection \<open>Enqueue\<close>

lemma management_text_of: "t \<in> management_texts k \<Longrightarrow> management_text t"
  by (auto simp: management_texts_def)

lemma job_ok_other:
  assumes "separates D issued" "t \<in> issued" "\<not> management_text t" "j_key j = stable_key D t" "j_attempts j < 8"
    "request_chain (j_request j) = None" "chain_texts (j_request j) \<subseteq> issued"
  shows "job_ok D issued P j"
proof -
  have n: "stable_key D t' \<noteq> stable_key D t" if "t' \<in> management_texts k" "management_texts k \<subseteq> issued" for t' k
    using stable_eq [OF assms(1,2), of t'] that management_text_of [OF that(1)] assms(3) by auto
  have "stable_key D t \<noteq> event_key D k" if "management_texts k \<subseteq> issued" for k
    using n [OF _ that, of "tagged ''correct-event'' k"] by (auto simp: event_key_stable management_texts_def)
  moreover have "owned D issued P j"
    unfolding owned_def using n assms(4) by metis
  ultimately show ?thesis
    using assms unfolding job_ok_def by auto
qed

lemma enqueue_ok:
  assumes "memory_ok D issued db" "digest_ok D" "separates D issued" "t \<in> issued" "\<not> management_text t"
    "request_chain request = None" "chain_texts request \<subseteq> issued"
    and out: "enqueueMemoryJob kind session run scope (stable_key D t) request turn event now freshId db = (out1, db')"
  shows "memory_ok D issued db' \<and> set (jobs db) \<subseteq> set (jobs db') \<and> operations db' = operations db"
proof -
  have "memory_ok D issued (db\<lparr>jobs := jobs db @ [pending_job freshId k session run turn event scope (stable_key D t) request now]\<rparr>)"
    if "freshId \<notin> j_id ` set (jobs db)" "stable_key D t \<notin> j_key ` set (jobs db)" for k
    using that assms(1) job_ok_other [OF assms(3-5)] assms(6,7) by (intro memory_ok_add_job) auto
  then show ?thesis
    using out assms(1) stable_lower [OF assms(2), of t]
    by (auto simp: enqueueMemoryJob_def withImmediate_def Let_def rbind_eq_Inr insert_job_Inr
        split: option.splits if_splits sum.splits)
qed

subsection \<open>The end of a job\<close>

text \<open>Jobs other than the one that an operation is about stay as they are.\<close>

definition only_job :: "jstr \<Rightarrow> mdb \<Rightarrow> mdb \<Rightarrow> bool" where
  "only_job i db db' \<longleftrightarrow> (\<forall>j \<in> set (jobs db). j_id j \<noteq> i \<longrightarrow> j \<in> set (jobs db'))"

lemma only_job_refl [simp]: "only_job i db db"
  by (simp add: only_job_def)

lemma only_job_trans: "only_job i a b \<Longrightarrow> only_job i b c \<Longrightarrow> only_job i a c"
  by (simp add: only_job_def)

lemma only_job_grows: "set (jobs db) \<subseteq> set (jobs db') \<Longrightarrow> only_job i db db'"
  by (auto simp: only_job_def)

lemma only_job_put: "j_id j' = i \<Longrightarrow> only_job i db (db\<lparr>jobs := put_row j_id j' (jobs db), operations := ps\<rparr>)"
  by (auto simp: only_job_def put_row_def upd_where_def)

lemma put_job:
  assumes "memory_ok D issued db" "j \<in> set (jobs db)" "j_status j = Job_pending" "j_id (f j) = j_id j"
  shows "upd_where (pending_id (j_id j)) f (jobs db) = put_row j_id (f j) (jobs db)"
    "upd_where (\<lambda>i. j_id i = j_id j) f (jobs db) = put_row j_id (f j) (jobs db)"
    "count_where (pending_id (j_id j)) (jobs db) = 1"
proof -
  note d = memory_okD(1) [OF assms(1)]
  show "upd_where (pending_id (j_id j)) f (jobs db) = put_row j_id (f j) (jobs db)"
    using assms(3,4) by (intro upd_where_key [OF d assms(2), of _ "\<lambda>i. j_status i = Job_pending"]) (auto simp: pending_id_def)
  show "upd_where (\<lambda>i. j_id i = j_id j) f (jobs db) = put_row j_id (f j) (jobs db)"
    using assms(4) by (intro upd_where_key [OF d assms(2), of _ "\<lambda>_. True"]) auto
  show "count_where (pending_id (j_id j)) (jobs db) = 1"
    using assms(3) by (intro count_where_key [OF d assms(2), of _ "\<lambda>i. j_status i = Job_pending"]) (auto simp: pending_id_def)
qed

lemma no_update: "(\<And>j. j \<in> set rows \<Longrightarrow> \<not> p j) \<Longrightarrow> upd_where p f rows = rows"
  by (simp add: upd_where_def map_idI)

lemma ack_ok:
  assumes ok: "memory_ok D issued db"
    and bound: "\<And>j p. j \<in> set (jobs db) \<Longrightarrow> j_id j = i \<Longrightarrow> p \<in> set (operations db) \<Longrightarrow> o_job p = i \<Longrightarrow>
        o_kind p = Record_correct \<Longrightarrow> corrects D p j"
    and out: "ackMemoryJobWithOperationMirror i now db = (out1, db')"
  shows "memory_ok D issued db' \<and> only_job i db db'"
proof (cases "\<exists>j \<in> set (jobs db). j_id j = i \<and> j_status j = Job_pending")
  case True
  then obtain j where j: "j \<in> set (jobs db)" "i = j_id j" "j_status j = Job_pending"
    by blast
  let ?db = "db\<lparr>jobs := put_row j_id (ack_update now j) (jobs db),
    operations := upd_where (mirrored (j_id j)) (set_status Job_acked now) (operations db)\<rparr>"
  have "memory_ok D issued ?db"
    using memory_ok_job [OF ok j(1,3), of "ack_update now j" now] bound j by (auto simp: ack_update_def)
  moreover have "only_job i db ?db"
    by (rule only_job_put) (simp add: ack_update_def j)
  moreover have "db' = db \<or> db' = ?db"
    using out put_job [OF ok j(1,3), of "ack_update now"] j
    by (auto simp: ackMemoryJobWithOperationMirror_def withImmediate_def update_jobs_def update_operations_def
        ack_update_def split: if_splits)
  ultimately show ?thesis
    using ok by auto
next
  case False
  then have "upd_where (pending_id i) (ack_update now) (jobs db) = jobs db" "count_where (pending_id i) (jobs db) = 0"
    by (auto intro!: no_update simp: pending_id_def count_where_zero)
  then have "db' = db"
    using out by (auto simp: ackMemoryJobWithOperationMirror_def withImmediate_def update_jobs_def split: if_splits)
  then show ?thesis
    using ok by simp
qed

lemma memory_ok_rearm:
  assumes ok: "memory_ok D issued db" and j: "j \<in> set (jobs db)" "j_status j = Job_pending" and n: "n < 8"
  shows "memory_ok D issued (db\<lparr>jobs := put_row j_id (rearm_update n code now j) (jobs db)\<rparr>)"
proof -
  let ?f = "\<lambda>i. if j_id i = j_id j then rearm_update n code now j else i"
  have same: "i = j" if "i \<in> set (jobs db)" "j_id i = j_id j" for i
    using that j(1) memory_okD(1) [OF ok] by (auto intro: distinct_key_eq [where key = j_id])
  have "memory_ok D issued (db\<lparr>jobs := map ?f (jobs db), operations := map (\<lambda>p. p) (operations db)\<rparr>)"
  proof (rule memory_ok_map [OF ok])
    fix i
    assume "i \<in> set (jobs db)"
    then show "j_id (?f i) = j_id i \<and> j_key (?f i) = j_key i \<and> j_request (?f i) = j_request i \<and>
        (j_status (?f i) = Job_pending \<longrightarrow> j_attempts (?f i) < 8)"
      using n same [of i] memory_okD(5) [OF ok, of i] by (auto simp: rearm_update_def job_ok_def)
  next
    fix p i
    assume "p \<in> set (operations db)" "i \<in> set (jobs db)" "decides D p i"
    then show "decides D p (?f i)"
      using j same [of i] by (auto simp: decides_def rearm_update_def corrects_def)
  qed simp
  moreover have "put_row j_id (rearm_update n code now j) (jobs db) = map ?f (jobs db)"
    by (simp add: put_row_def upd_where_def rearm_update_def)
  moreover have "db\<lparr>jobs := rows, operations := map (\<lambda>p. p) (operations db)\<rparr> = db\<lparr>jobs := rows\<rparr>" for rows
    by (cases db) simp
  ultimately show ?thesis
    by metis
qed

lemma fail_ok:
  assumes ok: "memory_ok D issued db" and m: "default_attempts attempts \<le> 8"
    and out: "failMemoryJobWithOperationMirror i code attempts now db = (out1, db')"
  shows "memory_ok D issued db' \<and> only_job i db db'"
proof (cases "\<exists>j \<in> set (jobs db). j_id j = i \<and> j_status j = Job_pending")
  case True
  then obtain j where j: "j \<in> set (jobs db)" "i = j_id j" "j_status j = Job_pending"
    by blast
  have row: "getMemoryJobRow db i = Some j"
    unfolding getMemoryJobRow_def j(2) using find_key_distinct [OF memory_okD(1) [OF ok] j(1)] .
  let ?n = "j_attempts j + 1"
  let ?dead = "db\<lparr>jobs := put_row j_id (fail_update ?n code now j) (jobs db),
    operations := upd_where (mirrored (j_id j)) (set_status Job_failed now) (operations db)\<rparr>"
  let ?again = "db\<lparr>jobs := put_row j_id (rearm_update ?n code now j) (jobs db)\<rparr>"
  have "memory_ok D issued ?dead"
    using memory_ok_job [OF ok j(1,3), of "fail_update ?n code now j" now] by (auto simp: fail_update_def)
  moreover have "memory_ok D issued ?again" if "int ?n < default_attempts attempts"
    using that m j memory_ok_rearm [OF ok j(1,3), of ?n code now] by auto
  moreover have "only_job i db ?dead" "only_job i db ?again"
    using j by (auto simp: only_job_def put_row_def upd_where_def fail_update_def rearm_update_def)
  moreover have "db' = db \<or> db' = ?dead \<or> db' = ?again \<and> int ?n < default_attempts attempts"
    using out row put_job(2) [OF ok j(1,3), of "fail_update ?n code now"]
      put_job(2) [OF ok j(1,3), of "rearm_update ?n code now"] j
    by (auto simp: failMemoryJobWithOperationMirror_def withImmediate_def update_jobs_def update_operations_def Let_def
        fail_update_def rearm_update_def split: if_splits)
  ultimately show ?thesis
    using ok by auto
next
  case False
  then have "db' = db"
    using out
    by (auto simp: failMemoryJobWithOperationMirror_def withImmediate_def Let_def
        split: if_splits option.splits dest!: getMemoryJobRow_Some)
  then show ?thesis
    using ok by simp
qed

subsection \<open>The follow-up of a correction\<close>

lemma request_chain_writable:
  assumes "request_chain t = Some c"
  shows "writable (cc_provenance c)"
proof -
  obtain v where v: "json_parse t = Some v" "correction_chain (property v ''chain'') = Some c"
    using assms by (auto simp: request_chain_def split: option.splits if_splits)
  have "is_object x \<Longrightarrow> x \<noteq> JUndef" for x
    by (cases x) auto
  then have "property (property v ''chain'') ''correct'' \<noteq> JUndef"
      "property (property (property v ''chain'') ''correct'') ''provenance'' \<noteq> JUndef"
      "cc_provenance c = property (property (property v ''chain'') ''correct'') ''provenance''"
    using v(2) by (auto simp: correction_chain_def Let_def split: option.splits if_splits)
  moreover from this(1) have "property v ''chain'' \<noteq> JUndef"
    by auto
  ultimately show ?thesis
    using parse_writable [OF v(1)] by (metis writable_property)
qed

lemma rebind_where:
  assumes "memory_ok D issued db" "p \<in> set (operations db)"
  shows "upd_where (\<lambda>q. o_id q = o_id p) (rebind_update i now) ps =
      map (\<lambda>q. if o_id q = o_id p then rebind_update i now q else q) ps"
    "count_where (\<lambda>q. o_id q = o_id p) (operations db) = 1"
  using count_where_key [OF memory_okD(3) [OF assms(1)] assms(2), of "\<lambda>q. o_id q = o_id p" "\<lambda>_. True"]
  by (simp_all add: upd_where_def)

text \<open>The operation already decided by the follow-up job: nothing but a time changes.\<close>

lemma memory_ok_rebind_same:
  assumes ok: "memory_ok D issued db" and p: "p \<in> set (operations db)"
  shows "memory_ok D issued (db\<lparr>operations := map (\<lambda>q. if o_id q = o_id p then rebind_update (o_job p) now q else q)
    (operations db)\<rparr>)"
proof -
  have same: "q = p" if "q \<in> set (operations db)" "o_id q = o_id p" for q
    using that p memory_okD(3) [OF ok] by (auto intro: distinct_key_eq [where key = o_id])
  let ?g = "\<lambda>q. if o_id q = o_id p then rebind_update (o_job p) now q else q"
  have g: "o_id (?g q) = o_id q \<and> o_key (?g q) = o_key q \<and> o_kind (?g q) = o_kind q \<and> o_status (?g q) = o_status q \<and>
      o_job (?g q) = o_job q" if "q \<in> set (operations db)" for q
    using same [OF that] by (cases "o_id q = o_id p") (simp_all add: rebind_update_def)
  have "memory_ok D issued (db\<lparr>jobs := map (\<lambda>j. j) (jobs db), operations := map ?g (operations db)\<rparr>)"
  proof (rule memory_ok_map [OF ok])
    fix i
    assume "i \<in> set (jobs db)"
    then show "j_id i = j_id i \<and> j_key i = j_key i \<and> j_request i = j_request i \<and> (j_status i = Job_pending \<longrightarrow> j_attempts i < 8)"
      using memory_okD(5) [OF ok] by (simp add: job_ok_def)
  next
    fix q
    assume "q \<in> set (operations db)"
    from g [OF this] show "o_id (?g q) = o_id q \<and> o_key (?g q) = o_key q \<and> o_kind (?g q) = o_kind q \<and> o_job (?g q) = o_job q"
      by blast
  next
    fix q i
    assume "q \<in> set (operations db)" "decides D q i"
    with g [OF this(1)] show "decides D (?g q) i"
      unfolding decides_def corrects_def by metis
  qed
  then show ?thesis by simp
qed

text \<open>A new follow-up job takes over the operation that was bound to the pending source event.\<close>

lemma memory_ok_takeover:
  assumes ok: "memory_ok D issued db" and sep: "separates D issued"
    and p: "p \<in> set (operations db)" "o_kind p = Record_correct"
    and j: "j \<in> set (jobs db)" "j_id j = o_job p" "j_status j = Job_pending" "j_key j = event_key D (o_key p)"
    and row: "j_id row \<notin> j_id ` set (jobs db)" "j_key row = correct_key D (o_key p)" "j_kind row = Record_correct"
      "correct_key D (o_key p) \<notin> j_key ` set (jobs db)" "j_status row = Job_pending" "j_attempts row < 8"
      "plain_request (j_request row)"
  shows "memory_ok D issued (db\<lparr>jobs := jobs db @ [row],
    operations := map (\<lambda>q. if o_id q = o_id p then rebind_update (j_id row) now q else q) (operations db)\<rparr>)"
proof -
  let ?g = "\<lambda>q. if o_id q = o_id p then rebind_update (j_id row) now q else q"
  have m: "management_texts (o_key p) \<subseteq> issued"
    using memory_okD(6) [OF ok p(1)] by (simp add: operation_ok_def)
  have same: "q = p" if "q \<in> set (operations db)" "o_id q = o_id p" for q
    using that p memory_okD(3) [OF ok] by (auto intro: distinct_key_eq [where key = o_id])
  have g: "o_id (?g q) = o_id q" "o_key (?g q) = o_key q" "o_kind (?g q) = o_kind q" "o_status (?g q) = o_status q" for q
    by (auto simp: rebind_update_def)
  have texts: "t = tagged ''correct-event'' (o_key p)" if "t \<in> management_texts k" "management_texts k \<subseteq> issued"
    "j_key j = stable_key D t" for t k
    using stable_eq [OF sep, of "tagged ''correct-event'' (o_key p)" t] that m j(4)
    by (auto simp: event_key_stable management_texts_def)
  have jobs1: "job_ok D issued (set (map ?g (operations db))) i" if i: "i \<in> set (jobs db)" for i
  proof (rule job_ok_cong [OF memory_okD(5) [OF ok i]])
    show "owned D issued (set (map ?g (operations db))) i"
      unfolding owned_def
    proof (intro allI impI)
      fix k t
      assume k: "management_texts k \<subseteq> issued" "t \<in> management_texts k" "j_key i = stable_key D t"
      then obtain q where q: "q \<in> set (operations db)" "o_key q = k"
          "t = tagged ''correct-event'' k \<and> o_kind q = Record_correct \<or> o_job q = j_id i"
        using memory_okD(5) [OF ok i] unfolding job_ok_def owned_def by blast
      have "t = tagged ''correct-event'' k \<and> o_kind (?g q) = Record_correct \<or> o_job (?g q) = j_id i"
      proof (cases "q = p \<and> o_job q = j_id i")
        case True
        then have "i = j"
          using i j memory_okD(1) [OF ok] by (auto intro: distinct_key_eq [where key = j_id])
        then show ?thesis
          using texts [OF k(2,1)] k(3) True q(2) p(2) by (auto simp: rebind_update_def)
      next
        case False
        then show ?thesis
          using q same g by (auto simp: rebind_update_def)
      qed
      then show "\<exists>q \<in> set (map ?g (operations db)). o_key q = k \<and>
          (t = tagged ''correct-event'' k \<and> o_kind q = Record_correct \<or> o_job q = j_id i)"
        using q(1,2) g(2) by (intro bexI [of _ "?g q"]) auto
    qed
  qed (use memory_okD(5) [OF ok i] in \<open>simp_all add: job_ok_def\<close>)
  have new: "job_ok D issued (set (map ?g (operations db))) row"
  proof -
    have eq: "t = tagged ''correct'' (o_key p)" if "t \<in> management_texts k" "management_texts k \<subseteq> issued"
      "stable_key D (tagged ''correct'' (o_key p)) = stable_key D t" for t k
      using stable_eq [OF sep, of "tagged ''correct'' (o_key p)" t] that m by (auto simp: management_texts_def)
    have "owned D issued (set (map ?g (operations db))) row"
      unfolding owned_def
    proof (intro allI impI)
      fix k t
      assume k: "management_texts k \<subseteq> issued" "t \<in> management_texts k" "j_key row = stable_key D t"
      have "t = tagged ''correct'' (o_key p)"
        using eq [OF k(2,1)] k(3) row(2) by (simp add: correct_key_stable)
      then have "k = o_key p"
        using k(2) by (auto simp: management_texts_def)
      moreover have "?g p \<in> set (map ?g (operations db))"
        using p(1) unfolding set_map by (rule imageI)
      moreover have "o_key (?g p) = o_key p" "o_job (?g p) = j_id row"
        by (simp_all add: rebind_update_def)
      ultimately show "\<exists>q \<in> set (map ?g (operations db)). o_key q = k \<and>
          (t = tagged ''correct-event'' k \<and> o_kind q = Record_correct \<or> o_job q = j_id row)"
        by blast
    qed
    moreover have "tagged ''correct'' (o_key p) \<in> issued"
      using m by (auto simp: management_texts_def)
    moreover have "j_key row \<noteq> event_key D k" if "management_texts k \<subseteq> issued" for k
      using eq [OF _ that, of "tagged ''correct-event'' k"] row(2)
      by (auto simp: correct_key_stable event_key_stable management_texts_def)
    ultimately show ?thesis
      using row unfolding job_ok_def correct_key_stable plain_request_def by auto
  qed
  have ops: "operation_ok D issued (set (jobs db @ [row])) (?g q)" if q: "q \<in> set (operations db)" for q
  proof (cases "q = p")
    case True
    have "o_status p = Job_pending"
      using decides_bound [OF ok p(1) j(1)] j by (simp add: decides_def)
    then show ?thesis
      using True m p(2) row by (auto simp: operation_ok_def decides_def corrects_def rebind_update_def management_kind_def)
  next
    case False
    then show ?thesis
      using memory_okD(6) [OF ok q] same [OF q] by (auto simp: operation_ok_def)
  qed
  have keys: "map o_id (map ?g (operations db)) = map o_id (operations db)"
      "map o_key (map ?g (operations db)) = map o_key (operations db)"
    using g by simp_all
  have all_ops: "\<forall>q \<in> set (map ?g (operations db)). operation_ok D issued (set (jobs db @ [row])) q"
    using ops unfolding set_map by blast
  have all_jobs: "\<forall>i \<in> set (jobs db @ [row]). job_ok D issued (set (map ?g (operations db))) i"
    using jobs1 new by (simp del: set_map map_map)
  have "distinct (map j_id (jobs db @ [row]))" "distinct (map j_key (jobs db @ [row]))"
    using memory_okD(1,2) [OF ok] row(1-4) by auto
  then show ?thesis
    using memory_okD(3,4) [OF ok] all_jobs all_ops by (intro memory_ok_tables) (simp_all only: keys)
qed

lemma operationByKey_jobs [simp]: "operationByKey (db\<lparr>jobs := rows\<rparr>) k = operationByKey db k"
  by (simp add: operationByKey_def)

lemma bind_cases:
  assumes "bindCorrectionFollowupAtomic ji client now freshId db = (r, db')"
  shows "(\<exists>x. r = Inl x) \<and> db' = db \<or>
    (\<exists>e p rows. operationByKey db (lower_ascii client) = Some p \<and>
       db' = db\<lparr>jobs := rows, operations := upd_where (\<lambda>q. o_id q = o_id p) (rebind_update (j_id e) now) (operations db)\<rparr> \<and>
       (jobByKey db (lower_ascii (ji_key ji)) = Some e \<and> rows = jobs db \<or>
        jobByKey db (lower_ascii (ji_key ji)) = None \<and> e = job_of (ji\<lparr>ji_kind := js ''record.correct''\<rparr>) freshId now \<and>
          freshId \<notin> j_id ` set (jobs db) \<and> rows = jobs db @ [e]))"
proof (cases "\<exists>x. r = Inl x")
  case True
  then show ?thesis
    using assms by (auto simp: bindCorrectionFollowupAtomic_def Let_def withImmediate_def split: if_splits sum.splits)
next
  case False
  let ?ji = "ji\<lparr>ji_kind := js ''record.correct''\<rparr>"
  from False obtain v where v: "bind_tx ?ji (lower_ascii client) now freshId db = Inr (v, db')"
    using assms by (auto simp: bindCorrectionFollowupAtomic_def Let_def withImmediate_def split: if_splits sum.splits)
  show ?thesis
  proof (cases "jobByKey db (lower_ascii (ji_key ji))")
    case None
    then show ?thesis
      using v by (auto simp: bind_tx_def obtain_job_def rbind_eq_Inr insert_job_Inr update_operations_def job_of_def
          split: option.splits if_splits)
  next
    case (Some e)
    then show ?thesis
      using v by (auto simp: bind_tx_def obtain_job_def rbind_eq_Inr update_operations_def
          split: option.splits if_splits)
  qed
qed

lemma upd_where_map: "upd_where P f rows = map (\<lambda>q. if P q then f q else q) rows"
  by (simp add: upd_where_def)

text \<open>A job whose request carries a chain is the source event of the correction with the chain's key.\<close>

lemma chain_operation:
  assumes ok: "memory_ok D issued db" and sep: "separates D issued"
    and j: "j \<in> set (jobs db)" "request_chain (j_request j) = Some c"
    and p: "p \<in> set (operations db)" "o_key p = cc_client c"
  shows "o_kind p = Record_correct"
    "correct_key D (cc_client c) \<notin> j_key ` set (jobs db) \<Longrightarrow> o_job p = j_id j"
    "e \<in> set (jobs db) \<Longrightarrow> j_key e = correct_key D (cc_client c) \<Longrightarrow> o_job p = j_id e"
proof -
  have c: "management_texts (cc_client c) \<subseteq> issued" "j_key j = event_key D (cc_client c)"
    using memory_okD(5) [OF ok j(1)] j(2) by (auto simp: job_ok_def)
  have mine: "q = p" if "q \<in> set (operations db)" "o_key q = cc_client c" for q
    using that p memory_okD(4) [OF ok] by (auto intro: distinct_key_eq [where key = o_key])
  have own: "t = tagged ''correct-event'' (cc_client c) \<and> o_kind p = Record_correct \<or> o_job p = j_id i"
    if i: "i \<in> set (jobs db)" "t \<in> management_texts (cc_client c)" "j_key i = stable_key D t" for i t
    using memory_okD(5) [OF ok i(1)] i(2,3) c(1) mine unfolding job_ok_def owned_def by metis
  have "stable_key D (tagged (status_tag k) (cc_client c)) \<noteq> stable_key D (tagged ''correct-event'' (cc_client c))" for k
    using c(1) by (subst stable_eq [OF sep]) (auto simp: management_texts_def status_tag_def)
  then show kind: "o_kind p = Record_correct"
    using own [OF j(1), of "tagged ''correct-event'' (cc_client c)"] decides_bound [OF ok p(1) j(1)] c p(2)
    by (auto simp: management_texts_def event_key_stable decides_def split: if_splits)
  show "o_job p = j_id j" if absent: "correct_key D (cc_client c) \<notin> j_key ` set (jobs db)"
  proof -
    obtain i where i: "i \<in> set (jobs db)" "decides D p i"
      using memory_okD(6) [OF ok p(1)] by (auto simp: operation_ok_def)
    moreover have "j_key i \<noteq> correct_key D (cc_client c)"
      using absent i(1) by (metis imageI)
    ultimately have "j_key i = j_key j"
      using kind p(2) c(2) by (auto simp: decides_def corrects_def)
    then have "i = j"
      using i(1) j(1) memory_okD(2) [OF ok] by (auto intro: distinct_key_eq [where key = j_key])
    then show ?thesis
      using i(2) by (simp add: decides_def)
  qed
  show "o_job p = j_id e" if "e \<in> set (jobs db)" "j_key e = correct_key D (cc_client c)"
    using own [of e "tagged ''correct'' (cc_client c)"] that by (auto simp: correct_key_stable management_texts_def)
qed

text \<open>After a follow-up was bound, an operation that still hangs on the source event is none of the correction.\<close>

lemma bound_elsewhere:
  assumes ok: "memory_ok D issued db" and sep: "separates D issued"
    and j: "j \<in> set (jobs db)" "request_chain (j_request j) = Some c"
    and e: "e \<in> set (jobs db)" "j_key e = correct_key D (cc_client c)"
    and p: "p \<in> set (operations db)" "o_job p = j_id j" "o_kind p = Record_correct"
  shows "corrects D p j"
proof (rule ccontr)
  assume ne: "\<not> corrects D p j"
  have c: "management_texts (cc_client c) \<subseteq> issued" "j_key j = event_key D (cc_client c)"
    using memory_okD(5) [OF ok j(1)] j(2) by (auto simp: job_ok_def)
  have "j_key j = event_key D (o_key p)"
    using decides_bound [OF ok p(1) j(1) p(2)] p(3) ne by (auto simp: decides_def split: if_splits)
  moreover have "management_texts (o_key p) \<subseteq> issued"
    using memory_okD(6) [OF ok p(1)] by (simp add: operation_ok_def)
  ultimately have key: "o_key p = cc_client c"
    using c stable_eq [OF sep, of "tagged ''correct-event'' (o_key p)" "tagged ''correct-event'' (cc_client c)"]
    by (auto simp: event_key_stable management_texts_def)
  then have "o_job p = j_id e"
    using chain_operation(3) [OF ok sep j p(1) _ e] by simp
  then have "e = j"
    using p(2) e(1) j(1) memory_okD(1) [OF ok] by (auto intro: distinct_key_eq [where key = j_id])
  then show False
    using e(2) c stable_eq [OF sep, of "tagged ''correct-event'' (cc_client c)" "tagged ''correct'' (cc_client c)"]
    by (auto simp: event_key_stable correct_key_stable management_texts_def)
qed

lemma bind_ok:
  assumes ok: "memory_ok D issued db" and D: "digest_ok D" and sep: "separates D issued"
    and j: "j \<in> set (jobs db)" "j_status j = Job_pending" "request_chain (j_request j) = Some c"
    and out: "bindCorrectionFollowupAtomic (correct_job scope c) (cc_client c) now freshId db = (r, db')"
  shows "memory_ok D issued db' \<and> set (jobs db) \<subseteq> set (jobs db') \<and>
    ((\<exists>x. r = Inl x) \<or> (\<exists>e \<in> set (jobs db'). j_key e = correct_key D (cc_client c)))"
proof -
  have c: "lower_ascii (cc_client c) = cc_client c" "j_key j = event_key D (cc_client c)"
      "lower_ascii (cc_correctKey c) = correct_key D (cc_client c)" "plain_request (stringify (correct_request scope c))"
    using memory_okD(5) [OF ok j(1)] j(3) stable_lower [OF D]
      correct_request_plain [OF request_chain_writable [OF j(3)]]
    by (auto simp: job_ok_def correct_key_stable)
  from bind_cases [OF out] c consider
      (same) "\<exists>x. r = Inl x" "db' = db"
    | (bound) e p where "p \<in> set (operations db)" "o_key p = cc_client c" "e \<in> set (jobs db)"
        "j_key e = correct_key D (cc_client c)"
        "db' = db\<lparr>jobs := jobs db, operations := upd_where (\<lambda>q. o_id q = o_id p) (rebind_update (j_id e) now) (operations db)\<rparr>"
    | (new) e p where "p \<in> set (operations db)" "o_key p = cc_client c"
        "e = job_of ((correct_job scope c)\<lparr>ji_kind := js ''record.correct''\<rparr>) freshId now"
        "freshId \<notin> j_id ` set (jobs db)" "correct_key D (cc_client c) \<notin> j_key ` set (jobs db)"
        "db' = db\<lparr>jobs := jobs db @ [e], operations := upd_where (\<lambda>q. o_id q = o_id p) (rebind_update (j_id e) now) (operations db)\<rparr>"
    by (fastforce simp: correct_job_def jobByKey_None dest: operationByKey_Some jobByKey_Some)
  then show ?thesis
  proof cases
    case same
    then show ?thesis using ok by simp
  next
    case bound
    have eq: "o_job p = j_id e"
      using chain_operation(3) [OF ok sep j(1,3) bound(1-4)] .
    have "db\<lparr>jobs := jobs db, operations := ps\<rparr> = db\<lparr>operations := ps\<rparr>" for ps
      by (cases db) simp
    then have "memory_ok D issued db'" "jobs db' = jobs db"
      using memory_ok_rebind_same [OF ok bound(1), of now, unfolded eq] bound(5) by (simp_all add: upd_where_map)
    then show ?thesis
      using bound(3,4) by auto
  next
    case new
    have e: "j_id e = freshId" "j_key e = correct_key D (cc_client c)" "j_kind e = Record_correct" "j_status e = Job_pending" "j_attempts e = 0"
        "plain_request (j_request e)"
      using new(3) c by (simp_all add: job_of_def correct_job_def requireMemoryKind_def job_kinds_def)
    have "memory_ok D issued db'"
      unfolding new(6) upd_where_map
      by (rule memory_ok_takeover [OF ok sep new(1) chain_operation(1) [OF ok sep j(1,3) new(1,2)] j(1)])
        (use chain_operation(2) [OF ok sep j(1,3) new(1,2,5)] j(2) c e new(2,4,5) in simp_all)
    then show ?thesis
      using new(6) e by auto
  qed
qed

end
