(* ===== verification/Memory_Citations.thy ===== *)
theory Memory_Citations
  imports Memory_Service "HOL-Library.Sublist" Transition
begin

text \<open>
  The evidence that the kernel keeps of recalled and searched memories (packages/kernel/src/repository.ts, migrations 0008,
  0009, 0021 and 0022): the records exposed to a run, the citations that a completed answer was granted, and the
  snapshots of explicit searches. Rows are only ever added, each key once, and a grant copies its revision
  from the exposure it rests on.
\<close>

record exposure_row =
  me_recall :: jstr
  me_record :: jstr
  me_session :: jstr
  me_run :: jstr
  me_scope :: jstr
  me_citation :: jstr
  me_snippet :: jstr
  me_revision :: "int option"
  me_kind :: "jstr option"
  me_createdAt :: int

record citation_row =
  mg_run :: jstr
  mg_citation :: jstr
  mg_record :: jstr
  mg_recall :: jstr
  mg_session :: jstr
  mg_scope :: jstr
  mg_revision :: "int option"
  mg_createdAt :: int

record search_row =
  ms_id :: jstr
  ms_session :: jstr
  ms_run :: jstr
  ms_scope :: jstr
  ms_query :: jstr
  ms_createdAt :: int

record search_item_row =
  mi_search :: jstr
  mi_handle :: jstr
  mi_record :: jstr
  mi_revision :: "int option"
  mi_status :: jstr
  mi_snippet :: jstr
  mi_createdAt :: int

record evidence =
  exposures :: "exposure_row list"
  citations :: "citation_row list"
  searches :: "search_row list"
  search_items :: "search_item_row list"

subsection \<open>Statements and checks\<close>

text \<open>\<open>INSERT OR IGNORE\<close>: a row whose primary key is there is dropped.\<close>

definition insert_or_ignore :: "('r \<Rightarrow> 'k) \<Rightarrow> 'r \<Rightarrow> 'r list \<Rightarrow> 'r list" where
  "insert_or_ignore key row rows = (if list_ex (\<lambda>r. key r = key row) rows then rows else rows @ [row])"

definition recall_kinds :: "jstr list" where
  "recall_kinds = [js ''user_fact'', js ''model_inference'', js ''summary'', js ''correction'']"

definition parseMemoryRecallItemKind :: "jstr option \<Rightarrow> bool" where
  "parseMemoryRecallItemKind kind = opt_ok (\<lambda>k. k \<in> set recall_kinds) kind"

definition parseMemoryRevision :: "int option \<Rightarrow> bool" where
  "parseMemoryRevision revision = opt_ok (\<lambda>r. 1 \<le> r \<and> r \<le> MAX_SAFE_INTEGER) revision"

definition snippet_ok :: "jstr \<Rightarrow> bool" where
  "snippet_ok s \<longleftrightarrow> 1 \<le> length s \<and> countCodePoints s \<le> 512"

definition exposure_key :: "exposure_row \<Rightarrow> jstr \<times> jstr" where
  "exposure_key e = (me_recall e, me_record e)"

definition citation_key :: "citation_row \<Rightarrow> jstr \<times> jstr" where
  "citation_key g = (mg_run g, mg_citation g)"

definition item_key :: "search_item_row \<Rightarrow> jstr \<times> jstr" where
  "item_key i = (mi_search i, mi_handle i)"

subsection \<open>Exposures and granted citations\<close>

text \<open>The exposure to record, with the time of the call.\<close>

definition recordMemoryExposure :: "exposure_row \<Rightarrow> int \<Rightarrow> evidence \<Rightarrow> (kerr + unit) \<times> evidence" where
  "recordMemoryExposure e now ev =
     (if \<not> memory_token_ok (me_recall e) \<or> \<not> memory_token_ok (me_record e) \<or> \<not> isUuidV4 (me_session e) \<or>
         \<not> isUuidV4 (me_run e) \<or> \<not> memory_token_ok (me_scope e) \<or> \<not> memory_citation_ok (me_citation e) \<or>
         \<not> parseMemoryRevision (me_revision e) \<or> \<not> parseMemoryRecallItemKind (me_kind e) \<or>
         \<not> snippet_ok (me_snippet e) \<or> \<not> unix_ms_ok now
      then (Inl Validation, ev)
      else (Inr (), ev\<lparr>exposures := insert_or_ignore exposure_key (e\<lparr>me_createdAt := now\<rparr>) (exposures ev)\<rparr>))"

definition listMemoryExposures :: "jstr \<Rightarrow> evidence \<Rightarrow> kerr + exposure_row list" where
  "listMemoryExposures rid ev =
     (if \<not> isUuidV4 rid then Inl Validation
      else Inr (sort_key (\<lambda>e. (me_citation e, me_record e)) (filter (\<lambda>e. me_run e = rid) (exposures ev))))"

record grant_input =
  gi_run :: jstr
  gi_citation :: jstr
  gi_record :: jstr
  gi_recall :: jstr
  gi_session :: jstr
  gi_scope :: jstr

definition grantMemoryCitation :: "grant_input \<Rightarrow> int \<Rightarrow> evidence \<Rightarrow> (kerr + unit) \<times> evidence" where
  "grantMemoryCitation g now ev =
     (if \<not> isUuidV4 (gi_run g) \<or> \<not> memory_citation_ok (gi_citation g) \<or> \<not> memory_token_ok (gi_record g) \<or>
         \<not> memory_token_ok (gi_recall g) \<or> \<not> isUuidV4 (gi_session g) \<or> \<not> memory_token_ok (gi_scope g) \<or>
         \<not> unix_ms_ok now
      then (Inl Validation, ev)
      else withImmediate (\<lambda>ev.
        case find (\<lambda>e. me_recall e = gi_recall g \<and> me_record e = gi_record g \<and> me_run e = gi_run g \<and>
            me_citation e = gi_citation g) (exposures ev) of
          None \<Rightarrow> Inl Validation
        | Some e \<Rightarrow>
            if me_scope e \<noteq> gi_scope g then Inl Validation
            else Inr ((), ev\<lparr>citations := insert_or_ignore citation_key
              \<lparr>mg_run = gi_run g, mg_citation = gi_citation g, mg_record = gi_record g, mg_recall = gi_recall g,
               mg_session = gi_session g, mg_scope = gi_scope g, mg_revision = me_revision e, mg_createdAt = now\<rparr>
              (citations ev)\<rparr>)) ev)"

definition listMemoryGrants :: "jstr \<Rightarrow> evidence \<Rightarrow> kerr + citation_row list" where
  "listMemoryGrants rid ev =
     (if \<not> isUuidV4 rid then Inl Validation
      else Inr (sort_key mg_citation (filter (\<lambda>g. mg_run g = rid) (citations ev))))"

subsection \<open>Searches\<close>

definition search_item_ok :: "search_item_row \<Rightarrow> bool" where
  "search_item_ok i \<longleftrightarrow> memory_citation_ok (mi_handle i) \<and> memory_token_ok (mi_record i) \<and>
     (mi_status i = js ''active'' \<or> mi_status i = js ''retired'') \<and> snippet_ok (mi_snippet i) \<and>
     opt_ok memory_revision_ok (mi_revision i)"

text \<open>The items one by one; the first that is invalid rolls the whole search back.\<close>

fun record_items :: "jstr \<Rightarrow> int \<Rightarrow> search_item_row list \<Rightarrow> evidence \<Rightarrow> kerr + unit \<times> evidence" where
  "record_items sid now [] ev = Inr ((), ev)"
| "record_items sid now (i # is) ev =
     (if \<not> search_item_ok i then Inl Validation
      else record_items sid now is (ev\<lparr>search_items :=
        insert_or_ignore item_key (i\<lparr>mi_search := sid, mi_createdAt := now\<rparr>) (search_items ev)\<rparr>))"

definition recordMemorySearch :: "search_row \<Rightarrow> search_item_row list \<Rightarrow> int \<Rightarrow> evidence \<Rightarrow> (kerr + unit) \<times> evidence" where
  "recordMemorySearch s items now ev =
     (if \<not> memory_token_ok (ms_id s) \<or> \<not> isUuidV4 (ms_session s) \<or> \<not> isUuidV4 (ms_run s) \<or>
         \<not> memory_token_ok (ms_scope s) \<or> \<not> (1 \<le> length (ms_query s) \<and> countCodePoints (ms_query s) \<le> 500) \<or>
         length items > 8 \<or> \<not> unix_ms_ok now
      then (Inl Validation, ev)
      else withImmediate (\<lambda>ev. record_items (ms_id s) now items
        (ev\<lparr>searches := insert_or_ignore ms_id (s\<lparr>ms_createdAt := now\<rparr>) (searches ev)\<rparr>)) ev)"

definition getMemorySearch :: "jstr \<Rightarrow> evidence \<Rightarrow> kerr + search_row option" where
  "getMemorySearch sid ev =
     (if \<not> memory_token_ok sid then Inl Validation else Inr (find (\<lambda>s. ms_id s = sid) (searches ev)))"

definition listMemorySearchItems :: "jstr \<Rightarrow> evidence \<Rightarrow> kerr + search_item_row list" where
  "listMemorySearchItems sid ev =
     (if \<not> memory_token_ok sid then Inl Validation
      else Inr (sort_key mi_handle (filter (\<lambda>i. mi_search i = sid) (search_items ev))))"

definition getMemorySearchItem :: "jstr \<Rightarrow> jstr \<Rightarrow> evidence \<Rightarrow> kerr + search_item_row option" where
  "getMemorySearchItem sid handle ev =
     (if \<not> memory_token_ok sid \<or> \<not> memory_citation_ok handle then Inl Validation
      else Inr (find (\<lambda>i. mi_search i = sid \<and> mi_handle i = handle) (search_items ev)))"

subsection \<open>The steps and their invariant\<close>

inductive evidence_step :: "evidence \<Rightarrow> evidence \<Rightarrow> bool" where
  expose: "evidence_step ev (snd (recordMemoryExposure e now ev))"
| cite: "evidence_step ev (snd (grantMemoryCitation g now ev))"
| search: "evidence_step ev (snd (recordMemorySearch s items now ev))"

inductive_cases evidence_stepE: "evidence_step ev ev'"

definition no_evidence :: evidence where
  "no_evidence = \<lparr>exposures = [], citations = [], searches = [], search_items = []\<rparr>"

text \<open>The exposure that a granted citation rests on.\<close>

definition rests_on :: "citation_row \<Rightarrow> exposure_row \<Rightarrow> bool" where
  "rests_on g e \<longleftrightarrow> me_run e = mg_run g \<and> me_citation e = mg_citation g \<and> me_record e = mg_record g \<and>
     me_recall e = mg_recall g \<and> me_scope e = mg_scope g \<and> me_revision e = mg_revision g"

definition evidence_ok :: "evidence \<Rightarrow> bool" where
  "evidence_ok ev \<longleftrightarrow>
     distinct (map exposure_key (exposures ev)) \<and> distinct (map citation_key (citations ev)) \<and>
     distinct (map ms_id (searches ev)) \<and> distinct (map item_key (search_items ev)) \<and>
     (\<forall>g \<in> set (citations ev). \<exists>e \<in> set (exposures ev). rests_on g e) \<and>
     (\<forall>i \<in> set (search_items ev). search_item_ok i \<and> mi_search i \<in> ms_id ` set (searches ev))"

text \<open>Nothing is rewritten: each table of the earlier state is the start of the later one.\<close>

definition evidence_grows :: "evidence \<Rightarrow> evidence \<Rightarrow> bool" where
  "evidence_grows a b \<longleftrightarrow> prefix (exposures a) (exposures b) \<and> prefix (citations a) (citations b) \<and>
     prefix (searches a) (searches b) \<and> prefix (search_items a) (search_items b)"

lemma insert_or_ignore_prefix [simp]: "prefix rows (insert_or_ignore key row rows)"
  by (simp add: insert_or_ignore_def)

lemma insert_or_ignore_distinct:
  "distinct (map key rows) \<Longrightarrow> distinct (map key (insert_or_ignore key row rows))"
  by (auto simp: insert_or_ignore_def list_ex_iff)

lemma insert_or_ignore_set: "set (insert_or_ignore key row rows) \<subseteq> insert row (set rows)"
  by (auto simp: insert_or_ignore_def)

lemma insert_or_ignore_mono: "set rows \<subseteq> set (insert_or_ignore key row rows)"
  by (auto simp: insert_or_ignore_def)

lemma insert_or_ignore_key: "key row \<in> key ` set (insert_or_ignore key row rows)"
  by (auto simp: insert_or_ignore_def list_ex_iff) (metis imageI)

lemma insert_or_ignore_bex: "\<exists>r \<in> set rows. P r \<Longrightarrow> \<exists>r \<in> set (insert_or_ignore key row rows). P r"
  using insert_or_ignore_mono [of rows key row] by blast

lemma insert_or_ignore_image: "x \<in> f ` set rows \<Longrightarrow> x \<in> f ` set (insert_or_ignore key row rows)"
  using insert_or_ignore_mono [of rows key row] by blast

lemmas insert_or_ignore_facts = insert_or_ignore_set [THEN subsetD] insert_or_ignore_mono [THEN subsetD]

lemma evidence_grows_refl: "evidence_grows ev ev"
  by (simp add: evidence_grows_def)

lemma evidence_grows_trans: "evidence_grows a b \<Longrightarrow> evidence_grows b c \<Longrightarrow> evidence_grows a c"
  unfolding evidence_grows_def by (blast intro: prefix_order.trans)

lemma record_items_ok:
  "record_items sid now is ev = Inr (u, ev') \<Longrightarrow> evidence_ok ev \<Longrightarrow> sid \<in> ms_id ` set (searches ev) \<Longrightarrow>
   evidence_ok ev' \<and> evidence_grows ev ev'"
proof (induction "is" arbitrary: ev)
  case Nil
  then show ?case by (simp add: evidence_grows_def)
next
  case (Cons i "is")
  let ?row = "i\<lparr>mi_search := sid, mi_createdAt := now\<rparr>"
  let ?ev = "ev\<lparr>search_items := insert_or_ignore item_key ?row (search_items ev)\<rparr>"
  have i: "search_item_ok i" and rest: "record_items sid now is ?ev = Inr (u, ev')"
    using Cons.prems(1) by (auto split: if_splits)
  then have "search_item_ok ?row"
    by (simp add: search_item_ok_def)
  then have "evidence_ok ?ev"
    using Cons.prems(2,3) insert_or_ignore_distinct [of item_key "search_items ev" ?row]
    by (auto simp: evidence_ok_def dest!: insert_or_ignore_facts(1))
  moreover have "evidence_grows ev ?ev" "sid \<in> ms_id ` set (searches ?ev)"
    using Cons.prems(3) by (simp_all add: evidence_grows_def)
  ultimately show ?case
    using Cons.IH [OF rest] evidence_grows_trans by blast
qed

lemma evidence_start: "ev = no_evidence \<Longrightarrow> evidence_ok ev"
  by (simp add: no_evidence_def evidence_ok_def)

lemma expose_ok:
  assumes "evidence_ok ev"
  shows "evidence_ok (snd (recordMemoryExposure e now ev)) \<and> evidence_grows ev (snd (recordMemoryExposure e now ev))"
  using assms
  by (simp add: recordMemoryExposure_def evidence_ok_def evidence_grows_def insert_or_ignore_distinct insert_or_ignore_bex)

lemma cite_ok:
  assumes ok: "evidence_ok ev"
  shows "evidence_ok (snd (grantMemoryCitation g now ev)) \<and> evidence_grows ev (snd (grantMemoryCitation g now ev))"
proof (cases "snd (grantMemoryCitation g now ev) = ev")
  case True
  then show ?thesis using ok by (simp add: evidence_grows_def)
next
  case False
  then obtain e row where e: "e \<in> set (exposures ev)" "rests_on row e"
    and eq: "snd (grantMemoryCitation g now ev) = ev\<lparr>citations := insert_or_ignore citation_key row (citations ev)\<rparr>"
    by (auto simp: grantMemoryCitation_def withImmediate_def rests_on_def find_Some_iff split: option.splits if_splits)
      (force simp: rests_on_def)
  then show ?thesis
    using ok insert_or_ignore_distinct [of citation_key "citations ev" row]
    unfolding eq by (auto simp: evidence_ok_def evidence_grows_def dest!: insert_or_ignore_facts(1))
qed

lemma search_ok:
  assumes ok: "evidence_ok ev"
  shows "evidence_ok (snd (recordMemorySearch s items now ev)) \<and> evidence_grows ev (snd (recordMemorySearch s items now ev))"
proof (cases "snd (recordMemorySearch s items now ev) = ev")
  case True
  then show ?thesis using ok by (simp add: evidence_grows_def)
next
  case False
  let ?row = "s\<lparr>ms_createdAt := now\<rparr>"
  let ?ev = "ev\<lparr>searches := insert_or_ignore ms_id ?row (searches ev)\<rparr>"
  obtain u where run: "record_items (ms_id s) now items ?ev = Inr (u, snd (recordMemorySearch s items now ev))"
    using False by (auto simp: recordMemorySearch_def withImmediate_def split: sum.splits if_splits)
  have "evidence_ok ?ev" "evidence_grows ev ?ev"
    using ok
    by (simp_all add: evidence_ok_def evidence_grows_def insert_or_ignore_distinct insert_or_ignore_image)
  moreover have "ms_id s \<in> ms_id ` set (searches ?ev)"
    using insert_or_ignore_key [of ms_id ?row "searches ev"] by simp
  ultimately show ?thesis
    using record_items_ok [OF run] evidence_grows_trans by blast
qed

lemma evidence_step_ok: "evidence_ok ev \<Longrightarrow> evidence_step ev ev' \<Longrightarrow> evidence_ok ev' \<and> evidence_grows ev ev'"
  using expose_ok cite_ok search_ok by (auto elim!: evidence_stepE)

interpretation evidence_system: transition_system "\<lambda>ev. ev = no_evidence" evidence_step evidence_ok evidence_grows
  by unfold_locales (use evidence_start evidence_step_ok evidence_grows_refl evidence_grows_trans in blast)+

end
