(* ===== verification/Iso_Dates.thy ===== *)
theory Iso_Dates
  imports Instants
begin

text \<open>
  \<open>Date.prototype.toISOString\<close>, with which the server stamps what it observed, and its agreement with the strict
  instant parser of the contracts.
\<close>

subsection \<open>Instants as text\<close>

text \<open>\<open>Date.prototype.toISOString\<close>; it throws outside the range of a date.\<close>

definition year_of_day :: "int \<Rightarrow> int" where
  "year_of_day d =
     (let y = 1970 + d * 400 div 146097 in
      if day_from_year (y + 1) \<le> d then y + 1 else if day_from_year y \<le> d then y else y - 1)"

definition month_of_day :: "int \<Rightarrow> int \<Rightarrow> int" where
  "month_of_day y d =
     int (length (filter (\<lambda>m. days_before_month y m \<le> d) [1, 2, 3, 4, 5, 6, 7, 8, 9, 10, 11, 12]))"

definition year_text :: "int \<Rightarrow> jstr" where
  "year_text y =
     (if 0 \<le> y \<and> y \<le> 9999 then pad 4 (nat y)
      else (if y < 0 then 45 else 43) # pad 6 (nat \<bar>y\<bar>))"

definition toISOString :: "int \<Rightarrow> jstr option" where
  "toISOString t =
     (if \<bar>t\<bar> > 8640000000000000 then None
      else let day = t div 86400000; ms = t mod 86400000; y = year_of_day day;
               d = day - day_from_year y; m = month_of_day y d in
        Some (year_text y @ 45 # pad 2 (nat m) @ 45 # pad 2 (nat (d - days_before_month y m + 1)) @
          84 # pad 2 (nat (ms div 3600000)) @ 58 # pad 2 (nat (ms div 60000 mod 60)) @
          58 # pad 2 (nat (ms div 1000 mod 60)) @ 46 # pad 3 (nat (ms mod 1000)) @ [90]))"

subsection \<open>The year and the month of a day\<close>

lemma div_bounds: "0 < n \<Longrightarrow> n * (x div n) \<le> x \<and> x < n * (x div n) + n" for n x :: int
  using mult_div_mod_eq [of n x] pos_mod_bound [of n x] pos_mod_sign [of n x] by linarith

lemma year_bounds_div:
  fixes p q r y :: int
  assumes "4 * p \<le> y - 1969 \<and> y - 1969 < 4 * p + 4" "100 * q \<le> y - 1901 \<and> y - 1901 < 100 * q + 100"
    "400 * r \<le> y - 1601 \<and> y - 1601 < 400 * r + 400"
  shows "146097 * (y - 1970) - 506 \<le> 400 * (365 * (y - 1970) + p - q + r) \<and>
    400 * (365 * (y - 1970) + p - q + r) \<le> 146097 * (y - 1970) + 589"
proof -
  have "y - 1972 \<le> 4 * p" "4 * p \<le> y - 1969" "y - 2000 \<le> 100 * q" "100 * q \<le> y - 1901"
      "y - 2000 \<le> 400 * r" "400 * r \<le> y - 1601"
    using assms by auto
  moreover have "400 * (365 * (y - 1970) + p - q + r) = 146000 * (y - 1970) + 100 * (4 * p) - 4 * (100 * q) + 400 * r"
    by (simp add: algebra_simps)
  ultimately have "146097 * (y - 1970) - 506 \<le> 400 * (365 * (y - 1970) + p - q + r)"
      "400 * (365 * (y - 1970) + p - q + r) \<le> 146097 * (y - 1970) + 589"
    by (simp_all add: algebra_simps)
  then show ?thesis by blast
qed

lemma year_bounds:
  "146097 * (y - 1970) - 506 \<le> 400 * day_from_year y \<and> 400 * day_from_year y \<le> 146097 * (y - 1970) + 589"
  unfolding day_from_year_def by (rule year_bounds_div; rule div_bounds; simp)

lemma year_of_day_exact: "day_from_year (year_of_day d) \<le> d \<and> d < day_from_year (year_of_day d + 1)"
proof -
  let ?y = "1970 + d * 400 div 146097"
  have "146097 * (d * 400 div 146097) \<le> d * 400" "d * 400 < 146097 * (d * 400 div 146097) + 146097"
    by linarith+
  then have "400 * day_from_year (?y - 1) \<le> 400 * d" "400 * d < 400 * day_from_year (?y + 1 + 1)"
    using year_bounds [of "?y - 1"] year_bounds [of "?y + 1 + 1"] by (simp_all add: algebra_simps)
  then show ?thesis
    by (auto simp: year_of_day_def Let_def)
qed

lemma year_length: "day_from_year (y + 1) = day_from_year y + (if isLeapYear y then 366 else 365)"
  using day_from_year_step [of y] by simp

text \<open>The days before the months are increasing, so that counting those not after a day finds its month.\<close>

definition month_starts :: "int \<Rightarrow> int list" where
  "month_starts y = map (days_before_month y) [1, 2, 3, 4, 5, 6, 7, 8, 9, 10, 11, 12]"

lemma month_starts:
  "month_starts y = (if isLeapYear y then [0, 31, 60, 91, 121, 152, 182, 213, 244, 274, 305, 335]
     else [0, 31, 59, 90, 120, 151, 181, 212, 243, 273, 304, 334])"
  by (simp add: month_starts_def days_before_month_def)

lemma month_of_day_starts: "month_of_day y e = int (length (filter (\<lambda>s. s \<le> e) (month_starts y)))"
  by (simp add: month_of_day_def month_starts_def filter_map comp_def del: upt.simps)

lemma filter_le_sorted:
  fixes e :: int
  assumes "sorted xs" "k = length (filter (\<lambda>s. s \<le> e) xs)"
  shows "filter (\<lambda>s. s \<le> e) xs = take k xs \<and> (\<forall>s \<in> set (drop k xs). e < s)"
  using assms
proof (induction xs arbitrary: k)
  case Nil
  then show ?case by simp
next
  case (Cons x xs)
  show ?case
  proof (cases "x \<le> e")
    case True
    then show ?thesis
      using Cons by auto
  next
    case False
    then have "\<forall>s \<in> set (x # xs). e < s"
      using Cons.prems(1) by auto
    moreover from this have "k = 0"
      using Cons.prems(2) by (auto simp: filter_empty_conv not_le)
    ultimately show ?thesis
      using Cons.prems(2) by simp
  qed
qed

lemma month_by_start:
  assumes "k = 1 \<or> k = 2 \<or> k = 3 \<or> k = 4 \<or> k = 5 \<or> k = 6 \<or> k = 7 \<or> k = 8 \<or> k = 9 \<or> k = 10 \<or> k = 11 \<or> k = 12"
    "month_starts y ! (k - 1) \<le> e" "k < 12 \<Longrightarrow> e < month_starts y ! k" "e < (if isLeapYear y then 366 else 365)"
    "month_of_day y e = int k"
  shows "1 \<le> month_of_day y e \<and> month_of_day y e \<le> 12 \<and> days_before_month y (month_of_day y e) \<le> e \<and>
    e < days_before_month y (month_of_day y e) + daysInStrictMonth y (month_of_day y e)"
proof (cases "isLeapYear y")
  case True
  then show ?thesis
    using assms unfolding assms(5)
    by (elim disjE) (simp add: month_starts days_before_month_def daysInStrictMonth_def)+
next
  case False
  then show ?thesis
    using assms unfolding assms(5)
    by (elim disjE) (simp add: month_starts days_before_month_def daysInStrictMonth_def)+
qed

lemma month_of_day_exact:
  assumes "0 \<le> e" "e < (if isLeapYear y then 366 else 365)"
  shows "1 \<le> month_of_day y e \<and> month_of_day y e \<le> 12 \<and> days_before_month y (month_of_day y e) \<le> e \<and>
    e < days_before_month y (month_of_day y e) + daysInStrictMonth y (month_of_day y e)"
proof -
  let ?xs = "month_starts y"
  define k where "k = length (filter (\<lambda>s. s \<le> e) ?xs)"
  have xs: "sorted ?xs" "length ?xs = 12" "hd ?xs = 0" "?xs \<noteq> []"
    by (simp_all add: month_starts)
  note part = filter_le_sorted [OF xs(1) k_def]
  have k: "k \<le> 12" "1 \<le> k"
    using xs assms(1) length_filter_le [of "\<lambda>s. s \<le> e" ?xs] by (auto simp: k_def Suc_le_eq filter_empty_conv intro!: hd_in_set bexI [of _ "hd ?xs"])
  have "?xs ! (k - 1) \<in> set (take k ?xs)"
    using k xs(2) nth_mem [of "k - 1" "take k ?xs"] by simp
  then have "?xs ! (k - 1) \<in> set (filter (\<lambda>s. s \<le> e) ?xs)"
    using part by simp
  then have start: "?xs ! (k - 1) \<le> e"
    by simp
  have next_start: "k < 12 \<Longrightarrow> e < ?xs ! k"
    using part xs(2) nth_mem [of 0 "drop k ?xs"] by auto
  have "k = 1 \<or> k = 2 \<or> k = 3 \<or> k = 4 \<or> k = 5 \<or> k = 6 \<or> k = 7 \<or> k = 8 \<or> k = 9 \<or> k = 10 \<or> k = 11 \<or> k = 12"
    using k by presburger
  moreover have "month_of_day y e = int k"
    by (simp add: month_of_day_starts k_def)
  ultimately show ?thesis
    using month_by_start [of k y e] start next_start assms(2) by blast
qed

text \<open>The parts of a stamped instant are in range, and make the instant.\<close>

lemma stamped_parts:
  assumes t: "-62167219200000 \<le> t" "t < 253402300800000"
    and day: "day = t div 86400000" and ms: "ms = t mod 86400000" and y: "y = year_of_day day"
    and m: "m = month_of_day y (day - day_from_year y)" and d: "d = day - day_from_year y - days_before_month y m + 1"
  shows "0 \<le> y \<and> nat y \<le> 9999 \<and> y \<le> 9999 \<and> int (nat y) = y \<and> int (nat m) = m \<and> int (nat d) = d \<and> valid_date y m d \<and>
    nat (ms div 3600000) \<le> 23 \<and> nat (ms div 60000 mod 60) \<le> 59 \<and> nat (ms div 1000 mod 60) \<le> 59 \<and>
    strictUtcMs y m d (int (nat (ms div 3600000))) (int (nat (ms div 60000 mod 60))) (int (nat (ms div 1000 mod 60)))
      (ms mod 1000) = t"
proof -
  have year: "day_from_year y \<le> day" "day < day_from_year (y + 1)"
    using year_of_day_exact y by blast+
  have tb: "86400000 * day \<le> t" "t < 86400000 * day + 86400000" "ms = t - 86400000 * day"
    using div_bounds [of 86400000 t, OF zero_less_numeral] minus_mult_div_eq_mod [of t 86400000] day ms by simp_all
  then have range: "-719528 \<le> day" "day < 2932897"
    using t by linarith+
  have y1: "y < 10000"
  proof (rule ccontr)
    assume "\<not> y < 10000"
    then have "day_from_year (9999 + 1) \<le> day_from_year y"
      using day_from_year_mono [of 9999 y] by simp
    then show False
      using year(1) range(2) by (simp add: day_from_year_def)
  qed
  have y0: "0 \<le> y"
  proof (rule ccontr)
    assume "\<not> 0 \<le> y"
    then have "day_from_year (y + 1) \<le> day_from_year 0"
      using day_from_year_mono [of y 0] by simp
    then show False
      using year(2) range(1) by (simp add: day_from_year_def)
  qed
  have "0 \<le> day - day_from_year y" "day - day_from_year y < (if isLeapYear y then 366 else 365)"
    using year year_length [of y] by auto
  note mo = month_of_day_exact [OF this, folded m]
  then have d1: "1 \<le> d" "d \<le> daysInStrictMonth y m"
    unfolding d by auto
  have msb: "0 \<le> ms" "ms < 86400000"
    using tb by linarith+
  have split: "60 * (x div 60) + x mod 60 = x" "0 \<le> x mod 60" "x mod 60 < 60" for x :: int
    by simp_all
  have h: "0 \<le> ms div 3600000" "ms div 3600000 < 24" "ms div 60000 div 60 = ms div 3600000" "ms div 1000 div 60 = ms div 60000"
    using msb div_bounds [of 3600000 ms, OF zero_less_numeral] by (simp_all add: zdiv_zmult2_eq [symmetric] pos_imp_zdiv_nonneg_iff)
  have whole: "3600000 * (ms div 3600000) + 60000 * (ms div 60000 mod 60) + 1000 * (ms div 1000 mod 60) + ms mod 1000 = ms"
    using split(1) [of "ms div 60000"] split(1) [of "ms div 1000"] mult_div_mod_eq [of 1000 ms] h(3,4) by linarith
  have md: "make_day y m d = day"
    by (simp add: make_day_def d)
  have e: "int (nat (ms div 3600000)) = ms div 3600000" "int (nat (ms div 60000 mod 60)) = ms div 60000 mod 60"
      "int (nat (ms div 1000 mod 60)) = ms div 1000 mod 60"
    using h(1) split(2) by (simp_all only: nat_0_le)
  have "strictUtcMs y m d (int (nat (ms div 3600000))) (int (nat (ms div 60000 mod 60))) (int (nat (ms div 1000 mod 60)))
      (ms mod 1000) = t"
    unfolding strictUtcMs_def e md using whole tb(3) by linarith
  moreover have "nat y \<le> 9999" "nat (ms div 3600000) \<le> 23"
    using y0 y1 h(1,2) by linarith+
  moreover have "nat (ms div 60000 mod 60) \<le> 59" "nat (ms div 1000 mod 60) \<le> 59"
    using split(2,3) [of "ms div 60000"] split(2,3) [of "ms div 1000"] by linarith+
  moreover have "valid_date y m d" "int (nat y) = y" "int (nat m) = m" "int (nat d) = d" "y \<le> 9999"
    using y0 y1 mo d1 by (simp_all add: valid_date_def)
  ultimately show ?thesis
    using y0 by (intro conjI)
qed

subsection \<open>Properties\<close>

text \<open>C40. Every instant that the server stamps in the years 0 to 9999 is read back by the contracts' strict parser to the very
  millisecond: \<open>toISOString\<close> never writes a text that the parser refuses or rounds.\<close>

theorem iso_roundtrip:
  assumes "-62167219200000 \<le> t" "t < 253402300800000"
  shows "\<exists>s. toISOString t = Some s \<and> parseStrictCalendarInstantMs s = Some t"
proof -
  define day ms where "day = t div 86400000" and "ms = t mod 86400000"
  define y where "y = year_of_day day"
  define m where "m = month_of_day y (day - day_from_year y)"
  define d where "d = day - day_from_year y - days_before_month y m + 1"
  define ds where "ds = pad 3 (nat (ms mod 1000))"
  note parts = stamped_parts [OF assms day_def ms_def y_def m_def d_def]
  have ds: "ds \<noteq> []" "\<forall>u \<in> set ds. is_digit u" "length ds = 3"
    unfolding ds_def using pad_digit length_pad [of 3 "nat (ms mod 1000)"] by (auto simp del: length_pad pad.simps)
  have "valid_instant (nat y) (nat m) (nat d) (nat (ms div 3600000)) (nat (ms div 60000 mod 60)) (nat (ms div 1000 mod 60)) ds None"
    using parts ds by (simp add: valid_instant_def valid_zone_def)
  note parsed = parse_instant_text [OF this]
  have "frac_ms ds = ms mod 1000"
    unfolding ds_def using frac_pad [of "nat (ms mod 1000)"] by simp
  then have "parseStrictCalendarInstantMs (instant_text (nat y) (nat m) (nat d) (nat (ms div 3600000))
      (nat (ms div 60000 mod 60)) (nat (ms div 1000 mod 60)) ds None) = Some t"
    using parsed parts ds by (simp add: zone_ms_def)
  moreover have "toISOString t = Some (instant_text (nat y) (nat m) (nat d) (nat (ms div 3600000))
      (nat (ms div 60000 mod 60)) (nat (ms div 1000 mod 60)) ds None)"
    using assms parts ds(1)
    unfolding toISOString_def Let_def day_def [symmetric] ms_def [symmetric] y_def [symmetric] m_def [symmetric] d_def [symmetric]
      ds_def [symmetric]
    by (simp add: year_text_def instant_text_def second_text_def minute_text_def day_text_def frac_text_def zone_text_def)
  ultimately show ?thesis
    by blast
qed

theorem iso_roundtrip_witness: "parseStrictCalendarInstantMs (js ''2024-02-29T03:30:45.120Z'') = Some 1709177445120"
proof -
  have "toISOString 1709177445120 = Some (js ''2024-02-29T03:30:45.120Z'')"
    by code_simp
  then show ?thesis
    using iso_roundtrip [of 1709177445120] by simp
qed

end
