(* ===== verification/Memory_Cultivation.thy ===== *)
theory Memory_Cultivation
  imports Memory_Worker Memory_Citations Run_Repo Iso_Dates
begin

text \<open>
  What the memory service enqueues after a run (apps/server/src/memory_service.ts): feedback on the memories that
  the accepted answer cites, the raw texts of the turn in chunks, the extracted memories, and the distill job of the
  idle window. The state is the outbox with the evidence; the kernel's store is read only. The gateway's
  extraction is an argument.
\<close>

record memory =
  outbox :: mdb
  evidence_of :: evidence

subsection \<open>Raw texts\<close>

text \<open>\<open>Array.from\<close> of a string: its code points, each as the text of its one or two units.\<close>

fun chars :: "jstr \<Rightarrow> jstr list" where
  "chars [] = []"
| "chars [u] = [[u]]"
| "chars (u # v # r) =
     (if is_high u \<and> is_low v then [u, v] # chars r else [u] # chars (v # r))"

definition MEMORY_RAW_CHUNK_CP :: nat where
  "MEMORY_RAW_CHUNK_CP = 7000"

function slices :: "nat \<Rightarrow> jstr list \<Rightarrow> jstr list" where
  "slices n cs = (if cs = [] \<or> n = 0 then [] else concat (take n cs) # slices n (drop n cs))"
  by pat_completeness auto
termination
  by (relation "measure (\<lambda>(n, cs). length cs)") auto

declare slices.simps [simp del]

definition splitRawChunks :: "jstr \<Rightarrow> jstr list" where
  "splitRawChunks t = slices MEMORY_RAW_CHUNK_CP (chars t)"

lemma concat_chars [simp]: "concat (chars t) = t"
  by (induction t rule: chars.induct) auto

lemma length_chars: "length (chars t) = countCodePoints t"
  by (induction t rule: chars.induct) (auto simp: countCodePoints_def)

lemma chars_Cons: "chars (u # r) = (case r of [] \<Rightarrow> [[u]] | v # q \<Rightarrow>
    if is_high u \<and> is_low v then [u, v] # chars q else [u] # chars r)"
  by (cases r) auto

text \<open>A cut between two of its parts never joins or splits a surrogate pair.\<close>

lemma chars_take_head: "concat (take k (chars (v # r))) = [] \<or> (\<exists>q. concat (take k (chars (v # r))) = v # q)"
  by (cases k; cases r) auto

lemma chars_take: "chars (concat (take n (chars t))) = take n (chars t)"
proof (induction t arbitrary: n rule: chars.induct)
  case 1
  then show ?case by simp
next
  case (2 u)
  then show ?case by (cases n) auto
next
  case (3 u v r)
  show ?case
  proof (cases n)
    case 0
    then show ?thesis by simp
  next
    case (Suc k)
    show ?thesis
    proof (cases "is_high u \<and> is_low v")
      case True
      then show ?thesis
        using 3(1) [OF True, of k] Suc by simp
    next
      case False
      let ?rest = "concat (take k (chars (v # r)))"
      have "chars (u # ?rest) = [u] # chars ?rest"
        using chars_take_head [of k v r] False by (elim disjE exE) (simp_all only: chars.simps if_False simp_thms)
      moreover have "chars (u # v # r) = [u] # chars (v # r)"
        by (simp only: chars.simps if_not_P [OF False])
      ultimately show ?thesis
        using 3(2) [OF False, of k] by (simp only: Suc take_Suc_Cons concat.simps append.simps)
    qed
  qed
qed

lemma chars_drop: "chars (concat (drop n (chars t))) = drop n (chars t)"
proof (induction t arbitrary: n rule: chars.induct)
  case 1
  then show ?case by simp
next
  case (2 u)
  then show ?case by (cases n) auto
next
  case (3 u v r)
  then show ?case by (cases n) auto
qed

lemma slices_chars:
  assumes "0 < n"
  shows "chars (concat cs) = cs \<Longrightarrow> concat (map chars (slices n cs)) = cs \<and>
    (\<forall>c \<in> set (slices n cs). 1 \<le> length (chars c) \<and> length (chars c) \<le> n)"
  using assms
proof (induction n cs rule: slices.induct)
  case (1 n cs)
  show ?case
  proof (cases "cs = [] \<or> n = 0")
    case True
    then show ?thesis
      using "1.prems" by (auto simp: slices.simps [of n])
  next
    case False
    have t: "chars (concat (take n cs)) = take n cs" "chars (concat (drop n cs)) = drop n cs"
      using chars_take [of n "concat cs"] chars_drop [of n "concat cs"] "1.prems"(1) by simp_all
    then show ?thesis
      using "1.IH" [OF False t(2) "1.prems"(2)] t(1) False by (subst (1 2) slices.simps) (auto simp: Suc_le_eq)
  qed
qed

lemma slices_count: "0 < n \<Longrightarrow> length (slices n cs) = (length cs + n - 1) div n"
proof (induction n cs rule: slices.induct)
  case (1 n cs)
  show ?case
  proof (cases "cs = []")
    case True
    then show ?thesis
      using "1.prems" by (simp add: slices.simps)
  next
    case False
    have "1 \<le> length cs"
      using False by (simp add: Suc_le_eq)
    then have "(length cs + n - 1) div n = Suc ((length cs - 1) div n)"
      using "1.prems" le_div_geq [of n "length cs + n - 1"] by simp
    moreover have "(length cs - n + n - 1) div n = (length cs - 1) div n"
      using "1.prems" \<open>1 \<le> length cs\<close> by (cases "length cs \<le> n") auto
    ultimately have "(length cs + n - 1) div n = Suc ((length cs - n + n - 1) div n)"
      by simp
    then show ?thesis
      using "1.IH" "1.prems" False by (subst slices.simps) auto
  qed
qed

definition chunkEventId :: "jstr \<Rightarrow> nat \<Rightarrow> jstr" where
  "chunkEventId doc s = doc @ js ''-c'' @ replicate (4 - length (dec s)) 48 @ dec s"

definition provenance_json :: "jstr \<Rightarrow> json" where
  "provenance_json observedAt =
     JObj (str_members [(''source'', js ''companion:conversation''), (''observedAt'', observedAt)])"

definition raw_request :: "jstr \<Rightarrow> jstr \<Rightarrow> jstr \<Rightarrow> jstr \<Rightarrow> jstr \<Rightarrow> json \<Rightarrow> jstr \<Rightarrow> nat \<Rightarrow> jstr \<Rightarrow> json" where
  "raw_request scope session rid turn speaker provenance doc s body =
     JObj [(js ''op'', JStr (js ''event.append'')),
       (js ''params'', JObj
         (str_members [(''eventId'', chunkEventId doc s), (''sessionId'', session), (''turnId'', turn), (''body'', body)] @
          [(js ''provenance'', provenance),
           (js ''privacy'', JObj (str_members [(''sensitivity'', js ''sensitive''), (''origin'', js ''conversation'')]))] @
          str_members [(''scope'', scope), (''runId'', rid), (''speaker'', speaker)] @
          [(js ''chunk'', JObj [(js ''docId'', JStr doc), (js ''seq'', jnat s)])])),
       (js ''chain'', JObj
         (str_members [(''eventId'', chunkEventId doc s), (''sessionId'', session), (''runId'', rid), (''turnId'', turn)] @
          [(js ''provenance'', provenance), (js ''memories'', JArr [])]))]"

text \<open>One job per chunk, in order; the first refused enqueue ends the document.\<close>

fun enqueueRawEvent ::
  "(jstr \<Rightarrow> jstr) \<Rightarrow> jstr \<Rightarrow> jstr \<Rightarrow> jstr \<Rightarrow> jstr \<Rightarrow> jstr \<Rightarrow> json \<Rightarrow> jstr \<Rightarrow> (nat \<Rightarrow> int) \<Rightarrow> (nat \<Rightarrow> jstr) \<Rightarrow> nat \<Rightarrow>
     jstr list \<Rightarrow> mdb \<Rightarrow> bool \<times> mdb" where
  "enqueueRawEvent D scope session rid turn speaker provenance doc clock fresh s [] db = (True, db)"
| "enqueueRawEvent D scope session rid turn speaker provenance doc clock fresh s (c # cs) db =
     (case enqueueMemoryJob (js ''event.append'') session rid scope
         (stableMemoryJobKey D [js ''event'', rid, speaker, dec s])
         (stringify (raw_request scope session rid turn speaker provenance doc s c)) (Some turn) None (clock s) (fresh s) db of
        (Inl _, db1) \<Rightarrow> (False, db1)
      | (Inr _, db1) \<Rightarrow>
          enqueueRawEvent D scope session rid turn speaker provenance doc clock fresh (s + 1) cs db1)"

subsection \<open>Feedback\<close>

text \<open>
  \<open>collectCitedMemoryOrdinals\<close>: the memory citations of a stored answer, each once. A stored citation has at most eleven
  units, so that its number is exact.
\<close>

definition collectCitedMemoryOrdinals :: "structured_answer \<Rightarrow> nat list" where
  "collectCitedMemoryOrdinals answer =
     rev (remdups (rev (map (\<lambda>c. undec (tl c)) (filter isMemoryCitationId (concat (map ap_citations answer))))))"

text \<open>\<open>new Map\<close> over the exposures: the last of a citation stands.\<close>

definition by_citation :: "exposure_row list \<Rightarrow> jstr \<Rightarrow> exposure_row option" where
  "by_citation es c = find (\<lambda>e. me_citation e = c) (rev es)"

text \<open>The records granted so far, by their recall, in the order of insertion.\<close>

fun add_record :: "jstr \<Rightarrow> jstr \<Rightarrow> (jstr \<times> jstr list) list \<Rightarrow> (jstr \<times> jstr list) list" where
  "add_record recall rid [] = [(recall, [rid])]"
| "add_record recall rid ((k, ids) # m) =
     (if k = recall then (k, if rid \<in> set ids then ids else ids @ [rid]) # m
      else (k, ids) # add_record recall rid m)"

definition grant_of :: "jstr \<Rightarrow> jstr \<Rightarrow> jstr \<Rightarrow> exposure_row \<Rightarrow> grant_input" where
  "grant_of rid session scope e =
     \<lparr>gi_run = rid, gi_citation = me_citation e, gi_record = me_record e, gi_recall = me_recall e,
      gi_session = session, gi_scope = scope\<rparr>"

fun grant_cited ::
  "jstr \<Rightarrow> jstr \<Rightarrow> jstr \<Rightarrow> exposure_row list \<Rightarrow> (nat \<Rightarrow> int) \<Rightarrow> nat list \<Rightarrow> (jstr \<times> jstr list) list \<times> evidence \<Rightarrow>
     (jstr \<times> jstr list) list \<times> evidence" where
  "grant_cited rid session scope es clock [] acc = acc"
| "grant_cited rid session scope es clock (n # ns) (byRecall, ev) =
     grant_cited rid session scope es clock ns
       (case by_citation es (109 # dec n) of
          None \<Rightarrow> (byRecall, ev)
        | Some e \<Rightarrow>
            if me_scope e \<noteq> scope then (byRecall, ev)
            else (case grantMemoryCitation (grant_of rid session scope e) (clock n) ev of
                    (Inl _, ev') \<Rightarrow> (byRecall, ev')
                  | (Inr _, ev') \<Rightarrow> (add_record (me_recall e) (me_record e) byRecall, ev')))"

definition feedback_request :: "jstr \<Rightarrow> jstr \<Rightarrow> jstr \<Rightarrow> jstr list \<Rightarrow> json" where
  "feedback_request scope rid recall ids =
     JObj [(js ''op'', JStr (js ''record.feedback'')),
       (js ''params'', JObj ((js ''recallId'', JStr recall) # (js ''recordIds'', JArr (map JStr (sort ids))) #
          str_members [(''scope'', scope), (''runId'', rid)]))]"

fun enqueue_feedback ::
  "(jstr \<Rightarrow> jstr) \<Rightarrow> jstr \<Rightarrow> jstr \<Rightarrow> jstr \<Rightarrow> int \<Rightarrow> (nat \<Rightarrow> jstr) \<Rightarrow> nat \<Rightarrow> (jstr \<times> jstr list) list \<Rightarrow> mdb \<Rightarrow> mdb" where
  "enqueue_feedback D scope session rid at fresh i [] db = db"
| "enqueue_feedback D scope session rid at fresh i ((recall, ids) # m) db =
     enqueue_feedback D scope session rid at fresh (i + 1) m
       (if ids = [] then db
        else snd (enqueueMemoryJob (js ''record.feedback'') session rid scope
               (stableMemoryJobKey D [js ''feedback'', rid, recall]) (stringify (feedback_request scope rid recall ids))
               None None at (fresh i) db))"

record cultivation =
  cu_grantAt :: "nat \<Rightarrow> int"
  cu_feedbackAt :: int
  cu_feedbackId :: "nat \<Rightarrow> jstr"
  cu_userAt :: "nat \<Rightarrow> int"
  cu_userId :: "nat \<Rightarrow> jstr"
  cu_assistantAt :: "nat \<Rightarrow> int"
  cu_assistantId :: "nat \<Rightarrow> jstr"
  cu_now :: int

definition enqueueFeedbackJobs ::
  "(jstr \<Rightarrow> jstr) \<Rightarrow> jstr \<Rightarrow> run_row \<Rightarrow> run_result \<Rightarrow> cultivation \<Rightarrow> memory \<Rightarrow> memory" where
  "enqueueFeedbackJobs D scope run result cu m =
     (case result of
        Result_v1 _ \<Rightarrow> m
      | Result_v2 _ answer _ \<Rightarrow>
          let ordinals = collectCitedMemoryOrdinals answer in
          if ordinals = [] then m
          else case listMemoryExposures (r_id run) (evidence_of m) of
            Inl _ \<Rightarrow> m
          | Inr es \<Rightarrow>
              let (byRecall, ev) = grant_cited (r_id run) (r_session run) scope es (cu_grantAt cu) ordinals ([], evidence_of m) in
              m\<lparr>evidence_of := ev,
                outbox := enqueue_feedback D scope (r_session run) (r_id run) (cu_feedbackAt cu) (cu_feedbackId cu) 0
                  byRecall (outbox m)\<rparr>)"

subsection \<open>Cultivation\<close>

definition turn_of :: "db \<Rightarrow> jstr \<Rightarrow> turn_row option" where
  "turn_of st tid = find (\<lambda>t. t_id t = tid) (turns st)"

definition selection_of :: "db \<Rightarrow> jstr \<Rightarrow> selection_row option" where
  "selection_of st tid = find (\<lambda>s. sel_turn s = tid) (selections st)"

definition user_text :: "turn_row \<Rightarrow> jstr" where
  "user_text t = (case t_input t of User_text x \<Rightarrow> x | _ \<Rightarrow> [])"

definition result_text :: "run_result \<Rightarrow> jstr" where
  "result_text r = (case r of Result_v1 t \<Rightarrow> t | Result_v2 t _ _ \<Rightarrow> t)"

text \<open>The guards: a completed run with a result, of a turn of its session, that is the turn's selection.\<close>

definition cultivated :: "db \<Rightarrow> jstr \<Rightarrow> (run_row \<times> turn_row \<times> run_result) option" where
  "cultivated st rid =
     (case getRun rid st of
        Inl _ \<Rightarrow> None
      | Inr run \<Rightarrow>
          (case r_result run of
             None \<Rightarrow> None
           | Some result \<Rightarrow>
               if r_status run \<noteq> Completed then None
               else case turn_of st (r_turn run) of
                 None \<Rightarrow> None
               | Some turn \<Rightarrow>
                   if t_session turn \<noteq> r_session run then None
                   else case selection_of st (r_turn run) of
                     None \<Rightarrow> None
                   | Some s \<Rightarrow>
                       if sel_run s \<noteq> r_id run \<or> result_text result = [] then None
                       else Some (run, turn, result)))"

definition observed_at :: "run_row \<Rightarrow> int \<Rightarrow> jstr option" where
  "observed_at run now = toISOString (case r_finishedAt run of Some t \<Rightarrow> t | None \<Rightarrow> now)"

definition user_doc :: "jstr \<Rightarrow> jstr" where
  "user_doc rid = js ''evt-'' @ rid @ js ''-user''"

definition assistant_doc :: "jstr \<Rightarrow> jstr" where
  "assistant_doc rid = js ''evt-'' @ rid @ js ''-assistant''"

text \<open>
  \<open>cultivateRun\<close> up to the extraction: the feedback, then the raw chunks of the user's text and of the answer, unless the
  background gate is closed. The flag says whether both documents were enqueued.
\<close>

definition cultivate_commit ::
  "(jstr \<Rightarrow> jstr) \<Rightarrow> jstr \<Rightarrow> bool \<Rightarrow> db \<Rightarrow> jstr \<Rightarrow> cultivation \<Rightarrow> memory \<Rightarrow> bool \<times> memory" where
  "cultivate_commit D scope closed st rid cu m =
     (case cultivated st rid of
        None \<Rightarrow> (False, m)
      | Some (run, turn, result) \<Rightarrow>
          let m1 = enqueueFeedbackJobs D scope run result cu m in
          case observed_at run (cu_now cu) of
            None \<Rightarrow> (False, m1)
          | Some observedAt \<Rightarrow>
              if closed then (False, m1)
              else
                let raw = enqueueRawEvent D scope (r_session run) (r_id run) (r_turn run);
                    prv = provenance_json observedAt;
                    (ok, db1) = raw (js ''user'') prv (user_doc (r_id run)) (cu_userAt cu) (cu_userId cu) 0
                      (splitRawChunks (user_text turn)) (outbox m1) in
                if \<not> ok then (False, m1\<lparr>outbox := db1\<rparr>)
                else let (ok2, db2) = raw (js ''assistant'') prv (assistant_doc (r_id run)) (cu_assistantAt cu)
                       (cu_assistantId cu) 0 (splitRawChunks (result_text result)) db1 in
                  (ok2, m1\<lparr>outbox := db2\<rparr>))"

definition first_chunk :: "jstr \<Rightarrow> jstr \<Rightarrow> jstr" where
  "first_chunk doc t = (if splitRawChunks t = [] then [] else chunkEventId doc 0)"

text \<open>The chain that the extracted items make.\<close>

definition extraction_request :: "jstr \<Rightarrow> run_row \<Rightarrow> jstr \<Rightarrow> jstr \<Rightarrow> jstr \<Rightarrow> json list \<Rightarrow> json" where
  "extraction_request scope run observedAt userEvent assistantEvent items =
     JObj [(js ''params'', JObj [(js ''scope'', JStr scope)]),
       (js ''chain'', JObj
         ([(js ''eventId'', JStr (if userEvent \<noteq> [] then userEvent else assistantEvent)),
           (js ''sourceEventIds'', JObj (str_members [(''user'', userEvent), (''assistant'', assistantEvent)]))] @
          str_members [(''sessionId'', r_session run), (''runId'', r_id run), (''turnId'', r_turn run)] @
          [(js ''provenance'', provenance_json observedAt), (js ''memories'', JArr items)]))]"

text \<open>
  \<open>cultivateRun\<close> after the extraction of the run \<open>was\<close>: the guards again over the store as it is then, and the
  extracted memories.
\<close>

definition cultivate_remember ::
  "(jstr \<Rightarrow> jstr) \<Rightarrow> (json \<Rightarrow> jstr list) \<Rightarrow> (json \<Rightarrow> jstr option) \<Rightarrow> bool \<Rightarrow> jstr \<Rightarrow> bool \<Rightarrow> db \<Rightarrow> run_row \<Rightarrow> turn_row \<Rightarrow>
     run_result \<Rightarrow> jstr \<Rightarrow> json list \<Rightarrow> int \<Rightarrow> (nat \<Rightarrow> jstr) \<Rightarrow> memory \<Rightarrow> memory" where
  "cultivate_remember D tags_of quote_of send scope running st was turn result observedAt items now fresh m =
     (if items = [] \<or> \<not> running then m
      else case getRun (r_id was) st of
        Inl _ \<Rightarrow> m
      | Inr run \<Rightarrow>
          if r_status run \<noteq> Completed \<or> r_result run = None \<or> r_session run \<noteq> r_session was \<or> r_turn run \<noteq> r_turn was
          then m
          else case selection_of st (r_turn run) of
            None \<Rightarrow> m
          | Some s \<Rightarrow>
              if sel_run s \<noteq> r_id run then m
              else m\<lparr>outbox := enqueueRememberChainMemories D tags_of quote_of send scope
                (extraction_request scope was observedAt (first_chunk (user_doc (r_id was)) (user_text turn))
                  (first_chunk (assistant_doc (r_id was)) (result_text result)) items)
                now fresh (outbox m)\<rparr>)"

subsection \<open>The distill job\<close>

definition distill_request :: "jstr \<Rightarrow> json" where
  "distill_request scope =
     JObj [(js ''op'', JStr (js ''maintain.distill'')),
       (js ''params'', JObj [(js ''scope'', JStr scope), (js ''cursor'', JNull), (js ''limit'', jnat 20), (js ''runId'', JNull)])]"

definition enqueue_distill ::
  "(jstr \<Rightarrow> jstr) \<Rightarrow> jstr \<Rightarrow> jstr \<Rightarrow> jstr \<Rightarrow> jstr \<Rightarrow> int \<Rightarrow> jstr \<Rightarrow> memory \<Rightarrow> jstr option \<times> memory" where
  "enqueue_distill D scope session rid turn now freshId m =
     (case enqueueMemoryJob (js ''maintain.distill'') session rid scope (stableMemoryJobKey D [js ''distill'', rid])
         (stringify (distill_request scope)) (Some turn) None now freshId (outbox m) of
        (Inl _, db) \<Rightarrow> (None, m\<lparr>outbox := db\<rparr>)
      | (Inr (row, _), db) \<Rightarrow> (if j_status row = Job_pending then Some (j_id row) else None, m\<lparr>outbox := db\<rparr>))"

end
