(* ===== verification/Memory_Drain.thy ===== *)
theory Memory_Drain
  imports Memory_Steps Memory_Cultivation
begin

text \<open>
  The staging of a management request, the execution of a job and the drain tick keep the invariant of the memory
  outbox.
\<close>

subsection \<open>Staging\<close>

definition staged_text :: "job_kind \<Rightarrow> jstr \<Rightarrow> jstr" where
  "staged_text kind key = tagged (if kind = Record_correct then ''correct-event'' else status_tag kind) key"

lemma staged_text_in: "staged_text kind key \<in> management_texts key"
  by (simp add: staged_text_def management_texts_def status_tag_def)

lemma owned_operation:
  assumes "job_ok D issued P j" "management_texts k \<subseteq> issued" "t \<in> management_texts k" "j_key j = stable_key D t"
  shows "\<exists>p \<in> P. o_key p = k \<and> (t = tagged ''correct-event'' k \<and> o_kind p = Record_correct \<or> o_job p = j_id j)"
  using assms unfolding job_ok_def owned_def by metis

definition staged_request :: "(jstr \<Rightarrow> jstr) \<Rightarrow> job_kind \<Rightarrow> jstr \<Rightarrow> jstr \<Rightarrow> bool" where
  "staged_request D kind key request \<longleftrightarrow> chain_texts request = {} \<and>
     (if kind = Record_correct
      then \<exists>c. request_chain request = Some c \<and> cc_client c = key \<and> cc_correctKey c = correct_key D key
      else request_chain request = None)"

text \<open>The new job of a staged request, and the operation it decides.\<close>

lemma staged_pair_ok:
  assumes sep: "separates D issued" and key: "management_texts key \<subseteq> issued" "lower_ascii key = key"
    and kind: "management_kind kind" "staged_request D kind key (j_request row)"
    and row: "j_key row = stable_key D (staged_text kind key)" "j_status row = Job_pending" "j_attempts row = 0"
      "j_kind row = (if kind = Record_correct then Event_append else kind)"
    and p: "o_key p = key" "o_kind p = kind" "o_job p = j_id row" "o_status p = Job_pending"
  shows "job_ok D issued (insert p P) row" "operation_ok D issued (insert row J) p"
proof -
  have eq: "t = staged_text kind key" if "t \<in> management_texts k" "management_texts k \<subseteq> issued"
    "stable_key D (staged_text kind key) = stable_key D t" for t k
    using stable_eq [OF sep, of "staged_text kind key" t] that key(1) staged_text_in [of kind key] by auto
  have same: "k = key" if "staged_text kind key \<in> management_texts k" for k
    using that by (auto simp: staged_text_def management_texts_def status_tag_def split: if_splits)
  have own: "owned D issued (insert p P) row"
    unfolding owned_def
  proof (intro allI impI)
    fix k t
    assume a: "management_texts k \<subseteq> issued" "t \<in> management_texts k" "j_key row = stable_key D t"
    from eq [OF a(2,1)] a(3) row(1) have "t = staged_text kind key"
      by simp
    then have "k = key"
      using same a(2) by blast
    then show "\<exists>q \<in> insert p P. o_key q = k \<and> (t = tagged ''correct-event'' k \<and> o_kind q = Record_correct \<or> o_job q = j_id row)"
      using p by auto
  qed
  have event: "kind = Record_correct \<and> k = key" if "management_texts k \<subseteq> issued" "j_key row = event_key D k" for k
  proof -
    have "tagged ''correct-event'' k = staged_text kind key"
      using eq [of "tagged ''correct-event'' k" k] that row(1) by (simp add: event_key_stable management_texts_def)
    then show ?thesis
      by (auto simp: staged_text_def status_tag_def split: if_splits)
  qed
  have "staged_text kind key \<in> issued"
    using key(1) staged_text_in by blast
  moreover have "lower_ascii (cc_client c) = cc_client c \<and> management_texts (cc_client c) \<subseteq> issued \<and>
      j_key row = event_key D (cc_client c) \<and> cc_correctKey c = correct_key D (cc_client c)"
    if "request_chain (j_request row) = Some c" for c
    using that kind(2) key row(1) by (cases "kind = Record_correct") (simp_all add: staged_request_def staged_text_def event_key_stable)
  moreover have "\<exists>c. request_chain (j_request row) = Some c \<and> cc_client c = k"
    if k: "management_texts k \<subseteq> issued" "j_key row = event_key D k" for k
    using event [OF k] kind(2) by (auto simp: staged_request_def)
  moreover have "chain_texts (j_request row) = {}"
    using kind(2) by (simp add: staged_request_def)
  ultimately show "job_ok D issued (insert p P) row"
    using own row unfolding job_ok_def by (intro conjI allI impI) (blast | simp)+
  show "operation_ok D issued (insert row J) p"
    using kind(1) key(1) row p
    by (auto simp: operation_ok_def decides_def staged_text_def event_key_stable)
qed

lemma stage_tx_ok:
  assumes ok: "memory_ok D issued db" and D: "digest_ok D" and sep: "separates D issued"
    and key: "management_texts (oi_key oi) \<subseteq> issued" "lower_ascii (oi_key oi) = oi_key oi"
    and kind: "requireMemoryOperationKind (oi_kind oi) = Some kind" "staged_request D kind (oi_key oi) (ji_request ji)"
    and job: "ji_key ji = stable_key D (staged_text kind (oi_key oi))"
      "requireMemoryKind (ji_kind ji) = Some (if kind = Record_correct then Event_append else kind)"
    and out: "stage_tx ji oi now fresh db = Inr (v, db')"
  shows "memory_ok D issued db' \<and> set (jobs db) \<subseteq> set (jobs db')"
proof (cases "operationByKey db (oi_key oi)")
  case (Some p)
  then have "db' = db"
    using out key(2) by (auto simp: stage_tx_def split: if_splits option.splits)
  then show ?thesis
    using ok by simp
next
  case None
  have absent: "oi_key oi \<notin> o_key ` set (operations db)"
    using None by (simp add: operationByKey_None)
  have fresh_job: "jobByKey db (stable_key D (staged_text kind (oi_key oi))) = None"
  proof (rule ccontr)
    assume "jobByKey db (stable_key D (staged_text kind (oi_key oi))) \<noteq> None"
    then obtain e where e: "e \<in> set (jobs db)" "j_key e = stable_key D (staged_text kind (oi_key oi))"
      by (auto dest: jobByKey_Some)
    then show False
      using owned_operation [OF memory_okD(5) [OF ok e(1)] key(1) staged_text_in e(2)] absent by (metis imageI)
  qed
  let ?row = "job_of ji (fst fresh) now" and ?p = "operation_of oi (fst fresh) (snd fresh) now"
  have kinds: "management_kind kind"
    using kind(1) by (auto simp: requireMemoryOperationKind_def split: option.splits if_splits)
  have row: "j_id ?row = fst fresh" "j_key ?row = stable_key D (staged_text kind (oi_key oi))"
      "j_status ?row = Job_pending" "j_attempts ?row = 0" "j_request ?row = ji_request ji"
      "j_kind ?row = (if kind = Record_correct then Event_append else kind)"
    using job stable_lower [OF D] by (simp_all add: job_of_def)
  have p: "o_id ?p = snd fresh" "o_key ?p = oi_key oi" "o_kind ?p = kind" "o_job ?p = fst fresh" "o_status ?p = Job_pending"
    using kind(1) key(2) by (simp_all add: operation_of_def pending_operation_def)
  have look: "jobByKey db (lower_ascii (ji_key ji)) = None" "operationByKey db (lower_ascii (oi_key oi)) = None"
    using fresh_job None key(2) job stable_lower [OF D] by simp_all
  obtain db1 where db1: "insert_job ?row db = Inr db1" "insert_operation ?p db1 = Inr db'"
    using out row(1) unfolding stage_tx_def obtain_job_def look option.case Let_def
    by (auto simp: rbind_eq_Inr)
  have "fst fresh \<notin> j_id ` set (jobs db) \<and> snd fresh \<notin> o_id ` set (operations db) \<and>
      db' = db\<lparr>jobs := jobs db @ [?row], operations := operations db @ [?p]\<rparr>"
    using db1(1) insert_operation_Inr [OF db1(2)] row(1) p(1) unfolding insert_job_Inr by auto
  then show ?thesis
    using memory_ok_add_both [OF ok, of ?row ?p] absent fresh_job row p
      staged_pair_ok [OF sep key kinds, of ?row ?p] kind(2)
    by (auto simp: jobByKey_None)
qed

lemma kind_texts [simp]: "management_kind k \<Longrightarrow> requireMemoryOperationKind (kind_text k) = Some k"
  by (auto simp: management_kind_def kind_text_def requireMemoryOperationKind_def requireMemoryKind_def job_kinds_def)

lemma staged_inputs_ok:
  assumes "staged_inputs D scope i key record hash turn revision observedAt = (ji, oi)" "management_kind (sg_kind i)"
    and body: "sg_kind i = Record_correct \<Longrightarrow> correction_body_ok (the (sg_body i))"
  shows "requireMemoryKind (ji_kind ji) = Some (if sg_kind i = Record_correct then Event_append else sg_kind i)"
    "oi_key oi = key" "requireMemoryOperationKind (oi_kind oi) = Some (sg_kind i)"
    "staged_request D (sg_kind i) key (ji_request ji)" "ji_key ji = stable_key D (staged_text (sg_kind i) key)"
proof -
  have status: "plain_request (stringify (status_request (sg_kind i) record scope))" if "sg_kind i \<noteq> Record_correct"
    using status_request_plain that assms(2) by (auto simp: management_kind_def)
  show "requireMemoryKind (ji_kind ji) = Some (if sg_kind i = Record_correct then Event_append else sg_kind i)"
    using assms(1,2) by (auto simp: staged_inputs_def Let_def requireMemoryKind_def job_kinds_def kind_text_def management_kind_def
        split: if_splits)
  show "oi_key oi = key" "requireMemoryOperationKind (oi_kind oi) = Some (sg_kind i)"
    using assms(1,2) by (auto simp: staged_inputs_def Let_def split: if_splits)
  show "staged_request D (sg_kind i) key (ji_request ji)"
  proof (cases "sg_kind i = Record_correct")
    case True
    then show ?thesis
      using assms(1) body correction_event_texts
        correction_event_request [where r = "\<lparr>cr_session = sg_session i, cr_run = sg_run i, cr_turn = turn,
          cr_record = record, cr_body = the (sg_body i), cr_key = key, cr_scope = scope, cr_observedAt = observedAt\<rparr>"]
      by (auto simp: staged_inputs_def Let_def staged_request_def)
  next
    case False
    then show ?thesis
      using assms(1) status by (auto simp: staged_inputs_def Let_def staged_request_def plain_request_def)
  qed
  show "ji_key ji = stable_key D (staged_text (sg_kind i) key)"
    using assms(1) by (auto simp: staged_inputs_def Let_def staged_text_def status_tag_def event_key_stable
        stableMemoryJobKey_stable split: if_splits)
qed

lemma stage_ok:
  assumes ok: "memory_ok D issued db" and D: "digest_ok D" and sep: "separates D issued"
    and key: "management_texts (lower_ascii (sg_key i)) \<subseteq> issued" and kind: "management_kind (sg_kind i)"
    and out: "stageMemoryMutation D scope i header items live now observedAt fresh db = (r, db')"
  shows "memory_ok D issued db' \<and> set (jobs db) \<subseteq> set (jobs db')"
proof (cases "db' = db")
  case True
  then show ?thesis using ok by simp
next
  case False
  let ?key = "lower_ascii (sg_key i)"
  obtain target hash revision turn ji oi v where
    id: "resolveStagingIdentity D scope (sg_kind i) (sg_session i) (sg_handle i) (sg_body i) (sg_trusted i) header items
      = Identity target hash"
    and inputs: "staged_inputs D scope i ?key target hash turn revision observedAt = (ji, oi)"
    and staged: "stage_tx ji oi now fresh db = Inr (v, db')"
    using out False
    by (auto simp: stageMemoryMutation_def stageMemoryMutationAtomic_def withImmediate_def Let_def
        split: if_splits staging_identity.splits sum.splits option.splits live_check.splits prod.splits)
  have "correction_body_ok (the (sg_body i))" if "sg_kind i = Record_correct"
    using id that by (auto simp: resolveStagingIdentity_def split: if_splits option.splits)
  note i = staged_inputs_ok [OF inputs kind this]
  show ?thesis
    by (rule stage_tx_ok [OF ok D sep _ _ i(3) _ _ _ staged]) (use i key in simp_all)
qed

subsection \<open>Writes that belong to no management request\<close>

lemma head_text: "58 \<notin> set (js tag) \<Longrightarrow> takeWhile (\<lambda>u. u \<noteq> 58) (join_parts (js tag # p # ps)) = js tag"
  unfolding join_parts_def by (simp, subst takeWhile_append2) auto

lemma plain_tags:
  "58 \<notin> set (js ''remember'')" "58 \<notin> set (js ''event'')" "58 \<notin> set (js ''feedback'')" "58 \<notin> set (js ''distill'')"
  by code_simp+

lemma plain_texts:
  "\<not> management_text (join_parts (js ''remember'' # p # ps))" "\<not> management_text (join_parts (js ''event'' # p # ps))"
  "\<not> management_text (join_parts (js ''feedback'' # p # ps))" "\<not> management_text (join_parts (js ''distill'' # p # ps))"
  unfolding management_text_def head_text [OF plain_tags(1)] head_text [OF plain_tags(2)]
    head_text [OF plain_tags(3)] head_text [OF plain_tags(4)]
  by code_simp+

text \<open>The outbox after some enqueues: in order, with the jobs it had, and the same operations.\<close>

definition extends :: "(jstr \<Rightarrow> jstr) \<Rightarrow> jstr set \<Rightarrow> mdb \<Rightarrow> mdb \<Rightarrow> bool" where
  "extends D issued db db' \<longleftrightarrow> memory_ok D issued db' \<and> set (jobs db) \<subseteq> set (jobs db') \<and> operations db' = operations db"

lemma extends_refl: "memory_ok D issued db \<Longrightarrow> extends D issued db db"
  by (simp add: extends_def)

lemma extends_trans: "extends D issued a b \<Longrightarrow> extends D issued b c \<Longrightarrow> extends D issued a c"
  by (auto simp: extends_def)

lemma extends_ok: "extends D issued db db' \<Longrightarrow> memory_ok D issued db'"
  by (simp add: extends_def)

lemma enqueue_plain:
  assumes "memory_ok D issued db" "digest_ok D" "separates D issued" "join_parts parts \<in> issued"
    "\<not> management_text (join_parts parts)" "plain_request request"
  shows "extends D issued db (snd (enqueueMemoryJob kind session run scope (stableMemoryJobKey D parts) request turn event now freshId db))"
  using enqueue_ok [OF assms(1-5), of request kind session run scope turn event now freshId] assms(6)
  by (cases "enqueueMemoryJob kind session run scope (stableMemoryJobKey D parts) request turn event now freshId db")
    (simp add: extends_def plain_request_def stableMemoryJobKey_stable)

subsection \<open>The memories of a chain\<close>

lemma enqueue_memories_ok:
  assumes D: "digest_ok D" and sep: "separates D issued"
    and plain: "\<And>m. plain_request (stringify (request m))"
    and texts: "\<And>k. index \<le> k \<Longrightarrow> k < index + length ms \<Longrightarrow> join_parts [js ''remember'', run, dec k] \<in> issued"
    and ok: "memory_ok D issued db"
  shows "extends D issued db (enqueue_memories D request session run turn scope now fresh index ms db)"
  using texts ok
proof (induction ms arbitrary: index db)
  case Nil
  then show ?case by (simp add: extends_refl)
next
  case (Cons m ms)
  show ?case
  proof (cases "remember_item m")
    case None
    then show ?thesis
      using Cons.IH [OF Cons.prems(1) Cons.prems(2), of index] by simp
  next
    case (Some item)
    have one: "extends D issued db (snd (enqueueMemoryJob (js ''record.remember'') session run scope
        (stableMemoryJobKey D [js ''remember'', run, dec index]) (stringify (request item)) turn None now (fresh index) db))"
      by (rule enqueue_plain [OF Cons.prems(2) D sep _ _ plain]) (use Cons.prems(1) in \<open>simp_all add: plain_texts\<close>)
    show ?thesis
      using extends_trans [OF one Cons.IH [OF _ extends_ok [OF one], of "index + 1"]] Cons.prems(1) by (simp add: Some)
  qed
qed

lemma object_defined: "is_object x \<Longrightarrow> x \<noteq> JUndef"
  by (cases x) auto

lemma remember_chain_ok:
  assumes D: "digest_ok D" and sep: "separates D issued" and ok: "memory_ok D issued db"
    and prov: "is_object (property (property request ''chain'') ''provenance'') \<Longrightarrow>
      writable (property (property request ''chain'') ''provenance'')"
    and texts: "\<And>run ms k. as_string (property (property request ''chain'') ''runId'') = Some run \<Longrightarrow>
      array_items (property (property request ''chain'') ''memories'') = Some ms \<Longrightarrow> k < length ms \<Longrightarrow>
      join_parts [js ''remember'', run, dec k] \<in> issued"
  shows "extends D issued db (enqueueRememberChainMemories D tags quote send scope request now fresh db)"
proof (cases "enqueueRememberChainMemories D tags quote send scope request now fresh db = db")
  case True
  then show ?thesis using ok by (simp add: extends_refl)
next
  case False
  let ?chain = "property request ''chain''"
  from False obtain session run ms f where
    run: "as_string (property ?chain ''runId'') = Some run" "array_items (property ?chain ''memories'') = Some ms"
    and obj: "is_object (property ?chain ''provenance'')"
    and eq: "enqueueRememberChainMemories D tags quote send scope request now fresh db =
      enqueue_memories D (remember_request tags quote send (property ?chain ''provenance'') f run
        (fst (snd session)) (snd (snd session))) (fst session) run
        (as_string (property ?chain ''turnId'')) f now fresh 0 ms db"
    by (auto simp: enqueueRememberChainMemories_def Let_def split: option.splits if_splits)
  have "plain_request (stringify (remember_request tags quote send (property ?chain ''provenance'') f run u a m))" for u a m
    by (rule remember_request_plain [OF prov [OF obj]])
  then show ?thesis
    unfolding eq using texts [OF run] by (intro enqueue_memories_ok [OF D sep _ _ ok]) auto
qed

lemma parsed_chain_ok:
  assumes D: "digest_ok D" and sep: "separates D issued" and ok: "memory_ok D issued db"
    and request: "json_parse t = Some request" "property request ''op'' = JStr (js ''event.append'')"
      "is_object (property request ''chain'')"
    and texts: "chain_texts t \<subseteq> issued"
  shows "extends D issued db (enqueueRememberChainMemories D tags quote send scope request now fresh db)"
proof (rule remember_chain_ok [OF D sep ok])
  assume obj: "is_object (property (property request ''chain'') ''provenance'')"
  show "writable (property (property request ''chain'') ''provenance'')"
    using parse_writable [OF request(1)] object_defined [OF request(3)] object_defined [OF obj]
    by (metis writable_property)
next
  fix run ms k
  assume "as_string (property (property request ''chain'') ''runId'') = Some run"
    "array_items (property (property request ''chain'') ''memories'') = Some ms" "k < length ms"
  then show "join_parts [js ''remember'', run, dec k] \<in> issued"
    using texts request by (auto simp: chain_texts_def)
qed

lemma unchained_bound:
  assumes ok: "memory_ok D issued db" and j: "j \<in> set (jobs db)" "request_chain (j_request j) = None"
    and p: "p \<in> set (operations db)" "o_job p = j_id j" "o_kind p = Record_correct"
  shows "corrects D p j"
proof (rule ccontr)
  assume "\<not> corrects D p j"
  then have "j_key j = event_key D (o_key p)"
    using decides_bound [OF ok p(1) j(1) p(2)] p(3) by (auto simp: decides_def split: if_splits)
  moreover have "management_texts (o_key p) \<subseteq> issued"
    using memory_okD(6) [OF ok p(1)] by (simp add: operation_ok_def)
  ultimately show False
    using memory_okD(5) [OF ok j(1)] j(2) by (auto simp: job_ok_def)
qed

subsection \<open>One execution\<close>

lemma follow_ups_ok:
  assumes D: "digest_ok D" and sep: "separates D issued" and ok: "memory_ok D issued db"
    and j: "j \<in> set (jobs db)" "j_status j = Job_pending" and request: "json_parse (j_request j) = Some request"
    and out: "enqueueManagementFollowUps D tags quote send scope request now fresh freshId db = (r, db')"
  shows "memory_ok D issued db' \<and> set (jobs db) \<subseteq> set (jobs db') \<and>
    ((\<exists>x. r = Inl x) \<or> (\<forall>p \<in> set (operations db'). o_job p = j_id j \<longrightarrow> o_kind p = Record_correct \<longrightarrow>
       corrects D p j))"
proof (cases "property request ''op'' = JStr (js ''event.append'') \<and> is_object (property request ''chain'')")
  case False
  then have "request_chain (j_request j) = None" "db' = db"
    using out request by (auto simp: request_chain_def enqueueManagementFollowUps_def split: if_splits)
  then show ?thesis
    using ok unchained_bound [OF ok j(1)] by auto
next
  case True
  let ?db = "enqueueRememberChainMemories D tags quote send scope request now fresh db"
  have texts: "chain_texts (j_request j) \<subseteq> issued"
    using memory_okD(5) [OF ok j(1)] by (simp add: job_ok_def)
  have one: "memory_ok D issued ?db" "set (jobs db) \<subseteq> set (jobs ?db)"
    using parsed_chain_ok [OF D sep ok request _ _ texts] True by (auto simp: extends_def)
  have j1: "j \<in> set (jobs ?db)"
    using one(2) j(1) by blast
  show ?thesis
  proof (cases "correction_chain (property request ''chain'')")
    case None
    then have "request_chain (j_request j) = None" "db' = ?db"
      using True out request
      by (auto simp: request_chain_def enqueueManagementFollowUps_def enqueueCorrectChainCorrection_def split: if_splits)
    then show ?thesis
      using one unchained_bound [OF one(1) j1] by auto
  next
    case (Some c)
    then have chain: "request_chain (j_request j) = Some c"
      using True request by (auto simp: request_chain_def)
    obtain r1 where b: "bindCorrectionFollowupAtomic (correct_job (follow_scope scope request) c) (cc_client c) now freshId ?db
        = (r1, db')" "(\<exists>x. r1 = Inl x) \<longleftrightarrow> (\<exists>x. r = Inl x)"
      using out True Some
      by (auto simp: enqueueManagementFollowUps_def enqueueCorrectChainCorrection_def split: if_splits prod.splits sum.splits)
    note bound = bind_ok [OF one(1) D sep j1 j(2) chain b(1)]
    have "corrects D p j"
      if "e \<in> set (jobs db')" "j_key e = correct_key D (cc_client c)" "p \<in> set (operations db')" "o_job p = j_id j"
        "o_kind p = Record_correct" for p e
      using bound j1 that by (intro bound_elsewhere [OF _ sep _ chain, of db' e p]) auto
    then show ?thesis
      using bound b(2) one(2) by blast
  qed
qed

lemma execute_ok:
  assumes D: "digest_ok (w_D w)" and sep: "separates (w_D w) issued" and ok: "memory_ok (w_D w) issued db"
    and j: "j \<in> set (jobs db)" "j_status j = Job_pending"
    and out: "executeJob w j e db = (d, db')"
  shows "memory_ok (w_D w) issued db' \<and> only_job (j_id j) db db'"
proof -
  have fail: "memory_ok (w_D w) issued (snd (failMemoryJobWithOperationMirror (j_id j) code (Some m) now db)) \<and>
      only_job (j_id j) db (snd (failMemoryJobWithOperationMirror (j_id j) code (Some m) now db))" if "m \<le> 8" for code m now
    using fail_ok [OF ok, of "Some m" "j_id j" code now] that
    by (cases "failMemoryJobWithOperationMirror (j_id j) code (Some m) now db") (simp add: default_attempts_def)
  show ?thesis
  proof (cases "json_parse (j_request j)")
    case None
    then show ?thesis
      using out fail [of 1] by (auto simp: executeJob_def fail_job_def)
  next
    case (Some request)
    let ?follow = "enqueueManagementFollowUps (w_D w) (w_tags w) (w_quote w) (e_sendEvidence e) (w_scope w)
      request (e_now e) (e_fresh e) (e_freshCorrect e) db"
    obtain r db1 where f: "?follow = (r, db1)"
      by fastforce
    note follow = follow_ups_ok [OF D sep ok j Some f]
    have acked: "memory_ok (w_D w) issued db2 \<and> only_job (j_id j) db db2"
      if "ackMemoryJobWithOperationMirror (j_id j) (e_now e) db1 = (x, db2)" "r = Inr u" for x db2 u
    proof -
      have "memory_ok (w_D w) issued db2 \<and> only_job (j_id j) db1 db2"
      proof (rule ack_ok [OF _ _ that(1)])
        show "memory_ok (w_D w) issued db1"
          using follow by blast
        fix i p
        assume "i \<in> set (jobs db1)" "j_id i = j_id j" "p \<in> set (operations db1)" "o_job p = j_id j"
          "o_kind p = Record_correct"
        moreover have "i = j"
          using calculation(1,2) follow j(1) memory_okD(1) [of "w_D w" issued db1]
          by (auto intro: distinct_key_eq [where key = j_id])
        ultimately show "corrects (w_D w) p i"
          using follow that(2) by auto
      qed
      then show ?thesis
        using follow by (meson only_job_grows only_job_trans)
    qed
    have failed: "memory_ok (w_D w) issued db1 \<and> only_job (j_id j) db db1"
      using follow by (meson only_job_grows)
    show ?thesis
      using out fail [of 1] fail [of 8] acked failed Some ok f
      by (auto simp: executeJob_def fail_job_def split: if_splits sum.splits option.splits cli_outcome.splits prod.splits)
  qed
qed

end
