(* ===== verification/Memory_System.thy ===== *)
theory Memory_System
  imports Memory_Drain
begin

text \<open>
  The memory service as a transition system: staging, execution of a due job, the enqueues of a
  cultivated run and of the idle window, and the evidence. The invariant is that of the outbox and of the evidence; the
  relation along a run says what is never rewritten.
\<close>

subsection \<open>The outbox along a history\<close>

definition job_later :: "job_row \<Rightarrow> job_row \<Rightarrow> bool" where
  "job_later j k \<longleftrightarrow>
     j_id k = j_id j \<and> j_kind k = j_kind j \<and> j_session k = j_session j \<and> j_run k = j_run j \<and> j_turn k = j_turn j \<and>
     j_event k = j_event j \<and> j_scope k = j_scope j \<and> j_key k = j_key j \<and> j_request k = j_request j \<and>
     j_createdAt k = j_createdAt j \<and> j_attempts j \<le> j_attempts k \<and> (j_status j \<noteq> Job_pending \<longrightarrow> k = j)"

definition operation_later :: "operation_row \<Rightarrow> operation_row \<Rightarrow> bool" where
  "operation_later p q \<longleftrightarrow>
     o_id q = o_id p \<and> o_kind q = o_kind p \<and> o_session q = o_session p \<and> o_run q = o_run p \<and> o_search q = o_search p \<and>
     o_handle q = o_handle p \<and> o_record q = o_record p \<and> o_revision q = o_revision p \<and> o_key q = o_key p \<and>
     o_hash q = o_hash p \<and> o_createdAt q = o_createdAt p \<and> (o_status p \<noteq> Job_pending \<longrightarrow> o_status q = o_status p \<and> o_job q = o_job p)"

definition outbox_later :: "mdb \<Rightarrow> mdb \<Rightarrow> bool" where
  "outbox_later a b \<longleftrightarrow> rows_later job_later (jobs a) (jobs b) \<and> rows_later operation_later (operations a) (operations b)"

lemma job_later_refl [simp]: "job_later j j"
  by (simp add: job_later_def)

lemma job_later_trans: "job_later a b \<Longrightarrow> job_later b c \<Longrightarrow> job_later a c"
  by (auto simp: job_later_def)

lemma operation_later_refl [simp]: "operation_later p p"
  by (simp add: operation_later_def)

lemma operation_later_trans: "operation_later a b \<Longrightarrow> operation_later b c \<Longrightarrow> operation_later a c"
  by (auto simp: operation_later_def)

lemma outbox_later_refl [simp]: "outbox_later db db"
  by (simp add: outbox_later_def rows_later_refl)

lemma jobs_later_trans: "rows_later job_later xs ys \<Longrightarrow> rows_later job_later ys zs \<Longrightarrow> rows_later job_later xs zs"
  by (rule rows_later_trans [where R = job_later]) (erule (1) job_later_trans | assumption)+

lemma operations_later_trans:
  "rows_later operation_later xs ys \<Longrightarrow> rows_later operation_later ys zs \<Longrightarrow> rows_later operation_later xs zs"
  by (rule rows_later_trans [where R = operation_later]) (erule (1) operation_later_trans | assumption)+

lemma outbox_later_trans: "outbox_later a b \<Longrightarrow> outbox_later b c \<Longrightarrow> outbox_later a c"
  unfolding outbox_later_def by (blast intro: jobs_later_trans operations_later_trans)

lemma outbox_later_rows:
  "rows_later job_later (jobs db) js' \<Longrightarrow> outbox_later db (db\<lparr>jobs := js'\<rparr>)"
  "rows_later operation_later (operations db) ps' \<Longrightarrow> outbox_later db (db\<lparr>operations := ps'\<rparr>)"
  "rows_later job_later (jobs db) js' \<Longrightarrow> rows_later operation_later (operations db) ps' \<Longrightarrow>
    outbox_later db (db\<lparr>jobs := js', operations := ps'\<rparr>)"
  by (simp_all add: outbox_later_def rows_later_refl)

lemmas job_appended = rows_later_append [of job_later, OF job_later_refl]
lemmas operation_appended = rows_later_append [of operation_later, OF operation_later_refl]
lemmas jobs_updated = rows_later_upd [of job_later, OF job_later_refl]
lemmas operations_updated = rows_later_upd [of operation_later, OF operation_later_refl]
lemmas later_intros = outbox_later_rows job_appended operation_appended jobs_updated operations_updated outbox_later_refl

lemma enqueue_later:
  "outbox_later db (snd (enqueueMemoryJob kind session run scope key request turn event now freshId db))"
  by (auto simp: enqueueMemoryJob_def withImmediate_def Let_def rbind_eq_Inr insert_job_Inr
      split: option.splits sum.splits intro: later_intros)

lemma set_status_later: "mirrored i p \<Longrightarrow> operation_later p (set_status st now p)"
  by (simp add: operation_later_def mirrored_def set_status_def)

lemma rebind_later: "o_status p = Job_pending \<or> o_job p = i \<Longrightarrow> operation_later p (rebind_update i now p)"
  by (auto simp: operation_later_def rebind_update_def)

lemma ack_later: "outbox_later db (snd (ackMemoryJobWithOperationMirror i now db))"
proof -
  have "job_later j (ack_update now j)" if "pending_id i j" for j
    using that by (simp add: job_later_def pending_id_def ack_update_def)
  then show ?thesis
    by (auto simp: ackMemoryJobWithOperationMirror_def withImmediate_def update_jobs_def update_operations_def
        split: if_splits sum.splits intro!: later_intros set_status_later)
qed

lemma fail_later:
  assumes d: "distinct (map j_id (jobs db))"
  shows "outbox_later db (snd (failMemoryJobWithOperationMirror i code attempts now db))"
proof -
  have "job_later j (fail_update (j_attempts row + 1) code now j)" "job_later j (rearm_update (j_attempts row + 1) code now j)"
    if "getMemoryJobRow db i = Some row" "j_status row = Job_pending" "j \<in> set (jobs db)" "j_id j = i" for j row
  proof -
    have "j = row"
      using getMemoryJobRow_Some [OF that(1)] that(3,4) d by (auto intro: distinct_key_eq [where key = j_id])
    then show "job_later j (fail_update (j_attempts row + 1) code now j)" "job_later j (rearm_update (j_attempts row + 1) code now j)"
      using that(2) by (simp_all add: job_later_def fail_update_def rearm_update_def)
  qed
  then show ?thesis
    by (auto simp: failMemoryJobWithOperationMirror_def withImmediate_def update_jobs_def update_operations_def Let_def
        split: if_splits sum.splits option.splits intro!: later_intros set_status_later)
qed

text \<open>A follow-up takes over an operation that waits for its event job, or finds it bound to the correction already.\<close>

lemma bind_later:
  assumes ok: "memory_ok D issued db" and D: "digest_ok D" and sep: "separates D issued"
    and j: "j \<in> set (jobs db)" "j_status j = Job_pending" "request_chain (j_request j) = Some c"
  shows "outbox_later db (snd (bindCorrectionFollowupAtomic (correct_job scope c) (cc_client c) now freshId db))"
proof -
  obtain r db' where out: "bindCorrectionFollowupAtomic (correct_job scope c) (cc_client c) now freshId db = (r, db')"
    by fastforce
  have c: "lower_ascii (cc_client c) = cc_client c" "lower_ascii (cc_correctKey c) = correct_key D (cc_client c)"
    using memory_okD(5) [OF ok j(1)] j(3) stable_lower [OF D] by (auto simp: job_ok_def correct_key_stable)
  have later: "operation_later q (rebind_update (j_id e) now q)"
    if p: "p \<in> set (operations db)" "o_key p = cc_client c" and q: "q \<in> set (operations db)" "o_id q = o_id p"
      and e: "correct_key D (cc_client c) \<notin> j_key ` set (jobs db) \<or> e \<in> set (jobs db) \<and> j_key e = correct_key D (cc_client c)"
    for e p q
  proof (rule rebind_later)
    have "q = p"
      using p(1) q memory_okD(3) [OF ok] by (auto intro: distinct_key_eq [where key = o_id])
    moreover have "o_job p = j_id j \<or> o_job p = j_id e"
      using chain_operation(2,3) [OF ok sep j(1,3) p] e by blast
    moreover have "o_status p = Job_pending" if "o_job p = j_id j"
      using decides_bound [OF ok p(1) j(1) that] j(2) by (simp add: decides_def)
    ultimately show "o_status q = Job_pending \<or> o_job q = j_id e"
      by blast
  qed
  from bind_cases [OF out] c have "outbox_later db db'"
    by (auto simp: correct_job_def jobByKey_None dest!: operationByKey_Some jobByKey_Some intro!: later_intros rows_later_refl intro: later)
  then show ?thesis
    by (simp add: out)
qed

lemma enqueue_memories_later: "outbox_later db (enqueue_memories D request session run turn scope now fresh i ms db)"
proof (induction ms arbitrary: i db)
  case Nil
  then show ?case by simp
next
  case (Cons m ms)
  then show ?case
    by (auto split: option.splits intro: outbox_later_trans [OF enqueue_later])
qed

lemma remember_chain_later: "outbox_later db (enqueueRememberChainMemories D tags quote send scope request now fresh db)"
  by (auto simp: enqueueRememberChainMemories_def Let_def split: option.splits intro: enqueue_memories_later)

lemma follow_ups_later:
  assumes D: "digest_ok D" and sep: "separates D issued" and ok: "memory_ok D issued db"
    and j: "j \<in> set (jobs db)" "j_status j = Job_pending" and request: "json_parse (j_request j) = Some request"
  shows "outbox_later db (snd (enqueueManagementFollowUps D tags quote send scope request now fresh freshId db))"
proof (cases "property request ''op'' = JStr (js ''event.append'') \<and> is_object (property request ''chain'')")
  case False
  then show ?thesis
    by (auto simp: enqueueManagementFollowUps_def)
next
  case True
  let ?db = "enqueueRememberChainMemories D tags quote send scope request now fresh db"
  have "chain_texts (j_request j) \<subseteq> issued"
    using memory_okD(5) [OF ok j(1)] by (simp add: job_ok_def)
  then have "extends D issued db ?db"
    using parsed_chain_ok [OF D sep ok request] True by blast
  then have one: "memory_ok D issued ?db" "j \<in> set (jobs ?db)"
    using j(1) by (auto simp: extends_def)
  have "outbox_later ?db (snd (enqueueCorrectChainCorrection scope request now freshId ?db))"
  proof (cases "correction_chain (property request ''chain'')")
    case None
    then show ?thesis
      by (simp add: enqueueCorrectChainCorrection_def)
  next
    case (Some c)
    then have "request_chain (j_request j) = Some c"
      using True request by (auto simp: request_chain_def)
    from bind_later [OF one(1) D sep one(2) j(2) this] show ?thesis
      using Some by (auto simp: enqueueCorrectChainCorrection_def split: prod.splits sum.splits) (metis snd_conv)+
  qed
  then show ?thesis
    using True by (auto simp: enqueueManagementFollowUps_def intro: outbox_later_trans [OF remember_chain_later])
qed

lemma execute_later:
  assumes D: "digest_ok (w_D w)" "separates (w_D w) issued" and ok: "memory_ok (w_D w) issued db"
    and j: "j \<in> set (jobs db)" "j_status j = Job_pending"
  shows "outbox_later db (snd (executeJob w j e db))"
proof (cases "json_parse (j_request j)")
  case None
  then show ?thesis
    using fail_later [OF memory_okD(1) [OF ok]] by (auto simp: executeJob_def fail_job_def)
next
  case (Some request)
  let ?follow = "enqueueManagementFollowUps (w_D w) (w_tags w) (w_quote w) (e_sendEvidence e) (w_scope w)
      request (e_now e) (e_fresh e) (e_freshCorrect e) db"
  have one: "outbox_later db (snd ?follow)"
    by (rule follow_ups_later [OF D ok j Some])
  have "outbox_later db db2" if "?follow = (r, db1)" "ackMemoryJobWithOperationMirror (j_id j) (e_now e) db1 = (x, db2)" for r db1 x db2
    using outbox_later_trans [OF one] ack_later [of "snd ?follow"] that by (metis snd_conv)
  then show ?thesis
    using fail_later [OF memory_okD(1) [OF ok]] Some one
    by (auto simp: executeJob_def fail_job_def split: option.splits sum.splits cli_outcome.splits prod.splits)
qed

lemma stage_later: "outbox_later db (snd (stageMemoryMutation D scope i header items live now observedAt fresh db))"
proof -
  have "outbox_later db db'" if "stage_tx ji oi now fresh db = Inr (v, db')" for ji oi v db'
    using that
    by (auto simp: stage_tx_def obtain_job_def rbind_eq_Inr insert_job_Inr Let_def dest!: insert_operation_Inr
        split: option.splits if_splits intro!: later_intros)
  then have "outbox_later db db'" if "stageMemoryMutationAtomic ji oi now fresh db = (r, db')" for ji oi r db'
    using that by (auto simp: stageMemoryMutationAtomic_def withImmediate_def split: sum.splits if_splits)
  then show ?thesis
    by (auto simp: stageMemoryMutation_def Let_def
        split: staging_identity.splits sum.splits option.splits live_check.splits prod.splits)
qed

subsection \<open>The enqueues of a cultivated run\<close>

definition commit_texts :: "db \<Rightarrow> jstr \<Rightarrow> memory \<Rightarrow> jstr set" where
  "commit_texts st rid m =
     (case cultivated st rid of
        None \<Rightarrow> {}
      | Some (run, turn, result) \<Rightarrow>
          (\<lambda>s. join_parts [js ''event'', r_id run, js ''user'', dec s]) ` {..<length (splitRawChunks (user_text turn))} \<union>
          (\<lambda>s. join_parts [js ''event'', r_id run, js ''assistant'', dec s]) ` {..<length (splitRawChunks (result_text result))} \<union>
          (\<lambda>e. join_parts [js ''feedback'', r_id run, me_recall e]) ` set (exposures (evidence_of m)))"

definition remember_texts :: "run_row \<Rightarrow> json list \<Rightarrow> jstr set" where
  "remember_texts run items = (\<lambda>i. join_parts [js ''remember'', r_id run, dec i]) ` {..<length items}"

definition distill_text :: "jstr \<Rightarrow> jstr" where
  "distill_text rid = join_parts [js ''distill'', rid]"

lemma hd_dec: "n \<noteq> 0 \<Longrightarrow> hd (dec n) \<noteq> 48"
proof (induction n rule: dec.induct)
  case (1 n)
  then show ?case
    by (subst dec.simps) auto
qed

lemma json_number_dec: "json_number (dec n)"
proof (cases "n = 0")
  case True
  then show ?thesis
    by (simp add: dec.simps [of 0] json_number_def number_rest_def int_part_def frac_part_def exp_part_def)
next
  case False
  obtain u r where d: "dec n = u # r"
    by (cases "dec n") auto
  have "\<forall>x \<in> set (dec n). digit x"
    using dec_digits by (auto simp: digit_def)
  moreover have "u \<noteq> 48"
    using hd_dec [OF False] d by simp
  moreover from calculation have "dropWhile digit r = []" "u \<noteq> 45"
    using d by (auto simp: dropWhile_eq_Nil_conv digit_def)
  ultimately show ?thesis
    by (simp add: d json_number_def number_rest_def int_part_def frac_part_def exp_part_def del: dropWhile_eq_Nil_conv)
qed

lemma writable_jnat [simp]: "writable (jnat n)"
  using json_number_dec by (simp add: jnat_def)

lemma provenance_writable [simp]: "writable (provenance_json t)" "is_object (provenance_json t)"
  by (simp_all add: provenance_json_def)

lemma raw_plain:
  assumes "writable prov"
  shows "plain_request (stringify (raw_request scope session rid turn speaker prov doc s body))"
proof -
  let ?v = "raw_request scope session rid turn speaker prov doc s body"
  have w: "writable ?v"
    using assms by (simp add: raw_request_def)
  let ?c = "property ?v ''chain''"
  have chain: "?c = JObj (str_members [(''eventId'', chunkEventId doc s), (''sessionId'', session), (''runId'', rid), (''turnId'', turn)] @
      [(js ''provenance'', prov), (js ''memories'', JArr [])])"
    unfolding raw_request_def by (simp only: property_Cons) simp
  have wc: "writable ?c"
    unfolding chain using assms by simp
  have "property ?c ''correct'' = JUndef" "property ?c ''memories'' = JArr []"
    unfolding chain by (simp_all add: property_Cons)
  then have "property (ordered ?c) ''correct'' = JUndef" "property (ordered ?c) ''memories'' = JArr []"
    using wc by (simp_all add: property_ordered)
  then show ?thesis
    using w by (auto simp: plain_request_def request_chain_stringify correction_chain_def chain_texts_def parse_stringify
        property_ordered split: option.splits)
qed

lemma feedback_plain: "plain_request (stringify (feedback_request scope rid recall ids))"
  by (rule plain_request_other) (auto simp: feedback_request_def list_all_iff)

lemma distill_plain: "plain_request (stringify (distill_request scope))"
  by (rule plain_request_other) (auto simp: distill_request_def)

lemma raw_event_ok:
  assumes D: "digest_ok D" and sep: "separates D issued" and prov: "writable prov"
    and texts: "\<And>k. k < s + length cs \<Longrightarrow> join_parts [js ''event'', rid, speaker, dec k] \<in> issued"
    and ok: "memory_ok D issued db"
  shows "extends D issued db (snd (enqueueRawEvent D scope session rid turn speaker prov doc clock fresh s cs db))"
  using texts ok
proof (induction cs arbitrary: s db)
  case Nil
  then show ?case by (simp add: extends_refl)
next
  case (Cons c cs)
  obtain r db1 where e: "enqueueMemoryJob (js ''event.append'') session rid scope
      (stableMemoryJobKey D [js ''event'', rid, speaker, dec s])
      (stringify (raw_request scope session rid turn speaker prov doc s c)) (Some turn) None (clock s) (fresh s) db = (r, db1)"
    by fastforce
  have one: "extends D issued db db1"
    using enqueue_plain [OF Cons.prems(2) D sep, of "[js ''event'', rid, speaker, dec s]"
        "stringify (raw_request scope session rid turn speaker prov doc s c)" "js ''event.append''" session rid scope
        "Some turn" None "clock s" "fresh s"] Cons.prems(1) [of s] raw_plain [OF prov] e
    by (simp add: plain_texts)
  then show ?case
    using Cons.IH [OF _ extends_ok [OF one], of "s + 1"] Cons.prems(1) e extends_trans [OF one]
    by (auto split: sum.splits)
qed

lemma raw_event_later: "outbox_later db (snd (enqueueRawEvent D scope session rid turn speaker prov doc clock fresh s cs db))"
proof (induction cs arbitrary: s db)
  case Nil
  then show ?case by simp
next
  case (Cons c cs)
  have "outbox_later db db1" if "enqueueMemoryJob k a b sc key q t ev at i db = (r, db1)" for k a b sc key q t ev at i r db1
    using enqueue_later [of db k a b sc key q t ev at i] that by simp
  then show ?case
    using Cons.IH outbox_later_trans by (auto split: prod.splits sum.splits) blast
qed

lemma feedback_ok:
  assumes D: "digest_ok D" and sep: "separates D issued"
    and texts: "\<And>k. k \<in> fst ` set m \<Longrightarrow> join_parts [js ''feedback'', rid, k] \<in> issued"
    and ok: "memory_ok D issued db"
  shows "extends D issued db (enqueue_feedback D scope session rid at fresh i m db)"
  using texts ok
proof (induction m arbitrary: i db)
  case Nil
  then show ?case by (simp add: extends_refl)
next
  case (Cons e m)
  obtain k ids where e: "e = (k, ids)" by fastforce
  have one: "extends D issued db (if ids = [] then db else snd (enqueueMemoryJob (js ''record.feedback'') session rid scope
      (stableMemoryJobKey D [js ''feedback'', rid, k]) (stringify (feedback_request scope rid k ids)) None None at (fresh i) db))"
    using enqueue_plain [OF Cons.prems(2) D sep _ _ feedback_plain] Cons.prems e by (simp add: plain_texts extends_refl)
  show ?case
    using extends_trans [OF one Cons.IH [OF _ extends_ok [OF one], of "i + 1"]] Cons.prems(1) by (simp add: e)
qed

lemma feedback_later: "outbox_later db (enqueue_feedback D scope session rid at fresh i m db)"
proof (induction m arbitrary: i db)
  case Nil
  then show ?case by simp
next
  case (Cons e m)
  then show ?case
    using outbox_later_trans [OF enqueue_later Cons.IH] by (cases e) auto
qed

lemma add_record_keys: "fst ` set (add_record recall rid m) \<subseteq> insert recall (fst ` set m)"
proof (induction m)
  case Nil
  then show ?case by simp
next
  case (Cons e m)
  then show ?case
    by (cases e) (simp, blast)
qed

lemma by_citation_in: "by_citation es c = Some e \<Longrightarrow> e \<in> set es"
  by (auto simp: by_citation_def find_Some_iff) (metis length_rev nth_mem set_rev)

lemma subset_through: "A \<subseteq> B \<union> X \<Longrightarrow> B \<subseteq> insert r C \<Longrightarrow> r \<in> X \<Longrightarrow> A \<subseteq> C \<union> X"
  by auto

lemma grant_cited_facts:
  "grant_cited rid session scope es clock ns (m, ev) = (m', ev') \<Longrightarrow>
   fst ` set m' \<subseteq> fst ` set m \<union> me_recall ` set es \<and> exposures ev' = exposures ev \<and>
   (evidence_ok ev \<longrightarrow> evidence_ok ev' \<and> evidence_grows ev ev')"
proof (induction ns arbitrary: m ev)
  case Nil
  then show ?case by (simp add: evidence_grows_refl)
next
  case (Cons n ns)
  have cite: "exposures ev1 = exposures ev \<and> (evidence_ok ev \<longrightarrow> evidence_ok ev1 \<and> evidence_grows ev ev1)"
    if "grantMemoryCitation g at ev = (r, ev1)" for g at r ev1
  proof -
    have "exposures ev1 = exposures ev"
      using that by (auto simp: grantMemoryCitation_def withImmediate_def split: if_splits option.splits sum.splits)
    then show ?thesis
      using cite_ok [of ev g at] that by simp
  qed
  show ?case
  proof (cases "by_citation es (109 # dec n)")
    case None
    then show ?thesis
      using Cons by simp
  next
    case (Some e)
    obtain r ev1 where g: "grantMemoryCitation (grant_of rid session scope e) (clock n) ev = (r, ev1)"
      by fastforce
    show ?thesis
    proof (cases "me_scope e = scope \<and> (\<exists>u. r = Inr u)")
      case True
      then have "grant_cited rid session scope es clock ns (add_record (me_recall e) (me_record e) m, ev1) = (m', ev')"
        using Cons.prems Some g by (auto simp: Some)
      note IH = Cons.IH [OF this]
      have "me_recall e \<in> me_recall ` set es"
        using by_citation_in [OF Some] by (rule imageI)
      then have "fst ` set m' \<subseteq> fst ` set m \<union> me_recall ` set es"
        using subset_through [OF IH [THEN conjunct1] add_record_keys] by simp
      then show ?thesis
        using IH cite [OF g] evidence_grows_trans [of ev ev1 ev'] by simp
    next
      case False
      let ?ev2 = "if me_scope e = scope then ev1 else ev"
      have ev2: "grant_cited rid session scope es clock ns (m, ?ev2) = (m', ev')"
        using Cons.prems False by (cases r; cases "me_scope e = scope") (simp_all add: Some g)
      have "exposures ?ev2 = exposures ev" "evidence_ok ev \<Longrightarrow> evidence_ok ?ev2 \<and> evidence_grows ev ?ev2"
        using cite [OF g] evidence_grows_refl by simp_all
      then show ?thesis
        using Cons.IH [OF ev2] evidence_grows_trans [of ev ?ev2 ev'] by simp
    qed
  qed
qed

lemma feedback_jobs_ok:
  assumes D: "digest_ok D" and sep: "separates D issued"
    and texts: "\<And>e. e \<in> set (exposures (evidence_of m)) \<Longrightarrow> join_parts [js ''feedback'', r_id run, me_recall e] \<in> issued"
    and ok: "memory_ok D issued (outbox m)" "evidence_ok (evidence_of m)"
  shows "extends D issued (outbox m) (outbox (enqueueFeedbackJobs D scope run result cu m)) \<and>
    outbox_later (outbox m) (outbox (enqueueFeedbackJobs D scope run result cu m)) \<and>
    evidence_ok (evidence_of (enqueueFeedbackJobs D scope run result cu m)) \<and>
    evidence_grows (evidence_of m) (evidence_of (enqueueFeedbackJobs D scope run result cu m))"
proof (cases "enqueueFeedbackJobs D scope run result cu m = m")
  case True
  then show ?thesis
    using ok by (simp add: extends_refl evidence_grows_refl)
next
  case False
  then obtain es ns byRecall ev where es: "listMemoryExposures (r_id run) (evidence_of m) = Inr es"
    and g: "grant_cited (r_id run) (r_session run) scope es (cu_grantAt cu) ns ([], evidence_of m) = (byRecall, ev)"
    and eq: "enqueueFeedbackJobs D scope run result cu m = m\<lparr>evidence_of := ev,
      outbox := enqueue_feedback D scope (r_session run) (r_id run) (cu_feedbackAt cu) (cu_feedbackId cu) 0 byRecall (outbox m)\<rparr>"
    by (auto simp: enqueueFeedbackJobs_def Let_def split: run_result.splits if_splits sum.splits prod.splits)
  have "set es \<subseteq> set (exposures (evidence_of m))"
    using es by (auto simp: listMemoryExposures_def split: if_splits)
  have "join_parts [js ''feedback'', r_id run, k] \<in> issued" if "k \<in> fst ` set byRecall" for k
  proof -
    have "fst ` set byRecall \<subseteq> me_recall ` set es"
      using grant_cited_facts [OF g] by simp
    then have "k \<in> me_recall ` set es"
      using that by (rule subsetD)
    then obtain e where "k = me_recall e" "e \<in> set es"
      by (rule imageE)
    moreover from this \<open>set es \<subseteq> _\<close> have "e \<in> set (exposures (evidence_of m))"
      by blast
    ultimately show ?thesis
      using texts [of e] by simp
  qed
  note fb = feedback_ok [OF D sep this ok(1)]
  have "extends D issued (outbox m) (outbox (enqueueFeedbackJobs D scope run result cu m))"
    unfolding eq by (simp add: fb)
  then show ?thesis
    unfolding eq using grant_cited_facts [OF g] ok(2) feedback_later by simp
qed

lemma commit_step:
  assumes D: "digest_ok D" and sep: "separates D issued" and texts: "commit_texts st rid m \<subseteq> issued"
    and ok: "memory_ok D issued (outbox m)" "evidence_ok (evidence_of m)"
  shows "memory_ok D issued (outbox (snd (cultivate_commit D scope closed st rid cu m))) \<and>
    evidence_ok (evidence_of (snd (cultivate_commit D scope closed st rid cu m))) \<and>
    outbox_later (outbox m) (outbox (snd (cultivate_commit D scope closed st rid cu m))) \<and>
    evidence_grows (evidence_of m) (evidence_of (snd (cultivate_commit D scope closed st rid cu m)))"
proof (cases "cultivated st rid")
  case None
  then show ?thesis
    using ok by (simp add: cultivate_commit_def evidence_grows_refl)
next
  case (Some c)
  obtain run turn result where c: "c = (run, turn, result)"
    by (cases c)
  let ?m = "enqueueFeedbackJobs D scope run result cu m"
  have t: "\<And>s. s < length (splitRawChunks (user_text turn)) \<Longrightarrow> join_parts [js ''event'', r_id run, js ''user'', dec s] \<in> issued"
    "\<And>s. s < length (splitRawChunks (result_text result)) \<Longrightarrow> join_parts [js ''event'', r_id run, js ''assistant'', dec s] \<in> issued"
    "\<And>e. e \<in> set (exposures (evidence_of m)) \<Longrightarrow> join_parts [js ''feedback'', r_id run, me_recall e] \<in> issued"
    using texts by (auto simp: commit_texts_def Some c)
  note one = feedback_jobs_ok [OF D sep t(3) ok, where scope = scope and result = result and cu = cu]
  have raw: "memory_ok D issued db2 \<and> outbox_later (outbox m) db2"
    if "enqueueRawEvent D scope se (r_id run) tu sp (provenance_json at) doc clock fresh 0 cs db1 = (r, db2)"
      "memory_ok D issued db1" "outbox_later (outbox m) db1"
      "sp = js ''user'' \<and> cs = splitRawChunks (user_text turn) \<or> sp = js ''assistant'' \<and> cs = splitRawChunks (result_text result)"
    for se tu sp at doc clock fresh cs db1 r db2
    using raw_event_ok [OF D sep provenance_writable(1) _ that(2), of 0 cs "r_id run" sp scope se tu at doc clock fresh]
      raw_event_later [of db1 D scope se "r_id run" tu sp "provenance_json at" doc clock fresh 0 cs]
      outbox_later_trans [OF that(3)] that(1,4) t(1,2)
    by (auto simp: extends_def)
  have "memory_ok D issued (outbox ?m)" "outbox_later (outbox m) (outbox ?m)"
    using one by (auto simp: extends_def)
  then show ?thesis
    using one by (auto simp: cultivate_commit_def Some c Let_def split: option.splits prod.splits dest!: raw)
qed

lemma remember_step:
  assumes D: "digest_ok D" and sep: "separates D issued" and texts: "remember_texts was items \<subseteq> issued"
    and ok: "memory_ok D issued (outbox m)"
  shows "memory_ok D issued (outbox (cultivate_remember D tags quote send scope running st was turn result at items now fresh m)) \<and>
    outbox_later (outbox m) (outbox (cultivate_remember D tags quote send scope running st was turn result at items now fresh m)) \<and>
    evidence_of (cultivate_remember D tags quote send scope running st was turn result at items now fresh m) = evidence_of m"
proof -
  have chain: "property (extraction_request scope was at ue ae items) ''chain'' = JObj
      ([(js ''eventId'', JStr (if ue \<noteq> [] then ue else ae)),
        (js ''sourceEventIds'', JObj (str_members [(''user'', ue), (''assistant'', ae)]))] @
       str_members [(''sessionId'', r_session was), (''runId'', r_id was), (''turnId'', r_turn was)] @
       [(js ''provenance'', provenance_json at), (js ''memories'', JArr items)])" for ue ae
    unfolding extraction_request_def by (simp only: property_Cons) simp
  have parts: "property (property (extraction_request scope was at ue ae items) ''chain'') ''provenance'' = provenance_json at"
    "property (property (extraction_request scope was at ue ae items) ''chain'') ''runId'' = JStr (r_id was)"
    "property (property (extraction_request scope was at ue ae items) ''chain'') ''memories'' = JArr items" for ue ae
    unfolding chain by (simp_all add: property_Cons)
  have "extends D issued (outbox m) (enqueueRememberChainMemories D tags quote send scope
      (extraction_request scope was at ue ae items) now fresh (outbox m))" for ue ae
    by (rule remember_chain_ok [OF D sep ok]) (use texts in \<open>auto simp: parts remember_texts_def\<close>)
  then show ?thesis
    using ok remember_chain_later
    by (auto simp: cultivate_remember_def extends_def split: sum.splits option.splits)
qed

lemma distill_step:
  assumes D: "digest_ok D" and sep: "separates D issued" and texts: "distill_text rid \<in> issued"
    and ok: "memory_ok D issued (outbox m)"
  shows "memory_ok D issued (outbox (snd (enqueue_distill D scope session rid turn now freshId m))) \<and>
    outbox_later (outbox m) (outbox (snd (enqueue_distill D scope session rid turn now freshId m))) \<and>
    evidence_of (snd (enqueue_distill D scope session rid turn now freshId m)) = evidence_of m"
proof -
  let ?e = "enqueueMemoryJob (js ''maintain.distill'') session rid scope (stableMemoryJobKey D [js ''distill'', rid])
    (stringify (distill_request scope)) (Some turn) None now freshId (outbox m)"
  have "extends D issued (outbox m) (snd ?e)"
    by (rule enqueue_plain [OF ok D sep _ _ distill_plain]) (use texts plain_texts(4) [of rid "[]"] in \<open>simp_all add: distill_text_def\<close>)
  moreover have "outbox_later (outbox m) (snd ?e)"
    by (rule enqueue_later)
  ultimately show ?thesis
    by (auto simp: enqueue_distill_def extends_def split: prod.splits sum.splits)
qed

subsection \<open>The steps\<close>

text \<open>
  \<open>issued\<close> bounds the logical writes of a run of the system. A job is executed when it is pending; what the calls
  to the external process, the gateway and the clock gave is arbitrary.
\<close>

inductive memory_step :: "worker \<Rightarrow> jstr set \<Rightarrow> memory \<Rightarrow> memory \<Rightarrow> bool" for w :: worker and issued :: "jstr set" where
  stage: "management_kind (sg_kind i) \<Longrightarrow> management_texts (lower_ascii (sg_key i)) \<subseteq> issued \<Longrightarrow>
    memory_step w issued m (m\<lparr>outbox := snd (stageMemoryMutation (w_D w) (w_scope w) i header items live now observedAt
      fresh (outbox m))\<rparr>)"
| execute: "j \<in> set (jobs (outbox m)) \<Longrightarrow> j_status j = Job_pending \<Longrightarrow>
    memory_step w issued m (m\<lparr>outbox := snd (executeJob w j e (outbox m))\<rparr>)"
| commit: "commit_texts st rid m \<subseteq> issued \<Longrightarrow>
    memory_step w issued m (snd (cultivate_commit (w_D w) (w_scope w) closed st rid cu m))"
| remember: "remember_texts was items \<subseteq> issued \<Longrightarrow>
    memory_step w issued m (cultivate_remember (w_D w) (w_tags w) (w_quote w) send (w_scope w) running st was turn result
      observedAt items now fresh m)"
| distill: "distill_text rid \<in> issued \<Longrightarrow>
    memory_step w issued m (snd (enqueue_distill (w_D w) (w_scope w) session rid turn now freshId m))"
| evidence: "evidence_step (evidence_of m) ev \<Longrightarrow> memory_step w issued m (m\<lparr>evidence_of := ev\<rparr>)"

inductive_cases memory_stepE: "memory_step w issued m m'"

definition empty_memory :: memory where
  "empty_memory = \<lparr>outbox = \<lparr>jobs = [], operations = []\<rparr>, evidence_of = no_evidence\<rparr>"

abbreviation memory_run :: "worker \<Rightarrow> jstr set \<Rightarrow> memory \<Rightarrow> memory \<Rightarrow> bool" where
  "memory_run w issued \<equiv> (memory_step w issued)\<^sup>*\<^sup>*"

text \<open>The digest is one of hex digits, without collisions on the writes of the run.\<close>

definition admissible :: "worker \<Rightarrow> jstr set \<Rightarrow> bool" where
  "admissible w issued \<longleftrightarrow> digest_ok (w_D w) \<and> separates (w_D w) issued"

definition memory_start :: "worker \<Rightarrow> jstr set \<Rightarrow> memory \<Rightarrow> bool" where
  "memory_start w issued m \<longleftrightarrow> admissible w issued \<and> m = empty_memory"

definition memory_inv :: "worker \<Rightarrow> jstr set \<Rightarrow> memory \<Rightarrow> bool" where
  "memory_inv w issued m \<longleftrightarrow> admissible w issued \<and> memory_ok (w_D w) issued (outbox m) \<and> evidence_ok (evidence_of m)"

definition memory_later :: "memory \<Rightarrow> memory \<Rightarrow> bool" where
  "memory_later a b \<longleftrightarrow> outbox_later (outbox a) (outbox b) \<and> evidence_grows (evidence_of a) (evidence_of b)"

lemma memory_step_ok:
  assumes inv: "memory_inv w issued m" and step: "memory_step w issued m m'"
  shows "memory_inv w issued m' \<and> memory_later m m'"
proof -
  have D: "digest_ok (w_D w)" "separates (w_D w) issued" and ok: "memory_ok (w_D w) issued (outbox m)"
    and ev: "evidence_ok (evidence_of m)"
    using inv by (auto simp: memory_inv_def admissible_def)
  from step show ?thesis
  proof (cases rule: memory_step.cases)
    case (stage i header items live now observedAt fresh)
    then show ?thesis
      using stage_ok [OF ok D stage(3,2) prod.collapse [symmetric]] stage_later inv
      by (auto simp: memory_inv_def memory_later_def evidence_grows_refl)
  next
    case (execute j e)
    then show ?thesis
      using execute_ok [OF D ok execute(2,3) prod.collapse [symmetric]] execute_later [OF D ok execute(2,3)] inv
      by (auto simp: memory_inv_def memory_later_def evidence_grows_refl)
  next
    case (commit st rid closed cu)
    then show ?thesis
      using commit_step [OF D commit(2) ok ev] inv by (auto simp: memory_inv_def memory_later_def)
  next
    case (remember was items send running st turn result observedAt now fresh)
    then show ?thesis
      using remember_step [OF D remember(2) ok] inv
      by (auto simp: memory_inv_def memory_later_def evidence_grows_refl)
  next
    case (distill rid session turn now freshId)
    then show ?thesis
      using distill_step [OF D distill(2) ok] inv by (auto simp: memory_inv_def memory_later_def evidence_grows_refl)
  next
    case (evidence ev')
    then show ?thesis
      using evidence_step_ok [OF ev evidence(2)] inv by (auto simp: memory_inv_def memory_later_def)
  qed
qed

lemma memory_start_ok: "memory_start w issued m \<Longrightarrow> memory_inv w issued m"
  by (simp add: memory_start_def memory_inv_def empty_memory_def memory_ok_def evidence_start)

lemma memory_later_refl: "memory_later m m"
  by (simp add: memory_later_def evidence_grows_refl)

lemma memory_later_trans: "memory_later a b \<Longrightarrow> memory_later b c \<Longrightarrow> memory_later a c"
  unfolding memory_later_def by (blast intro: outbox_later_trans evidence_grows_trans)

interpretation memory_system: transition_system "memory_start w issued" "memory_step w issued" "memory_inv w issued"
    memory_later for w :: worker and issued :: "jstr set"
  by unfold_locales (use memory_start_ok memory_step_ok memory_later_refl memory_later_trans in blast)+

subsection \<open>The drain tick is a run\<close>

lemma outbox_same [simp]: "m\<lparr>outbox := outbox m\<rparr> = m"
  by (cases m) simp

lemma page_run:
  assumes "memory_inv w issued m" "\<And>j. j \<in> set page \<Longrightarrow> j \<in> set (jobs (outbox m)) \<and> j_status j = Job_pending"
    "distinct (map j_id page)" "drain_page w env page i executed (outbox m) = (i', executed', db')"
  shows "memory_run w issued m (m\<lparr>outbox := db'\<rparr>)"
  using assms
proof (induction page arbitrary: i executed m)
  case Nil
  then have "db' = outbox m"
    by simp
  then show ?case by simp
next
  case (Cons j page)
  show ?case
  proof (cases "e_stopped (env i) \<or> executed \<ge> MEMORY_DRAIN_BATCH")
    case True
    then have "db' = outbox m"
      using Cons.prems(4) by (auto split: if_splits)
    then show ?thesis by simp
  next
    case False
    show ?thesis
    proof (cases "j_kind j = Maintain_distill \<and> w_gated w \<and> \<not> e_leased (env i)")
      case True
      then show ?thesis
        using Cons.IH [OF Cons.prems(1), of "i + 1" executed] Cons.prems False by auto
    next
      case skip: False
      let ?m = "m\<lparr>outbox := snd (executeJob w j (env i) (outbox m))\<rparr>"
      have step: "memory_step w issued m ?m"
        using Cons.prems(2) [of j] by (intro execute) auto
      have inv: "memory_inv w issued ?m"
        using memory_step_ok [OF Cons.prems(1) step] by blast
      have "only_job (j_id j) (outbox m) (outbox ?m)"
        using Cons.prems(1) Cons.prems(2) [of j] execute_ok [of w issued "outbox m" j "env i"
          "fst (executeJob w j (env i) (outbox m))" "snd (executeJob w j (env i) (outbox m))"]
        by (simp add: memory_inv_def admissible_def)
      have rest: "k \<in> set (jobs (outbox ?m)) \<and> j_status k = Job_pending" if "k \<in> set page" for k
      proof -
        have "j_id k \<noteq> j_id j"
          using Cons.prems(3) imageI [OF that, of j_id] by auto
        then show ?thesis
          using that Cons.prems(2) [of k] \<open>only_job _ _ _\<close> by (auto simp: only_job_def)
      qed
      have "memory_run w issued ?m (?m\<lparr>outbox := db'\<rparr>)"
        using Cons.IH [OF inv rest, of "i + 1" "executed + 1"] Cons.prems(3,4) False skip by (auto split: if_splits)
      then show ?thesis
        using converse_rtranclp_into_rtranclp [where r = "memory_step w issued", OF step] by simp
    qed
  qed
qed

lemma claimed_page:
  assumes "claimDueMemoryJobs limit now db = Inr page" "distinct (map j_id (jobs db))"
  shows "j \<in> set page \<Longrightarrow> j \<in> set (jobs db) \<and> due now j" "distinct (map j_id page)"
    "length page = min (nat limit) (count_where (due now) (jobs db))" "int (length page) \<le> limit"
proof -
  have eq: "page = take (nat limit) (sort_key (\<lambda>j. (j_dueAt j, j_id j)) (filter (due now) (jobs db)))" "1 \<le> limit"
    using assms(1) by (auto simp: claimDueMemoryJobs_def split: if_splits)
  show "j \<in> set page \<Longrightarrow> j \<in> set (jobs db) \<and> due now j"
    using eq(1) by (auto dest!: in_set_takeD)
  have "distinct (map j_id (sort_key (\<lambda>j. (j_dueAt j, j_id j)) (filter (due now) (jobs db))))"
    using assms(2) by (auto simp: distinct_map inj_on_def)
  then show "distinct (map j_id page)"
    unfolding eq(1) take_map [symmetric] by (rule distinct_take)
  show "length page = min (nat limit) (count_where (due now) (jobs db))"
    using eq(1) by (simp add: count_where_def)
  then show "int (length page) \<le> limit"
    using eq(2) by simp
qed

lemma loop_run: "memory_inv w issued m \<Longrightarrow> memory_run w issued m (m\<lparr>outbox := snd (drain_loop w env clock halted i executed (outbox m))\<rparr>)"
proof (induction w env clock halted i executed "outbox m" arbitrary: m rule: drain_loop.induct)
  case (1 w env clock halted i executed)
  show ?case
  proof (cases "executed \<ge> MEMORY_DRAIN_BATCH \<or> halted executed")
    case True
    then show ?thesis by (simp add: drain_loop.simps)
  next
    case False
    note stop = this
    let ?n = "MEMORY_DRAIN_BATCH - executed"
    show ?thesis
    proof (cases "claimDueMemoryJobs (int ?n) (clock executed) (outbox m)")
      case (Inl e)
      then show ?thesis
        using stop by (simp add: drain_loop.simps)
    next
      case (Inr page)
      obtain i' executed' db' where p: "drain_page w env page i executed (outbox m) = (i', executed', db')"
        by (metis prod_cases3)
      have d: "distinct (map j_id (jobs (outbox m)))"
        using "1.prems" memory_okD(1) by (auto simp: memory_inv_def)
      have run: "memory_run w issued m (m\<lparr>outbox := db'\<rparr>)"
        by (rule page_run [OF "1.prems" _ claimed_page(2) [OF Inr d] p])
          (use claimed_page(1) [OF Inr d] in \<open>auto simp: due_def\<close>)
      then have inv: "memory_inv w issued (m\<lparr>outbox := db'\<rparr>)"
        using memory_system.run_inv "1.prems" by blast
      show ?thesis
      proof (cases "page = [] \<or> executed' = executed \<or> length page < ?n")
        case True
        then show ?thesis
          using stop Inr p run by (subst drain_loop.simps) auto
      next
        case False
        then have eq: "drain_loop w env clock halted i executed (outbox m) = drain_loop w env clock halted i' executed' db'"
          using stop Inr p by (subst drain_loop.simps) auto
        let ?m = "m\<lparr>outbox := db'\<rparr>"
        have "memory_run w issued ?m (?m\<lparr>outbox := snd (drain_loop w env clock halted i' executed' (outbox ?m))\<rparr>)"
          by (rule "1.hyps" [OF stop refl Inr _ p [symmetric] _ _ _ inv]) (use False in simp_all)
        then have "memory_run w issued ?m (m\<lparr>outbox := snd (drain_loop w env clock halted i' executed' db')\<rparr>)"
          by simp
        then show ?thesis
          unfolding eq using run by (rule rtranclp_trans [rotated])
      qed
    qed
  qed
qed

lemma drain_run: "memory_inv w issued m \<Longrightarrow> memory_run w issued m (m\<lparr>outbox := snd (drainOnce w env clock halted (outbox m))\<rparr>)"
  unfolding drainOnce_def by (rule loop_run)

end
