(* ===== verification/Memory_Scenario.thy ===== *)
theory Memory_Scenario
  imports Memory_System "HOL-Library.Code_Target_Nat" "HOL-Library.Code_Target_Int"
begin

text \<open>
  A concrete history of the conversation memory: a retirement is staged, and its job is executed. The digest is a toy one that has
  no collision on the four writes of the request.
\<close>

subsection \<open>Equations for evaluation\<close>

text \<open>The recursions on a number, without the successor as a pattern.\<close>

lemma pad_code [code]: "pad k n = (if k = 0 then [] else pad (k - 1) (n div 10) @ [48 + n mod 10])"
  by (cases k) simp_all

lemma sliceCodePoints_code [code]:
  "sliceCodePoints t n = (if n = 0 then [] else
     case t of
       [] \<Rightarrow> []
     | u # r \<Rightarrow> (case r of
         [] \<Rightarrow> [u]
       | v # q \<Rightarrow> if is_high u \<and> is_low v then u # v # sliceCodePoints q (n - 1) else u # sliceCodePoints r (n - 1)))"
  by (cases n; cases t rule: chars.cases) simp_all

lemma pvalue_code [code]:
  "pvalue n s = (if n = 0 then None else
     case skip s of
       [] \<Rightarrow> None
     | c # r \<Rightarrow>
         if c = 34 then map_option (apfst JStr) (str_lit r)
         else if c = 91 then
           (case expect 93 r of
              Some q \<Rightarrow> Some (JArr [], q)
            | None \<Rightarrow> map_option (apfst JArr) (pelems (n - 1) r))
         else if c = 123 then
           (case expect 125 r of
              Some q \<Rightarrow> Some (JObj [], q)
            | None \<Rightarrow> map_option (apfst build_object) (pmembers (n - 1) r))
         else if c = 110 then word_lit ''null'' JNull (c # r)
         else if c = 116 then word_lit ''true'' (JBool True) (c # r)
         else if c = 102 then word_lit ''false'' (JBool False) (c # r)
         else num_lit (c # r))"
proof (cases n)
  case 0
  then show ?thesis by simp
next
  case (Suc m)
  show ?thesis
    unfolding Suc diff_Suc_1 pvalue.simps(2) by simp
qed

lemma pelems_code [code]:
  "pelems n s = (if n = 0 then None else
     case pvalue (n - 1) s of
       None \<Rightarrow> None
     | Some (v, r) \<Rightarrow>
         (case expect 44 r of
            Some q \<Rightarrow> map_option (apfst ((#) v)) (pelems (n - 1) q)
          | None \<Rightarrow> map_option (\<lambda>q. ([v], q)) (expect 93 r)))"
proof (cases n)
  case 0
  then show ?thesis by simp
next
  case (Suc m)
  show ?thesis
    unfolding Suc diff_Suc_1 pelems.simps(2) by simp
qed

lemma pmembers_code [code]:
  "pmembers n s = (if n = 0 then None else
     case Option.bind (expect 34 s) str_lit of
       None \<Rightarrow> None
     | Some (k, r1) \<Rightarrow>
         (case Option.bind (expect 58 r1) (pvalue (n - 1)) of
            None \<Rightarrow> None
          | Some (v, r2) \<Rightarrow>
              (case expect 44 r2 of
                 Some q \<Rightarrow> map_option (apfst ((#) (k, v))) (pmembers (n - 1) q)
               | None \<Rightarrow> map_option (\<lambda>q. ([(k, v)], q)) (expect 125 r2))))"
proof (cases n)
  case 0
  then show ?thesis by simp
next
  case (Suc m)
  show ?thesis
    unfolding Suc diff_Suc_1 pmembers.simps(2) by simp
qed

subsection \<open>The digest and the worker\<close>

definition mem_D :: "jstr \<Rightarrow> jstr" where
  "mem_D t = pad 8 (1000 * length t + (case drop 11 t of [] \<Rightarrow> 0 | u # _ \<Rightarrow> u)) @ replicate 56 48"

lemma mem_digest: "digest_ok mem_D"
  using pad_digit [of _ 8] by (auto simp: digest_ok_def sha256_hex_ok_def mem_D_def is_digit_def simp del: pad.simps)

definition mem_uuid :: "nat \<Rightarrow> jstr" where
  "mem_uuid n = pad 8 n @ js ''-0000-4000-8000-000000000000''"

definition mem_worker :: worker where
  "mem_worker = \<lparr>w_D = mem_D, w_tags = (\<lambda>_. []), w_quote = (\<lambda>_. None), w_scope = js ''conversation'', w_gated = False\<rparr>"

definition mem_key :: jstr where
  "mem_key = mem_uuid 1"

definition mem_texts :: "jstr list" where
  "mem_texts = [tagged ''correct-event'' mem_key, tagged ''correct'' mem_key, tagged ''retire'' mem_key, tagged ''reactivate'' mem_key,
     distill_text (mem_uuid 3)]"

definition mem_issued :: "jstr set" where
  "mem_issued = set mem_texts"

lemma mem_management: "management_texts mem_key \<subseteq> mem_issued"
  by (simp add: mem_issued_def mem_texts_def management_texts_def)

lemma mem_distinct: "distinct (map (stable_key mem_D) mem_texts)"
  by code_simp

lemma mem_start: "memory_start mem_worker mem_issued empty_memory"
  using mem_digest mem_distinct
  by (simp add: memory_start_def admissible_def separates_def mem_worker_def mem_issued_def distinct_map)

subsection \<open>The retirement\<close>

definition mem_item :: search_item where
  "mem_item = \<lparr>si_handle = js ''m1'', si_record = js ''rec-1'', si_status = js ''active'', si_snippet = js ''likes tea''\<rparr>"

definition mem_header :: search_header where
  "mem_header = \<lparr>sh_session = mem_uuid 2, sh_scope = js ''conversation''\<rparr>"

definition mem_input :: stage_input where
  "mem_input = \<lparr>sg_kind = Record_retire, sg_session = mem_uuid 2, sg_run = mem_uuid 3, sg_search = js ''search-1'',
     sg_handle = Some (js ''m1''), sg_body = None, sg_key = mem_key, sg_trusted = False\<rparr>"

definition mem_live :: live_check where
  "mem_live = Live_current 1 (js ''active'') (mem_uuid 4)"

definition mem_stage :: "mdb \<Rightarrow> stage_outcome option \<times> mdb" where
  "mem_stage = stageMemoryMutation mem_D (js ''conversation'') mem_input (Some mem_header) [mem_item] mem_live 1000
     (js ''2024-02-29T03:30:45.120Z'') (mem_uuid 5, mem_uuid 6)"

definition mem_env :: "cli_outcome \<Rightarrow> int \<Rightarrow> job_env" where
  "mem_env out now = \<lparr>e_outcome = out, e_now = now, e_fresh = mem_uuid, e_freshCorrect = mem_uuid 7, e_sendEvidence = True,
     e_stopped = False, e_leased = True\<rparr>"

definition mem_db1 :: mdb where
  "mem_db1 = snd (mem_stage \<lparr>jobs = [], operations = []\<rparr>)"

definition mem_job1 :: job_row where
  "mem_job1 = jobs mem_db1 ! 0"

definition mem_db2 :: mdb where
  "mem_db2 = snd (executeJob mem_worker mem_job1 (mem_env Cli_ok 2000) mem_db1)"

definition mem_state :: "mdb \<Rightarrow> memory" where
  "mem_state db = \<lparr>outbox = db, evidence_of = no_evidence\<rparr>"

lemma mem_staged: "mem_stage \<lparr>jobs = [], operations = []\<rparr> = (Some (Staged (mem_uuid 6) Job_pending False), mem_db1)"
proof -
  have "fst (mem_stage \<lparr>jobs = [], operations = []\<rparr>) = Some (Staged (mem_uuid 6) Job_pending False)"
    by code_simp
  then show ?thesis
    by (metis mem_db1_def prod.collapse)
qed

lemma mem_shape1: "length (jobs mem_db1) = 1 \<and> j_status mem_job1 = Job_pending \<and> j_attempts mem_job1 = 0 \<and> isUuidV4 (j_id mem_job1)"
  by code_simp

lemma mem_shape2: "map j_status (jobs mem_db2) = [Job_acked] \<and> map o_status (operations mem_db2) = [Job_acked]"
  by code_simp

lemma mem_jobs: "mem_job1 \<in> set (jobs mem_db1)"
  using mem_shape1 by (simp add: mem_job1_def)

lemma mem_step1: "memory_step mem_worker mem_issued empty_memory (mem_state mem_db1)"
proof -
  have "lower_ascii (sg_key mem_input) = mem_key"
    by code_simp
  then have "memory_step mem_worker mem_issued empty_memory (empty_memory\<lparr>outbox := snd (stageMemoryMutation (w_D mem_worker)
      (w_scope mem_worker) mem_input (Some mem_header) [mem_item] mem_live 1000 (js ''2024-02-29T03:30:45.120Z'')
      (mem_uuid 5, mem_uuid 6) (outbox empty_memory))\<rparr>)"
    using mem_management by (intro stage) (simp_all add: mem_input_def management_kind_def)
  then show ?thesis
    by (simp add: mem_state_def empty_memory_def mem_db1_def mem_stage_def mem_worker_def)
qed

lemma mem_step2: "memory_step mem_worker mem_issued (mem_state mem_db1) (mem_state mem_db2)"
  using execute [of mem_job1 "mem_state mem_db1" mem_worker mem_issued "mem_env Cli_ok 2000"] mem_jobs mem_shape1
  by (simp add: mem_state_def mem_db2_def)

lemma mem_runs:
  "memory_run mem_worker mem_issued empty_memory (mem_state mem_db1)"
  "memory_run mem_worker mem_issued (mem_state mem_db1) (mem_state mem_db2)"
  "memory_run mem_worker mem_issued empty_memory (mem_state mem_db2)"
  using mem_step1 mem_step2 by (meson r_into_rtranclp rtranclp.rtrancl_into_rtrancl)+

subsection \<open>A distill job, and a citation\<close>

definition mem_distill :: "mdb \<Rightarrow> (kerr + job_row \<times> bool) \<times> mdb" where
  "mem_distill = enqueueMemoryJob (js ''maintain.distill'') (mem_uuid 2) (mem_uuid 3) (js ''conversation'')
     (stableMemoryJobKey mem_D [js ''distill'', mem_uuid 3]) (stringify (distill_request (js ''conversation'')))
     (Some (mem_uuid 4)) None 1000 (mem_uuid 8)"

definition mem_db4 :: mdb where
  "mem_db4 = snd (mem_distill \<lparr>jobs = [], operations = []\<rparr>)"

lemma mem_distilled: "\<exists>row. mem_distill \<lparr>jobs = [], operations = []\<rparr> = (Inr (row, False), mem_db4)"
proof -
  have "case fst (mem_distill \<lparr>jobs = [], operations = []\<rparr>) of Inl _ \<Rightarrow> False | Inr (_, found) \<Rightarrow> \<not> found"
    by code_simp
  then show ?thesis
    by (cases "mem_distill \<lparr>jobs = [], operations = []\<rparr>") (auto simp: mem_db4_def split: sum.splits)
qed

lemma mem_distill_step: "memory_step mem_worker mem_issued (mem_state db) (mem_state (snd (mem_distill db)))"
proof -
  have "distill_text (mem_uuid 3) \<in> mem_issued"
    by (simp add: mem_issued_def mem_texts_def)
  from distill [OF this, of mem_worker "mem_state db" "mem_uuid 2" "mem_uuid 4" 1000 "mem_uuid 8"] show ?thesis
    by (auto simp: enqueue_distill_def mem_worker_def mem_state_def mem_distill_def split: prod.splits sum.splits)
qed

lemma mem_step_distill: "memory_run mem_worker mem_issued empty_memory (mem_state mem_db4)"
  using mem_distill_step [of "\<lparr>jobs = [], operations = []\<rparr>"]
  by (simp add: mem_db4_def mem_state_def empty_memory_def r_into_rtranclp)

text \<open>The distill job after the retirement.\<close>

definition mem_db5 :: mdb where
  "mem_db5 = snd (mem_distill mem_db2)"

lemma mem_step5: "memory_run mem_worker mem_issued (mem_state mem_db2) (mem_state mem_db5)"
  unfolding mem_db5_def by (rule r_into_rtranclp) (rule mem_distill_step)

lemma mem_shape5: "map j_status (jobs mem_db5) = [Job_acked, Job_pending]"
  by code_simp

definition mem_exposure :: exposure_row where
  "mem_exposure = \<lparr>me_recall = js ''recall-1'', me_record = js ''rec-1'', me_session = mem_uuid 2, me_run = mem_uuid 3,
     me_scope = js ''conversation'', me_citation = js ''m1'', me_snippet = js ''likes tea'', me_revision = Some 2,
     me_kind = Some (js ''user_fact''), me_createdAt = 0\<rparr>"

definition mem_ev1 :: evidence where
  "mem_ev1 = snd (recordMemoryExposure mem_exposure 1000 no_evidence)"

definition mem_ev2 :: evidence where
  "mem_ev2 = snd (grantMemoryCitation (grant_of (mem_uuid 3) (mem_uuid 2) (js ''conversation'') mem_exposure) 2000 mem_ev1)"

lemma mem_cited: "length (citations mem_ev2) = 1 \<and> length (exposures mem_ev2) = 1"
  by code_simp

lemma mem_step_evidence: "memory_run mem_worker mem_issued empty_memory (empty_memory\<lparr>evidence_of := mem_ev2\<rparr>)"
proof -
  have "evidence_step no_evidence mem_ev1" "evidence_step mem_ev1 mem_ev2"
    unfolding mem_ev1_def mem_ev2_def by (rule expose cite)+
  note exposed = this
  have "memory_step mem_worker mem_issued m (m\<lparr>evidence_of := mem_ev1\<rparr>)" if "evidence_of m = no_evidence" for m
    using memory_step.evidence exposed(1) that by metis
  moreover have "evidence_of empty_memory = no_evidence"
    by (simp add: empty_memory_def)
  ultimately have first: "memory_step mem_worker mem_issued empty_memory (empty_memory\<lparr>evidence_of := mem_ev1\<rparr>)" .
  have "memory_step mem_worker mem_issued m (m\<lparr>evidence_of := mem_ev2\<rparr>)" if "evidence_of m = mem_ev1" for m
    using memory_step.evidence exposed(2) that by metis
  from this [of "empty_memory\<lparr>evidence_of := mem_ev1\<rparr>"]
  have "memory_step mem_worker mem_issued (empty_memory\<lparr>evidence_of := mem_ev1\<rparr>) (empty_memory\<lparr>evidence_of := mem_ev2\<rparr>)"
    by simp
  with first show ?thesis
    by (simp add: converse_rtranclp_into_rtranclp)
qed

end
