(* ===== verification/Memory_Claims.thy ===== *)
theory Memory_Claims
  imports Memory_Scenario
begin

text \<open>The properties of the conversation memory, over the reachable states of its transition system.\<close>

subsection \<open>The status of an operation\<close>

lemma reached_memory: "memory_start w issued m0 \<Longrightarrow> memory_run w issued m0 m \<Longrightarrow> memory_inv w issued m"
  by (rule memory_system.reachable_inv)

lemma later_memory: "memory_inv w issued m \<Longrightarrow> memory_run w issued m m' \<Longrightarrow> memory_later m m'"
  by (rule memory_system.run_rel)

lemma inv_tables: "memory_inv w issued m \<Longrightarrow> memory_ok (w_D w) issued (outbox m)"
  by (simp add: memory_inv_def)

text \<open>The key of the job whose acknowledgement applies an operation.\<close>

definition applying_key :: "(jstr \<Rightarrow> jstr) \<Rightarrow> operation_row \<Rightarrow> jstr" where
  "applying_key D p = stableMemoryJobKey D
     [if o_kind p = Record_correct then js ''correct'' else if o_kind p = Record_retire then js ''retire''
      else js ''reactivate'', o_key p]"

lemma decided_operation:
  assumes "decides D p j"
  shows "j_id j = o_job p \<and> o_status p = j_status j \<and>
    (o_status p = Job_acked \<longrightarrow> j_kind j = o_kind p \<and> j_key j = applying_key D p)"
  using assms by (auto simp: decides_def corrects_def applying_key_def correct_key_def stableMemoryJobKey_stable status_tag_def
      split: if_splits)

text \<open>C25. In every reachable state the status that a client polls for a management operation is the status of the
  outbox job that the operation is bound to, which exists; and \<open>acked\<close> is only ever shown when that job is of the
  operation's own kind and has the key under which the operation's request is applied: a correction counts as applied
  when its \<open>record.correct\<close> job is acknowledged, never when only its source event is.\<close>

theorem operation_status_is_its_jobs:
  assumes "memory_start w issued m0" "memory_run w issued m0 m" "p \<in> set (operations (outbox m))"
  shows "\<exists>j \<in> set (jobs (outbox m)). j_id j = o_job p \<and> o_status p = j_status j \<and>
    (o_status p = Job_acked \<longrightarrow> j_kind j = o_kind p \<and> j_key j = applying_key (w_D w) p)"
  using memory_okD(6) [OF inv_tables [OF reached_memory [OF assms(1,2)]] assms(3)] decided_operation
  by (auto simp: operation_ok_def)

theorem operation_status_is_its_jobs_witness:
  "\<exists>j \<in> set (jobs mem_db2). j_id j = o_job (operations mem_db2 ! 0) \<and> j_status j = Job_acked \<and>
    j_kind j = o_kind (operations mem_db2 ! 0) \<and> j_key j = applying_key mem_D (operations mem_db2 ! 0)"
proof -
  have p: "operations mem_db2 ! 0 \<in> set (operations mem_db2)" "o_status (operations mem_db2 ! 0) = Job_acked"
    using mem_shape2 by (auto simp: map_eq_Cons_conv)
  show ?thesis
    using operation_status_is_its_jobs [OF mem_start mem_runs(3), of "operations mem_db2 ! 0"] p
    by (auto simp: mem_state_def mem_worker_def)
qed

subsection \<open>What is settled stays\<close>

text \<open>C26. Once a job is acknowledged or failed its row never changes again. An operation keeps its identity, its request
  and its target in any case, and once it is acked or failed its whole row stays as it is, its status and the job it is
  bound to included, except for \<open>updated_at\<close>, which a repeated follow-up of its source event may still touch; whatever is
  staged, executed or cultivated later. The rows of the evidence are never rewritten.\<close>

theorem settled_is_final:
  assumes "memory_start w issued m0" "memory_run w issued m0 m" "memory_run w issued m m'"
  shows "(\<forall>j \<in> set (jobs (outbox m)). j_status j \<noteq> Job_pending \<longrightarrow> j \<in> set (jobs (outbox m'))) \<and>
    (\<forall>p \<in> set (operations (outbox m)). \<exists>q \<in> set (operations (outbox m')).
       q\<lparr>o_job := o_job p, o_status := o_status p, o_updatedAt := o_updatedAt p\<rparr> = p \<and>
       (o_status p \<noteq> Job_pending \<longrightarrow> q\<lparr>o_updatedAt := o_updatedAt p\<rparr> = p)) \<and>
    evidence_grows (evidence_of m) (evidence_of m')"
proof (intro conjI)
  have later: "memory_later m m'"
    using later_memory [OF reached_memory [OF assms(1,2)] assms(3)] .
  show "\<forall>j \<in> set (jobs (outbox m)). j_status j \<noteq> Job_pending \<longrightarrow> j \<in> set (jobs (outbox m'))"
  proof (intro ballI impI)
    fix j
    assume "j \<in> set (jobs (outbox m))" "j_status j \<noteq> Job_pending"
    moreover from this(1) later obtain k where "k \<in> set (jobs (outbox m'))" "job_later j k"
      using rows_later_row [of job_later "jobs (outbox m)" "jobs (outbox m')" j] by (auto simp: memory_later_def outbox_later_def)
    ultimately show "j \<in> set (jobs (outbox m'))"
      by (simp add: job_later_def)
  qed
  show "\<forall>p \<in> set (operations (outbox m)). \<exists>q \<in> set (operations (outbox m')).
      q\<lparr>o_job := o_job p, o_status := o_status p, o_updatedAt := o_updatedAt p\<rparr> = p \<and>
      (o_status p \<noteq> Job_pending \<longrightarrow> q\<lparr>o_updatedAt := o_updatedAt p\<rparr> = p)"
  proof
    fix p
    assume "p \<in> set (operations (outbox m))"
    with later obtain q where "q \<in> set (operations (outbox m'))" "operation_later p q"
      using rows_later_row [of operation_later "operations (outbox m)" "operations (outbox m')" p]
      by (auto simp: memory_later_def outbox_later_def)
    then show "\<exists>q \<in> set (operations (outbox m')).
        q\<lparr>o_job := o_job p, o_status := o_status p, o_updatedAt := o_updatedAt p\<rparr> = p \<and>
        (o_status p \<noteq> Job_pending \<longrightarrow> q\<lparr>o_updatedAt := o_updatedAt p\<rparr> = p)"
      by (intro bexI [of _ q]) (auto simp: operation_later_def intro!: operation_row.equality)
  qed
  show "evidence_grows (evidence_of m) (evidence_of m')"
    using later by (simp add: memory_later_def)
qed

theorem settled_is_final_witness:
  "jobs mem_db2 ! 0 \<in> set (jobs mem_db5) \<and> j_status (jobs mem_db2 ! 0) = Job_acked \<and> length (jobs mem_db5) = 2"
proof -
  have acked: "length (jobs mem_db2) = 1" "j_status (jobs mem_db2 ! 0) = Job_acked"
    using mem_shape2 by (auto simp: map_eq_Cons_conv)
  moreover have "length (jobs mem_db5) = 2"
    using arg_cong [OF mem_shape5, of length] by simp
  moreover have "jobs mem_db2 ! 0 \<in> set (jobs mem_db2)"
    using acked by simp
  ultimately show ?thesis
    using settled_is_final [OF mem_start mem_runs(3) mem_step5] by (simp add: mem_state_def)
qed

subsection \<open>The drain tick\<close>

text \<open>Every job of a page executed once, in the order of the page.\<close>

fun execute_each :: "worker \<Rightarrow> (nat \<Rightarrow> job_env) \<Rightarrow> nat \<Rightarrow> job_row list \<Rightarrow> mdb \<Rightarrow> mdb" where
  "execute_each w env i [] db = db"
| "execute_each w env i (j # page) db = execute_each w env (i + 1) page (snd (executeJob w j (env i) db))"

lemma page_all:
  assumes "\<And>k. \<not> e_stopped (env k)" "\<not> w_gated w" "executed + length page \<le> MEMORY_DRAIN_BATCH"
  shows "\<exists>i'. drain_page w env page i executed db = (i', executed + length page, execute_each w env i page db)"
  using assms(3)
proof (induction page arbitrary: i executed db)
  case Nil
  then show ?case by simp
next
  case (Cons j page)
  then show ?case
    using assms(1,2) Cons.IH [of "executed + 1" "i + 1" "snd (executeJob w j (env i) db)"] by simp
qed

lemma page_bound: "executed \<le> MEMORY_DRAIN_BATCH \<Longrightarrow> drain_page w env page i executed db = (i', executed', db') \<Longrightarrow>
    executed' \<le> MEMORY_DRAIN_BATCH"
proof (induction page arbitrary: i executed db)
  case Nil
  then show ?case by simp
next
  case (Cons j page)
  show ?case
  proof (cases "e_stopped (env i) \<or> executed \<ge> MEMORY_DRAIN_BATCH")
    case True
    then show ?thesis using Cons.prems by auto
  next
    case False
    then show ?thesis
      using Cons.prems Cons.IH [of executed "i + 1" db]
        Cons.IH [of "executed + 1" "i + 1" "snd (executeJob w j (env i) db)"] by (auto split: if_splits)
  qed
qed

lemma loop_bound: "executed \<le> MEMORY_DRAIN_BATCH \<Longrightarrow> fst (drain_loop w env clock halted i executed db) \<le> MEMORY_DRAIN_BATCH"
proof (induction w env clock halted i executed db rule: drain_loop.induct)
  case (1 w env clock halted i executed db)
  note IH = "1.IH" and le = "1.prems"
  show ?case
  proof (cases "executed \<ge> MEMORY_DRAIN_BATCH \<or> halted executed")
    case True
    then show ?thesis using le by (simp add: drain_loop.simps)
  next
    case False
    note stop = this
    show ?thesis
    proof (cases "claimDueMemoryJobs (int (MEMORY_DRAIN_BATCH - executed)) (clock executed) db")
      case (Inl e)
      then show ?thesis
        using stop le by (simp add: drain_loop.simps)
    next
      case (Inr page)
      obtain i' executed' db' where p: "drain_page w env page i executed db = (i', executed', db')"
        by (metis prod_cases3)
      have le': "executed' \<le> MEMORY_DRAIN_BATCH"
        using page_bound [OF le p] .
      show ?thesis
      proof (cases "page = [] \<or> executed' = executed \<or> length page < MEMORY_DRAIN_BATCH - executed")
        case True
        then show ?thesis
          using stop Inr p le le' by (subst drain_loop.simps) auto
      next
        case False
        have "fst (drain_loop w env clock halted i' executed' db') \<le> MEMORY_DRAIN_BATCH"
          by (rule IH [OF stop refl Inr _ p [symmetric] refl _ _ le']) (use False in simp_all)
        then show ?thesis
          using False stop Inr p by (subst drain_loop.simps) auto
      qed
    qed
  qed
qed

text \<open>The jobs that a tick claims first: the due ones by due time and id, five at most.\<close>

definition first_due :: "int \<Rightarrow> mdb \<Rightarrow> job_row list" where
  "first_due at db = take MEMORY_DRAIN_BATCH (sort_key (\<lambda>j. (j_dueAt j, j_id j)) (filter (due at) (jobs db)))"

text \<open>C27. A drain tick always ends, with at most five executions. When nothing stops it and no background gate
  withholds a lease, it executes once each, in the order of their due times, the first five jobs that were due at its
  first claim (all of them when there were fewer), and nothing else: what it leaves in the store is what those executions
  leave. A job that fails and is due again, or that an execution adds, waits for a later tick.\<close>

theorem drain_executes_what_is_due:
  "fst (drainOnce w env clock halted db) \<le> MEMORY_DRAIN_BATCH \<and>
   (\<not> halted 0 \<and> (\<forall>k. \<not> e_stopped (env k)) \<and> \<not> w_gated w \<and> unix_ms_ok (clock 0) \<longrightarrow>
    fst (drainOnce w env clock halted db) = min MEMORY_DRAIN_BATCH (count_where (due (clock 0)) (jobs db)) \<and>
    snd (drainOnce w env clock halted db) = execute_each w env 0 (first_due (clock 0) db) db)"
proof (intro conjI impI)
  show "fst (drainOnce w env clock halted db) \<le> MEMORY_DRAIN_BATCH"
    unfolding drainOnce_def by (rule loop_bound) simp
  assume "\<not> halted 0 \<and> (\<forall>k. \<not> e_stopped (env k)) \<and> \<not> w_gated w \<and> unix_ms_ok (clock 0)"
  then have a: "\<not> halted 0" "\<forall>k. \<not> e_stopped (env k)" "\<not> w_gated w" "unix_ms_ok (clock 0)"
    by auto
  let ?page = "first_due (clock 0) db"
  have claim: "claimDueMemoryJobs (int MEMORY_DRAIN_BATCH) (clock 0) db = Inr ?page"
    using a(4) by (simp add: claimDueMemoryJobs_def MEMORY_DRAIN_BATCH_def first_due_def)
  have len: "length ?page = min MEMORY_DRAIN_BATCH (count_where (due (clock 0)) (jobs db))"
    by (simp add: count_where_def first_due_def)
  obtain i' where p: "drain_page w env ?page 0 0 db = (i', length ?page, execute_each w env 0 ?page db)"
    using page_all [of env w 0 ?page 0 db] a len by auto
  have full: "drain_loop w env clock halted i' MEMORY_DRAIN_BATCH db' = (MEMORY_DRAIN_BATCH, db')" for db'
    by (simp add: drain_loop.simps)
  have "drainOnce w env clock halted db = (length ?page, execute_each w env 0 ?page db)"
  proof (cases "length ?page < MEMORY_DRAIN_BATCH")
    case True
    then show ?thesis
      using a(1) claim p unfolding drainOnce_def by (subst drain_loop.simps) (auto simp: MEMORY_DRAIN_BATCH_def)
  next
    case False
    then have "length ?page = MEMORY_DRAIN_BATCH"
      using len by simp
    then show ?thesis
      using a(1) claim p full unfolding drainOnce_def
      by (subst drain_loop.simps) (auto simp: MEMORY_DRAIN_BATCH_def)
  qed
  then show "fst (drainOnce w env clock halted db) = min MEMORY_DRAIN_BATCH (count_where (due (clock 0)) (jobs db))"
    and "snd (drainOnce w env clock halted db) = execute_each w env 0 ?page db"
    using len by simp_all
qed

theorem drain_executes_what_is_due_witness:
  "fst (drainOnce mem_worker (\<lambda>_. mem_env Cli_aborted 2000) (\<lambda>_. 2000) (\<lambda>_. False) mem_db1) = 1 \<and>
   snd (drainOnce mem_worker (\<lambda>_. mem_env Cli_aborted 2000) (\<lambda>_. 2000) (\<lambda>_. False) mem_db1) =
     snd (executeJob mem_worker (hd (jobs mem_db1)) (mem_env Cli_aborted 2000) mem_db1)"
proof -
  have "count_where (due 2000) (jobs mem_db1) = 1" "unix_ms_ok 2000"
    by code_simp+
  moreover have "first_due 2000 mem_db1 = [hd (jobs mem_db1)]"
    by code_simp
  ultimately show ?thesis
    using drain_executes_what_is_due [of mem_worker "\<lambda>_. mem_env Cli_aborted 2000" "\<lambda>_. 2000" "\<lambda>_. False" mem_db1]
    by (simp add: mem_worker_def mem_env_def MEMORY_DRAIN_BATCH_def)
qed

subsection \<open>An aborted attempt\<close>

lemma aborted_outcome:
  assumes ok: "memory_ok (w_D w) issued db"
    and j: "j \<in> set (jobs db)" "j_status j = Job_pending" "isUuidV4 (j_id j)"
    and request: "json_parse (j_request j) = Some request" "well_formed_request request"
    and e: "e_outcome e = Cli_aborted" "unix_ms_ok (e_now e)"
  shows "executeJob w j e db = (False,
      if j_attempts j \<ge> 7
      then db\<lparr>jobs := put_row j_id (fail_update (j_attempts j + 1) (js ''cli_preempted'') (e_now e) j) (jobs db),
        operations := upd_where (mirrored (j_id j)) (set_status Job_failed (e_now e)) (operations db)\<rparr>
      else db\<lparr>jobs := put_row j_id (rearm_update (j_attempts j + 1) (js ''cli_preempted'') (e_now e) j) (jobs db)\<rparr>)"
proof -
  have row: "getMemoryJobRow db (j_id j) = Some j"
    unfolding getMemoryJobRow_def using find_key_distinct [OF memory_okD(1) [OF ok] j(1)] .
  have code: "error_code_ok (js ''cli_preempted'')"
    by code_simp
  have put: "upd_where (\<lambda>i. j_id i = j_id j) (fail_update n c t) (jobs db) = put_row j_id (fail_update n c t j) (jobs db)"
    "upd_where (\<lambda>i. j_id i = j_id j) (rearm_update n c t) (jobs db) = put_row j_id (rearm_update n c t j) (jobs db)" for n c t
    using put_job(2) [OF ok j(1,2)] by (simp_all add: fail_update_def rearm_update_def)
  show ?thesis
    using request e j code
    by (simp add: executeJob_def getMemoryJob_def row fail_job_def failMemoryJobWithOperationMirror_def withImmediate_def
        default_attempts_def update_jobs_def update_operations_def Let_def put)
qed

lemma put_row_mem: "j \<in> set rows \<Longrightarrow> key k = key j \<Longrightarrow> k \<in> set (put_row key k rows)"
  by (auto simp: put_row_def upd_where_def image_iff)

text \<open>C28. A foreground preemption counts as an attempt: the job keeps its place in the queue with a delay between two and
  sixty seconds that doubles with each attempt, but the eighth aborted attempt fails the job for good and every pending operation
  bound to it with it.\<close>

theorem aborted_attempt_counts:
  assumes run: "memory_start w issued m0" "memory_run w issued m0 m"
    and j: "j \<in> set (jobs (outbox m))" "j_status j = Job_pending" "isUuidV4 (j_id j)"
    and request: "json_parse (j_request j) = Some request" "well_formed_request request"
    and e: "e_outcome e = Cli_aborted" "unix_ms_ok (e_now e)"
  shows "\<exists>db'. executeJob w j e (outbox m) = (False, db') \<and>
    (\<exists>k \<in> set (jobs db'). j_id k = j_id j \<and> j_attempts k = j_attempts j + 1 \<and>
       (if j_attempts j = 7
        then j_status k = Job_failed \<and>
          (\<forall>p \<in> set (operations (outbox m)). o_job p = j_id j \<longrightarrow>
             (\<exists>q \<in> set (operations db'). o_id q = o_id p \<and> o_status q = Job_failed))
        else j_status k = Job_pending \<and> operations db' = operations (outbox m) \<and>
          j_dueAt k = e_now e + min (1000 * 2 ^ j_attempts k) 60000 \<and> 2000 \<le> j_dueAt k - e_now e))"
proof -
  have ok: "memory_ok (w_D w) issued (outbox m)"
    using inv_tables [OF reached_memory [OF run]] .
  have less: "j_attempts j < 8"
    using memory_okD(5) [OF ok j(1)] j(2) by (simp add: job_ok_def)
  have bound: "o_status p = Job_pending" if "p \<in> set (operations (outbox m))" "o_job p = j_id j" for p
    using decides_bound [OF ok that(1) j(1) that(2)] j(2) by (simp add: decides_def)
  note out = aborted_outcome [OF ok j request e]
  show ?thesis
  proof (cases "j_attempts j = 7")
    case True
    let ?k = "fail_update (j_attempts j + 1) (js ''cli_preempted'') (e_now e) j"
    let ?ops = "upd_where (mirrored (j_id j)) (set_status Job_failed (e_now e)) (operations (outbox m))"
    have ops: "\<exists>q \<in> set ?ops. o_id q = o_id p \<and> o_status q = Job_failed"
      if "p \<in> set (operations (outbox m))" "o_job p = j_id j" for p
      using bound [OF that] that
      by (intro bexI [of _ "set_status Job_failed (e_now e) p"]) (auto simp: set_status_def upd_where_def mirrored_def image_iff)
    have "j_id ?k = j_id j"
      by (simp add: fail_update_def)
    from put_row_mem [OF j(1) this] show ?thesis
      unfolding out using True ops by (auto intro!: bexI [of _ ?k]) (simp_all add: fail_update_def)
  next
    case False
    let ?k = "rearm_update (j_attempts j + 1) (js ''cli_preempted'') (e_now e) j"
    have id: "j_id ?k = j_id j"
      by (simp add: rearm_update_def)
    have "min (j_attempts j + 1) 6 = j_attempts j + 1 \<or> min (j_attempts j + 1) 6 = 6 \<and> j_attempts j + 1 = 7"
      using False less by auto
    then have "retry_delay (j_attempts j + 1) = min (1000 * 2 ^ (j_attempts j + 1)) 60000"
      by (auto simp: retry_delay_def)
    moreover from this have "2000 \<le> retry_delay (j_attempts j + 1)"
      by simp
    ultimately show ?thesis
      unfolding out using False less j(2) put_row_mem [OF j(1) id]
      by (auto intro!: bexI [of _ ?k]) (simp_all add: rearm_update_def)
  qed
qed

theorem aborted_attempt_counts_witness:
  "\<exists>db'. executeJob mem_worker mem_job1 (mem_env Cli_aborted 2000) mem_db1 = (False, db') \<and>
    (\<exists>k \<in> set (jobs db'). j_id k = j_id mem_job1 \<and> j_attempts k = 1 \<and> j_status k = Job_pending \<and> j_dueAt k = 4000)"
proof -
  have "case json_parse (j_request mem_job1) of None \<Rightarrow> False | Some request \<Rightarrow> well_formed_request request"
    by code_simp
  then obtain request where "json_parse (j_request mem_job1) = Some request" "well_formed_request request"
    by (auto split: option.splits)
  moreover have "unix_ms_ok 2000"
    by code_simp
  ultimately show ?thesis
    using aborted_attempt_counts [OF mem_start mem_runs(1), of mem_job1 request "mem_env Cli_aborted 2000"] mem_jobs mem_shape1
    by (auto simp: mem_state_def mem_env_def)
qed

subsection \<open>One request, one operation\<close>

definition is_operation :: "stage_input \<Rightarrow> jstr \<Rightarrow> jstr \<Rightarrow> jstr \<Rightarrow> operation_row \<Rightarrow> bool" where
  "is_operation i target hash oid p \<longleftrightarrow> o_id p = oid \<and> o_key p = lower_ascii (sg_key i) \<and> o_hash p = hash \<and>
     o_session p = sg_session i \<and> o_kind p = sg_kind i \<and> o_record p = target"

lemma staged_row:
  assumes "staged_inputs D scope i key target hash turn revision observedAt = (ji, oi)" "management_kind (sg_kind i)"
    "stage_tx ji oi now fresh db = Inr ((jobRow, p, found), db')" "operationByKey db (lower_ascii key) = None"
    "key = lower_ascii (sg_key i)"
  shows "p \<in> set (operations db') \<and> is_operation i target hash (o_id p) p"
proof -
  have oi: "oi_key oi = key" "oi_hash oi = hash" "oi_session oi = sg_session i" "oi_record oi = target"
      "oi_kind oi = kind_text (sg_kind i)"
    using assms(1) by (auto simp: staged_inputs_def Let_def split: if_splits)
  obtain job where p: "p = operation_of oi job (snd fresh) now" "p \<in> set (operations db')"
    using assms(3,4) oi(1)
    by (auto simp: stage_tx_def rbind_eq_Inr Let_def dest!: insert_operation_Inr split: option.splits if_splits)
  then show ?thesis
    using oi assms(2,5) by (simp add: is_operation_def operation_of_def pending_operation_def)
qed

lemma staged_operation:
  assumes out: "stageMemoryMutation D scope i header items live now observedAt fresh db = (Some (Staged oid st found), db')"
    and kind: "management_kind (sg_kind i)"
    and id: "resolveStagingIdentity D scope (sg_kind i) (sg_session i) (sg_handle i) (sg_body i) (sg_trusted i) header items
      = Identity target hash"
  shows "isUuidV4 (lower_ascii (sg_key i)) \<and> (\<exists>p \<in> set (operations db'). is_operation i target hash oid p)"
proof -
  let ?key = "lower_ascii (sg_key i)"
  have key: "isUuidV4 ?key"
    using out id by (auto simp: stageMemoryMutation_def Let_def getMemoryOperationByKey_def split: if_splits)
  show ?thesis
  proof (cases "operationByKey db ?key")
    case (Some p)
    then have "db' = db" "is_operation i target hash oid p"
      using out id key operationByKey_Some [OF Some]
      by (auto simp: stageMemoryMutation_def Let_def getMemoryOperationByKey_def is_operation_def split: if_splits)
    then show ?thesis
      using key operationByKey_Some [OF Some] by blast
  next
    case None
    obtain revision turn ji oi job p where inputs: "staged_inputs D scope i ?key target hash turn revision observedAt = (ji, oi)"
      and tx: "stage_tx ji oi now fresh db = Inr ((job, p, found), db')" "oid = o_id p"
      using out id key None
      by (auto simp: stageMemoryMutation_def stageMemoryMutationAtomic_def withImmediate_def stage_result_def Let_def
          getMemoryOperationByKey_def split: if_splits live_check.splits prod.splits sum.splits kerr.splits)
    show ?thesis
      using staged_row [OF inputs kind tx(1)] None tx(2) key by auto
  qed
qed

text \<open>C29. A management request is staged once: however much later the same key comes again, and whatever happened in
  between, nothing is written; the same request gets the same operation, and one that names another session, kind, record or
  body is refused as a conflict.\<close>

theorem staged_once:
  assumes run: "memory_start w issued m0" "memory_run w issued m0 m"
    and kind: "management_kind (sg_kind i)" "management_texts (lower_ascii (sg_key i)) \<subseteq> issued"
    and id: "resolveStagingIdentity (w_D w) (w_scope w) (sg_kind i) (sg_session i) (sg_handle i) (sg_body i) (sg_trusted i)
      header items = Identity target hash"
    and first: "stageMemoryMutation (w_D w) (w_scope w) i header items live now observedAt fresh (outbox m)
      = (Some (Staged oid st found), db1)"
    and later: "memory_run w issued (m\<lparr>outbox := db1\<rparr>) m'"
    and again: "uuid_like (sg_key i')" "lower_ascii (sg_key i') = lower_ascii (sg_key i)"
      "resolveStagingIdentity (w_D w) (w_scope w) (sg_kind i') (sg_session i') (sg_handle i') (sg_body i') (sg_trusted i')
        header' items' = Identity target' hash'"
  shows "\<exists>st'. stageMemoryMutation (w_D w) (w_scope w) i' header' items' live' now' observedAt' fresh' (outbox m') =
    (Some (if hash' = hash \<and> sg_session i' = sg_session i \<and> sg_kind i' = sg_kind i \<and> target' = target
           then Staged oid st' True else Stage_refused (js ''idempotency_conflict'')), outbox m')"
proof -
  have inv: "memory_inv w issued m"
    using reached_memory [OF run] .
  have "m\<lparr>outbox := db1\<rparr> = m\<lparr>outbox := snd (stageMemoryMutation (w_D w) (w_scope w) i header items live now observedAt fresh (outbox m))\<rparr>"
    by (simp add: first)
  then have "memory_step w issued m (m\<lparr>outbox := db1\<rparr>)"
    using stage [OF kind, of w m header items live now observedAt fresh] by metis
  then have inv1: "memory_inv w issued (m\<lparr>outbox := db1\<rparr>)"
    using memory_step_ok [OF inv] by blast
  obtain p where key: "isUuidV4 (lower_ascii (sg_key i))" and p: "p \<in> set (operations db1)" "is_operation i target hash oid p"
    using staged_operation [OF first kind(1) id] by blast
  obtain q where q: "q \<in> set (operations (outbox m'))" "operation_later p q"
    using later_memory [OF inv1 later] rows_later_row [OF _ p(1)] by (auto simp: memory_later_def outbox_later_def)
  have "memory_inv w issued m'"
    using memory_system.run_inv [OF later inv1] .
  from memory_okD(4) [OF inv_tables [OF this]] q(1)
  have look: "operationByKey (outbox m') (o_key q) = Some q"
    unfolding operationByKey_def by (rule find_key_distinct)
  have "is_operation i target hash oid q"
    using q(2) p(2) by (simp add: operation_later_def is_operation_def)
  then show ?thesis
    using again key look
    by (auto simp: stageMemoryMutation_def Let_def getMemoryOperationByKey_def is_operation_def)
qed

theorem staged_once_witness:
  "\<exists>st. mem_stage mem_db2 = (Some (Staged (mem_uuid 6) st True), mem_db2)"
proof -
  have "case resolveStagingIdentity mem_D (js ''conversation'') (sg_kind mem_input) (sg_session mem_input) (sg_handle mem_input)
      (sg_body mem_input) (sg_trusted mem_input) (Some mem_header) [mem_item] of Identity _ _ \<Rightarrow> True | _ \<Rightarrow> False"
    by code_simp
  then obtain target hash where "resolveStagingIdentity mem_D (js ''conversation'') (sg_kind mem_input) (sg_session mem_input)
      (sg_handle mem_input) (sg_body mem_input) (sg_trusted mem_input) (Some mem_header) [mem_item] = Identity target hash"
    by (auto split: staging_identity.splits)
  then have id: "resolveStagingIdentity (w_D mem_worker) (w_scope mem_worker) (sg_kind mem_input) (sg_session mem_input)
      (sg_handle mem_input) (sg_body mem_input) (sg_trusted mem_input) (Some mem_header) [mem_item] = Identity target hash"
    by (simp add: mem_worker_def)
  have key: "uuid_like (sg_key mem_input)" "lower_ascii (sg_key mem_input) = mem_key" "management_kind (sg_kind mem_input)"
    by code_simp+
  have first: "stageMemoryMutation (w_D mem_worker) (w_scope mem_worker) mem_input (Some mem_header) [mem_item] mem_live 1000
      (js ''2024-02-29T03:30:45.120Z'') (mem_uuid 5, mem_uuid 6) (outbox empty_memory)
      = (Some (Staged (mem_uuid 6) Job_pending False), mem_db1)"
    using mem_staged by (simp add: mem_stage_def mem_worker_def empty_memory_def)
  have "memory_run mem_worker mem_issued (empty_memory\<lparr>outbox := mem_db1\<rparr>) (mem_state mem_db2)"
    using mem_runs(2) by (simp add: mem_state_def empty_memory_def)
  from staged_once [OF mem_start rtranclp.rtrancl_refl key(3) _ id first this key(1) refl id] mem_management key(2)
  show ?thesis
    by (simp add: mem_stage_def mem_state_def mem_worker_def)
qed

subsection \<open>One logical write, one job\<close>

lemma enqueued_row:
  assumes "enqueueMemoryJob kind session run scope key request turn event now freshId db = (Inr (row, found), db')"
  shows "row \<in> set (jobs db') \<and> j_key row = lower_ascii key \<and> isUuidV4 key"
  using assms
  by (auto simp: enqueueMemoryJob_def withImmediate_def Let_def rbind_eq_Inr insert_job_Inr
      split: option.splits if_splits sum.splits dest: jobByKey_Some)

text \<open>C30. A logical write that was enqueued once is never enqueued again: whatever happened since, also after its job was
  acknowledged or has failed, enqueueing the same key changes nothing and answers with the row of the job that is there.\<close>

theorem enqueued_once:
  assumes run: "memory_start w issued m0" "memory_run w issued m0 m" "memory_run w issued m m'"
    and first: "enqueueMemoryJob kind session rid scope key request turn event now freshId db = (Inr (row, found), outbox m)"
    and again: "requireMemoryKind kind' \<noteq> None" "isUuidV4 session'" "isUuidV4 rid'" "memory_token_ok scope'"
      "isUuidV4 key'" "request_text_ok request'" "opt_ok isUuidV4 turn'" "opt_ok memory_token_ok event'" "unix_ms_ok now'"
      "lower_ascii key' = lower_ascii key"
  shows "\<exists>row'. enqueueMemoryJob kind' session' rid' scope' key' request' turn' event' now' freshId' (outbox m') =
      (Inr (row', True), outbox m') \<and> job_later row row'"
proof -
  have row: "row \<in> set (jobs (outbox m))" "j_key row = lower_ascii key"
    using enqueued_row [OF first] by auto
  obtain row' where r: "row' \<in> set (jobs (outbox m'))" "job_later row row'"
    using later_memory [OF reached_memory [OF run(1,2)] run(3)] rows_later_row [OF _ row(1)]
    by (auto simp: memory_later_def outbox_later_def)
  have "memory_run w issued m0 m'"
    using run(2,3) by (rule rtranclp_trans)
  from memory_okD(2) [OF inv_tables [OF reached_memory [OF run(1) this]]] r(1)
  have "jobByKey (outbox m') (j_key row') = Some row'"
    unfolding jobByKey_def by (rule find_key_distinct)
  moreover have "j_key row' = lower_ascii key"
    using r(2) row(2) by (simp add: job_later_def)
  ultimately show ?thesis
    using again r(2) by (auto simp: enqueueMemoryJob_def withImmediate_def Let_def)
qed

theorem enqueued_once_witness:
  "\<exists>row. mem_distill mem_db4 = (Inr (row, True), mem_db4)"
proof -
  obtain row where "mem_distill \<lparr>jobs = [], operations = []\<rparr> = (Inr (row, False), mem_db4)"
    using mem_distilled by blast
  then have first: "enqueueMemoryJob (js ''maintain.distill'') (mem_uuid 2) (mem_uuid 3) (js ''conversation'')
      (stableMemoryJobKey mem_D [js ''distill'', mem_uuid 3]) (stringify (distill_request (js ''conversation'')))
      (Some (mem_uuid 4)) None 1000 (mem_uuid 8) \<lparr>jobs = [], operations = []\<rparr> = (Inr (row, False), outbox (mem_state mem_db4))"
    by (simp add: mem_distill_def mem_state_def)
  have "requireMemoryKind (js ''maintain.distill'') \<noteq> None" "isUuidV4 (mem_uuid 2)" "isUuidV4 (mem_uuid 3)"
      "memory_token_ok (js ''conversation'')" "isUuidV4 (stableMemoryJobKey mem_D [js ''distill'', mem_uuid 3])"
      "request_text_ok (stringify (distill_request (js ''conversation'')))" "opt_ok isUuidV4 (Some (mem_uuid 4))"
      "opt_ok memory_token_ok None" "unix_ms_ok 1000"
    by code_simp+
  from enqueued_once [OF mem_start mem_step_distill rtranclp.rtrancl_refl first this refl, of "mem_uuid 8"]
  show ?thesis
    by (auto simp: mem_distill_def mem_state_def)
qed

subsection \<open>Evidence\<close>

text \<open>C31. Every citation that was granted rests on an exposure of the same record to the same run in the same scope, with the
  revision that was delivered; both rows, and the snapshot of every search, are the same in all later states, so that
  a citation can never be moved to another record or revision.\<close>

theorem citations_rest_on_exposures:
  assumes "memory_start w issued m0" "memory_run w issued m0 m" "memory_run w issued m m'"
    "g \<in> set (citations (evidence_of m))"
  shows "\<exists>e \<in> set (exposures (evidence_of m)). rests_on g e \<and> g \<in> set (citations (evidence_of m')) \<and>
    e \<in> set (exposures (evidence_of m')) \<and>
    (\<forall>g' \<in> set (citations (evidence_of m')). citation_key g' = citation_key g \<longrightarrow> g' = g) \<and>
    (\<forall>e' \<in> set (exposures (evidence_of m')). exposure_key e' = exposure_key e \<longrightarrow> e' = e)"
proof -
  have inv: "memory_inv w issued m"
    using reached_memory [OF assms(1,2)] .
  then obtain e where e: "e \<in> set (exposures (evidence_of m))" "rests_on g e"
    using assms(4) by (auto simp: memory_inv_def evidence_ok_def)
  have ok: "evidence_ok (evidence_of m')" "evidence_grows (evidence_of m) (evidence_of m')"
    using memory_system.run_inv [OF assms(3) inv] later_memory [OF inv assms(3)] by (auto simp: memory_inv_def memory_later_def)
  then have later: "g \<in> set (citations (evidence_of m'))" "e \<in> set (exposures (evidence_of m'))"
    using assms(4) e(1) by (auto simp: evidence_grows_def dest: set_mono_prefix)
  show ?thesis
    using e later ok(1) distinct_key_eq [of citation_key "citations (evidence_of m')"]
      distinct_key_eq [of exposure_key "exposures (evidence_of m')"]
    by (intro bexI [of _ e]) (auto simp: evidence_ok_def)
qed

theorem citations_rest_on_exposures_witness:
  "\<exists>e \<in> set (exposures mem_ev2). rests_on (citations mem_ev2 ! 0) e"
proof -
  have "citations mem_ev2 ! 0 \<in> set (citations (evidence_of (empty_memory\<lparr>evidence_of := mem_ev2\<rparr>)))"
    using mem_cited by simp
  from citations_rest_on_exposures [OF mem_start mem_step_evidence rtranclp.rtrancl_refl this] show ?thesis
    by auto
qed

lemma find_in: "find P xs = Some x \<Longrightarrow> x \<in> set xs \<and> P x"
  by (auto simp: find_Some_iff)

text \<open>C32. A management request is only ever bound to an item of the search it names, and only when that search is of
  the same session and scope; unless the origin is trusted to choose, it is bound only when the search found a
  single item, and otherwise asks.\<close>

theorem target_is_unambiguous:
  "case resolveManagementTarget scope session handle trusted header items of
     Bound i \<Rightarrow> (\<exists>h. header = Some h \<and> sh_session h = session \<and> sh_scope h = scope) \<and> i \<in> set items \<and>
       (trusted \<or> items = [i]) \<and> (case handle of None \<Rightarrow> items = [i] | Some name \<Rightarrow> si_handle i = name)
   | Needs_clarification candidates \<Rightarrow> candidates = items \<and> 1 < length items \<and> (trusted \<longrightarrow> handle = None)
   | Target_not_found \<Rightarrow> header = None \<or> items = [] \<or>
       (\<exists>h. header = Some h \<and> (sh_session h \<noteq> session \<or> sh_scope h \<noteq> scope)) \<or>
       (\<exists>name. handle = Some name \<and> (\<forall>i \<in> set items. si_handle i \<noteq> name))"
proof (cases header)
  case None
  then show ?thesis by (simp add: resolveManagementTarget_def)
next
  case (Some h)
  show ?thesis
  proof (cases "sh_session h = session \<and> sh_scope h = scope \<and> items \<noteq> [] \<and> (trusted \<or> length items \<le> 1)")
    case False
    then show ?thesis
      using Some by (auto simp: resolveManagementTarget_def)
  next
    case True
    then have one: "trusted \<or> items = [i]" if "i \<in> set items" for i
      using that by (cases items) auto
    have "resolveManagementTarget scope session handle trusted header items =
        (case handle of
           Some name \<Rightarrow> (case find (\<lambda>i. si_handle i = name) items of None \<Rightarrow> Target_not_found | Some i \<Rightarrow> Bound i)
         | None \<Rightarrow> (case items of [i] \<Rightarrow> Bound i | _ \<Rightarrow> Needs_clarification items))"
      using True by (auto simp: resolveManagementTarget_def Some)
    then show ?thesis
      using True one find_in
      by (cases handle) (fastforce simp: Some find_None_iff split: option.splits list.splits)+
  qed
qed

theorem target_is_unambiguous_witness:
  "resolveManagementTarget (js ''conversation'') (mem_uuid 2) None False (Some mem_header) [mem_item] = Bound mem_item \<and>
   sh_session mem_header = mem_uuid 2"
proof -
  have "resolveManagementTarget (js ''conversation'') (mem_uuid 2) None False (Some mem_header) [mem_item] = Bound mem_item"
    by (simp add: resolveManagementTarget_def mem_header_def)
  then show ?thesis
    using target_is_unambiguous [where scope = "js ''conversation''" and session = "mem_uuid 2" and handle = None and
        trusted = False and header = "Some mem_header" and items = "[mem_item]"] by simp
qed

subsection \<open>Raw texts\<close>

text \<open>C33. The raw text of a turn is stored whole: its chunks, joined in order, are the text, no surrogate pair is cut by a
  chunk border, every chunk has between one and 7000 code points, and there are exactly as many chunks as that takes.\<close>

theorem raw_text_is_whole:
  "concat (splitRawChunks t) = t \<and> concat (map chars (splitRawChunks t)) = chars t \<and>
   (\<forall>c \<in> set (splitRawChunks t). 1 \<le> countCodePoints c \<and> countCodePoints c \<le> MEMORY_RAW_CHUNK_CP) \<and>
   length (splitRawChunks t) = (countCodePoints t + MEMORY_RAW_CHUNK_CP - 1) div MEMORY_RAW_CHUNK_CP"
proof -
  have n: "0 < MEMORY_RAW_CHUNK_CP"
    by (simp add: MEMORY_RAW_CHUNK_CP_def)
  note parts = slices_chars [OF n, of "chars t"]
  have whole: "concat (concat (map chars xs)) = concat xs" for xs :: "jstr list"
    by (induction xs) auto
  have "concat (splitRawChunks t) = concat (concat (map chars (splitRawChunks t)))"
    unfolding whole ..
  also have "\<dots> = t"
    using parts by (simp add: splitRawChunks_def)
  finally show ?thesis
    using parts slices_count [OF n, of "chars t"] by (auto simp: splitRawChunks_def length_chars)
qed

theorem raw_text_is_whole_witness: "concat (splitRawChunks (js ''hello'')) = js ''hello'' \<and> length (splitRawChunks (js ''hello'')) = 1"
proof -
  have "countCodePoints (js ''hello'') = 5"
    by code_simp
  then show ?thesis
    using raw_text_is_whole [of "js ''hello''"] by (simp add: MEMORY_RAW_CHUNK_CP_def)
qed

end
