(* ===== verification/Spec2Isabelle.thy ===== *)
theory Spec2Isabelle
  imports Instant_Spec Json Contracts Events Kernel_Claims Work_Claims Memory_Claims
begin

text \<open>
  Verification library of the companion harness: the durable core of its kernel, as a state machine over
  an explicit store, with the theorems that make it correct.

  \<^bold>\<open>The program.\<close> The harness is a personal assistant: an application server posts a user's messages to a
  kernel, which stores sessions, turns and runs in SQLite, an agent engine works on a run with a model
  and tools, and external calendar writes happen only after the user has approved a proposal. What must never go
  wrong is what the kernel stores: runs move through a fixed life cycle with a journal of numbered
  events, requests are idempotent, and an approved write is issued at most once. The contracts
  package fixes the shapes of everything that is stored or sent. Beside the kernel a memory service keeps what was said
  in an external memory process: it queues every write in a durable outbox, drains the outbox in bounded ticks, and
  stages the corrections and retirements that the user asks for, whose status the client polls. The kernel also records
  what the user wants and works on: purposes, the tasks under them, and the handoffs with which a person delegates a task by
  hand and closes it with verified results.

  \<^bold>\<open>The theories and the code.\<close> Paths are under src/packages, those of the memory service under src/apps/server/src.

  \<^item> \<open>Prelude\<close>: JavaScript strings as lists of UTF-16 code units, results of operations that may throw
    (\<open>kerr + 'a\<close>), lemmas on tables that are lists of rows.
  \<^item> \<open>Js_Text\<close>, \<open>Ids\<close> (contracts/src/ids.ts, references.ts, kernel/src/canonical.ts): code points and UTF-8
    lengths; UUID v4, digests, Unix milliseconds and the closed set of idempotency scopes.
  \<^item> \<open>Instants\<close> (contracts/src/instant.ts): the strict instant parser with its calendar. \<open>Instant_Spec\<close> is its
    specification, which uses nothing of the parser: the days of the Gregorian calendar counted year by year and month by
    month, a fraction as the rational number its digits denote, and the exact instant as a rational number of milliseconds.
  \<^item> \<open>Json\<close> (kernel/src/canonical.ts): canonical JSON and the domain-separated request hash.
  \<^item> \<open>Contracts\<close> (contracts/src/run_status.ts, turn_input.ts, frozen_context.ts, structured_answer.ts, run_result.ts):
    schemas as predicates on records and datatypes; \<open>Schema.parse\<close> is the predicate with an error.
  \<^item> \<open>Events\<close> (contracts/src/events.ts, action.ts, model.ts, tools.ts): the durable event payloads and the four
    generations of the payload registry.
  \<^item> \<open>Store\<close> (kernel/migrations, \<open>appendEventInTx\<close> and the row helpers of kernel/src/repository.ts): one table of typed
    rows per SQL table, one definition per statement with the constraints it can violate, immediate transactions.
  \<^item> \<open>Action_Runs\<close> (kernel/src/action_executions.ts): the boundaries of an approved write: pickup, preflight
    failure and block, one-shot grant, cancellation, plain terminals, and the validation and
    recovery of all action runs at start-up. \<open>Action_Ends\<close>: the verified terminals of a reschedule and of a create, which
    commit together with the presentation of what the read-back found.
  \<^item> \<open>Run_Repo\<close> (kernel/src/repository.ts, and \<open>commitStaged\<close> of kernel/src/action_proposals.ts): sessions, messages,
    retries, decisions on proposals, the transitions of a run, the restart sweep and drain.
  \<^item> \<open>Run_Writers\<close> (kernel/src/repository.ts, broker.ts, reference_manager.ts): the other writers of sessions, turns, runs and
    run events: companion messages, model step events, the memory status of a run, the broker's budget and its two
    events of a tool call, the presentation of references.
  \<^item> \<open>Kernel\<close>: all of these as one labelled transition system, \<open>kernel_step\<close>, with any arguments and any
    generated ids. Of the tables of the store, \<open>env_step\<close> changes those that only other components write: the staged
    entries, the targets and connectors that a stager reads, the reference context of a session (a row per session
    stays), and it may append activities.

  \<^item> \<open>Iso_Dates\<close>, \<open>Json_Parse\<close>: \<open>Date.prototype.toISOString\<close> and \<open>JSON.parse\<close> of the language's standard library, with
    which the modelled code writes and reads its instants and stored requests.
  \<^item> \<open>Memory_Outbox\<close> (kernel/src/repository.ts, migrations 0008 and 0009): the jobs of the memory outbox and the management
    operations: enqueue, claim, acknowledge, fail and rearm, staging and the mirrored ends, each an immediate transaction.
  \<^item> \<open>Memory_Citations\<close> (kernel/src/repository.ts): what a recall showed to a run, what its answer cited, the snapshots of
    explicit searches.
  \<^item> \<open>Memory_Service\<close> (memory_service.ts): the stable keys, the record that a management request means, staging.
  \<^item> \<open>Memory_Worker\<close> (memory_service.ts): the follow-ups of a job, its execution and the drain tick.
  \<^item> \<open>Memory_Cultivation\<close> (memory_service.ts, \<open>collectCitedMemoryOrdinals\<close> of kernel/src/agent.ts): what a completed
    run leaves in the outbox: feedback for its citations, the raw texts in chunks, the extracted items; the distill job.
  \<^item> \<open>Memory_System\<close>: all of these as one transition system, \<open>memory_step\<close>.

  \<^item> \<open>Work_Store\<close> (kernel/migrations 0011, 0019, 0034, the row helpers of kernel/src/autonomy.ts and handoff.ts, the response
    schemas of contracts/src/autonomy.ts): purposes, tasks, handoffs, their attempts, events and stored answers.
  \<^item> \<open>Handoffs\<close> (kernel/src/handoff.ts): creation and supersession, dispatch, report, verification, failure, cancellation,
    abnormal exit, attempts, reaffirmation, the two hooks that leave reevaluation notices, and the reads.
  \<^item> \<open>Autonomy\<close> (kernel/src/autonomy.ts): creation, correction, confirmation and end of purposes, with the holds of their
    tasks and the notices of their handoffs; creation, start, hold, resumption, completion and cancellation of tasks.
  \<^item> \<open>Work_System\<close>: all requests of the two services as one transition system, \<open>work_step\<close>; \<open>handoff_request\<close> is any
    request that changes a handoff.

  \<^bold>\<open>The correspondence.\<close> A row is a record with the table's columns; a nullable column is an option. A
  statement takes the store to an error or to the next store; \<open>withImmediate\<close> commits or leaves the store as it was. Every
  throw of the code is a constructor of \<open>kerr\<close>. Identifiers that the code generates are arguments, in the order
  in which it generates them, and nothing is assumed of them: a duplicate runs into the
  table's key, as it would in SQLite. The clock is an argument. The digest is a parameter \<open>H\<close>;
  the properties that tell two requests apart name its injectivity as a hypothesis.
  In the memory service the digest \<open>w_D\<close> cuts a stable key out of 32 hexadecimal digits, so it cannot be injective; a
  history carries a set \<open>issued\<close> of logical writes that contains all the writes its steps make, and a start is admissible when
  the keys of the writes in that set are distinct. The reply of the memory process to a job is an argument (\<open>cli_outcome\<close>), so
  are the live state of a record at staging, the items that the model extracted, and the topics and quotes that their bodies yield
  (\<open>w_tags\<close>, \<open>w_quote\<close>).
  An operation on purposes or tasks also writes, in the same transaction, the tables of the shadow queue, the trials, the
  constraint rules and the learning hypotheses. Nothing in the model reads them, so such a write is only the error with which it
  aborts the transaction, if any (\<open>bridge\<close>); the operations are modelled for databases that have all migrations.

  \<^bold>\<open>The lemma groups.\<close> \<open>Run_Journal\<close> says what a run's events mean (replaying them gives the run's status) and \<open>Run_Inv\<close>,
  \<open>Run_Steps\<close>, \<open>Run_Trail\<close> and \<open>Run_Alloc\<close> that every operation keeps this and the keys of the tables. \<open>Action_Inv\<close> and
  \<open>Action_Steps\<close> do the same for the executions of approved writes, and \<open>Writer_Steps\<close> for the operations of \<open>Run_Writers\<close>
  and \<open>Action_Ends\<close>. \<open>Kernel_Inv\<close> joins the two, \<open>Recovery\<close> shows that start-up
  recovery accepts every store that satisfies them. \<open>Transition\<close> and \<open>History\<close> are the interfaces: a
  locale of transition systems with an invariant, interpreted on \<open>kernel_step\<close>, and a locale of relations that every
  statement respects, interpreted on the relation \<open>remembers\<close>, which says what is never rewritten. \<open>Scenario\<close> is a concrete
  history from an empty store to an approved write and its branches; its states are reachable. \<open>Kernel_Claims\<close> holds the
  properties of the kernel, each with an instance on these states.

  \<open>Memory_Inv\<close> states the invariant of the outbox (keys are unique, a pending job has attempts left, an operation has the
  status of the job that decides it, the follow-up of a correction is bound before its source event is acknowledged), \<open>Memory_Steps\<close>
  and \<open>Memory_Drain\<close> show that each operation keeps it, \<open>Memory_System\<close> adds the relation that a run respects and shows that
  a drain tick is a run. \<open>Memory_Scenario\<close> is a concrete history, \<open>Memory_Claims\<close> holds the properties.

  \<open>Handoff_Inv\<close> specifies the life of a handoff as a machine over its events and states the invariant: the numbered journal of a
  row is a run of the machine that ends in what the row stores. \<open>Handoff_Steps\<close> shows that every request is one move of a row,
  \<open>Handoff_Notice\<close> the same of the notices and of creation, with the links between handoffs. \<open>Autonomy_Steps\<close> and \<open>Purpose_Steps\<close>
  show what tasks and purposes keep and what the end of a purpose leaves. \<open>Work_System\<close> interprets the locale of transition
  systems on \<open>work_step\<close>, \<open>Work_Scenario\<close> is a concrete history, \<open>Work_Claims\<close> holds the properties.

  \<^bold>\<open>Totality.\<close> Loops over rows are structural recursions over what a query returned, the recursions over texts and the loop of
  a drain tick have measures. The one recursion with fuel is \<open>JSON.parse\<close>: it gets twice the length of its text plus one, and
  \<open>fuel_enough\<close> shows that more fuel never changes its result. Every operation returns a result or an error.

  \<^bold>\<open>Not modelled.\<close> The agent engine, the model adapters, the connectors and the server around the kernel are not
  modelled; what they write to the modelled tables they write through the operations of \<open>kernel_step\<close>, \<open>memory_step\<close> and
  \<open>work_step\<close>. Of the tool broker the table of its calls and the asynchronous pipeline around a call are left out, with the
  retries when the database is busy; of the reference manager everything but the presentations, whose statements on its own
  tables (resources, snapshots, references, sets) are an argument; of the action execution service the preflight's reads and
  the read view; of the repository the versioned reference context of a session and the records of model calls. The building
  of staged proposals from tool input and the other services with their own tables (references, learning, shadow,
  notifications, trials) are listed in the manifest with their reasons, and so are the parts of autonomy.ts around purposes and tasks: recorded conflicts, staged
  conversation proposals, constraint rules, the stop control and the list queries. Of handoff.ts the text of the
  list cursor and the exported plain-text specification are left out. Of the memory service, recall, the parsing of what the extraction model replied, the record graph and
  the idle maintenance are left out: they talk to the memory process or to a model and add nothing to the outbox but through the
  modelled enqueues. SQLite itself is represented by the constraints of the tables.
\<close>

end
